(* ===== verification/Py_Decimal.thy ===== *)
theory Py_Decimal
  imports Prelude
begin

text \<open>
  Python's \<open>decimal.Decimal\<close> under the default context, as the program uses
  it: 28 significant digits, ROUND_HALF_EVEN. A finite decimal is represented
  by the rational number it denotes; every arithmetic operation computes the
  exact rational result and rounds it to 28 significant digits with \<open>rnd\<close>.
  Constructors (\<open>Decimal(n)\<close> of an int, \<open>Decimal("1.20")\<close>) and comparisons are
  exact, as in Python. The representation identifies \<open>2.0\<close> and \<open>2.00\<close>, which
  compare equal and hash equal in Python and differ only when printed. The
  context's exponent limits (\<open>Emin\<close> and \<open>Emax\<close>, about a million digits) are
  out of reach of every value the program handles and are not represented; nor
  are NaN and the infinities, which the program rejects on input.

  Division by zero raises in Python. Every division of the program is guarded,
  so \<open>ddiv\<close> carries no error value; each use states its guard.
\<close>

type_synonym decimal = rat

section \<open>Definitions\<close>

text \<open>Rounding a rational to the nearest integer, ties to even.\<close>

definition round_half_even :: "rat \<Rightarrow> int" where
  "round_half_even x =
     (let f = \<lfloor>x\<rfloor>; r = x - of_int f
      in if r < 1/2 \<or> r = 1/2 \<and> even f then f else f + 1)"

lemma floor_div10_less:
  fixes y :: rat
  assumes "1 \<le> y"
  shows "nat \<lfloor>y / 10\<rfloor> < nat \<lfloor>y\<rfloor>"
proof -
  have "1 \<le> \<lfloor>y\<rfloor>" using assms by simp
  moreover have "\<lfloor>y / 10\<rfloor> < \<lfloor>y\<rfloor>"
  proof -
    have "(1::rat) \<le> of_int \<lfloor>y\<rfloor>" using \<open>1 \<le> \<lfloor>y\<rfloor>\<close> by (simp only: of_int_1_le_iff)
    moreover have "y - 1 < of_int \<lfloor>y\<rfloor>" by linarith
    moreover have "1 \<le> z \<Longrightarrow> y - 1 < z \<Longrightarrow> y / 10 < z" for z :: rat
      using assms by (cases "y < 10") auto
    ultimately have "y / 10 < of_int \<lfloor>y\<rfloor>" by blast
    then show ?thesis by (simp add: floor_less_iff)
  qed
  ultimately show ?thesis by linarith
qed

function log10_up :: "rat \<Rightarrow> nat" where
  "log10_up q = (if q < 10 then 0 else Suc (log10_up (q / 10)))"
  by pat_completeness auto
termination
proof (relation "measure (\<lambda>q. nat \<lfloor>q\<rfloor>)")
  fix q :: rat
  assume "\<not> q < 10"
  then have "1 \<le> q" by simp
  from floor_div10_less [OF this]
  show "(q / 10, q) \<in> measure (\<lambda>q. nat \<lfloor>q\<rfloor>)" by (simp only: in_measure)
qed simp

function log10_down :: "rat \<Rightarrow> nat" where
  "log10_down q = (if q \<le> 0 \<or> 1 \<le> q then 0 else Suc (log10_down (q * 10)))"
  by pat_completeness auto
termination
proof (relation "measure (\<lambda>q. nat \<lfloor>1 / q\<rfloor>)")
  fix q :: rat
  assume "\<not> (q \<le> 0 \<or> 1 \<le> q)"
  then have "1 \<le> 1 / q" by (simp add: field_simps)
  from floor_div10_less [OF this]
  show "(q * 10, q) \<in> measure (\<lambda>q. nat \<lfloor>1 / q\<rfloor>)" by simp
qed simp

declare log10_up.simps [simp del] log10_down.simps [simp del]

definition pow10 :: "int \<Rightarrow> rat" where
  "pow10 e = (if 0 \<le> e then 10 ^ nat e else 1 / 10 ^ nat (- e))"

text \<open>The exponent of the leading digit of a positive number.\<close>

definition adj_exp :: "rat \<Rightarrow> int" where
  "adj_exp q = (if 1 \<le> q then int (log10_up q) else - int (log10_down q))"

text \<open>Rounding to the 28 significant digits of the default context.\<close>

definition rnd :: "rat \<Rightarrow> decimal" where
  "rnd x = (if x = 0 then 0
            else let u = pow10 (adj_exp \<bar>x\<bar> - 27) in of_int (round_half_even (x / u)) * u)"

definition dadd :: "decimal \<Rightarrow> decimal \<Rightarrow> decimal" where "dadd a b = rnd (a + b)"
definition dsub :: "decimal \<Rightarrow> decimal \<Rightarrow> decimal" where "dsub a b = rnd (a - b)"
definition dmul :: "decimal \<Rightarrow> decimal \<Rightarrow> decimal" where "dmul a b = rnd (a * b)"
definition ddiv :: "decimal \<Rightarrow> decimal \<Rightarrow> decimal" where "ddiv a b = rnd (a / b)"

text \<open>\<open>int(d)\<close> truncates towards zero.\<close>

definition dint :: "decimal \<Rightarrow> int" where
  "dint x = (if 0 \<le> x then \<lfloor>x\<rfloor> else - \<lfloor>- x\<rfloor>)"

text \<open>A number that a 28-digit decimal represents exactly.\<close>

definition is_dec :: "rat \<Rightarrow> bool" where
  "is_dec x \<longleftrightarrow> rnd x = x"

lemmas dec_ops = dadd_def dsub_def dmul_def ddiv_def

section \<open>Powers of ten and the leading exponent\<close>

lemma pow10_pos [simp]: "0 < pow10 e"
  by (simp add: pow10_def)

lemma pow10_abs [simp]: "\<bar>pow10 e\<bar> = pow10 e"
  using pow10_pos [of e] by linarith

lemma pow10_nonzero [simp]: "pow10 e \<noteq> 0"
  using pow10_pos [of e] by linarith

lemma pow10_of_nat: "pow10 (int n) = 10 ^ n"
  by (simp add: pow10_def)

lemma pow10_nonneg: "0 \<le> e \<Longrightarrow> pow10 e = 10 ^ nat e"
  by (simp add: pow10_def)

lemma pow10_powi: "pow10 e = 10 powi e"
  unfolding pow10_def power_int_def
  by (simp only: power_inverse inverse_eq_divide [symmetric] split: if_split)

lemma pow10_add: "pow10 (a + b) = pow10 a * pow10 b"
  by (simp add: pow10_powi power_int_add)

lemma pow10_0 [simp]: "pow10 0 = 1"
  by (simp add: pow10_def)

lemma pow10_Suc: "pow10 (a + 1) = 10 * pow10 a"
  by (simp add: pow10_add pow10_def [of 1])

lemma pow10_less: "a < b \<Longrightarrow> pow10 a < pow10 b"
  unfolding pow10_powi by (rule power_int_strict_increasing) simp_all

lemma pow10_less_iff [simp]: "pow10 a < pow10 b \<longleftrightarrow> a < b"
  using pow10_less [of a b] pow10_less [of b a] by (metis less_asym linorder_neqE_linordered_idom)

lemma pow10_le_iff [simp]: "pow10 a \<le> pow10 b \<longleftrightarrow> a \<le> b"
  by (simp add: linorder_not_less [symmetric])

lemma log10_up_bounds:
  "1 \<le> q \<Longrightarrow> pow10 (int (log10_up q)) \<le> q \<and> q < pow10 (int (log10_up q) + 1)"
proof (induction q rule: log10_up.induct)
  case (1 q)
  show ?case
  proof (cases "q < 10")
    case True
    then show ?thesis using 1 by (simp add: log10_up.simps [of q] pow10_def)
  next
    case False
    let ?n = "int (log10_up (q / 10))"
    from False 1 have ih: "pow10 ?n \<le> q / 10" "q / 10 < pow10 (?n + 1)" by auto
    have "int (log10_up q) = ?n + 1" using False by (simp add: log10_up.simps [of q])
    then show ?thesis using ih pow10_Suc [of ?n] pow10_Suc [of "?n + 1"] by simp
  qed
qed

lemma log10_down_bounds:
  "0 < q \<Longrightarrow> q < 10 \<Longrightarrow>
     pow10 (- int (log10_down q)) \<le> q \<and> (q < 1 \<longrightarrow> q < pow10 (- int (log10_down q) + 1))
     \<or> 1 \<le> q"
proof (induction q rule: log10_down.induct)
  case (1 q)
  show ?case
  proof (cases "1 \<le> q")
    case True
    then show ?thesis by simp
  next
    case False
    let ?d = "log10_down (q * 10)"
    have step: "log10_down q = Suc ?d" using 1 False by (simp add: log10_down.simps [of q])
    have e: "pow10 (- int (Suc ?d) + 1) = 10 * pow10 (- int (Suc ?d))" by (rule pow10_Suc)
    show ?thesis
    proof (cases "1 \<le> q * 10")
      case True
      then have "?d = 0" by (simp add: log10_down.simps)
      then show ?thesis using True False step by (simp add: pow10_def)
    next
      case small: False
      with 1 False have ih: "pow10 (- int ?d) \<le> q * 10" "q * 10 < pow10 (- int ?d + 1)" by auto
      have e2: "- int (Suc ?d) + 1 = - int ?d" by simp
      have "pow10 (- int ?d + 1) = 10 * pow10 (- int ?d)" by (rule pow10_Suc)
      with ih show ?thesis using e unfolding step e2 by simp
    qed
  qed
qed

lemma adj_exp_bounds:
  assumes "0 < q"
  shows "pow10 (adj_exp q) \<le> q" and "q < pow10 (adj_exp q + 1)"
proof -
  have "pow10 (adj_exp q) \<le> q \<and> q < pow10 (adj_exp q + 1)"
  proof (cases "1 \<le> q")
    case True
    then show ?thesis using log10_up_bounds by (simp add: adj_exp_def)
  next
    case False
    then show ?thesis using log10_down_bounds [of q] assms by (simp add: adj_exp_def)
  qed
  then show "pow10 (adj_exp q) \<le> q" "q < pow10 (adj_exp q + 1)" by auto
qed

lemma adj_exp_mono: "0 < x \<Longrightarrow> x \<le> y \<Longrightarrow> adj_exp x \<le> adj_exp y"
proof -
  assume "0 < x" "x \<le> y"
  then have "pow10 (adj_exp x) < pow10 (adj_exp y + 1)"
    using adj_exp_bounds [of x] adj_exp_bounds [of y] by linarith
  then show ?thesis by simp
qed

section \<open>Rounding half even\<close>

lemma round_half_even_of_int [simp]: "round_half_even (of_int n) = n"
  by (simp add: round_half_even_def)

lemma round_half_even_0 [simp]: "round_half_even 0 = 0"
  using round_half_even_of_int [of 0] by simp

lemma round_half_even_near: "\<bar>of_int (round_half_even x) - x\<bar> \<le> 1/2"
  unfolding round_half_even_def Let_def by (auto simp: abs_if) linarith+

lemma round_half_even_mono:
  assumes "x \<le> y"
  shows "round_half_even x \<le> round_half_even y"
proof (cases "\<lfloor>x\<rfloor> = \<lfloor>y\<rfloor>")
  case True
  then show ?thesis using assms unfolding round_half_even_def Let_def by auto
next
  case False
  with assms have "\<lfloor>x\<rfloor> + 1 \<le> \<lfloor>y\<rfloor>" using floor_mono [OF assms] by linarith
  then show ?thesis unfolding round_half_even_def Let_def by auto
qed

lemma floor_minus_frac:
  fixes x :: rat
  assumes "x \<noteq> of_int \<lfloor>x\<rfloor>"
  shows "\<lfloor>- x\<rfloor> = - \<lfloor>x\<rfloor> - 1"
  using assms by linarith

lemma round_half_even_minus: "round_half_even (- x) = - round_half_even x"
proof (cases "x = of_int \<lfloor>x\<rfloor>")
  case True
  then have "- x = of_int (- \<lfloor>x\<rfloor>)" by simp
  then show ?thesis by (metis True round_half_even_of_int)
next
  case False
  note fl = floor_minus_frac [OF False]
  let ?r = "x - of_int \<lfloor>x\<rfloor>"
  have r: "- x - of_int \<lfloor>- x\<rfloor> = 1 - ?r" using fl by simp
  have "0 < ?r" "?r < 1" using False by linarith+
  then show ?thesis
    unfolding round_half_even_def Let_def r fl by (auto simp: algebra_simps)
qed

section \<open>Rounding to 28 digits\<close>

lemma rnd_0 [simp]: "rnd 0 = 0"
  by (simp add: rnd_def)

lemma rnd_minus: "rnd (- x) = - rnd x"
  by (simp add: rnd_def Let_def round_half_even_minus)

text \<open>A number of at most 28 significant digits is not changed.\<close>

lemma rnd_repr:
  assumes "\<bar>m\<bar> < 10 ^ 28"
  shows "rnd (of_int m * pow10 k) = of_int m * pow10 k"
proof (cases "m = 0")
  case False
  define x where "x = of_int m * pow10 k"
  define e where "e = adj_exp \<bar>x\<bar>"
  have ax: "\<bar>x\<bar> = of_int \<bar>m\<bar> * pow10 k" by (simp add: x_def abs_mult)
  have xnz: "x \<noteq> 0" using False by (simp add: x_def)
  have "(of_int \<bar>m\<bar> :: rat) < of_int (10 ^ 28)" using assms by (simp only: of_int_less_iff)
  then have "(of_int \<bar>m\<bar> :: rat) < pow10 28" by (simp add: pow10_def)
  then have "\<bar>x\<bar> < pow10 28 * pow10 k" unfolding ax by (rule mult_strict_right_mono) simp
  then have "pow10 e < pow10 (28 + k)"
    using adj_exp_bounds(1) [of "\<bar>x\<bar>"] xnz by (simp add: e_def pow10_add)
  then have "0 \<le> k - (e - 27)" by simp
  then have int: "pow10 (k - (e - 27)) = of_int (10 ^ nat (k - (e - 27)))"
    by (simp add: pow10_def)
  have "x / pow10 (e - 27) = of_int m * pow10 (k - (e - 27))"
    using pow10_add [of "k - (e - 27)" "e - 27"] by (simp add: x_def field_simps)
  also have "\<dots> = of_int (m * 10 ^ nat (k - (e - 27)))" by (simp only: int of_int_mult)
  finally have "of_int (round_half_even (x / pow10 (e - 27))) = x / pow10 (e - 27)"
    by (metis round_half_even_of_int)
  then show ?thesis using xnz by (simp add: rnd_def Let_def e_def x_def)
qed simp

lemma is_dec_int: "\<bar>n\<bar> < 10 ^ 28 \<Longrightarrow> is_dec (of_int n)"
  using rnd_repr [of n 0] by (simp add: is_dec_def)

lemma rnd_pow10 [simp]: "rnd (pow10 e) = pow10 e"
  using rnd_repr [of 1 e] by simp

lemma rnd_scaled:
  assumes "0 < x"
  obtains m where "rnd x = of_int m * pow10 (adj_exp x - 27)"
    and "10 ^ 27 \<le> m" and "m \<le> 10 ^ 28" and "m = round_half_even (x / pow10 (adj_exp x - 27))"
proof
  let ?u = "pow10 (adj_exp x - 27)"
  let ?m = "round_half_even (x / ?u)"
  have u: "pow10 (adj_exp x) = 10 ^ 27 * ?u" "pow10 (adj_exp x + 1) = 10 ^ 28 * ?u"
    using pow10_add [of 27 "adj_exp x - 27"] pow10_add [of 28 "adj_exp x - 27"]
    by (simp_all add: pow10_def [of 27] pow10_def [of 28] add.commute)
  have "of_int (10 ^ 27) \<le> x / ?u" "x / ?u \<le> of_int (10 ^ 28)"
    using adj_exp_bounds [OF assms] unfolding u by (simp_all add: field_simps)
  then have "round_half_even (of_int (10 ^ 27)) \<le> ?m" "?m \<le> round_half_even (of_int (10 ^ 28))"
    by (blast intro: round_half_even_mono)+
  then show "10 ^ 27 \<le> ?m" "?m \<le> 10 ^ 28" by (simp_all only: round_half_even_of_int)
  show "rnd x = of_int ?m * ?u" using assms by (simp add: rnd_def Let_def)
qed simp

lemma rnd_pos: "0 < x \<Longrightarrow> 0 < rnd x"
  by (erule rnd_scaled) (simp add: zero_less_mult_iff)

text \<open>Rounding lands on a number it does not change: the result is a decimal.\<close>

lemma rnd_idem_pos:
  assumes "0 < x"
  shows "rnd (rnd x) = rnd x"
proof -
  from rnd_scaled [OF assms] obtain m where
    m: "rnd x = of_int m * pow10 (adj_exp x - 27)" "10 ^ 27 \<le> m" "m \<le> 10 ^ 28" by blast
  show ?thesis
  proof (cases "m = 10 ^ 28")
    case True
    then have "rnd x = pow10 28 * pow10 (adj_exp x - 27)" by (simp add: m pow10_def [of 28])
    then show ?thesis by (simp only: pow10_add [symmetric] rnd_pow10)
  next
    case False
    with m show ?thesis using rnd_repr [of m] by simp
  qed
qed

lemma is_dec_rnd [simp]: "is_dec (rnd x)"
proof (cases x "0::rat" rule: linorder_cases)
  case less
  then have "rnd (rnd (- x)) = rnd (- x)" by (intro rnd_idem_pos) simp
  then show ?thesis by (simp add: is_dec_def rnd_minus)
qed (auto simp: is_dec_def rnd_idem_pos)

lemma is_dec_ops [simp]:
  "is_dec (dadd a b)" "is_dec (dsub a b)" "is_dec (dmul a b)" "is_dec (ddiv a b)"
  by (simp_all add: dec_ops)

text \<open>Rounding is monotone: the fact every bound in the development rests on.\<close>

lemma rnd_mono_pos:
  assumes "0 < x" and "x \<le> y"
  shows "rnd x \<le> rnd y"
proof -
  have "0 < y" using assms by linarith
  from rnd_scaled [OF assms(1)] obtain m where m: "rnd x = of_int m * pow10 (adj_exp x - 27)"
    "m \<le> 10 ^ 28" "m = round_half_even (x / pow10 (adj_exp x - 27))" by blast
  from rnd_scaled [OF \<open>0 < y\<close>] obtain n where n: "rnd y = of_int n * pow10 (adj_exp y - 27)"
    "10 ^ 27 \<le> n" "n = round_half_even (y / pow10 (adj_exp y - 27))" by blast
  show ?thesis
  proof (cases "adj_exp x = adj_exp y")
    case True
    then have "m \<le> n" unfolding m n using assms
      by (intro round_half_even_mono) (simp add: divide_right_mono less_imp_le)
    then show ?thesis unfolding m(1) n(1) True by (intro mult_right_mono) (auto simp: less_imp_le)
  next
    case False
    then have lt: "adj_exp x + 1 \<le> adj_exp y" using adj_exp_mono [OF assms] by linarith
    have "(of_int m :: rat) \<le> of_int (10 ^ 28)" "(of_int (10 ^ 27) :: rat) \<le> of_int n"
      using m(2) n(2) by (simp_all only: of_int_le_iff)
    then have "(of_int m :: rat) \<le> pow10 28" "pow10 27 \<le> (of_int n :: rat)"
      by (simp_all add: pow10_def)
    then have "rnd x \<le> pow10 28 * pow10 (adj_exp x - 27)" "pow10 27 * pow10 (adj_exp y - 27) \<le> rnd y"
      unfolding m(1) n(1) by (simp_all add: mult_right_mono less_imp_le)
    moreover have "pow10 28 * pow10 (adj_exp x - 27) \<le> pow10 27 * pow10 (adj_exp y - 27)"
      using lt by (simp add: pow10_add [symmetric])
    ultimately show ?thesis by linarith
  qed
qed

lemma rnd_nonneg_iff [simp]: "0 \<le> rnd x \<longleftrightarrow> 0 \<le> x"
  using rnd_pos [of x] rnd_pos [of "- x"] by (cases x "0::rat" rule: linorder_cases) (auto simp: rnd_minus)

lemma rnd_pos_iff [simp]: "0 < rnd x \<longleftrightarrow> 0 < x"
  using rnd_nonneg_iff [of "- x"] by (simp only: rnd_minus neg_0_le_iff_le) linarith

lemma rnd_eq_0_iff [simp]: "rnd x = 0 \<longleftrightarrow> x = 0"
  using rnd_pos_iff [of x] rnd_nonneg_iff [of x] by linarith

theorem rnd_mono: "x \<le> y \<Longrightarrow> rnd x \<le> rnd y"
proof -
  assume le: "x \<le> y"
  consider "0 < x" | "x \<le> 0" "0 \<le> y" | "y < 0" by linarith
  then show ?thesis
  proof cases
    case 1
    then show ?thesis using le by (rule rnd_mono_pos)
  next
    case 2
    then have "rnd x \<le> 0" "0 \<le> rnd y" using rnd_nonneg_iff [of "- x"] by (auto simp: rnd_minus)
    then show ?thesis by linarith
  next
    case 3
    then have "rnd (- y) \<le> rnd (- x)" using le by (intro rnd_mono_pos) auto
    then show ?thesis by (simp add: rnd_minus)
  qed
qed

text \<open>A decimal bound on the exact value bounds the rounded value.\<close>

lemma rnd_ge: "is_dec a \<Longrightarrow> a \<le> x \<Longrightarrow> a \<le> rnd x"
  using rnd_mono [of a x] by (simp add: is_dec_def)

lemma rnd_le: "is_dec a \<Longrightarrow> x \<le> a \<Longrightarrow> rnd x \<le> a"
  using rnd_mono [of x a] by (simp add: is_dec_def)

lemma rnd_dec: "is_dec x \<Longrightarrow> rnd x = x"
  by (simp add: is_dec_def)

lemma is_dec_numerals [simp]: "is_dec 0" "is_dec 1" "is_dec 100"
  using is_dec_int [of 0] is_dec_int [of 1] is_dec_int [of 100] by simp_all

lemma is_dec_minus [simp]: "is_dec (- x) \<longleftrightarrow> is_dec x"
  by (simp add: is_dec_def rnd_minus)

text \<open>The rounding error: at most half a unit in the 28th digit.\<close>

lemma rnd_error: "\<bar>rnd x - x\<bar> \<le> \<bar>x\<bar> / (2 * 10 ^ 27)"
proof (cases "x = 0")
  case False
  let ?u = "pow10 (adj_exp \<bar>x\<bar> - 27)"
  have "rnd x - x = (of_int (round_half_even (x / ?u)) - x / ?u) * ?u"
    using False by (simp add: rnd_def Let_def left_diff_distrib)
  then have "\<bar>rnd x - x\<bar> = \<bar>of_int (round_half_even (x / ?u)) - x / ?u\<bar> * ?u"
    by (simp add: abs_mult)
  also have "\<dots> \<le> 1 / 2 * ?u" by (intro mult_right_mono round_half_even_near) (simp add: less_imp_le)
  also have "\<dots> \<le> \<bar>x\<bar> / (2 * 10 ^ 27)"
    using adj_exp_bounds(1) [of "\<bar>x\<bar>"] False pow10_add [of 27 "adj_exp \<bar>x\<bar> - 27"]
    by (simp add: pow10_def [of 27])
  finally show ?thesis .
qed simp

text \<open>Truncation.\<close>

lemma dint_of_int [simp]: "dint (of_int n) = n"
  by (simp add: dint_def)

lemma dint_nonneg: "0 \<le> x \<Longrightarrow> 0 \<le> dint x"
  by (simp add: dint_def)

lemma dint_le: "0 \<le> x \<Longrightarrow> of_int (dint x) \<le> x"
  by (simp add: dint_def)

lemma dint_mono: "0 \<le> x \<Longrightarrow> x \<le> y \<Longrightarrow> dint x \<le> dint y"
  by (simp add: dint_def floor_mono)

end
