(* ===== verification/Py_Float.thy ===== *)
theory Py_Float
  imports Py_Decimal
begin

text \<open>
  Python's \<open>float\<close>, IEEE binary64 with round-half-even, as the liquidity planner
  uses it. A finite float is represented by the rational number it denotes; an
  arithmetic operation, the conversion of an int and the true division of ints
  compute the exact result and round it to 53 significant bits with \<open>fl\<close>.
  Overflow (beyond \<open>2^1024\<close>) and the loss of precision below \<open>2^-1022\<close> are out of
  reach of amounts, prices and bin ids and are not represented; a caller's inf or
  NaN is not a value of the model.
\<close>

type_synonym pyfloat = rat

section \<open>Definitions\<close>

text \<open>The exponent of the leading bit of a positive number.\<close>

lemma floor_half_less:
  fixes y :: rat
  assumes "1 \<le> y"
  shows "nat \<lfloor>y / 2\<rfloor> < nat \<lfloor>y\<rfloor>"
proof -
  have "\<lfloor>y / 2\<rfloor> < \<lfloor>y\<rfloor>"
  proof (cases "y < 2")
    case True
    then have "\<lfloor>y / 2\<rfloor> < 1" by (simp add: floor_less_iff)
    then show ?thesis using assms by (simp add: less_le_trans [of _ 1])
  next
    case False
    then have "y / 2 \<le> y - 1" by simp
    then have "\<lfloor>y / 2\<rfloor> \<le> \<lfloor>y - 1\<rfloor>" by (rule floor_mono)
    then show ?thesis by simp
  qed
  then show ?thesis using assms by simp
qed

function log2_up :: "rat \<Rightarrow> nat" where
  "log2_up q = (if q < 2 then 0 else Suc (log2_up (q / 2)))"
  by pat_completeness auto
termination
proof (relation "measure (\<lambda>q. nat \<lfloor>q\<rfloor>)")
  fix q :: rat
  assume "\<not> q < 2"
  then have "1 \<le> q" by simp
  from floor_half_less [OF this]
  show "(q / 2, q) \<in> measure (\<lambda>q. nat \<lfloor>q\<rfloor>)" by (simp only: in_measure)
qed simp

function log2_down :: "rat \<Rightarrow> nat" where
  "log2_down q = (if q \<le> 0 \<or> 1 \<le> q then 0 else Suc (log2_down (q * 2)))"
  by pat_completeness auto
termination
proof (relation "measure (\<lambda>q. nat \<lfloor>1 / q\<rfloor>)")
  fix q :: rat
  assume "\<not> (q \<le> 0 \<or> 1 \<le> q)"
  then have "1 \<le> 1 / q" by (simp add: field_simps)
  from floor_half_less [OF this]
  show "(q * 2, q) \<in> measure (\<lambda>q. nat \<lfloor>1 / q\<rfloor>)" by simp
qed simp

declare log2_up.simps [simp del] log2_down.simps [simp del]

definition pow2 :: "int \<Rightarrow> rat" where
  "pow2 e = (if 0 \<le> e then 2 ^ nat e else 1 / 2 ^ nat (- e))"

definition bit_exp :: "rat \<Rightarrow> int" where
  "bit_exp q = (if 1 \<le> q then int (log2_up q) else - int (log2_down q))"

definition fl :: "rat \<Rightarrow> pyfloat" where
  "fl x = (if x = 0 then 0
           else let u = pow2 (bit_exp \<bar>x\<bar> - 52) in of_int (round_half_even (x / u)) * u)"

definition fadd :: "pyfloat \<Rightarrow> pyfloat \<Rightarrow> pyfloat" where "fadd a b = fl (a + b)"
definition fsub :: "pyfloat \<Rightarrow> pyfloat \<Rightarrow> pyfloat" where "fsub a b = fl (a - b)"
definition fmul :: "pyfloat \<Rightarrow> pyfloat \<Rightarrow> pyfloat" where "fmul a b = fl (a * b)"

text \<open>\<open>float(n)\<close> and the true division of two ints, which Python rounds once.\<close>

definition float_of :: "int \<Rightarrow> pyfloat" where "float_of n = fl (of_int n)"
definition int_div :: "int \<Rightarrow> int \<Rightarrow> pyfloat" where "int_div a b = fl (of_int a / of_int b)"

text \<open>Division by a float zero raises in Python; every use states its guard.\<close>

definition fdiv :: "pyfloat \<Rightarrow> pyfloat \<Rightarrow> pyfloat" where "fdiv a b = fl (a / b)"

section \<open>The rounding error\<close>

lemma pow2_pos [simp]: "0 < pow2 e"
  by (simp add: pow2_def)

lemma pow2_nonzero [simp]: "pow2 e \<noteq> 0"
  by (simp add: pow2_def)

lemma pow2_abs [simp]: "\<bar>pow2 e\<bar> = pow2 e"
  by (simp add: pow2_def)

lemma pow2_powi: "pow2 e = 2 powi e"
  unfolding pow2_def power_int_def
  by (simp only: power_inverse inverse_eq_divide [symmetric] split: if_split)

lemma pow2_add: "pow2 (a + b) = pow2 a * pow2 b"
  by (simp add: pow2_powi power_int_add)

lemma pow2_of_nat: "pow2 (int n) = 2 ^ n"
  by (simp add: pow2_def)

lemma log2_up_le: "1 \<le> q \<Longrightarrow> (2::rat) ^ log2_up q \<le> q"
proof (induction q rule: log2_up.induct)
  case (1 q)
  then show ?case by (cases "q < 2") (simp_all add: log2_up.simps [of q])
qed

lemma log2_down_le: "0 < q \<Longrightarrow> q < 1 \<Longrightarrow> 1 \<le> q * (2::rat) ^ log2_down q"
proof (induction q rule: log2_down.induct)
  case (1 q)
  show ?case
  proof (cases "1 \<le> q * 2")
    case True
    then have "log2_down (q * 2) = 0" by (simp add: log2_down.simps [of "q * 2"])
    then show ?thesis using True 1 by (simp add: log2_down.simps [of q])
  next
    case False
    then show ?thesis using 1 by (simp add: log2_down.simps [of q] mult.assoc)
  qed
qed

lemma bit_exp_le: "0 < q \<Longrightarrow> pow2 (bit_exp q) \<le> q"
proof (cases "1 \<le> q")
  case True
  then show ?thesis by (simp add: bit_exp_def pow2_of_nat log2_up_le)
next
  case False
  assume "0 < q"
  then have "1 \<le> q * 2 ^ log2_down q" using False by (intro log2_down_le) auto
  moreover have "pow2 (- int (log2_down q)) * 2 ^ log2_down q = 1"
    by (simp add: pow2_of_nat [symmetric] pow2_add [symmetric]) (simp add: pow2_def)
  ultimately have "pow2 (- int (log2_down q)) * 2 ^ log2_down q \<le> q * 2 ^ log2_down q" by simp
  then show ?thesis using False by (simp add: bit_exp_def)
qed

text \<open>The relative error of one operation.\<close>

lemma fl_error: "\<bar>fl x - x\<bar> \<le> \<bar>x\<bar> / 2 ^ 53"
proof (cases "x = 0")
  case False
  let ?u = "pow2 (bit_exp \<bar>x\<bar> - 52)"
  have "fl x - x = (of_int (round_half_even (x / ?u)) - x / ?u) * ?u"
    using False pow2_pos [of "bit_exp \<bar>x\<bar> - 52"] by (simp add: fl_def Let_def left_diff_distrib)
  then have "\<bar>fl x - x\<bar> = \<bar>of_int (round_half_even (x / ?u)) - x / ?u\<bar> * ?u"
    by (simp only: abs_mult pow2_abs)
  also have "\<dots> \<le> 1/2 * ?u"
    by (intro mult_right_mono round_half_even_near less_imp_le [OF pow2_pos])
  also have "\<dots> = pow2 (bit_exp \<bar>x\<bar>) / 2 ^ 53"
    by (simp add: pow2_powi power_int_diff)
  also have "\<dots> \<le> \<bar>x\<bar> / 2 ^ 53"
    using bit_exp_le [of "\<bar>x\<bar>"] False by (intro divide_right_mono) simp_all
  finally show ?thesis .
qed (simp add: fl_def)

lemma fl_at_least: "0 \<le> x \<Longrightarrow> x * (1 - 1 / 2 ^ 53) \<le> fl x"
proof -
  assume "0 \<le> x"
  then have "\<bar>fl x - x\<bar> \<le> x / 2 ^ 53" using fl_error [of x] by (simp only: abs_of_nonneg)
  then show ?thesis unfolding abs_le_iff distrib_left right_diff_distrib mult_1_right times_divide_eq_right by linarith
qed

lemma fl_at_most: "0 \<le> x \<Longrightarrow> fl x \<le> x * (1 + 1 / 2 ^ 53)"
proof -
  assume "0 \<le> x"
  then have "\<bar>fl x - x\<bar> \<le> x / 2 ^ 53" using fl_error [of x] by (simp only: abs_of_nonneg)
  then show ?thesis unfolding abs_le_iff distrib_left right_diff_distrib mult_1_right times_divide_eq_right by linarith
qed

lemma fl_nonneg: "0 \<le> x \<Longrightarrow> 0 \<le> fl x"
  by (rule order_trans [OF _ fl_at_least]) simp_all

lemma fl_pos: "0 < x \<Longrightarrow> 0 < fl x"
  by (rule less_le_trans [OF _ fl_at_least]) simp_all

end
