(* ===== verification/Rounding.thy ===== *)
theory Rounding
  imports Py_Float
begin

text \<open>
  Decimal and float arithmetic evaluated in integers. Both round a fraction to a number of
  digits, of base ten and of base two. The code equations below compute the digits and the
  exponent of the result without a gcd, and are proved equal to the definitions of
  \<open>Py_Decimal\<close> and \<open>Py_Float\<close>; every concrete run of the program below evaluates by them.
\<close>

section \<open>The leading digit of a fraction\<close>

function up_digits :: "int \<Rightarrow> int \<Rightarrow> int \<Rightarrow> int" where
  "up_digits B n d = (if B < 2 \<or> d \<le> 0 \<or> n < B * d then 0 else 1 + up_digits B n (B * d))"
  by pat_completeness auto
termination
proof (relation "measure (\<lambda>(B, n, d). nat (n - d))")
  fix B n d :: int
  assume a: "\<not> (B < 2 \<or> d \<le> 0 \<or> n < B * d)"
  then have "2 * d \<le> B * d" by (intro mult_right_mono) auto
  with a have "d < n" "d < B * d" by linarith+
  then show "((B, n, B * d), (B, n, d)) \<in> measure (\<lambda>(B, n, d). nat (n - d))" by simp
qed simp

function down_digits :: "int \<Rightarrow> int \<Rightarrow> int \<Rightarrow> int" where
  "down_digits B n d = (if B < 2 \<or> n \<le> 0 \<or> d \<le> n then 0 else 1 + down_digits B (B * n) d)"
  by pat_completeness auto
termination
proof (relation "measure (\<lambda>(B, n, d). nat (d - n))")
  fix B n d :: int
  assume a: "\<not> (B < 2 \<or> n \<le> 0 \<or> d \<le> n)"
  then have "2 * n \<le> B * n" by (intro mult_right_mono) auto
  with a have "n < d" "n < B * n" by linarith+
  then show "((B, B * n, d), (B, n, d)) \<in> measure (\<lambda>(B, n, d). nat (d - n))" by simp
qed simp

declare up_digits.simps [simp del] down_digits.simps [simp del]

lemma fraction_less: "0 < d \<Longrightarrow> of_int n / of_int d < (of_int B :: rat) \<longleftrightarrow> n < B * d"
proof -
  assume "0 < d"
  then have "of_int n / of_int d < (of_int B :: rat) \<longleftrightarrow> of_int n < (of_int (B * d) :: rat)" by (simp add: divide_less_eq)
  then show ?thesis by (simp only: of_int_less_iff)
qed

lemma fraction_unit: "0 < d \<Longrightarrow> of_int n / of_int d \<le> (0::rat) \<or> 1 \<le> of_int n / (of_int d :: rat) \<longleftrightarrow> n \<le> 0 \<or> d \<le> n"
  by (simp add: zero_le_divide_iff divide_le_0_iff le_divide_eq)

text \<open>The two recursions of the definitions, over a fraction.\<close>

lemma up_digits_fraction:
  assumes "\<And>q. f q = (if q < of_int B then 0 else Suc (f (q / of_int B)))" and "2 \<le> B" and "0 < d"
  shows "int (f (of_int n / of_int d :: rat)) = up_digits B n d"
  using assms
proof (induction B n d rule: up_digits.induct)
  case (1 B n d)
  let ?q = "of_int n / of_int d :: rat"
  show ?case
  proof (cases "n < B * d")
    case True
    then show ?thesis using fraction_less [OF 1(4), of n B] 1(2) [of ?q] by (simp add: up_digits.simps [of B n d])
  next
    case False
    have "?q / of_int B = of_int n / of_int (B * d)" by (simp add: mult.commute)
    moreover have "int (f (of_int n / of_int (B * d))) = up_digits B n (B * d)"
      using False 1(3,4) by (intro 1(1) 1(2)) auto
    moreover have "f ?q = Suc (f (?q / of_int B))" using False fraction_less [OF 1(4), of n B] 1(2) [of ?q] by simp
    ultimately have "int (f ?q) = 1 + up_digits B n (B * d)" by (simp only: of_nat_Suc)
    then show ?thesis using False 1(3,4) by (simp add: up_digits.simps [of B n d])
  qed
qed

lemma down_digits_fraction:
  assumes "\<And>q. f q = (if q \<le> 0 \<or> 1 \<le> q then 0 else Suc (f (q * of_int B)))" and "2 \<le> B" and "0 < d"
  shows "int (f (of_int n / of_int d :: rat)) = down_digits B n d"
  using assms
proof (induction B n d rule: down_digits.induct)
  case (1 B n d)
  let ?q = "of_int n / of_int d :: rat"
  show ?case
  proof (cases "n \<le> 0 \<or> d \<le> n")
    case True
    then show ?thesis using fraction_unit [OF 1(4), of n] 1(2) [of ?q] by (simp add: down_digits.simps [of B n d])
  next
    case False
    have "?q * of_int B = of_int (B * n) / of_int d" by (simp add: mult.commute)
    moreover have "int (f (of_int (B * n) / of_int d)) = down_digits B (B * n) d"
      using False 1(3,4) by (intro 1(1) 1(2)) auto
    moreover have "f ?q = Suc (f (?q * of_int B))" using False fraction_unit [OF 1(4), of n] 1(2) [of ?q] by simp
    ultimately have "int (f ?q) = 1 + down_digits B (B * n) d" by (simp only: of_nat_Suc)
    then show ?thesis using False 1(3) by (simp add: down_digits.simps [of B n d])
  qed
qed

definition lead_digit :: "int \<Rightarrow> int \<Rightarrow> int \<Rightarrow> int" where
  "lead_digit B n d = (if d \<le> n then up_digits B n d else - down_digits B n d)"

lemma bit_exp_fraction: "0 < d \<Longrightarrow> bit_exp (of_int n / of_int d) = lead_digit 2 n d"
proof -
  assume d: "0 < d"
  have "int (log2_up (of_int n / of_int d)) = up_digits 2 n d"
    by (rule up_digits_fraction) (subst log2_up.simps, simp, simp, rule d)
  moreover have "int (log2_down (of_int n / of_int d)) = down_digits 2 n d"
    by (rule down_digits_fraction) (subst log2_down.simps, simp, simp, rule d)
  ultimately show ?thesis using d by (simp add: bit_exp_def lead_digit_def le_divide_eq)
qed

lemma adj_exp_fraction: "0 < d \<Longrightarrow> adj_exp (of_int n / of_int d) = lead_digit 10 n d"
proof -
  assume d: "0 < d"
  have "int (log10_up (of_int n / of_int d)) = up_digits 10 n d"
    by (rule up_digits_fraction) (subst log10_up.simps, simp, simp, rule d)
  moreover have "int (log10_down (of_int n / of_int d)) = down_digits 10 n d"
    by (rule down_digits_fraction) (subst log10_down.simps, simp, simp, rule d)
  ultimately show ?thesis using d by (simp add: adj_exp_def lead_digit_def le_divide_eq)
qed

section \<open>Rounding a fraction\<close>

definition half_even_div :: "int \<Rightarrow> int \<Rightarrow> int" where
  "half_even_div n d = (let q = n div d; r = n mod d in if 2 * r < d \<or> 2 * r = d \<and> even q then q else q + 1)"

lemma round_half_even_fraction: "0 < d \<Longrightarrow> round_half_even (of_int n / of_int d) = half_even_div n d"
proof -
  assume d: "0 < d"
  have f: "\<lfloor>of_int n / of_int d :: rat\<rfloor> = n div d" by (rule floor_divide_of_int_eq)
  have r: "of_int n / of_int d - of_int (n div d) = (of_int (n mod d) / of_int d :: rat)"
    using d by (simp add: field_simps flip: of_int_mult of_int_add)
  have "of_int (n mod d) / of_int d < (1 / 2 :: rat) \<longleftrightarrow> of_int (2 * (n mod d)) < (of_int d :: rat)"
    "of_int (n mod d) / of_int d = (1 / 2 :: rat) \<longleftrightarrow> of_int (2 * (n mod d)) = (of_int d :: rat)"
    using d by (auto simp: field_simps)
  then have c: "of_int (n mod d) / of_int d < (1 / 2 :: rat) \<longleftrightarrow> 2 * (n mod d) < d"
    "of_int (n mod d) / of_int d = (1 / 2 :: rat) \<longleftrightarrow> 2 * (n mod d) = d"
    by (simp_all only: of_int_less_iff of_int_eq_iff)
  show ?thesis unfolding round_half_even_def half_even_div_def Let_def f r c by (rule refl)
qed

definition mantissa :: "int \<Rightarrow> int \<Rightarrow> int \<Rightarrow> int \<Rightarrow> int" where
  "mantissa B s n d = (if 0 \<le> s then half_even_div n (B ^ nat s * d) * B ^ nat s else half_even_div (B ^ nat (- s) * n) d)"

lemma mantissa_fraction:
  assumes "0 < d" and "0 < B" and u: "u = (if 0 \<le> s then of_int B ^ nat s else 1 / of_int B ^ nat (- s))"
  shows "of_int (round_half_even (of_int n / of_int d / u)) * u = (of_int (mantissa B s n d) / of_int B ^ nat (- s) :: rat)"
proof (cases "0 \<le> s")
  case True
  have p: "0 < B ^ nat s * d" using assms(1,2) by simp
  have "of_int n / of_int d / u = of_int n / of_int (B ^ nat s * d)" using True by (simp add: u mult.commute)
  then have "round_half_even (of_int n / of_int d / u) = half_even_div n (B ^ nat s * d)"
    by (simp only: round_half_even_fraction [OF p])
  then show ?thesis using True by (simp add: mantissa_def u)
next
  case False
  have "of_int n / of_int d / u = of_int (B ^ nat (- s) * n) / of_int d" using False by (simp add: u mult.commute)
  then have "round_half_even (of_int n / of_int d / u) = half_even_div (B ^ nat (- s) * n) d"
    by (simp only: round_half_even_fraction [OF assms(1)])
  then show ?thesis using False by (simp add: mantissa_def u)
qed

section \<open>Cancelling\<close>

fun strip_prime :: "int \<Rightarrow> int \<Rightarrow> nat \<Rightarrow> int \<times> int" where
  "strip_prime p m 0 = (m, 1)"
| "strip_prime p m (Suc k) = (if m mod p = 0 then strip_prime p (m div p) k else (m, p ^ Suc k))"

lemma strip_prime_value:
  "p \<noteq> 0 \<Longrightarrow> of_int (fst (strip_prime p m k)) / of_int (snd (strip_prime p m k)) = (of_int m / of_int p ^ k :: rat)"
proof (induction p m k rule: strip_prime.induct)
  case (2 p m k)
  show ?case
  proof (cases "m mod p = 0")
    case True
    then obtain j where "m = p * j" by (auto simp: mod_eq_0_iff_dvd elim: dvdE)
    then show ?thesis using 2 by simp
  qed simp
qed simp

lemma strip_prime_coprime:
  assumes "\<And>m. m mod p \<noteq> 0 \<Longrightarrow> coprime m p" and "0 < p"
  shows "coprime (fst (strip_prime p m k)) (snd (strip_prime p m k)) \<and> 0 < snd (strip_prime p m k)"
  using assms by (induction p m k rule: strip_prime.induct) simp_all

lemma strip_prime_dvd: "fst (strip_prime p m k) dvd m"
proof (induction p m k rule: strip_prime.induct)
  case (2 p m k)
  show ?case
  proof (cases "m mod p = 0")
    case True
    then have "m div p dvd m" by (metis dvd_triv_left mod_0_imp_dvd dvd_mult_div_cancel dvd_triv_right)
    then show ?thesis using 2 True by (auto intro: dvd_trans)
  qed simp
qed simp

lemma coprime_two: "m mod 2 \<noteq> 0 \<Longrightarrow> coprime m (2::int)"
proof -
  assume "m mod 2 \<noteq> 0"
  then have "odd m" by presburger
  then show ?thesis by simp
qed

lemma coprime_five: "m mod 5 \<noteq> 0 \<Longrightarrow> coprime m (5::int)"
proof -
  assume "m mod 5 \<noteq> 0"
  then have "m mod 5 = 1 \<or> m mod 5 = 2 \<or> m mod 5 = 3 \<or> m mod 5 = 4" by presburger
  then have "gcd (5::int) (m mod 5) = 1" by (elim disjE) (simp_all add: gcd_non_0_int)
  then have "gcd m (5::int) = 1" by (simp add: gcd.commute gcd_red_int [of m 5])
  then show ?thesis by (simp add: coprime_iff_gcd_eq_1)
qed

lemma quotient_of_coprime_fraction:
  assumes "x = of_int n / of_int d" and "coprime n d" and "0 < d"
  shows "quotient_of x = (n, d)"
  using assms by (simp add: Fract_of_int_quotient [symmetric] quotient_of_Fract normalize_def Let_def)

lemma strip_two_quotient: "quotient_of (of_int m / of_int 2 ^ k) = strip_prime 2 m k"
  using quotient_of_coprime_fraction [of "of_int m / of_int 2 ^ k" "fst (strip_prime 2 m k)" "snd (strip_prime 2 m k)"]
    strip_prime_value [of 2 m k] strip_prime_coprime [of 2 m k] coprime_two by simp

definition strip_ten :: "int \<Rightarrow> nat \<Rightarrow> int \<times> int" where
  "strip_ten m k = (let (a, twos) = strip_prime 2 m k; (b, fives) = strip_prime 5 a k in (b, twos * fives))"

lemma strip_ten_quotient: "quotient_of (of_int m / of_int 10 ^ k) = strip_ten m k"
proof -
  obtain a twos b fives where s: "strip_prime 2 m k = (a, twos)" "strip_prime 5 a k = (b, fives)" by (metis surj_pair)
  have c: "coprime a twos" "0 < twos" "coprime b fives" "0 < fives"
    using strip_prime_coprime [of 2 m k] coprime_two strip_prime_coprime [of 5 a k] coprime_five by (simp_all add: s)
  have "coprime b twos" using c(1) strip_prime_dvd [of 5 a k] s(2) by (metis coprime_divisors dvd_refl fst_conv)
  then have "coprime b (twos * fives)" using c(3) by simp
  have v: "of_int a / of_int twos = (of_int m / of_int 2 ^ k :: rat)" "of_int b / of_int fives = (of_int a / of_int 5 ^ k :: rat)"
    using strip_prime_value [of 2 m k] strip_prime_value [of 5 a k] by (simp_all add: s)
  have "of_int m / of_int 10 ^ k = (of_int m / of_int 2 ^ k) / (of_int 5 ^ k :: rat)"
    by (simp flip: power_mult_distrib)
  also have "\<dots> = (of_int a / of_int 5 ^ k) / of_int twos" unfolding v(1) [symmetric] by simp
  also have "\<dots> = of_int b / of_int (twos * fives)" unfolding v(2) [symmetric] by simp
  finally have "quotient_of (of_int m / of_int 10 ^ k) = (b, twos * fives)"
    by (rule quotient_of_coprime_fraction) (use \<open>coprime b (twos * fives)\<close> c(2,4) in simp_all)
  then show ?thesis by (simp add: strip_ten_def s)
qed

text \<open>The results as digits and exponent. Reading one back as a fraction needs no gcd.\<close>

definition cancel_by :: "int \<Rightarrow> nat \<Rightarrow> int \<times> nat \<Rightarrow> int \<times> nat" where
  "cancel_by B j e = (case e of (m, k) \<Rightarrow> let c = B ^ j in if j \<le> k \<and> m mod c = 0 then (m div c, k - j) else (m, k))"

definition cancel :: "int \<Rightarrow> int \<Rightarrow> nat \<Rightarrow> int \<times> nat" where
  "cancel B m k = (if m mod B \<noteq> 0 then (m, k)
     else cancel_by B 1 (cancel_by B 2 (cancel_by B 4 (cancel_by B 8 (cancel_by B 16 (cancel_by B 32 (m, k)))))))"

lemma cancel_by_value:
  assumes "B \<noteq> 0"
  shows "of_int (fst (cancel_by B j e)) / of_int B ^ snd (cancel_by B j e) = (of_int (fst e) / of_int B ^ snd e :: rat)"
proof -
  obtain m k where e: "e = (m, k)" by (metis surj_pair)
  show ?thesis
  proof (cases "j \<le> k \<and> m mod B ^ j = 0")
    case True
    then obtain i where "m = B ^ j * i" by (auto simp: mod_eq_0_iff_dvd elim: dvdE)
    moreover obtain l where "k = j + l" using True le_Suc_ex by blast
    ultimately show ?thesis using assms by (simp add: e cancel_by_def power_add)
  next
    case False
    then show ?thesis by (auto simp: e cancel_by_def Let_def)
  qed
qed

lemma cancel_value: "B \<noteq> 0 \<Longrightarrow> of_int (fst (cancel B m k)) / of_int B ^ snd (cancel B m k) = (of_int m / of_int B ^ k :: rat)"
  by (simp add: cancel_def cancel_by_value)

definition dyadic :: "int \<times> nat \<Rightarrow> rat" where "dyadic e = of_int (fst e) / of_int 2 ^ snd e"

definition decimal_digits :: "int \<times> nat \<Rightarrow> rat" where "decimal_digits e = of_int (fst e) / of_int 10 ^ snd e"

lemma digits_code [code abstract]:
  "quotient_of (dyadic e) = strip_prime 2 (fst e) (snd e)"
  "quotient_of (decimal_digits e) = strip_ten (fst e) (snd e)"
  unfolding dyadic_def decimal_digits_def by (rule strip_two_quotient strip_ten_quotient)+

section \<open>Code equations\<close>

definition fl_fraction :: "int \<Rightarrow> int \<Rightarrow> pyfloat" where
  "fl_fraction n d = (if n = 0 then dyadic (0, 0)
     else let s = lead_digit 2 \<bar>n\<bar> d - 52 in dyadic (cancel 2 (mantissa 2 s n d) (nat (- s))))"

definition rnd_fraction :: "int \<Rightarrow> int \<Rightarrow> decimal" where
  "rnd_fraction n d = (if n = 0 then decimal_digits (0, 0)
     else let s = lead_digit 10 \<bar>n\<bar> d - 27 in decimal_digits (cancel 10 (mantissa 10 s n d) (nat (- s))))"

lemma abs_fraction: "0 < d \<Longrightarrow> \<bar>of_int n / of_int d\<bar> = (of_int \<bar>n\<bar> / of_int d :: rat)"
  by simp

lemma fl_of_fraction: "0 < d \<Longrightarrow> fl (of_int n / of_int d) = fl_fraction n d"
proof -
  assume d: "0 < d"
  let ?s = "lead_digit 2 \<bar>n\<bar> d - 52"
  have u: "pow2 ?s = (if 0 \<le> ?s then of_int 2 ^ nat ?s else 1 / of_int 2 ^ nat (- ?s))" by (simp add: pow2_def)
  show ?thesis
  proof (cases "n = 0")
    case False
    then have "of_int n / of_int d \<noteq> (0::rat)" using d by simp
    then have "fl (of_int n / of_int d) = of_int (round_half_even (of_int n / of_int d / pow2 ?s)) * pow2 ?s"
      unfolding fl_def Let_def abs_fraction [OF d] bit_exp_fraction [OF d] by (simp only: if_False)
    also have "\<dots> = of_int (mantissa 2 ?s n d) / of_int 2 ^ nat (- ?s)" by (rule mantissa_fraction [OF d _ u]) simp
    also have "\<dots> = dyadic (cancel 2 (mantissa 2 ?s n d) (nat (- ?s)))"
      unfolding dyadic_def by (rule cancel_value [symmetric]) simp
    finally show ?thesis using False by (simp add: fl_fraction_def Let_def)
  qed (simp add: fl_def fl_fraction_def dyadic_def)
qed

lemma rnd_of_fraction: "0 < d \<Longrightarrow> rnd (of_int n / of_int d) = rnd_fraction n d"
proof -
  assume d: "0 < d"
  let ?s = "lead_digit 10 \<bar>n\<bar> d - 27"
  have u: "pow10 ?s = (if 0 \<le> ?s then of_int 10 ^ nat ?s else 1 / of_int 10 ^ nat (- ?s))" by (simp add: pow10_def)
  show ?thesis
  proof (cases "n = 0")
    case False
    then have "of_int n / of_int d \<noteq> (0::rat)" using d by simp
    then have "rnd (of_int n / of_int d) = of_int (round_half_even (of_int n / of_int d / pow10 ?s)) * pow10 ?s"
      unfolding rnd_def Let_def abs_fraction [OF d] adj_exp_fraction [OF d] by (simp only: if_False)
    also have "\<dots> = of_int (mantissa 10 ?s n d) / of_int 10 ^ nat (- ?s)" by (rule mantissa_fraction [OF d _ u]) simp
    also have "\<dots> = decimal_digits (cancel 10 (mantissa 10 ?s n d) (nat (- ?s)))"
      unfolding decimal_digits_def by (rule cancel_value [symmetric]) simp
    finally show ?thesis using False by (simp add: rnd_fraction_def Let_def)
  qed (simp add: rnd_def rnd_fraction_def decimal_digits_def)
qed

text \<open>The four operations of fractions, and the way back from a number to its fraction.\<close>

lemma fraction_ops:
  assumes "quotient_of x = (a, c)" "quotient_of y = (b, d)"
  shows "x + y = of_int (a * d + b * c) / of_int (c * d)" "x - y = of_int (a * d - b * c) / of_int (c * d)"
    "x * y = of_int (a * b) / of_int (c * d)" "b \<noteq> 0 \<Longrightarrow> x / y = of_int (sgn b * (a * d)) / of_int (c * \<bar>b\<bar>)"
    "b = 0 \<Longrightarrow> x / y = 0" "0 < c * d" "b \<noteq> 0 \<Longrightarrow> 0 < c * \<bar>b\<bar>"
proof -
  have v: "x = of_int a / of_int c" "0 < c" "y = of_int b / of_int d" "0 < d"
    using assms by (simp_all add: quotient_of_div quotient_of_denom_pos)
  show "x + y = of_int (a * d + b * c) / of_int (c * d)" unfolding v(1) v(3) using v(2,4) by (simp add: add_frac_eq)
  show "x - y = of_int (a * d - b * c) / of_int (c * d)" unfolding v(1) v(3) using v(2,4) by (simp add: diff_frac_eq)
  show "x * y = of_int (a * b) / of_int (c * d)" using v by simp
  show "b \<noteq> 0 \<Longrightarrow> x / y = of_int (sgn b * (a * d)) / of_int (c * \<bar>b\<bar>)" "b = 0 \<Longrightarrow> x / y = 0" using v by (simp_all add: sgn_if)
  show "0 < c * d" "b \<noteq> 0 \<Longrightarrow> 0 < c * \<bar>b\<bar>" using v by simp_all
qed

lemma rounding_code [code]:
  "fl x = (let (n, d) = quotient_of x in fl_fraction n d)"
  "rnd x = (let (n, d) = quotient_of x in rnd_fraction n d)"
proof -
  obtain n d where q: "quotient_of x = (n, d)" by (metis surj_pair)
  have "fl x = fl_fraction n d" "rnd x = rnd_fraction n d"
    using fl_of_fraction [of d n] rnd_of_fraction [of d n] quotient_of_div [OF q] quotient_of_denom_pos [OF q] by (simp_all only:)
  then show "fl x = (let (n, d) = quotient_of x in fl_fraction n d)"
    "rnd x = (let (n, d) = quotient_of x in rnd_fraction n d)"
    by (simp_all add: q)
qed

lemma rounded_zero: "fl 0 = fl_fraction 0 1" "rnd 0 = rnd_fraction 0 1"
  by (simp_all add: fl_def rnd_def fl_fraction_def rnd_fraction_def dyadic_def decimal_digits_def)

lemma float_code [code]:
  "fadd x y = (let (a, c) = quotient_of x; (b, d) = quotient_of y in fl_fraction (a * d + b * c) (c * d))"
  "fsub x y = (let (a, c) = quotient_of x; (b, d) = quotient_of y in fl_fraction (a * d - b * c) (c * d))"
  "fmul x y = (let (a, c) = quotient_of x; (b, d) = quotient_of y in fl_fraction (a * b) (c * d))"
  "fdiv x y = (let (a, c) = quotient_of x; (b, d) = quotient_of y
     in if b = 0 then fl_fraction 0 1 else fl_fraction (sgn b * (a * d)) (c * \<bar>b\<bar>))"
proof -
  obtain a c b d where q: "quotient_of x = (a, c)" "quotient_of y = (b, d)" by (metis surj_pair)
  note r = fraction_ops [OF q]
  show "fadd x y = (let (a, c) = quotient_of x; (b, d) = quotient_of y in fl_fraction (a * d + b * c) (c * d))"
    unfolding fadd_def r(1) fl_of_fraction [OF r(6)] by (simp add: q)
  show "fsub x y = (let (a, c) = quotient_of x; (b, d) = quotient_of y in fl_fraction (a * d - b * c) (c * d))"
    unfolding fsub_def r(2) fl_of_fraction [OF r(6)] by (simp add: q)
  show "fmul x y = (let (a, c) = quotient_of x; (b, d) = quotient_of y in fl_fraction (a * b) (c * d))"
    unfolding fmul_def r(3) fl_of_fraction [OF r(6)] by (simp add: q)
  have "fdiv x y = (if b = 0 then fl_fraction 0 1 else fl_fraction (sgn b * (a * d)) (c * \<bar>b\<bar>))"
    using r(4,5) fl_of_fraction [OF r(7)] rounded_zero by (cases "b = 0") (simp_all only: fdiv_def if_True if_False simp_thms not_False_eq_True)
  then show "fdiv x y = (let (a, c) = quotient_of x; (b, d) = quotient_of y
     in if b = 0 then fl_fraction 0 1 else fl_fraction (sgn b * (a * d)) (c * \<bar>b\<bar>))"
    by (simp add: q)
qed

lemma decimal_code [code]:
  "dadd x y = (let (a, c) = quotient_of x; (b, d) = quotient_of y in rnd_fraction (a * d + b * c) (c * d))"
  "dsub x y = (let (a, c) = quotient_of x; (b, d) = quotient_of y in rnd_fraction (a * d - b * c) (c * d))"
  "dmul x y = (let (a, c) = quotient_of x; (b, d) = quotient_of y in rnd_fraction (a * b) (c * d))"
  "ddiv x y = (let (a, c) = quotient_of x; (b, d) = quotient_of y
     in if b = 0 then rnd_fraction 0 1 else rnd_fraction (sgn b * (a * d)) (c * \<bar>b\<bar>))"
proof -
  obtain a c b d where q: "quotient_of x = (a, c)" "quotient_of y = (b, d)" by (metis surj_pair)
  note r = fraction_ops [OF q]
  show "dadd x y = (let (a, c) = quotient_of x; (b, d) = quotient_of y in rnd_fraction (a * d + b * c) (c * d))"
    unfolding dadd_def r(1) rnd_of_fraction [OF r(6)] by (simp add: q)
  show "dsub x y = (let (a, c) = quotient_of x; (b, d) = quotient_of y in rnd_fraction (a * d - b * c) (c * d))"
    unfolding dsub_def r(2) rnd_of_fraction [OF r(6)] by (simp add: q)
  show "dmul x y = (let (a, c) = quotient_of x; (b, d) = quotient_of y in rnd_fraction (a * b) (c * d))"
    unfolding dmul_def r(3) rnd_of_fraction [OF r(6)] by (simp add: q)
  have "ddiv x y = (if b = 0 then rnd_fraction 0 1 else rnd_fraction (sgn b * (a * d)) (c * \<bar>b\<bar>))"
    using r(4,5) rnd_of_fraction [OF r(7)] rounded_zero by (cases "b = 0") (simp_all only: ddiv_def if_True if_False simp_thms not_False_eq_True)
  then show "ddiv x y = (let (a, c) = quotient_of x; (b, d) = quotient_of y
     in if b = 0 then rnd_fraction 0 1 else rnd_fraction (sgn b * (a * d)) (c * \<bar>b\<bar>))"
    by (simp add: q)
qed

lemma integer_code [code]:
  "float_of n = fl_fraction n 1"
  "int_div n m = (if m = 0 then fl_fraction 0 1 else fl_fraction (sgn m * n) \<bar>m\<bar>)"
proof -
  show "float_of n = fl_fraction n 1" using fl_of_fraction [of 1 n] by (simp add: float_of_def)
  have "of_int n / of_int m = (of_int (sgn m * n) / of_int \<bar>m\<bar> :: rat)" if "m \<noteq> 0" using that by (simp add: sgn_if)
  then show "int_div n m = (if m = 0 then fl_fraction 0 1 else fl_fraction (sgn m * n) \<bar>m\<bar>)"
    using fl_of_fraction [of "\<bar>m\<bar>" "sgn m * n"] rounded_zero by (cases "m = 0") (simp_all add: int_div_def)
qed

end
