(* ===== verification/Runner.thy ===== *)
theory Runner
  imports Rounding
begin

text \<open>
  The runner's lock-in floors and scale-out rungs
  (\<open>joshibot/shitcoims_sentinel/runner.py\<close>): the table that maps the highest
  multiple a bag has reached to an absolute floor, the tightness knob around
  it, and the two partial sales at 2x and 4x.
\<close>

section \<open>Definitions\<close>

definition CANONICAL_TIGHTNESS :: decimal where
  "CANONICAL_TIGHTNESS = 20"

definition LOCK_RUNGS :: "(decimal \<times> decimal) list" where
  "LOCK_RUNGS =
     [(18/10, 120/100), (25/10, 155/100), (4, 220/100), (6, 320/100),
      (10, 500/100), (16, 800/100), (25, 12)]"

definition SCALE_RUNGS :: "(decimal \<times> decimal) list" where
  "SCALE_RUNGS = [(2, 30/100), (4, 25/100)]"

definition MIN_FLOOR :: decimal where
  "MIN_FLOOR = 105/100"

text \<open>
  \<open>rung_key\<close> prints a decimal in fixed-point notation without trailing zeros:
  \<open>normalize\<close> rounds to the context and \<open>format(.., "f")\<close> expands the exponent.
  A 28-digit decimal with leading exponent \<open>e\<close> has at most \<open>27 - e\<close> places
  after the point, so that many steps print all of them.
\<close>

definition digit_char :: "nat \<Rightarrow> char" where
  "digit_char n = char_of (48 + n)"

fun nat_text :: "nat \<Rightarrow> string" where
  "nat_text n = (if n < 10 then [digit_char n] else nat_text (n div 10) @ [digit_char (n mod 10)])"

declare nat_text.simps [simp del]

fun frac_text :: "nat \<Rightarrow> rat \<Rightarrow> string" where
  "frac_text 0 q = []"
| "frac_text (Suc k) q =
     (if q = 0 then []
      else let t = q * 10; d = \<lfloor>t\<rfloor> in digit_char (nat d) # frac_text k (t - of_int d))"

definition rung_key :: "decimal \<Rightarrow> string" where
  "rung_key multiple =
     (let q = rnd multiple; a = \<bar>q\<bar>; i = \<lfloor>a\<rfloor>; f = a - of_int i;
          places = (if a = 0 then 0 else nat (27 - adj_exp a));
          fraction = frac_text places f
      in (if q < 0 then ''-'' else '''') @ nat_text (nat i) @
         (if fraction = [] then [] else CHR ''.'' # fraction))"

text \<open>The loop over the table: keep the last floor whose threshold is reached, stop at the first miss.\<close>

fun lock_scan :: "decimal \<Rightarrow> (decimal \<times> decimal) list \<Rightarrow> decimal option \<Rightarrow> decimal option" where
  "lock_scan peak [] flr = flr"
| "lock_scan peak ((arm_at, rung_floor) # rungs) flr =
     (if arm_at \<le> peak then lock_scan peak rungs (Some rung_floor) else flr)"

definition lock_floor_multiple :: "decimal \<Rightarrow> decimal \<Rightarrow> decimal option" where
  "lock_floor_multiple peak_multiple tightness =
     (if peak_multiple \<le> 0 then None
      else case lock_scan peak_multiple LOCK_RUNGS None of
        None \<Rightarrow> None
      | Some flr \<Rightarrow>
          (let scale = (if 0 < tightness then ddiv tightness CANONICAL_TIGHTNESS else 1);
               gap = dsub peak_multiple flr;
               adjusted = dsub peak_multiple (dmul gap scale);
               adjusted = (if peak_multiple \<le> adjusted then flr else adjusted);
               adjusted = (if adjusted < MIN_FLOOR then MIN_FLOOR else adjusted)
           in if peak_multiple \<le> adjusted then None else Some adjusted))"

definition next_scale_fraction :: "decimal \<Rightarrow> string list \<Rightarrow> (decimal \<times> decimal) option" where
  "next_scale_fraction peak_multiple fired =
     find (\<lambda>(arm_at, fraction). arm_at \<le> peak_multiple \<and> rung_key arm_at \<notin> set fired) SCALE_RUNGS"

definition scale_sell_amount :: "int \<Rightarrow> int \<Rightarrow> decimal \<Rightarrow> int" where
  "scale_sell_amount original_amount remaining_amount fraction =
     (if original_amount \<le> 0 \<or> remaining_amount \<le> 1 \<or> fraction \<le> 0 then 0
      else let raw = dint (dmul (of_int original_amount) fraction);
               sell = min raw (remaining_amount - 1)
           in max sell 0)"

section \<open>The lock floor\<close>

text \<open>
  A lock floor, when the runner has earned one, lies strictly
  below the peak multiple and never below the minimum floor of 1.05, whatever
  the tightness and however the decimal arithmetic rounds: selling at the
  floor still returns more than the cost.
\<close>

lemma lock_floor_bounds:
  assumes "lock_floor_multiple peak tightness = Some flr"
  shows "MIN_FLOOR \<le> flr \<and> flr < peak"
  using assms
  by (auto simp: lock_floor_multiple_def Let_def split: if_splits option.splits)

text \<open>The scan returns the floor of the last rung reached, as one chain of comparisons.\<close>

definition table_floor :: "decimal \<Rightarrow> decimal option" where
  "table_floor p =
     (if p < 18/10 then None else if p < 25/10 then Some (120/100)
      else if p < 4 then Some (155/100) else if p < 6 then Some (220/100)
      else if p < 10 then Some (320/100) else if p < 16 then Some 5
      else if p < 25 then Some 8 else Some 12)"

lemma lock_scan_table: "lock_scan p LOCK_RUNGS None = table_floor p"
  by (auto simp: LOCK_RUNGS_def table_floor_def)

lemma table_floor_cents:
  assumes "table_floor p = Some f"
  shows "\<exists>k::int. f = of_int k / 100 \<and> 120 \<le> k \<and> k \<le> 1200" and "f < p" and "12/10 \<le> f"
proof -
  have "f \<in> {120/100, 155/100, 220/100, 320/100, 500/100, 800/100, 1200/100}"
    using assms by (auto simp: table_floor_def split: if_splits)
  then show "\<exists>k::int. f = of_int k / 100 \<and> 120 \<le> k \<and> k \<le> 1200"
    by (auto intro: exI [of _ 120] exI [of _ 155] exI [of _ 220] exI [of _ 320]
        exI [of _ 500] exI [of _ 800] exI [of _ 1200])
  show "f < p" "12/10 \<le> f" using assms by (auto simp: table_floor_def split: if_splits)
qed

lemma table_floor_mono:
  assumes "p \<le> q" and "table_floor p = Some f"
  shows "\<exists>g. table_floor q = Some g \<and> f \<le> g"
proof -
  have "table_floor q \<noteq> None \<and> f \<le> the (table_floor q)"
    using assms by (simp add: table_floor_def del: not_None_eq split: if_splits)
  then show ?thesis by auto
qed

text \<open>Subtracting an amount in cents from a larger decimal below \<open>10^26\<close> is exact.\<close>

lemma dec_scaled:
  assumes "is_dec p" and "0 < p"
  obtains m where "p = of_int m * pow10 (adj_exp p - 27)" and "0 < m" and "m \<le> 10 ^ 28"
  using rnd_scaled [OF assms(2)] assms by (metis is_dec_def less_le_trans zero_less_numeral zero_less_power)

lemma dsub_cents_exact:
  assumes p: "is_dec p" "p < 10 ^ 26" and f: "f = of_int k / 100" "0 < k" "f \<le> p"
  shows "dsub p f = p - f"
proof -
  have "0 < p" using f by (auto intro: less_le_trans [of _ f])
  from dec_scaled [OF p(1) this] obtain m where
    m: "p = of_int m * pow10 (adj_exp p - 27)" "0 < m" "m \<le> 10 ^ 28" .
  let ?e = "adj_exp p - 27"
  have "pow10 (adj_exp p) < pow10 26"
    using adj_exp_bounds(1) [OF \<open>0 < p\<close>] p(2) by (simp add: pow10_def [of 26])
  then have neg: "0 \<le> - 2 - ?e" by simp
  define j :: int where "j = k * 10 ^ nat (- 2 - ?e)"
  have "f = of_int k * pow10 (- 2)" by (simp add: f pow10_def)
  also have "\<dots> = of_int k * (pow10 (- 2 - ?e) * pow10 ?e)" by (simp only: pow10_add [symmetric]) simp
  also have "\<dots> = of_int j * pow10 ?e" using neg by (simp add: j_def pow10_nonneg)
  finally have fj: "f = of_int j * pow10 ?e" .
  then have diff: "p - f = of_int (m - j) * pow10 ?e" using m(1) by (metis left_diff_distrib of_int_diff)
  have "0 < j" using f(2) by (simp add: j_def)
  moreover have "of_int j \<le> (of_int m :: rat)" using f(3) fj m(1) by (metis mult_le_cancel_right_pos pow10_pos)
  ultimately have "\<bar>m - j\<bar> < 10 ^ 28" using m(3) by simp
  from rnd_repr [OF this, of ?e] show ?thesis by (simp only: dsub_def diff)
qed

lemma is_dec_cents: "0 < k \<Longrightarrow> k < 10 ^ 28 \<Longrightarrow> is_dec (of_int k / 100)"
  using rnd_repr [of k "- 2"] by (simp add: is_dec_def pow10_def)

lemma lock_floor_canonical:
  assumes "is_dec peak" and "peak < 10 ^ 26"
  shows "lock_floor_multiple peak CANONICAL_TIGHTNESS = table_floor peak"
proof (cases "table_floor peak")
  case None
  then show ?thesis by (simp add: lock_floor_multiple_def lock_scan_table)
next
  case (Some f)
  from table_floor_cents [OF Some] obtain k :: int where
    k: "f = of_int k / 100" "120 \<le> k" "k \<le> 1200" and f: "f < peak" "12/10 \<le> f" by blast
  have gap: "dsub peak f = peak - f" using assms k f by (intro dsub_cents_exact) auto
  then have "is_dec (peak - f)" by (metis is_dec_ops(2))
  then have mul: "dmul (peak - f) 1 = peak - f" by (simp add: dmul_def is_dec_def)
  have scale: "ddiv CANONICAL_TIGHTNESS CANONICAL_TIGHTNESS = 1"
    by (simp add: ddiv_def CANONICAL_TIGHTNESS_def rnd_dec)
  have "is_dec (of_int k / 100)" using k(2,3) by (intro is_dec_cents) simp_all
  then have "is_dec f" by (simp only: k(1))
  then have restore: "dsub peak (peak - f) = f" by (simp add: dsub_def is_dec_def)
  show ?thesis using Some f scale gap mul restore
    by (simp add: lock_floor_multiple_def lock_scan_table MIN_FLOOR_def CANONICAL_TIGHTNESS_def Let_def)
qed

text \<open>
  Tightness 20 is the table as written: for every 28-digit
  peak multiple below \<open>10^26\<close> the floor is exactly the table's floor of the
  last rung the peak reached, with no rounding error from the detour through
  the gap.
\<close>

lemma canonical_tightness_is_the_table:
  assumes "is_dec peak" and "peak < 10 ^ 26"
  shows "lock_floor_multiple peak CANONICAL_TIGHTNESS = table_floor peak"
  using assms by (rule lock_floor_canonical)

text \<open>
  At the canonical tightness the lock is a ratchet: a higher peak
  never loses a lock and never lowers it.
\<close>

lemma canonical_lock_ratchets:
  assumes "is_dec p" "is_dec q" "p \<le> q" "q < 10 ^ 26"
    and "lock_floor_multiple p CANONICAL_TIGHTNESS = Some f"
  shows "\<exists>g. lock_floor_multiple q CANONICAL_TIGHTNESS = Some g \<and> f \<le> g"
proof -
  have "p < 10 ^ 26" using assms(3,4) by linarith
  then have "table_floor p = Some f" using assms(1,5) by (simp only: lock_floor_canonical)
  from table_floor_mono [OF assms(3) this] show ?thesis
    using assms(2,4) by (simp only: lock_floor_canonical)
qed

text \<open>
  Above the canonical tightness the lock is not a ratchet. With
  tightness 30 a bag that peaked at 10x is locked at 2.5x; when the peak rises
  to 15x, still on the same rung, the lock falls back to the 1.05x minimum, so
  a rising price gives up floor already earned.
\<close>

lemma loose_lock_falls_as_peak_rises:
  "lock_floor_multiple 10 30 = Some (25/10) \<and> lock_floor_multiple 15 30 = Some MIN_FLOOR"
proof
  show "lock_floor_multiple 10 30 = Some (25/10)" by code_simp
  show "lock_floor_multiple 15 30 = Some MIN_FLOOR" by code_simp
qed

section \<open>Scale-out rungs\<close>

lemma rung_keys: "rung_key 2 = ''2''" "rung_key 4 = ''4''"
  by code_simp+

lemma SCALE_RUNGS_cases:
  "(arm_at, fraction) \<in> set SCALE_RUNGS \<longleftrightarrow>
     arm_at = 2 \<and> fraction = 30/100 \<or> arm_at = 4 \<and> fraction = 25/100"
  by (auto simp: SCALE_RUNGS_def)

lemma next_scale_fraction_eq:
  "next_scale_fraction peak fired =
     (if 2 \<le> peak \<and> ''2'' \<notin> set fired then Some (2, 30/100)
      else if 4 \<le> peak \<and> ''4'' \<notin> set fired then Some (4, 25/100) else None)"
  by (simp add: next_scale_fraction_def SCALE_RUNGS_def rung_keys)

lemma next_scale_fraction_Some:
  assumes "next_scale_fraction peak fired = Some (rung, fraction)"
  shows "(rung, fraction) \<in> set SCALE_RUNGS" and "rung \<le> peak" and "rung_key rung \<notin> set fired"
  using assms by (auto simp: next_scale_fraction_eq SCALE_RUNGS_cases rung_keys split: if_splits)

lemma scale_sell_nonneg: "0 \<le> scale_sell_amount original remaining fraction"
  by (simp add: scale_sell_amount_def Let_def)

lemma scale_sell_less: "0 < scale_sell_amount original remaining fraction \<Longrightarrow>
    scale_sell_amount original remaining fraction < remaining"
  by (auto simp: scale_sell_amount_def Let_def split: if_splits)

lemma scale_fraction_exact:
  assumes "0 < original" "original < 10 ^ 26" "(arm_at, fraction) \<in> set SCALE_RUNGS"
  shows "dmul (of_int original) fraction = of_int original * fraction"
proof -
  have exact: "dmul (of_int original) (of_int k / 100) = of_int original * (of_int k / 100)"
    if k: "0 < k" "k \<le> 30" for k :: int
  proof -
    have "original * k \<le> original * 30" using k assms(1) by simp
    then have "original * k < 10 ^ 28" using assms(2) by simp
    then have "\<bar>original * k\<bar> < 10 ^ 28" using k assms(1) by simp
    from rnd_repr [OF this, of "- 2"] show ?thesis by (simp add: dmul_def pow10_def)
  qed
  from assms(3) consider "fraction = of_int 30 / 100" | "fraction = of_int 25 / 100"
    by (auto simp: SCALE_RUNGS_def)
  then obtain k :: int where k: "fraction = of_int k / 100" "0 < k" "k \<le> 30"
    by cases (rule that, assumption, simp, simp)+
  then show ?thesis using exact [of k] by (simp only:)
qed

text \<open>
  A scale-out of a bag that started with \<open>original\<close> raw
  tokens (below \<open>10^26\<close>, far above the 64-bit amounts the chain has) sells
  exactly the whole-token part of its fraction of the original, capped so that
  at least one raw token stays: the sale is never the last token of the bag.
\<close>

lemma scale_sell_amount_exact:
  assumes "0 < original" "original < 10 ^ 26" "1 < remaining"
    and "(arm_at, fraction) \<in> set SCALE_RUNGS"
  shows "scale_sell_amount original remaining fraction = min \<lfloor>of_int original * fraction\<rfloor> (remaining - 1)
    \<and> 0 \<le> scale_sell_amount original remaining fraction
    \<and> scale_sell_amount original remaining fraction < remaining"
proof -
  have "0 < fraction" using assms(4) by (auto simp: SCALE_RUNGS_cases)
  then show ?thesis
    using assms scale_fraction_exact [OF assms(1,2,4)]
    by (auto simp: scale_sell_amount_def Let_def dint_def)
qed

end
