(* ===== verification/Domain.thy ===== *)
theory Domain
  imports Runner
begin

text \<open>
  The pure sell policy (\<open>joshibot/shitcoims_sentinel/domain.py\<close>): the data the
  sentinel reasons about and \<open>evaluate_position\<close>, which maps one observation of
  one bag (its policy, balance, exit quote, runtime state and rug signal) to a
  decision and the bag's next runtime state.

  Instants are microseconds since the epoch. The text a decision carries is a
  value of \<open>reason\<close>: one constructor per message of the source with the
  values the source formats into it.
\<close>

section \<open>Data\<close>

definition LAMPORTS_PER_SOL :: int where
  "LAMPORTS_PER_SOL = 1000000000"

definition WSOL_MINT :: string where
  "WSOL_MINT = ''So11111111111111111111111111111111111111112''"
definition TOKEN_PROGRAM :: string where
  "TOKEN_PROGRAM = ''TokenkegQfeZyiNwAJbNbGKPFXCWuBvf9Ss623VQ5DA''"
definition TOKEN_2022_PROGRAM :: string where
  "TOKEN_2022_PROGRAM = ''TokenzQdBNbLqP5VEhdkAS6EPFLC1PHnBqCXEpPxuEb''"
definition PUMP_MINT_AUTHORITY :: string where
  "PUMP_MINT_AUTHORITY = ''TSLvdd1pWpHVjahSpsvCXUbgwsL3JAcvokwaKt1eokM''"

record PolicyDefaults =
  pd_stop_loss_pct :: "decimal option"
  pd_take_profit_pct :: "decimal option"
  pd_runner_tightness :: "decimal option"
  pd_rug_exit :: bool
  pd_dispose_after_break_even :: bool
  pd_floor_confirm_quotes :: int
  pd_hold_trail_until_graduated :: bool

definition DEFAULTS :: PolicyDefaults where
  "DEFAULTS = \<lparr> pd_stop_loss_pct = None, pd_take_profit_pct = Some 100,
     pd_runner_tightness = Some 20, pd_rug_exit = True, pd_dispose_after_break_even = False,
     pd_floor_confirm_quotes = 2, pd_hold_trail_until_graduated = True \<rparr>"

record TokenHolding =
  th_mint :: string
  th_amount :: int
  th_decimals :: nat
  th_token_accounts :: "string list"
  th_program_ids :: "string list"

definition ui_amount :: "TokenHolding \<Rightarrow> decimal" where
  "ui_amount h = ddiv (of_int (th_amount h)) (10 ^ th_decimals h)"

record PositionPolicy =
  pp_mint :: string
  pp_name :: string
  pp_buy_price_sol :: "decimal option"
  pp_cost_basis_sol :: "decimal option"
  pp_stop_loss_pct :: "decimal option"
  pp_take_profit_pct :: "decimal option"
  pp_runner_tightness :: "decimal option"
  pp_rug_exit :: bool
  pp_dispose_after_break_even :: bool
  pp_floor_confirm_quotes :: int
  pp_hold_trail_until_graduated :: bool

definition runs :: "PositionPolicy \<Rightarrow> bool" where
  "runs p \<longleftrightarrow> pp_runner_tightness p \<noteq> None"

definition entry_unit_price :: "PositionPolicy \<Rightarrow> TokenHolding \<Rightarrow> decimal option" where
  "entry_unit_price p h =
     (case pp_buy_price_sol p of
        Some b \<Rightarrow> Some b
      | None \<Rightarrow>
          (case pp_cost_basis_sol p of
             None \<Rightarrow> None
           | Some c \<Rightarrow> if ui_amount h = 0 then None else Some (ddiv c (ui_amount h))))"

record ExitQuote =
  eq_input_mint :: string
  eq_input_amount :: int
  eq_out_lamports :: int
  eq_minimum_out_lamports :: "int option"
  eq_price_impact_pct :: "decimal option"
  eq_router :: "string option"
  eq_received_at :: int

definition unit_price_sol :: "ExitQuote \<Rightarrow> TokenHolding \<Rightarrow> decimal res" where
  "unit_price_sol q h =
     (if th_amount h \<le> 0 \<or> eq_input_amount q \<noteq> th_amount h
      then Inl (ValueError ''quote amount must equal the current full holding'')
      else Inr (ddiv (ddiv (of_int (eq_out_lamports q)) (of_int LAMPORTS_PER_SOL)) (ui_amount h)))"

record MintSafety =
  ms_mint_authority :: "string option"
  ms_freeze_authority :: "string option"
  ms_supply :: int
  ms_decimals :: nat
  ms_token_program :: string

record PoolSnapshot =
  ps_pair_address :: string
  ps_dex_id :: string
  ps_base_mint :: string
  ps_quote_mint :: string
  ps_liquidity_usd :: decimal
  ps_reserve_value :: decimal
  ps_reserve_unit :: string
  ps_price_native :: "decimal option"
  ps_observed_at :: int
  ps_token_name :: "string option"
  ps_token_symbol :: "string option"

datatype reason =
    Mint_supply_grew decimal
  | Pool_reserve_fell decimal bool
  | Rug_detector_emergency
  | Transient_sample_rejected
  | Signal_not_confirmed
  | Dispose_cancelled
  | No_executable_quote
  | Stop_hit decimal decimal int
  | Stop_waiting decimal int int decimal
  | Dispose_blocked_no_basis
  | Dispose_blocked_no_slot
  | Dispose_delay_satisfied int int
  | Dispose_waiting int
  | Dispose_triggered int
  | Bonding_curve_wait
  | Take_profit_waiting decimal int int decimal
  | Take_profit_hit decimal decimal int
  | Runner_armed decimal int decimal
  | Thresholds_clear
  | Runner_blocked_no_basis
  | Runner_adopted decimal
  | Runner_scaled decimal decimal string
  | Runner_warming decimal
  | Runner_floor_broken decimal int decimal decimal
  | Runner_below_floor decimal int int decimal
  | Runner_holding decimal decimal decimal

record RugSignal =
  rs_emergency :: bool
  rs_reason :: "reason option"
  rs_liquidity_drop_pct :: "decimal option"
  rs_supply_growth_pct :: "decimal option"
  rs_needs_confirmation :: bool

datatype DecisionKind =
  HOLD | ACTIVATE_TRAIL | EXIT_STOP | EXIT_TRAIL | EXIT_SCALE | EXIT_RUG | EXIT_DISPOSE
| EXIT_TAKE_PROFIT

record PositionState =
  trailing_active :: bool
  trailing_peak_unit_price_sol :: "decimal option"
  last_pnl_pct :: "decimal option"
  dispose_trigger_slot :: "int option"
  below_floor_streak :: int
  below_stop_streak :: int
  above_take_profit_streak :: int
  scale_rungs_fired :: "string list"
  original_amount :: "int option"
  runner_floor_multiple :: "decimal option"

definition initial_PositionState :: PositionState where
  "initial_PositionState = \<lparr> trailing_active = False, trailing_peak_unit_price_sol = None,
     last_pnl_pct = None, dispose_trigger_slot = None, below_floor_streak = 0,
     below_stop_streak = 0, above_take_profit_streak = 0, scale_rungs_fired = [],
     original_amount = None, runner_floor_multiple = None \<rparr>"

record Decision =
  d_kind :: DecisionKind
  d_reason :: reason
  d_pnl_pct :: "decimal option"
  d_unit_price_sol :: "decimal option"
  d_next_state :: PositionState
  d_sell_amount :: "int option"

definition Decision_of ::
  "DecisionKind \<Rightarrow> reason \<Rightarrow> decimal option \<Rightarrow> decimal option \<Rightarrow> PositionState \<Rightarrow> Decision" where
  "Decision_of k r pnl up st = \<lparr> d_kind = k, d_reason = r, d_pnl_pct = pnl,
     d_unit_price_sol = up, d_next_state = st, d_sell_amount = None \<rparr>"

definition exits :: "Decision \<Rightarrow> bool" where
  "exits d \<longleftrightarrow> d_kind d \<in> {EXIT_RUG, EXIT_STOP, EXIT_TRAIL, EXIT_SCALE, EXIT_DISPOSE, EXIT_TAKE_PROFIT}"

definition full_exit :: "Decision \<Rightarrow> bool" where
  "full_exit d \<longleftrightarrow> exits d \<and> d_kind d \<noteq> EXIT_SCALE"

section \<open>The armed runner\<close>

definition needed_quotes :: "PositionPolicy \<Rightarrow> int" where
  "needed_quotes p = max 1 (pp_floor_confirm_quotes p)"

text \<open>The floor test at the end of \<open>_evaluate_runner\<close>, once no scale rung is due.\<close>

definition runner_floor_check ::
  "PositionPolicy \<Rightarrow> decimal \<Rightarrow> decimal option \<Rightarrow> PositionState \<Rightarrow> PositionState \<Rightarrow>
   decimal option \<Rightarrow> decimal \<Rightarrow> decimal \<Rightarrow> Decision" where
  "runner_floor_check policy unit_price pnl state next_state flr peak_multiple current_multiple =
     (case flr of
        None \<Rightarrow> Decision_of HOLD (Runner_warming peak_multiple) pnl (Some unit_price)
                  (next_state\<lparr>below_floor_streak := 0\<rparr>)
      | Some f \<Rightarrow>
          if current_multiple \<le> f then
            let streak = below_floor_streak state + 1;
                confirmed = next_state\<lparr>below_floor_streak := streak\<rparr>;
                needed = needed_quotes policy
            in if needed \<le> streak
               then Decision_of EXIT_TRAIL (Runner_floor_broken f streak peak_multiple current_multiple)
                      pnl (Some unit_price) confirmed
               else Decision_of HOLD (Runner_below_floor f streak needed peak_multiple)
                      pnl (Some unit_price) confirmed
          else Decision_of HOLD (Runner_holding peak_multiple f current_multiple) pnl (Some unit_price)
                 (next_state\<lparr>below_floor_streak := 0\<rparr>))"

definition evaluate_runner ::
  "PositionPolicy \<Rightarrow> TokenHolding \<Rightarrow> decimal \<Rightarrow> decimal option \<Rightarrow> decimal option \<Rightarrow>
   PositionState \<Rightarrow> Decision res" where
  "evaluate_runner policy holding unit_price entry pnl state =
     (let peak = py_or (trailing_peak_unit_price_sol state) unit_price;
          new_peak = max peak unit_price;
          preexisting = (trailing_active state \<and> original_amount state = None);
          original = py_or (original_amount state) (th_amount holding);
          next_state = state\<lparr>trailing_active := True,
                             trailing_peak_unit_price_sol := Some new_peak,
                             original_amount := Some original\<rparr>
      in case entry of
           None \<Rightarrow> Inr (Decision_of HOLD Runner_blocked_no_basis pnl (Some unit_price) next_state)
         | Some entry_price \<Rightarrow>
             if entry_price \<le> 0
             then Inr (Decision_of HOLD Runner_blocked_no_basis pnl (Some unit_price) next_state)
             else
               let peak_multiple = ddiv new_peak entry_price;
                   current_multiple = ddiv unit_price entry_price
               in case pp_runner_tightness policy of
                    None \<Rightarrow> Inl (ValueError ''runner evaluated for a policy with no runner_tightness'')
                  | Some tightness \<Rightarrow>
                      let flr = lock_floor_multiple peak_multiple tightness
                      in if preexisting \<and> scale_rungs_fired next_state = []
                         then
                           let inherited = map (rung_key \<circ> fst)
                                 (filter (\<lambda>(arm_at, fraction). arm_at \<le> peak_multiple) SCALE_RUNGS)
                           in Inr (Decision_of HOLD (Runner_adopted peak_multiple) pnl (Some unit_price)
                                (next_state\<lparr>scale_rungs_fired := inherited,
                                            runner_floor_multiple := flr,
                                            below_floor_streak := 0\<rparr>))
                         else
                           let next_state = next_state\<lparr>runner_floor_multiple := flr\<rparr>;
                               floor_check = runner_floor_check policy unit_price pnl state next_state
                                               flr peak_multiple current_multiple
                           in case next_scale_fraction peak_multiple (scale_rungs_fired next_state) of
                                None \<Rightarrow> Inr floor_check
                              | Some (rung_multiple, fraction) \<Rightarrow>
                                  let sell = scale_sell_amount original (th_amount holding) fraction
                                  in if 0 < sell
                                     then Inr ((Decision_of EXIT_SCALE
                                             (Runner_scaled fraction peak_multiple (rung_key rung_multiple))
                                             pnl (Some unit_price)
                                             (next_state\<lparr>scale_rungs_fired :=
                                                  scale_rungs_fired next_state @ [rung_key rung_multiple],
                                                below_floor_streak := 0\<rparr>))
                                             \<lparr>d_sell_amount := Some sell\<rparr>)
                                     else Inr floor_check)"

section \<open>The policy function\<close>

text \<open>The profit in percent, known only with a quote and a positive basis.\<close>

definition pnl_of :: "decimal option \<Rightarrow> decimal option \<Rightarrow> decimal option" where
  "pnl_of unit_price entry =
     (case (unit_price, entry) of
        (Some u, Some e) \<Rightarrow> if 0 < e then Some (dmul (dsub (ddiv u e) 1) 100) else None
      | _ \<Rightarrow> None)"

text \<open>The take-profit rule and the final hold.\<close>

definition take_profit_rule ::
  "PositionPolicy \<Rightarrow> TokenHolding \<Rightarrow> decimal \<Rightarrow> decimal option \<Rightarrow> PositionState \<Rightarrow> Decision" where
  "take_profit_rule policy holding unit_price pnl state =
     (let clear = Decision_of HOLD Thresholds_clear pnl (Some unit_price)
                    (state\<lparr>above_take_profit_streak := 0\<rparr>)
      in case (pp_take_profit_pct policy, pnl) of
           (Some take_profit, Some p) \<Rightarrow>
             if take_profit \<le> p then
               let needed = needed_quotes policy;
                   streak = above_take_profit_streak state + 1;
                   confirmed = state\<lparr>above_take_profit_streak := streak\<rparr>
               in if streak < needed
                  then Decision_of HOLD (Take_profit_waiting take_profit streak needed p) pnl
                         (Some unit_price) confirmed
                  else case pp_runner_tightness policy of
                         None \<Rightarrow> Decision_of EXIT_TAKE_PROFIT (Take_profit_hit p take_profit streak) pnl
                                   (Some unit_price) confirmed
                       | Some tightness \<Rightarrow>
                           Decision_of ACTIVATE_TRAIL (Runner_armed p streak tightness) pnl (Some unit_price)
                             (confirmed\<lparr>trailing_active := True,
                                        trailing_peak_unit_price_sol := Some unit_price,
                                        below_floor_streak := 0,
                                        above_take_profit_streak := 0,
                                        original_amount :=
                                          Some (py_or (original_amount confirmed) (th_amount holding)),
                                        runner_floor_multiple := None\<rparr>)
             else clear
         | _ \<Rightarrow> clear)"

text \<open>Everything after the disposal block: the armed runner, the graduation hold, the take profit.\<close>

definition trail_rules ::
  "PositionPolicy \<Rightarrow> TokenHolding \<Rightarrow> decimal \<Rightarrow> decimal option \<Rightarrow> decimal option \<Rightarrow>
   PositionState \<Rightarrow> bool option \<Rightarrow> Decision res" where
  "trail_rules policy holding unit_price entry pnl state pump_complete =
     (if trailing_active state \<and> runs policy
      then evaluate_runner policy holding unit_price entry pnl state
      else
        let state = (if trailing_active state
                     then state\<lparr>trailing_active := False, trailing_peak_unit_price_sol := None\<rparr>
                     else state)
        in if runs policy \<and> pp_hold_trail_until_graduated policy \<and> pump_complete = Some False
           then Inr (Decision_of HOLD Bonding_curve_wait pnl (Some unit_price) state)
           else Inr (take_profit_rule policy holding unit_price pnl state))"

text \<open>
  The disposal block, when disposal is enabled: either a decision, or the
  disposal state the remaining rules go on with.
\<close>

definition dispose_rule ::
  "decimal \<Rightarrow> decimal option \<Rightarrow> PositionState \<Rightarrow> int option \<Rightarrow> Decision + PositionState" where
  "dispose_rule unit_price pnl state confirmed_slot =
     (case pnl of
        None \<Rightarrow> Inl (Decision_of HOLD Dispose_blocked_no_basis pnl (Some unit_price) state)
      | Some p \<Rightarrow>
          (case confirmed_slot of
             None \<Rightarrow> Inl (Decision_of HOLD Dispose_blocked_no_slot pnl (Some unit_price) state)
           | Some slot \<Rightarrow>
               if slot < 0
               then Inl (Decision_of HOLD Dispose_blocked_no_slot pnl (Some unit_price) state)
               else
                 let disposal_state = state\<lparr>last_pnl_pct := Some p\<rparr>
                 in case dispose_trigger_slot state of
                      Some trigger \<Rightarrow>
                        if trigger + 1 \<le> slot
                        then Inl (Decision_of EXIT_DISPOSE (Dispose_delay_satisfied slot (trigger + 1))
                                    pnl (Some unit_price) disposal_state)
                        else Inl (Decision_of HOLD (Dispose_waiting (trigger + 1))
                                    pnl (Some unit_price) disposal_state)
                    | None \<Rightarrow>
                        (case last_pnl_pct state of
                           Some last_pnl \<Rightarrow>
                             if last_pnl \<le> 0 \<and> 0 < p
                             then Inl (Decision_of HOLD (Dispose_triggered slot) pnl (Some unit_price)
                                         (disposal_state\<lparr>dispose_trigger_slot := Some slot\<rparr>))
                             else Inr disposal_state
                         | None \<Rightarrow> Inr disposal_state)))"

definition stop_is_hit :: "PositionPolicy \<Rightarrow> decimal option \<Rightarrow> bool" where
  "stop_is_hit policy pnl =
     (case (pp_stop_loss_pct policy, pnl) of (Some stop, Some p) \<Rightarrow> p \<le> stop | _ \<Rightarrow> False)"

text \<open>The stop rule on a quote at or below the stop.\<close>

definition stop_rule ::
  "PositionPolicy \<Rightarrow> decimal \<Rightarrow> decimal option \<Rightarrow> PositionState \<Rightarrow> Decision" where
  "stop_rule policy unit_price pnl state =
     (let stop = the (pp_stop_loss_pct policy); p = the pnl;
          needed = needed_quotes policy;
          streak = below_stop_streak state + 1;
          next_state = state\<lparr>below_stop_streak := streak, above_take_profit_streak := 0\<rparr>
      in if needed \<le> streak
         then Decision_of EXIT_STOP (Stop_hit p stop streak) pnl (Some unit_price) next_state
         else Decision_of HOLD (Stop_waiting stop streak needed p) pnl (Some unit_price) next_state)"

text \<open>\<open>quote.unit_price_sol(holding) if quote is not None else None\<close>.\<close>

definition quote_price :: "ExitQuote option \<Rightarrow> TokenHolding \<Rightarrow> decimal option res" where
  "quote_price quote holding =
     (case quote of None \<Rightarrow> Inr None
      | Some q \<Rightarrow> rbind (unit_price_sol q holding) (\<lambda>u. Inr (Some u)))"

definition disposal_enabled :: "PositionPolicy \<Rightarrow> bool option \<Rightarrow> bool" where
  "disposal_enabled policy dispose_enabled =
     (case dispose_enabled of None \<Rightarrow> pp_dispose_after_break_even policy | Some b \<Rightarrow> b)"

definition evaluate_position ::
  "PositionPolicy \<Rightarrow> TokenHolding \<Rightarrow> ExitQuote option \<Rightarrow> PositionState \<Rightarrow> RugSignal \<Rightarrow>
   int option \<Rightarrow> bool option \<Rightarrow> bool option \<Rightarrow> Decision res" where
  "evaluate_position policy holding quote state rug confirmed_slot dispose_enabled pump_complete =
     rbind (quote_price quote holding)
       (\<lambda>unit_price.
          let entry = entry_unit_price policy holding;
              pnl = pnl_of unit_price entry
          in if rs_emergency rug \<and> pp_rug_exit policy
             then Inr (Decision_of EXIT_RUG
                         (case rs_reason rug of Some r \<Rightarrow> r | None \<Rightarrow> Rug_detector_emergency)
                         pnl unit_price state)
             else case unit_price of
               None \<Rightarrow> Inr (Decision_of HOLD No_executable_quote pnl unit_price state)
             | Some u \<Rightarrow>
                 if stop_is_hit policy pnl then Inr (stop_rule policy u pnl state)
                 else
                   let state = state\<lparr>below_stop_streak := 0\<rparr>
                   in if disposal_enabled policy dispose_enabled
                      then (case dispose_rule u pnl state confirmed_slot of
                              Inl d \<Rightarrow> Inr d
                            | Inr disposal_state \<Rightarrow>
                                trail_rules policy holding u entry pnl disposal_state pump_complete)
                      else trail_rules policy holding u entry pnl
                             (state\<lparr>last_pnl_pct := None, dispose_trigger_slot := None\<rparr>)
                             pump_complete)"

section \<open>Which rule decided\<close>

lemma Decision_of_simps [simp]:
  "d_kind (Decision_of k r pnl u st) = k" "d_reason (Decision_of k r pnl u st) = r"
  "d_pnl_pct (Decision_of k r pnl u st) = pnl" "d_unit_price_sol (Decision_of k r pnl u st) = u"
  "d_next_state (Decision_of k r pnl u st) = st" "d_sell_amount (Decision_of k r pnl u st) = None"
  by (simp_all add: Decision_of_def)

lemma quote_price_simps [simp]:
  "quote_price None h = Inr None"
  "quote_price (Some q) h = Inr None \<longleftrightarrow> False"
  by (auto simp: quote_price_def)

text \<open>The case analysis every property below starts from: one case per rule of the source.\<close>

lemma evaluate_position_cases:
  assumes "evaluate_position policy holding quote state rug slot de pc = Inr d"
  obtains
    (rug) u where "quote_price quote holding = Inr u" "rs_emergency rug" "pp_rug_exit policy"
      "d_kind d = EXIT_RUG" "d_next_state d = state" "d_sell_amount d = None"
  | (no_quote) "quote = None" "\<not> (rs_emergency rug \<and> pp_rug_exit policy)"
      "d_kind d = HOLD" "d_next_state d = state" "d_sell_amount d = None"
  | (stop) u where "quote_price quote holding = Inr (Some u)"
      "\<not> (rs_emergency rug \<and> pp_rug_exit policy)"
      "stop_is_hit policy (pnl_of (Some u) (entry_unit_price policy holding))"
      "d = stop_rule policy u (pnl_of (Some u) (entry_unit_price policy holding)) state"
  | (dispose) u where "quote_price quote holding = Inr (Some u)"
      "\<not> (rs_emergency rug \<and> pp_rug_exit policy)"
      "\<not> stop_is_hit policy (pnl_of (Some u) (entry_unit_price policy holding))"
      "disposal_enabled policy de"
      "dispose_rule u (pnl_of (Some u) (entry_unit_price policy holding))
         (state\<lparr>below_stop_streak := 0\<rparr>) slot = Inl d"
  | (trail) u st where "quote_price quote holding = Inr (Some u)"
      "\<not> (rs_emergency rug \<and> pp_rug_exit policy)"
      "\<not> stop_is_hit policy (pnl_of (Some u) (entry_unit_price policy holding))"
      "disposal_enabled policy de \<and>
         dispose_rule u (pnl_of (Some u) (entry_unit_price policy holding))
           (state\<lparr>below_stop_streak := 0\<rparr>) slot = Inr st
       \<or> \<not> disposal_enabled policy de \<and>
         st = state\<lparr>below_stop_streak := 0, last_pnl_pct := None, dispose_trigger_slot := None\<rparr>"
      "trail_rules policy holding u (entry_unit_price policy holding)
         (pnl_of (Some u) (entry_unit_price policy holding)) st pc = Inr d"
proof -
  from assms obtain u0 where price: "quote_price quote holding = Inr u0"
    by (auto simp: evaluate_position_def)
  note ev = assms [unfolded evaluate_position_def price rbind_Inr Let_def]
  show thesis
  proof (cases "rs_emergency rug \<and> pp_rug_exit policy")
    case True
    with ev price rug show thesis by auto
  next
    case no_rug: False
    show thesis
    proof (cases u0)
      case None
      with price have "quote = None" by (cases quote) auto
      with ev no_rug None no_quote show thesis by auto
    next
      case (Some u)
      show thesis
      proof (cases "stop_is_hit policy (pnl_of (Some u) (entry_unit_price policy holding))")
        case True
        with ev no_rug Some price stop [of u] show thesis by auto
      next
        case no_stop: False
        show thesis
        proof (cases "disposal_enabled policy de")
          case True
          with ev no_rug no_stop Some price dispose [of u] trail [of u] show thesis
            by (auto split: sum.splits)
        next
          case False
          with ev no_rug no_stop Some price trail [of u] show thesis by auto
        qed
      qed
    qed
  qed
qed

lemma dispose_rule_Inl:
  assumes "dispose_rule u pnl state slot = Inl d"
  shows "d_kind d = HOLD \<or> d_kind d = EXIT_DISPOSE \<and>
      (\<exists>p s t. pnl = Some p \<and> slot = Some s \<and> dispose_trigger_slot state = Some t \<and> t < s)"
    and "d_sell_amount d = None"
    and "\<exists>l t. d_next_state d = state\<lparr>last_pnl_pct := l, dispose_trigger_slot := t\<rparr>"
proof -
  show "d_kind d = HOLD \<or> d_kind d = EXIT_DISPOSE \<and>
      (\<exists>p s t. pnl = Some p \<and> slot = Some s \<and> dispose_trigger_slot state = Some t \<and> t < s)"
    and "d_sell_amount d = None"
    using assms by (auto simp: dispose_rule_def Let_def split: option.splits if_splits)
  show "\<exists>l t. d_next_state d = state\<lparr>last_pnl_pct := l, dispose_trigger_slot := t\<rparr>"
    using assms
    by (cases state) (auto simp: dispose_rule_def Let_def split: option.splits if_splits)
qed

lemma dispose_rule_Inr:
  assumes "dispose_rule u pnl state slot = Inr st"
  shows "\<exists>p. pnl = Some p \<and> st = state\<lparr>last_pnl_pct := Some p\<rparr>"
  using assms by (auto simp: dispose_rule_def Let_def split: option.splits if_splits)

text \<open>The armed runner: where its exits come from and what it does to the state.\<close>

lemmas runner_defs = evaluate_runner_def runner_floor_check_def Let_def

definition runner_peak :: "PositionState \<Rightarrow> decimal \<Rightarrow> decimal" where
  "runner_peak state u = max (py_or (trailing_peak_unit_price_sol state) u) u"

lemma runner_kinds:
  assumes "evaluate_runner policy holding u entry pnl state = Inr d"
  shows "d_kind d \<in> {HOLD, EXIT_SCALE, EXIT_TRAIL}"
  using assms by (auto simp: runner_defs split: option.splits if_splits)

lemma runner_trail:
  assumes "evaluate_runner policy holding u entry pnl state = Inr d" and "d_kind d = EXIT_TRAIL"
  obtains e t f where "entry = Some e" "0 < e" "pp_runner_tightness policy = Some t"
    "lock_floor_multiple (ddiv (runner_peak state u) e) t = Some f" "ddiv u e \<le> f"
    "needed_quotes policy \<le> below_floor_streak state + 1"
  using assms
  by (auto simp: runner_defs runner_peak_def not_le split: option.splits if_splits)

lemma runner_scale:
  assumes "evaluate_runner policy holding u entry pnl state = Inr d" and "d_kind d = EXIT_SCALE"
  obtains e rung fraction where "entry = Some e" "0 < e"
    "next_scale_fraction (ddiv (runner_peak state u) e) (scale_rungs_fired state) = Some (rung, fraction)"
    "d_sell_amount d = Some (scale_sell_amount (py_or (original_amount state) (th_amount holding))
        (th_amount holding) fraction)"
    "0 < scale_sell_amount (py_or (original_amount state) (th_amount holding)) (th_amount holding) fraction"
    "scale_rungs_fired (d_next_state d) = scale_rungs_fired state @ [rung_key rung]"
  using assms
  by (auto simp: runner_defs runner_peak_def not_le split: option.splits if_splits)

lemma runner_no_scale:
  assumes "evaluate_runner policy holding u entry pnl state = Inr d" and "d_kind d \<noteq> EXIT_SCALE"
  shows "d_sell_amount d = None"
    and "scale_rungs_fired (d_next_state d) = scale_rungs_fired state \<or>
      scale_rungs_fired state = [] \<and>
      (\<exists>m. scale_rungs_fired (d_next_state d) =
         map (rung_key \<circ> fst) (filter (\<lambda>(arm_at, fraction). arm_at \<le> m) SCALE_RUNGS))"
  using assms by (auto simp: runner_defs split: option.splits if_splits)

lemma runner_next_state:
  assumes "evaluate_runner policy holding u entry pnl state = Inr d"
  shows "trailing_active (d_next_state d)"
    and "trailing_peak_unit_price_sol (d_next_state d) = Some (runner_peak state u)"
    and "original_amount (d_next_state d) = Some (py_or (original_amount state) (th_amount holding))"
    and "below_stop_streak (d_next_state d) = below_stop_streak state"
    and "above_take_profit_streak (d_next_state d) = above_take_profit_streak state"
  using assms by (auto simp: runner_defs runner_peak_def split: option.splits if_splits)

lemma take_profit_kinds:
  "d_kind (take_profit_rule policy holding u pnl st) \<in> {HOLD, EXIT_TAKE_PROFIT, ACTIVATE_TRAIL}"
  "d_sell_amount (take_profit_rule policy holding u pnl st) = None"
  "scale_rungs_fired (d_next_state (take_profit_rule policy holding u pnl st)) = scale_rungs_fired st"
  "below_stop_streak (d_next_state (take_profit_rule policy holding u pnl st)) = below_stop_streak st"
  by (auto simp: take_profit_rule_def Let_def split: option.splits if_splits)

lemma take_profit_fires:
  assumes "d_kind (take_profit_rule policy holding u pnl st) \<in> {EXIT_TAKE_PROFIT, ACTIVATE_TRAIL}"
  shows "\<exists>tp p. pp_take_profit_pct policy = Some tp \<and> pnl = Some p \<and> tp \<le> p \<and>
      needed_quotes policy \<le> above_take_profit_streak st + 1"
    and "d_kind (take_profit_rule policy holding u pnl st) = EXIT_TAKE_PROFIT \<longleftrightarrow> \<not> runs policy"
  using assms
  by (auto simp: take_profit_rule_def runs_def Let_def split: option.splits if_splits)

text \<open>The trailing rules either hand over to the armed runner or end in the take-profit rule.\<close>

lemma trail_rules_cases:
  assumes "trail_rules policy holding u entry pnl st pc = Inr d"
  obtains (runner) "trailing_active st" "runs policy"
      "evaluate_runner policy holding u entry pnl st = Inr d"
  | (curve) "runs policy" "pp_hold_trail_until_graduated policy" "pc = Some False"
      "\<not> trailing_active st"
      "d = Decision_of HOLD Bonding_curve_wait pnl (Some u) st"
  | (take_profit) st' where "\<not> (trailing_active st \<and> runs policy)"
      "\<not> (runs policy \<and> pp_hold_trail_until_graduated policy \<and> pc = Some False)"
      "st' = (if trailing_active st
              then st\<lparr>trailing_active := False, trailing_peak_unit_price_sol := None\<rparr> else st)"
      "d = take_profit_rule policy holding u pnl st'"
  using assms by (auto simp: trail_rules_def Let_def split: if_splits)

lemma trail_kinds:
  assumes "trail_rules policy holding u entry pnl st pc = Inr d"
  shows "d_kind d \<in> {HOLD, EXIT_SCALE, EXIT_TRAIL, EXIT_TAKE_PROFIT, ACTIVATE_TRAIL}"
  using assms
proof (cases rule: trail_rules_cases)
  case runner
  then show ?thesis using runner_kinds by blast
next
  case (take_profit st')
  then show ?thesis using take_profit_kinds(1) [of policy holding u pnl st'] by auto
qed simp

section \<open>Properties of one evaluation\<close>

text \<open>
  A concrete bag for the witnesses: one whole token of nine decimals bought for
  1 SOL, under the default policy, quoted at a given number of lamports.
\<close>

definition sample_policy :: PositionPolicy where
  "sample_policy = \<lparr> pp_mint = ''MINT'', pp_name = ''bag'', pp_buy_price_sol = None,
     pp_cost_basis_sol = Some 1, pp_stop_loss_pct = None, pp_take_profit_pct = Some 100,
     pp_runner_tightness = Some 20, pp_rug_exit = True, pp_dispose_after_break_even = False,
     pp_floor_confirm_quotes = 2, pp_hold_trail_until_graduated = True \<rparr>"

definition sample_holding :: TokenHolding where
  "sample_holding = \<lparr> th_mint = ''MINT'', th_amount = 1000000000, th_decimals = 9,
     th_token_accounts = [''ACC''], th_program_ids = [''PROG''] \<rparr>"

definition sample_quote :: "int \<Rightarrow> ExitQuote" where
  "sample_quote lamports = \<lparr> eq_input_mint = ''MINT'', eq_input_amount = 1000000000,
     eq_out_lamports = lamports, eq_minimum_out_lamports = None, eq_price_impact_pct = None,
     eq_router = None, eq_received_at = 0 \<rparr>"

definition sample_rug :: "bool \<Rightarrow> RugSignal" where
  "sample_rug emergency = \<lparr> rs_emergency = emergency, rs_reason = None,
     rs_liquidity_drop_pct = None, rs_supply_growth_pct = None, rs_needs_confirmation = False \<rparr>"

lemmas sample_defs = sample_policy_def sample_holding_def sample_quote_def sample_rug_def
  initial_PositionState_def

lemma sample_rug_decision:
  "evaluate_position sample_policy sample_holding None initial_PositionState (sample_rug True) None None None
   = Inr (Decision_of EXIT_RUG Rug_detector_emergency None None initial_PositionState)"
  by (simp add: evaluate_position_def Let_def pnl_of_def sample_rug_def sample_policy_def)

lemma stop_rule_facts:
  "d_kind (stop_rule policy u pnl st) =
     (if needed_quotes policy \<le> below_stop_streak st + 1 then EXIT_STOP else HOLD)"
  "d_next_state (stop_rule policy u pnl st) =
     st\<lparr>below_stop_streak := below_stop_streak st + 1, above_take_profit_streak := 0\<rparr>"
  "d_sell_amount (stop_rule policy u pnl st) = None"
  "d_pnl_pct (stop_rule policy u pnl st) = pnl"
  by (simp_all add: stop_rule_def Let_def)

lemma dispose_rule_state_same:
  assumes "dispose_rule u pnl st slot = Inr st'"
  shows "trailing_active st' = trailing_active st"
    "scale_rungs_fired st' = scale_rungs_fired st" "below_stop_streak st' = below_stop_streak st"
    "above_take_profit_streak st' = above_take_profit_streak st"
    "below_floor_streak st' = below_floor_streak st" "original_amount st' = original_amount st"
    "trailing_peak_unit_price_sol st' = trailing_peak_unit_price_sol st"
  using dispose_rule_Inr [OF assms] by auto

text \<open>
  C18 (safety). The rug exit has precedence over every other rule and has
  no other cause: on any observation that can be evaluated the decision is a
  rug exit exactly when the detector reports an emergency and the policy opted
  in, quote or no quote, and the bag's runtime state is then left as it was.
\<close>

theorem rug_exit_precedence:
  assumes "evaluate_position policy holding quote state rug slot de pc = Inr d"
  shows "(d_kind d = EXIT_RUG \<longleftrightarrow> rs_emergency rug \<and> pp_rug_exit policy)
    \<and> (d_kind d = EXIT_RUG \<longrightarrow> d_next_state d = state)"
  using assms
proof (cases rule: evaluate_position_cases)
  case (trail u st)
  from trail_kinds [OF trail(5)] have "d_kind d \<noteq> EXIT_RUG" by auto
  with trail(2) show ?thesis by simp
qed (auto simp: stop_rule_facts dest: dispose_rule_Inl(1))

theorem rug_exit_precedence_witness:
  "\<exists>d. evaluate_position sample_policy sample_holding None initial_PositionState (sample_rug True)
       None None None = Inr d \<and> d_kind d = EXIT_RUG"
  using rug_exit_precedence [OF sample_rug_decision] sample_rug_decision
  by (simp add: sample_rug_def sample_policy_def)

text \<open>
  A bag with no known cost basis is rug-only: without an entry
  price no price rule, no trail, no scale-out and no disposal can sell it,
  whatever the thresholds and the runtime state say.
\<close>

lemma no_basis_is_rug_only:
  assumes "evaluate_position policy holding quote state rug slot de pc = Inr d"
    and "entry_unit_price policy holding = None" and "exits d"
  shows "d_kind d = EXIT_RUG"
  using assms(1)
proof (cases rule: evaluate_position_cases)
  case (stop u)
  then show ?thesis using assms(2) by (simp add: stop_is_hit_def pnl_of_def split: option.splits)
next
  case (dispose u)
  then show ?thesis using assms(2,3) dispose_rule_Inl(1) [OF dispose(5)]
    by (simp add: pnl_of_def exits_def split: option.splits)
next
  case (trail u st)
  from trail(5) have "d_kind d \<in> {HOLD, ACTIVATE_TRAIL}"
  proof (cases rule: trail_rules_cases)
    case runner
    then show ?thesis using assms(2) by (auto simp: evaluate_runner_def Let_def)
  next
    case (take_profit st')
    then show ?thesis using assms(2)
      by (simp add: take_profit_rule_def pnl_of_def Let_def split: option.splits)
  qed simp
  with assms(3) show ?thesis by (auto simp: exits_def)
qed (use assms(3) in \<open>auto simp: exits_def\<close>)

text \<open>
  "Hold until it dies": a policy with no stop, no take profit and
  no runner, on a bag whose disposal is not enabled, never sells on price. The
  rug exit is the only sale it can decide.
\<close>

lemma hold_until_it_dies:
  assumes "evaluate_position policy holding quote state rug slot de pc = Inr d"
    and "pp_stop_loss_pct policy = None" "pp_take_profit_pct policy = None"
      "pp_runner_tightness policy = None" "\<not> disposal_enabled policy de" and "exits d"
  shows "d_kind d = EXIT_RUG"
  using assms(1)
proof (cases rule: evaluate_position_cases)
  case (stop u)
  then show ?thesis using assms(2) by (simp add: stop_is_hit_def)
next
  case (trail u st)
  from trail(5) have "d_kind d = HOLD"
    using assms(3,4)
    by (cases rule: trail_rules_cases) (auto simp: runs_def take_profit_rule_def Let_def)
  with assms(6) show ?thesis by (simp add: exits_def)
qed (use assms in \<open>auto simp: exits_def\<close>)

text \<open>
  Evaluation raises for one reason only: an exit quote whose amount
  is not the bag's current full balance (or a bag that is empty). In
  particular the "runner evaluated for a policy with no runner_tightness"
  error of the source is unreachable.
\<close>

lemma evaluate_position_raises_iff:
  "evaluate_position policy holding quote state rug slot de pc = Inl e \<longleftrightarrow>
     (\<exists>q. quote = Some q \<and> \<not> (0 < th_amount holding \<and> eq_input_amount q = th_amount holding)) \<and>
     e = ValueError ''quote amount must equal the current full holding''"
proof -
  have no_runner_error: "evaluate_runner policy holding u entry pnl st \<noteq> Inl e"
    if "runs policy" for u entry pnl st
    using that by (auto simp: runner_defs runs_def split: option.splits if_splits)
  have "trail_rules policy holding u entry pnl st pc \<noteq> Inl e" for u entry pnl st
    using no_runner_error by (simp add: trail_rules_def Let_def)
  then have "evaluate_position policy holding quote state rug slot de pc = Inl e \<longleftrightarrow>
      quote_price quote holding = Inl e"
    by (cases "quote_price quote holding")
       (simp_all add: evaluate_position_def Let_def split: option.split sum.split)
  then show ?thesis
    by (auto simp: quote_price_def unit_price_sol_def rbind_eq_Inl split: option.splits if_splits)
qed

end
