(* ===== verification/Position_Trace.thy ===== *)
theory Position_Trace
  imports Domain
begin

text \<open>
  Sequences of evaluations of one bag. The engine evaluates a bag once per
  poll and persists the decision's next state, so the behaviour of
  \<open>domain.evaluate_position\<close> over time is its iteration over a list of
  observations, each with its own balance, quote, rug signal, slot, disposal
  override and graduation flag. The confirmation streaks, the scale rungs and
  the disposal trigger only mean something over such sequences.
\<close>

section \<open>Definitions\<close>

record observation =
  ob_holding :: TokenHolding
  ob_quote :: "ExitQuote option"
  ob_rug :: RugSignal
  ob_slot :: "int option"
  ob_dispose :: "bool option"
  ob_pump :: "bool option"

definition observe :: "PositionPolicy \<Rightarrow> PositionState \<Rightarrow> observation \<Rightarrow> Decision res" where
  "observe policy st ob = evaluate_position policy (ob_holding ob) (ob_quote ob) st (ob_rug ob)
     (ob_slot ob) (ob_dispose ob) (ob_pump ob)"

fun eval_run :: "PositionPolicy \<Rightarrow> PositionState \<Rightarrow> observation list \<Rightarrow> (Decision list \<times> PositionState) res" where
  "eval_run policy st [] = Inr ([], st)"
| "eval_run policy st (ob # obs) =
     rbind (observe policy st ob) (\<lambda>d.
     rbind (eval_run policy (d_next_state d) obs) (\<lambda>(ds, st'). Inr (d # ds, st')))"

text \<open>An observation the price rules get to see: a quote, and no rug exit taking precedence.\<close>

definition priced :: "PositionPolicy \<Rightarrow> observation \<Rightarrow> bool" where
  "priced policy ob \<longleftrightarrow> ob_quote ob \<noteq> None \<and> \<not> (rs_emergency (ob_rug ob) \<and> pp_rug_exit policy)"

definition observed_pnl :: "PositionPolicy \<Rightarrow> observation \<Rightarrow> decimal option" where
  "observed_pnl policy ob =
     (case quote_price (ob_quote ob) (ob_holding ob) of
        Inr u \<Rightarrow> pnl_of u (entry_unit_price policy (ob_holding ob))
      | Inl e \<Rightarrow> None)"

definition stop_hit_at :: "PositionPolicy \<Rightarrow> observation \<Rightarrow> bool" where
  "stop_hit_at policy ob \<longleftrightarrow> stop_is_hit policy (observed_pnl policy ob)"

text \<open>How many of the most recent priced observations in a row were at or below the stop.\<close>

definition stop_streak :: "PositionPolicy \<Rightarrow> observation list \<Rightarrow> int" where
  "stop_streak policy obs = int (length (takeWhile (stop_hit_at policy) (rev (filter (priced policy) obs))))"

section \<open>Runs\<close>

lemma eval_run_snoc:
  "eval_run policy st (obs @ [ob]) =
     rbind (eval_run policy st obs) (\<lambda>(ds, st').
     rbind (observe policy st' ob) (\<lambda>d. Inr (ds @ [d], d_next_state d)))"
proof (induction obs arbitrary: st)
  case Nil
  then show ?case by (cases "observe policy st ob") auto
next
  case (Cons o' obs)
  then show ?case
    by (cases "observe policy st o'") (auto simp: rbind_def split: sum.splits)
qed

lemma eval_run_snocE:
  assumes "eval_run policy st (obs @ [ob]) = Inr (ds', st')"
  obtains ds d st1 where "ds' = ds @ [d]" "eval_run policy st obs = Inr (ds, st1)"
    "observe policy st1 ob = Inr d" "st' = d_next_state d"
  using assms by (auto simp: eval_run_snoc)

text \<open>An invariant of single evaluations holds along every run.\<close>

lemma eval_run_invariant:
  assumes "eval_run policy st obs = Inr (ds, st')" and "P st"
    and "\<And>st ob d. P st \<Longrightarrow> observe policy st ob = Inr d \<Longrightarrow> P (d_next_state d)"
  shows "P st'"
  using assms(1)
proof (induction obs arbitrary: ds st' rule: rev_induct)
  case Nil
  then show ?case using assms(2) by simp
next
  case (snoc ob obs)
  from snoc.prems obtain ds1 d st1 where "eval_run policy st obs = Inr (ds1, st1)"
    "observe policy st1 ob = Inr d" "st' = d_next_state d" by (rule eval_run_snocE)
  then show ?case using snoc.IH assms(3) by blast
qed

section \<open>The stop needs consecutive confirmations\<close>

lemma observed_pnl_price:
  "quote_price (ob_quote ob) (ob_holding ob) = Inr u \<Longrightarrow>
   observed_pnl policy ob = pnl_of u (entry_unit_price policy (ob_holding ob))"
  by (simp add: observed_pnl_def)

lemma quote_price_Some: "quote_price q h = Inr (Some u) \<Longrightarrow> q \<noteq> None"
  by (cases q) auto

lemma observe_stop_streak:
  assumes "observe policy st ob = Inr d"
  shows "below_stop_streak (d_next_state d) =
      (if priced policy ob
       then if stop_hit_at policy ob then below_stop_streak st + 1 else 0
       else below_stop_streak st)"
    and "d_kind d = EXIT_STOP \<longleftrightarrow>
      priced policy ob \<and> stop_hit_at policy ob \<and> needed_quotes policy \<le> below_stop_streak st + 1"
proof -
  have "below_stop_streak (d_next_state d) =
      (if priced policy ob
       then if stop_hit_at policy ob then below_stop_streak st + 1 else 0
       else below_stop_streak st) \<and>
     (d_kind d = EXIT_STOP \<longleftrightarrow>
      priced policy ob \<and> stop_hit_at policy ob \<and> needed_quotes policy \<le> below_stop_streak st + 1)"
    using assms unfolding observe_def
  proof (cases rule: evaluate_position_cases)
    case (stop u)
    then show ?thesis
      by (auto simp: priced_def stop_hit_at_def observed_pnl_price stop_rule_facts
          dest!: quote_price_Some)
  next
    case (dispose u)
    then have "priced policy ob" "\<not> stop_hit_at policy ob"
      by (auto simp: priced_def stop_hit_at_def observed_pnl_price dest!: quote_price_Some)
    then show ?thesis using dispose_rule_Inl(1,3) [OF dispose(5)] by auto
  next
    case (trail u st1)
    then have p: "priced policy ob" "\<not> stop_hit_at policy ob"
      by (auto simp: priced_def stop_hit_at_def observed_pnl_price dest!: quote_price_Some)
    have st1: "below_stop_streak st1 = 0"
      using trail(4) dispose_rule_state_same(3) by fastforce
    from trail(5) have "below_stop_streak (d_next_state d) = 0"
      by (cases rule: trail_rules_cases)
         (auto simp: st1 runner_next_state(4) take_profit_kinds(4))
    with p trail_kinds [OF trail(5)] show ?thesis by auto
  qed (auto simp: priced_def)
  then show "below_stop_streak (d_next_state d) =
      (if priced policy ob
       then if stop_hit_at policy ob then below_stop_streak st + 1 else 0
       else below_stop_streak st)"
    and "d_kind d = EXIT_STOP \<longleftrightarrow>
      priced policy ob \<and> stop_hit_at policy ob \<and> needed_quotes policy \<le> below_stop_streak st + 1"
    by auto
qed

lemma stop_streak_snoc:
  "stop_streak policy (obs @ [ob]) =
     (if priced policy ob
      then if stop_hit_at policy ob then stop_streak policy obs + 1 else 0
      else stop_streak policy obs)"
  by (simp add: stop_streak_def)

lemma run_stop_streak:
  assumes "eval_run policy st obs = Inr (ds, st')" and "below_stop_streak st = 0"
  shows "below_stop_streak st' = stop_streak policy obs"
  using assms(1)
proof (induction obs arbitrary: ds st' rule: rev_induct)
  case Nil
  then show ?case using assms(2) by (simp add: stop_streak_def)
next
  case (snoc ob obs)
  from snoc.prems obtain ds1 d st1 where "eval_run policy st obs = Inr (ds1, st1)"
    and ob: "observe policy st1 ob = Inr d" "st' = d_next_state d" by (rule eval_run_snocE)
  from snoc.IH [OF this(1)] show ?case
    using observe_stop_streak(1) [OF ob(1)] ob(2) by (simp add: stop_streak_snoc)
qed

text \<open>
  C19 (functional). The stop fires exactly on confirmation: along any run of
  evaluations that starts with a clear streak, the last decision is a stop
  exit if and only if the last observation is priced, is at or below the stop,
  and the number of most recent priced observations in a row at or below the
  stop has reached the policy's confirmation count. One wick never sells when
  two confirmations are asked for, and a confirmed stop always does.
\<close>

theorem stop_fires_iff_confirmed:
  assumes "eval_run policy st (obs @ [ob]) = Inr (ds @ [d], st')" and "below_stop_streak st = 0"
  shows "d_kind d = EXIT_STOP \<longleftrightarrow>
    priced policy ob \<and> stop_hit_at policy ob \<and>
    needed_quotes policy \<le> stop_streak policy (obs @ [ob])"
proof -
  from assms(1) obtain ds1 st1 where "eval_run policy st obs = Inr (ds1, st1)"
    and ob: "observe policy st1 ob = Inr d" by (auto elim: eval_run_snocE)
  from run_stop_streak [OF this(1) assms(2)] show ?thesis
    using observe_stop_streak(2) [OF ob] by (auto simp: stop_streak_snoc)
qed

definition sample_observation :: "int \<Rightarrow> bool option \<Rightarrow> observation" where
  "sample_observation lamports pump = \<lparr> ob_holding = sample_holding,
     ob_quote = Some (sample_quote lamports), ob_rug = sample_rug False, ob_slot = None,
     ob_dispose = None, ob_pump = pump \<rparr>"

definition stop_policy :: PositionPolicy where
  "stop_policy = sample_policy\<lparr>pp_stop_loss_pct := Some (-30)\<rparr>"

theorem stop_fires_iff_confirmed_witness:
  "\<exists>ds d st'. eval_run stop_policy initial_PositionState
      ([sample_observation 600000000 None] @ [sample_observation 500000000 None]) = Inr (ds @ [d], st')
     \<and> d_kind d = EXIT_STOP"
proof -
  let ?obs = "[sample_observation 600000000 None]" and ?ob = "sample_observation 500000000 None"
  have ok: "\<exists>ds d st'. eval_run stop_policy initial_PositionState (?obs @ [?ob]) = Inr (ds @ [d], st')"
  proof -
    have "\<not> isl (eval_run stop_policy initial_PositionState (?obs @ [?ob]))" by code_simp
    then show ?thesis by (auto simp: eval_run_snoc rbind_def split: sum.splits)
  qed
  then obtain ds d st' where run: "eval_run stop_policy initial_PositionState (?obs @ [?ob]) = Inr (ds @ [d], st')"
    by blast
  have "priced stop_policy ?ob" "stop_hit_at stop_policy ?ob"
    "needed_quotes stop_policy \<le> stop_streak stop_policy (?obs @ [?ob])" by code_simp+
  moreover have "below_stop_streak initial_PositionState = 0" by (simp add: initial_PositionState_def)
  ultimately show ?thesis using stop_fires_iff_confirmed [OF run] run by blast
qed

section \<open>Scale-outs over the life of a lot\<close>

definition sold_by :: "Decision \<Rightarrow> int" where
  "sold_by d = (case d_sell_amount d of None \<Rightarrow> 0 | Some n \<Rightarrow> n)"

definition rung_share :: "int \<Rightarrow> string \<Rightarrow> int" where
  "rung_share n key = \<lfloor>of_int n * (if key = ''2'' then 30/100 else 25/100 :: rat)\<rfloor>"

definition scale_wf :: "PositionState \<Rightarrow> bool" where
  "scale_wf st \<longleftrightarrow> distinct (scale_rungs_fired st) \<and> set (scale_rungs_fired st) \<subseteq> {''2'', ''4''}"

text \<open>What one evaluation does to the rungs: a scale-out spends one and sells no more than its share.\<close>

definition scale_step :: "int \<Rightarrow> PositionState \<Rightarrow> Decision \<Rightarrow> bool" where
  "scale_step n st d \<longleftrightarrow>
     (if d_kind d = EXIT_SCALE
      then \<exists>k. scale_rungs_fired (d_next_state d) = scale_rungs_fired st @ [k] \<and> sold_by d \<le> rung_share n k
      else scale_rungs_fired (d_next_state d) = scale_rungs_fired st \<and> sold_by d = 0)"

definition fired_share :: "int \<Rightarrow> PositionState \<Rightarrow> int" where
  "fired_share n st = sum_list (map (rung_share n) (scale_rungs_fired st))"

lemma runner_lot:
  assumes run: "evaluate_runner policy holding u entry pnl st = Inr d"
    and lot: "original_amount st = Some n" "0 < n" "n < 10 ^ 26" and wf: "scale_wf st"
  shows "original_amount (d_next_state d) = Some n \<and> scale_wf (d_next_state d)
    \<and> scale_step n st d"
proof (cases "d_kind d = EXIT_SCALE")
  case True
  obtain e rung fraction where
    due: "next_scale_fraction (ddiv (runner_peak st u) e) (scale_rungs_fired st) = Some (rung, fraction)"
    and sell: "d_sell_amount d = Some (scale_sell_amount (py_or (original_amount st) (th_amount holding))
        (th_amount holding) fraction)"
    and pos: "0 < scale_sell_amount (py_or (original_amount st) (th_amount holding)) (th_amount holding) fraction"
    and fired: "scale_rungs_fired (d_next_state d) = scale_rungs_fired st @ [rung_key rung]"
    using runner_scale [OF run True] by metis
  note rung = next_scale_fraction_Some [OF due]
  have n: "py_or (original_amount st) (th_amount holding) = n" using lot by simp
  have "scale_sell_amount n (th_amount holding) fraction \<le> \<lfloor>of_int n * fraction\<rfloor>"
    using pos [unfolded n] scale_fraction_exact [OF lot(2,3) rung(1)] rung(1) lot(2)
    by (auto simp: scale_sell_amount_def Let_def dint_def split: if_splits)
  moreover have "rung_share n (rung_key rung) = \<lfloor>of_int n * fraction\<rfloor>"
    using rung(1) [unfolded SCALE_RUNGS_cases]
    by (elim disjE conjE; hypsubst) (simp_all add: rung_keys rung_share_def)
  moreover have "scale_wf (d_next_state d)"
    using wf fired rung by (auto simp: scale_wf_def SCALE_RUNGS_cases rung_keys)
  ultimately show ?thesis
    using True runner_next_state(3) [OF run] sell fired by (simp add: n sold_by_def scale_step_def)
next
  case False
  have "scale_rungs_fired (d_next_state d) = scale_rungs_fired st"
    using run False lot(1) by (auto simp: runner_defs split: option.splits if_splits)
  then show ?thesis
    using runner_no_scale(1) [OF run False] runner_next_state(3) [OF run] lot wf
    using False by (simp add: sold_by_def scale_step_def scale_wf_def)
qed

lemma take_profit_lot:
  assumes "original_amount st = Some n" "0 < n"
  shows "original_amount (d_next_state (take_profit_rule policy holding u pnl st)) = Some n"
  using assms by (auto simp: take_profit_rule_def Let_def split: option.splits)

lemma lot_frame:
  assumes "original_amount st' = original_amount st" "scale_rungs_fired st' = scale_rungs_fired st"
    "d_sell_amount d = None" "original_amount st = Some n" "scale_wf st" "d_next_state d = st'" "d_kind d \<noteq> EXIT_SCALE"
  shows "original_amount (d_next_state d) = Some n \<and> scale_wf (d_next_state d)
    \<and> scale_step n st d"
  using assms by (simp add: scale_wf_def scale_step_def sold_by_def)

lemma observe_lot:
  assumes obs: "observe policy st ob = Inr d"
    and lot: "original_amount st = Some n" "0 < n" "n < 10 ^ 26" and wf: "scale_wf st"
  shows "original_amount (d_next_state d) = Some n \<and> scale_wf (d_next_state d)
    \<and> scale_step n st d"
  using obs unfolding observe_def
proof (cases rule: evaluate_position_cases)
  case (stop u)
  then show ?thesis using lot wf by (intro lot_frame) (auto simp: stop_rule_facts)
next
  case (dispose u)
  have "d_kind d \<noteq> EXIT_SCALE" using dispose_rule_Inl(1) [OF dispose(5)] by auto
  with dispose_rule_Inl(3) [OF dispose(5)] dispose_rule_Inl(2) [OF dispose(5)]
  show ?thesis using lot wf by (intro lot_frame) auto
next
  case (trail u st1)
  have st1: "original_amount st1 = original_amount st" "scale_rungs_fired st1 = scale_rungs_fired st"
    using trail(4) dispose_rule_state_same(2,6) by fastforce+
  then have wf1: "scale_wf st1" "scale_step n st1 d \<longleftrightarrow> scale_step n st d"
    using wf by (simp_all add: scale_wf_def scale_step_def)
  from trail(5) show ?thesis
  proof (cases rule: trail_rules_cases)
    case runner
    from runner_lot [OF runner(3)] show ?thesis using lot st1 wf1 by simp
  next
    case curve
    then show ?thesis using lot st1 wf by (intro lot_frame [where st' = st1]) auto
  next
    case (take_profit st2)
    then have "original_amount st2 = Some n" "scale_rungs_fired st2 = scale_rungs_fired st"
      using st1 lot by auto
    moreover have "d_kind d \<noteq> EXIT_SCALE"
      unfolding take_profit(4)
      by (auto simp: take_profit_rule_def Let_def split: option.splits if_splits)
    ultimately show ?thesis using take_profit(4) lot wf take_profit_lot
      by (intro lot_frame [where st' = "d_next_state d"]) (auto simp: take_profit_kinds)
  qed
qed (use lot wf in \<open>auto simp: scale_step_def sold_by_def\<close>)

text \<open>The scale-outs among the decisions, in order, and the rungs they spend.\<close>

definition spends :: "int \<Rightarrow> Decision list \<Rightarrow> string list \<Rightarrow> bool" where
  "spends n ds ks \<longleftrightarrow>
     list_all2 (\<lambda>d k. sold_by d \<le> rung_share n k) (filter (\<lambda>d. d_kind d = EXIT_SCALE) ds) ks \<and>
     (\<forall>d \<in> set ds. d_kind d \<noteq> EXIT_SCALE \<longrightarrow> sold_by d = 0)"

lemma spends_Nil [simp]: "spends n [] []"
  by (simp add: spends_def)

lemma spends_snoc:
  assumes "spends n ds ks" and "scale_step n st d"
  obtains ks' where "spends n (ds @ [d]) (ks @ ks')" and "scale_rungs_fired (d_next_state d) = scale_rungs_fired st @ ks'"
proof (cases "d_kind d = EXIT_SCALE")
  case True
  then obtain k where "scale_rungs_fired (d_next_state d) = scale_rungs_fired st @ [k]" "sold_by d \<le> rung_share n k"
    using assms(2) by (auto simp: scale_step_def)
  then show ?thesis using assms(1) True that [of "[k]"] by (auto simp: spends_def intro!: list_all2_appendI)
next
  case False
  then show ?thesis using assms that [of "[]"] by (auto simp: spends_def scale_step_def)
qed

lemma spends_total: "spends n ds ks \<Longrightarrow> sum_list (map sold_by ds) \<le> sum_list (map (rung_share n) ks)"
proof (induction ds arbitrary: ks)
  case (Cons d ds)
  show ?case
  proof (cases "d_kind d = EXIT_SCALE")
    case True
    with Cons.prems obtain k ks' where "ks = k # ks'" "sold_by d \<le> rung_share n k" "spends n ds ks'"
      by (auto simp: spends_def list_all2_Cons1)
    then show ?thesis using Cons.IH [of ks'] by simp
  next
    case False
    then show ?thesis using Cons.prems Cons.IH [of ks] by (auto simp: spends_def)
  qed
qed (simp add: spends_def)

lemma run_lot:
  assumes "eval_run policy st obs = Inr (ds, st')"
    and "original_amount st = Some n" "0 < n" "n < 10 ^ 26" "scale_wf st"
  shows "original_amount st' = Some n \<and> scale_wf st'
    \<and> (\<exists>ks. scale_rungs_fired st' = scale_rungs_fired st @ ks \<and> spends n ds ks)"
  using assms(1)
proof (induction obs arbitrary: ds st' rule: rev_induct)
  case Nil
  then show ?case using assms by simp
next
  case (snoc ob obs)
  from snoc.prems obtain ds1 d st1 where run: "ds = ds1 @ [d]" "eval_run policy st obs = Inr (ds1, st1)"
    and ob: "observe policy st1 ob = Inr d" "st' = d_next_state d" by (rule eval_run_snocE)
  obtain ks where ks: "original_amount st1 = Some n" "scale_wf st1"
      "scale_rungs_fired st1 = scale_rungs_fired st @ ks" "spends n ds1 ks"
    using snoc.IH [OF run(2)] by blast
  note lot = observe_lot [OF ob(1) ks(1) assms(3,4) ks(2)]
  then obtain ks' where "spends n ds (ks @ ks')" "scale_rungs_fired st' = scale_rungs_fired st1 @ ks'"
    unfolding run(1) ob(2) using spends_snoc [OF ks(4)] by blast
  then show ?case using ks(3) lot ob(2) by auto
qed

lemma scale_wf_rungs:
  assumes "scale_wf st"
  shows "scale_rungs_fired st \<in> {[], [''2''], [''4''], [''2'', ''4''], [''4'', ''2'']}"
proof -
  have "length (scale_rungs_fired st) \<le> card {''2'', ''4''}"
    using assms by (metis card_mono distinct_card finite.emptyI finite.insertI scale_wf_def)
  then have "length (scale_rungs_fired st) \<le> 2" by simp
  then consider "scale_rungs_fired st = []" | a where "scale_rungs_fired st = [a]"
    | a b where "scale_rungs_fired st = [a, b]"
    by (cases "scale_rungs_fired st" rule: remdups_adj.cases) (auto simp: Suc_le_eq neq_Nil_conv)
  then show ?thesis using assms by cases (auto simp: scale_wf_def)
qed

lemma fired_share_bound:
  assumes "scale_wf st" "0 < n"
  shows "of_int (fired_share n st) \<le> (55/100 :: rat) * of_int n" and "0 \<le> fired_share n st"
proof -
  have two: "of_int (rung_share n ''2'') \<le> (30/100 :: rat) * of_int n"
    "of_int (rung_share n ''4'') \<le> (25/100 :: rat) * of_int n"
    by (simp_all add: rung_share_def) linarith+
  moreover have nn: "0 \<le> rung_share n k" for k using assms(2) by (auto simp: rung_share_def)
  moreover have "(0::rat) < of_int n" using assms(2) by simp
  ultimately show "of_int (fired_share n st) \<le> (55/100 :: rat) * of_int n"
    using scale_wf_rungs [OF assms(1)] by (auto simp: fired_share_def)
  show "0 \<le> fired_share n st" unfolding fired_share_def using nn by (intro sum_list_map_nonneg)
qed

text \<open>
  C20 (bounds). Scale-outs leave the residual riding. Take any sequence of evaluations, at
  whatever prices, of a lot whose original size n is recorded and of which no rung was
  fired yet, with n positive and below 10^26 so that the 28 digits hold it. Each
  scale-out spends a rung of its own, so that each of the two rungs is spent at most
  once, and sells no more than the share of that rung; no other decision sells a part;
  and what the scale-outs sell in total is at most 55 percent of n.
\<close>

theorem scale_outs_at_most_55_percent:
  assumes "eval_run policy st obs = Inr (ds, st')"
    and "original_amount st = Some n" "0 < n" "n < 10 ^ 26" "scale_rungs_fired st = []"
  shows "distinct (scale_rungs_fired st') \<and> set (scale_rungs_fired st') \<subseteq> {''2'', ''4''} \<and>
    list_all2 (\<lambda>d k. sold_by d \<le> rung_share n k) (filter (\<lambda>d. d_kind d = EXIT_SCALE) ds) (scale_rungs_fired st') \<and>
    (\<forall>d \<in> set ds. d_kind d \<noteq> EXIT_SCALE \<longrightarrow> sold_by d = 0) \<and>
    of_int (sum_list (map sold_by ds)) \<le> (55/100 :: rat) * of_int n"
proof -
  have "scale_wf st" using assms(5) by (simp add: scale_wf_def)
  from run_lot [OF assms(1-4) this] assms(5) have st': "scale_wf st'" "spends n ds (scale_rungs_fired st')" by auto
  have "sum_list (map sold_by ds) \<le> fired_share n st'" using spends_total [OF st'(2)] by (simp add: fired_share_def)
  then have "of_int (sum_list (map sold_by ds)) \<le> (55/100 :: rat) * of_int n"
    using fired_share_bound(1) [OF st'(1) assms(3)] by (meson of_int_le_iff order_trans)
  then show ?thesis using st' by (simp add: scale_wf_def spends_def)
qed

definition armed_state :: PositionState where
  "armed_state = initial_PositionState\<lparr>trailing_active := True,
     trailing_peak_unit_price_sol := Some 2, original_amount := Some 1000000000\<rparr>"

theorem scale_outs_at_most_55_percent_witness:
  "\<exists>ds st'. eval_run sample_policy armed_state
      [sample_observation 2500000000 None, sample_observation 5000000000 None] = Inr (ds, st')
    \<and> map sold_by ds = [300000000, 250000000] \<and> set (scale_rungs_fired st') \<subseteq> {''2'', ''4''}
    \<and> of_int (sum_list (map sold_by ds)) \<le> (55/100 :: rat) * of_int 1000000000"
proof -
  let ?run = "eval_run sample_policy armed_state
      [sample_observation 2500000000 None, sample_observation 5000000000 None]"
  have "case ?run of Inl e \<Rightarrow> False | Inr (ds, st') \<Rightarrow> map sold_by ds = [300000000, 250000000]"
    by code_simp
  then obtain ds st' where run: "?run = Inr (ds, st')" and ds: "map sold_by ds = [300000000, 250000000]"
    by (auto split: sum.splits)
  have "original_amount armed_state = Some 1000000000" "scale_rungs_fired armed_state = []"
    by (simp_all add: armed_state_def initial_PositionState_def)
  from scale_outs_at_most_55_percent [OF run this(1) _ _ this(2)] have
    "set (scale_rungs_fired st') \<subseteq> {''2'', ''4''}" "of_int (sum_list (map sold_by ds)) \<le> (55/100 :: rat) * of_int 1000000000" by simp_all
  with run ds show ?thesis by (intro exI conjI)
qed

section \<open>The take-profit streak is not reset by the graduation hold\<close>

text \<open>
  The take profit is meant to need consecutive quotes (the comment
  in \<open>evaluate_position\<close>: one bad print must not be able to end a position in
  either direction), but the graduation hold returns before the streak is
  reset. A bag asking for two confirmations sees a quote at +100% while the
  graduation flag is unknown, then a quote at -50% while the flag says the
  curve is not complete, then one at +100% with the flag unknown again: the
  runner arms on two quotes that were not consecutive.
\<close>

lemma take_profit_streak_survives_graduation_hold:
  "\<exists>ds st'. eval_run sample_policy initial_PositionState
      [sample_observation 2000000000 None, sample_observation 500000000 (Some False),
       sample_observation 2000000000 None] = Inr (ds, st')
    \<and> map d_kind ds = [HOLD, HOLD, ACTIVATE_TRAIL]
    \<and> map d_pnl_pct ds = [Some 100, Some (-50), Some 100]"
proof -
  let ?run = "eval_run sample_policy initial_PositionState
      [sample_observation 2000000000 None, sample_observation 500000000 (Some False),
       sample_observation 2000000000 None]"
  have "case ?run of Inl e \<Rightarrow> False
      | Inr (ds, st') \<Rightarrow> map d_kind ds = [HOLD, HOLD, ACTIVATE_TRAIL]
          \<and> map d_pnl_pct ds = [Some 100, Some (-50), Some 100]"
    by code_simp
  then show ?thesis by (auto split: sum.splits)
qed

section \<open>Disposal waits for a later slot\<close>

text \<open>
  An observation on which disposal is armed: it is enabled, the profit just
  turned positive, and the confirmed slot is known.
\<close>

definition crosses_at :: "PositionPolicy \<Rightarrow> int \<Rightarrow> observation \<Rightarrow> bool" where
  "crosses_at policy slot ob \<longleftrightarrow> priced policy ob \<and> disposal_enabled policy (ob_dispose ob)
     \<and> ob_slot ob = Some slot \<and> (\<exists>p. observed_pnl policy ob = Some p \<and> 0 < p)"

lemma dispose_trigger_source:
  assumes "dispose_rule u pnl st slot = Inl d" "dispose_trigger_slot (d_next_state d) = Some t"
  shows "dispose_trigger_slot st = Some t \<or> slot = Some t \<and> (\<exists>p. pnl = Some p \<and> 0 < p)"
  using assms by (auto simp: dispose_rule_def Let_def split: option.splits if_splits)

lemma runner_trigger:
  "evaluate_runner policy holding u entry pnl st = Inr d \<Longrightarrow>
     dispose_trigger_slot (d_next_state d) = dispose_trigger_slot st"
  by (auto simp: runner_defs split: option.splits if_splits)

lemma take_profit_trigger:
  "dispose_trigger_slot (d_next_state (take_profit_rule policy holding u pnl st)) = dispose_trigger_slot st"
  by (auto simp: take_profit_rule_def Let_def split: option.splits)

lemma trail_trigger:
  assumes "trail_rules policy holding u entry pnl st pc = Inr d"
  shows "dispose_trigger_slot (d_next_state d) = dispose_trigger_slot st"
  using assms by (cases rule: trail_rules_cases) (auto simp: runner_trigger take_profit_trigger)

lemma observe_trigger:
  assumes "observe policy st ob = Inr d"
  shows "dispose_trigger_slot (d_next_state d) = Some t \<Longrightarrow>
      dispose_trigger_slot st = Some t \<or> crosses_at policy t ob"
    and "d_kind d = EXIT_DISPOSE \<Longrightarrow>
      disposal_enabled policy (ob_dispose ob) \<and>
      (\<exists>t s. dispose_trigger_slot st = Some t \<and> ob_slot ob = Some s \<and> t < s)"
proof -
  have "(dispose_trigger_slot (d_next_state d) = Some t \<longrightarrow>
      dispose_trigger_slot st = Some t \<or> crosses_at policy t ob) \<and>
    (d_kind d = EXIT_DISPOSE \<longrightarrow> disposal_enabled policy (ob_dispose ob) \<and>
      (\<exists>t s. dispose_trigger_slot st = Some t \<and> ob_slot ob = Some s \<and> t < s))"
    using assms unfolding observe_def
  proof (cases rule: evaluate_position_cases)
    case (stop u)
    then show ?thesis by (auto simp: stop_rule_facts)
  next
    case (dispose u)
    then have "priced policy ob" by (auto simp: priced_def dest!: quote_price_Some)
    then show ?thesis
      using dispose dispose_rule_Inl(1) [OF dispose(5)] dispose_trigger_source [OF dispose(5), of t]
      by (auto simp: crosses_at_def observed_pnl_price)
  next
    case (trail u st1)
    then have "dispose_trigger_slot st1 = dispose_trigger_slot st \<or> dispose_trigger_slot st1 = None"
      by (auto dest: dispose_rule_Inr)
    then show ?thesis using trail_trigger [OF trail(5)] trail_kinds [OF trail(5)] by auto
  qed auto
  then show "dispose_trigger_slot (d_next_state d) = Some t \<Longrightarrow>
      dispose_trigger_slot st = Some t \<or> crosses_at policy t ob"
    and "d_kind d = EXIT_DISPOSE \<Longrightarrow> disposal_enabled policy (ob_dispose ob) \<and>
      (\<exists>t s. dispose_trigger_slot st = Some t \<and> ob_slot ob = Some s \<and> t < s)" by auto
qed

lemma run_trigger:
  assumes "eval_run policy st obs = Inr (ds, st')" "dispose_trigger_slot st = None"
    and "dispose_trigger_slot st' = Some t"
  shows "\<exists>ob \<in> set obs. crosses_at policy t ob"
  using assms(1,3)
proof (induction obs arbitrary: ds st' rule: rev_induct)
  case Nil
  then show ?case using assms(2) by simp
next
  case (snoc ob obs)
  from snoc.prems(1) obtain ds1 d st1 where run: "eval_run policy st obs = Inr (ds1, st1)"
    and ob: "observe policy st1 ob = Inr d" "st' = d_next_state d" by (rule eval_run_snocE)
  from observe_trigger(1) [OF ob(1)] snoc.prems(2) ob(2)
  have "dispose_trigger_slot st1 = Some t \<or> crosses_at policy t ob" by simp
  then show ?case using snoc.IH [OF run] by auto
qed

text \<open>
  A dispose exit never fires on first sight of a green bag: along
  any run from an unarmed state, when the last decision is a dispose exit then
  disposal is enabled, and an earlier observation of the run saw the profit
  positive at a confirmed slot strictly before the one the exit was decided at.
\<close>

lemma dispose_exit_waits_for_a_later_slot:
  assumes "eval_run policy st (obs @ [ob]) = Inr (ds @ [d], st')"
    and "dispose_trigger_slot st = None" and "d_kind d = EXIT_DISPOSE"
  shows "disposal_enabled policy (ob_dispose ob) \<and>
    (\<exists>ob' \<in> set obs. \<exists>t s. crosses_at policy t ob' \<and> ob_slot ob = Some s \<and> t < s)"
proof -
  from assms(1) obtain ds1 st1 where run: "eval_run policy st obs = Inr (ds1, st1)"
    and ob: "observe policy st1 ob = Inr d" by (auto elim: eval_run_snocE)
  from observe_trigger(2) [OF ob assms(3)] obtain t s where
    t: "disposal_enabled policy (ob_dispose ob)" "dispose_trigger_slot st1 = Some t"
    "ob_slot ob = Some s" "t < s" by auto
  from run_trigger [OF run assms(2) t(2)] t show ?thesis by blast
qed

definition dispose_observation :: "int \<Rightarrow> int \<Rightarrow> observation" where
  "dispose_observation lamports slot = (sample_observation lamports None)
     \<lparr>ob_slot := Some slot, ob_dispose := Some True\<rparr>"

end
