(* ===== verification/Fill.thy ===== *)
theory Fill
  imports Domain
begin

text \<open>
  The constant-product fill arithmetic (\<open>joshibot/shitcoims_kernel/fill.py\<close>)
  and the reserve-derived minimum output built on it
  (\<open>joshibot/shitcoims_sentinel/reserves.py\<close>).
\<close>

section \<open>The fill kernel\<close>

text \<open>
  The values a caller can pass where the kernel expects an integer: the kernel
  tells them apart at run time.
\<close>

datatype pynum = PInt int | PBool bool | PFloat rat

record Reserves =
  token_raw :: int
  sol_lamports :: int

definition mk_Reserves :: "pynum \<Rightarrow> pynum \<Rightarrow> Reserves res" where
  "mk_Reserves t s =
     (case (t, s) of
        (PBool _, _) \<Rightarrow> Inl (FillError ''reserves must be integers, not bools'')
      | (_, PBool _) \<Rightarrow> Inl (FillError ''reserves must be integers, not bools'')
      | (PInt tr, PInt sl) \<Rightarrow>
          if tr < 0 \<or> sl < 0 then Inl (FillError ''reserves must be non-negative'')
          else Inr \<lparr> token_raw = tr, sol_lamports = sl \<rparr>
      | _ \<Rightarrow> Inl (FillError ''reserves must be integers; a float here is a silent corruption''))"

definition sell_out :: "Reserves \<Rightarrow> pynum \<Rightarrow> int res" where
  "sell_out reserves amount =
     (case amount of
        PInt a \<Rightarrow>
          if a < 0 then Inl (FillError ''amount must be non-negative'')
          else
            let denominator = token_raw reserves + a
            in if denominator = 0 then Inr 0
               else Inr (sol_lamports reserves * a div denominator)
      | _ \<Rightarrow> Inl (FillError ''amount must be an integer''))"

definition accepts :: "Reserves \<Rightarrow> pynum \<Rightarrow> pynum \<Rightarrow> bool res" where
  "accepts reserves amount flr =
     (case flr of
        PInt f \<Rightarrow> rbind (sell_out reserves amount) (\<lambda>out. Inr (f \<le> out))
      | _ \<Rightarrow> Inl (FillError ''floor must be an integer''))"

definition minimum_out :: "Reserves \<Rightarrow> pynum \<Rightarrow> pynum \<Rightarrow> int res" where
  "minimum_out reserves amount slippage_bps =
     (case slippage_bps of
        PInt s \<Rightarrow>
          if 0 \<le> s \<and> s \<le> 10000
          then rbind (sell_out reserves amount) (\<lambda>expected. Inr (expected * (10000 - s) div 10000))
          else Inl (FillError ''slippage_bps must be in [0, 10000]'')
      | _ \<Rightarrow> Inl (FillError ''slippage_bps must be an integer''))"

text \<open>The pool after a sale that it paid with its own arithmetic.\<close>

definition after_sale :: "Reserves \<Rightarrow> int \<Rightarrow> int \<Rightarrow> Reserves" where
  "after_sale r a paid = r\<lparr>token_raw := token_raw r + a, sol_lamports := sol_lamports r - paid\<rparr>"

definition reserves_ok :: "Reserves \<Rightarrow> bool" where
  "reserves_ok r \<longleftrightarrow> 0 \<le> token_raw r \<and> 0 \<le> sol_lamports r"

lemma mk_Reserves_ok: "mk_Reserves t s = Inr r \<Longrightarrow> reserves_ok r"
  by (auto simp: mk_Reserves_def reserves_ok_def split: pynum.splits if_splits)

lemma sell_out_value:
  "sell_out r (PInt a) = Inr out \<longleftrightarrow> 0 \<le> a \<and>
     out = (if token_raw r + a = 0 then 0 else sol_lamports r * a div (token_raw r + a))"
  by (auto simp: sell_out_def Let_def)

lemma sell_out_PInt: "sell_out r n = Inr out \<Longrightarrow> \<exists>a. n = PInt a \<and> 0 \<le> a"
  by (auto simp: sell_out_def Let_def split: pynum.splits if_splits)

lemma fill_le_reserve:
  fixes T S a :: int
  assumes "0 \<le> T" "0 \<le> S" "0 \<le> a" "T + a \<noteq> 0"
  shows "S * a div (T + a) \<le> S" and "0 \<le> S * a div (T + a)"
proof -
  have "S * a \<le> S * (T + a)" using assms by (intro mult_left_mono) auto
  then have "S * a div (T + a) \<le> S * (T + a) div (T + a)"
    using assms by (intro zdiv_mono1) auto
  then show "S * a div (T + a) \<le> S" using assms by simp
  show "0 \<le> S * a div (T + a)" using assms by (intro pos_imp_zdiv_nonneg_iff [THEN iffD2]) auto
qed

lemma fill_less_reserve:
  fixes T S a :: int
  assumes "0 < T" "0 < S" "0 \<le> a"
  shows "S * a div (T + a) < S"
proof (rule ccontr)
  assume "\<not> ?thesis"
  then have "S \<le> S * a div (T + a)" by simp
  then have "S * (T + a) \<le> (S * a div (T + a)) * (T + a)"
    using assms by (intro mult_right_mono) auto
  also have "\<dots> \<le> S * a" using assms by (metis add_pos_nonneg div_mult_mod_eq le_add_same_cancel1 pos_mod_sign)
  finally have "S * T \<le> 0" by (simp add: algebra_simps)
  then show False using assms by (simp add: mult_le_0_iff)
qed

text \<open>Comparing two floor divisions by cross multiplication.\<close>

lemma div_cross_le:
  fixes a b c d :: int
  assumes "0 < b" "0 < d" "a * d \<le> c * b"
  shows "a div b \<le> c div d"
proof -
  let ?q = "a div b"
  have "?q * b \<le> a" using assms(1) by (metis div_mult_mod_eq le_add_same_cancel1 pos_mod_sign)
  then have "?q * b * d \<le> a * d" using assms(2) by (intro mult_right_mono) auto
  then have "(?q * d) * b \<le> c * b" using assms(3) by (simp add: mult.commute mult.left_commute)
  then have "?q * d \<le> c" using assms(1) by simp
  then have "?q * d div d \<le> c div d" using assms(2) by (rule zdiv_mono1)
  then show ?thesis using assms(2) by simp
qed

lemma fill_mono:
  fixes T S a b :: int
  assumes "0 \<le> T" "0 \<le> S" "0 \<le> a" "a \<le> b" "T + a \<noteq> 0"
  shows "S * a div (T + a) \<le> S * b div (T + b)"
proof (rule div_cross_le)
  have "a * (T + b) \<le> b * (T + a)" using assms by (simp add: algebra_simps mult_left_mono)
  then have "S * (a * (T + b)) \<le> S * (b * (T + a))" using assms(2) by (rule mult_left_mono)
  then show "S * a * (T + b) \<le> S * b * (T + a)" by (simp add: mult.assoc)
qed (use assms in auto)

lemma floor_mult_le: "0 < (b::int) \<Longrightarrow> (a div b) * b \<le> a"
  by (metis div_mult_mod_eq le_add_same_cancel1 pos_mod_sign)

lemma fill_split:
  fixes T S a b :: int
  assumes "0 < T" "0 \<le> S" "0 \<le> a" "0 \<le> b"
  defines "f \<equiv> S * a div (T + a)"
  shows "f + (S - f) * b div (T + a + b) \<le> S * (a + b) div (T + a + b)"
proof -
  have pos: "0 < T + a + b" "0 < T + a" using assms by auto
  have "f * (T + a) \<le> S * a" unfolding f_def using pos(2) by (rule floor_mult_le)
  then have "f * (T + a + b) + (S - f) * b \<le> S * (a + b)" by (simp add: algebra_simps)
  then have "(f * (T + a + b) + (S - f) * b) div (T + a + b) \<le> S * (a + b) div (T + a + b)"
    using pos(1) by (rule zdiv_mono1)
  then show ?thesis using pos(1) by simp
qed

text \<open>
  A sale never pays more than the SOL in the pool (strictly less
  when the pool has both assets), never a negative amount, and never pays less
  for a larger amount.
\<close>

lemma sell_out_bounded_and_monotone:
  assumes "reserves_ok r" and "sell_out r (PInt a) = Inr out" and "sell_out r (PInt b) = Inr out'" and "a \<le> b"
  shows "0 \<le> out \<and> out \<le> out' \<and> out' \<le> sol_lamports r \<and>
    (0 < token_raw r \<and> 0 < sol_lamports r \<longrightarrow> out' < sol_lamports r)"
proof -
  have ab: "0 \<le> a" "0 \<le> b" "0 \<le> token_raw r" "0 \<le> sol_lamports r"
    using assms by (auto simp: sell_out_value reserves_ok_def)
  have b: "0 \<le> out' \<and> out' \<le> sol_lamports r \<and> (0 < token_raw r \<and> 0 < sol_lamports r \<longrightarrow> out' < sol_lamports r)"
    using ab assms(3) fill_le_reserve [of "token_raw r" "sol_lamports r" b] fill_less_reserve [of "token_raw r" "sol_lamports r" b]
    by (auto simp: sell_out_value)
  moreover have "0 \<le> out" "out \<le> out'"
    using ab assms(2-4) b fill_le_reserve [of "token_raw r" "sol_lamports r" a]
      fill_mono [of "token_raw r" "sol_lamports r" a b]
    by (auto simp: sell_out_value)
  ultimately show ?thesis by blast
qed

text \<open>
  Selling a bag in two clips, the second against the pool the first
  one left behind, never pays more than selling it at once: integer rounding
  cannot be farmed by splitting an exit.
\<close>

lemma splitting_never_pays_more:
  assumes "reserves_ok r" and "0 < token_raw r"
    and "sell_out r (PInt a) = Inr first" and "sell_out (after_sale r a first) (PInt b) = Inr second"
    and "sell_out r (PInt (a + b)) = Inr whole"
  shows "first + second \<le> whole \<and> reserves_ok (after_sale r a first)"
proof -
  have ab: "0 \<le> a" "0 \<le> b" "0 \<le> sol_lamports r"
    using assms by (auto simp: sell_out_value reserves_ok_def)
  have "first \<le> sol_lamports r"
    using assms ab fill_le_reserve [of "token_raw r" "sol_lamports r" a] by (auto simp: sell_out_value)
  moreover have "first + second \<le> whole"
    using assms ab fill_split [of "token_raw r" "sol_lamports r" a b]
    by (auto simp: sell_out_value after_sale_def add.assoc)
  ultimately show ?thesis using ab assms(2) by (simp add: reserves_ok_def after_sale_def)
qed

section \<open>The reserve-derived floor\<close>

definition CONSTANT_PRODUCT_DEX_IDS :: "string list" where
  "CONSTANT_PRODUCT_DEX_IDS = [''pumpfun'', ''pumpswap'', ''raydium'']"
definition RESERVE_DRIFT_ALLOWANCE_BPS :: int where
  "RESERVE_DRIFT_ALLOWANCE_BPS = 500"
definition MAX_POOL_SAMPLE_AGE_SECONDS :: int where
  "MAX_POOL_SAMPLE_AGE_SECONDS = 120"

definition reserves_from_pool :: "PoolSnapshot option \<Rightarrow> TokenHolding \<Rightarrow> int \<Rightarrow> Reserves option" where
  "reserves_from_pool pool_opt holding now =
     (case pool_opt of
        None \<Rightarrow> None
      | Some pool \<Rightarrow>
          if ps_dex_id pool \<notin> set CONSTANT_PRODUCT_DEX_IDS then None
          else if ps_base_mint pool \<noteq> th_mint holding \<or> ps_quote_mint pool \<noteq> WSOL_MINT then None
          else case ps_price_native pool of
            None \<Rightarrow> None
          | Some price_native \<Rightarrow>
              if ps_reserve_unit pool \<noteq> ''SOL'' then None
              else if ps_reserve_value pool \<le> 0 \<or> price_native \<le> 0 then None
              else
                let age = now - ps_observed_at pool
                in if age < 0 \<or> age > MAX_POOL_SAMPLE_AGE_SECONDS * 1000000 then None
                   else
                     let lamports = dint (dmul (ps_reserve_value pool) (of_int LAMPORTS_PER_SOL));
                         lamports_per_raw = ddiv (dmul price_native (of_int LAMPORTS_PER_SOL))
                                              (10 ^ th_decimals holding)
                     in if lamports_per_raw \<le> 0 then None
                        else
                          let tokens = dint (ddiv (of_int lamports) lamports_per_raw)
                          in if tokens \<le> 0 \<or> lamports \<le> 0 then None
                             else case mk_Reserves (PInt tokens) (PInt lamports) of
                                    Inr r \<Rightarrow> Some r
                                  | Inl _ \<Rightarrow> None)"

definition reserve_minimum_out ::
  "PoolSnapshot option \<Rightarrow> TokenHolding \<Rightarrow> int \<Rightarrow> int \<Rightarrow> int \<Rightarrow> int option" where
  "reserve_minimum_out pool holding amount drift_bps now =
     (case reserves_from_pool pool holding now of
        None \<Rightarrow> None
      | Some reserves \<Rightarrow>
          if amount \<le> 0 then None
          else case minimum_out reserves (PInt amount) (PInt drift_bps) of
                 Inl _ \<Rightarrow> None
               | Inr flr \<Rightarrow> if 0 < flr then Some flr else None)"

lemma reserves_from_pool_Some:
  assumes "reserves_from_pool pool holding now = Some r"
  obtains p where "pool = Some p" "ps_dex_id p \<in> set CONSTANT_PRODUCT_DEX_IDS"
    "ps_base_mint p = th_mint holding" "ps_quote_mint p = WSOL_MINT" "ps_reserve_unit p = ''SOL''"
    "ps_observed_at p \<le> now" "now \<le> ps_observed_at p + MAX_POOL_SAMPLE_AGE_SECONDS * 1000000"
    "sol_lamports r = dint (dmul (ps_reserve_value p) (of_int LAMPORTS_PER_SOL))"
    "0 < token_raw r" "0 < sol_lamports r"
  using assms
  by (auto simp: reserves_from_pool_def Let_def mk_Reserves_def split: option.splits if_splits)

text \<open>
  A floor is only ever demanded from a fresh sample of a
  constant-product base/WSOL pool of the mint being sold; it is positive, it is
  what the pool's own arithmetic pays less the drift allowance (so at the
  default allowance at most 95 percent of it), and it is below the SOL in that
  pool: a pool that behaves as sampled is never refused.
\<close>

lemma reserve_floor_is_attainable:
  assumes "reserve_minimum_out pool holding amount drift now = Some flr"
  shows "\<exists>p r out. pool = Some p \<and> reserves_from_pool pool holding now = Some r \<and>
    ps_base_mint p = th_mint holding \<and> ps_quote_mint p = WSOL_MINT \<and>
    ps_dex_id p \<in> set CONSTANT_PRODUCT_DEX_IDS \<and>
    ps_observed_at p \<le> now \<and> now \<le> ps_observed_at p + MAX_POOL_SAMPLE_AGE_SECONDS * 1000000 \<and>
    sell_out r (PInt amount) = Inr out \<and> accepts r (PInt amount) (PInt flr) = Inr True \<and>
    0 < flr \<and> flr = out * (10000 - drift) div 10000 \<and>
    flr < dint (dmul (ps_reserve_value p) (of_int LAMPORTS_PER_SOL))"
proof -
  from assms obtain r where r: "reserves_from_pool pool holding now = Some r"
    and m: "minimum_out r (PInt amount) (PInt drift) = Inr flr" and pos: "0 < amount" "0 < flr"
    by (auto simp: reserve_minimum_out_def split: option.splits sum.splits if_splits)
  from m obtain out where out: "sell_out r (PInt amount) = Inr out" and drift: "0 \<le> drift" "drift \<le> 10000"
    and flr: "flr = out * (10000 - drift) div 10000"
    by (auto simp: minimum_out_def split: if_splits)
  from r show ?thesis
  proof (rule reserves_from_pool_Some)
    fix p
    assume p: "pool = Some p" "ps_dex_id p \<in> set CONSTANT_PRODUCT_DEX_IDS"
      "ps_base_mint p = th_mint holding" "ps_quote_mint p = WSOL_MINT" "ps_reserve_unit p = ''SOL''"
      "ps_observed_at p \<le> now" "now \<le> ps_observed_at p + MAX_POOL_SAMPLE_AGE_SECONDS * 1000000"
      "sol_lamports r = dint (dmul (ps_reserve_value p) (of_int LAMPORTS_PER_SOL))"
      "0 < token_raw r" "0 < sol_lamports r"
    have out_val: "out = sol_lamports r * amount div (token_raw r + amount)"
      using out p(9) pos(1) by (auto simp: sell_out_value)
    have "0 \<le> out" "out < sol_lamports r"
      using fill_le_reserve(2) [of "token_raw r" "sol_lamports r" amount]
        fill_less_reserve [of "token_raw r" "sol_lamports r" amount] p(9,10) pos(1) out_val by auto
    moreover have "flr \<le> out"
    proof -
      have "out * (10000 - drift) \<le> out * 10000" using \<open>0 \<le> out\<close> drift by (intro mult_left_mono) auto
      then have "out * (10000 - drift) div 10000 \<le> out * 10000 div 10000" by (intro zdiv_mono1) auto
      then show ?thesis using flr by simp
    qed
    ultimately show ?thesis
      using p r out pos(2) flr by (auto simp: accepts_def)
  qed
qed

definition sample_pool :: PoolSnapshot where
  "sample_pool = \<lparr> ps_pair_address = ''pair'', ps_dex_id = ''pumpswap'',
     ps_base_mint = th_mint sample_holding, ps_quote_mint = WSOL_MINT, ps_liquidity_usd = 1000,
     ps_reserve_value = 10, ps_reserve_unit = ''SOL'', ps_price_native = Some 1, ps_observed_at = 0,
     ps_token_name = None, ps_token_symbol = None \<rparr>"

end
