(* ===== verification/Storage.thy ===== *)
theory Storage
  imports Prelude "HOL-Library.AList"
begin

text \<open>
  The durable state of the sentinel (\<open>joshibot/shitcoims_sentinel/storage.py\<close>):
  the JSON state file with its \<open>get\<close>, \<open>set\<close>, \<open>delete\<close> and
  \<open>set_dispose_policy\<close>, and the event journal with its de-duplication.

  A \<open>StateStore\<close> is its state file: every operation reloads the file
  under the file lock and a write replaces it atomically, so an operation is a
  function from the file's content to its new content. The instant
  \<open>utc_now()\<close> returns is the argument \<open>now\<close>.
\<close>

section \<open>JSON values\<close>

text \<open>
  Python's \<open>datetime\<close>: with or without a time zone, as microseconds.
  Comparing one of each kind raises TypeError.
\<close>

datatype stamp = Aware int | Naive int

text \<open>
  A JSON text is \<open>JStamp t\<close> when it is the ISO form of a datetime,
  \<open>JDec d\<close> when it is the text of the decimal \<open>d\<close>, and
  \<open>JStr s\<close> otherwise. An object is an association list in insertion
  order, as a Python dict is.
\<close>

datatype json =
    JNull
  | JBool bool
  | JInt int
  | JReal rat
  | JStr string
  | JDec rat
  | JStamp stamp
  | JList "json list"
  | JObj "(string \<times> json) list"

type_synonym obj = "(string \<times> json) list"

fun obj_of :: "json \<Rightarrow> obj option" where
  "obj_of (JObj m) = Some m"
| "obj_of _ = None"

lemma obj_of_Some [simp]: "obj_of v = Some m \<longleftrightarrow> v = JObj m"
  by (cases v) auto

text \<open>\<open>d.get(k)\<close> of a dict: a missing key reads as None.\<close>

definition jget :: "string \<Rightarrow> obj \<Rightarrow> json" where
  "jget k m = (case map_of m k of Some v \<Rightarrow> v | None \<Rightarrow> JNull)"

text \<open>\<open>bool(v)\<close>.\<close>

fun truthy :: "json \<Rightarrow> bool" where
  "truthy JNull = False"
| "truthy (JBool b) = b"
| "truthy (JInt i) = (i \<noteq> 0)"
| "truthy (JReal r) = (r \<noteq> 0)"
| "truthy (JStr s) = (s \<noteq> [])"
| "truthy (JDec d) = True"
| "truthy (JStamp t) = True"
| "truthy (JList xs) = (xs \<noteq> [])"
| "truthy (JObj m) = (m \<noteq> [])"

text \<open>\<open>v == n\<close> for an integer \<open>n\<close>: \<open>True\<close> equals 1 and \<open>1.0\<close> equals 1.\<close>

fun equals_int :: "json \<Rightarrow> int \<Rightarrow> bool" where
  "equals_int (JInt i) n = (i = n)"
| "equals_int (JBool b) n = ((if b then 1 else 0) = n)"
| "equals_int (JReal r) n = (r = of_int n)"
| "equals_int _ n = False"

lemma map_of_update [simp]: "map_of (AList.update k v m) j = (if j = k then Some v else map_of m j)"
  by (simp add: update_conv)

lemma map_of_delete [simp]: "map_of (AList.delete k m) j = (if j = k then None else map_of m j)"
  by (simp add: delete_conv)

section \<open>The state file\<close>

definition STATE_VERSION :: int where
  "STATE_VERSION = 1"

datatype disk = Missing | Unreadable | Content json

definition initial_state :: "int \<Rightarrow> obj" where
  "initial_state now =
     [(''version'', JInt STATE_VERSION),
      (''positions'', JObj []),
      (''dispose_policies'', JObj []),
      (''pending_exits'', JObj []),
      (''pool_baselines'', JObj []),
      (''supply_baselines'', JObj []),
      (''quote_baselines'', JObj []),
      (''last_heartbeat_at'', JNull),
      (''updated_at'', JStamp (Aware now))]"

definition load :: "int \<Rightarrow> disk \<Rightarrow> obj res" where
  "load now f =
     (case f of
        Missing \<Rightarrow> Inr (initial_state now)
      | Unreadable \<Rightarrow> Inl (RuntimeError ''cannot read state file'')
      | Content v \<Rightarrow>
          (case obj_of v of
             Some m \<Rightarrow> if equals_int (jget ''version'' m) STATE_VERSION then Inr m
                       else Inl (RuntimeError ''unsupported or malformed state file'')
           | None \<Rightarrow> Inl (RuntimeError ''unsupported or malformed state file'')))"

definition snapshot :: "int \<Rightarrow> disk \<Rightarrow> obj res" where
  "snapshot now f = load now f"

text \<open>The walk of \<open>get\<close> along a key path.\<close>

fun get_at :: "string list \<Rightarrow> json \<Rightarrow> json \<Rightarrow> json" where
  "get_at [] v d = v"
| "get_at (k # ks) v d =
     (case v of
        JObj m \<Rightarrow> (case map_of m k of Some w \<Rightarrow> get_at ks w d | None \<Rightarrow> d)
      | _ \<Rightarrow> d)"

definition store_get :: "int \<Rightarrow> string list \<Rightarrow> json \<Rightarrow> disk \<Rightarrow> json res" where
  "store_get now keys d f = rbind (load now f) (\<lambda>m. Inr (get_at keys (JObj m) d))"

text \<open>
  The walk of \<open>set\<close>: missing objects on the way are created, anything
  else on the way that is not an object is an error.
\<close>

fun put_at :: "string list \<Rightarrow> json \<Rightarrow> obj \<Rightarrow> obj res" where
  "put_at [] v m = Inl (ValueError ''state key path cannot be empty'')"
| "put_at [k] v m = Inr (AList.update k v m)"
| "put_at (k # ks) v m =
     (case (case map_of m k of Some w \<Rightarrow> w | None \<Rightarrow> JObj []) of
        JObj sub \<Rightarrow> rbind (put_at ks v sub) (\<lambda>sub'. Inr (AList.update k (JObj sub') m))
      | _ \<Rightarrow> Inl (RuntimeError ''state path crosses a non-object''))"

definition stamped :: "int \<Rightarrow> obj \<Rightarrow> disk" where
  "stamped now m = Content (JObj (AList.update ''updated_at'' (JStamp (Aware now)) m))"

definition store_set :: "int \<Rightarrow> string list \<Rightarrow> json \<Rightarrow> disk \<Rightarrow> disk res" where
  "store_set now keys v f =
     (if keys = [] then Inl (ValueError ''state key path cannot be empty'')
      else rbind (load now f) (\<lambda>m. rbind (put_at keys v m) (\<lambda>m'. Inr (stamped now m'))))"

text \<open>
  The walk of \<open>delete\<close>: \<open>None\<close> when there is nothing to delete, and
  then the file is not written.
\<close>

fun del_at :: "string list \<Rightarrow> obj \<Rightarrow> obj option" where
  "del_at [] m = None"
| "del_at [k] m = (if map_of m k = None then None else Some (AList.delete k m))"
| "del_at (k # ks) m =
     (case map_of m k of
        Some (JObj sub) \<Rightarrow> map_option (\<lambda>sub'. AList.update k (JObj sub') m) (del_at ks sub)
      | _ \<Rightarrow> None)"

definition store_delete :: "int \<Rightarrow> string list \<Rightarrow> disk \<Rightarrow> disk res" where
  "store_delete now keys f =
     (if keys = [] then Inl (ValueError ''state key path cannot be empty'')
      else rbind (load now f) (\<lambda>m. Inr (case del_at keys m of None \<Rightarrow> f | Some m' \<Rightarrow> stamped now m')))"

text \<open>\<open>d.setdefault(k, {})\<close> followed by the check that the value is an object.\<close>

definition setdefault_obj :: "string \<Rightarrow> string \<Rightarrow> obj \<Rightarrow> obj res" where
  "setdefault_obj k err m =
     (case map_of m k of
        None \<Rightarrow> Inr []
      | Some v \<Rightarrow> (case obj_of v of Some sub \<Rightarrow> Inr sub | None \<Rightarrow> Inl (RuntimeError err)))"

definition set_dispose_policy :: "int \<Rightarrow> string \<Rightarrow> bool \<Rightarrow> disk \<Rightarrow> disk res" where
  "set_dispose_policy now mint enabled f =
     (if mint = [] then Inl (ValueError ''mint cannot be empty'')
      else rbind (load now f) (\<lambda>m.
        rbind (setdefault_obj ''dispose_policies'' ''state dispose_policies is not an object'' m) (\<lambda>policies.
          let policies' = AList.update mint (JObj [(''enabled'', JBool enabled),
                                                  (''source'', JStr ''local_cli''),
                                                  (''changed_at'', JStamp (Aware now))]) policies;
              m1 = AList.update ''dispose_policies'' (JObj policies') m
          in rbind (setdefault_obj ''positions'' ''state positions is not an object'' m1) (\<lambda>positions.
               rbind (setdefault_obj mint ''state position is not an object'' positions) (\<lambda>position.
                 let position' = AList.update ''dispose_trigger_slot'' JNull
                                   (AList.update ''last_pnl_pct'' JNull position);
                     m2 = AList.update ''positions'' (JObj (AList.update mint (JObj position') positions)) m1
                 in Inr (stamped now m2))))))"

section \<open>The event journal\<close>

text \<open>
  \<open>je_line\<close> entries are what \<open>emit\<close> builds, returns and appends to
  the journal file. Readings of the monotonic clock and the de-duplication
  windows are exact rationals.
\<close>

record event =
  ev_timestamp :: int
  ev_severity :: string
  ev_category :: string
  ev_message :: string
  ev_context :: obj

record EventJournal =
  max_memory :: nat
  events :: "event list"
  dedup :: "(string \<times> rat) list"
  journal_file :: "event list"

record emit_call =
  ec_now :: int
  ec_monotonic :: rat
  ec_severity :: string
  ec_category :: string
  ec_message :: string
  ec_context :: "obj option"
  ec_dedup_key :: "string option"
  ec_dedup_seconds :: rat

definition new_journal :: "nat \<Rightarrow> EventJournal" where
  "new_journal n = \<lparr> max_memory = n, events = [], dedup = [], journal_file = [] \<rparr>"

definition event_key :: "emit_call \<Rightarrow> string" where
  "event_key c = str_or (ec_dedup_key c)
     (ec_severity c @ '':'' @ ec_category c @ '':'' @ ec_message c)"

text \<open>\<open>xs[-n:]\<close>, which is the whole list when \<open>n\<close> is zero.\<close>

definition last_n :: "nat \<Rightarrow> 'a list \<Rightarrow> 'a list" where
  "last_n n xs = (if n = 0 then xs else drop (length xs - n) xs)"

definition event_of :: "emit_call \<Rightarrow> event" where
  "event_of c = \<lparr> ev_timestamp = ec_now c, ev_severity = ec_severity c, ev_category = ec_category c,
     ev_message = ec_message c, ev_context = (case ec_context c of None \<Rightarrow> [] | Some m \<Rightarrow> m) \<rparr>"

definition emit :: "emit_call \<Rightarrow> EventJournal \<Rightarrow> event option \<times> EventJournal" where
  "emit c j =
     (if (case map_of (dedup j) (event_key c) of
            None \<Rightarrow> False
          | Some t \<Rightarrow> ec_monotonic c - t < ec_dedup_seconds c)
      then (None, j)
      else let e = event_of c
           in (Some e, j\<lparr>dedup := AList.update (event_key c) (ec_monotonic c) (dedup j),
                         events := last_n (max_memory j) (events j @ [e]),
                         journal_file := journal_file j @ [e]\<rparr>))"

definition recent :: "EventJournal \<Rightarrow> event list" where
  "recent j = rev (events j)"

text \<open>A sequence of calls: the final journal and the calls that were journalled.\<close>

fun emit_run :: "emit_call list \<Rightarrow> EventJournal \<Rightarrow> emit_call list \<times> EventJournal" where
  "emit_run [] j = ([], j)"
| "emit_run (c # cs) j =
     (case emit c j of
        (None, j') \<Rightarrow> emit_run cs j'
      | (Some e, j') \<Rightarrow> (case emit_run cs j' of (acc, j'') \<Rightarrow> (c # acc, j'')))"

section \<open>Laws of a store addressed by key paths\<close>

text \<open>Neither path runs through the other.\<close>

fun apart :: "string list \<Rightarrow> string list \<Rightarrow> bool" where
  "apart (a # as) (b # bs) = (if a = b then apart as bs else True)"
| "apart _ _ = False"

lemma apart_sym: "apart p q = apart q p"
  by (induction p q rule: apart.induct) auto

lemma apart_irrefl [simp]: "\<not> apart p p"
  by (induction p) auto

text \<open>
  What a client of the state file relies on. \<open>safe\<close> holds of the paths a
  client may use: not empty and not running through the two keys the store
  keeps for itself.
\<close>

locale path_store =
  fixes get :: "string list \<Rightarrow> json \<Rightarrow> 's \<Rightarrow> json res"
    and put :: "string list \<Rightarrow> json \<Rightarrow> 's \<Rightarrow> 's res"
    and del :: "string list \<Rightarrow> 's \<Rightarrow> 's res"
    and safe :: "string list \<Rightarrow> bool"
  assumes get_put: "safe p \<Longrightarrow> put p v s = Inr s' \<Longrightarrow> get p d s' = Inr v"
    and get_put_apart:
      "safe p \<Longrightarrow> safe q \<Longrightarrow> apart p q \<Longrightarrow> put p v s = Inr s' \<Longrightarrow> get q d s' = get q d s"
    and get_del: "safe p \<Longrightarrow> del p s = Inr s' \<Longrightarrow> get p d s' = Inr d"
    and get_del_apart:
      "safe p \<Longrightarrow> safe q \<Longrightarrow> apart p q \<Longrightarrow> del p s = Inr s' \<Longrightarrow> get q d s' = get q d s"
begin

text \<open>A batch of writes to pairwise separate paths, as the engine does once per poll.\<close>

definition put_all :: "(string list \<times> json) list \<Rightarrow> 's \<Rightarrow> 's res" where
  "put_all ws s = rfold (\<lambda>(p, v) s. put p v s) ws s"

lemma get_put_all_apart:
  assumes "put_all ws s = Inr s'" and "safe q"
    and "\<And>p v. (p, v) \<in> set ws \<Longrightarrow> safe p \<and> apart p q"
  shows "get q d s' = get q d s"
  using assms
proof (induction ws arbitrary: s)
  case Nil
  then show ?case by (simp add: put_all_def)
next
  case (Cons w ws)
  obtain p v where w: "w = (p, v)" by (cases w)
  from Cons.prems(1) w obtain t where t: "put p v s = Inr t" and rest: "put_all ws t = Inr s'"
    by (auto simp: put_all_def)
  have "safe p" "apart p q" using Cons.prems(3) [of p v] w by auto
  then have "get q d t = get q d s" using get_put_apart Cons.prems(2) t by blast
  then show ?case using Cons.IH [OF rest Cons.prems(2) Cons.prems(3) [OF list.set_intros(2)]] by simp
qed

lemma get_put_all:
  assumes "put_all ws s = Inr s'" and "(p, v) \<in> set ws"
    and "\<And>q w. (q, w) \<in> set ws \<Longrightarrow> safe q"
    and "sorted_wrt (\<lambda>a b. apart (fst a) (fst b)) ws"
  shows "get p d s' = Inr v"
  using assms
proof (induction ws arbitrary: s)
  case Nil
  then show ?case by simp
next
  case (Cons w ws)
  obtain q u where w: "w = (q, u)" by (cases w)
  from Cons.prems(1) w obtain t where t: "put q u s = Inr t" and rest: "put_all ws t = Inr s'"
    by (auto simp: put_all_def)
  show ?case
  proof (cases "(p, v) \<in> set ws")
    case True
    then show ?thesis using Cons.IH [OF rest] Cons.prems(3,4) by auto
  next
    case False
    then have pv: "p = q" "v = u" using Cons.prems(2) w by auto
    have "get p d s' = get p d t"
    proof (rule get_put_all_apart [OF rest])
      fix q' w' assume "(q', w') \<in> set ws"
      then show "safe q' \<and> apart q' p" using Cons.prems(3,4) w pv apart_sym by fastforce
    qed (use Cons.prems(3) w pv in auto)
    moreover have "safe q" using Cons.prems(3) [of q u] w by simp
    ultimately show ?thesis using get_put [OF _ t] pv by simp
  qed
qed

lemma put_then_del: "safe p \<Longrightarrow> put p v s = Inr s1 \<Longrightarrow> del p s1 = Inr s2 \<Longrightarrow> get p d s2 = Inr d"
  by (rule get_del)

end

definition safe_path :: "string list \<Rightarrow> bool" where
  "safe_path p \<longleftrightarrow> p \<noteq> [] \<and> hd p \<noteq> ''version'' \<and> hd p \<noteq> ''updated_at''"

text \<open>One step of the walk of a write or a delete through an existing or new object.\<close>

lemma put_at_ConsE:
  assumes "put_at (k # k' # ks) v m = Inr m'"
  obtains sub sub' where "(case map_of m k of Some w \<Rightarrow> w | None \<Rightarrow> JObj []) = JObj sub"
    "put_at (k' # ks) v sub = Inr sub'" "m' = AList.update k (JObj sub') m"
  using assms by (auto split: json.splits)

lemma del_at_ConsE:
  assumes "del_at (k # k' # ks) m = Some m'"
  obtains sub sub' where "map_of m k = Some (JObj sub)"
    "del_at (k' # ks) sub = Some sub'" "m' = AList.update k (JObj sub') m"
  using assms by (auto split: json.splits option.splits)

lemma get_at_update:
  "get_at (q # qs) (JObj (AList.update k v m)) d =
     (if q = k then get_at qs v d else get_at (q # qs) (JObj m) d)"
  by simp

lemma get_at_put: "put_at ks v m = Inr m' \<Longrightarrow> get_at ks (JObj m') d = v"
proof (induction ks v m arbitrary: m' rule: put_at.induct)
  case (3 k k' ks v m)
  from 3(2) show ?case
  proof (rule put_at_ConsE)
    fix sub sub'
    assume *: "(case map_of m k of Some w \<Rightarrow> w | None \<Rightarrow> JObj []) = JObj sub"
      "put_at (k' # ks) v sub = Inr sub'" "m' = AList.update k (JObj sub') m"
    then show ?thesis using 3(1) [OF *(1,2)] by (simp only: get_at_update simp_thms if_True)
  qed
qed auto

lemma get_at_put_apart:
  "put_at ks v m = Inr m' \<Longrightarrow> apart ks qs \<Longrightarrow> get_at qs (JObj m') d = get_at qs (JObj m) d"
proof (induction ks v m arbitrary: m' qs rule: put_at.induct)
  case (2 k v m)
  then show ?case by (cases qs) (auto split: if_splits)
next
  case (3 k k' ks v m)
  obtain q qs' where qs: "qs = q # qs'" using 3(3) by (cases qs) auto
  from 3(2) show ?case
  proof (rule put_at_ConsE)
    fix sub sub'
    assume *: "(case map_of m k of Some w \<Rightarrow> w | None \<Rightarrow> JObj []) = JObj sub"
      "put_at (k' # ks) v sub = Inr sub'" "m' = AList.update k (JObj sub') m"
    show ?thesis
    proof (cases "q = k")
      case True
      then have ap: "apart (k' # ks) qs'" using 3(3) qs by auto
      then obtain r rs where "qs' = r # rs" by (cases qs') auto
      then show ?thesis using 3(1) [OF *(1,2) ap] True qs *(1,3)
        by (auto split: option.splits)
    qed (use qs *(3) in auto)
  qed
qed simp

lemma get_at_del: "del_at ks m = Some m' \<Longrightarrow> get_at ks (JObj m') d = d"
proof (induction ks m arbitrary: m' rule: del_at.induct)
  case (3 k k' ks m)
  from 3(2) show ?case
  proof (rule del_at_ConsE)
    fix sub sub'
    assume *: "map_of m k = Some (JObj sub)"
      "del_at (k' # ks) sub = Some sub'" "m' = AList.update k (JObj sub') m"
    then show ?thesis using 3(1) [OF *(1) refl *(2)] by (simp only: get_at_update simp_thms if_True)
  qed
qed (auto split: if_splits)

lemma get_at_del_None: "ks \<noteq> [] \<Longrightarrow> del_at ks m = None \<Longrightarrow> get_at ks (JObj m) d = d"
proof (induction ks m rule: del_at.induct)
  case (2 k m)
  then show ?case by (auto split: if_splits)
next
  case (3 k k' ks m)
  then show ?case by (auto split: json.splits option.splits)
qed simp

lemma get_at_del_apart:
  "del_at ks m = Some m' \<Longrightarrow> apart ks qs \<Longrightarrow> get_at qs (JObj m') d = get_at qs (JObj m) d"
proof (induction ks m arbitrary: m' qs rule: del_at.induct)
  case (2 k m)
  then show ?case by (cases qs) (auto split: if_splits)
next
  case (3 k k' ks m)
  obtain q qs' where qs: "qs = q # qs'" using 3(3) by (cases qs) auto
  from 3(2) show ?case
  proof (rule del_at_ConsE)
    fix sub sub'
    assume *: "map_of m k = Some (JObj sub)"
      "del_at (k' # ks) sub = Some sub'" "m' = AList.update k (JObj sub') m"
    show ?thesis
    proof (cases "q = k")
      case True
      then have "apart (k' # ks) qs'" using 3(3) qs by auto
      then show ?thesis using 3(1) [OF *(1) refl *(2)] True qs * by auto
    qed (use qs *(3) in auto)
  qed
qed simp

text \<open>A write through a safe path leaves a file that loads, to the written object with its stamp.\<close>

lemma put_at_version:
  "put_at ks v m = Inr m' \<Longrightarrow> hd ks \<noteq> k \<Longrightarrow> map_of m' k = map_of m k"
  by (induction ks v m rule: put_at.induct) (auto split: json.splits option.splits)

lemma del_at_version:
  "del_at ks m = Some m' \<Longrightarrow> hd ks \<noteq> k \<Longrightarrow> map_of m' k = map_of m k"
  by (induction ks m rule: del_at.induct) (auto split: json.splits option.splits if_splits)

lemma load_version: "load now f = Inr m \<Longrightarrow> equals_int (jget ''version'' m) STATE_VERSION"
  by (auto simp: load_def initial_state_def jget_def split: disk.splits option.splits if_splits)

lemma load_stamped:
  "equals_int (jget ''version'' m) STATE_VERSION \<Longrightarrow>
   load now (stamped t m) = Inr (AList.update ''updated_at'' (JStamp (Aware t)) m)"
  by (simp add: load_def stamped_def jget_def)

lemma get_at_stamp:
  "safe_path q \<Longrightarrow> get_at q (JObj (AList.update ''updated_at'' x m)) d = get_at q (JObj m) d"
  by (cases q) (auto simp: safe_path_def)

lemma store_set_D:
  assumes "store_set now p v f = Inr f'" and "safe_path p"
  obtains m m' where "load now f = Inr m" "put_at p v m = Inr m'"
    "load t f' = Inr (AList.update ''updated_at'' (JStamp (Aware now)) m')"
proof -
  from assms obtain m m' where m: "load now f = Inr m" "put_at p v m = Inr m'" "f' = stamped now m'"
    by (auto simp: store_set_def split: if_splits)
  have "map_of m' ''version'' = map_of m ''version''"
    using put_at_version [OF m(2), of "''version''"] assms(2) by (simp add: safe_path_def)
  then have "equals_int (jget ''version'' m') STATE_VERSION"
    using load_version [OF m(1)] by (simp add: jget_def)
  then show thesis using that m load_stamped by blast
qed

text \<open>
  A missing file reads as the initial state of the instant of the read, which a
  safe path sees only the constant part of.
\<close>

lemma load_now: "load now f = Inr m \<Longrightarrow> \<exists>m'. load t f = Inr m' \<and> (\<forall>q d. safe_path q \<longrightarrow> get_at q (JObj m') d = get_at q (JObj m) d)"
  by (cases f)
    (auto simp: load_def initial_state_def safe_path_def neq_Nil_conv split: option.splits if_splits)

lemma store_get_now: "safe_path q \<Longrightarrow> store_get t q d f = store_get now q d f"
proof (cases "load now f")
  case (Inl e)
  then have "load t f = Inl e" by (cases f) (auto simp: load_def split: option.splits if_splits)
  then show ?thesis using Inl by (simp add: store_get_def)
next
  case (Inr m)
  then show "safe_path q \<Longrightarrow> ?thesis" using load_now [of now f m t] by (auto simp: store_get_def)
qed

lemma store_get_set:
  assumes "safe_path p" and "store_set now p v f = Inr f'"
  shows "store_get t p d f' = Inr v"
  using assms(2,1)
proof (rule store_set_D [where t = t])
  fix m m'
  assume "put_at p v m = Inr m'"
    "load t f' = Inr (AList.update ''updated_at'' (JStamp (Aware now)) m')"
  then show ?thesis using get_at_put get_at_stamp [OF assms(1)] by (simp add: store_get_def)
qed

lemma store_get_set_apart:
  assumes "safe_path p" "safe_path q" "apart p q" and "store_set now p v f = Inr f'"
  shows "store_get t q d f' = store_get t q d f"
proof -
  obtain m m' where m: "load now f = Inr m" "put_at p v m = Inr m'"
    "load now f' = Inr (AList.update ''updated_at'' (JStamp (Aware now)) m')"
    using store_set_D [OF assms(4,1)] by metis
  have "store_get now q d f' = store_get now q d f"
    using m get_at_put_apart [OF m(2) assms(3)] assms(2) by (simp add: store_get_def get_at_stamp)
  then show ?thesis using store_get_now [OF assms(2)] by metis
qed

lemma store_delete_D:
  assumes "store_delete now p f = Inr f'" and "safe_path p"
  obtains m where "load now f = Inr m" "del_at p m = None" "f' = f"
  | m m' where "load now f = Inr m" "del_at p m = Some m'"
    "load now f' = Inr (AList.update ''updated_at'' (JStamp (Aware now)) m')"
proof -
  from assms obtain m where m: "load now f = Inr m"
    and f': "f' = (case del_at p m of None \<Rightarrow> f | Some m' \<Rightarrow> stamped now m')"
    by (auto simp: store_delete_def split: if_splits)
  show thesis
  proof (cases "del_at p m")
    case None
    then show ?thesis using that(1) m f' by simp
  next
    case (Some m')
    have "equals_int (jget ''version'' m') STATE_VERSION"
      using del_at_version [OF Some, of "''version''"] assms(2) load_version [OF m]
      by (simp add: safe_path_def jget_def)
    then show ?thesis using that(2) [OF m Some] load_stamped f' Some by simp
  qed
qed

lemma store_get_delete:
  assumes "safe_path p" and "store_delete now p f = Inr f'"
  shows "store_get t p d f' = Inr d"
proof -
  have "store_get now p d f' = Inr d"
    using assms(2,1)
  proof (cases rule: store_delete_D)
    case (1 m)
    then show ?thesis using get_at_del_None [of p m d] assms(1) by (simp add: store_get_def safe_path_def)
  next
    case (2 m m')
    then show ?thesis using get_at_del [OF 2(2)] assms(1) by (simp add: store_get_def get_at_stamp)
  qed
  then show ?thesis using store_get_now [OF assms(1)] by metis
qed

lemma store_get_delete_apart:
  assumes "safe_path p" "safe_path q" "apart p q" and "store_delete now p f = Inr f'"
  shows "store_get t q d f' = store_get t q d f"
proof -
  have "store_get now q d f' = store_get now q d f"
    using assms(4,1)
  proof (cases rule: store_delete_D)
    case (2 m m')
    then show ?thesis using get_at_del_apart [OF 2(2) assms(3)] assms(2)
      by (simp add: store_get_def get_at_stamp)
  qed simp
  then show ?thesis using store_get_now [OF assms(2)] by metis
qed

interpretation sf: path_store "store_get t" "store_set now" "store_delete now'" safe_path
  for t now now'
  by unfold_locales
    (erule (1) store_get_set, erule (3) store_get_set_apart,
     erule (1) store_get_delete, erule (3) store_get_delete_apart)

section \<open>What the state file promises\<close>

text \<open>
  What is written at a key path is what any later read of that
  path returns, and no read at a path that is separate from it changes: a
  successful \<open>set\<close> is visible, complete and local, also when it creates the
  objects on the way or the file itself.
\<close>

lemma state_set_is_local:
  assumes "safe_path p" and "store_set now p v f = Inr f'"
  shows "store_get t p d f' = Inr v \<and>
    (\<forall>q. safe_path q \<and> apart p q \<longrightarrow> store_get t q d f' = store_get t q d f)"
  using sf.get_put [OF assms] sf.get_put_apart [OF assms(1) _ _ assms(2)] by blast

lemma update_update_same [simp]: "AList.update k v (AList.update k w m) = AList.update k v m"
  by (induction m) auto

lemma setdefault_obj_Inr:
  "setdefault_obj k err m = Inr sub \<longleftrightarrow>
   (case map_of m k of Some w \<Rightarrow> w | None \<Rightarrow> JObj []) = JObj sub"
  by (auto simp: setdefault_obj_def split: option.splits)

lemma put_at_step:
  assumes "(case map_of m k of Some w \<Rightarrow> w | None \<Rightarrow> JObj []) = JObj sub"
    and "ks \<noteq> []" and "put_at ks v sub = Inr sub'"
  shows "put_at (k # ks) v m = Inr (AList.update k (JObj sub') m)"
  using assms by (cases ks) auto

definition disposal_entry :: "int \<Rightarrow> bool \<Rightarrow> json" where
  "disposal_entry now enabled = JObj [(''enabled'', JBool enabled),
     (''source'', JStr ''local_cli''), (''changed_at'', JStamp (Aware now))]"

text \<open>The disposal switch is three writes followed by one stamp.\<close>

lemma set_dispose_policy_writes:
  assumes "set_dispose_policy now mint enabled f = Inr f'"
  obtains m m1 m2 m3 where "load now f = Inr m"
    "put_at [''dispose_policies'', mint] (disposal_entry now enabled) m = Inr m1"
    "put_at [''positions'', mint, ''last_pnl_pct''] JNull m1 = Inr m2"
    "put_at [''positions'', mint, ''dispose_trigger_slot''] JNull m2 = Inr m3"
    "f' = stamped now m3"
proof -
  let ?look = "\<lambda>m k. case map_of m k of Some w \<Rightarrow> w | None \<Rightarrow> JObj []"
  from assms obtain m policies positions position where m: "load now f = Inr m"
    and pol: "?look m ''dispose_policies'' = JObj policies"
    and m1: "?look (AList.update ''dispose_policies''
        (JObj (AList.update mint (disposal_entry now enabled) policies)) m) ''positions'' = JObj positions"
    and pos: "?look positions mint = JObj position"
    and f': "f' = stamped now (AList.update ''positions'' (JObj (AList.update mint
        (JObj (AList.update ''dispose_trigger_slot'' JNull (AList.update ''last_pnl_pct'' JNull position)))
        positions)) (AList.update ''dispose_policies''
          (JObj (AList.update mint (disposal_entry now enabled) policies)) m))"
    by (auto simp: set_dispose_policy_def setdefault_obj_Inr Let_def disposal_entry_def split: if_splits)
  note one = put_at_step [OF pol _ put_at.simps(2)]
  note two = put_at_step [OF m1 _ put_at_step [OF pos _ put_at.simps(2)]]
  show thesis
  proof (rule that [OF m one two])
    show "put_at [''positions'', mint, ''dispose_trigger_slot''] JNull
        (AList.update ''positions'' (JObj (AList.update mint
          (JObj (AList.update ''last_pnl_pct'' JNull position)) positions))
          (AList.update ''dispose_policies''
            (JObj (AList.update mint (disposal_entry now enabled) policies)) m)) =
      Inr (AList.update ''positions'' (JObj (AList.update mint
        (JObj (AList.update ''dispose_trigger_slot'' JNull (AList.update ''last_pnl_pct'' JNull position)))
        positions)) (AList.update ''dispose_policies''
          (JObj (AList.update mint (disposal_entry now enabled) policies)) m))"
      by simp
  qed (use f' in simp_all)
qed

text \<open>
  Switching the local disposal override of a mint records the
  switch, clears both halves of that mint's break-even edge detector in the
  same atomic write, and changes nothing else a reader can see: a crossing
  observed under the old setting can never sell under the new one.
\<close>

lemma dispose_switch_resets_edge:
  assumes "set_dispose_policy now mint enabled f = Inr f'"
  shows "store_get t [''dispose_policies'', mint] d f' = Inr (disposal_entry now enabled) \<and>
    store_get t [''positions'', mint, ''last_pnl_pct''] d f' = Inr JNull \<and>
    store_get t [''positions'', mint, ''dispose_trigger_slot''] d f' = Inr JNull \<and>
    (\<forall>q. safe_path q \<and> apart [''dispose_policies'', mint] q \<and>
         apart [''positions'', mint, ''last_pnl_pct''] q \<and>
         apart [''positions'', mint, ''dispose_trigger_slot''] q \<longrightarrow>
         store_get t q d f' = store_get t q d f)"
  using assms
proof (rule set_dispose_policy_writes)
  fix m m1 m2 m3
  assume m: "load now f = Inr m"
    and w1: "put_at [''dispose_policies'', mint] (disposal_entry now enabled) m = Inr m1"
    and w2: "put_at [''positions'', mint, ''last_pnl_pct''] JNull m1 = Inr m2"
    and w3: "put_at [''positions'', mint, ''dispose_trigger_slot''] JNull m2 = Inr m3"
    and f': "f' = stamped now m3"
  have "jget ''version'' m3 = jget ''version'' m"
    using put_at_version [OF w1] put_at_version [OF w2] put_at_version [OF w3] by (simp add: jget_def)
  then have ld: "store_get now q d f' = Inr (get_at q (JObj m3) d)" if "safe_path q" for q d
    using load_version [OF m] load_stamped f' that by (simp add: store_get_def get_at_stamp)
  have eq: "store_get t q d g = store_get now q d g" if "safe_path q" for q d g
    using store_get_now that by metis
  have "store_get t q d f' = store_get t q d f" if "safe_path q" "apart [''dispose_policies'', mint] q"
    "apart [''positions'', mint, ''last_pnl_pct''] q"
    "apart [''positions'', mint, ''dispose_trigger_slot''] q" for q
    using ld [OF that(1), of d] eq [OF that(1), of d]
      get_at_put_apart [OF w1 that(2), of d] get_at_put_apart [OF w2 that(3), of d]
      get_at_put_apart [OF w3 that(4), of d] m
    by (simp add: store_get_def [of now q d f])
  moreover have "store_get t [''positions'', mint, ''dispose_trigger_slot''] d f' = Inr JNull"
    using ld eq get_at_put [OF w3] by (simp add: safe_path_def)
  moreover have "store_get t [''positions'', mint, ''last_pnl_pct''] d f' = Inr JNull"
    using ld eq get_at_put_apart [OF w3, of "[''positions'', mint, ''last_pnl_pct'']"] get_at_put [OF w2]
    by (simp add: safe_path_def)
  moreover have "store_get t [''dispose_policies'', mint] d f' = Inr (disposal_entry now enabled)"
    using ld eq get_at_put_apart [OF w3, of "[''dispose_policies'', mint]"]
      get_at_put_apart [OF w2, of "[''dispose_policies'', mint]"] get_at_put [OF w1]
    by (simp add: safe_path_def)
  ultimately show ?thesis by blast
qed

section \<open>What the journal promises\<close>

lemma emit_run_append:
  "emit_run (as @ bs) j =
     (case emit_run as j of (a, j') \<Rightarrow> (case emit_run bs j' of (b, j'') \<Rightarrow> (a @ b, j'')))"
  by (induction as arbitrary: j) (auto split: prod.splits option.splits)

text \<open>
  The de-duplication table holds, for every key, the clock reading of the last
  journalled call of that key.
\<close>

lemma emit_run_dedup:
  "emit_run cs (new_journal n) = (acc, j) \<Longrightarrow>
   map_of (dedup j) k =
     (case filter (\<lambda>c. event_key c = k) (rev acc) of [] \<Rightarrow> None | c # _ \<Rightarrow> Some (ec_monotonic c))"
proof (induction cs arbitrary: acc j rule: rev_induct)
  case Nil
  then show ?case by (auto simp: new_journal_def)
next
  case (snoc c cs)
  obtain acc0 j0 where run: "emit_run cs (new_journal n) = (acc0, j0)" by force
  show ?case
  proof (cases "emit c j0")
    case (Pair r j1)
    show ?thesis
    proof (cases r)
      case None
      then have "j1 = j0" using Pair by (auto simp: emit_def Let_def split: if_splits)
      then show ?thesis using snoc.prems snoc.IH [OF run] run Pair None
        by (simp add: emit_run_append)
    next
      case (Some e)
      then have "dedup j1 = AList.update (event_key c) (ec_monotonic c) (dedup j0)"
        using Pair by (auto simp: emit_def Let_def split: if_splits)
      then show ?thesis using snoc.prems snoc.IH [OF run] run Pair Some
        by (auto simp: emit_run_append)
    qed
  qed
qed

lemma emit_run_sorted:
  "emit_run cs j = (acc, j') \<Longrightarrow> sorted_wrt R cs \<Longrightarrow> sorted_wrt R acc \<and> set acc \<subseteq> set cs"
proof (induction cs arbitrary: acc j)
  case (Cons c cs)
  obtain r j1 where e: "emit c j = (r, j1)" by force
  obtain acc1 j2 where r: "emit_run cs j1 = (acc1, j2)" by force
  have ih: "sorted_wrt R acc1 \<and> set acc1 \<subseteq> set cs" using Cons.IH Cons.prems e r by (cases r) auto
  then show ?case using Cons.prems e r by (cases r) (auto simp: subset_iff)
qed simp

text \<open>
  After any sequence of calls on a clock that never runs
  backwards, a further call is suppressed exactly when an earlier call with the
  same key was journalled less than that call's window ago.
\<close>

lemma journal_suppresses_exactly_repeats:
  assumes run: "emit_run cs (new_journal n) = (acc, j)"
    and clock: "sorted_wrt (\<lambda>a b. ec_monotonic a \<le> ec_monotonic b) cs"
  shows "fst (emit c j) = None \<longleftrightarrow>
    (\<exists>a \<in> set acc. event_key a = event_key c \<and> ec_monotonic c - ec_monotonic a < ec_dedup_seconds c)"
proof -
  let ?same = "filter (\<lambda>a. event_key a = event_key c) (rev acc)"
  have "sorted_wrt (\<lambda>a b. ec_monotonic a \<le> ec_monotonic b) acc"
    using emit_run_sorted [OF run clock] by blast
  then have sorted: "sorted_wrt (\<lambda>a b. ec_monotonic b \<le> ec_monotonic a) ?same"
    by (simp add: sorted_wrt_filter sorted_wrt_rev)
  have None: "fst (emit c j) = None \<longleftrightarrow>
      (\<exists>a as. ?same = a # as \<and> ec_monotonic c - ec_monotonic a < ec_dedup_seconds c)"
    using emit_run_dedup [OF run, of "event_key c"]
    by (cases ?same) (auto simp: emit_def Let_def)
  have mem: "a \<in> set ?same \<longleftrightarrow> a \<in> set acc \<and> event_key a = event_key c" for a by auto
  show ?thesis
  proof (cases ?same)
    case Nil
    then have "\<not> (\<exists>a \<in> set acc. event_key a = event_key c)" using mem by (metis list.set(1) empty_iff)
    then show ?thesis using None Nil by auto
  next
    case (Cons a as)
    have "ec_monotonic b \<le> ec_monotonic a" if "b \<in> set ?same" for b
      using sorted Cons that by auto
    moreover have "a \<in> set acc \<and> event_key a = event_key c" using mem Cons by (metis list.set_intros(1))
    ultimately show ?thesis using None Cons mem by (metis (no_types, lifting) diff_left_mono le_less_trans list.inject)
  qed
qed

definition sample_call :: "rat \<Rightarrow> emit_call" where
  "sample_call t = \<lparr> ec_now = 0, ec_monotonic = t, ec_severity = ''info'', ec_category = ''poll'',
     ec_message = ''hello'', ec_context = None, ec_dedup_key = None, ec_dedup_seconds = 300 \<rparr>"

end
