(* ===== verification/Wire.thy ===== *)
theory Wire
  imports Storage "HOL-Library.Word"
begin

text \<open>
  What the two transaction checkers share: bytes, little-endian integers and
  base64 (Python's \<open>struct\<close> and \<open>base64\<close>), decoded transactions, the
  expansion of address lookup tables, the reading of compute-budget
  instructions, and the contract \<open>signing_gate\<close> both checkers meet.

  The wire decoder of the \<open>solders\<close> package, its \<open>Pubkey.from_bytes\<close>
  and the RPC that fetches account data are parameters, the fields of
  \<open>wire_env\<close>. A public key is its base58 text.
\<close>

section \<open>Bytes\<close>

type_synonym byte = "8 word"

text \<open>A little-endian unsigned integer (\<open>struct.unpack_from\<close> with \<open>"<I"\<close> or \<open>"<Q"\<close>).\<close>

primrec le_int :: "byte list \<Rightarrow> int" where
  "le_int [] = 0"
| "le_int (b # bs) = uint b + 256 * le_int bs"

primrec le_bytes :: "nat \<Rightarrow> int \<Rightarrow> byte list" where
  "le_bytes 0 n = []"
| "le_bytes (Suc k) n = word_of_int (n mod 256) # le_bytes k (n div 256)"

definition unpack_at :: "nat \<Rightarrow> nat \<Rightarrow> byte list \<Rightarrow> int" where
  "unpack_at off width data = le_int (take width (drop off data))"

lemma uint_byte_bounds: "0 \<le> uint (b::byte)" "uint (b::byte) < 256"
  using uint_bounded [of b] by auto

lemma le_int_bounds: "0 \<le> le_int bs \<and> le_int bs < 256 ^ length bs"
proof (induction bs)
  case (Cons b bs)
  then have "le_int bs + 1 \<le> 256 ^ length bs" by simp
  then have "256 * (le_int bs + 1) \<le> 256 * 256 ^ length bs" by (intro mult_left_mono) auto
  then show ?case using Cons uint_byte_bounds [of b] by simp
qed simp

lemma unpack_at_bounds: "0 \<le> unpack_at off width data" "unpack_at off width data < 256 ^ width"
proof -
  let ?bs = "take width (drop off data)"
  have "(256::int) ^ length ?bs \<le> 256 ^ width" by (intro power_increasing) auto
  then show "0 \<le> unpack_at off width data" "unpack_at off width data < 256 ^ width"
    using le_int_bounds [of ?bs] unfolding unpack_at_def by linarith+
qed

lemma uint_word_of_int_byte: "0 \<le> n \<Longrightarrow> n < 256 \<Longrightarrow> uint (word_of_int n :: byte) = n"
  by (simp add: uint_word_of_int)

lemma le_bytes_length [simp]: "length (le_bytes k n) = k"
  by (induction k arbitrary: n) auto

lemma le_int_le_bytes: "0 \<le> n \<Longrightarrow> n < 256 ^ k \<Longrightarrow> le_int (le_bytes k n) = n"
proof (induction k arbitrary: n)
  case (Suc k)
  have "n div 256 < 256 ^ k" using Suc.prems by (simp add: div_less_iff_less_mult algebra_simps)
  then have "le_int (le_bytes k (n div 256)) = n div 256" using Suc by simp
  then show ?case using uint_word_of_int_byte [of "n mod 256"] by (simp del: uint_word_of_int)
qed simp

section \<open>Base64\<close>

definition b64_value :: "char \<Rightarrow> int option" where
  "b64_value c =
     (let n = (of_char c :: int)
      in if 65 \<le> n \<and> n \<le> 90 then Some (n - 65)
         else if 97 \<le> n \<and> n \<le> 122 then Some (n - 71)
         else if 48 \<le> n \<and> n \<le> 57 then Some (n + 4)
         else if n = 43 then Some 62
         else if n = 47 then Some 63
         else None)"

definition b64_bytes :: "int \<Rightarrow> int \<Rightarrow> int \<Rightarrow> int \<Rightarrow> byte list" where
  "b64_bytes a b c d =
     (let n = ((a * 64 + b) * 64 + c) * 64 + d
      in [word_of_int (n div 65536), word_of_int (n div 256 mod 256), word_of_int (n mod 256)])"

text \<open>
  \<open>base64.b64decode(s, validate=True)\<close>: the text is a sequence of quartets
  of the alphabet, the last one padded with at most two \<open>=\<close>. Anything else
  raises \<open>binascii.Error\<close>, a ValueError.
\<close>

fun b64decode :: "string \<Rightarrow> byte list option" where
  "b64decode [] = Some []"
| "b64decode (w # x # y # z # rest) =
     (case (b64_value w, b64_value x) of
        (Some a, Some b) \<Rightarrow>
          if y = CHR ''='' \<and> z = CHR ''='' \<and> rest = [] then Some (take 1 (b64_bytes a b 0 0))
          else (case b64_value y of
                  None \<Rightarrow> None
                | Some c \<Rightarrow>
                    if z = CHR ''='' \<and> rest = [] then Some (take 2 (b64_bytes a b c 0))
                    else (case (b64_value z, b64decode rest) of
                            (Some d, Some bs) \<Rightarrow> Some (b64_bytes a b c d @ bs)
                          | _ \<Rightarrow> None))
      | _ \<Rightarrow> None)"
| "b64decode _ = None"

section \<open>Decoded transactions\<close>

record CompiledInstruction =
  program_id_index :: nat
  accounts :: "nat list"
  data :: "byte list"

record AddressTableLookup =
  account_key :: string
  writable_indexes :: "nat list"
  readonly_indexes :: "nat list"

record MessageV0 =
  num_required_signatures :: nat
  account_keys :: "string list"
  instructions :: "CompiledInstruction list"
  address_table_lookups :: "AddressTableLookup list"

datatype message = Legacy | V0 MessageV0

record VersionedTransaction =
  tx_message :: message
  signatures :: "byte list list"

definition default_signature :: "byte list" where
  "default_signature = replicate 64 0"

record wire_env =
  from_bytes :: "byte list \<Rightarrow> VersionedTransaction option"
  pubkey_text :: "byte list \<Rightarrow> string"
  account_data :: "string \<Rightarrow> byte list res"

text \<open>Base64, then the wire decoder with its sanity checks; any failure is refused alike.\<close>

definition decode_transaction :: "py_exc \<Rightarrow> wire_env \<Rightarrow> string \<Rightarrow> VersionedTransaction res" where
  "decode_transaction e env encoded =
     (case b64decode encoded of
        None \<Rightarrow> Inl e
      | Some raw \<Rightarrow> (case from_bytes env raw of None \<Rightarrow> Inl e | Some tx \<Rightarrow> Inr tx))"

lemma decode_transaction_Inr [simp]:
  "decode_transaction e env encoded = Inr tx \<longleftrightarrow>
     (\<exists>raw. b64decode encoded = Some raw \<and> from_bytes env raw = Some tx)"
  by (auto simp: decode_transaction_def split: option.splits)

section \<open>Address lookup tables\<close>

fun chunks32 :: "nat \<Rightarrow> byte list \<Rightarrow> byte list list" where
  "chunks32 0 bs = []"
| "chunks32 (Suc n) bs = take 32 bs # chunks32 n (drop 32 bs)"

definition table_addresses :: "py_exc \<Rightarrow> wire_env \<Rightarrow> byte list \<Rightarrow> string list res" where
  "table_addresses e env raw =
     (if length raw < 56 \<or> (length raw - 56) mod 32 \<noteq> 0 then Inl e
      else Inr (map (pubkey_text env) (chunks32 ((length raw - 56) div 32) (drop 56 raw))))"

definition pick :: "py_exc \<Rightarrow> string list \<Rightarrow> nat \<Rightarrow> string res" where
  "pick e keys i = (case nth_opt keys i of Some k \<Rightarrow> Inr k | None \<Rightarrow> Inl e)"

text \<open>
  The keys of a message: the static ones, then what every lookup contributes to
  the writable and to the read-only part.
\<close>

definition expand_lookup ::
  "py_exc \<Rightarrow> py_exc \<Rightarrow> wire_env \<Rightarrow> AddressTableLookup \<Rightarrow> string list \<times> string list \<Rightarrow>
   (string list \<times> string list) res" where
  "expand_lookup e_table e_index env lookup acc =
     rbind (account_data env (account_key lookup)) (\<lambda>raw.
     rbind (table_addresses e_table env raw) (\<lambda>addresses.
     rbind (rmapM (pick e_index addresses) (writable_indexes lookup)) (\<lambda>w.
     rbind (rmapM (pick e_index addresses) (readonly_indexes lookup)) (\<lambda>r.
       Inr (fst acc @ w, snd acc @ r)))))"

definition expand_keys :: "py_exc \<Rightarrow> py_exc \<Rightarrow> wire_env \<Rightarrow> MessageV0 \<Rightarrow> string list res" where
  "expand_keys e_table e_index env m =
     rbind (rfold (expand_lookup e_table e_index env) (address_table_lookups m) ([], []))
       (\<lambda>(writable, readonly). Inr (account_keys m @ writable @ readonly))"

lemma expand_keys_static:
  "expand_keys e1 e2 env m = Inr keys \<Longrightarrow> \<exists>more. keys = account_keys m @ more"
  by (auto simp: expand_keys_def)

lemma expand_keys_nth:
  "expand_keys e1 e2 env m = Inr keys \<Longrightarrow> nth_opt (account_keys m) i = Some k \<Longrightarrow> nth_opt keys i = Some k"
  by (auto dest!: expand_keys_static simp: nth_opt_Some nth_append)

lemma expand_keys_no_tables:
  "address_table_lookups m = [] \<Longrightarrow> expand_keys e1 e2 env m = Inr (account_keys m)"
  by (simp add: expand_keys_def)

lemma pick_Inr [simp]: "pick e keys i = Inr k \<longleftrightarrow> nth_opt keys i = Some k"
  by (auto simp: pick_def split: option.splits)

section \<open>Compute budget\<close>

definition COMPUTE_BUDGET_PROGRAM :: string where
  "COMPUTE_BUDGET_PROGRAM = ''ComputeBudget111111111111111111111111111111''"
definition ASSOCIATED_TOKEN_PROGRAM :: string where
  "ASSOCIATED_TOKEN_PROGRAM = ''ATokenGPvbdGVxr1b2hvZbsiqW5xWH25efTNsLJA8knL''"
definition MEMO_PROGRAM :: string where
  "MEMO_PROGRAM = ''MemoSq4gqABAXKb96qnH8TysNcWxMyWCqXgDLGmfcHr''"
definition DEFAULT_COMPUTE_UNIT_LIMIT :: int where
  "DEFAULT_COMPUTE_UNIT_LIMIT = 200000"

text \<open>
  One pass over the instructions; \<open>refuse\<close> is what the reader does with an
  opcode that is neither SetComputeUnitLimit nor SetComputeUnitPrice.
\<close>

fun budget_scan ::
  "(byte \<Rightarrow> unit res) \<Rightarrow> (string \<times> byte list) list \<Rightarrow> int \<Rightarrow> int \<Rightarrow> (int \<times> int) res" where
  "budget_scan refuse [] limit price = Inr (limit, price)"
| "budget_scan refuse ((program, raw) # rest) limit price =
     (if program \<noteq> COMPUTE_BUDGET_PROGRAM \<or> raw = [] then budget_scan refuse rest limit price
      else if hd raw = 2 \<and> length raw = 5 then budget_scan refuse rest (unpack_at 1 4 raw) price
      else if hd raw = 3 \<and> length raw = 9 then budget_scan refuse rest limit (unpack_at 1 8 raw)
      else rbind (refuse (hd raw)) (\<lambda>_. budget_scan refuse rest limit price))"

definition priority_fee :: "int \<Rightarrow> int \<Rightarrow> int" where
  "priority_fee limit price = (limit * price + 999999) div 1000000"

definition budget_within ::
  "(byte \<Rightarrow> unit res) \<Rightarrow> py_exc \<Rightarrow> (string \<times> byte list) list \<Rightarrow> int \<Rightarrow> (int \<times> int \<times> int) res" where
  "budget_within refuse e_fee instrs max_lamports =
     rbind (budget_scan refuse instrs DEFAULT_COMPUTE_UNIT_LIMIT 0) (\<lambda>(limit, price).
       if max_lamports < priority_fee limit price then Inl e_fee
       else Inr (priority_fee limit price, limit, price))"

lemma budget_scan_bounds:
  "budget_scan refuse instrs limit price = Inr (limit', price') \<Longrightarrow>
   0 \<le> limit \<and> limit < 2 ^ 32 \<Longrightarrow> 0 \<le> price \<and> price < 2 ^ 64 \<Longrightarrow>
   (0 \<le> limit' \<and> limit' < 2 ^ 32) \<and> 0 \<le> price' \<and> price' < 2 ^ 64"
  using unpack_at_bounds [of 1 4] unpack_at_bounds [of 1 8]
  by (induction refuse instrs limit price rule: budget_scan.induct) (auto split: if_splits)

lemma budget_within_Inr:
  assumes "budget_within refuse e_fee instrs cap = Inr (fee, limit, price)"
  shows "fee = priority_fee limit price \<and> fee \<le> cap \<and> 0 \<le> fee \<and>
    0 \<le> limit \<and> limit < 2 ^ 32 \<and> 0 \<le> price \<and> price < 2 ^ 64"
proof -
  from assms have scan: "budget_scan refuse instrs DEFAULT_COMPUTE_UNIT_LIMIT 0 = Inr (limit, price)"
    and fee: "fee = priority_fee limit price" "fee \<le> cap"
    by (auto simp: budget_within_def split: if_splits)
  have "0 \<le> limit \<and> limit < 2 ^ 32 \<and> 0 \<le> price \<and> price < 2 ^ 64"
    using budget_scan_bounds [OF scan] by (simp add: DEFAULT_COMPUTE_UNIT_LIMIT_def)
  moreover from this have "0 \<le> limit * price + 999999" by simp
  then have "0 \<le> priority_fee limit price"
    unfolding priority_fee_def by (simp add: pos_imp_zdiv_nonneg_iff)
  ultimately show ?thesis using fee by simp
qed

section \<open>The contract of a signing gate\<close>

text \<open>
  Both checkers read an untrusted transaction and say whether it may be signed.
  \<open>calls keys m\<close> lists the instructions of a message with the program each
  one calls.
\<close>

definition calls :: "string list \<Rightarrow> MessageV0 \<Rightarrow> (string option \<times> CompiledInstruction) list" where
  "calls keys m = map (\<lambda>ix. (nth_opt keys (program_id_index ix), ix)) (instructions m)"

locale signing_gate =
  fixes accept :: "wire_env \<Rightarrow> string \<Rightarrow> string \<Rightarrow> int \<Rightarrow> 'v res"
    and expand :: "wire_env \<Rightarrow> MessageV0 \<Rightarrow> string list res"
    and transaction_of :: "'v \<Rightarrow> VersionedTransaction"
    and fee_of :: "'v \<Rightarrow> int"
    and allowed :: "string set"
  assumes accept_unsigned:
      "accept env owner encoded cap = Inr v \<Longrightarrow>
       (\<forall>s \<in> set (signatures (transaction_of v)). s = default_signature) \<and>
       (\<exists>raw. b64decode encoded = Some raw \<and> from_bytes env raw = Some (transaction_of v))"
    and accept_message:
      "accept env owner encoded cap = Inr v \<Longrightarrow>
       \<exists>m keys. tx_message (transaction_of v) = V0 m \<and> expand env m = Inr keys \<and>
         nth_opt (account_keys m) 0 = Some owner \<and>
         (\<forall>(p, ix) \<in> set (calls keys m). p \<in> Some ` allowed)"
    and accept_fee: "accept env owner encoded cap = Inr v \<Longrightarrow> 0 \<le> fee_of v \<and> fee_of v \<le> cap"
begin

text \<open>Nothing an accepted transaction calls at the top level is outside the allowlist.\<close>

lemma outside_never_called:
  assumes "accept env owner encoded cap = Inr v" and "tx_message (transaction_of v) = V0 m"
    and "expand env m = Inr keys" and "p \<notin> allowed" and "ix \<in> set (instructions m)"
  shows "nth_opt keys (program_id_index ix) \<noteq> Some p"
proof -
  from accept_message [OF assms(1)] assms(2,3)
  have "\<forall>(q, ix) \<in> set (calls keys m). q \<in> Some ` allowed" by auto
  then show ?thesis using assms(4,5) by (auto simp: calls_def)
qed

text \<open>The same bytes are never accepted for two different wallets.\<close>

lemma owner_unique:
  assumes "accept env owner encoded cap = Inr v" and "accept env owner' encoded cap' = Inr v'"
  shows "owner = owner'"
proof -
  have "transaction_of v = transaction_of v'"
    using accept_unsigned [OF assms(1)] accept_unsigned [OF assms(2)] by auto
  then show ?thesis using accept_message [OF assms(1)] accept_message [OF assms(2)] by auto
qed

text \<open>A transaction that already carries a real signature is refused.\<close>

lemma signed_refused:
  assumes "b64decode encoded = Some raw" "from_bytes env raw = Some tx"
    and "s \<in> set (signatures tx)" "s \<noteq> default_signature"
  shows "\<exists>e. accept env owner encoded cap = Inl e"
  using accept_unsigned [of env owner encoded cap] assms
  by (cases "accept env owner encoded cap") auto

end

end
