(* ===== verification/LP_Allowlist.thy ===== *)
theory LP_Allowlist
  imports Wire Domain
begin

text \<open>
  What the liquidity executor may build
  (\<open>joshibot/shitcoims_lpexec/allowlist.py\<close>): programs, DLMM instructions
  by discriminator, pools.

  An Anchor discriminator is the first eight bytes of the SHA-256 of a text
  made from the instruction's name. The hash is the field \<open>sha256\<close> of
  \<open>lp_lib\<close> and every property below holds for whatever function it is, so
  none of them rests on a discriminator's value or on the absence of
  collisions. A discriminator is kept as its eight bytes, not as their hex text.
\<close>

record lp_lib =
  sha256 :: "string \<Rightarrow> byte list"
  find_program_address :: "string \<Rightarrow> string \<Rightarrow> string \<Rightarrow> string"

section \<open>Programs\<close>

definition DLMM_PROGRAM :: string where
  "DLMM_PROGRAM = ''LBUZKhRxPF3XUpBCjp4YzTKgLccjZhTSDM9YuVaPwxo''"
definition SYSTEM_PROGRAM :: string where
  "SYSTEM_PROGRAM = ''11111111111111111111111111111111''"

definition ALLOWED_PROGRAMS :: "string list" where
  "ALLOWED_PROGRAMS =
     [DLMM_PROGRAM, COMPUTE_BUDGET_PROGRAM, ASSOCIATED_TOKEN_PROGRAM, TOKEN_PROGRAM,
      TOKEN_2022_PROGRAM, SYSTEM_PROGRAM, MEMO_PROGRAM]"

section \<open>Instructions\<close>

definition discriminator :: "lp_lib \<Rightarrow> string \<Rightarrow> byte list" where
  "discriminator lib name = take 8 (sha256 lib (''global:'' @ name))"

record IxSpec =
  ix_name :: string
  lb_pair_index :: "nat option"
  position_index :: "nat option"
  signer_index :: "nat option"
  ix_kind :: string

definition mk_spec :: "string \<Rightarrow> nat option \<Rightarrow> nat option \<Rightarrow> nat option \<Rightarrow> string \<Rightarrow> IxSpec" where
  "mk_spec n l p s k = \<lparr> ix_name = n, lb_pair_index = l, position_index = p, signer_index = s, ix_kind = k \<rparr>"

definition SPECS :: "IxSpec list" where
  "SPECS =
     [
      mk_spec ''add_liquidity'' (Some 1) (Some 0) (Some 11) ''add'',
      mk_spec ''add_liquidity2'' (Some 1) (Some 0) (Some 9) ''add'',
      mk_spec ''add_liquidity_by_strategy'' (Some 1) (Some 0) (Some 11) ''add'',
      mk_spec ''add_liquidity_by_strategy2'' (Some 1) (Some 0) (Some 9) ''add'',
      mk_spec ''add_liquidity_by_strategy_one_side'' (Some 1) (Some 0) (Some 8) ''add'',
      mk_spec ''add_liquidity_by_weight'' (Some 1) (Some 0) (Some 11) ''add'',
      mk_spec ''add_liquidity_by_weight2'' (Some 1) (Some 0) (Some 9) ''add'',
      mk_spec ''add_liquidity_one_side'' (Some 1) (Some 0) (Some 8) ''add'',
      mk_spec ''add_liquidity_one_side_precise'' (Some 1) (Some 0) (Some 8) ''add'',
      mk_spec ''add_liquidity_one_side_precise2'' (Some 1) (Some 0) (Some 6) ''add'',
      mk_spec ''remove_liquidity'' (Some 1) (Some 0) (Some 11) ''remove'',
      mk_spec ''remove_liquidity2'' (Some 1) (Some 0) (Some 9) ''remove'',
      mk_spec ''remove_liquidity_by_range'' (Some 1) (Some 0) (Some 11) ''remove'',
      mk_spec ''remove_liquidity_by_range2'' (Some 1) (Some 0) (Some 9) ''remove'',
      mk_spec ''remove_all_liquidity'' (Some 1) (Some 0) (Some 11) ''remove'',
      mk_spec ''claim_fee'' (Some 0) (Some 1) (Some 4) ''claim'',
      mk_spec ''claim_fee2'' (Some 0) (Some 1) (Some 2) ''claim'',
      mk_spec ''close_position'' (Some 1) (Some 0) (Some 4) ''close'',
      mk_spec ''close_position2'' None (Some 0) (Some 1) ''close'',
      mk_spec ''close_position_if_empty'' None (Some 0) (Some 1) ''close'',
      mk_spec ''initialize_position'' (Some 2) (Some 1) (Some 3) ''scaffold'',
      mk_spec ''initialize_position2'' (Some 2) (Some 1) (Some 3) ''scaffold'',
      mk_spec ''initialize_bin_array'' (Some 0) None None ''scaffold'',
      mk_spec ''initialize_bin_array_bitmap_extension'' (Some 0) None None ''scaffold'',
      mk_spec ''increase_position_length'' (Some 1) (Some 2) (Some 3) ''scaffold'',
      mk_spec ''increase_position_length2'' (Some 1) (Some 2) (Some 3) ''scaffold'']"

text \<open>The dict by discriminator; a later entry of the comprehension replaces an earlier one.\<close>

definition ALLOWED_DLMM :: "lp_lib \<Rightarrow> byte list \<Rightarrow> IxSpec option" where
  "ALLOWED_DLMM lib = map_of (rev (map (\<lambda>spec. (discriminator lib (ix_name spec), spec)) SPECS))"

definition FORBIDDEN_NAMES :: "string list" where
  "FORBIDDEN_NAMES =
     [''swap'',
      ''swap2'',
      ''swap_exact_out'',
      ''swap_exact_out2'',
      ''swap_with_price_impact'',
      ''swap_with_price_impact2'',
      ''go_to_a_bin'',
      ''rebalance_liquidity'',
      ''place_limit_order'',
      ''cancel_limit_order'',
      ''withdraw_protocol_fee'',
      ''zap_protocol_fee'',
      ''update_position_operator'',
      ''initialize_lb_pair'',
      ''initialize_lb_pair2'',
      ''initialize_customizable_permissionless_lb_pair'',
      ''initialize_customizable_permissionless_lb_pair2'']"

definition FORBIDDEN_DLMM :: "lp_lib \<Rightarrow> byte list \<Rightarrow> string option" where
  "FORBIDDEN_DLMM lib = map_of (rev (map (\<lambda>n. (discriminator lib n, n)) FORBIDDEN_NAMES))"

definition SWAP_NAMES :: "string list" where
  "SWAP_NAMES = [''swap'', ''swap2'', ''swap_exact_out'', ''swap_exact_out2'',
     ''swap_with_price_impact'', ''swap_with_price_impact2'']"

definition SWAP_DISCRIMINATORS :: "lp_lib \<Rightarrow> byte list list" where
  "SWAP_DISCRIMINATORS lib = map (discriminator lib) SWAP_NAMES"

section \<open>Pools\<close>

record PoolSpec =
  address :: string
  label :: string
  token_x_mint :: string
  token_y_mint :: string
  bin_step :: int
  pool_note :: string

definition mk_pool :: "string \<Rightarrow> string \<Rightarrow> string \<Rightarrow> string \<Rightarrow> int \<Rightarrow> string \<Rightarrow> PoolSpec" where
  "mk_pool a l x y b n = \<lparr> address = a, label = l, token_x_mint = x, token_y_mint = y, bin_step = b, pool_note = n \<rparr>"

definition mints :: "PoolSpec \<Rightarrow> string set" where
  "mints p = {token_x_mint p, token_y_mint p}"

definition WEAVE :: string where
  "WEAVE = ''8PecVcCGs2HphgU5vxoWfqe4XTojaN2LWdy4FvZzpump''"
definition NOSIS :: string where
  "NOSIS = ''FPfi9q1AixdUeWQVPFHJMJQ7a43S78dm6UZ4fzN4pump''"
definition DREGG :: string where
  "DREGG = ''XkeTXo1125vz5H9svJpGiw4JvLbN8VmMu9cmMvspump''"
definition SOLVE :: string where
  "SOLVE = ''GwyWFsDKW9a2ref1EWqdUS7B37Toii433zrAh9Dipump''"

definition POOL_LIST :: "PoolSpec list" where
  "POOL_LIST =
     [
      mk_pool ''48z2a9zvV7rBrMvwn3kE7vbwwiroiaaHm4rx1RwtksRF'' ''nosis/weave'' NOSIS WEAVE 200
        ''holds live position E829RTKuqZWXyvwYuJw9WS4LyaCjd1xrDGpYBDkuBpLP; the trim source'',
      mk_pool ''C889ex3M6dDecsxjAAudiLjhdeKgehbLm4zK9wV3nX8N'' ''nosis/SOL'' NOSIS WSOL_MINT 100
        ''THE liquid nosis/SOL pool: 4.87M nosis + 61.4 SOL. The ask-ladder venue.'',
      mk_pool ''5dUNwg52DTb3S3PyM5tJJMuopGtk2JctioDRfE5dzbWY'' ''nosis/SOL (empty)'' NOSIS WSOL_MINT 250
        ''EMPTY: 0 nosis, 8e-8 SOL, zero fees at every horizon. Allowlisted so a plan that names it is refused by the emptiness check with a reason, not by a missing entry.'',
      mk_pool ''9M1oU7cvRKiNo3e6iuCnApVe5RYehQ9RNv5dhtiKTrA7'' ''weave/SOLVE'' WEAVE SOLVE 200
        ''holds live position 5nn4dFA5NACTGemgfMMDXa2aDywy25XRgkYp6BCiJQrr'',
      mk_pool ''6RRecgQPELvZfoaDECEbsPQaR2WHnDQAPCvMPoFmsr3X'' ''weave/SOL'' WEAVE WSOL_MINT 200
        '''',
      mk_pool ''77Nm2cKtZfJvcQttySdqoZvH1mbxUkUWQwKsrpyvAebu'' ''weave/SOL'' WEAVE WSOL_MINT 100
        '''',
      mk_pool ''QQnW4Zw3Z1PM3FsLxFPW32DodZLLx9S9EbdaA764FFD'' ''weave/nosis'' WEAVE NOSIS 300
        '''',
      mk_pool ''5fJBZY6hCG3ykS2nNCJCXXrFtgcGSDByGccq4ucVea9i'' ''nosis/weave'' NOSIS WEAVE 300
        '''',
      mk_pool ''FNxnyS3hkVJDUvQmP9LYGLUg9icvc7n4ZwTTQ3R1vtJD'' ''nosis/DREGG'' NOSIS DREGG 200
        '''',
      mk_pool ''A8ga6XM3b8EQV1ZD4B5KJTATxKrZm6feKcodTwAogtRG'' ''weave/DREGG'' WEAVE DREGG 20
        '''',
      mk_pool ''GxnCwxTiK1uNQ1GiNutopyaRxH9X14JEvh6uaMwxuDRM'' ''weave/DREGG'' WEAVE DREGG 200
        '''',
      mk_pool ''HE9UXD4abY8dG1QEmyoZkSETZVScef3t2yZqhbWCT9aJ'' ''SOLVE/DREGG'' SOLVE DREGG 125
        '''']"

definition POOLS :: "string \<Rightarrow> PoolSpec option" where
  "POOLS = map_of (rev (map (\<lambda>p. (address p, p)) POOL_LIST))"

definition THA_FUNDS :: string where
  "THA_FUNDS = ''Funv3QdbBA1ZUC53t2ZoWa9zubAz15w9oCyajDPoRaMQ''"

definition pool_for :: "string \<Rightarrow> PoolSpec res" where
  "pool_for a = (case POOLS a of Some p \<Rightarrow> Inr p | None \<Rightarrow> Inl (KeyError ''not an allowlisted lpexec pool''))"

section \<open>Lemmas\<close>

lemma ALLOWED_DLMM_Some:
  "ALLOWED_DLMM lib disc = Some spec \<Longrightarrow> spec \<in> set SPECS \<and> disc = discriminator lib (ix_name spec)"
  unfolding ALLOWED_DLMM_def by (auto dest!: map_of_SomeD)

text \<open>The names on the deny list are not on the allowlist, and every swap is denied.\<close>

lemma names_disjoint: "set (map ix_name SPECS) \<inter> set FORBIDDEN_NAMES = {}"
  by code_simp

lemma swaps_forbidden: "set SWAP_NAMES \<subseteq> set FORBIDDEN_NAMES"
  by code_simp

lemma forbidden_None: "FORBIDDEN_DLMM lib disc = None \<longleftrightarrow> disc \<notin> discriminator lib ` set FORBIDDEN_NAMES"
  unfolding FORBIDDEN_DLMM_def by (force simp: map_of_eq_None_iff)

lemma POOLS_Some: "POOLS a = Some p \<Longrightarrow> p \<in> set POOL_LIST \<and> address p = a"
  unfolding POOLS_def by (auto dest!: map_of_SomeD)

lemma pool_addresses_distinct: "distinct (map address POOL_LIST)"
  by code_simp

end
