(* ===== verification/LP_Guard.thy ===== *)
theory LP_Guard
  imports LP_Allowlist
begin

text \<open>
  The refusal (\<open>joshibot/shitcoims_lpexec/guard.py\<close>): every transaction the
  untrusted builder returns is decoded, its lookup tables expanded and every
  top-level instruction checked before a signature exists.

  The plan a transaction is bound to (\<open>expected_pools\<close>,
  \<open>expected_positions\<close>, \<open>extra_signers\<close>, \<open>max_wrap_lamports\<close>) is the
  record \<open>plan_binding\<close>.
\<close>

section \<open>Definitions\<close>

definition LANDING_BID_FLOOR_MICRO_LAMPORTS :: int where
  "LANDING_BID_FLOOR_MICRO_LAMPORTS = 100000"
definition TOKEN_CLOSE_ACCOUNT :: byte where
  "TOKEN_CLOSE_ACCOUNT = 9"
definition TOKEN_SYNC_NATIVE :: byte where
  "TOKEN_SYNC_NATIVE = 17"
definition SYSTEM_TRANSFER :: int where
  "SYSTEM_TRANSFER = 2"

record DecodedInstruction =
  di_index :: nat
  di_program :: string
  di_name :: string
  di_lb_pair :: "string option"
  di_position :: "string option"
  di_kind :: string

record GuardedTransaction =
  gt_transaction :: VersionedTransaction
  gt_instructions :: "DecodedInstruction list"
  gt_compute_unit_limit :: int
  gt_compute_unit_price_micro_lamports :: int
  gt_priority_fee_lamports :: int
  gt_pools_touched :: "string list"
  gt_positions_touched :: "string list"

definition guarded_bid_below_landing_floor :: "GuardedTransaction \<Rightarrow> bool" where
  "guarded_bid_below_landing_floor g \<longleftrightarrow>
     gt_compute_unit_price_micro_lamports g < LANDING_BID_FLOOR_MICRO_LAMPORTS"

definition associated_token_address :: "lp_lib \<Rightarrow> string \<Rightarrow> string \<Rightarrow> string" where
  "associated_token_address lib owner mint = find_program_address lib owner TOKEN_PROGRAM mint"

definition decode_unsigned :: "wire_env \<Rightarrow> string \<Rightarrow> VersionedTransaction res" where
  "decode_unsigned =
     decode_transaction (TransactionRefused ''builder output is not canonical base64 v0 transaction data'')"

definition guard_lookup_addresses :: "wire_env \<Rightarrow> byte list \<Rightarrow> string list res" where
  "guard_lookup_addresses =
     table_addresses (TransactionRefused ''address lookup table account is malformed'')"

definition guard_resolve_keys :: "wire_env \<Rightarrow> MessageV0 \<Rightarrow> string list res" where
  "guard_resolve_keys =
     expand_keys (TransactionRefused ''address lookup table account is malformed'')
       (TransactionRefused ''lookup table index is out of range'')"

definition key_at :: "string list \<Rightarrow> nat \<Rightarrow> string res" where
  "key_at = pick (TransactionRefused ''instruction references account beyond the key set'')"

definition refuse_opcode :: "byte \<Rightarrow> unit res" where
  "refuse_opcode b =
     rguard (b \<noteq> 0 \<and> b \<noteq> 1) (TransactionRefused ''unexpected compute budget opcode'')"

definition guard_compute_budget :: "(string \<times> byte list) list \<Rightarrow> int \<Rightarrow> (int \<times> int \<times> int) res" where
  "guard_compute_budget =
     budget_within refuse_opcode (TransactionRefused ''priority fee exceeds the configured cap'')"

text \<open>The account at position \<open>i\<close> of an instruction, when the instruction has that position.\<close>

definition account_at :: "py_exc \<Rightarrow> CompiledInstruction \<Rightarrow> string list \<Rightarrow> nat \<Rightarrow> string res" where
  "account_at missing ix keys i =
     (case nth_opt (accounts ix) i of None \<Rightarrow> Inl missing | Some a \<Rightarrow> key_at keys a)"

definition check_dlmm ::
  "IxSpec \<Rightarrow> CompiledInstruction \<Rightarrow> string list \<Rightarrow> string \<Rightarrow> string list \<Rightarrow> string list \<Rightarrow>
   (string option \<times> string option) res" where
  "check_dlmm spec ix keys owner expected_pools expected_positions =
     rbind (case lb_pair_index spec of
              None \<Rightarrow> Inr None
            | Some i \<Rightarrow>
                rbind (account_at (TransactionRefused ''instruction is missing its lb_pair account'') ix keys i) (\<lambda>lb_pair.
                rbind (rguard (POOLS lb_pair \<noteq> None)
                         (TransactionRefused ''pool is not in the lpexec pool allowlist'')) (\<lambda>_.
                rbind (rguard (expected_pools = [] \<or> lb_pair \<in> set expected_pools)
                         (TransactionRefused ''allowlisted pool the plan did not authorise'')) (\<lambda>_.
                  Inr (Some lb_pair))))) (\<lambda>lb_pair.
     rbind (case position_index spec of
              None \<Rightarrow> Inr None
            | Some i \<Rightarrow>
                rbind (account_at (TransactionRefused ''instruction is missing its position account'') ix keys i) (\<lambda>position.
                rbind (rguard (expected_positions = [] \<or> position \<in> set expected_positions)
                         (TransactionRefused ''position the plan did not authorise'')) (\<lambda>_.
                  Inr (Some position)))) (\<lambda>position.
     rbind (case signer_index spec of
              None \<Rightarrow> Inr ()
            | Some i \<Rightarrow>
                rbind (account_at (TransactionRefused ''instruction is missing its signer account'') ix keys i) (\<lambda>signer.
                  rguard (signer = owner) (TransactionRefused ''instruction would act for another wallet''))) (\<lambda>_.
       Inr (lb_pair, position))))"

definition check_ata :: "CompiledInstruction \<Rightarrow> string list \<Rightarrow> string \<Rightarrow> unit res" where
  "check_ata ix keys owner =
     (if data ix \<notin> {[], [1]}
      then Inl (TransactionRefused ''only ATA Create and CreateIdempotent are permitted'')
      else if length (accounts ix) < 3
      then Inl (TransactionRefused ''ATA instruction has too few accounts to check'')
      else rbind (key_at keys (accounts ix ! 0)) (\<lambda>payer.
           rbind (key_at keys (accounts ix ! 2)) (\<lambda>ata_owner.
             rguard (payer = owner \<and> ata_owner = owner)
               (TransactionRefused ''an ATA may only be created by us, for us''))))"

definition check_token :: "CompiledInstruction \<Rightarrow> string list \<Rightarrow> string \<Rightarrow> unit res" where
  "check_token ix keys owner =
     (if data ix = [] then Inl (TransactionRefused ''empty SPL Token instruction'')
      else if hd (data ix) \<noteq> TOKEN_CLOSE_ACCOUNT \<and> hd (data ix) \<noteq> TOKEN_SYNC_NATIVE
      then Inl (TransactionRefused ''SPL Token opcode is not permitted; only CloseAccount and SyncNative are'')
      else if hd (data ix) = TOKEN_CLOSE_ACCOUNT then
        if length (accounts ix) < 3 then Inl (TransactionRefused ''CloseAccount is missing accounts'')
        else rbind (key_at keys (accounts ix ! 1)) (\<lambda>destination.
             rbind (key_at keys (accounts ix ! 2)) (\<lambda>authority.
               rguard (destination = owner \<and> authority = owner)
                 (TransactionRefused ''a token account may only be closed by us, to us'')))
      else Inr ())"

definition check_system :: "CompiledInstruction \<Rightarrow> string list \<Rightarrow> string \<Rightarrow> string \<Rightarrow> int res" where
  "check_system ix keys owner wsol_ata =
     (if length (data ix) < 4 then Inl (TransactionRefused ''System instruction is too short to classify'')
      else if unpack_at 0 4 (data ix) \<noteq> SYSTEM_TRANSFER
      then Inl (TransactionRefused ''System program opcode is not permitted'')
      else if length (data ix) \<noteq> 12
      then Inl (TransactionRefused ''System Transfer has an unexpected payload length'')
      else if length (accounts ix) < 2
      then Inl (TransactionRefused ''System Transfer is missing accounts'')
      else rbind (key_at keys (accounts ix ! 0)) (\<lambda>source.
           rbind (key_at keys (accounts ix ! 1)) (\<lambda>destination.
           rbind (rguard (source = owner) (TransactionRefused ''System Transfer must be funded by us'')) (\<lambda>_.
           rbind (rguard (destination = wsol_ata)
                    (TransactionRefused ''System Transfer destination is not our own wSOL account'')) (\<lambda>_.
             Inr (unpack_at 4 8 (data ix)))))))"

record plan_binding =
  expected_pools :: "string list"
  expected_positions :: "string list"
  extra_signers :: "string list"
  max_wrap_lamports :: int

record guard_state =
  gs_decoded :: "DecodedInstruction list"
  gs_budget_inputs :: "(string \<times> byte list) list"
  gs_pools_touched :: "string list"
  gs_positions_touched :: "string list"
  gs_wrapped_lamports :: int
  gs_saw_dlmm :: bool

definition guard_start :: guard_state where
  "guard_start = \<lparr> gs_decoded = [], gs_budget_inputs = [], gs_pools_touched = [],
     gs_positions_touched = [], gs_wrapped_lamports = 0, gs_saw_dlmm = False \<rparr>"

definition scaffold :: "nat \<Rightarrow> string \<Rightarrow> string \<Rightarrow> DecodedInstruction" where
  "scaffold index program name = \<lparr> di_index = index, di_program = program, di_name = name,
     di_lb_pair = None, di_position = None, di_kind = ''scaffold'' \<rparr>"

fun add_opt :: "string option \<Rightarrow> string list \<Rightarrow> string list" where
  "add_opt None xs = xs"
| "add_opt (Some x) xs = List.insert x xs"

text \<open>The DLMM branch of the instruction loop.\<close>

definition guard_dlmm ::
  "lp_lib \<Rightarrow> plan_binding \<Rightarrow> string list \<Rightarrow> string \<Rightarrow> nat \<Rightarrow> CompiledInstruction \<Rightarrow> guard_state \<Rightarrow>
   guard_state res" where
  "guard_dlmm lib plan keys owner index ix s =
     (if length (data ix) < 8 then Inl (TransactionRefused ''instruction has no DLMM discriminator'')
      else
        let disc = take 8 (data ix)
        in if disc \<in> set (SWAP_DISCRIMINATORS lib) then Inl (TransactionRefused ''instruction is a DLMM SWAP'')
           else if FORBIDDEN_DLMM lib disc \<noteq> None
           then Inl (TransactionRefused ''DLMM instruction is not LP management'')
           else case ALLOWED_DLMM lib disc of
                  None \<Rightarrow> Inl (TransactionRefused ''DLMM discriminator is not on the allowlist'')
                | Some spec \<Rightarrow>
                    rbind (check_dlmm spec ix keys owner (expected_pools plan) (expected_positions plan))
                      (\<lambda>(lb_pair, position).
                        Inr (s\<lparr>gs_saw_dlmm := True,
                               gs_pools_touched := add_opt lb_pair (gs_pools_touched s),
                               gs_positions_touched := add_opt position (gs_positions_touched s),
                               gs_decoded := gs_decoded s @
                                 [\<lparr> di_index = index, di_program = DLMM_PROGRAM, di_name = ix_name spec,
                                    di_lb_pair = lb_pair, di_position = position, di_kind = ix_kind spec \<rparr>]\<rparr>)))"

text \<open>The scaffolding branches.\<close>

definition guard_scaffold ::
  "string \<Rightarrow> string list \<Rightarrow> string \<Rightarrow> nat \<Rightarrow> string \<Rightarrow> CompiledInstruction \<Rightarrow> guard_state \<Rightarrow> guard_state res" where
  "guard_scaffold wsol_ata keys owner index program ix s =
     (let add = \<lambda>name. s\<lparr>gs_decoded := gs_decoded s @ [scaffold index program name]\<rparr>
      in if program = COMPUTE_BUDGET_PROGRAM then Inr (add ''compute_budget'')
         else if program = ASSOCIATED_TOKEN_PROGRAM
         then rbind (check_ata ix keys owner) (\<lambda>_. Inr (add ''create_ata''))
         else if program = TOKEN_PROGRAM \<or> program = TOKEN_2022_PROGRAM
         then rbind (check_token ix keys owner) (\<lambda>_. Inr (add ''spl_token''))
         else if program = SYSTEM_PROGRAM
         then rbind (check_system ix keys owner wsol_ata) (\<lambda>lamports.
                Inr ((add ''wrap_sol'')\<lparr>gs_wrapped_lamports := gs_wrapped_lamports s + lamports\<rparr>))
         else if program = MEMO_PROGRAM then Inr (add ''memo'')
         else Inr s)"

definition guard_instruction ::
  "lp_lib \<Rightarrow> plan_binding \<Rightarrow> string list \<Rightarrow> string \<Rightarrow> CompiledInstruction \<Rightarrow> guard_state \<Rightarrow> guard_state res" where
  "guard_instruction lib plan keys owner ix s =
     (let index = length (gs_budget_inputs s)
      in rbind (key_at keys (program_id_index ix)) (\<lambda>program.
         rbind (rguard (program \<in> set ALLOWED_PROGRAMS)
                  (TransactionRefused ''instruction calls a program that is not allowlisted'')) (\<lambda>_.
         let s1 = s\<lparr>gs_budget_inputs := gs_budget_inputs s @ [(program, data ix)]\<rparr>
         in if program = DLMM_PROGRAM then guard_dlmm lib plan keys owner index ix s1
            else guard_scaffold (associated_token_address lib owner WSOL_MINT) keys owner index program ix s1)))"

text \<open>The checks on the header: signers, fee payer, no signature yet.\<close>

definition guard_header :: "plan_binding \<Rightarrow> string \<Rightarrow> VersionedTransaction \<Rightarrow> MessageV0 \<Rightarrow> unit res" where
  "guard_header plan owner tx m =
     (let required = num_required_signatures m
      in rbind (rguard (1 \<le> required \<and> required \<le> 2)
                  (TransactionRefused ''only 1 signature, or 2 with a plan-generated position key, is allowed'')) (\<lambda>_.
         rbind (pick (OtherError ''IndexError'') (account_keys m) 0) (\<lambda>payer.
         rbind (rguard (payer = owner) (TransactionRefused ''fee payer is not tha funds'')) (\<lambda>_.
         rbind (if required = 2
                then rbind (pick (OtherError ''IndexError'') (account_keys m) 1) (\<lambda>second.
                       rguard (second \<in> set (extra_signers plan))
                         (TransactionRefused ''second signature from a key this plan did not create''))
                else Inr ()) (\<lambda>_.
           rguard (length (signatures tx) = required \<and> (\<forall>s \<in> set (signatures tx). s = default_signature))
             (TransactionRefused ''builder returned a transaction that is already signed''))))))"

definition guard_transaction ::
  "lp_lib \<Rightarrow> plan_binding \<Rightarrow> wire_env \<Rightarrow> string \<Rightarrow> string \<Rightarrow> int \<Rightarrow> GuardedTransaction res" where
  "guard_transaction lib plan env owner encoded max_priority_fee_lamports =
     rbind (decode_unsigned env encoded) (\<lambda>tx.
       case tx_message tx of
         Legacy \<Rightarrow> Inl (TransactionRefused ''only v0 transactions are accepted; a legacy message was returned'')
       | V0 m \<Rightarrow>
           rbind (guard_header plan owner tx m) (\<lambda>_.
           rbind (guard_resolve_keys env m) (\<lambda>keys.
           rbind (rfold (guard_instruction lib plan keys owner) (instructions m) guard_start) (\<lambda>s.
           rbind (rguard (gs_saw_dlmm s)
                    (TransactionRefused ''transaction contains no DLMM instruction; there is nothing to do'')) (\<lambda>_.
           rbind (rguard (gs_wrapped_lamports s \<le> max_wrap_lamports plan)
                    (TransactionRefused ''transaction would wrap more lamports than the plan authorised'')) (\<lambda>_.
           rbind (guard_compute_budget (gs_budget_inputs s) max_priority_fee_lamports)
             (\<lambda>(fee, unit_limit, unit_price).
               Inr \<lparr> gt_transaction = tx, gt_instructions = gs_decoded s,
                     gt_compute_unit_limit = unit_limit,
                     gt_compute_unit_price_micro_lamports = unit_price,
                     gt_priority_fee_lamports = fee,
                     gt_pools_touched = gs_pools_touched s,
                     gt_positions_touched = gs_positions_touched s \<rparr>)))))))"

section \<open>What one accepted instruction may be\<close>

text \<open>The account an instruction has at a position, with the lookup tables expanded.\<close>

definition acct :: "string list \<Rightarrow> CompiledInstruction \<Rightarrow> nat \<Rightarrow> string option" where
  "acct keys ix i = Option.bind (nth_opt (accounts ix) i) (nth_opt keys)"

definition lp_dlmm_ok :: "lp_lib \<Rightarrow> plan_binding \<Rightarrow> string list \<Rightarrow> string \<Rightarrow> CompiledInstruction \<Rightarrow> bool" where
  "lp_dlmm_ok lib plan keys owner ix \<longleftrightarrow>
     take 8 (data ix) \<notin> discriminator lib ` set FORBIDDEN_NAMES \<and>
     (\<exists>spec \<in> set SPECS. take 8 (data ix) = discriminator lib (ix_name spec) \<and>
        (\<forall>i. lb_pair_index spec = Some i \<longrightarrow>
           (\<exists>pool. acct keys ix i = Some pool \<and> POOLS pool \<noteq> None \<and>
                   (expected_pools plan = [] \<or> pool \<in> set (expected_pools plan)))) \<and>
        (\<forall>i. position_index spec = Some i \<longrightarrow>
           (\<exists>position. acct keys ix i = Some position \<and>
                   (expected_positions plan = [] \<or> position \<in> set (expected_positions plan)))) \<and>
        (\<forall>i. signer_index spec = Some i \<longrightarrow> acct keys ix i = Some owner))"

text \<open>A System instruction that moves lamports from the wallet into its own wrapped-SOL account.\<close>

definition lp_wrap_ok :: "lp_lib \<Rightarrow> string list \<Rightarrow> string \<Rightarrow> CompiledInstruction \<Rightarrow> bool" where
  "lp_wrap_ok lib keys owner ix \<longleftrightarrow>
     length (data ix) = 12 \<and> unpack_at 0 4 (data ix) = SYSTEM_TRANSFER \<and>
     acct keys ix 0 = Some owner \<and> acct keys ix 1 = Some (associated_token_address lib owner WSOL_MINT)"

definition wrapped_by :: "string list \<Rightarrow> CompiledInstruction \<Rightarrow> int" where
  "wrapped_by keys ix =
     (if nth_opt keys (program_id_index ix) = Some SYSTEM_PROGRAM then unpack_at 4 8 (data ix) else 0)"

definition lp_instruction_ok ::
  "lp_lib \<Rightarrow> plan_binding \<Rightarrow> string list \<Rightarrow> string \<Rightarrow> CompiledInstruction \<Rightarrow> bool" where
  "lp_instruction_ok lib plan keys owner ix \<longleftrightarrow>
     (\<exists>program \<in> set ALLOWED_PROGRAMS. nth_opt keys (program_id_index ix) = Some program \<and>
        (program = DLMM_PROGRAM \<longrightarrow> lp_dlmm_ok lib plan keys owner ix) \<and>
        (program = SYSTEM_PROGRAM \<longrightarrow> lp_wrap_ok lib keys owner ix) \<and>
        (program \<in> {TOKEN_PROGRAM, TOKEN_2022_PROGRAM} \<longrightarrow>
           (\<exists>rest. data ix = TOKEN_SYNC_NATIVE # rest) \<or>
           (\<exists>rest. data ix = TOKEN_CLOSE_ACCOUNT # rest) \<and>
              acct keys ix 1 = Some owner \<and> acct keys ix 2 = Some owner) \<and>
        (program = ASSOCIATED_TOKEN_PROGRAM \<longrightarrow>
           (data ix = [] \<or> data ix = [1]) \<and> acct keys ix 0 = Some owner \<and> acct keys ix 2 = Some owner))"

lemma lp_instruction_okD:
  assumes "lp_instruction_ok lib plan keys owner ix"
  shows "nth_opt keys (program_id_index ix) \<in> Some ` set ALLOWED_PROGRAMS"
    and "nth_opt keys (program_id_index ix) = Some DLMM_PROGRAM \<Longrightarrow> lp_dlmm_ok lib plan keys owner ix"
  using assms by (auto simp: lp_instruction_ok_def)

lemma account_at_Inr [simp]: "account_at e ix keys i = Inr k \<longleftrightarrow> acct keys ix i = Some k"
  by (auto simp: account_at_def acct_def key_at_def split: option.splits)

lemma key_at_acct:
  "i < length (accounts ix) \<Longrightarrow> key_at keys (accounts ix ! i) = Inr k \<longleftrightarrow> acct keys ix i = Some k"
  by (simp add: key_at_def acct_def nth_opt_def)

lemma key_at_first:
  "\<not> length (accounts ix) < 3 \<Longrightarrow> key_at keys (accounts ix ! 0) = Inr k \<longleftrightarrow> acct keys ix 0 = Some k"
  "\<not> length (accounts ix) < 2 \<Longrightarrow> key_at keys (accounts ix ! 0) = Inr k \<longleftrightarrow> acct keys ix 0 = Some k"
  by (rule key_at_acct; linarith)+

lemma check_dlmm_Inr:
  assumes "check_dlmm spec ix keys owner pools positions = Inr r"
  shows "(\<forall>i. lb_pair_index spec = Some i \<longrightarrow> (\<exists>pool. acct keys ix i = Some pool \<and> POOLS pool \<noteq> None \<and>
             (pools = [] \<or> pool \<in> set pools))) \<and>
         (\<forall>i. position_index spec = Some i \<longrightarrow> (\<exists>position. acct keys ix i = Some position \<and>
             (positions = [] \<or> position \<in> set positions))) \<and>
         (\<forall>i. signer_index spec = Some i \<longrightarrow> acct keys ix i = Some owner)"
  using assms
  by (cases "lb_pair_index spec"; cases "position_index spec"; cases "signer_index spec")
    (auto simp: check_dlmm_def)

lemma guard_dlmm_Inr:
  assumes "guard_dlmm lib plan keys owner index ix s = Inr s'"
  shows "lp_dlmm_ok lib plan keys owner ix" "gs_wrapped_lamports s' = gs_wrapped_lamports s"
    "gs_budget_inputs s' = gs_budget_inputs s" "gs_saw_dlmm s'"
proof -
  let ?disc = "take 8 (data ix)"
  from assms obtain spec r where f: "FORBIDDEN_DLMM lib ?disc = None" and spec: "ALLOWED_DLMM lib ?disc = Some spec"
    and r: "check_dlmm spec ix keys owner (expected_pools plan) (expected_positions plan) = Inr r"
    and s': "gs_wrapped_lamports s' = gs_wrapped_lamports s" "gs_budget_inputs s' = gs_budget_inputs s" "gs_saw_dlmm s'"
    by (auto simp: guard_dlmm_def Let_def split: if_splits option.splits)
  have "spec \<in> set SPECS \<and> ?disc = discriminator lib (ix_name spec)"
    using spec by (rule ALLOWED_DLMM_Some)
  then show "lp_dlmm_ok lib plan keys owner ix"
    unfolding lp_dlmm_ok_def using f check_dlmm_Inr [OF r] by (auto simp: forbidden_None)
  show "gs_wrapped_lamports s' = gs_wrapped_lamports s" "gs_budget_inputs s' = gs_budget_inputs s" "gs_saw_dlmm s'"
    by (fact s')+
qed

lemma check_token_Inr:
  "check_token ix keys owner = Inr u \<Longrightarrow>
   (\<exists>rest. data ix = TOKEN_SYNC_NATIVE # rest) \<or>
   (\<exists>rest. data ix = TOKEN_CLOSE_ACCOUNT # rest) \<and> acct keys ix 1 = Some owner \<and> acct keys ix 2 = Some owner"
  by (cases "data ix") (auto simp: check_token_def key_at_acct split: if_splits)

lemma check_ata_Inr:
  "check_ata ix keys owner = Inr u \<Longrightarrow>
   (data ix = [] \<or> data ix = [1]) \<and> acct keys ix 0 = Some owner \<and> acct keys ix 2 = Some owner"
  by (auto simp: check_ata_def key_at_acct key_at_first split: if_splits)

lemma check_system_Inr:
  "check_system ix keys owner (associated_token_address lib owner WSOL_MINT) = Inr n \<Longrightarrow>
   lp_wrap_ok lib keys owner ix \<and> n = unpack_at 4 8 (data ix)"
  by (auto simp: check_system_def lp_wrap_ok_def key_at_acct key_at_first split: if_splits)

lemma programs_distinct:
  "distinct ALLOWED_PROGRAMS"
  by code_simp

lemma guard_scaffold_Inr:
  assumes "guard_scaffold (associated_token_address lib owner WSOL_MINT) keys owner index program ix s = Inr s'"
    and "nth_opt keys (program_id_index ix) = Some program" "program \<in> set ALLOWED_PROGRAMS" "program \<noteq> DLMM_PROGRAM"
  shows "lp_instruction_ok lib plan keys owner ix" and "gs_wrapped_lamports s' = gs_wrapped_lamports s + wrapped_by keys ix"
    and "gs_budget_inputs s' = gs_budget_inputs s" and "gs_saw_dlmm s' = gs_saw_dlmm s"
proof -
  note neq = programs_distinct [unfolded ALLOWED_PROGRAMS_def, simplified]
  consider "program = COMPUTE_BUDGET_PROGRAM" | "program = ASSOCIATED_TOKEN_PROGRAM"
    | "program = TOKEN_PROGRAM \<or> program = TOKEN_2022_PROGRAM" | "program = SYSTEM_PROGRAM" | "program = MEMO_PROGRAM"
    using assms(3,4) by (auto simp: ALLOWED_PROGRAMS_def)
  then have "lp_instruction_ok lib plan keys owner ix \<and>
      gs_wrapped_lamports s' = gs_wrapped_lamports s + wrapped_by keys ix \<and>
      gs_budget_inputs s' = gs_budget_inputs s \<and> gs_saw_dlmm s' = gs_saw_dlmm s"
  proof cases
    case 1
    then show ?thesis using assms neq
      by (auto simp: guard_scaffold_def lp_instruction_ok_def wrapped_by_def Let_def)
  next
    case 2
    then have "check_ata ix keys owner = Inr ()" using assms(1) neq by (auto simp: guard_scaffold_def Let_def)
    then show ?thesis using assms neq 2 check_ata_Inr
      by (auto simp: guard_scaffold_def lp_instruction_ok_def wrapped_by_def Let_def)
  next
    case 3
    then have "check_token ix keys owner = Inr ()" using assms(1) neq
      by (auto simp: guard_scaffold_def Let_def split: if_splits)
    then have tok: "(\<exists>rest. data ix = TOKEN_SYNC_NATIVE # rest) \<or>
       (\<exists>rest. data ix = TOKEN_CLOSE_ACCOUNT # rest) \<and> acct keys ix 1 = Some owner \<and> acct keys ix 2 = Some owner"
      by (rule check_token_Inr)
    have "lp_instruction_ok lib plan keys owner ix"
      unfolding lp_instruction_ok_def using assms(2-4) tok 3 neq by (intro bexI [of _ program]) auto
    then show ?thesis using assms(1,2) neq 3
      by (auto simp: guard_scaffold_def wrapped_by_def Let_def)
  next
    case 4
    then obtain n where n: "check_system ix keys owner (associated_token_address lib owner WSOL_MINT) = Inr n"
      and s': "gs_wrapped_lamports s' = gs_wrapped_lamports s + n" "gs_budget_inputs s' = gs_budget_inputs s"
        "gs_saw_dlmm s' = gs_saw_dlmm s"
      using assms(1) neq by (auto simp: guard_scaffold_def Let_def)
    then show ?thesis using assms neq 4 check_system_Inr [OF n]
      by (auto simp: lp_instruction_ok_def wrapped_by_def)
  next
    case 5
    then show ?thesis using assms neq
      by (auto simp: guard_scaffold_def lp_instruction_ok_def wrapped_by_def Let_def)
  qed
  then show "lp_instruction_ok lib plan keys owner ix" "gs_wrapped_lamports s' = gs_wrapped_lamports s + wrapped_by keys ix"
    "gs_budget_inputs s' = gs_budget_inputs s" "gs_saw_dlmm s' = gs_saw_dlmm s"
    by blast+
qed

lemma guard_instruction_Inr:
  assumes "guard_instruction lib plan keys owner ix s = Inr s'"
  shows "lp_instruction_ok lib plan keys owner ix \<and>
    gs_wrapped_lamports s' = gs_wrapped_lamports s + wrapped_by keys ix \<and>
    (gs_saw_dlmm s' \<longleftrightarrow> gs_saw_dlmm s \<or> nth_opt keys (program_id_index ix) = Some DLMM_PROGRAM)"
proof -
  note neq = programs_distinct [unfolded ALLOWED_PROGRAMS_def, simplified]
  from assms obtain program where p: "nth_opt keys (program_id_index ix) = Some program"
      "program \<in> set ALLOWED_PROGRAMS"
    and step: "(if program = DLMM_PROGRAM
        then guard_dlmm lib plan keys owner (length (gs_budget_inputs s)) ix
               (s\<lparr>gs_budget_inputs := gs_budget_inputs s @ [(program, data ix)]\<rparr>)
        else guard_scaffold (associated_token_address lib owner WSOL_MINT) keys owner (length (gs_budget_inputs s))
               program ix (s\<lparr>gs_budget_inputs := gs_budget_inputs s @ [(program, data ix)]\<rparr>)) = Inr s'"
    by (auto simp: guard_instruction_def key_at_def Let_def)
  show ?thesis
  proof (cases "program = DLMM_PROGRAM")
    case True
    then have "guard_dlmm lib plan keys owner (length (gs_budget_inputs s)) ix
        (s\<lparr>gs_budget_inputs := gs_budget_inputs s @ [(program, data ix)]\<rparr>) = Inr s'"
      using step by simp
    from guard_dlmm_Inr [OF this] show ?thesis
      using p True neq by (auto simp: lp_instruction_ok_def wrapped_by_def)
  next
    case False
    then have "guard_scaffold (associated_token_address lib owner WSOL_MINT) keys owner (length (gs_budget_inputs s))
        program ix (s\<lparr>gs_budget_inputs := gs_budget_inputs s @ [(program, data ix)]\<rparr>) = Inr s'"
      using step by simp
    from guard_scaffold_Inr [OF this p False] show ?thesis using p False by auto
  qed
qed

lemma guard_all:
  "rfold (guard_instruction lib plan keys owner) ixs s = Inr s' \<Longrightarrow>
   (\<forall>ix \<in> set ixs. lp_instruction_ok lib plan keys owner ix) \<and>
   gs_wrapped_lamports s' = gs_wrapped_lamports s + sum_list (map (wrapped_by keys) ixs) \<and>
   (gs_saw_dlmm s' \<longleftrightarrow> gs_saw_dlmm s \<or> (\<exists>ix \<in> set ixs. nth_opt keys (program_id_index ix) = Some DLMM_PROGRAM))"
proof (induction ixs arbitrary: s)
  case (Cons ix ixs)
  from Cons.prems obtain s1 where a: "guard_instruction lib plan keys owner ix s = Inr s1"
    and b: "rfold (guard_instruction lib plan keys owner) ixs s1 = Inr s'" by auto
  show ?case using Cons.IH [OF b] guard_instruction_Inr [OF a] by auto
qed simp

definition lp_header_ok :: "plan_binding \<Rightarrow> string \<Rightarrow> VersionedTransaction \<Rightarrow> MessageV0 \<Rightarrow> bool" where
  "lp_header_ok plan owner tx m \<longleftrightarrow>
     nth_opt (account_keys m) 0 = Some owner \<and>
     length (signatures tx) = num_required_signatures m \<and>
     (\<forall>s \<in> set (signatures tx). s = default_signature) \<and>
     (num_required_signatures m = 1 \<or>
      num_required_signatures m = 2 \<and>
        (\<exists>second \<in> set (extra_signers plan). nth_opt (account_keys m) 1 = Some second))"

lemma guard_header_Inr: "guard_header plan owner tx m = Inr u \<Longrightarrow> lp_header_ok plan owner tx m"
  by (auto simp: guard_header_def lp_header_ok_def Let_def split: if_splits)

lemma guard_transaction_Inr:
  assumes "guard_transaction lib plan env owner encoded cap = Inr g"
  obtains m keys raw where "b64decode encoded = Some raw" "from_bytes env raw = Some (gt_transaction g)"
    "tx_message (gt_transaction g) = V0 m" "lp_header_ok plan owner (gt_transaction g) m"
    "guard_resolve_keys env m = Inr keys"
    "\<forall>ix \<in> set (instructions m). lp_instruction_ok lib plan keys owner ix"
    "sum_list (map (wrapped_by keys) (instructions m)) \<le> max_wrap_lamports plan"
    "\<exists>ix \<in> set (instructions m). nth_opt keys (program_id_index ix) = Some DLMM_PROGRAM"
    "0 \<le> gt_priority_fee_lamports g" "gt_priority_fee_lamports g \<le> cap"
proof -
  from assms obtain tx raw where b: "b64decode encoded = Some raw" "from_bytes env raw = Some tx"
    by (auto simp: guard_transaction_def decode_unsigned_def)
  with assms obtain m where m: "tx_message tx = V0 m"
    by (cases "tx_message tx") (auto simp: guard_transaction_def decode_unsigned_def)
  from assms b m obtain keys s fee ul up where head: "guard_header plan owner tx m = Inr ()"
    and keys: "guard_resolve_keys env m = Inr keys"
    and fold: "rfold (guard_instruction lib plan keys owner) (instructions m) guard_start = Inr s"
    and s: "gs_saw_dlmm s" "gs_wrapped_lamports s \<le> max_wrap_lamports plan"
    and fee: "guard_compute_budget (gs_budget_inputs s) cap = Inr (fee, ul, up)"
    and g: "gt_transaction g = tx" "gt_priority_fee_lamports g = fee"
    by (auto simp: guard_transaction_def decode_unsigned_def)
  have "0 \<le> fee" "fee \<le> cap" using budget_within_Inr fee unfolding guard_compute_budget_def by blast+
  then show thesis
    using that [of raw m keys] b m g guard_header_Inr [OF head] keys guard_all [OF fold] s
    by (simp add: guard_start_def)
qed

interpretation lp: signing_gate "guard_transaction lib plan" guard_resolve_keys gt_transaction
  gt_priority_fee_lamports "set ALLOWED_PROGRAMS"
  for lib plan
proof unfold_locales
  fix env owner encoded cap g
  assume a: "guard_transaction lib plan env owner encoded cap = Inr g"
  show "(\<forall>s \<in> set (signatures (gt_transaction g)). s = default_signature) \<and>
       (\<exists>raw. b64decode encoded = Some raw \<and> from_bytes env raw = Some (gt_transaction g))"
    using a by (rule guard_transaction_Inr) (simp add: lp_header_ok_def)
  show "\<exists>m keys. tx_message (gt_transaction g) = V0 m \<and> guard_resolve_keys env m = Inr keys \<and>
         nth_opt (account_keys m) 0 = Some owner \<and>
         (\<forall>(p, ix) \<in> set (calls keys m). p \<in> Some ` set ALLOWED_PROGRAMS)"
    using a by (rule guard_transaction_Inr)
      (auto simp: calls_def lp_instruction_ok_def lp_header_ok_def image_iff)
  show "0 \<le> gt_priority_fee_lamports g \<and> gt_priority_fee_lamports g \<le> cap"
    using a by (rule guard_transaction_Inr) simp
qed

section \<open>What the guard promises\<close>

text \<open>
  C23 (safety). A guarded transaction can only manage liquidity: every
  instruction calls an allowlisted program, and a DLMM instruction's
  discriminator is that of an entry of the allowlist and of no forbidden name
  (no swap, whatever the hash function), its pool is on the pool allowlist and
  among the plan's pools when the plan names any, its position is among the
  plan's when the plan names any, and its acting account is the wallet.
\<close>

theorem guarded_is_liquidity_management:
  assumes "guard_transaction lib plan env owner encoded cap = Inr g"
  shows "\<exists>m keys. tx_message (gt_transaction g) = V0 m \<and> guard_resolve_keys env m = Inr keys \<and>
    (\<forall>ix \<in> set (instructions m). nth_opt keys (program_id_index ix) \<in> Some ` set ALLOWED_PROGRAMS \<and>
       (nth_opt keys (program_id_index ix) = Some DLMM_PROGRAM \<longrightarrow>
          lp_dlmm_ok lib plan keys owner ix \<and> take 8 (data ix) \<notin> set (SWAP_DISCRIMINATORS lib)))"
  using assms
proof (rule guard_transaction_Inr)
  fix m keys
  assume m: "tx_message (gt_transaction g) = V0 m" "guard_resolve_keys env m = Inr keys"
    and ok: "\<forall>ix \<in> set (instructions m). lp_instruction_ok lib plan keys owner ix"
  have "take 8 (data ix) \<notin> set (SWAP_DISCRIMINATORS lib)" if "lp_dlmm_ok lib plan keys owner ix" for ix
    using that swaps_forbidden by (auto simp: lp_dlmm_ok_def SWAP_DISCRIMINATORS_def)
  then have "\<forall>ix \<in> set (instructions m). nth_opt keys (program_id_index ix) \<in> Some ` set ALLOWED_PROGRAMS \<and>
       (nth_opt keys (program_id_index ix) = Some DLMM_PROGRAM \<longrightarrow>
          lp_dlmm_ok lib plan keys owner ix \<and> take 8 (data ix) \<notin> set (SWAP_DISCRIMINATORS lib))"
    using ok lp_instruction_okD by blast
  then show ?thesis using m by blast
qed

definition toy_lib :: lp_lib where
  "toy_lib = \<lparr> sha256 = (\<lambda>s. map (\<lambda>c. of_nat (of_char c)) (drop 7 s) @ replicate 8 0),
     find_program_address = (\<lambda>owner program mint. ''Wsol'') \<rparr>"

definition sample_plan :: plan_binding where
  "sample_plan = \<lparr> expected_pools = [''C889ex3M6dDecsxjAAudiLjhdeKgehbLm4zK9wV3nX8N''],
     expected_positions = [''Position''], extra_signers = [], max_wrap_lamports = 1000 \<rparr>"

text \<open>Claims the fees of one position and wraps 1000 lamports.\<close>

definition sample_lp_tx :: VersionedTransaction where
  "sample_lp_tx = \<lparr> tx_message = V0 \<lparr> num_required_signatures = 1,
       account_keys = [''Owner'', DLMM_PROGRAM, ''C889ex3M6dDecsxjAAudiLjhdeKgehbLm4zK9wV3nX8N'',
                       ''Position'', SYSTEM_PROGRAM, ''Wsol''],
       instructions = [\<lparr> program_id_index = 4, accounts = [0, 5], data = le_bytes 4 2 @ le_bytes 8 1000 \<rparr>,
                       \<lparr> program_id_index = 1, accounts = [2, 3, 0],
                         data = discriminator toy_lib ''claim_fee2'' \<rparr>],
       address_table_lookups = [] \<rparr>,
     signatures = [default_signature] \<rparr>"

definition lp_sample_env :: wire_env where
  "lp_sample_env = \<lparr> from_bytes = (\<lambda>raw. if raw = [] then Some sample_lp_tx else None),
     pubkey_text = (\<lambda>_. ''key''), account_data = (\<lambda>_. Inl (ExternalServiceError ''rpc'')) \<rparr>"

lemma sample_lp_accepted:
  "case_sum (\<lambda>_. False) (\<lambda>_. True) (guard_transaction toy_lib sample_plan lp_sample_env ''Owner'' [] 0)"
  by code_simp

theorem guarded_is_liquidity_management_witness:
  "\<exists>g m keys. guard_transaction toy_lib sample_plan lp_sample_env ''Owner'' [] 0 = Inr g \<and>
     tx_message (gt_transaction g) = V0 m \<and> guard_resolve_keys lp_sample_env m = Inr keys"
proof -
  obtain g where g: "guard_transaction toy_lib sample_plan lp_sample_env ''Owner'' [] 0 = Inr g"
    using sample_lp_accepted by (auto split: sum.splits)
  from guarded_is_liquidity_management [OF g] g show ?thesis by blast
qed

text \<open>
  C24 (safety). A guarded transaction is signed by the wallet, at most together
  with one key the plan itself created; its System instructions only move
  lamports from the wallet into the wallet's own wrapped-SOL account, all of
  them together at most what the plan authorised; its token instructions close
  accounts to the wallet at most; and its priority fee is within the cap.
\<close>

theorem guarded_money_stays_with_owner:
  assumes "guard_transaction lib plan env owner encoded cap = Inr g"
  shows "\<exists>m keys. tx_message (gt_transaction g) = V0 m \<and> guard_resolve_keys env m = Inr keys \<and>
    lp_header_ok plan owner (gt_transaction g) m \<and>
    (\<forall>ix \<in> set (instructions m).
       (nth_opt keys (program_id_index ix) = Some SYSTEM_PROGRAM \<longrightarrow> lp_wrap_ok lib keys owner ix) \<and>
       (nth_opt keys (program_id_index ix) \<in> {Some TOKEN_PROGRAM, Some TOKEN_2022_PROGRAM} \<and>
        hd (data ix) = TOKEN_CLOSE_ACCOUNT \<longrightarrow>
          acct keys ix 1 = Some owner \<and> acct keys ix 2 = Some owner)) \<and>
    sum_list (map (wrapped_by keys) (instructions m)) \<le> max_wrap_lamports plan \<and>
    gt_priority_fee_lamports g \<le> cap"
  using assms
proof (rule guard_transaction_Inr)
  fix m keys
  assume m: "tx_message (gt_transaction g) = V0 m" "lp_header_ok plan owner (gt_transaction g) m"
      "guard_resolve_keys env m = Inr keys"
      "sum_list (map (wrapped_by keys) (instructions m)) \<le> max_wrap_lamports plan"
      "gt_priority_fee_lamports g \<le> cap"
    and ok: "\<forall>ix \<in> set (instructions m). lp_instruction_ok lib plan keys owner ix"
  have neq: "TOKEN_SYNC_NATIVE \<noteq> TOKEN_CLOSE_ACCOUNT"
    by (simp add: TOKEN_SYNC_NATIVE_def TOKEN_CLOSE_ACCOUNT_def)
  have "\<forall>ix \<in> set (instructions m).
       (nth_opt keys (program_id_index ix) = Some SYSTEM_PROGRAM \<longrightarrow> lp_wrap_ok lib keys owner ix) \<and>
       (nth_opt keys (program_id_index ix) \<in> {Some TOKEN_PROGRAM, Some TOKEN_2022_PROGRAM} \<and>
        hd (data ix) = TOKEN_CLOSE_ACCOUNT \<longrightarrow>
          acct keys ix 1 = Some owner \<and> acct keys ix 2 = Some owner)"
    using ok neq by (fastforce simp: lp_instruction_ok_def)
  then show ?thesis using m by blast
qed

theorem guarded_money_stays_with_owner_witness:
  "\<exists>g m keys. guard_transaction toy_lib sample_plan lp_sample_env ''Owner'' [] 0 = Inr g \<and>
     tx_message (gt_transaction g) = V0 m \<and> lp_header_ok sample_plan ''Owner'' (gt_transaction g) m \<and>
     sum_list (map (wrapped_by keys) (instructions m)) \<le> 1000"
proof -
  obtain g where g: "guard_transaction toy_lib sample_plan lp_sample_env ''Owner'' [] 0 = Inr g"
    using sample_lp_accepted by (auto split: sum.splits)
  from guarded_money_stays_with_owner [OF g] g show ?thesis by (auto simp: sample_plan_def)
qed

text \<open>
  C25 (safety). The check of a DLMM instruction reads three of its accounts and
  no other: replacing any of the remaining accounts, for instance the token
  accounts a withdrawal or a fee claim pays into or the account a closed
  position returns its rent to, by any other keys never changes the verdict.
  The destination of funds is not part of what the guard checks.
\<close>

theorem dlmm_check_reads_three_accounts:
  assumes "\<forall>i \<in> set_option (lb_pair_index spec) \<union> set_option (position_index spec) \<union>
             set_option (signer_index spec). nth_opt others i = nth_opt (accounts ix) i"
  shows "check_dlmm spec (ix\<lparr>accounts := others\<rparr>) keys owner pools positions =
         check_dlmm spec ix keys owner pools positions"
proof -
  have "account_at e (ix\<lparr>accounts := others\<rparr>) keys i = account_at e ix keys i"
    if "nth_opt others i = nth_opt (accounts ix) i" for e i
    using that by (simp add: account_at_def)
  then show ?thesis
    using assms by (cases "lb_pair_index spec"; cases "position_index spec"; cases "signer_index spec")
      (simp_all add: check_dlmm_def)
qed

theorem dlmm_check_reads_three_accounts_witness:
  "\<forall>keys owner pools positions.
     check_dlmm (mk_spec ''claim_fee2'' (Some 0) (Some 1) (Some 2) ''claim'')
       \<lparr> program_id_index = 1, accounts = [2, 3, 0, 4, 4, 4, 4], data = [] \<rparr> keys owner pools positions =
     check_dlmm (mk_spec ''claim_fee2'' (Some 0) (Some 1) (Some 2) ''claim'')
       \<lparr> program_id_index = 1, accounts = [2, 3, 0, 5, 6, 7, 8], data = [] \<rparr> keys owner pools positions"
  using dlmm_check_reads_three_accounts [where others = "[2, 3, 0, 4, 4, 4, 4]"
      and ix = "\<lparr> program_id_index = 1, accounts = [2, 3, 0, 5, 6, 7, 8], data = [] \<rparr>"
      and spec = "mk_spec ''claim_fee2'' (Some 0) (Some 1) (Some 2) ''claim''"]
  by (simp add: mk_spec_def numeral_2_eq_2)

end
