(* ===== verification/Lots.thy ===== *)
theory Lots
  imports Domain Storage
begin

text \<open>
  Lot generations (\<open>joshibot/shitcoims_sentinel/lots.py\<close>): when a mint's
  lot dies, when a rebuy is a new lot, and when a new bag becomes due for the
  delayed default rule. The record and its operations follow the source; the
  life of a lot under any sequence of operations is the step relation
  \<open>lot_step\<close>, whose reachable records the properties are about.
\<close>

section \<open>Instants and their texts\<close>

text \<open>
  A text field that should hold an ISO instant: \<open>Iso t\<close> when
  \<open>datetime.fromisoformat\<close> accepts it, \<open>Raw s\<close> when it raises
  ValueError.
\<close>

datatype iso_text = Iso stamp | Raw string

fun fromisoformat :: "iso_text \<Rightarrow> stamp option" where
  "fromisoformat (Iso t) = Some t"
| "fromisoformat (Raw s) = None"

text \<open>\<open>a >= b\<close> on datetimes.\<close>

fun stamp_ge :: "stamp \<Rightarrow> stamp \<Rightarrow> bool res" where
  "stamp_ge (Aware a) (Aware b) = Inr (b \<le> a)"
| "stamp_ge (Naive a) (Naive b) = Inr (b \<le> a)"
| "stamp_ge _ _ = Inl (TypeError ''can't compare offset-naive and offset-aware datetimes'')"

text \<open>\<open>now + timedelta(seconds=max(0, seconds))\<close>; a timedelta holds whole microseconds.\<close>

definition micros :: "rat \<Rightarrow> int" where
  "micros seconds = round_half_even (max 0 seconds * 1000000)"

fun stamp_plus :: "stamp \<Rightarrow> int \<Rightarrow> stamp" where
  "stamp_plus (Aware a) d = Aware (a + d)"
| "stamp_plus (Naive a) d = Naive (a + d)"

definition plus_seconds :: "stamp \<Rightarrow> rat \<Rightarrow> iso_text" where
  "plus_seconds now seconds = Iso (stamp_plus now (micros seconds))"

section \<open>The record\<close>

definition DEFAULT_NEW_BAG_PROTECT_DELAY_SECONDS :: rat where
  "DEFAULT_NEW_BAG_PROTECT_DELAY_SECONDS = 600"
definition DEFAULT_NEW_BAG_SL_GRACE_SECONDS :: rat where
  "DEFAULT_NEW_BAG_SL_GRACE_SECONDS = 600"
definition ORIGIN_OPERATOR :: string where
  "ORIGIN_OPERATOR = ''operator''"
definition ORIGIN_DEFAULT :: string where
  "ORIGIN_DEFAULT = ''default''"

record LotRecord =
  lot_mint :: string
  generation :: int
  opened_at :: "iso_text option"
  flat_since :: "iso_text option"
  auto_protect_after :: "iso_text option"
  auto_protect_skipped :: bool
  origin :: "string option"
  needs_basis :: bool
  sl_live_after :: "iso_text option"

definition is_flat :: "LotRecord \<Rightarrow> bool" where
  "is_flat r \<longleftrightarrow> flat_since r \<noteq> None"

definition empty_runtime_state :: PositionState where
  "empty_runtime_state = initial_PositionState"

text \<open>\<open>int(v)\<close>; \<open>None\<close> is the ValueError or TypeError the callers catch.\<close>

fun int_of_json :: "json \<Rightarrow> int option" where
  "int_of_json (JInt i) = Some i"
| "int_of_json (JBool b) = Some (if b then 1 else 0)"
| "int_of_json (JReal r) = Some (dint r)"
| "int_of_json (JDec d) = (if d = of_int \<lfloor>d\<rfloor> then Some \<lfloor>d\<rfloor> else None)"
| "int_of_json _ = None"

text \<open>\<open>d.get(k, default)\<close>.\<close>

definition jget_or :: "string \<Rightarrow> json \<Rightarrow> obj \<Rightarrow> json" where
  "jget_or k d m = (case map_of m k of Some v \<Rightarrow> v | None \<Rightarrow> d)"

fun iso :: "json \<Rightarrow> iso_text option" where
  "iso (JStamp t) = Some (Iso t)"
| "iso _ = None"

definition as_object :: "json \<Rightarrow> obj" where
  "as_object raw = (case obj_of raw of Some m \<Rightarrow> m | None \<Rightarrow> [])"

definition known_origin :: "json \<Rightarrow> string option" where
  "known_origin v =
     (if v = JStr ORIGIN_OPERATOR then Some ORIGIN_OPERATOR
      else if v = JStr ORIGIN_DEFAULT then Some ORIGIN_DEFAULT else None)"

definition record_from_mapping :: "string \<Rightarrow> json \<Rightarrow> LotRecord" where
  "record_from_mapping mint raw =
     (let data = as_object raw;
          generation_int = (case int_of_json (jget_or ''generation'' (JInt 0) data) of
                              Some g \<Rightarrow> g | None \<Rightarrow> 0)
      in \<lparr> lot_mint = mint,
           generation = max generation_int 0,
           opened_at = iso (jget ''opened_at'' data),
           flat_since = iso (jget ''flat_since'' data),
           auto_protect_after = iso (jget ''auto_protect_after'' data),
           auto_protect_skipped = truthy (jget_or ''auto_protect_skipped'' (JBool False) data),
           origin = known_origin (jget ''origin'' data),
           needs_basis = truthy (jget_or ''needs_basis'' (JBool False) data),
           sl_live_after = iso (jget ''sl_live_after'' data) \<rparr>)"

section \<open>Operations\<close>

definition retire :: "LotRecord \<Rightarrow> stamp \<Rightarrow> LotRecord" where
  "retire record now =
     (let origin' = (if origin record = Some ORIGIN_OPERATOR then origin record else None)
      in \<lparr> lot_mint = lot_mint record,
           generation = generation record,
           opened_at = None,
           flat_since = Some (Iso now),
           auto_protect_after = None,
           auto_protect_skipped = False,
           origin = origin',
           needs_basis = (origin' = Some ORIGIN_OPERATOR \<or> origin record = None),
           sl_live_after = None \<rparr>)"

definition is_unscheduled_ghost :: "LotRecord \<Rightarrow> bool" where
  "is_unscheduled_ghost r \<longleftrightarrow>
     origin r = None \<and> \<not> auto_protect_skipped r \<and> auto_protect_after r = None \<and> opened_at r = None"

definition note_seen :: "LotRecord option \<Rightarrow> string \<Rightarrow> rat \<Rightarrow> stamp \<Rightarrow> LotRecord \<times> bool" where
  "note_seen record mint delay_seconds observed =
     (let new = \<lambda>g. \<lparr> lot_mint = mint, generation = g, opened_at = Some (Iso observed),
                flat_since = None, auto_protect_after = Some (plus_seconds observed delay_seconds),
                auto_protect_skipped = False, origin = None, needs_basis = False,
                sl_live_after = None \<rparr>
      in case record of
           None \<Rightarrow> (new 1, True)
         | Some r \<Rightarrow>
             if is_flat r \<or> is_unscheduled_ghost r then (new (max (generation r) 0 + 1), True)
             else (r, False))"

definition reopen_held :: "LotRecord \<Rightarrow> stamp \<Rightarrow> LotRecord" where
  "reopen_held record now =
     (if \<not> is_flat record then record
      else \<lparr> lot_mint = lot_mint record,
             generation = generation record + 1,
             opened_at = Some (Iso now),
             flat_since = None,
             auto_protect_after = None,
             auto_protect_skipped = True,
             origin = origin record,
             needs_basis = True,
             sl_live_after = None \<rparr>)"

definition basis_applied :: "LotRecord \<Rightarrow> LotRecord" where
  "basis_applied record = record\<lparr>needs_basis := False\<rparr>"

definition due_for_default :: "LotRecord option \<Rightarrow> stamp \<Rightarrow> bool res" where
  "due_for_default record now =
     (case record of
        None \<Rightarrow> Inr False
      | Some r \<Rightarrow>
          if auto_protect_skipped r \<or> origin r \<noteq> None then Inr False
          else case auto_protect_after r of
                 None \<Rightarrow> Inr False
               | Some text \<Rightarrow> (case fromisoformat text of
                                  None \<Rightarrow> Inr False
                                | Some deadline \<Rightarrow> stamp_ge now deadline))"

definition mark_origin :: "LotRecord \<Rightarrow> string \<Rightarrow> stamp \<Rightarrow> rat option \<Rightarrow> LotRecord res" where
  "mark_origin record new_origin observed sl_grace_seconds =
     (if new_origin \<notin> {ORIGIN_OPERATOR, ORIGIN_DEFAULT}
      then Inl (ValueError ''lot origin must be operator or default'')
      else
        let sl_live =
              (if new_origin = ORIGIN_DEFAULT
               then let grace = (case sl_grace_seconds of None \<Rightarrow> DEFAULT_NEW_BAG_SL_GRACE_SECONDS
                                                        | Some g \<Rightarrow> g)
                    in if 0 < grace then Some (plus_seconds observed grace) else None
               else None)
        in Inr \<lparr> lot_mint = lot_mint record,
                 generation = max (generation record) 1,
                 opened_at = opened_at record,
                 flat_since = None,
                 auto_protect_after = auto_protect_after record,
                 auto_protect_skipped = (new_origin = ORIGIN_OPERATOR \<or> auto_protect_skipped record),
                 origin = Some new_origin,
                 needs_basis = needs_basis record,
                 sl_live_after = sl_live \<rparr>)"

definition skip_auto :: "LotRecord \<Rightarrow> LotRecord" where
  "skip_auto record = record\<lparr>auto_protect_skipped := True\<rparr>"

fun json_of_iso :: "iso_text option \<Rightarrow> json" where
  "json_of_iso None = JNull"
| "json_of_iso (Some (Iso t)) = JStamp t"
| "json_of_iso (Some (Raw s)) = JStr s"

definition to_mapping :: "LotRecord \<Rightarrow> json" where
  "to_mapping r = JObj
     [(''generation'', JInt (generation r)),
      (''opened_at'', json_of_iso (opened_at r)),
      (''flat_since'', json_of_iso (flat_since r)),
      (''auto_protect_after'', json_of_iso (auto_protect_after r)),
      (''auto_protect_skipped'', JBool (auto_protect_skipped r)),
      (''origin'', case origin r of None \<Rightarrow> JNull | Some s \<Rightarrow> JStr s),
      (''needs_basis'', JBool (needs_basis r)),
      (''sl_live_after'', json_of_iso (sl_live_after r))]"

definition sl_is_live :: "LotRecord option \<Rightarrow> stamp \<Rightarrow> bool res" where
  "sl_is_live record now =
     (case record of
        None \<Rightarrow> Inr True
      | Some r \<Rightarrow>
          (case sl_live_after r of
             None \<Rightarrow> Inr True
           | Some text \<Rightarrow> (case fromisoformat text of
                              None \<Rightarrow> Inr False
                            | Some deadline \<Rightarrow> stamp_ge now deadline)))"

section \<open>The life of a lot\<close>

text \<open>
  The operations the engine applies to a stored lot, on an aware clock. A
  default rule is stamped only on a lot that is due for it
  (\<open>_schedule_and_apply_defaults\<close>); everything else may happen at any time.
\<close>

datatype lot_op =
    Seen
  | Flat
  | Reopen
  | Basis_applied
  | Operator_rule
  | Default_rule
  | Skip

definition lot_apply :: "lot_op \<Rightarrow> int \<Rightarrow> LotRecord \<Rightarrow> LotRecord res" where
  "lot_apply op now r =
     (case op of
        Seen \<Rightarrow> Inr (fst (note_seen (Some r) (lot_mint r) DEFAULT_NEW_BAG_PROTECT_DELAY_SECONDS (Aware now)))
      | Flat \<Rightarrow> Inr (retire r (Aware now))
      | Reopen \<Rightarrow> Inr (reopen_held r (Aware now))
      | Basis_applied \<Rightarrow> Inr (basis_applied r)
      | Operator_rule \<Rightarrow> mark_origin r ORIGIN_OPERATOR (Aware now) None
      | Default_rule \<Rightarrow> mark_origin r ORIGIN_DEFAULT (Aware now) None
      | Skip \<Rightarrow> Inr (skip_auto r))"

inductive lot_step :: "LotRecord \<Rightarrow> lot_op \<Rightarrow> LotRecord \<Rightarrow> bool" where
  lot_step_any: "op \<noteq> Default_rule \<Longrightarrow> lot_apply op now r = Inr r' \<Longrightarrow> lot_step r op r'"
| lot_step_default:
    "due_for_default (Some r) (Aware now) = Inr True \<Longrightarrow> lot_apply Default_rule now r = Inr r' \<Longrightarrow>
     lot_step r Default_rule r'"

inductive_cases lot_stepE: "lot_step r op r'"

text \<open>Everything a mint's row can become, starting from a mint the state file does not know.\<close>

inductive lot_reachable :: "string \<Rightarrow> LotRecord \<Rightarrow> bool" for mint where
  unknown: "lot_reachable mint (record_from_mapping mint (JObj []))"
| step: "lot_reachable mint r \<Longrightarrow> lot_step r op r' \<Longrightarrow> lot_reachable mint r'"

fun aware_text :: "iso_text option \<Rightarrow> bool" where
  "aware_text None = True"
| "aware_text (Some (Iso (Aware t))) = True"
| "aware_text _ = False"

lemma aware_text_cases: "aware_text x \<Longrightarrow> x = None \<or> (\<exists>t. x = Some (Iso (Aware t)))"
  by (cases x rule: aware_text.cases) auto

text \<open>
  The record invariant: stamps are aware ISO texts, the origin is one of the
  two known ones, the protection deadline is the opening instant plus the delay.
\<close>

definition lot_inv :: "LotRecord \<Rightarrow> bool" where
  "lot_inv r \<longleftrightarrow>
     0 \<le> generation r \<and>
     aware_text (opened_at r) \<and> aware_text (flat_since r) \<and>
     aware_text (auto_protect_after r) \<and> aware_text (sl_live_after r) \<and>
     (origin r = None \<or> origin r = Some ORIGIN_OPERATOR \<or> origin r = Some ORIGIN_DEFAULT) \<and>
     (\<forall>a. auto_protect_after r = Some (Iso (Aware a)) \<longrightarrow>
        opened_at r = Some (Iso (Aware (a - 600000000))) \<and> 1 \<le> generation r) \<and>
     (sl_live_after r \<noteq> None \<longrightarrow> origin r = Some ORIGIN_DEFAULT) \<and>
     (is_flat r \<longrightarrow> auto_protect_after r = None \<and> opened_at r = None)"

lemma micros_delay [simp]:
  "micros DEFAULT_NEW_BAG_PROTECT_DELAY_SECONDS = 600000000"
  "micros DEFAULT_NEW_BAG_SL_GRACE_SECONDS = 600000000"
  by (simp_all add: micros_def round_half_even_def Let_def DEFAULT_NEW_BAG_PROTECT_DELAY_SECONDS_def
      DEFAULT_NEW_BAG_SL_GRACE_SECONDS_def)

lemma origins_distinct [simp]: "ORIGIN_OPERATOR \<noteq> ORIGIN_DEFAULT" "ORIGIN_DEFAULT \<noteq> ORIGIN_OPERATOR"
  by (simp_all add: ORIGIN_OPERATOR_def ORIGIN_DEFAULT_def)

lemmas lot_ops = note_seen_def retire_def reopen_held_def basis_applied_def mark_origin_def
  skip_auto_def is_flat_def plus_seconds_def Let_def

lemma lot_inv_unknown: "lot_inv (record_from_mapping mint (JObj []))"
  by (simp add: lot_inv_def record_from_mapping_def as_object_def jget_def jget_or_def Let_def
      known_origin_def is_flat_def)

lemma lot_inv_seen: "lot_inv r \<Longrightarrow> lot_inv (fst (note_seen (Some r) mint DEFAULT_NEW_BAG_PROTECT_DELAY_SECONDS (Aware now)))"
  by (simp add: lot_inv_def note_seen_def plus_seconds_def is_flat_def Let_def)

lemma lot_inv_retire: "lot_inv r \<Longrightarrow> lot_inv (retire r (Aware now))"
  by (simp add: lot_inv_def retire_def is_flat_def Let_def)

lemma lot_inv_reopen: "lot_inv r \<Longrightarrow> lot_inv (reopen_held r (Aware now))"
  by (cases r) (simp add: lot_inv_def reopen_held_def is_flat_def)

lemma lot_inv_mark: "lot_inv r \<Longrightarrow> mark_origin r orig (Aware now) None = Inr r' \<Longrightarrow> lot_inv r'"
  by (cases r) (auto simp: lot_inv_def mark_origin_def is_flat_def plus_seconds_def Let_def
      DEFAULT_NEW_BAG_SL_GRACE_SECONDS_def split: if_splits)

lemma lot_inv_flags: "lot_inv r \<Longrightarrow> lot_inv (basis_applied r)" "lot_inv r \<Longrightarrow> lot_inv (skip_auto r)"
  by (cases r; simp add: lot_inv_def basis_applied_def skip_auto_def is_flat_def)+

lemma lot_inv_apply:
  assumes "lot_inv r" "lot_apply op now r = Inr r'"
  shows "lot_inv r'"
  using assms lot_inv_mark
  by (cases op) (auto simp: lot_apply_def lot_inv_seen lot_inv_retire lot_inv_reopen lot_inv_flags)

lemma lot_inv_step: "lot_step r op r' \<Longrightarrow> lot_inv r \<Longrightarrow> lot_inv r'"
  by (auto elim!: lot_stepE intro: lot_inv_apply)

lemma lot_inv_reachable: "lot_reachable mint r \<Longrightarrow> lot_inv r"
  by (induction rule: lot_reachable.induct) (auto intro: lot_inv_unknown lot_inv_step)

lemma lot_mint_reachable: "lot_reachable mint r \<Longrightarrow> lot_mint r = mint"
  by (induction rule: lot_reachable.induct)
    (auto elim!: lot_stepE simp: record_from_mapping_def lot_apply_def lot_ops
      split: lot_op.splits if_splits)

section \<open>What the lot lifecycle promises\<close>

lemma generation_apply:
  assumes "lot_inv r" "lot_apply op now r = Inr r'"
  shows "generation r \<le> generation r' \<and>
    (is_flat r \<and> op \<in> {Seen, Reopen} \<longrightarrow> generation r' = generation r + 1 \<and> \<not> is_flat r')"
  using assms by (cases op) (auto simp: lot_inv_def lot_apply_def lot_ops split: if_splits)

text \<open>
  In every life of a lot the generation never decreases, and
  whenever a flat lot is seen held again (an unmonitored bag or a configured
  one) it becomes exactly the next generation: a rebuy never shares a
  generation with the bag that was sold.
\<close>

lemma rebuy_is_a_new_generation:
  assumes "lot_reachable mint r" "lot_step r op r'"
  shows "generation r \<le> generation r' \<and>
    (is_flat r \<and> op \<in> {Seen, Reopen} \<longrightarrow> generation r' = generation r + 1 \<and> \<not> is_flat r')"
  using assms(2) generation_apply [OF lot_inv_reachable [OF assms(1)]] by (auto elim!: lot_stepE)

definition held_lot :: LotRecord where
  "held_lot = fst (note_seen (Some (record_from_mapping ''MintA'' (JObj []))) ''MintA''
     DEFAULT_NEW_BAG_PROTECT_DELAY_SECONDS (Aware 0))"

lemma held_lot_eval: "held_lot = \<lparr> lot_mint = ''MintA'', generation = 1, opened_at = Some (Iso (Aware 0)),
    flat_since = None, auto_protect_after = Some (Iso (Aware 600000000)), auto_protect_skipped = False,
    origin = None, needs_basis = False, sl_live_after = None \<rparr>"
  by (simp add: held_lot_def note_seen_def record_from_mapping_def as_object_def jget_def jget_or_def
      known_origin_def is_flat_def is_unscheduled_ghost_def plus_seconds_def Let_def)

lemma held_lot_reachable: "lot_reachable ''MintA'' held_lot"
proof (rule lot_reachable.step [OF lot_reachable.unknown])
  show "lot_step (record_from_mapping ''MintA'' (JObj [])) Seen held_lot"
    by (rule lot_step_any [where now = 0]) (simp_all add: lot_apply_def held_lot_def record_from_mapping_def Let_def)
qed

text \<open>
  No lot, whatever happened to it before, is due for the default
  rule earlier than ten minutes after the instant its current generation was
  opened; and asking whether it is due, or whether its stop is live, never
  raises.
\<close>

lemma default_waits_out_the_delay:
  assumes "lot_reachable mint r"
  shows "(\<exists>b. due_for_default (Some r) (Aware now) = Inr b) \<and>
    (\<exists>b. sl_is_live (Some r) (Aware now) = Inr b) \<and>
    (due_for_default (Some r) (Aware now) = Inr True \<longrightarrow>
      (\<exists>t. opened_at r = Some (Iso (Aware t)) \<and> t + 600 * 1000000 \<le> now) \<and>
      \<not> is_flat r \<and> origin r = None \<and> \<not> auto_protect_skipped r)"
proof -
  have inv: "lot_inv r" by (rule lot_inv_reachable [OF assms])
  then have "aware_text (auto_protect_after r)" "aware_text (sl_live_after r)"
    by (simp_all add: lot_inv_def)
  then show ?thesis
    using inv aware_text_cases [of "auto_protect_after r"] aware_text_cases [of "sl_live_after r"]
    by (auto simp: due_for_default_def sl_is_live_def lot_inv_def)
qed

text \<open>
  Every record a lot can reach is read back from the state file
  exactly as it was written.
\<close>

lemma lot_mapping_roundtrip:
  assumes "lot_reachable mint r"
  shows "record_from_mapping mint (to_mapping r) = r"
proof -
  have inv: "lot_inv r" and m: "lot_mint r = mint"
    using assms lot_inv_reachable lot_mint_reachable by auto
  have iso: "iso (json_of_iso x) = x" if "aware_text x" for x
    using aware_text_cases [OF that] by auto
  have orig: "known_origin (case origin r of None \<Rightarrow> JNull | Some s \<Rightarrow> JStr s) = origin r"
    using inv by (auto simp: lot_inv_def known_origin_def)
  show ?thesis
    using inv m by (simp add: record_from_mapping_def to_mapping_def as_object_def jget_def jget_or_def
        Let_def lot_inv_def iso orig)
qed

text \<open>
  A bag that goes flat keeps nothing of a default rule: no
  origin, no pending protection, no stop grace; seen again it waits its full
  delay. An operator's rule keeps its origin but must find a new basis.
\<close>

lemma flat_lot_forgets_default_rule:
  assumes "lot_reachable mint r" "lot_step r Flat r'"
  shows "is_flat r' \<and> origin r' \<noteq> Some ORIGIN_DEFAULT \<and> sl_live_after r' = None \<and>
    due_for_default (Some r') (Aware now) = Inr False \<and>
    (origin r' = Some ORIGIN_OPERATOR \<longleftrightarrow> origin r = Some ORIGIN_OPERATOR) \<and>
    (origin r' = Some ORIGIN_OPERATOR \<longrightarrow> needs_basis r')"
  using assms(2) lot_inv_reachable [OF assms(1)]
  by (auto elim!: lot_stepE simp: lot_apply_def retire_def is_flat_def due_for_default_def
      lot_inv_def Let_def)

end
