(* ===== verification/Clients.thy ===== *)
theory Clients
  imports Lots Wire "HOL-Library.List_Lexorder" "HOL-Library.Char_ord"
begin

text \<open>
  The reading side of the service clients
  (\<open>joshibot/shitcoims_sentinel/clients.py\<close>): what \<open>SolanaRpc\<close> and
  \<open>JupiterClient\<close> accept of the JSON the services return. The transport
  (HTTP, retries) is outside; a function below takes the decoded result of the
  call. Texts that are numbers are \<open>JDec\<close>, all others \<open>JStr\<close>.
\<close>

section \<open>Python on JSON values\<close>

function pos_text :: "int \<Rightarrow> string" where
  "pos_text n = (if n < 10 then [digit_char (nat n)] else pos_text (n div 10) @ [digit_char (nat (n mod 10))])"
  by pat_completeness auto
termination by (relation "measure nat") auto

declare pos_text.simps [simp del]

definition int_text :: "int \<Rightarrow> string" where
  "int_text i = (if i < 0 then ''-'' @ pos_text (- i) else pos_text i)"

text \<open>
  \<open>str(v)\<close>. The texts of instants and containers are placeholders: no field
  the clients or the executor turn into text holds one.
\<close>

fun json_text :: "json \<Rightarrow> string" where
  "json_text JNull = ''None''"
| "json_text (JBool b) = (if b then ''True'' else ''False'')"
| "json_text (JInt i) = int_text i"
| "json_text (JReal r) = rung_key r"
| "json_text (JStr s) = s"
| "json_text (JDec d) = rung_key d"
| "json_text (JStamp t) = ''<datetime>''"
| "json_text (JList xs) = ''<list>''"
| "json_text (JObj m) = ''<dict>''"

lemma nat_text_nonempty [simp]: "nat_text n \<noteq> []"
  by (subst nat_text.simps) simp

lemma pos_text_nonempty [simp]: "pos_text n \<noteq> []"
  by (subst pos_text.simps) simp

lemma json_text_nonempty: "truthy v \<Longrightarrow> json_text v \<noteq> []"
  by (cases v) (auto simp: int_text_def rung_key_def Let_def simp del: nat_text.simps)

text \<open>\<open>sep.join(xs)\<close>.\<close>

fun join_with :: "string \<Rightarrow> string list \<Rightarrow> string" where
  "join_with sep [] = []"
| "join_with sep [x] = x"
| "join_with sep (x # y # xs) = x @ sep @ join_with sep (y # xs)"

text \<open>\<open>v[k]\<close> with a text key.\<close>

definition item :: "string \<Rightarrow> json \<Rightarrow> json res" where
  "item k v =
     (case v of
        JObj m \<Rightarrow> (case map_of m k of Some w \<Rightarrow> Inr w | None \<Rightarrow> Inl (KeyError k))
      | _ \<Rightarrow> Inl (TypeError ''not subscriptable by a text key''))"

text \<open>\<open>int(v)\<close>, raising.\<close>

definition int_value :: "json \<Rightarrow> int res" where
  "int_value v = (case int_of_json v of Some i \<Rightarrow> Inr i | None \<Rightarrow> Inl (ValueError ''int()''))"

text \<open>\<open>try: m except (KeyError, TypeError, ValueError): raise e\<close>.\<close>

fun parse_error :: "py_exc \<Rightarrow> bool" where
  "parse_error (KeyError _) = True"
| "parse_error (TypeError _) = True"
| "parse_error (ValueError _) = True"
| "parse_error _ = False"

definition reading :: "py_exc \<Rightarrow> 'a res \<Rightarrow> 'a res" where
  "reading e m = (case m of Inl x \<Rightarrow> Inl (if parse_error x then e else x) | Inr v \<Rightarrow> Inr v)"

lemma reading_Inr [simp]: "reading e m = Inr v \<longleftrightarrow> m = Inr v"
  by (cases m) (auto simp: reading_def)

section \<open>Exit tolerance\<close>

definition TIGHT_EXIT_SLIPPAGE_BPS :: int where
  "TIGHT_EXIT_SLIPPAGE_BPS = 250"
definition WIDE_EXIT_REASONS :: "string list" where
  "WIDE_EXIT_REASONS = [''panic'', ''exit_rug'']"

text \<open>The argument is the configured ceiling \<open>jupiter.slippage_bps\<close>; the config has no \<open>exit_slippage_bps\<close>.\<close>

definition exit_slippage_bps :: "string \<Rightarrow> int \<Rightarrow> int" where
  "exit_slippage_bps reason ceil_bps =
     (if reason \<in> set WIDE_EXIT_REASONS then ceil_bps
      else max 1 (min TIGHT_EXIT_SLIPPAGE_BPS ceil_bps))"

definition minimum_output_floor :: "int \<Rightarrow> int \<Rightarrow> int" where
  "minimum_output_floor expected_output slippage_bps = expected_output * (10000 - slippage_bps) div 10000"

section \<open>Solana RPC\<close>

definition sol_balance :: "json \<Rightarrow> int res" where
  "sol_balance result = rbind (item ''value'' result) int_value"

definition confirmed_slot :: "json \<Rightarrow> int res" where
  "confirmed_slot result =
     rbind (reading (ExternalServiceError ''Helius returned a malformed confirmed slot'') (int_value result)) (\<lambda>slot.
       if slot < 0 then Inl (ExternalServiceError ''Helius returned a malformed confirmed slot'') else Inr slot)"

text \<open>One entry per mint while the accounts are grouped.\<close>

record group =
  g_amount :: int
  g_decimals :: "int option"
  g_accounts :: "string list"
  g_programs :: "string list"

definition empty_group :: group where
  "empty_group = \<lparr> g_amount = 0, g_decimals = None, g_accounts = [], g_programs = [] \<rparr>"

definition token_account :: "json \<Rightarrow> (string \<times> int \<times> int) res" where
  "token_account keyed =
     reading (ExternalServiceError ''Helius returned malformed token account data'')
       (rbind (item ''account'' keyed) (\<lambda>account.
        rbind (item ''data'' account) (\<lambda>dt.
        rbind (item ''parsed'' dt) (\<lambda>parsed.
        rbind (item ''info'' parsed) (\<lambda>info.
        rbind (item ''tokenAmount'' info) (\<lambda>token_amount.
        rbind (item ''mint'' info) (\<lambda>mint.
        rbind (rbind (item ''amount'' token_amount) int_value) (\<lambda>amount.
        rbind (rbind (item ''decimals'' token_amount) int_value) (\<lambda>decimals.
          Inr (json_text mint, amount, decimals))))))))))"

definition group_account ::
  "string \<Rightarrow> json \<Rightarrow> (string \<times> group) list \<Rightarrow> (string \<times> group) list res" where
  "group_account program keyed grouped =
     rbind (token_account keyed) (\<lambda>(mint, amount, decimals).
       if amount = 0 \<or> mint = WSOL_MINT then Inr grouped
       else
         let entry = (case map_of grouped mint of Some g \<Rightarrow> g | None \<Rightarrow> empty_group)
         in if g_decimals entry \<noteq> None \<and> g_decimals entry \<noteq> Some decimals
            then Inl (ExternalServiceError ''inconsistent decimals across token accounts'')
            else rbind (item ''pubkey'' keyed) (\<lambda>key.
                   Inr (AList.update mint
                          \<lparr> g_amount = g_amount entry + amount, g_decimals = Some decimals,
                            g_accounts = g_accounts entry @ [json_text key],
                            g_programs = g_programs entry @ [program] \<rparr> grouped)))"

text \<open>\<open>result.get("value", [])\<close> and the iteration over it.\<close>

definition value_list :: "json \<Rightarrow> json list res" where
  "value_list result =
     (case obj_of result of
        None \<Rightarrow> Inl (OtherError ''AttributeError'')
      | Some m \<Rightarrow> (case jget_or ''value'' (JList []) m of
                       JList xs \<Rightarrow> Inr xs
                     | _ \<Rightarrow> Inl (TypeError ''value is not a list'')))"

definition holding_of_group :: "string \<times> group \<Rightarrow> TokenHolding" where
  "holding_of_group e =
     \<lparr> th_mint = fst e, th_amount = g_amount (snd e),
       th_decimals = (case g_decimals (snd e) of Some d \<Rightarrow> nat d | None \<Rightarrow> 0),
       th_token_accounts = g_accounts (snd e), th_program_ids = sort (remdups (g_programs (snd e))) \<rparr>"

text \<open>The argument answers \<open>getTokenAccountsByOwner\<close> for one token program.\<close>

definition token_holdings :: "(string \<Rightarrow> json res) \<Rightarrow> TokenHolding list res" where
  "token_holdings call =
     rbind (rfold (\<lambda>program grouped.
              rbind (call program) (\<lambda>result.
              rbind (value_list result) (\<lambda>xs. rfold (group_account program) xs grouped)))
            [TOKEN_PROGRAM, TOKEN_2022_PROGRAM] [])
       (\<lambda>grouped. Inr (map holding_of_group (sort_key fst grouped)))"

definition optional_text :: "json \<Rightarrow> string option" where
  "optional_text v = (if v = JNull then None else Some (json_text v))"

definition mint_safety :: "json \<Rightarrow> MintSafety res" where
  "mint_safety result =
     (case obj_of result of
        None \<Rightarrow> Inl (OtherError ''AttributeError'')
      | Some m \<Rightarrow>
          let val = jget ''value'' m
          in reading (ExternalServiceError ''cannot parse mint account'')
               (rbind (item ''data'' val) (\<lambda>dt.
                rbind (item ''parsed'' dt) (\<lambda>parsed.
                rbind (item ''info'' parsed) (\<lambda>info.
                rbind (case obj_of info of Some i \<Rightarrow> Inr i | None \<Rightarrow> Inl (OtherError ''AttributeError'')) (\<lambda>i.
                rbind (rbind (item ''supply'' info) int_value) (\<lambda>supply.
                rbind (rbind (item ''decimals'' info) int_value) (\<lambda>decimals.
                rbind (item ''owner'' val) (\<lambda>owner.
                  Inr \<lparr> ms_mint_authority = optional_text (jget ''mintAuthority'' i),
                        ms_freeze_authority = optional_text (jget ''freezeAuthority'' i),
                        ms_supply = supply, ms_decimals = nat decimals,
                        ms_token_program = json_text owner \<rparr>)))))))))"

definition signature_status :: "json \<Rightarrow> string res" where
  "signature_status result =
     (case obj_of result of
        None \<Rightarrow> Inl (ExternalServiceError ''Helius returned malformed signature status data'')
      | Some m \<Rightarrow>
          (case jget ''value'' m of
             JList [status] \<Rightarrow>
               if status = JNull then Inr ''unknown''
               else (case obj_of status of
                       None \<Rightarrow> Inl (OtherError ''AttributeError'')
                     | Some st \<Rightarrow>
                         if jget ''err'' st \<noteq> JNull then Inr ''failed''
                         else if jget ''confirmationStatus'' st \<in> {JStr ''confirmed'', JStr ''finalized''}
                         then Inr ''confirmed''
                         else Inr ''pending'')
           | _ \<Rightarrow> Inl (ExternalServiceError ''Helius returned malformed signature status data'')))"

definition blockhash_valid :: "json \<Rightarrow> bool res" where
  "blockhash_valid result =
     (case map_option (jget ''value'') (obj_of result) of
        Some (JBool b) \<Rightarrow> Inr b
      | _ \<Rightarrow> Inl (ExternalServiceError ''Helius returned malformed blockhash validity data''))"

definition SIMULATION_ADDRESS_LIMIT :: nat where
  "SIMULATION_ADDRESS_LIMIT = 32"

text \<open>The argument \<open>call\<close> performs \<open>simulateTransaction\<close>, once the address set is accepted.\<close>

definition simulate_transaction_accounts :: "json res \<Rightarrow> string list \<Rightarrow> obj res" where
  "simulate_transaction_accounts call addresses =
     (if addresses = [] then Inl (ExternalServiceError ''simulation account set is empty'')
      else if \<not> distinct addresses
      then Inl (ExternalServiceError ''simulation account set contains duplicate addresses'')
      else if SIMULATION_ADDRESS_LIMIT < length addresses
      then Inl (ExternalServiceError ''simulation account set exceeds the address ceiling'')
      else rbind call (\<lambda>result.
        case Option.bind (obj_of result) (\<lambda>m. obj_of (jget ''value'' m)) of
          None \<Rightarrow> Inl (ExternalServiceError ''Helius returned malformed simulation data'')
        | Some val \<Rightarrow>
            if jget ''err'' val \<noteq> JNull
            then Inl (ExternalServiceError ''exit transaction simulation failed'')
            else (case jget ''accounts'' val of
                    JList xs \<Rightarrow>
                      if length xs \<noteq> length addresses
                      then Inl (ExternalServiceError ''exit transaction simulation omitted requested accounts'')
                      else Inr [(''accounts'', JList xs), (''units_consumed'', jget ''unitsConsumed'' val)]
                  | _ \<Rightarrow> Inl (ExternalServiceError ''exit transaction simulation omitted requested accounts''))))"

section \<open>Jupiter\<close>

text \<open>The check on the body of an order response.\<close>

definition order_body :: "json \<Rightarrow> obj res" where
  "order_body body =
     (case obj_of body of
        None \<Rightarrow> Inl (ExternalServiceError ''Jupiter order failed with code malformed'')
      | Some m \<Rightarrow> if truthy (jget ''errorCode'' m)
                    then Inl (ExternalServiceError ''Jupiter order failed'')
                    else Inr m)"

text \<open>The order is for this mint, into wrapped SOL, for exactly this amount.\<close>

definition matches_intent :: "string \<Rightarrow> int \<Rightarrow> obj \<Rightarrow> bool res" where
  "matches_intent mint amount m =
     (if json_text (jget ''inputMint'' m) \<noteq> mint \<or> json_text (jget ''outputMint'' m) \<noteq> WSOL_MINT then Inr False
      else rbind (int_value (jget_or ''inAmount'' (JInt (-1)) m)) (\<lambda>i. Inr (i = amount)))"

definition quote_exit :: "string \<Rightarrow> int \<Rightarrow> int \<Rightarrow> json \<Rightarrow> ExitQuote res" where
  "quote_exit mint amount now raw =
     rbind (order_body raw) (\<lambda>m.
     rbind (reading (ExternalServiceError ''Jupiter returned a malformed quote'')
              (rbind (item ''outAmount'' (JObj m)) int_value)) (\<lambda>out_amount.
     rbind (matches_intent mint amount m) (\<lambda>ok.
     rbind (rguard ok (ExternalServiceError ''Jupiter quote does not match the exit intent'')) (\<lambda>_.
     rbind (rguard (jget ''router'' m = JStr ''metis'')
              (ExternalServiceError ''Jupiter quote did not use the required Metis router'')) (\<lambda>_.
     let threshold_raw = jget ''otherAmountThreshold'' m; impact_raw = jget ''priceImpactPct'' m
     in rbind (if threshold_raw = JNull
               then Inl (ExternalServiceError ''Jupiter quote returned an invalid minimum output'')
               else int_value threshold_raw) (\<lambda>threshold.
        rbind (rguard (0 < threshold \<and> threshold \<le> out_amount)
                 (ExternalServiceError ''Jupiter quote returned an invalid minimum output'')) (\<lambda>_.
        rbind (case impact_raw of
                 JNull \<Rightarrow> Inr None
               | JDec d \<Rightarrow> Inr (Some d)
               | JInt i \<Rightarrow> Inr (Some (of_int i))
               | JReal r \<Rightarrow> Inr (Some r)
               | _ \<Rightarrow> Inl (ValueError ''priceImpactPct must be a decimal'')) (\<lambda>impact.
          Inr \<lparr> eq_input_mint = mint, eq_input_amount = amount, eq_out_lamports = out_amount,
                eq_minimum_out_lamports = Some threshold, eq_price_impact_pct = impact,
                eq_router = Some ''metis'', eq_received_at = now \<rparr>))))))))"

definition executable_order :: "string \<Rightarrow> int \<Rightarrow> int \<Rightarrow> json \<Rightarrow> obj res" where
  "executable_order mint amount requested_slippage raw =
     rbind (order_body raw) (\<lambda>m.
     rbind (rguard (truthy (jget ''transaction'' m) \<and> truthy (jget ''requestId'' m))
              (ExternalServiceError ''Jupiter quoted but did not produce an executable transaction'')) (\<lambda>_.
     rbind (matches_intent mint amount m) (\<lambda>ok.
     rbind (rguard ok (ExternalServiceError ''Jupiter executable order does not match the exit intent'')) (\<lambda>_.
     rbind (rguard (jget ''router'' m = JStr ''metis'')
              (ExternalServiceError ''Jupiter executable order did not use the required Metis router'')) (\<lambda>_.
     rbind (reading (ExternalServiceError ''Jupiter executable order omitted output constraints'')
              (rbind (rbind (item ''outAmount'' (JObj m)) int_value) (\<lambda>out_amount.
               rbind (rbind (item ''otherAmountThreshold'' (JObj m)) int_value) (\<lambda>minimum_output.
                 Inr (out_amount, minimum_output))))) (\<lambda>(out_amount, minimum_output).
     rbind (rguard (0 < minimum_output \<and> minimum_output \<le> out_amount)
              (ExternalServiceError ''Jupiter executable order returned invalid output constraints'')) (\<lambda>_.
     rbind (rguard (minimum_output_floor out_amount requested_slippage \<le> minimum_output)
              (ExternalServiceError ''Jupiter executable order minimum output is below the floor'')) (\<lambda>_.
       Inr m))))))))"

definition execute_body :: "json \<Rightarrow> obj res" where
  "execute_body body =
     (case obj_of body of
        None \<Rightarrow> Inl (ExternalServiceError ''Jupiter execute returned malformed data'')
      | Some m \<Rightarrow> Inr m)"

section \<open>What the clients promise\<close>

lemma order_body_Inr: "order_body raw = Inr m \<Longrightarrow> raw = JObj m"
  by (cases raw) (auto simp: order_body_def split: if_splits)

lemma int_value_Inr: "int_value v = Inr i \<Longrightarrow> int_of_json v = Some i"
  by (auto simp: int_value_def split: option.splits)

lemma item_int_Inr: "rbind (item k (JObj m)) int_value = Inr i \<Longrightarrow> int_of_json (jget k m) = Some i"
  by (auto simp: item_def jget_def rbind_eq_Inr split: option.splits dest: int_value_Inr)

lemma matches_intent_True:
  assumes "matches_intent mint amount m = Inr True"
  shows "json_text (jget ''inputMint'' m) = mint" "json_text (jget ''outputMint'' m) = WSOL_MINT"
    "int_of_json (jget ''inAmount'' m) = Some amount \<or> map_of m ''inAmount'' = None \<and> amount = -1"
proof -
  have "json_text (jget ''inputMint'' m) = mint \<and> json_text (jget ''outputMint'' m) = WSOL_MINT \<and>
      int_value (jget_or ''inAmount'' (JInt (-1)) m) = Inr amount"
    using assms by (auto simp: matches_intent_def rbind_eq_Inr split: if_splits)
  then show "json_text (jget ''inputMint'' m) = mint" "json_text (jget ''outputMint'' m) = WSOL_MINT"
    "int_of_json (jget ''inAmount'' m) = Some amount \<or> map_of m ''inAmount'' = None \<and> amount = -1"
    by (auto simp: jget_or_def jget_def split: option.splits dest: int_value_Inr)
qed

lemma executable_order_Inr:
  assumes "executable_order mint amount slippage raw = Inr m"
  obtains out_amount minimum where "raw = JObj m"
    "json_text (jget ''inputMint'' m) = mint" "json_text (jget ''outputMint'' m) = WSOL_MINT"
    "int_of_json (jget ''inAmount'' m) = Some amount \<or> map_of m ''inAmount'' = None \<and> amount = -1"
    "int_of_json (jget ''outAmount'' m) = Some out_amount"
    "int_of_json (jget ''otherAmountThreshold'' m) = Some minimum"
    "0 < minimum" "minimum \<le> out_amount" "minimum_output_floor out_amount slippage \<le> minimum"
    "truthy (jget ''transaction'' m)" "truthy (jget ''requestId'' m)"
proof -
  from assms obtain out_amount minimum where
      "order_body raw = Inr m" "matches_intent mint amount m = Inr True"
      "rbind (item ''outAmount'' (JObj m)) int_value = Inr out_amount"
      "rbind (item ''otherAmountThreshold'' (JObj m)) int_value = Inr minimum"
      "0 < minimum" "minimum \<le> out_amount" "minimum_output_floor out_amount slippage \<le> minimum"
      "truthy (jget ''transaction'' m)" "truthy (jget ''requestId'' m)"
    by (auto simp: executable_order_def)
  then show thesis
    by (intro that [of out_amount minimum] order_body_Inr item_int_Inr matches_intent_True)
qed

text \<open>
  An order the client hands on is for exactly the mint and amount
  asked for, into wrapped SOL, and its on-chain minimum is positive, at most its
  quoted output and at least the quoted output less the requested tolerance,
  which outside a rug or panic exit is never more than 2.5 percent (nor than the
  configured ceiling, for a ceiling of at least one basis point).
\<close>

lemma order_honours_tolerance:
  assumes "executable_order mint amount (exit_slippage_bps reason ceil_bps) raw = Inr m" and "0 < amount"
  shows "json_text (jget ''inputMint'' m) = mint \<and> json_text (jget ''outputMint'' m) = WSOL_MINT \<and>
    int_of_json (jget ''inAmount'' m) = Some amount \<and>
    (\<exists>out_amount minimum. int_of_json (jget ''outAmount'' m) = Some out_amount \<and>
       int_of_json (jget ''otherAmountThreshold'' m) = Some minimum \<and> 0 < minimum \<and> minimum \<le> out_amount \<and>
       (reason \<notin> set WIDE_EXIT_REASONS \<longrightarrow> out_amount * 9750 div 10000 \<le> minimum) \<and>
       (1 \<le> ceil_bps \<longrightarrow> out_amount * (10000 - ceil_bps) div 10000 \<le> minimum))"
  using assms(1)
proof (rule executable_order_Inr)
  fix out_amount minimum
  assume m: "json_text (jget ''inputMint'' m) = mint" "json_text (jget ''outputMint'' m) = WSOL_MINT"
      "int_of_json (jget ''inAmount'' m) = Some amount \<or> map_of m ''inAmount'' = None \<and> amount = -1"
      "int_of_json (jget ''outAmount'' m) = Some out_amount"
      "int_of_json (jget ''otherAmountThreshold'' m) = Some minimum"
    and b: "0 < minimum" "minimum \<le> out_amount"
      "minimum_output_floor out_amount (exit_slippage_bps reason ceil_bps) \<le> minimum"
  have mono: "out_amount * (10000 - bps) div 10000 \<le> minimum" if "exit_slippage_bps reason ceil_bps \<le> bps" for bps
  proof -
    have "out_amount * (10000 - bps) \<le> out_amount * (10000 - exit_slippage_bps reason ceil_bps)"
      using that b by (intro mult_left_mono) auto
    then have "out_amount * (10000 - bps) div 10000 \<le> minimum_output_floor out_amount (exit_slippage_bps reason ceil_bps)"
      unfolding minimum_output_floor_def by (intro zdiv_mono1) auto
    then show ?thesis using b(3) by linarith
  qed
  have "reason \<notin> set WIDE_EXIT_REASONS \<longrightarrow> exit_slippage_bps reason ceil_bps \<le> 250"
    "1 \<le> ceil_bps \<longrightarrow> exit_slippage_bps reason ceil_bps \<le> ceil_bps"
    by (auto simp: exit_slippage_bps_def TIGHT_EXIT_SLIPPAGE_BPS_def)
  then show ?thesis using m b mono [of 250] mono [of ceil_bps] assms(2) by auto
qed

definition sample_order :: obj where
  "sample_order = [(''transaction'', JStr ''dHg=''), (''requestId'', JStr ''r1''), (''inputMint'', JStr ''MINT''),
     (''outputMint'', JStr WSOL_MINT), (''inAmount'', JDec 5), (''router'', JStr ''metis''),
     (''outAmount'', JDec 1000), (''otherAmountThreshold'', JDec 980)]"

end
