(* ===== verification/LP_Planner.thy ===== *)
theory LP_Planner
  imports Rounding Clients
begin

text \<open>
  What the liquidity desk proposes: the arithmetic of DLMM bins and of the rent
  they owe (\<open>joshibot/shitcoims_lpexec/binmath.py\<close>), the trim of a position from
  the top of its range and the ask ladder above spot
  (\<open>joshibot/shitcoims_lpexec/planner.py\<close>). Raw amounts, bin ids and lamports are
  ints; dollars, prices and percentages are floats, rounded at every operation. The
  power and the logarithms of the C library are the argument \<open>float_lib\<close>.
\<close>

record float_lib =
  m_pow :: "pyfloat \<Rightarrow> int \<Rightarrow> pyfloat"
  m_log :: "pyfloat \<Rightarrow> pyfloat res"
  m_log1p :: "pyfloat \<Rightarrow> pyfloat res"

text \<open>\<open>round(x, n)\<close>: the nearest decimal of \<open>n\<close> places, ties to even, as a float.\<close>

definition py_round :: "pyfloat \<Rightarrow> nat \<Rightarrow> pyfloat" where
  "py_round x n = fl (of_int (round_half_even (x * 10 ^ n)) / 10 ^ n)"

section \<open>Bins and rent\<close>

definition LAMPORTS_PER_SOL :: int where "LAMPORTS_PER_SOL = 1000000000"
definition POSITION_RENT_LAMPORTS :: int where "POSITION_RENT_LAMPORTS = 57406080"
definition BIN_ARRAY_RENT_LAMPORTS :: int where "BIN_ARRAY_RENT_LAMPORTS = 71437440"
definition TOKEN_ACCOUNT_RENT_LAMPORTS :: int where "TOKEN_ACCOUNT_RENT_LAMPORTS = 2039280"
definition BINS_PER_ARRAY :: int where "BINS_PER_ARRAY = 70"
definition MAX_BINS_PER_TX :: int where "MAX_BINS_PER_TX = 26"
definition BASIS_POINT_MAX :: int where "BASIS_POINT_MAX = 10000"
definition MAX_BIN_ID :: int where "MAX_BIN_ID = 443636"
definition MIN_BIN_ID :: int where "MIN_BIN_ID = - 443636"

definition bin_ratio :: "int \<Rightarrow> pyfloat" where
  "bin_ratio bin_step = fadd 1 (int_div bin_step BASIS_POINT_MAX)"

definition bin_price_raw :: "float_lib \<Rightarrow> int \<Rightarrow> int \<Rightarrow> pyfloat" where
  "bin_price_raw lib bin_id bin_step = m_pow lib (bin_ratio bin_step) bin_id"

definition bin_price_ui :: "float_lib \<Rightarrow> int \<Rightarrow> int \<Rightarrow> int \<Rightarrow> int \<Rightarrow> pyfloat" where
  "bin_price_ui lib bin_id bin_step decimals_x decimals_y =
     fmul (bin_price_raw lib bin_id bin_step) (m_pow lib 10 (decimals_x - decimals_y))"

definition price_to_bin_id :: "float_lib \<Rightarrow> pyfloat \<Rightarrow> int \<Rightarrow> int \<Rightarrow> int \<Rightarrow> bool \<Rightarrow> int res" where
  "price_to_bin_id lib price_ui bin_step decimals_x decimals_y round_up =
     (if price_ui \<le> 0 then Inl (ValueError ''price must be positive'')
      else
        rbind (m_log lib (fdiv price_ui (m_pow lib 10 (decimals_x - decimals_y)))) (\<lambda>above.
        rbind (m_log lib (bin_ratio bin_step)) (\<lambda>bottom.
          let exact = fdiv above bottom;
              nearest = round_half_even exact;
              on_a_bin = \<bar>fsub exact (float_of nearest)\<bar> < fl (1 / 10 ^ 9);
              bin_id = (if on_a_bin then nearest else if round_up then \<lceil>exact\<rceil> else \<lfloor>exact\<rfloor>)
          in Inr (max MIN_BIN_ID (min MAX_BIN_ID bin_id)))))"

definition bin_array_index :: "int \<Rightarrow> int" where
  "bin_array_index bin_id = bin_id div BINS_PER_ARRAY"

definition bin_array_indexes :: "int \<Rightarrow> int \<Rightarrow> int list res" where
  "bin_array_indexes lower upper =
     (if upper < lower then Inl (ValueError ''upper bin id is below the lower bin id'')
      else Inr [bin_array_index lower .. bin_array_index upper])"

definition deposit_bin_array_indexes :: "int \<Rightarrow> int \<Rightarrow> int list" where
  "deposit_bin_array_indexes lower_bin_id upper_bin_id =
     (let lower = bin_array_index lower_bin_id;
          upper = max (bin_array_index upper_bin_id) (lower + 1)
      in [lower .. upper])"

record RentQuote =
  position_lamports :: int
  bin_array_lamports :: int
  token_account_lamports :: int
  new_bin_arrays :: "int list"
  positions_opened :: int

definition refundable :: "RentQuote \<Rightarrow> int" where
  "refundable q = position_lamports q + token_account_lamports q"

definition non_refundable :: "RentQuote \<Rightarrow> int" where
  "non_refundable q = bin_array_lamports q"

definition total_rent :: "RentQuote \<Rightarrow> int" where
  "total_rent q = refundable q + non_refundable q"

definition quote_rent :: "int \<Rightarrow> int \<Rightarrow> int list \<Rightarrow> bool \<Rightarrow> int \<Rightarrow> RentQuote res" where
  "quote_rent lower upper existing opens_position new_token_accounts =
     rbind (if opens_position then Inr (deposit_bin_array_indexes lower upper)
            else bin_array_indexes lower upper) (\<lambda>needed.
       let virgin = filter (\<lambda>i. i \<notin> set existing) needed
       in Inr \<lparr> position_lamports = (if opens_position then POSITION_RENT_LAMPORTS else 0),
                bin_array_lamports = BIN_ARRAY_RENT_LAMPORTS * int (length virgin),
                token_account_lamports = TOKEN_ACCOUNT_RENT_LAMPORTS * new_token_accounts,
                new_bin_arrays = virgin,
                positions_opened = (if opens_position then 1 else 0) \<rparr>)"

section \<open>The trim\<close>

record BinHolding =
  bh_bin_id :: int
  bh_price_per_token :: pyfloat
  amount_x_raw :: int
  amount_y_raw :: int

record RemoveStep =
  from_bin_id :: int
  to_bin_id :: int
  step_bps :: int
  expected_x_raw :: int
  expected_y_raw :: int
  step_reason :: string

text \<open>The remarks of a plan; the dollar amounts printed in them are not part of the model.\<close>

datatype plan_note =
    Already_at_target
  | Reaches_active_bin int
  | Every_array_exists
  | Virgin_arrays nat
  | Spot_distribution pyfloat int

record TrimPlan =
  tp_pool :: string
  tp_position :: string
  tp_token_x_symbol :: string
  tp_active_bin_id :: int
  tp_bin_step :: int
  tp_decimals_x :: int
  tp_held_x_raw :: int
  tp_held_x_usd :: pyfloat
  tp_target_x_usd :: pyfloat
  tp_remove_x_raw :: int
  tp_remove_x_usd :: pyfloat
  tp_retained_x_raw :: int
  tp_retained_x_usd :: pyfloat
  tp_steps :: "RemoveStep list"
  tp_price_x_usd :: pyfloat
  tp_rent :: RentQuote
  tp_notes :: "plan_note list"

definition raw_to_ui :: "float_lib \<Rightarrow> int \<Rightarrow> int \<Rightarrow> pyfloat" where
  "raw_to_ui lib raw decimals = fdiv (float_of raw) (m_pow lib 10 decimals)"

definition ui_to_raw :: "float_lib \<Rightarrow> pyfloat \<Rightarrow> int \<Rightarrow> int" where
  "ui_to_raw lib ui decimals = dint (fmul ui (m_pow lib 10 decimals))"

text \<open>
  The walk down from the top bin: what was taken, the lowest bin taken whole and
  the bin taken in part with what is still needed of it.
\<close>

fun trim_walk ::
  "int \<Rightarrow> BinHolding list \<Rightarrow> int \<Rightarrow> int option \<Rightarrow> int \<times> int option \<times> (int \<times> int) option" where
  "trim_walk want [] taken full_from = (taken, full_from, None)"
| "trim_walk want (h # hs) taken full_from =
     (let remaining = want - taken
      in if remaining \<le> 0 then (taken, full_from, None)
         else if amount_x_raw h \<le> remaining
         then trim_walk want hs (taken + amount_x_raw h) (Some (bh_bin_id h))
         else (taken + remaining, full_from, Some (bh_bin_id h, remaining)))"

definition between :: "int \<Rightarrow> int \<Rightarrow> BinHolding list \<Rightarrow> BinHolding list" where
  "between lo hi bins = filter (\<lambda>b. lo \<le> bh_bin_id b \<and> bh_bin_id b \<le> hi) bins"

definition whole_step :: "BinHolding list \<Rightarrow> int \<Rightarrow> int \<Rightarrow> RemoveStep" where
  "whole_step x_bins full_from top_bin =
     \<lparr> from_bin_id = full_from, to_bin_id = top_bin, step_bps = 10000,
       expected_x_raw = sum_list (map amount_x_raw (between full_from top_bin x_bins)),
       expected_y_raw = sum_list (map amount_y_raw (between full_from top_bin x_bins)),
       step_reason = ''empty bins '' @ int_text full_from @ ''..'' @ int_text top_bin @
         '' -- the far end of the range, inventory parked above where the flow is'' \<rparr>"

text \<open>The share of a bin, in hundredths of a percent, rounded up through a float.\<close>

definition partial_bps :: "int \<Rightarrow> int \<Rightarrow> int" where
  "partial_bps needed amount = min 10000 \<lceil>int_div (needed * 10000) amount\<rceil>"

definition two_digits :: "int \<Rightarrow> string" where
  "two_digits n = (if n < 10 then ''0'' @ int_text n else int_text n)"

definition partial_step :: "BinHolding \<Rightarrow> int \<Rightarrow> RemoveStep" where
  "partial_step h needed =
     (let bps = partial_bps needed (amount_x_raw h)
      in \<lparr> from_bin_id = bh_bin_id h, to_bin_id = bh_bin_id h, step_bps = bps,
           expected_x_raw = amount_x_raw h * bps div 10000,
           expected_y_raw = amount_y_raw h * bps div 10000,
           step_reason = ''take '' @ int_text (bps div 100) @ ''.'' @ two_digits (bps mod 100) @ ''% of bin '' @
             int_text (bh_bin_id h) @ '' to land on the target'' \<rparr>)"

definition trim_steps :: "BinHolding list \<Rightarrow> int \<Rightarrow> RemoveStep list" where
  "trim_steps x_bins want_raw =
     (case trim_walk want_raw (rev x_bins) 0 None of
        (taken, full_from, partial) \<Rightarrow>
          (case full_from of None \<Rightarrow> [] | Some lo \<Rightarrow> [whole_step x_bins lo (bh_bin_id (last x_bins))]) @
          (case partial of
             None \<Rightarrow> []
           | Some (bin_id, needed) \<Rightarrow>
               (case find (\<lambda>b. bh_bin_id b = bin_id) x_bins of
                  None \<Rightarrow> [] | Some h \<Rightarrow> [partial_step h needed])))"

definition x_bins_of :: "BinHolding list \<Rightarrow> BinHolding list" where
  "x_bins_of bins = sort_key bh_bin_id (filter (\<lambda>b. 0 < amount_x_raw b) bins)"

definition held_x :: "BinHolding list \<Rightarrow> int" where
  "held_x x_bins = sum_list (map amount_x_raw x_bins)"

definition trim_rent :: "RemoveStep list \<Rightarrow> int \<Rightarrow> RentQuote res" where
  "trim_rent steps top_bin =
     (let lower = from_bin_id (hd steps);
          upper = (if lower < to_bin_id (last steps) then to_bin_id (last steps) else top_bin)
      in rbind (bin_array_indexes lower top_bin) (\<lambda>existing. quote_rent lower upper existing False 0))"

definition want_raw :: "float_lib \<Rightarrow> pyfloat \<Rightarrow> pyfloat \<Rightarrow> pyfloat \<Rightarrow> int \<Rightarrow> int" where
  "want_raw lib held_usd target_x_usd price_x_usd decimals_x =
     ui_to_raw lib (fdiv (fsub held_usd target_x_usd) price_x_usd) decimals_x"

definition plan_trim ::
  "float_lib \<Rightarrow> string \<Rightarrow> string \<Rightarrow> BinHolding list \<Rightarrow> int \<Rightarrow> int \<Rightarrow> int \<Rightarrow> pyfloat \<Rightarrow> pyfloat \<Rightarrow> string \<Rightarrow>
   int list option \<Rightarrow> TrimPlan res" where
  "plan_trim lib pool position bins active_bin_id bin_step decimals_x price_x_usd target_x_usd symbol existing =
     (if price_x_usd \<le> 0 then Inl (PlanRefused ''token price must be positive to size a trim'')
      else if target_x_usd < 0 then Inl (PlanRefused ''target exposure cannot be negative'')
      else
        let x_bins = x_bins_of bins; held = held_x x_bins;
            usd = (\<lambda>raw. fmul (raw_to_ui lib raw decimals_x) price_x_usd);
            plan = (\<lambda>removed steps rent notes.
              \<lparr> tp_pool = pool, tp_position = position, tp_token_x_symbol = symbol, tp_active_bin_id = active_bin_id,
                tp_bin_step = bin_step, tp_decimals_x = decimals_x, tp_held_x_raw = held, tp_held_x_usd = usd held,
                tp_target_x_usd = target_x_usd, tp_remove_x_raw = removed,
                tp_remove_x_usd = (if steps = [] then 0 else usd removed), tp_retained_x_raw = held - removed,
                tp_retained_x_usd = usd (held - removed), tp_steps = steps, tp_price_x_usd = price_x_usd,
                tp_rent = rent, tp_notes = notes \<rparr>)
        in if x_bins = [] then Inl (PlanRefused ''position holds no token X; nothing to trim'')
           else if usd held \<le> target_x_usd
           then rbind (quote_rent active_bin_id active_bin_id (case existing of None \<Rightarrow> [] | Some xs \<Rightarrow> xs) False 0)
                  (\<lambda>rent. Inr (plan 0 [] rent [Already_at_target]))
           else
             let steps = trim_steps x_bins (want_raw lib (usd held) target_x_usd price_x_usd decimals_x);
                 removed = sum_list (map expected_x_raw steps)
             in if steps = [] then Inl (PlanRefused ''trim resolved to no removal despite being above target'')
                else rbind (trim_rent steps (bh_bin_id (last x_bins))) (\<lambda>rent.
                       Inr (plan removed steps rent
                         (if from_bin_id (hd steps) \<le> active_bin_id then [Reaches_active_bin active_bin_id] else []))))"

definition removed_bin_ids :: "TrimPlan \<Rightarrow> int list" where
  "removed_bin_ids p = sort (remdups (concat (map (\<lambda>s. [from_bin_id s .. to_bin_id s]) (tp_steps p))))"

section \<open>The ladder\<close>

definition MAX_RENT_SHARE_OF_DEPLOYED :: pyfloat where
  "MAX_RENT_SHARE_OF_DEPLOYED = fl (4 / 100)"

definition DEFAULT_LADDER_REACH_PCT :: pyfloat where
  "DEFAULT_LADDER_REACH_PCT = 20"

record LadderRung =
  rung_bin_id :: int
  rung_price_ui :: pyfloat
  rung_price_usd :: pyfloat
  rung_amount_x_raw :: int
  rung_pct_above_spot :: pyfloat

record candidate =
  cand_width :: int
  cand_min_bin_id :: int
  cand_max_bin_id :: int
  cand_reach_pct :: pyfloat
  cand_rent :: RentQuote

record alternative =
  alt_width :: int
  alt_reach_pct :: pyfloat
  alt_new_bin_arrays :: "int list"
  alt_non_refundable_sol :: pyfloat

record LadderPlan =
  lp_pool :: string
  lp_label :: string
  lp_token_x_symbol :: string
  lp_token_y_symbol :: string
  lp_active_bin_id :: int
  lp_bin_step :: int
  lp_decimals_x :: int
  lp_decimals_y :: int
  lp_min_bin_id :: int
  lp_max_bin_id :: int
  lp_deposit_x_raw :: int
  lp_deposit_x_usd :: pyfloat
  lp_rungs :: "LadderRung list"
  lp_rent :: RentQuote
  lp_rent_share_of_deposit :: pyfloat
  lp_spot_price_ui :: pyfloat
  lp_reach_pct :: pyfloat
  lp_alternatives :: "alternative list"
  lp_notes :: "plan_note list"

text \<open>The share the source stores as a placeholder is read by nobody and is left out.\<close>

definition ladder_candidate :: "float_lib \<Rightarrow> int \<Rightarrow> int \<Rightarrow> int list \<Rightarrow> int \<Rightarrow> candidate res" where
  "ladder_candidate lib active_bin_id bin_step existing width =
     (let lower = active_bin_id + 1; upper = lower + width - 1
      in rbind (quote_rent lower upper existing True 0) (\<lambda>rent.
           Inr \<lparr> cand_width = width, cand_min_bin_id = lower, cand_max_bin_id = upper,
                 cand_reach_pct = fmul (fsub (m_pow lib (bin_ratio bin_step) width) 1) 100,
                 cand_rent = rent \<rparr>))"

text \<open>\<open>min\<close> by rent, then by width: the first of the least.\<close>

definition cheaper :: "candidate \<Rightarrow> candidate \<Rightarrow> bool" where
  "cheaper a b \<longleftrightarrow> non_refundable (cand_rent a) < non_refundable (cand_rent b) \<or>
     non_refundable (cand_rent a) = non_refundable (cand_rent b) \<and> cand_width a < cand_width b"

fun cheapest :: "candidate \<Rightarrow> candidate list \<Rightarrow> candidate" where
  "cheapest best [] = best"
| "cheapest best (c # cs) = cheapest (if cheaper c best then c else best) cs"

definition rung_amount :: "int \<Rightarrow> int \<Rightarrow> int \<Rightarrow> int" where
  "rung_amount deposit width offset =
     (let per_rung = deposit div width
      in per_rung + (if offset = width - 1 then deposit - per_rung * width else 0))"

definition ladder_rung ::
  "float_lib \<Rightarrow> int \<Rightarrow> int \<Rightarrow> int \<Rightarrow> pyfloat \<Rightarrow> pyfloat \<Rightarrow> int \<Rightarrow> int \<Rightarrow> int \<Rightarrow> int \<Rightarrow> LadderRung" where
  "ladder_rung lib bin_step decimals_x decimals_y sol_price spot deposit width lower bin_id =
     (let price = bin_price_ui lib bin_id bin_step decimals_x decimals_y
      in \<lparr> rung_bin_id = bin_id, rung_price_ui = price,
           rung_price_usd = (if decimals_y = 9 then fmul price sol_price else price),
           rung_amount_x_raw = rung_amount deposit width (bin_id - lower),
           rung_pct_above_spot = (if 0 < spot then fmul (fsub (fdiv price spot) 1) 100 else 0) \<rparr>)"

definition alternative_of :: "candidate \<Rightarrow> alternative" where
  "alternative_of c =
     \<lparr> alt_width = cand_width c, alt_reach_pct = py_round (cand_reach_pct c) 2,
       alt_new_bin_arrays = new_bin_arrays (cand_rent c),
       alt_non_refundable_sol = py_round (int_div (non_refundable (cand_rent c)) LAMPORTS_PER_SOL) 6 \<rparr>"

definition needed_width :: "float_lib \<Rightarrow> int \<Rightarrow> pyfloat \<Rightarrow> int res" where
  "needed_width lib bin_step reach_pct =
     rbind (m_log1p lib (fdiv reach_pct 100)) (\<lambda>reach.
     rbind (m_log lib (bin_ratio bin_step)) (\<lambda>rung. Inr (max 1 \<lceil>fdiv reach rung\<rceil>)))"

definition ladder_notes :: "float_lib \<Rightarrow> int \<Rightarrow> RentQuote \<Rightarrow> int \<Rightarrow> int \<Rightarrow> plan_note list" where
  "ladder_notes lib decimals_x rent per_rung width =
     [if new_bin_arrays rent = [] then Every_array_exists else Virgin_arrays (length (new_bin_arrays rent)),
      Spot_distribution (raw_to_ui lib per_rung decimals_x) width]"

text \<open>A deposit that is worth nothing pays an infinite share of it in rent.\<close>

definition rent_share :: "RentQuote \<Rightarrow> pyfloat \<Rightarrow> pyfloat \<Rightarrow> pyfloat option" where
  "rent_share rent sol_price deposit_usd =
     (if 0 < deposit_usd
      then Some (fdiv (fmul (int_div (non_refundable rent) LAMPORTS_PER_SOL) sol_price) deposit_usd)
      else None)"

definition plan_ladder ::
  "float_lib \<Rightarrow> string \<Rightarrow> string \<Rightarrow> int \<Rightarrow> int \<Rightarrow> int \<Rightarrow> int \<Rightarrow> int \<Rightarrow> pyfloat \<Rightarrow> pyfloat \<Rightarrow> int list \<Rightarrow> pyfloat \<Rightarrow>
   string \<Rightarrow> string \<Rightarrow> int \<Rightarrow> LadderPlan res" where
  "plan_ladder lib pool name active_bin_id bin_step decimals_x decimals_y deposit price_x_usd sol_price existing
     reach_pct x_symbol y_symbol max_width =
     (if deposit \<le> 0 then Inl (PlanRefused ''a ladder needs something to deposit'')
      else if bin_step \<le> 0 then Inl (PlanRefused ''bin step must be positive'')
      else
        let deposit_usd = fmul (raw_to_ui lib deposit decimals_x) price_x_usd
        in rbind (needed_width lib bin_step reach_pct) (\<lambda>needed.
           rbind (rmapM (ladder_candidate lib active_bin_id bin_step existing) [needed .. min max_width (needed + 12)])
             (\<lambda>candidates.
               case candidates of
                 [] \<Rightarrow> Inl (PlanRefused ''a ladder of this reach is above the single-transaction limit'')
               | c # cs \<Rightarrow>
                   let chosen = cheapest c cs; rent = cand_rent chosen
                   in case rent_share rent sol_price deposit_usd of
                        None \<Rightarrow> Inl (PlanRefused ''ladder would pay non-refundable bin-array rent'')
                      | Some share \<Rightarrow>
                          if MAX_RENT_SHARE_OF_DEPLOYED < share
                          then Inl (PlanRefused ''ladder would pay non-refundable bin-array rent'')
                          else
                            let lower = cand_min_bin_id chosen; upper = cand_max_bin_id chosen;
                                width = upper - lower + 1;
                                spot = bin_price_ui lib active_bin_id bin_step decimals_x decimals_y
                            in Inr \<lparr> lp_pool = pool, lp_label = name, lp_token_x_symbol = x_symbol,
                                 lp_token_y_symbol = y_symbol, lp_active_bin_id = active_bin_id,
                                 lp_bin_step = bin_step, lp_decimals_x = decimals_x, lp_decimals_y = decimals_y,
                                 lp_min_bin_id = lower, lp_max_bin_id = upper, lp_deposit_x_raw = deposit,
                                 lp_deposit_x_usd = deposit_usd,
                                 lp_rungs = map (ladder_rung lib bin_step decimals_x decimals_y sol_price spot deposit
                                   width lower) [lower .. upper],
                                 lp_rent = rent, lp_rent_share_of_deposit = share, lp_spot_price_ui = spot,
                                 lp_reach_pct = cand_reach_pct chosen,
                                 lp_alternatives = map alternative_of
                                   (filter (\<lambda>c. cand_width c \<noteq> width) candidates),
                                 lp_notes = ladder_notes lib decimals_x rent (deposit div width) width \<rparr>)))"

end
