(* ===== verification/LP_Plans.thy ===== *)
theory LP_Plans
  imports LP_Planner
begin

text \<open>
  What the plans of \<open>LP_Planner\<close> come to: the shape of a trim and the properties
  of the two planners, with the sample plans that witness them.
\<close>

section \<open>The shape of a trim\<close>

abbreviation x_sum :: "BinHolding list \<Rightarrow> int" where
  "x_sum bs \<equiv> sum_list (map amount_x_raw bs)"

text \<open>The walk splits the bins, from the top, into those taken whole, at most one taken in part, and the rest.\<close>

lemma trim_walk_split:
  assumes "trim_walk want hs taken full_from = (t, lo, part)" and "taken \<le> want"
  shows "\<exists>whole rest. hs = whole @ rest \<and> taken + x_sum whole \<le> want \<and>
    lo = (if whole = [] then full_from else Some (bh_bin_id (last whole))) \<and>
    (part = None \<and> (rest = [] \<or> taken + x_sum whole = want) \<or>
     (\<exists>h rest'. rest = h # rest' \<and> part = Some (bh_bin_id h, want - taken - x_sum whole) \<and>
        0 < want - taken - x_sum whole \<and> want - taken - x_sum whole < amount_x_raw h))"
  using assms
proof (induction want hs taken full_from rule: trim_walk.induct)
  case (1 want taken full_from)
  then show ?case by (intro exI [of _ "[]"]) simp
next
  case (2 want h hs taken full_from)
  show ?case
  proof (cases "want - taken \<le> 0 \<or> want - taken < amount_x_raw h")
    case True
    then show ?thesis using 2 by (intro exI [of _ "[]"] exI [of _ "h # hs"]) (auto simp: Let_def split: if_splits)
  next
    case False
    then have "\<exists>whole rest. hs = whole @ rest \<and> taken + amount_x_raw h + x_sum whole \<le> want \<and>
        lo = (if whole = [] then Some (bh_bin_id h) else Some (bh_bin_id (last whole))) \<and>
        (part = None \<and> (rest = [] \<or> taken + amount_x_raw h + x_sum whole = want) \<or>
         (\<exists>h' rest'. rest = h' # rest' \<and> part = Some (bh_bin_id h', want - (taken + amount_x_raw h) - x_sum whole) \<and>
            0 < want - (taken + amount_x_raw h) - x_sum whole \<and>
            want - (taken + amount_x_raw h) - x_sum whole < amount_x_raw h'))"
      using 2 by (auto simp: Let_def)
    then obtain whole rest where "hs = whole @ rest" and
      "taken + amount_x_raw h + x_sum whole \<le> want \<and>
        lo = (if whole = [] then Some (bh_bin_id h) else Some (bh_bin_id (last whole))) \<and>
        (part = None \<and> (rest = [] \<or> taken + amount_x_raw h + x_sum whole = want) \<or>
         (\<exists>h' rest'. rest = h' # rest' \<and> part = Some (bh_bin_id h', want - (taken + amount_x_raw h) - x_sum whole) \<and>
            0 < want - (taken + amount_x_raw h) - x_sum whole \<and>
            want - (taken + amount_x_raw h) - x_sum whole < amount_x_raw h'))" by blast
    then show ?thesis by (intro exI [of _ "h # whole"] exI [of _ rest]) (auto simp: algebra_simps)
  qed
qed

definition ordered :: "BinHolding list \<Rightarrow> bool" where
  "ordered bs \<longleftrightarrow> sorted_wrt (\<lambda>a b. bh_bin_id a < bh_bin_id b) bs"

lemma ordered_x_bins: "distinct (map bh_bin_id bins) \<Longrightarrow> ordered (x_bins_of bins)"
proof -
  assume d: "distinct (map bh_bin_id bins)"
  have "distinct (map bh_bin_id (x_bins_of bins))"
    using d by (simp add: x_bins_of_def distinct_map distinct_filter inj_on_def)
  moreover have "sorted (map bh_bin_id (x_bins_of bins))" by (simp add: x_bins_of_def)
  ultimately have "sorted_wrt (<) (map bh_bin_id (x_bins_of bins))"
    by (simp add: strict_sorted_iff)
  then show ?thesis by (simp add: ordered_def sorted_wrt_map)
qed

lemma between_top:
  assumes "ordered (kept @ whole)" and "whole \<noteq> []"
  shows "between (bh_bin_id (hd whole)) (bh_bin_id (last whole)) (kept @ whole) = whole"
proof -
  have "filter (\<lambda>b. bh_bin_id (hd whole) \<le> bh_bin_id b \<and> bh_bin_id b \<le> bh_bin_id (last whole)) kept = []"
    using assms by (cases whole) (auto simp: ordered_def sorted_wrt_append filter_empty_conv)
  moreover have "\<forall>b \<in> set whole. bh_bin_id (hd whole) \<le> bh_bin_id b \<and> bh_bin_id b \<le> bh_bin_id (last whole)"
  proof
    fix b assume b: "b \<in> set whole"
    have o: "sorted_wrt (\<lambda>a b. bh_bin_id a < bh_bin_id b) whole"
      using assms by (simp add: ordered_def sorted_wrt_append)
    have "bh_bin_id (hd whole) \<le> bh_bin_id b" using o b by (cases whole) auto
    moreover have "bh_bin_id b \<le> bh_bin_id (last whole)"
      using o b by (cases whole rule: rev_cases) (auto simp: sorted_wrt_append)
    ultimately show "bh_bin_id (hd whole) \<le> bh_bin_id b \<and> bh_bin_id b \<le> bh_bin_id (last whole)" by simp
  qed
  ultimately show ?thesis by (simp add: between_def)
qed

lemma find_ordered:
  assumes "ordered (a @ h # b)"
  shows "find (\<lambda>x. bh_bin_id x = bh_bin_id h) (a @ h # b) = Some h"
proof -
  have "find (\<lambda>x. bh_bin_id x = bh_bin_id h) a = None"
    using assms by (auto simp: find_None_iff ordered_def sorted_wrt_append)
  then have "find (\<lambda>x. bh_bin_id x = bh_bin_id h) (a @ ys) = find (\<lambda>x. bh_bin_id x = bh_bin_id h) ys" for ys
    by (induction a) (auto split: if_splits)
  then show ?thesis by simp
qed

definition whole_steps :: "BinHolding list \<Rightarrow> BinHolding list \<Rightarrow> RemoveStep list" where
  "whole_steps bs whole =
     (if whole = [] then [] else [whole_step bs (bh_bin_id (hd whole)) (bh_bin_id (last whole))])"

lemma trim_steps_shape [consumes 2, case_names whole partial]:
  assumes "ordered bs" and "0 \<le> want"
  obtains (whole) kept whole where "bs = kept @ whole" "x_sum whole \<le> want" "kept = [] \<or> x_sum whole = want"
      "trim_steps bs want = whole_steps bs whole"
    | (partial) kept h whole where "bs = kept @ h # whole" "0 < want - x_sum whole"
      "want - x_sum whole < amount_x_raw h"
      "trim_steps bs want = whole_steps bs whole @ [partial_step h (want - x_sum whole)]"
proof -
  obtain t lo part where w: "trim_walk want (rev bs) 0 None = (t, lo, part)" by (cases "trim_walk want (rev bs) 0 None")
  from trim_walk_split [OF w assms(2)] obtain ds rest where
    split: "rev bs = ds @ rest" "x_sum ds \<le> want" "lo = (if ds = [] then None else Some (bh_bin_id (last ds)))"
      "part = None \<and> (rest = [] \<or> x_sum ds = want) \<or>
       (\<exists>h rest'. rest = h # rest' \<and> part = Some (bh_bin_id h, want - x_sum ds) \<and>
          0 < want - x_sum ds \<and> want - x_sum ds < amount_x_raw h)"
    by auto
  have bs: "bs = rev rest @ rev ds" using arg_cong [OF split(1), of rev] by simp
  have sum: "x_sum (rev ds) = x_sum ds" by (simp add: rev_map [symmetric])
  have steps: "(case lo of None \<Rightarrow> [] | Some lo \<Rightarrow> [whole_step bs lo (bh_bin_id (last bs))]) = whole_steps bs (rev ds)"
    using split(3) bs by (auto simp: whole_steps_def hd_rev last_rev)
  have none: "trim_steps bs want = whole_steps bs (rev ds)" if "part = None"
    using w steps that by (simp add: trim_steps_def)
  from split(4) show thesis
  proof (elim disjE conjE exE)
    assume "part = None" "rest = []"
    then show thesis using whole [OF bs _ _ none] sum split(2) by simp
  next
    assume "part = None" "x_sum ds = want"
    then show thesis using whole [OF bs _ _ none] sum by simp
  next
    fix h rest'
    assume h: "rest = h # rest'" "part = Some (bh_bin_id h, want - x_sum ds)" "0 < want - x_sum ds"
      "want - x_sum ds < amount_x_raw h"
    have e: "bs = rev rest' @ h # rev ds" using bs h(1) by simp
    then have "find (\<lambda>b. bh_bin_id b = bh_bin_id h) bs = Some h"
      using find_ordered assms(1) by metis
    then have "trim_steps bs want = whole_steps bs (rev ds) @ [partial_step h (want - x_sum (rev ds))]"
      using h(2) sum w steps by (simp add: trim_steps_def)
    then show thesis using partial [OF e] h(3,4) sum by simp
  qed
qed


section \<open>What a trim removes\<close>

text \<open>The share the steps take of the bin with an id, in basis points.\<close>

definition bps_at :: "RemoveStep list \<Rightarrow> int \<Rightarrow> int" where
  "bps_at steps i = sum_list (map step_bps (filter (\<lambda>s. from_bin_id s \<le> i \<and> i \<le> to_bin_id s) steps))"

lemma bps_at_simps [simp]:
  "bps_at [] i = 0"
  "bps_at (s # ss) i = (if from_bin_id s \<le> i \<and> i \<le> to_bin_id s then step_bps s else 0) + bps_at ss i"
  by (simp_all add: bps_at_def)

lemma whole_steps_bps:
  assumes "ordered (kept @ whole)" and "b \<in> set (kept @ whole)"
  shows "bps_at (whole_steps bs whole) (bh_bin_id b) = (if b \<in> set whole then 10000 else 0)"
proof (cases "whole = []")
  case False
  have o: "ordered whole" using assms(1) by (simp add: ordered_def sorted_wrt_append)
  have "b \<in> set (between (bh_bin_id (hd whole)) (bh_bin_id (last whole)) (kept @ whole)) \<longleftrightarrow>
      bh_bin_id (hd whole) \<le> bh_bin_id b \<and> bh_bin_id b \<le> bh_bin_id (last whole)"
    using assms(2) by (auto simp: between_def)
  then show ?thesis using between_top [OF assms(1) False] False
    by (simp add: whole_steps_def whole_step_def)
qed (simp add: whole_steps_def)

lemma whole_steps_sum:
  assumes "ordered (kept @ whole)"
  shows "sum_list (map expected_x_raw (whole_steps (kept @ whole) whole)) = x_sum whole"
  using between_top [OF assms] by (auto simp: whole_steps_def whole_step_def)

lemma partial_bps_range:
  assumes "0 < needed" "0 < amount"
  shows "0 < partial_bps needed amount" "partial_bps needed amount \<le> 10000"
proof -
  have "0 < int_div (needed * 10000) amount" using assms by (simp add: int_div_def fl_pos)
  then show "0 < partial_bps needed amount" by (simp add: partial_bps_def)
qed (simp add: partial_bps_def)

lemma partial_step_simps [simp]:
  "from_bin_id (partial_step h n) = bh_bin_id h" "to_bin_id (partial_step h n) = bh_bin_id h"
  "step_bps (partial_step h n) = partial_bps n (amount_x_raw h)"
  "expected_x_raw (partial_step h n) = amount_x_raw h * partial_bps n (amount_x_raw h) div 10000"
  by (simp_all add: partial_step_def Let_def)

lemma share_bounds:
  assumes "0 \<le> x" "0 \<le> (b::int)" "b \<le> 10000"
  shows "0 \<le> x * b div 10000" "x * b div 10000 \<le> x"
proof -
  have "x * b \<le> x * 10000" using assms by (intro mult_left_mono) auto
  then show "x * b div 10000 \<le> x" by linarith
  show "0 \<le> x * b div 10000" using assms by (simp add: pos_imp_zdiv_nonneg_iff)
qed

text \<open>
  Of a set of bins in order, the steps take whole bins from the top and at most a
  share of the next one, and expect what these shares come to.
\<close>

definition from_the_top :: "BinHolding list \<Rightarrow> RemoveStep list \<Rightarrow> bool" where
  "from_the_top bs steps \<longleftrightarrow>
     (\<forall>b \<in> set bs. 0 \<le> bps_at steps (bh_bin_id b) \<and> bps_at steps (bh_bin_id b) \<le> 10000) \<and>
     (\<forall>b \<in> set bs. \<forall>c \<in> set bs. bh_bin_id b < bh_bin_id c \<and> 0 < bps_at steps (bh_bin_id b) \<longrightarrow>
        bps_at steps (bh_bin_id c) = 10000) \<and>
     sum_list (map expected_x_raw steps) =
       sum_list (map (\<lambda>b. amount_x_raw b * bps_at steps (bh_bin_id b) div 10000) bs)"

lemma shares_none: "(\<And>b. b \<in> set bs \<Longrightarrow> f b = 0) \<Longrightarrow> sum_list (map (\<lambda>b. amount_x_raw b * f b div 10000) bs) = 0"
  by (induction bs) auto

lemma shares_all: "(\<And>b. b \<in> set bs \<Longrightarrow> f b = 10000) \<Longrightarrow> sum_list (map (\<lambda>b. amount_x_raw b * f b div 10000) bs) = x_sum bs"
  by (induction bs) auto

lemma ordered_append_less:
  "ordered (a @ b) \<Longrightarrow> x \<in> set a \<Longrightarrow> y \<in> set b \<Longrightarrow> bh_bin_id x < bh_bin_id y"
  by (simp add: ordered_def sorted_wrt_append)

lemma trim_from_the_top:
  assumes o: "ordered bs" and "0 \<le> want" and pos: "\<forall>b \<in> set bs. 0 < amount_x_raw b"
  shows "from_the_top bs (trim_steps bs want)"
  using assms(1,2)
proof (cases rule: trim_steps_shape)
  case (whole kept whole)
  have bps: "bps_at (trim_steps bs want) (bh_bin_id b) = (if b \<in> set whole then 10000 else 0)" if "b \<in> set bs" for b
    using whole_steps_bps [of kept whole b] o whole that by simp
  have apart: "b \<notin> set whole" if "b \<in> set kept" for b
    using ordered_append_less [of kept whole b b] o whole(1) that by auto
  have "sum_list (map (\<lambda>b. amount_x_raw b * bps_at (trim_steps bs want) (bh_bin_id b) div 10000) bs) = x_sum whole"
    using shares_none [of kept "\<lambda>b. bps_at (trim_steps bs want) (bh_bin_id b)"]
      shares_all [of whole "\<lambda>b. bps_at (trim_steps bs want) (bh_bin_id b)"] bps apart whole(1) by simp
  moreover have "bps_at (trim_steps bs want) (bh_bin_id c) = 10000"
    if "b \<in> set bs" "c \<in> set bs" "bh_bin_id b < bh_bin_id c" "0 < bps_at (trim_steps bs want) (bh_bin_id b)" for b c
    using that bps [of b] bps [of c] ordered_append_less [of kept whole c b] o whole(1) by (auto split: if_splits)
  ultimately show ?thesis
    using bps whole_steps_sum [of kept whole] o whole by (simp add: from_the_top_def)
next
  case (partial kept h whole)
  let ?n = "want - x_sum whole"
  have o': "ordered ((kept @ [h]) @ whole)" using o partial(1) by simp
  have h: "0 < amount_x_raw h" using pos partial(1) by simp
  note range = partial_bps_range [OF partial(2) h]
  have lt: "bh_bin_id b < bh_bin_id h" if "b \<in> set kept" for b
    using ordered_append_less [of kept "h # whole" b h] o partial(1) that by simp
  have gt: "bh_bin_id h < bh_bin_id b" if "b \<in> set whole" for b
    using ordered_append_less [OF o', of h b] that by simp
  have bps: "bps_at (trim_steps bs want) (bh_bin_id b) =
      (if b \<in> set whole then 10000 else if b = h then partial_bps ?n (amount_x_raw h) else 0)" if "b \<in> set bs" for b
  proof -
    have "bps_at (trim_steps bs want) (bh_bin_id b) = bps_at (whole_steps bs whole) (bh_bin_id b) +
        (if bh_bin_id b = bh_bin_id h then partial_bps ?n (amount_x_raw h) else 0)"
      by (auto simp: partial(4) bps_at_def)
    then show ?thesis using whole_steps_bps [OF o', of b bs] that partial(1) lt [of b] gt [of b] by auto
  qed
  let ?f = "\<lambda>b. bps_at (trim_steps bs want) (bh_bin_id b)"
  have "sum_list (map (\<lambda>b. amount_x_raw b * ?f b div 10000) bs) =
      amount_x_raw h * partial_bps ?n (amount_x_raw h) div 10000 + x_sum whole"
  proof -
    have "?f b = 0" if "b \<in> set kept" for b
      using bps [of b] that partial(1) lt [of b] gt [of b] by auto
    moreover have "?f b = 10000" if "b \<in> set whole" for b using bps [of b] that partial(1) by simp
    moreover have "?f h = partial_bps ?n (amount_x_raw h)" using bps [of h] partial(1) gt [of h] by auto
    ultimately show ?thesis using shares_none [of kept ?f] shares_all [of whole ?f] partial(1) by simp
  qed
  moreover have "sum_list (map expected_x_raw (trim_steps bs want)) =
      x_sum whole + amount_x_raw h * partial_bps ?n (amount_x_raw h) div 10000"
    using whole_steps_sum [OF o'] partial(1,4) by simp
  moreover have "?f c = 10000" if "b \<in> set bs" "c \<in> set bs" "bh_bin_id b < bh_bin_id c" "0 < ?f b" for b c
    using that bps [of b] bps [of c] partial(1) lt [of c] gt [of b] gt [of c] ordered_append_less [OF o', of c b]
    by (auto split: if_splits)
  ultimately show ?thesis using bps range by (auto simp: from_the_top_def)
qed


section \<open>How close a trim comes\<close>

lemma partial_lands:
  assumes "0 < n" "n < x"
  shows "of_int n - 1 - of_int n / 2 ^ 53 \<le> (of_int (x * partial_bps n x div 10000) :: rat)"
    and "(of_int (x * partial_bps n x div 10000) :: rat) \<le> of_int n + of_int n / 2 ^ 53 + of_int x / 10000"
proof -
  let ?q = "of_int (n * 10000) / (of_int x :: rat)" and ?b = "partial_bps n x"
  have x: "0 < x" and xr: "(0 :: rat) < of_int x" using assms by simp_all
  have q: "0 \<le> ?q" and xq: "of_int x * ?q = of_int n * 10000" using assms x by simp_all
  have floor: "(of_int (x * ?b) :: rat) / 10000 - 1 \<le> of_int (x * ?b div 10000)"
      "(of_int (x * ?b div 10000) :: rat) \<le> of_int (x * ?b) / 10000"
    using floor_divide_of_int_eq [of "x * ?b" 10000, where 'a = rat] by linarith+
  have "of_int ?b \<le> fl ?q + 1"
    unfolding partial_bps_def int_div_def by linarith
  then have "(of_int ?b :: rat) \<le> ?q * (1 + 1 / 2 ^ 53) + 1" using fl_at_most [OF q] by linarith
  then have "of_int x * (of_int ?b :: rat) \<le> of_int x * (?q * (1 + 1 / 2 ^ 53) + 1)"
    using xr by (intro mult_left_mono) simp_all
  also have "\<dots> = of_int n * 10000 * (1 + 1 / 2 ^ 53) + of_int x"
    unfolding distrib_left mult.assoc [symmetric] xq by simp
  finally show "(of_int (x * ?b div 10000) :: rat) \<le> of_int n + of_int n / 2 ^ 53 + of_int x / 10000"
    using floor(2) by simp
  show "of_int n - 1 - of_int n / 2 ^ 53 \<le> (of_int (x * ?b div 10000) :: rat)"
  proof (cases "?b = 10000")
    case True
    then show ?thesis using assms by simp
  next
    case False
    then have "fl ?q \<le> of_int ?b"
      unfolding partial_bps_def int_div_def by (simp add: min_def split: if_splits)
    then have "?q * (1 - 1 / 2 ^ 53) \<le> of_int ?b" using fl_at_least [OF q] by linarith
    then have "of_int x * (?q * (1 - 1 / 2 ^ 53)) \<le> of_int x * of_int ?b"
      using xr by (intro mult_left_mono) simp_all
    then have "of_int n * 10000 * (1 - 1 / 2 ^ 53) \<le> (of_int x * of_int ?b :: rat)"
      unfolding mult.assoc [symmetric] xq .
    then show ?thesis using floor(1) by simp
  qed
qed


lemma x_sum_nonneg: "\<forall>b \<in> set bs. 0 < amount_x_raw b \<Longrightarrow> 0 \<le> x_sum bs"
  by (induction bs) auto

definition lands :: "int \<Rightarrow> int \<Rightarrow> int \<Rightarrow> bool" where
  "lands want held removed \<longleftrightarrow>
     of_int (min want held) - 1 - of_int want / 2 ^ 53 \<le> (of_int removed :: rat) \<and>
     (of_int removed :: rat) \<le> of_int want + of_int want / 2 ^ 53 + of_int held / 10000"

lemma trim_lands:
  assumes "ordered bs" and "0 \<le> want" and pos: "\<forall>b \<in> set bs. 0 < amount_x_raw b"
  shows "lands want (x_sum bs) (sum_list (map expected_x_raw (trim_steps bs want)))"
  using assms(1,2)
proof (cases rule: trim_steps_shape)
  case (whole kept whole)
  have sum: "sum_list (map expected_x_raw (trim_steps bs want)) = x_sum whole"
    using whole_steps_sum [of kept whole] assms(1) whole by simp
  have "min want (x_sum bs) \<le> x_sum whole" using whole by auto
  then have "(of_int (min want (x_sum bs)) :: rat) \<le> of_int (x_sum whole)" by (simp only: of_int_le_iff)
  moreover have "(of_int (x_sum whole) :: rat) \<le> of_int want" using whole(2) by (simp only: of_int_le_iff)
  moreover have "(0 :: rat) \<le> of_int want / 2 ^ 53" "(0 :: rat) \<le> of_int (x_sum bs) / 10000"
    using assms(2) x_sum_nonneg [OF pos] by simp_all
  ultimately show ?thesis unfolding lands_def sum by linarith
next
  case (partial kept h whole)
  let ?n = "want - x_sum whole" and ?x = "amount_x_raw h"
  have o': "ordered ((kept @ [h]) @ whole)" using assms(1) partial(1) by simp
  have sum: "sum_list (map expected_x_raw (trim_steps bs want)) =
      x_sum whole + ?x * partial_bps ?n ?x div 10000"
    using whole_steps_sum [OF o'] partial(1,4) by simp
  have bounds: "0 \<le> x_sum whole" "0 \<le> x_sum kept" using pos partial(1) by (auto intro: x_sum_nonneg)
  then have "(of_int ?n :: rat) / 2 ^ 53 \<le> of_int want / 2 ^ 53" "(of_int ?x :: rat) / 10000 \<le> of_int (x_sum bs) / 10000"
    using partial(1) by (intro divide_right_mono; simp)+
  moreover have "(of_int (min want (x_sum bs)) :: rat) \<le> of_int want" by simp
  moreover have "(of_int want :: rat) = of_int (x_sum whole) + of_int ?n" by simp
  ultimately show ?thesis
    using partial_lands [OF partial(2,3)] unfolding lands_def sum of_int_add by (intro conjI; linarith)
qed

section \<open>Plans\<close>

lemma trim_steps_negative: "want < 0 \<Longrightarrow> trim_steps bs want = []"
  by (cases "rev bs") (simp_all add: trim_steps_def)

lemma x_bins_pos: "\<forall>b \<in> set (x_bins_of bins). 0 < amount_x_raw b"
  by (simp add: x_bins_of_def)

lemma upto_filter_covered: "[a..b] = xs \<Longrightarrow> b \<le> c \<Longrightarrow> filter (\<lambda>i. i \<notin> set [a..c]) xs = []"
  by (auto simp: filter_empty_conv)

lemma bin_array_index_mono: "a \<le> b \<Longrightarrow> bin_array_index a \<le> bin_array_index b"
  by (simp add: bin_array_index_def BINS_PER_ARRAY_def zdiv_mono1)

lemma covered_rent:
  assumes "lower \<le> upper" "upper \<le> highest"
  shows "\<exists>existing q. bin_array_indexes lower highest = Inr existing \<and>
    quote_rent lower upper existing False 0 = Inr q \<and> total_rent q = 0 \<and> new_bin_arrays q = []"
  using assms bin_array_index_mono [of upper highest]
  by (auto simp: bin_array_indexes_def quote_rent_def Let_def total_rent_def refundable_def non_refundable_def
      filter_empty_conv)

lemma ordered_le_last:
  assumes "ordered bs" "b \<in> set bs"
  shows "bh_bin_id b \<le> bh_bin_id (last bs)"
  using assms by (cases bs rule: rev_cases) (auto simp: ordered_def sorted_wrt_append)

lemma trim_rent_free:
  assumes o: "ordered bs" and "trim_steps bs want \<noteq> []"
  shows "\<exists>q. trim_rent (trim_steps bs want) (bh_bin_id (last bs)) = Inr q \<and> total_rent q = 0"
proof -
  have w: "0 \<le> want" using assms(2) trim_steps_negative [of want bs] by linarith
  let ?steps = "trim_steps bs want" and ?top = "bh_bin_id (last bs)"
  have range: "from_bin_id (hd ?steps) \<le> ?top \<and> to_bin_id (last ?steps) \<le> ?top"
    using o w
  proof (cases rule: trim_steps_shape)
    case (whole kept whole)
    then show ?thesis using assms(2) ordered_le_last [OF o, of "hd whole"]
      by (auto simp: whole_steps_def whole_step_def split: if_splits)
  next
    case (partial kept h whole)
    then show ?thesis using ordered_le_last [OF o, of "hd whole"] ordered_le_last [OF o, of h]
      by (auto simp: whole_steps_def whole_step_def)
  qed
  let ?lower = "from_bin_id (hd ?steps)"
  let ?upper = "if ?lower < to_bin_id (last ?steps) then to_bin_id (last ?steps) else ?top"
  have "?lower \<le> ?upper" "?upper \<le> ?top" using range by auto
  from covered_rent [OF this] obtain ex q where "bin_array_indexes ?lower ?top = Inr ex" "quote_rent ?lower ?upper ex False 0 = Inr q"
      "total_rent q = 0" by blast
  then show ?thesis by (simp add: trim_rent_def Let_def)
qed

abbreviation x_usd :: "float_lib \<Rightarrow> int \<Rightarrow> pyfloat \<Rightarrow> int \<Rightarrow> pyfloat" where
  "x_usd lib decimals price raw \<equiv> fmul (raw_to_ui lib raw decimals) price"

lemma plan_trim_Inr:
  assumes "plan_trim lib pool position bins active bin_step decimals price target symbol existing = Inr p"
  shows "tp_held_x_raw p = held_x (x_bins_of bins) \<and> tp_retained_x_raw p = tp_held_x_raw p - tp_remove_x_raw p \<and>
    tp_remove_x_raw p = sum_list (map expected_x_raw (tp_steps p)) \<and>
    (let usd = x_usd lib decimals price (held_x (x_bins_of bins)) in
     if usd \<le> target
     then tp_steps p = [] \<and>
       quote_rent active active (case existing of None \<Rightarrow> [] | Some xs \<Rightarrow> xs) False 0 = Inr (tp_rent p)
     else tp_steps p \<noteq> [] \<and> tp_steps p = trim_steps (x_bins_of bins) (want_raw lib usd target price decimals) \<and>
       trim_rent (tp_steps p) (bh_bin_id (last (x_bins_of bins))) = Inr (tp_rent p))"
  using assms unfolding plan_trim_def Let_def by (auto split: if_splits)

lemma idle_rent:
  assumes "quote_rent active active xs False 0 = Inr q"
  shows "total_rent q = (if bin_array_index active \<in> set xs then 0 else BIN_ARRAY_RENT_LAMPORTS)"
  using assms by (auto simp: quote_rent_def bin_array_indexes_def total_rent_def refundable_def non_refundable_def split: if_splits)


definition sample_lib :: float_lib where
  "sample_lib = \<lparr> m_pow = (\<lambda>x n. fl (if 0 \<le> n then x ^ nat n else 1 / x ^ nat (- n))),
     m_log = (\<lambda>x. if x \<le> 0 then Inl (ValueError ''math domain error'') else Inr (x - 1)),
     m_log1p = (\<lambda>x. if x \<le> -1 then Inl (ValueError ''math domain error'') else Inr x) \<rparr>"

definition sample_bins :: "BinHolding list" where
  "sample_bins =
     [\<lparr> bh_bin_id = 5, bh_price_per_token = 1, amount_x_raw = 1000, amount_y_raw = 50 \<rparr>,
      \<lparr> bh_bin_id = 6, bh_price_per_token = 1, amount_x_raw = 2000, amount_y_raw = 0 \<rparr>,
      \<lparr> bh_bin_id = 4, bh_price_per_token = 1, amount_x_raw = 0, amount_y_raw = 70 \<rparr>]"

abbreviation sample_trim :: "pyfloat \<Rightarrow> TrimPlan res" where
  "sample_trim target \<equiv> plan_trim sample_lib ''pool'' ''position'' sample_bins 5 100 0 1 target ''X'' None"

lemma sample_trim_plan:
  "map_sum id (\<lambda>p. (map (\<lambda>s. (from_bin_id s, to_bin_id s, step_bps s, expected_x_raw s, expected_y_raw s)) (tp_steps p),
      tp_remove_x_raw p, tp_notes p)) (sample_trim 500) =
     Inr ([(6, 6, 10000, 2000, 0), (5, 5, 5000, 500, 25)], 2500, [])"
  by code_simp

lemma sample_trim_none: "map_sum id (\<lambda>p. (tp_steps p, tp_rent p)) (sample_trim 5000) =
   Inr ([], \<lparr> position_lamports = 0, bin_array_lamports = 71437440, token_account_lamports = 0,
     new_bin_arrays = [0], positions_opened = 0 \<rparr>)"
  by code_simp

lemma sample_want: "want_raw sample_lib (x_usd sample_lib 0 1 (held_x (x_bins_of sample_bins))) 500 1 0 = 2500"
  by code_simp

text \<open>
  C26 (functional). A trim empties bins from the top, if the bins are distinct: every step takes between
  nothing and all of a bin, any bin above one that is touched is emptied, and what
  the plan says it removes is the sum of these shares of the bins. It removes no
  more than is held and retains the rest. A trim with steps owes no rent; one
  without, whose holding is at its target already, removes nothing and is quoted the rent of
  the array of the active bin unless the caller names that array among the existing ones.
\<close>

theorem trim_empties_from_the_top:
  assumes "plan_trim lib pool position bins active bin_step decimals price target symbol existing = Inr p"
    and "distinct (map bh_bin_id bins)"
  shows "from_the_top (x_bins_of bins) (tp_steps p) \<and>
    tp_remove_x_raw p = sum_list (map (\<lambda>b. amount_x_raw b * bps_at (tp_steps p) (bh_bin_id b) div 10000) (x_bins_of bins)) \<and>
    0 \<le> tp_remove_x_raw p \<and> tp_remove_x_raw p \<le> tp_held_x_raw p \<and>
    tp_held_x_raw p = held_x (x_bins_of bins) \<and>
    tp_retained_x_raw p = tp_held_x_raw p - tp_remove_x_raw p \<and>
    total_rent (tp_rent p) =
      (if tp_steps p \<noteq> [] \<or> bin_array_index active \<in> set (case existing of None \<Rightarrow> [] | Some xs \<Rightarrow> xs)
       then 0 else BIN_ARRAY_RENT_LAMPORTS)"
proof -
  let ?bs = "x_bins_of bins"
  note o = ordered_x_bins [OF assms(2)] and plan = plan_trim_Inr [OF assms(1)]
  define want where "want = want_raw lib (x_usd lib decimals price (held_x ?bs)) target price decimals"
  have steps: "tp_steps p = trim_steps ?bs want" "trim_rent (tp_steps p) (bh_bin_id (last ?bs)) = Inr (tp_rent p)"
    if "tp_steps p \<noteq> []" using plan that unfolding want_def by (auto simp: Let_def split: if_splits)
  have sums: "tp_held_x_raw p = held_x ?bs" "tp_retained_x_raw p = tp_held_x_raw p - tp_remove_x_raw p"
      "tp_remove_x_raw p = sum_list (map expected_x_raw (tp_steps p))"
    using plan by simp_all
  have top: "from_the_top ?bs (tp_steps p)"
  proof (cases "tp_steps p = []")
    case True
    then show ?thesis by (simp add: from_the_top_def shares_none)
  next
    case False
    with steps(1) have "0 \<le> want" using trim_steps_negative [of want ?bs] by fastforce
    then show ?thesis unfolding steps(1) [OF False] by (rule trim_from_the_top [OF o _ x_bins_pos])
  qed
  then have removed: "tp_remove_x_raw p =
      sum_list (map (\<lambda>b. amount_x_raw b * bps_at (tp_steps p) (bh_bin_id b) div 10000) ?bs)"
    using sums(3) by (simp add: from_the_top_def)
  have range: "0 \<le> bps_at (tp_steps p) (bh_bin_id b)" "bps_at (tp_steps p) (bh_bin_id b) \<le> 10000" if "b \<in> set ?bs" for b
    using top that unfolding from_the_top_def by blast+
  have share: "0 \<le> amount_x_raw b * bps_at (tp_steps p) (bh_bin_id b) div 10000 \<and>
      amount_x_raw b * bps_at (tp_steps p) (bh_bin_id b) div 10000 \<le> amount_x_raw b" if "b \<in> set ?bs" for b
  proof -
    have "0 \<le> amount_x_raw b" using x_bins_pos [of bins] that by (simp add: less_imp_le)
    from share_bounds [OF this range [OF that]] show ?thesis by blast
  qed
  have "0 \<le> tp_remove_x_raw p" unfolding removed using share by (intro sum_list_nonneg) auto
  moreover have "tp_remove_x_raw p \<le> tp_held_x_raw p"
    unfolding removed sums(1) held_x_def using share by (intro sum_list_mono) auto
  moreover have "total_rent (tp_rent p) =
      (if tp_steps p \<noteq> [] \<or> bin_array_index active \<in> set (case existing of None \<Rightarrow> [] | Some xs \<Rightarrow> xs)
       then 0 else BIN_ARRAY_RENT_LAMPORTS)"
  proof (cases "tp_steps p = []")
    case True
    then show ?thesis using plan by (auto simp: Let_def split: if_splits dest!: idle_rent)
  next
    case False
    then show ?thesis using trim_rent_free [OF o, of want] steps by auto
  qed
  ultimately show ?thesis using top removed sums(1,2) by blast
qed

theorem trim_empties_from_the_top_witness:
  "\<exists>p q. sample_trim 500 = Inr p \<and> from_the_top (x_bins_of sample_bins) (tp_steps p) \<and> total_rent (tp_rent p) = 0 \<and>
     sample_trim 5000 = Inr q \<and> total_rent (tp_rent q) = BIN_ARRAY_RENT_LAMPORTS"
proof -
  obtain p q where p: "sample_trim 500 = Inr p" "tp_steps p \<noteq> []" and q: "sample_trim 5000 = Inr q" "tp_steps q = []"
    using sample_trim_plan sample_trim_none by (cases "sample_trim 500"; cases "sample_trim 5000") auto
  have "distinct (map bh_bin_id sample_bins)" by (simp add: sample_bins_def)
  from trim_empties_from_the_top [OF p(1) this] trim_empties_from_the_top [OF q(1) this] p q show ?thesis by simp
qed

text \<open>
  A trim lands near its target: with \<open>want\<close> the raw amount the
  dollar target asks to remove, the steps remove no less than \<open>want\<close> (or all that is
  held) but for one raw unit and the rounding of one float division, and no more
  than \<open>want\<close> and a hundredth of a percent of what is held, but for that rounding.
\<close>

lemma trim_lands_near_the_target:
  assumes "plan_trim lib pool position bins active bin_step decimals price target symbol existing = Inr p"
    and "distinct (map bh_bin_id bins)" and "tp_steps p \<noteq> []"
  shows "lands (want_raw lib (x_usd lib decimals price (tp_held_x_raw p)) target price decimals)
    (tp_held_x_raw p) (tp_remove_x_raw p)"
proof -
  let ?bs = "x_bins_of bins"
  let ?want = "want_raw lib (x_usd lib decimals price (held_x ?bs)) target price decimals"
  have p: "tp_held_x_raw p = x_sum ?bs" "tp_steps p = trim_steps ?bs ?want"
      "tp_remove_x_raw p = sum_list (map expected_x_raw (tp_steps p))"
    using plan_trim_Inr [OF assms(1)] assms(3) by (auto simp: Let_def held_x_def split: if_splits)
  have "0 \<le> ?want" using assms(3) trim_steps_negative [of ?want ?bs] p(2) by fastforce
  from trim_lands [OF ordered_x_bins [OF assms(2)] this x_bins_pos] show ?thesis
    using p by (simp add: held_x_def)
qed

text \<open>
  A plan that removes nothing is charged for a bin array: when the
  holding is already at its target, the quote is taken against the caller's set of
  existing arrays, so without one it bills the array of the active bin, 71437440
  lamports that are never paid, although a removal creates nothing.
\<close>

lemma idle_trim_is_charged_an_array:
  assumes "plan_trim lib pool position bins active bin_step decimals price target symbol None = Inr p"
    and "tp_steps p = []"
  shows "tp_remove_x_raw p = 0 \<and> non_refundable (tp_rent p) = BIN_ARRAY_RENT_LAMPORTS \<and>
    new_bin_arrays (tp_rent p) = [bin_array_index active]"
  using plan_trim_Inr [OF assms(1)] assms(2)
  by (auto simp: Let_def quote_rent_def bin_array_indexes_def non_refundable_def dest!: sym [of _ "tp_rent p"] split: if_splits)

section \<open>What a ladder deposits\<close>

lemma rung_amounts_sum:
  assumes "1 \<le> w"
  shows "sum_list (map (\<lambda>i. rung_amount d w (i - lo)) [lo .. lo + w - 1]) = d"
proof -
  let ?per = "d div w"
  have split: "[lo .. lo + w - 1] = [lo .. lo + w - 2] @ [lo + w - 1]"
    using assms upto_rec2 [of lo "lo + w - 1"] by (simp add: algebra_simps)
  have "map (\<lambda>i. rung_amount d w (i - lo)) [lo .. lo + w - 2] = replicate (nat (w - 1)) ?per"
    by (rule nth_equalityI) (auto simp: rung_amount_def Let_def algebra_simps)
  then have "sum_list (map (\<lambda>i. rung_amount d w (i - lo)) [lo .. lo + w - 2]) = (w - 1) * ?per"
    using assms by (simp add: sum_list_replicate)
  then show ?thesis unfolding split by (simp add: rung_amount_def Let_def algebra_simps)
qed

lemma cheapest_in: "cheapest c cs \<in> set (c # cs)"
  by (induction cs arbitrary: c) (auto split: if_splits)

lemma cheapest_least: "x \<in> set (c # cs) \<Longrightarrow> \<not> cheaper x (cheapest c cs)"
proof (induction cs arbitrary: c x)
  case (Cons a cs)
  let ?best = "if cheaper a c then a else c"
  have best: "\<not> cheaper ?best (cheapest ?best cs)" by (rule Cons.IH) simp
  consider "x \<in> set cs" | "x = a \<or> x = c" using Cons.prems by auto
  then show ?case
  proof cases
    case 1
    then show ?thesis using Cons.IH [of x ?best] by simp
  next
    case 2
    then have "\<not> cheaper x ?best" by (auto simp: cheaper_def)
    then show ?thesis using best by (auto simp: cheaper_def split: if_splits)
  qed
qed (simp add: cheaper_def)

definition deposit_rent :: "int \<Rightarrow> int \<Rightarrow> int list \<Rightarrow> int" where
  "deposit_rent lower upper existing =
     BIN_ARRAY_RENT_LAMPORTS * int (length (filter (\<lambda>i. i \<notin> set existing) (deposit_bin_array_indexes lower upper)))"

definition candidate_of :: "float_lib \<Rightarrow> int \<Rightarrow> int \<Rightarrow> int list \<Rightarrow> int \<Rightarrow> candidate" where
  "candidate_of lib active bin_step existing w =
     (case ladder_candidate lib active bin_step existing w of Inr c \<Rightarrow> c)"

lemma ladder_candidate_Inr:
  "ladder_candidate lib active bin_step existing w = Inr (candidate_of lib active bin_step existing w)"
  "cand_width (candidate_of lib active bin_step existing w) = w"
  "cand_min_bin_id (candidate_of lib active bin_step existing w) = active + 1"
  "cand_max_bin_id (candidate_of lib active bin_step existing w) = active + w"
  "non_refundable (cand_rent (candidate_of lib active bin_step existing w)) =
     deposit_rent (active + 1) (active + w) existing"
  by (simp_all add: candidate_of_def ladder_candidate_def quote_rent_def Let_def non_refundable_def deposit_rent_def)

lemma candidates_all:
  "rmapM (ladder_candidate lib active bin_step existing) ws = Inr (map (candidate_of lib active bin_step existing) ws)"
  by (induction ws) (simp_all add: ladder_candidate_Inr)

lemma plan_ladder_Inr:
  assumes "plan_ladder lib pool name active bin_step dx dy deposit price sol existing reach xs ys max_width = Inr p"
    and "needed_width lib bin_step reach = Inr n"
  obtains w spot where "w \<in> {n .. min max_width (n + 12)}"
    "\<forall>v \<in> {n .. min max_width (n + 12)}. deposit_rent (active + 1) (active + w) existing \<le> deposit_rent (active + 1) (active + v) existing"
    "lp_rungs p = map (ladder_rung lib bin_step dx dy sol spot deposit w (active + 1)) [active + 1 .. active + w]"
    "non_refundable (lp_rent p) = deposit_rent (active + 1) (active + w) existing"
    "0 < deposit" "lp_rent_share_of_deposit p \<le> MAX_RENT_SHARE_OF_DEPLOYED" "lp_deposit_x_raw p = deposit"
proof -
  let ?ws = "[n .. min max_width (n + 12)]" and ?c = "candidate_of lib active bin_step existing"
  have ok: "0 < deposit" using assms(1) by (simp add: plan_ladder_def split: if_splits)
  note run = assms(1) [unfolded plan_ladder_def assms(2) Let_def rbind_Inr candidates_all]
  obtain v vs where ws: "?ws = v # vs" using run by (cases ?ws) (auto split: if_splits)
  have "cheapest (?c v) (map ?c vs) \<in> set (map ?c ?ws)"
    unfolding ws using cheapest_in [of "?c v" "map ?c vs"] by simp
  then obtain w where w: "w \<in> set ?ws" "cheapest (?c v) (map ?c vs) = ?c w" by auto
  have least: "deposit_rent (active + 1) (active + w) existing \<le> deposit_rent (active + 1) (active + u) existing"
    if "u \<in> set ?ws" for u
  proof -
    have "\<not> cheaper (?c u) (?c w)" using cheapest_least [of "?c u" "?c v" "map ?c vs"] that w(2) unfolding ws by auto
    then show ?thesis by (auto simp: cheaper_def ladder_candidate_Inr)
  qed
  let ?spot = "bin_price_ui lib active bin_step dx dy"
  have "lp_rungs p = map (ladder_rung lib bin_step dx dy sol ?spot deposit w (active + 1)) [active + 1 .. active + w] \<and>
      lp_rent p = cand_rent (?c w) \<and> lp_rent_share_of_deposit p \<le> MAX_RENT_SHARE_OF_DEPLOYED \<and> lp_deposit_x_raw p = deposit"
    using run unfolding ws list.map list.case w(2)
    by (auto simp: ladder_candidate_Inr split: if_splits option.splits)
  then show thesis using that [of w ?spot] w(1) least ok by (simp add: ladder_candidate_Inr)
qed

abbreviation sample_ladder :: "LadderPlan res" where
  "sample_ladder \<equiv> plan_ladder sample_lib ''pool'' ''X/SOL'' 0 5000 0 0 1001 1 1 [0, 1] 100 ''X'' ''SOL'' 3"

lemma sample_width: "needed_width sample_lib 5000 100 = Inr 2"
  by code_simp

lemma sample_ladder_plan:
  "map_sum id (\<lambda>p. map (\<lambda>r. (rung_bin_id r, rung_amount_x_raw r)) (lp_rungs p)) sample_ladder = Inr [(1, 500), (2, 501)]"
  by code_simp

text \<open>
  A ladder plan posts the whole deposit and nothing else: its
  rungs are the consecutive bins from the one above the active bin, no more than the
  transaction limit, their amounts sum to the deposit, and none gets less than the
  even share. Its non-refundable rent is the least of all widths it may choose from
  and at most four percent of the deposit's value.
\<close>

lemma ladder_posts_the_deposit:
  assumes "plan_ladder lib pool name active bin_step dx dy deposit price sol existing reach x y max_width = Inr p"
    and "needed_width lib bin_step reach = Inr n"
  shows "map rung_bin_id (lp_rungs p) = [active + 1 .. active + int (length (lp_rungs p))] \<and>
    int (length (lp_rungs p)) \<le> max_width \<and> lp_deposit_x_raw p = deposit \<and>
    sum_list (map rung_amount_x_raw (lp_rungs p)) = deposit \<and>
    (\<forall>r \<in> set (lp_rungs p). deposit div int (length (lp_rungs p)) \<le> rung_amount_x_raw r) \<and>
    (\<forall>w \<in> {n .. min max_width (n + 12)}.
       non_refundable (lp_rent p) \<le> deposit_rent (active + 1) (active + w) existing) \<and>
    lp_rent_share_of_deposit p \<le> MAX_RENT_SHARE_OF_DEPLOYED"
proof -
  obtain w spot where w: "w \<in> {n .. min max_width (n + 12)}"
    and least: "\<forall>v \<in> {n .. min max_width (n + 12)}.
      deposit_rent (active + 1) (active + w) existing \<le> deposit_rent (active + 1) (active + v) existing"
    and rungs: "lp_rungs p = map (ladder_rung lib bin_step dx dy sol spot deposit w (active + 1)) [active + 1 .. active + w]"
    and rest: "non_refundable (lp_rent p) = deposit_rent (active + 1) (active + w) existing" "0 < deposit"
      "lp_rent_share_of_deposit p \<le> MAX_RENT_SHARE_OF_DEPLOYED" "lp_deposit_x_raw p = deposit"
    using plan_ladder_Inr [OF assms] by metis
  have "1 \<le> n" using assms(2) by (auto simp: needed_width_def)
  then have w1: "1 \<le> w" using w by simp
  then have len: "int (length (lp_rungs p)) = w" using rungs by simp
  have ids: "map rung_bin_id (lp_rungs p) = [active + 1 .. active + w]"
    unfolding rungs by (simp add: ladder_rung_def Let_def comp_def)
  have amounts: "map rung_amount_x_raw (lp_rungs p) =
      map (\<lambda>i. rung_amount deposit w (i - (active + 1))) [active + 1 .. active + 1 + w - 1]"
    unfolding rungs by (simp add: ladder_rung_def Let_def comp_def)
  have "deposit div w * w \<le> deposit" using w1 minus_mod_eq_div_mult [of deposit w] pos_mod_sign [of w deposit] by linarith
  then have "deposit div w \<le> rung_amount deposit w k" for k by (simp add: rung_amount_def Let_def)
  then have "\<forall>r \<in> set (lp_rungs p). deposit div w \<le> rung_amount_x_raw r"
    unfolding rungs by (auto simp: ladder_rung_def Let_def)
  then show ?thesis
    using ids len amounts rung_amounts_sum [OF w1, of deposit "active + 1"] least rest w by simp
qed

end
