(* ===== verification/Policies.thy ===== *)
theory Policies
  imports Clients
begin

text \<open>
  The policy validator and the policy file
  (\<open>joshibot/shitcoims_sentinel/policies.py\<close>, and the positions loop of
  \<open>load_config\<close> in \<open>config.py\<close>): a payload of the dashboard or of the YAML
  file becomes a \<open>PositionPolicy\<close> or an error, and a policy is rendered back.

  A payload is a JSON object. \<open>Pubkey.from_string\<close> of the \<open>solders\<close> package is
  the argument \<open>pubkey\<close>: the canonical text of a public key, or nothing.
  \<open>float\<close> is the argument \<open>flt\<close>: the decimal whose text the written number
  has, which is the decimal itself while it has at most fifteen significant digits.
\<close>

section \<open>Python on texts\<close>

definition is_space :: "char \<Rightarrow> bool" where
  "is_space c \<longleftrightarrow> (let n = (of_char c :: int) in 9 \<le> n \<and> n \<le> 13 \<or> 28 \<le> n \<and> n \<le> 32)"

definition strip :: "string \<Rightarrow> string" where
  "strip s = rev (dropWhile is_space (rev (dropWhile is_space s)))"

definition lower_char :: "char \<Rightarrow> char" where
  "lower_char c = (let n = (of_char c :: int) in if 65 \<le> n \<and> n \<le> 90 then char_of (n + 32) else c)"

fun contains :: "string \<Rightarrow> string \<Rightarrow> bool" where
  "contains part [] = (part = [])"
| "contains part (c # s) = (take (length part) (c # s) = part \<or> contains part s)"

text \<open>\<open>v in {None, ""}\<close>: membership in a set needs a hashable value.\<close>

fun blank :: "json \<Rightarrow> bool res" where
  "blank JNull = Inr True"
| "blank (JStr s) = Inr (s = [])"
| "blank (JList xs) = Inl (TypeError ''unhashable type'')"
| "blank (JObj m) = Inl (TypeError ''unhashable type'')"
| "blank v = Inr False"

text \<open>\<open>Decimal(str(v))\<close>: a text that is a number is \<open>JDec\<close>.\<close>

fun decimal_from :: "json \<Rightarrow> string \<Rightarrow> decimal res" where
  "decimal_from (JInt i) field = Inr (of_int i)"
| "decimal_from (JReal r) field = Inr r"
| "decimal_from (JDec d) field = Inr d"
| "decimal_from v field = Inl (ValueError (field @ '' must be a decimal number''))"

text \<open>\<open>str(exc)\<close>.\<close>

fun exc_text :: "py_exc \<Rightarrow> string" where
  "exc_text (ValueError m) = m"
| "exc_text (TypeError m) = m"
| "exc_text (PolicyError m) = m"
| "exc_text _ = ''error''"

fun is_policy_error :: "py_exc \<Rightarrow> bool" where
  "is_policy_error (PolicyError m) = True"
| "is_policy_error e = False"

text \<open>\<open>except PolicyError: raise; except Exception as exc: raise PolicyError(str(exc))\<close>.\<close>

definition as_policy_error :: "'a res \<Rightarrow> 'a res" where
  "as_policy_error r =
     (case r of Inl e \<Rightarrow> Inl (if is_policy_error e then e else PolicyError (exc_text e)) | Inr v \<Rightarrow> Inr v)"

section \<open>The rendered policy\<close>

definition POLICY_FIELDS :: "string list" where
  "POLICY_FIELDS = [''mint'', ''name'', ''buy_price_sol'', ''cost_basis_sol'', ''stop_loss_pct'', ''take_profit_pct'',
     ''runner_tightness'', ''rug_exit'', ''dispose_after_break_even'', ''floor_confirm_quotes'',
     ''hold_trail_until_graduated'']"

definition BLOCKED :: "string list" where
  "BLOCKED = [''execution'', ''enabled'', ''live'', ''secret'', ''keypair'', ''api_key'', ''wallet'', ''signed'',
     ''transaction'']"

definition percent :: "(decimal \<Rightarrow> decimal) \<Rightarrow> decimal option \<Rightarrow> json" where
  "percent flt v = (case v of None \<Rightarrow> JNull | Some d \<Rightarrow> JReal (flt d))"

definition basis_keys :: "(decimal \<Rightarrow> decimal) \<Rightarrow> PositionPolicy \<Rightarrow> obj" where
  "basis_keys flt p =
     (case pp_cost_basis_sol p of None \<Rightarrow> [] | Some d \<Rightarrow> [(''cost_basis_sol'', JReal (flt d))]) @
     (case pp_buy_price_sol p of None \<Rightarrow> [] | Some d \<Rightarrow> [(''buy_price_sol'', JReal (flt d))])"

definition policy_to_yaml_mapping :: "(decimal \<Rightarrow> decimal) \<Rightarrow> PositionPolicy \<Rightarrow> obj" where
  "policy_to_yaml_mapping flt p =
     [(''mint'', JStr (pp_mint p)), (''name'', JStr (pp_name p)),
      (''stop_loss_pct'', percent flt (pp_stop_loss_pct p)),
      (''take_profit_pct'', percent flt (pp_take_profit_pct p)),
      (''runner_tightness'', percent flt (pp_runner_tightness p)),
      (''rug_exit'', JBool (pp_rug_exit p)),
      (''dispose_after_break_even'', JBool (pp_dispose_after_break_even p)),
      (''floor_confirm_quotes'', JInt (pp_floor_confirm_quotes p)),
      (''hold_trail_until_graduated'', JBool (pp_hold_trail_until_graduated p))] @ basis_keys flt p"

definition policy_to_api_mapping :: "(decimal \<Rightarrow> decimal) \<Rightarrow> PositionPolicy \<Rightarrow> obj" where
  "policy_to_api_mapping flt p =
     [(''mint'', JStr (pp_mint p)), (''name'', JStr (pp_name p)),
      (''stop_loss_pct'', percent flt (pp_stop_loss_pct p)),
      (''take_profit_pct'', percent flt (pp_take_profit_pct p)),
      (''runner_tightness'', percent flt (pp_runner_tightness p)),
      (''rug_exit'', JBool (pp_rug_exit p)),
      (''dispose_after_break_even'', JBool (pp_dispose_after_break_even p)),
      (''floor_confirm_quotes'', JInt (pp_floor_confirm_quotes p)),
      (''hold_trail_until_graduated'', JBool (pp_hold_trail_until_graduated p))] @ basis_keys flt p"

section \<open>The validator\<close>

definition refuse_blocked :: "obj \<Rightarrow> unit res" where
  "refuse_blocked payload =
     (case find (\<lambda>(key, v). let lowered = map lower_char key
                  in lowered \<in> set BLOCKED \<or> (\<exists>part \<in> set BLOCKED. contains part lowered)) payload of
        Some (key, v) \<Rightarrow> Inl (PolicyError (''policy payload cannot include '' @ key))
      | None \<Rightarrow> Inr ())"

definition strict_bool :: "json \<Rightarrow> string \<Rightarrow> bool res" where
  "strict_bool v field =
     (case v of JBool b \<Rightarrow> Inr b | _ \<Rightarrow> Inl (PolicyError (field @ '' must be true or false'')))"

definition confirm_quotes :: "json \<Rightarrow> int res" where
  "confirm_quotes v =
     (case v of
        JBool b \<Rightarrow> Inl (PolicyError ''floor_confirm_quotes must be a whole number'')
      | _ \<Rightarrow> (case int_of_json v of
                Some i \<Rightarrow> Inr i
              | None \<Rightarrow> Inl (PolicyError ''floor_confirm_quotes must be a whole number'')))"

definition optional_percent :: "obj \<Rightarrow> string \<Rightarrow> decimal option \<Rightarrow> decimal option res" where
  "optional_percent payload field fallback =
     (case map_of payload field of
        None \<Rightarrow> Inr fallback
      | Some v \<Rightarrow>
          rbind (blank v) (\<lambda>empty.
            if empty then Inr None else rbind (decimal_from v field) (\<lambda>d. Inr (Some d))))"

definition optional_basis :: "json \<Rightarrow> string \<Rightarrow> decimal option res" where
  "optional_basis v field =
     rbind (blank v) (\<lambda>empty. if empty then Inr None else rbind (decimal_from v field) (\<lambda>d. Inr (Some d)))"

definition FIXED_TRAIL_MESSAGE :: string where
  "FIXED_TRAIL_MESSAGE =
     ''exit_style: fixed_trail is no longer supported -- it sold a 10x that wicked '' @
     ''22%. Delete the exit_style key and set runner_tightness (20 is the '' @
     ''canonical lock-rung table), or set runner_tightness: null for no trailing '' @
     ''behaviour at all''"

definition quoted :: "string \<Rightarrow> string" where
  "quoted s = [CHR 0x27] @ s @ [CHR 0x27]"

definition migrate_policy_payload :: "json \<Rightarrow> obj res" where
  "migrate_policy_payload payload =
     (case obj_of payload of
        None \<Rightarrow> Inl (PolicyError ''policy payload must be an object'')
      | Some m \<Rightarrow>
          rbind (case map_of m ''exit_style'' of
                   None \<Rightarrow> Inr m
                 | Some v \<Rightarrow>
                     let style = strip (if truthy v then json_text v else ''runner'')
                     in if style = ''fixed_trail'' then Inl (PolicyError FIXED_TRAIL_MESSAGE)
                        else if style \<noteq> ''runner'' then Inl (PolicyError (''exit_style is no longer a policy field and '' @ quoted style @
                               '' was never a valid value; delete the key''))
                        else Inr (AList.delete ''exit_style'' m)) (\<lambda>migrated.
          case map_of migrated ''trailing_stop_pct'' of
            None \<Rightarrow> Inr migrated
          | Some v \<Rightarrow>
              if map_of migrated ''runner_tightness'' \<noteq> None
              then Inl (PolicyError ''set runner_tightness, not both it and the legacy trailing_stop_pct'')
              else Inr (AList.update ''runner_tightness'' v (AList.delete ''trailing_stop_pct'' migrated))))"

definition embedded_matches :: "json \<Rightarrow> string \<Rightarrow> unit res" where
  "embedded_matches embedded mint =
     rbind (blank embedded) (\<lambda>empty.
       rguard (empty \<or> strip (json_text embedded) = mint)
         (PolicyError ''payload mint does not match the policy being written''))"

definition one_basis :: "json \<Rightarrow> json \<Rightarrow> unit res" where
  "one_basis buy_price cost_basis =
     rbind (blank buy_price) (\<lambda>no_price.
       if no_price then Inr ()
       else rbind (blank cost_basis) (\<lambda>no_cost.
              rguard no_cost (PolicyError ''set exactly one of cost_basis_sol or buy_price_sol'')))"

text \<open>The constructor call, its arguments in order.\<close>

definition build_policy :: "string \<Rightarrow> obj \<Rightarrow> PolicyDefaults \<Rightarrow> PositionPolicy res" where
  "build_policy mint payload defaults =
     rbind (optional_basis (jget ''buy_price_sol'' payload) ''buy_price_sol'') (\<lambda>buy_price.
     rbind (optional_basis (jget ''cost_basis_sol'' payload) ''cost_basis_sol'') (\<lambda>cost_basis.
     rbind (optional_percent payload ''stop_loss_pct'' (pd_stop_loss_pct defaults)) (\<lambda>stop_loss.
     rbind (optional_percent payload ''take_profit_pct'' (pd_take_profit_pct defaults)) (\<lambda>take_profit.
     rbind (optional_percent payload ''runner_tightness'' (pd_runner_tightness defaults)) (\<lambda>tightness.
     rbind (strict_bool (jget_or ''rug_exit'' (JBool (pd_rug_exit defaults)) payload) ''rug_exit'') (\<lambda>rug.
     rbind (strict_bool (jget_or ''dispose_after_break_even'' (JBool (pd_dispose_after_break_even defaults)) payload)
              ''dispose_after_break_even'') (\<lambda>dispose.
     rbind (confirm_quotes (jget_or ''floor_confirm_quotes'' (JInt (pd_floor_confirm_quotes defaults)) payload)) (\<lambda>quotes.
     rbind (strict_bool (jget_or ''hold_trail_until_graduated'' (JBool (pd_hold_trail_until_graduated defaults)) payload)
              ''hold_trail_until_graduated'') (\<lambda>hold.
       Inr \<lparr> pp_mint = mint,
             pp_name = take 48 (if truthy (jget ''name'' payload) then json_text (jget ''name'' payload) else take 8 mint),
             pp_buy_price_sol = buy_price, pp_cost_basis_sol = cost_basis, pp_stop_loss_pct = stop_loss,
             pp_take_profit_pct = take_profit, pp_runner_tightness = tightness, pp_rug_exit = rug,
             pp_dispose_after_break_even = dispose, pp_floor_confirm_quotes = quotes,
             pp_hold_trail_until_graduated = hold \<rparr>)))))))))"

definition check_policy :: "PositionPolicy \<Rightarrow> PositionPolicy res" where
  "check_policy p =
     rbind (rguard (case pp_stop_loss_pct p of None \<Rightarrow> True | Some d \<Rightarrow> d < 0)
              (PolicyError ''stop_loss_pct must be negative, or null for no stop at all'')) (\<lambda>_.
     rbind (rguard (case pp_take_profit_pct p of None \<Rightarrow> True | Some d \<Rightarrow> 0 < d)
              (PolicyError ''take_profit_pct must be positive, or null for no take profit'')) (\<lambda>_.
     rbind (rguard (case pp_runner_tightness p of None \<Rightarrow> True | Some d \<Rightarrow> 0 < d \<and> d < 100)
              (PolicyError ''runner_tightness must be in (0, 100), or null for no trailing behaviour'')) (\<lambda>_.
     rbind (rguard (1 \<le> pp_floor_confirm_quotes p \<and> pp_floor_confirm_quotes p \<le> 6)
              (PolicyError ''floor_confirm_quotes must be in [1, 6]'')) (\<lambda>_.
     rbind (rguard ((case pp_buy_price_sol p of None \<Rightarrow> True | Some d \<Rightarrow> 0 < d) \<and>
                    (case pp_cost_basis_sol p of None \<Rightarrow> True | Some d \<Rightarrow> 0 < d))
              (PolicyError ''cost basis must be positive'')) (\<lambda>_. Inr p)))))"

definition unknown_fields :: "obj \<Rightarrow> string list" where
  "unknown_fields payload = sort (filter (\<lambda>k. k \<notin> set POLICY_FIELDS) (remdups (map fst payload)))"

definition policy_from_payload ::
  "(string \<Rightarrow> string option) \<Rightarrow> string \<Rightarrow> json \<Rightarrow> PolicyDefaults \<Rightarrow> PositionPolicy res" where
  "policy_from_payload pubkey mint raw defaults =
     rbind (migrate_policy_payload raw) (\<lambda>payload.
     rbind (refuse_blocked payload) (\<lambda>_.
     rbind (rguard (unknown_fields payload = []) (PolicyError (''unknown policy fields: '' @ join_with '', '' (unknown_fields payload)))) (\<lambda>_.
     rbind (case pubkey (strip mint) of
              None \<Rightarrow> Inl (PolicyError ''mint is not a Solana public key'') | Some m \<Rightarrow> Inr m) (\<lambda>parsed_mint.
     rbind (embedded_matches (jget ''mint'' payload) parsed_mint) (\<lambda>_.
     rbind (one_basis (jget ''buy_price_sol'' payload) (jget ''cost_basis_sol'' payload)) (\<lambda>_.
     rbind (as_policy_error (build_policy parsed_mint payload defaults)) check_policy))))))"

section \<open>Sets of policies\<close>

definition PROBE_MINT :: string where
  "PROBE_MINT = replicate 32 (CHR ''1'')"

definition DEFAULT_FIELDS :: "string list" where
  "DEFAULT_FIELDS = [''stop_loss_pct'', ''take_profit_pct'', ''runner_tightness'', ''rug_exit'',
     ''dispose_after_break_even'', ''floor_confirm_quotes'', ''hold_trail_until_graduated'']"

definition policy_defaults_from_payload :: "(string \<Rightarrow> string option) \<Rightarrow> json \<Rightarrow> PolicyDefaults res" where
  "policy_defaults_from_payload pubkey payload =
     (case obj_of payload of
        None \<Rightarrow> Inl (PolicyError ''policy defaults must be an object'')
      | Some m \<Rightarrow>
          rbind (policy_from_payload pubkey PROBE_MINT (JObj (filter (\<lambda>(k, v). k \<in> set DEFAULT_FIELDS) m)) DEFAULTS)
            (\<lambda>p. Inr \<lparr> pd_stop_loss_pct = pp_stop_loss_pct p, pd_take_profit_pct = pp_take_profit_pct p,
                        pd_runner_tightness = pp_runner_tightness p, pd_rug_exit = pp_rug_exit p,
                        pd_dispose_after_break_even = pp_dispose_after_break_even p,
                        pd_floor_confirm_quotes = pp_floor_confirm_quotes p,
                        pd_hold_trail_until_graduated = pp_hold_trail_until_graduated p \<rparr>))"

text \<open>The state of the merge: the merged policies, the created mints and what was skipped.\<close>

record merge =
  mg_merged :: "PositionPolicy list"
  mg_created :: "string list"
  mg_skipped :: "(string \<times> string) list"

definition skip_row :: "string \<Rightarrow> string \<Rightarrow> merge \<Rightarrow> merge" where
  "skip_row mint reason g = g\<lparr>mg_skipped := mg_skipped g @ [(mint, reason)]\<rparr>"

definition merge_row ::
  "(string \<Rightarrow> string option) \<Rightarrow> PolicyDefaults \<Rightarrow> json \<Rightarrow> merge \<Rightarrow> merge res" where
  "merge_row pubkey defaults row g =
     (case obj_of row of
        None \<Rightarrow> Inr (skip_row [] ''unmonitored row must be an object'' g)
      | Some m \<Rightarrow>
          let raw_mint = strip (if truthy (jget ''mint'' m) then json_text (jget ''mint'' m) else [])
          in if raw_mint = [] then Inr (skip_row [] ''missing mint'' g)
             else
               (case pubkey raw_mint of
                  None \<Rightarrow> Inr (skip_row raw_mint ''mint is not a Solana public key'' g)
                | Some mint \<Rightarrow>
                    if mint \<in> set (map pp_mint (mg_merged g)) then Inr g
                    else
                      (case policy_from_payload pubkey mint
                              (JObj [(''name'', JStr (take 48 (if truthy (jget ''name'' m)
                                                            then json_text (jget ''name'' m) else take 8 mint)))])
                              defaults of
                         Inl e \<Rightarrow> if is_policy_error e then Inr (skip_row mint (exc_text e) g) else Inl e
                       | Inr p \<Rightarrow> Inr (g\<lparr>mg_merged := mg_merged g @ [p], mg_created := mg_created g @ [pp_mint p]\<rparr>))))"

definition policies_for_unmonitored ::
  "(string \<Rightarrow> string option) \<Rightarrow> json list \<Rightarrow> PositionPolicy list \<Rightarrow> string \<Rightarrow> PolicyDefaults \<Rightarrow> merge res" where
  "policies_for_unmonitored pubkey unmonitored current mode defaults =
     (if mode \<noteq> ''rug_only''
      then Inl (PolicyError ''mode must be rug_only; a basis is never seeded from an exit quote'')
      else rfold (merge_row pubkey defaults) unmonitored \<lparr> mg_merged = current, mg_created = [], mg_skipped = [] \<rparr>)"

definition policy_without_basis :: "PositionPolicy \<Rightarrow> PositionPolicy" where
  "policy_without_basis p = p\<lparr>pp_cost_basis_sol := None, pp_buy_price_sol := None\<rparr>"

section \<open>The file\<close>

text \<open>The document that is written in place of the old one; its text and the file are YAML's.\<close>

definition positions_document :: "(decimal \<Rightarrow> decimal) \<Rightarrow> obj \<Rightarrow> PositionPolicy list \<Rightarrow> obj" where
  "positions_document flt document policies =
     AList.update ''positions'' (JList (map (\<lambda>p. JObj (policy_to_yaml_mapping flt p)) policies)) document"

text \<open>The positions loop of \<open>load_config\<close>: the policies so far, the mints seen and the index.\<close>

definition load_position ::
  "(string \<Rightarrow> string option) \<Rightarrow> json \<Rightarrow> PositionPolicy list \<times> string list \<Rightarrow> (PositionPolicy list \<times> string list) res" where
  "load_position pubkey entry acc =
     (let here = ''positions['' @ int_text (int (length (snd acc))) @ '']''
      in case obj_of entry of
           None \<Rightarrow> Inl (ConfigError (here @ '' must be a mapping''))
         | Some pos \<Rightarrow>
             let mint = strip (json_text (jget_or ''mint'' (JStr []) pos))
             in if mint = [] \<or> mint \<in> set (snd acc)
                then Inl (ConfigError (here @ ''.mint is missing or duplicated''))
                else
                  (case policy_from_payload pubkey mint (JObj pos) DEFAULTS of
                     Inl e \<Rightarrow> Inl (if is_policy_error e then ConfigError (here @ '': '' @ exc_text e) else e)
                   | Inr p \<Rightarrow> Inr (fst acc @ [p], snd acc @ [mint])))"

text \<open>\<open>for item in v\<close>: a list, the keys of an object, the characters of a text.\<close>

fun iterate :: "json \<Rightarrow> json list res" where
  "iterate (JList xs) = Inr xs"
| "iterate (JObj m) = Inr (map (JStr \<circ> fst) m)"
| "iterate (JStr s) = Inr (map (\<lambda>c. JStr [c]) s)"
| "iterate _ = Inl (TypeError ''object is not iterable'')"

definition load_positions :: "(string \<Rightarrow> string option) \<Rightarrow> obj \<Rightarrow> PositionPolicy list res" where
  "load_positions pubkey config =
     rbind (iterate (jget_or ''positions'' (JList []) config)) (\<lambda>items.
     rbind (rfold (load_position pubkey) items ([], [])) (\<lambda>acc. Inr (fst acc)))"

section \<open>Accepted policies\<close>

text \<open>What the policy function may rely on.\<close>

definition policy_ok :: "PositionPolicy \<Rightarrow> bool" where
  "policy_ok p \<longleftrightarrow>
     pp_name p \<noteq> [] \<and> length (pp_name p) \<le> 48 \<and>
     (\<forall>d. pp_stop_loss_pct p = Some d \<longrightarrow> d < 0) \<and>
     (\<forall>d. pp_take_profit_pct p = Some d \<longrightarrow> 0 < d) \<and>
     (\<forall>d. pp_runner_tightness p = Some d \<longrightarrow> 0 < d \<and> d < 100) \<and>
     1 \<le> pp_floor_confirm_quotes p \<and> pp_floor_confirm_quotes p \<le> 6 \<and>
     (\<forall>d. pp_buy_price_sol p = Some d \<longrightarrow> 0 < d) \<and>
     (\<forall>d. pp_cost_basis_sol p = Some d \<longrightarrow> 0 < d) \<and>
     (pp_buy_price_sol p = None \<or> pp_cost_basis_sol p = None)"

text \<open>What \<open>solders\<close> documents of \<open>Pubkey.from_string\<close>: its text is canonical and not empty.\<close>

definition canonical :: "(string \<Rightarrow> string option) \<Rightarrow> bool" where
  "canonical pubkey \<longleftrightarrow> (\<forall>s m. pubkey s = Some m \<longrightarrow> m \<noteq> [] \<and> strip m = m \<and> pubkey m = Some m)"

lemma check_policy_Inr [simp]:
  "check_policy p = Inr q \<longleftrightarrow> q = p \<and>
     (\<forall>d. pp_stop_loss_pct p = Some d \<longrightarrow> d < 0) \<and> (\<forall>d. pp_take_profit_pct p = Some d \<longrightarrow> 0 < d) \<and>
     (\<forall>d. pp_runner_tightness p = Some d \<longrightarrow> 0 < d \<and> d < 100) \<and>
     1 \<le> pp_floor_confirm_quotes p \<and> pp_floor_confirm_quotes p \<le> 6 \<and>
     (\<forall>d. pp_buy_price_sol p = Some d \<longrightarrow> 0 < d) \<and> (\<forall>d. pp_cost_basis_sol p = Some d \<longrightarrow> 0 < d)"
  by (auto simp: check_policy_def split: option.splits)

lemma as_policy_error_Inr [simp]: "as_policy_error r = Inr v \<longleftrightarrow> r = Inr v"
  by (simp add: as_policy_error_def split: sum.splits)

lemma optional_basis_blank: "blank v = Inr True \<Longrightarrow> optional_basis v field = Inr None"
  by (simp add: optional_basis_def)

lemma build_policy_Inr:
  assumes "build_policy mint payload defaults = Inr p"
  shows "pp_mint p = mint"
    and "pp_name p = take 48 (if truthy (jget ''name'' payload) then json_text (jget ''name'' payload) else take 8 mint)"
    and "optional_basis (jget ''buy_price_sol'' payload) ''buy_price_sol'' = Inr (pp_buy_price_sol p)"
    and "optional_basis (jget ''cost_basis_sol'' payload) ''cost_basis_sol'' = Inr (pp_cost_basis_sol p)"
    and "optional_percent payload ''stop_loss_pct'' (pd_stop_loss_pct defaults) = Inr (pp_stop_loss_pct p)"
    and "optional_percent payload ''take_profit_pct'' (pd_take_profit_pct defaults) = Inr (pp_take_profit_pct p)"
    and "optional_percent payload ''runner_tightness'' (pd_runner_tightness defaults) = Inr (pp_runner_tightness p)"
    and "strict_bool (jget_or ''rug_exit'' (JBool (pd_rug_exit defaults)) payload) ''rug_exit'' = Inr (pp_rug_exit p)"
    and "strict_bool (jget_or ''dispose_after_break_even'' (JBool (pd_dispose_after_break_even defaults)) payload)
      ''dispose_after_break_even'' = Inr (pp_dispose_after_break_even p)"
    and "confirm_quotes (jget_or ''floor_confirm_quotes'' (JInt (pd_floor_confirm_quotes defaults)) payload) =
      Inr (pp_floor_confirm_quotes p)"
    and "strict_bool (jget_or ''hold_trail_until_graduated'' (JBool (pd_hold_trail_until_graduated defaults)) payload)
      ''hold_trail_until_graduated'' = Inr (pp_hold_trail_until_graduated p)"
  using assms by (auto simp: build_policy_def)

lemma policy_from_payload_Inr:
  assumes "policy_from_payload pubkey mint raw defaults = Inr p"
  obtains payload where "migrate_policy_payload raw = Inr payload" "unknown_fields payload = []"
    "pubkey (strip mint) = Some (pp_mint p)"
    "one_basis (jget ''buy_price_sol'' payload) (jget ''cost_basis_sol'' payload) = Inr ()"
    "build_policy (pp_mint p) payload defaults = Inr p" "check_policy p = Inr p"
proof -
  from assms obtain payload m where x: "migrate_policy_payload raw = Inr payload" "unknown_fields payload = []"
    "pubkey (strip mint) = Some m" "one_basis (jget ''buy_price_sol'' payload) (jget ''cost_basis_sol'' payload) = Inr ()"
    "build_policy m payload defaults = Inr p" "check_policy p = Inr p"
    unfolding policy_from_payload_def by (auto split: option.splits)
  moreover have "m = pp_mint p" using build_policy_Inr(1) [OF x(5)] by simp
  ultimately show thesis using that by blast
qed

lemma one_basis_Inr:
  assumes "one_basis b c = Inr ()" "optional_basis b f = Inr pb" "optional_basis c g = Inr pc"
  shows "pb = None \<or> pc = None"
  using assms by (auto simp: one_basis_def optional_basis_def split: if_splits)

text \<open>
  C21 (type). Whatever the validator accepts is a well-formed policy, whether it
  came from the dashboard or from the file: a short non-empty name, a canonical
  mint, a stop below zero, a take profit above zero, a tightness strictly between 0
  and 100, between one and six confirming quotes, at most one cost basis and that
  one positive. Every rule that is absent stays absent.
\<close>

theorem accepted_policy_is_well_formed:
  assumes "canonical pubkey" and "policy_from_payload pubkey mint raw defaults = Inr p"
  shows "policy_ok p \<and> pubkey (pp_mint p) = Some (pp_mint p)"
proof -
  from assms(2) obtain payload where x: "pubkey (strip mint) = Some (pp_mint p)"
    "one_basis (jget ''buy_price_sol'' payload) (jget ''cost_basis_sol'' payload) = Inr ()"
    "build_policy (pp_mint p) payload defaults = Inr p" "check_policy p = Inr p"
    by (rule policy_from_payload_Inr)
  note b = build_policy_Inr [OF x(3)]
  have m: "pp_mint p \<noteq> [] \<and> pubkey (pp_mint p) = Some (pp_mint p)"
    using assms(1) x(1) by (auto simp: canonical_def)
  have "pp_name p \<noteq> [] \<and> length (pp_name p) \<le> 48"
    using m json_text_nonempty by (auto simp: b(2))
  moreover have "pp_buy_price_sol p = None \<or> pp_cost_basis_sol p = None"
    by (rule one_basis_Inr [OF x(2) b(3,4)])
  ultimately show ?thesis
    using x(4) m unfolding policy_ok_def check_policy_Inr by blast
qed

section \<open>Written and read back\<close>

definition is_blocked :: "string \<Rightarrow> bool" where
  "is_blocked key = (let lowered = map lower_char key
     in lowered \<in> set BLOCKED \<or> (\<exists>part \<in> set BLOCKED. contains part lowered))"

lemma fields_not_blocked: "list_all (\<lambda>k. \<not> is_blocked k) POLICY_FIELDS"
  by code_simp

lemma refuse_blocked_fields:
  assumes "set (map fst payload) \<subseteq> set POLICY_FIELDS"
  shows "refuse_blocked payload = Inr ()"
proof -
  have "\<not> is_blocked k" if "(k, v) \<in> set payload" for k v
    using assms that fields_not_blocked by (force simp: list_all_iff)
  then have "find (\<lambda>(key, v). is_blocked key) payload = None"
    by (auto simp: find_None_iff)
  then show ?thesis by (simp add: refuse_blocked_def is_blocked_def)
qed

lemma unknown_fields_fields: "set (map fst payload) \<subseteq> set POLICY_FIELDS \<Longrightarrow> unknown_fields payload = []"
proof -
  assume "set (map fst payload) \<subseteq> set POLICY_FIELDS"
  then have "filter (\<lambda>k. k \<notin> set POLICY_FIELDS) (remdups (map fst payload)) = []"
    by (auto simp: filter_empty_conv)
  then show ?thesis unfolding unknown_fields_def by simp
qed

lemma yaml_keys: "set (map fst (policy_to_yaml_mapping flt p)) \<subseteq> set POLICY_FIELDS"
  by (auto simp: policy_to_yaml_mapping_def basis_keys_def POLICY_FIELDS_def split: option.splits)

definition policy_numbers :: "PositionPolicy \<Rightarrow> decimal set" where
  "policy_numbers p = set_option (pp_stop_loss_pct p) \<union> set_option (pp_take_profit_pct p) \<union>
     set_option (pp_runner_tightness p) \<union> set_option (pp_cost_basis_sol p) \<union> set_option (pp_buy_price_sol p)"

lemma yaml_lookup:
  "map_of (policy_to_yaml_mapping flt p) k =
     (if k = ''mint'' then Some (JStr (pp_mint p)) else if k = ''name'' then Some (JStr (pp_name p))
      else if k = ''stop_loss_pct'' then Some (percent flt (pp_stop_loss_pct p))
      else if k = ''take_profit_pct'' then Some (percent flt (pp_take_profit_pct p))
      else if k = ''runner_tightness'' then Some (percent flt (pp_runner_tightness p))
      else if k = ''rug_exit'' then Some (JBool (pp_rug_exit p))
      else if k = ''dispose_after_break_even'' then Some (JBool (pp_dispose_after_break_even p))
      else if k = ''floor_confirm_quotes'' then Some (JInt (pp_floor_confirm_quotes p))
      else if k = ''hold_trail_until_graduated'' then Some (JBool (pp_hold_trail_until_graduated p))
      else if k = ''cost_basis_sol'' then map_option (\<lambda>d. JReal (flt d)) (pp_cost_basis_sol p)
      else if k = ''buy_price_sol'' then map_option (\<lambda>d. JReal (flt d)) (pp_buy_price_sol p)
      else None)"
  by (simp add: policy_to_yaml_mapping_def basis_keys_def split: option.split)

lemma optional_percent_yaml:
  "map_of payload k = Some (percent flt v) \<Longrightarrow> (\<And>d. v = Some d \<Longrightarrow> flt d = d) \<Longrightarrow>
   optional_percent payload k fallback = Inr v"
  by (cases v) (auto simp: optional_percent_def percent_def)

lemma optional_basis_yaml:
  "map_of payload k = map_option (\<lambda>d. JReal (flt d)) v \<Longrightarrow> (\<And>d. v = Some d \<Longrightarrow> flt d = d) \<Longrightarrow>
   optional_basis (jget k payload) k = Inr v"
  by (cases v) (auto simp: optional_basis_def jget_def)

lemma build_policy_yaml:
  assumes "policy_ok p" and "\<And>d. d \<in> policy_numbers p \<Longrightarrow> flt d = d"
  shows "build_policy (pp_mint p) (policy_to_yaml_mapping flt p) defaults = Inr p"
proof -
  let ?m = "policy_to_yaml_mapping flt p"
  have "optional_basis (jget ''buy_price_sol'' ?m) ''buy_price_sol'' = Inr (pp_buy_price_sol p)"
      "optional_basis (jget ''cost_basis_sol'' ?m) ''cost_basis_sol'' = Inr (pp_cost_basis_sol p)"
    by (rule optional_basis_yaml [where flt = flt]; use assms(2) in \<open>simp add: yaml_lookup policy_numbers_def\<close>)+
  moreover have "optional_percent ?m ''stop_loss_pct'' (pd_stop_loss_pct defaults) = Inr (pp_stop_loss_pct p)"
      "optional_percent ?m ''take_profit_pct'' (pd_take_profit_pct defaults) = Inr (pp_take_profit_pct p)"
      "optional_percent ?m ''runner_tightness'' (pd_runner_tightness defaults) = Inr (pp_runner_tightness p)"
    by (rule optional_percent_yaml [where flt = flt]; use assms(2) in \<open>simp add: yaml_lookup policy_numbers_def\<close>)+
  ultimately show ?thesis
    using assms(1)
    by (simp add: build_policy_def strict_bool_def confirm_quotes_def jget_def jget_or_def yaml_lookup policy_ok_def)
qed

lemma yaml_roundtrip:
  assumes ok: "policy_ok p" and mint: "pubkey (pp_mint p) = Some (pp_mint p)" "strip (pp_mint p) = pp_mint p"
    and flt: "\<And>d. d \<in> policy_numbers p \<Longrightarrow> flt d = d"
  shows "policy_from_payload pubkey (pp_mint p) (JObj (policy_to_yaml_mapping flt p)) defaults = Inr p"
proof -
  let ?m = "policy_to_yaml_mapping flt p"
  have "migrate_policy_payload (JObj ?m) = Inr ?m"
    by (simp add: migrate_policy_payload_def yaml_lookup)
  moreover have "embedded_matches (jget ''mint'' ?m) (pp_mint p) = Inr ()"
    using mint by (simp add: embedded_matches_def jget_def yaml_lookup)
  moreover have "one_basis (jget ''buy_price_sol'' ?m) (jget ''cost_basis_sol'' ?m) = Inr ()"
    using ok by (auto simp: one_basis_def jget_def yaml_lookup policy_ok_def split: option.splits)
  moreover have "check_policy p = Inr p"
    using ok unfolding check_policy_Inr policy_ok_def by blast
  ultimately show ?thesis
    using refuse_blocked_fields [OF yaml_keys] unknown_fields_fields [OF yaml_keys] mint
      build_policy_yaml [OF ok flt, where defaults = defaults]
    by (simp add: policy_from_payload_def)
qed

lemma load_position_yaml:
  assumes "policy_ok p" "pubkey (pp_mint p) = Some (pp_mint p)" "strip (pp_mint p) = pp_mint p" "pp_mint p \<noteq> []"
    and "\<And>d. d \<in> policy_numbers p \<Longrightarrow> flt d = d" and "pp_mint p \<notin> set seen"
  shows "load_position pubkey (JObj (policy_to_yaml_mapping flt p)) (acc, seen) = Inr (acc @ [p], seen @ [pp_mint p])"
  using assms yaml_roundtrip [of p pubkey flt DEFAULTS]
  by (simp add: load_position_def jget_or_def yaml_lookup)

text \<open>
  C22 (roundtrip). The policy file: policies that the validator accepted, for
  different mints, written as the positions of any document are read back by the
  configuration loader exactly as they were, one by one and in order, as long as
  their numbers are ones a float prints exactly.
\<close>

theorem policy_file_roundtrip:
  assumes "canonical pubkey" and "distinct (map pp_mint ps)"
    and "list_all (\<lambda>p. policy_ok p \<and> pubkey (pp_mint p) = Some (pp_mint p) \<and> (\<forall>d \<in> policy_numbers p. flt d = d)) ps"
  shows "load_positions pubkey (positions_document flt document ps) = Inr ps"
proof -
  have "rfold (load_position pubkey) (map (\<lambda>p. JObj (policy_to_yaml_mapping flt p)) ps) (acc, seen) =
      Inr (acc @ ps, seen @ map pp_mint ps)" if "set seen \<inter> pp_mint ` set ps = {}" for acc seen
    using assms(2,3) that
  proof (induction ps arbitrary: acc seen)
    case (Cons p ps)
    have "strip (pp_mint p) = pp_mint p" "pp_mint p \<noteq> []"
      using assms(1) Cons.prems(2) by (auto simp: canonical_def)
    then have "load_position pubkey (JObj (policy_to_yaml_mapping flt p)) (acc, seen) = Inr (acc @ [p], seen @ [pp_mint p])"
      using Cons.prems by (intro load_position_yaml) auto
    then show ?case
      using Cons.IH [of "seen @ [pp_mint p]" "acc @ [p]"] Cons.prems by auto
  qed simp
  then show ?thesis
    by (simp add: load_positions_def positions_document_def jget_or_def)
qed

definition sample_pubkey :: "string \<Rightarrow> string option" where
  "sample_pubkey s = (if s = ''MINT'' then Some ''MINT'' else None)"

lemma sample_pubkey_canonical: "canonical sample_pubkey"
proof -
  have "strip ''MINT'' = ''MINT''" by code_simp
  then show ?thesis by (auto simp: canonical_def sample_pubkey_def)
qed

theorem policy_file_roundtrip_witness:
  "load_positions sample_pubkey (positions_document (\<lambda>d. d) [] [sample_policy]) = Inr [sample_policy]"
  using policy_file_roundtrip [OF sample_pubkey_canonical, of "[sample_policy]" "\<lambda>d. d" "[]"]
  by (simp add: policy_ok_def sample_policy_def sample_pubkey_def)

lemma sample_payload_accepted:
  "is_Inr (policy_from_payload sample_pubkey ''MINT'' (JObj [(''cost_basis_sol'', JInt 1), (''stop_loss_pct'', JInt (- 30))]) DEFAULTS)"
  by code_simp

theorem accepted_policy_is_well_formed_witness:
  "\<exists>p. policy_from_payload sample_pubkey ''MINT'' (JObj [(''cost_basis_sol'', JInt 1), (''stop_loss_pct'', JInt (- 30))]) DEFAULTS =
     Inr p \<and> policy_ok p"
proof -
  obtain p where "policy_from_payload sample_pubkey ''MINT''
      (JObj [(''cost_basis_sol'', JInt 1), (''stop_loss_pct'', JInt (- 30))]) DEFAULTS = Inr p"
    using sample_payload_accepted by (auto simp: is_Inr_iff)
  with accepted_policy_is_well_formed [OF sample_pubkey_canonical this] show ?thesis by blast
qed

section \<open>Policies for bags nobody wrote a rule for\<close>

definition follows_defaults :: "PolicyDefaults \<Rightarrow> PositionPolicy \<Rightarrow> bool" where
  "follows_defaults defaults p \<longleftrightarrow>
     pp_stop_loss_pct p = pd_stop_loss_pct defaults \<and> pp_take_profit_pct p = pd_take_profit_pct defaults \<and>
     pp_runner_tightness p = pd_runner_tightness defaults \<and> pp_rug_exit p = pd_rug_exit defaults \<and>
     pp_dispose_after_break_even p = pd_dispose_after_break_even defaults \<and>
     pp_floor_confirm_quotes p = pd_floor_confirm_quotes defaults \<and>
     pp_hold_trail_until_graduated p = pd_hold_trail_until_graduated defaults"

lemma name_only_policy:
  assumes "policy_from_payload pubkey mint (JObj [(''name'', v)]) defaults = Inr p"
  shows "pp_cost_basis_sol p = None" "pp_buy_price_sol p = None" "pubkey (strip mint) = Some (pp_mint p)"
    "follows_defaults defaults p"
proof -
  from assms obtain payload where x: "migrate_policy_payload (JObj [(''name'', v)]) = Inr payload"
    "pubkey (strip mint) = Some (pp_mint p)" "build_policy (pp_mint p) payload defaults = Inr p"
    by (rule policy_from_payload_Inr)
  from x(1) have pl: "payload = [(''name'', v)]" by (simp add: migrate_policy_payload_def)
  show "pubkey (strip mint) = Some (pp_mint p)" by (rule x(2))
  show "pp_cost_basis_sol p = None" "pp_buy_price_sol p = None" "follows_defaults defaults p"
    using build_policy_Inr [OF x(3) [unfolded pl]]
    by (simp_all add: follows_defaults_def optional_basis_def optional_percent_def strict_bool_def confirm_quotes_def
        jget_def jget_or_def)
qed

definition rug_only :: "PolicyDefaults \<Rightarrow> PositionPolicy \<Rightarrow> bool" where
  "rug_only defaults p \<longleftrightarrow> pp_cost_basis_sol p = None \<and> pp_buy_price_sol p = None \<and> follows_defaults defaults p"

definition merge_inv :: "PolicyDefaults \<Rightarrow> PositionPolicy list \<Rightarrow> merge \<Rightarrow> bool" where
  "merge_inv defaults current g \<longleftrightarrow>
     (\<exists>new. mg_merged g = current @ new \<and> mg_created g = map pp_mint new \<and> list_all (rug_only defaults) new \<and>
        distinct (map pp_mint new) \<and> pp_mint ` set new \<inter> pp_mint ` set current = {})"

lemma merge_inv_skip [simp]: "merge_inv defaults current (skip_row m r g) = merge_inv defaults current g"
  by (simp add: merge_inv_def skip_row_def)

definition create_policy :: "PositionPolicy \<Rightarrow> merge \<Rightarrow> merge" where
  "create_policy p g = g\<lparr>mg_merged := mg_merged g @ [p], mg_created := mg_created g @ [pp_mint p]\<rparr>"

lemma merge_row_cases:
  assumes "merge_row pubkey defaults row g = Inr g'"
  obtains "g' = g" | m r where "g' = skip_row m r g"
  | k mint v p where "pubkey k = Some mint" "mint \<notin> pp_mint ` set (mg_merged g)"
      "policy_from_payload pubkey mint (JObj [(''name'', JStr v)]) defaults = Inr p" "g' = create_policy p g"
proof (cases "obj_of row")
  case None
  then show thesis using assms that(2) by (auto simp: merge_row_def)
next
  case (Some m)
  define k where "k = strip (if truthy (jget ''mint'' m) then json_text (jget ''mint'' m) else [])"
  define name where "name mint = take 48 (if truthy (jget ''name'' m) then json_text (jget ''name'' m) else take 8 mint)"
    for mint :: string
  have run: "merge_row pubkey defaults row g =
      (if k = [] then Inr (skip_row [] ''missing mint'' g)
       else case pubkey k of
         None \<Rightarrow> Inr (skip_row k ''mint is not a Solana public key'' g)
       | Some mint \<Rightarrow>
           if mint \<in> set (map pp_mint (mg_merged g)) then Inr g
           else case policy_from_payload pubkey mint (JObj [(''name'', JStr (name mint))]) defaults of
             Inl e \<Rightarrow> if is_policy_error e then Inr (skip_row mint (exc_text e) g) else Inl e
           | Inr p \<Rightarrow> Inr (create_policy p g))"
    using Some by (simp only: merge_row_def option.case Let_def k_def name_def create_policy_def)
  show thesis
  proof (cases "pubkey k")
    case None
    then show thesis using assms that(2) unfolding run by (auto split: if_splits)
  next
    case (Some mint)
    let ?r = "policy_from_payload pubkey mint (JObj [(''name'', JStr (name mint))]) defaults"
    consider "k = [] \<or> mint \<in> set (map pp_mint (mg_merged g))"
      | e where "k \<noteq> []" "mint \<notin> set (map pp_mint (mg_merged g))" "?r = Inl e"
      | p where "k \<noteq> []" "mint \<notin> set (map pp_mint (mg_merged g))" "?r = Inr p"
      by (cases ?r) auto
    then show thesis
    proof cases
      case 1
      then have "g' = g \<or> g' = skip_row [] ''missing mint'' g"
        using assms Some unfolding run by (auto split: if_splits)
      then show thesis using that(1,2) by blast
    next
      case (2 e)
      then have "g' = skip_row mint (exc_text e) g"
        using assms Some unfolding run by (simp split: if_splits)
      then show thesis by (rule that(2))
    next
      case (3 p)
      then have "g' = create_policy p g" using assms Some unfolding run by simp
      then show thesis using that(3) [OF Some _ 3(3)] 3(2) by simp
    qed
  qed
qed

lemma create_policy_inv:
  assumes "merge_inv defaults current g" "rug_only defaults p" "pp_mint p \<notin> pp_mint ` set (mg_merged g)"
  shows "merge_inv defaults current (create_policy p g)"
proof -
  from assms(1) obtain new where new: "mg_merged g = current @ new" "mg_created g = map pp_mint new"
    "list_all (rug_only defaults) new" "distinct (map pp_mint new)" "pp_mint ` set new \<inter> pp_mint ` set current = {}"
    unfolding merge_inv_def by blast
  then show ?thesis
    unfolding merge_inv_def create_policy_def using assms(2,3) by (intro exI [of _ "new @ [p]"]) auto
qed

lemma merge_row_inv:
  assumes "canonical pubkey" "merge_inv defaults current g" "merge_row pubkey defaults row g = Inr g'"
  shows "merge_inv defaults current g'"
  using assms(3)
proof (cases rule: merge_row_cases)
  case (3 k mint v p)
  note n = name_only_policy [OF 3(3)]
  have "pp_mint p = mint" using assms(1) 3(1) n(3) by (auto simp: canonical_def)
  then show ?thesis using 3(2,4) n assms(2) by (auto intro: create_policy_inv simp: rug_only_def)
qed (use assms(2) in auto)

lemma merged_policies:
  assumes "canonical pubkey" and "policies_for_unmonitored pubkey rows current mode defaults = Inr g"
  shows "merge_inv defaults current g"
proof -
  have "rfold (merge_row pubkey defaults) rows \<lparr> mg_merged = current, mg_created = [], mg_skipped = [] \<rparr> = Inr g"
    using assms(2) by (simp add: policies_for_unmonitored_def split: if_splits)
  then show ?thesis
  proof (rule rfold_invariant)
    show "merge_inv defaults current \<lparr> mg_merged = current, mg_created = [], mg_skipped = [] \<rparr>"
      by (simp add: merge_inv_def)
  qed (rule merge_row_inv [OF assms(1)])
qed

text \<open>
  Creating policies for unmonitored bags never touches a policy
  that exists: the merged list is the old list followed by the created policies,
  one for each mint that had none, none of them with a cost basis, all with the
  stop and the rug rule of the defaults.
\<close>

lemma unmonitored_never_overwrites:
  assumes "canonical pubkey" and "policies_for_unmonitored pubkey rows current mode defaults = Inr g"
  shows "\<exists>new. mg_merged g = current @ new \<and> mg_created g = map pp_mint new \<and> list_all (rug_only defaults) new \<and>
    distinct (map pp_mint new) \<and> pp_mint ` set new \<inter> pp_mint ` set current = {}"
  using merged_policies [OF assms] by (simp add: merge_inv_def)

lemma sample_merge:
  "is_Inr (policies_for_unmonitored sample_pubkey [JObj [(''mint'', JStr ''MINT'')], JInt 3] [] ''rug_only'' DEFAULTS)"
  by code_simp

end
