(* ===== verification/LP_Gate.thy ===== *)
theory LP_Gate
  imports Policies
begin

unbundle bit_operations_syntax

text \<open>
  When the liquidity desk may act: the reading of secret files
  (\<open>joshibot/shitcoims_lpexec/secrets.py\<close>) and the gates of
  \<open>joshibot/shitcoims_lpexec/gate.py\<close>. A path is modelled by what \<open>stat\<close> and
  \<open>read_text\<close> find there, the key bytes themselves by the text of the file.
\<close>

section \<open>Secret files\<close>

text \<open>What is at a path: nothing, or something with a mode word and a text.\<close>

datatype node = No_file | Node (st_mode: int) (node_text: string)

text \<open>\<open>stat.S_ISREG\<close> and \<open>stat.S_IMODE\<close>.\<close>

definition S_ISREG :: "int \<Rightarrow> bool" where
  "S_ISREG mode \<longleftrightarrow> mode AND 0xF000 = 0x8000"

definition S_IMODE :: "int \<Rightarrow> int" where
  "S_IMODE mode = mode AND 0xFFF"

definition read_secret_file :: "node \<Rightarrow> bool \<Rightarrow> string option res" where
  "read_secret_file path required =
     (case path of
        No_file \<Rightarrow> if required then Inl (SecretError ''required secret file is missing'') else Inr None
      | Node mode txt \<Rightarrow>
          if \<not> S_ISREG mode then Inl (SecretError ''secret path is not a regular file'')
          else if S_IMODE mode AND 0x3F \<noteq> 0 then Inl (SecretError ''secret file must not be group/world accessible'')
          else let v = strip txt
               in if v = [] then (if required then Inl (SecretError ''secret file is empty'') else Inr None)
                  else Inr (Some v))"

section \<open>The gates\<close>

definition ARM_PREFIX :: string where
  "ARM_PREFIX = ''lpexec''"

record LpExecConfig =
  lx_wallet_address :: string
  lx_enabled :: bool
  lx_arm_file :: node
  lx_secret_key_file :: node

record GateStatus =
  gate_live :: bool
  gate_failures_of :: "string list"

definition gate_mode :: "GateStatus \<Rightarrow> string" where
  "gate_mode g = (if gate_live g then ''LIVE'' else ''DRY_RUN'')"

definition describe_gate :: "GateStatus \<Rightarrow> string" where
  "describe_gate g =
     (if gate_live g then ''LIVE: all gates open'' else ''DRY RUN: '' @ join_with ''; '' (gate_failures_of g))"

definition lp_expected_arm_value :: "LpExecConfig \<Rightarrow> string" where
  "lp_expected_arm_value config = ARM_PREFIX @ '':'' @ lx_wallet_address config"

text \<open>The arm file as the gate reads it, with the failure of an unreadable one.\<close>

definition read_arm :: "node \<Rightarrow> string option \<times> string list" where
  "read_arm path =
     (case read_secret_file path False of
        Inl e \<Rightarrow> (None, [''arm file is unreadable ('' @ exc_text e @ '')''])
      | Inr arm \<Rightarrow> (arm, []))"

definition key_failures :: "node \<Rightarrow> string list" where
  "key_failures path =
     (if path = No_file then [''key file is absent (dry-run only)'']
      else case read_secret_file path True of
             Inl e \<Rightarrow> [''key file is unusable ('' @ exc_text e @ '')'']
           | Inr key \<Rightarrow> [])"

definition lp_gate_status :: "LpExecConfig \<Rightarrow> bool \<Rightarrow> GateStatus" where
  "lp_gate_status config cli_live =
     (let failures =
        (if lx_enabled config then [] else [''execution.enabled is false'']) @
        (if cli_live then [] else [''process was not started with --live'']) @
        snd (read_arm (lx_arm_file config)) @
        (if fst (read_arm (lx_arm_file config)) = Some (lp_expected_arm_value config) then []
         else [''lpexec arm file is absent or does not match this wallet'']) @
        key_failures (lx_secret_key_file config)
      in \<lparr> gate_live = (failures = []), gate_failures_of = failures \<rparr>)"

text \<open>The file \<open>write_arm\<close> leaves: regular, mode 0600, the value and a newline.\<close>

definition write_arm :: "string \<Rightarrow> node" where
  "write_arm v = Node 0x8180 (v @ [CHR 0x0A])"

definition cmd_arm :: "LpExecConfig \<Rightarrow> LpExecConfig" where
  "cmd_arm config = config\<lparr>lx_arm_file := write_arm (lp_expected_arm_value config)\<rparr>"

definition cmd_disarm :: "LpExecConfig \<Rightarrow> LpExecConfig" where
  "cmd_disarm config = config\<lparr>lx_arm_file := No_file\<rparr>"

section \<open>When they open\<close>

text \<open>A file only its owner can touch.\<close>

definition private_file :: "node \<Rightarrow> bool" where
  "private_file path = (case path of No_file \<Rightarrow> False | Node mode txt \<Rightarrow> S_ISREG mode \<and> S_IMODE mode AND 0x3F = 0)"

lemma read_secret_Some:
  "read_secret_file path required = Inr (Some v) \<longleftrightarrow> private_file path \<and> v = strip (node_text path) \<and> v \<noteq> []"
  by (cases path) (auto simp: read_secret_file_def private_file_def Let_def)

lemma read_arm_opens:
  "snd (read_arm path) = [] \<and> fst (read_arm path) = Some v \<longleftrightarrow>
     private_file path \<and> v = strip (node_text path) \<and> v \<noteq> []"
  using read_secret_Some [of path False v] by (auto simp: read_arm_def split: sum.splits)

lemma key_failures_none:
  "key_failures path = [] \<longleftrightarrow> private_file path \<and> strip (node_text path) \<noteq> []"
  using read_secret_Some [of path True]
  by (cases path) (auto simp: key_failures_def read_secret_file_def Let_def private_file_def split: sum.splits if_splits)

lemma gate_live_iff:
  "gate_live (lp_gate_status config cli_live) \<longleftrightarrow>
     lx_enabled config \<and> cli_live \<and>
     private_file (lx_arm_file config) \<and> strip (node_text (lx_arm_file config)) = ''lpexec:'' @ lx_wallet_address config \<and>
     private_file (lx_secret_key_file config) \<and> strip (node_text (lx_secret_key_file config)) \<noteq> []"
proof -
  have v: "lp_expected_arm_value config = ''lpexec:'' @ lx_wallet_address config"
    by (simp add: lp_expected_arm_value_def ARM_PREFIX_def)
  have "gate_live (lp_gate_status config cli_live) \<longleftrightarrow> lx_enabled config \<and> cli_live \<and>
      (snd (read_arm (lx_arm_file config)) = [] \<and> fst (read_arm (lx_arm_file config)) = Some (lp_expected_arm_value config)) \<and>
      key_failures (lx_secret_key_file config) = []"
    by (auto simp: lp_gate_status_def Let_def)
  then show ?thesis unfolding read_arm_opens key_failures_none v by auto
qed

text \<open>What \<open>arm\<close> writes arms this wallet's desk, and \<open>disarm\<close> closes it; the sentinel's arm value never does.\<close>

lemma arm_opens:
  assumes "strip (lp_expected_arm_value config @ [CHR 0x0A]) = lp_expected_arm_value config"
  shows "gate_live (lp_gate_status (cmd_arm config) True) \<longleftrightarrow>
    lx_enabled config \<and> private_file (lx_secret_key_file config) \<and> strip (node_text (lx_secret_key_file config)) \<noteq> []"
  using assms
  by (auto simp: gate_live_iff cmd_arm_def write_arm_def private_file_def S_ISREG_def S_IMODE_def
      lp_expected_arm_value_def ARM_PREFIX_def)

lemma disarm_closes: "\<not> gate_live (lp_gate_status (cmd_disarm config) cli_live)"
  by (simp add: gate_live_iff cmd_disarm_def private_file_def)

end
