(* ===== verification/Transaction.thy ===== *)
theory Transaction
  imports Wire Domain
begin

text \<open>
  The checks on Jupiter's exit transaction and on its simulation
  (\<open>joshibot/shitcoims_sentinel/transaction.py\<close>).
\<close>

section \<open>The transaction\<close>

definition JUPITER_V6_PROGRAM :: string where
  "JUPITER_V6_PROGRAM = ''JUP6LkbZbjS1jKKwapdHNy74zcZ3tLUZoi5QNyVTaV4''"

definition ALLOWED_TOP_LEVEL_PROGRAMS :: "string list" where
  "ALLOWED_TOP_LEVEL_PROGRAMS =
     [COMPUTE_BUDGET_PROGRAM, ASSOCIATED_TOKEN_PROGRAM, JUPITER_V6_PROGRAM, MEMO_PROGRAM,
      TOKEN_PROGRAM, TOKEN_2022_PROGRAM]"

definition LANDING_BID_FLOOR_MICRO_LAMPORTS :: int where
  "LANDING_BID_FLOOR_MICRO_LAMPORTS = 50000"
definition COMPUTE_UNIT_LIMIT_ALARM_MULTIPLE :: int where
  "COMPUTE_UNIT_LIMIT_ALARM_MULTIPLE = 2"

record ValidatedTransaction =
  vt_transaction :: VersionedTransaction
  vt_top_level_programs :: "string list"
  vt_priority_fee_lamports :: int
  vt_compute_unit_limit :: int
  vt_compute_unit_price_micro_lamports :: int

definition bid_below_landing_floor :: "ValidatedTransaction \<Rightarrow> bool" where
  "bid_below_landing_floor v \<longleftrightarrow>
     vt_compute_unit_price_micro_lamports v < LANDING_BID_FLOOR_MICRO_LAMPORTS"

definition limit_is_oversized_against :: "ValidatedTransaction \<Rightarrow> int option \<Rightarrow> bool" where
  "limit_is_oversized_against v units_consumed =
     (case units_consumed of
        None \<Rightarrow> False
      | Some u \<Rightarrow> 0 < u \<and> u * COMPUTE_UNIT_LIMIT_ALARM_MULTIPLE < vt_compute_unit_limit v)"

definition decode_exit_transaction :: "wire_env \<Rightarrow> string \<Rightarrow> VersionedTransaction res" where
  "decode_exit_transaction =
     decode_transaction (TransactionRejected ''Jupiter transaction is not valid canonical base64/v0 data'')"

definition lookup_addresses :: "wire_env \<Rightarrow> byte list \<Rightarrow> string list res" where
  "lookup_addresses =
     table_addresses (TransactionRejected ''address lookup table account has invalid length'')"

definition resolve_keys :: "wire_env \<Rightarrow> MessageV0 \<Rightarrow> string list res" where
  "resolve_keys =
     expand_keys (TransactionRejected ''address lookup table account has invalid length'')
       (TransactionRejected ''address lookup table index is out of bounds'')"

definition instruction_keys :: "CompiledInstruction \<Rightarrow> string list \<Rightarrow> string list res" where
  "instruction_keys ix keys =
     rmapM (pick (TransactionRejected ''instruction account index is out of bounds'') keys) (accounts ix)"

definition validate_token_instruction :: "byte list \<Rightarrow> string list \<Rightarrow> string \<Rightarrow> unit res" where
  "validate_token_instruction raw ikeys owner =
     (if raw = [] \<or> hd raw \<notin> {9, 17}
      then Inl (TransactionRejected ''unexpected top-level SPL Token opcode'')
      else if hd raw = 9 then
        if length ikeys < 3
        then Inl (TransactionRejected ''SPL Token CloseAccount omitted required accounts'')
        else if ikeys ! 1 \<noteq> owner \<or> ikeys ! 2 \<noteq> owner
        then Inl (TransactionRejected
               ''SPL Token CloseAccount must return funds to shitcoims under shitcoims authority'')
        else Inr ()
      else Inr ())"

definition validate_associated_token_instruction :: "byte list \<Rightarrow> string list \<Rightarrow> string \<Rightarrow> unit res" where
  "validate_associated_token_instruction raw ikeys owner =
     (if raw \<notin> {[], [1]} \<or> length ikeys < 4
      then Inl (TransactionRejected ''unexpected associated-token instruction'')
      else if ikeys ! 0 \<noteq> owner \<or> ikeys ! 2 \<noteq> owner
      then Inl (TransactionRejected ''associated-token account must be created for shitcoims'')
      else Inr ())"

definition compute_budget :: "(string \<times> byte list) list \<Rightarrow> int \<Rightarrow> (int \<times> int \<times> int) res" where
  "compute_budget =
     budget_within (\<lambda>_. Inr ()) (TransactionRejected ''priority fee exceeds configured cap'')"

text \<open>One turn of the instruction loop; the state is the decoded list and \<open>saw_jupiter\<close>.\<close>

definition check_exit_instruction ::
  "string \<Rightarrow> string list \<Rightarrow> CompiledInstruction \<Rightarrow> (string \<times> byte list) list \<times> bool \<Rightarrow>
   ((string \<times> byte list) list \<times> bool) res" where
  "check_exit_instruction owner keys ix acc =
     rbind (pick (TransactionRejected ''instruction program index is out of bounds'') keys
              (program_id_index ix)) (\<lambda>program.
     rbind (rguard (program \<in> set ALLOWED_TOP_LEVEL_PROGRAMS)
              (TransactionRejected ''unexpected top-level program'')) (\<lambda>_.
     rbind (instruction_keys ix keys) (\<lambda>ikeys.
     rbind (if program \<in> {TOKEN_PROGRAM, TOKEN_2022_PROGRAM}
            then validate_token_instruction (data ix) ikeys owner else Inr ()) (\<lambda>_.
     rbind (if program = ASSOCIATED_TOKEN_PROGRAM
            then validate_associated_token_instruction (data ix) ikeys owner else Inr ()) (\<lambda>_.
       Inr (fst acc @ [(program, data ix)], snd acc \<or> program = JUPITER_V6_PROGRAM))))))"

definition validate_jupiter_exit_transaction ::
  "wire_env \<Rightarrow> string \<Rightarrow> string \<Rightarrow> int \<Rightarrow> ValidatedTransaction res" where
  "validate_jupiter_exit_transaction env owner encoded max_priority_fee_lamports =
     rbind (decode_exit_transaction env encoded) (\<lambda>tx.
       case tx_message tx of
         Legacy \<Rightarrow> Inl (TransactionRejected ''legacy transactions are not accepted'')
       | V0 m \<Rightarrow>
           if num_required_signatures m \<noteq> 1
           then Inl (TransactionRejected ''exit transaction must require exactly the shitcoims signer'')
           else if account_keys m = [] \<or> hd (account_keys m) \<noteq> owner
           then Inl (TransactionRejected ''shitcoims must be the sole signer and fee payer'')
           else if signatures tx \<noteq> [default_signature]
           then Inl (TransactionRejected ''Jupiter exit must arrive unsigned'')
           else
             rbind (resolve_keys env m) (\<lambda>keys.
             rbind (rfold (check_exit_instruction owner keys) (instructions m) ([], False))
               (\<lambda>(decoded, saw_jupiter).
             rbind (rguard saw_jupiter
                      (TransactionRejected ''transaction contains no Jupiter swap instruction'')) (\<lambda>_.
             rbind (compute_budget decoded max_priority_fee_lamports) (\<lambda>(fee, unit_limit, unit_price).
               Inr \<lparr> vt_transaction = tx, vt_top_level_programs = map fst decoded,
                     vt_priority_fee_lamports = fee, vt_compute_unit_limit = unit_limit,
                     vt_compute_unit_price_micro_lamports = unit_price \<rparr>)))))"

section \<open>The simulation\<close>

text \<open>
  The simulated accounts are JSON of the RPC, whose texts are \<open>JStr\<close>. An
  account that does not exist is null and holds nothing.
\<close>

definition simulated_token_amount :: "json \<Rightarrow> int res" where
  "simulated_token_amount account =
     (if account = JNull then Inr 0
      else case obj_of account of
        None \<Rightarrow> Inl (TransactionRejected ''simulated token account was malformed'')
      | Some m \<Rightarrow>
          (case jget ''data'' m of
             JList (JStr text # _) \<Rightarrow>
               (case b64decode text of
                  None \<Rightarrow> Inl (TransactionRejected ''simulated token account data was not base64'')
                | Some raw \<Rightarrow>
                    if length raw < 72
                    then Inl (TransactionRejected ''simulated token account data was too short'')
                    else Inr (unpack_at 64 8 raw))
           | _ \<Rightarrow> Inl (TransactionRejected ''simulated token account data was malformed'')))"

text \<open>\<open>isinstance(v, int)\<close> and the integer: a bool is an int.\<close>

fun as_int :: "json \<Rightarrow> int option" where
  "as_int (JInt i) = Some i"
| "as_int (JBool b) = Some (if b then 1 else 0)"
| "as_int _ = None"

definition post_amount :: "json list \<Rightarrow> int res" where
  "post_amount accts = rbind (rmapM simulated_token_amount accts) (\<lambda>xs. Inr (sum_list xs))"

text \<open>One turn of the loop over the holdings; the state is \<open>offset\<close> and \<open>saw_target\<close>.\<close>

definition check_simulated_holding ::
  "json list \<Rightarrow> string \<Rightarrow> int \<Rightarrow> TokenHolding \<Rightarrow> nat \<times> bool \<Rightarrow> (nat \<times> bool) res" where
  "check_simulated_holding accts target_mint expected_remaining holding acc =
     (let offset = fst acc; count = length (th_token_accounts holding)
      in rbind (post_amount (take count (drop offset accts))) (\<lambda>post.
           if th_mint holding = target_mint then
             if expected_remaining < 0
             then Inl (TransactionRejected ''simulated exit remaining amount is negative'')
             else if post \<noteq> expected_remaining then
               if expected_remaining = 0
               then Inl (TransactionRejected ''simulated exit did not sell the complete target balance'')
               else Inl (TransactionRejected ''simulated scale-out did not leave the intended remaining balance'')
             else Inr (offset + count, True)
           else if post \<noteq> th_amount holding
           then Inl (TransactionRejected ''simulated exit modified a non-target shitcoims token'')
           else Inr (offset + count, snd acc)))"

definition validate_simulated_exit ::
  "obj \<Rightarrow> TokenHolding list \<Rightarrow> string \<Rightarrow> int \<Rightarrow> int \<Rightarrow> int \<Rightarrow> int \<Rightarrow> unit res" where
  "validate_simulated_exit simulation holdings target_mint pre_sol_lamports minimum_output_lamports
     max_sol_cost_lamports expected_remaining =
     (let expected_accounts = 1 + sum_list (map (\<lambda>h. length (th_token_accounts h)) holdings)
      in case jget ''accounts'' simulation of
           JList accts \<Rightarrow>
             if length accts \<noteq> expected_accounts
             then Inl (TransactionRejected ''simulation account set did not match shitcoims holdings'')
             else
               (case map_option (\<lambda>m. as_int (jget ''lamports'' m)) (obj_of (hd accts)) of
                  Some (Some lamports) \<Rightarrow>
                    if lamports < pre_sol_lamports + minimum_output_lamports - max_sol_cost_lamports
                    then Inl (TransactionRejected
                           ''simulated transaction does not return minimum output to the shitcoims SOL account'')
                    else
                      rbind (rfold (check_simulated_holding accts target_mint expected_remaining) holdings (1, False))
                        (\<lambda>(offset, saw_target).
                          rguard saw_target (TransactionRejected
                            ''simulated exit target is not a current shitcoims holding''))
                | _ \<Rightarrow> Inl (TransactionRejected ''simulation omitted the shitcoims SOL account''))
         | _ \<Rightarrow> Inl (TransactionRejected ''simulation account set did not match shitcoims holdings''))"

section \<open>Accepted transactions\<close>

lemma instruction_keys_Inr:
  "instruction_keys ix keys = Inr ikeys \<longleftrightarrow> map (nth_opt keys) (accounts ix) = map Some ikeys"
  by (simp add: instruction_keys_def rmapM_eq_Inr list_all2_conv_all_nth list_eq_iff_nth_eq)
    (metis nth_map)

text \<open>What one accepted instruction may be.\<close>

definition exit_instruction_ok :: "string \<Rightarrow> string list \<Rightarrow> CompiledInstruction \<Rightarrow> bool" where
  "exit_instruction_ok owner keys ix \<longleftrightarrow>
     (\<exists>program ikeys.
        nth_opt keys (program_id_index ix) = Some program \<and>
        map (nth_opt keys) (accounts ix) = map Some ikeys \<and>
        program \<in> set ALLOWED_TOP_LEVEL_PROGRAMS \<and>
        (program \<in> {TOKEN_PROGRAM, TOKEN_2022_PROGRAM} \<longrightarrow>
           (\<exists>rest. data ix = 17 # rest) \<or>
           (\<exists>rest acct more. data ix = 9 # rest \<and> ikeys = acct # owner # owner # more)) \<and>
        (program = ASSOCIATED_TOKEN_PROGRAM \<longrightarrow>
           (data ix = [] \<or> data ix = [1]) \<and>
           (\<exists>ata x more. ikeys = owner # ata # owner # x # more)))"

lemma list_three: "3 \<le> length xs \<Longrightarrow> \<exists>a more. xs = a # xs ! 1 # xs ! 2 # more"
  by (cases xs; cases "tl xs"; cases "tl (tl xs)") (auto simp: numeral_2_eq_2)

lemma list_four: "4 \<le> length xs \<Longrightarrow> \<exists>b d more. xs = xs ! 0 # b # xs ! 2 # d # more"
  by (cases xs; cases "tl xs"; cases "tl (tl xs)"; cases "tl (tl (tl xs))") (auto simp: numeral_2_eq_2)

lemma validate_token_Inr:
  assumes "validate_token_instruction raw ikeys owner = Inr u"
  shows "(\<exists>rest. raw = 17 # rest) \<or> (\<exists>rest acct more. raw = 9 # rest \<and> ikeys = acct # owner # owner # more)"
  using assms list_three [of ikeys]
  by (cases raw) (auto simp: validate_token_instruction_def split: if_splits)

lemma validate_ata_Inr:
  assumes "validate_associated_token_instruction raw ikeys owner = Inr u"
  shows "(raw = [] \<or> raw = [1]) \<and> (\<exists>ata x more. ikeys = owner # ata # owner # x # more)"
  using assms list_four [of ikeys]
  by (auto simp: validate_associated_token_instruction_def split: if_splits)

lemma check_exit_instruction_ok:
  assumes "check_exit_instruction owner keys ix acc = Inr acc'"
  shows "exit_instruction_ok owner keys ix"
    and "\<exists>program. nth_opt keys (program_id_index ix) = Some program \<and>
      acc' = (fst acc @ [(program, data ix)], snd acc \<or> program = JUPITER_V6_PROGRAM)"
proof -
  from assms obtain program ikeys where p: "nth_opt keys (program_id_index ix) = Some program"
      "program \<in> set ALLOWED_TOP_LEVEL_PROGRAMS"
    and ik: "map (nth_opt keys) (accounts ix) = map Some ikeys"
    and tok: "program \<in> {TOKEN_PROGRAM, TOKEN_2022_PROGRAM} \<longrightarrow>
        validate_token_instruction (data ix) ikeys owner = Inr ()"
    and ata: "program = ASSOCIATED_TOKEN_PROGRAM \<longrightarrow>
        validate_associated_token_instruction (data ix) ikeys owner = Inr ()"
    and acc': "acc' = (fst acc @ [(program, data ix)], snd acc \<or> program = JUPITER_V6_PROGRAM)"
    by (auto simp: check_exit_instruction_def instruction_keys_Inr split: if_splits)
  show "exit_instruction_ok owner keys ix"
    unfolding exit_instruction_ok_def
  proof (rule exI [of _ program], rule exI [of _ ikeys], intro conjI impI)
    assume "program \<in> {TOKEN_PROGRAM, TOKEN_2022_PROGRAM}"
    then show "(\<exists>rest. data ix = 17 # rest) \<or>
        (\<exists>rest acct more. data ix = 9 # rest \<and> ikeys = acct # owner # owner # more)"
      using tok validate_token_Inr by metis
  next
    assume "program = ASSOCIATED_TOKEN_PROGRAM"
    then have *: "validate_associated_token_instruction (data ix) ikeys owner = Inr ()" using ata by simp
    show "data ix = [] \<or> data ix = [1]" "\<exists>ata x more. ikeys = owner # ata # owner # x # more"
      using validate_ata_Inr [OF *] by blast+
  qed (use p ik in simp_all)
  show "\<exists>program. nth_opt keys (program_id_index ix) = Some program \<and>
      acc' = (fst acc @ [(program, data ix)], snd acc \<or> program = JUPITER_V6_PROGRAM)"
    using p acc' by blast
qed

lemma check_exit_all:
  "rfold (check_exit_instruction owner keys) ixs acc = Inr acc' \<Longrightarrow>
   (\<forall>ix \<in> set ixs. exit_instruction_ok owner keys ix) \<and>
   fst acc' = fst acc @ map (\<lambda>ix. (the (nth_opt keys (program_id_index ix)), data ix)) ixs \<and>
   (snd acc' \<longleftrightarrow> snd acc \<or> (\<exists>ix \<in> set ixs. nth_opt keys (program_id_index ix) = Some JUPITER_V6_PROGRAM))"
proof (induction ixs arbitrary: acc)
  case (Cons ix ixs)
  from Cons.prems obtain acc1 where s: "check_exit_instruction owner keys ix acc = Inr acc1"
    and r: "rfold (check_exit_instruction owner keys) ixs acc1 = Inr acc'" by auto
  then show ?case using Cons.IH [OF r] check_exit_instruction_ok [OF s] by auto
qed simp

lemma validate_exit_Inr:
  assumes "validate_jupiter_exit_transaction env owner encoded cap = Inr v"
  obtains m keys raw where "b64decode encoded = Some raw" "from_bytes env raw = Some (vt_transaction v)"
    "tx_message (vt_transaction v) = V0 m" "num_required_signatures m = 1"
    "nth_opt (account_keys m) 0 = Some owner" "signatures (vt_transaction v) = [default_signature]"
    "resolve_keys env m = Inr keys" "\<forall>ix \<in> set (instructions m). exit_instruction_ok owner keys ix"
    "\<exists>ix \<in> set (instructions m). nth_opt keys (program_id_index ix) = Some JUPITER_V6_PROGRAM"
    "vt_priority_fee_lamports v = priority_fee (vt_compute_unit_limit v) (vt_compute_unit_price_micro_lamports v)"
    "0 \<le> vt_priority_fee_lamports v" "vt_priority_fee_lamports v \<le> cap"
proof -
  from assms obtain tx raw where b: "b64decode encoded = Some raw" "from_bytes env raw = Some tx"
    by (auto simp: validate_jupiter_exit_transaction_def decode_exit_transaction_def)
  with assms obtain m where m: "tx_message tx = V0 m"
    by (cases "tx_message tx") (auto simp: validate_jupiter_exit_transaction_def decode_exit_transaction_def)
  from assms b m obtain keys decoded fee ul up where
      head: "num_required_signatures m = 1" "account_keys m \<noteq> []" "hd (account_keys m) = owner"
      "signatures tx = [default_signature]"
    and keys: "resolve_keys env m = Inr keys"
    and fold: "rfold (check_exit_instruction owner keys) (instructions m) ([], False) = Inr (decoded, True)"
    and fee: "compute_budget decoded cap = Inr (fee, ul, up)"
    and v: "v = \<lparr> vt_transaction = tx, vt_top_level_programs = map fst decoded,
                 vt_priority_fee_lamports = fee, vt_compute_unit_limit = ul,
                 vt_compute_unit_price_micro_lamports = up \<rparr>"
    by (auto simp: validate_jupiter_exit_transaction_def decode_exit_transaction_def split: if_splits)
  have "nth_opt (account_keys m) 0 = Some owner" using head by (cases "account_keys m") auto
  moreover have "fee = priority_fee ul up \<and> 0 \<le> fee \<and> fee \<le> cap"
    using budget_within_Inr fee unfolding compute_budget_def by blast
  moreover note check_exit_all [OF fold]
  ultimately show thesis using that [OF b(1) _ _ head(1) _ _ keys] b m head v by simp
qed

interpretation jupiter: signing_gate validate_jupiter_exit_transaction resolve_keys vt_transaction
  vt_priority_fee_lamports "set ALLOWED_TOP_LEVEL_PROGRAMS"
proof unfold_locales
  fix env owner encoded cap v
  assume a: "validate_jupiter_exit_transaction env owner encoded cap = Inr v"
  show "(\<forall>s \<in> set (signatures (vt_transaction v)). s = default_signature) \<and>
       (\<exists>raw. b64decode encoded = Some raw \<and> from_bytes env raw = Some (vt_transaction v))"
    using a by (rule validate_exit_Inr) simp
  show "\<exists>m keys. tx_message (vt_transaction v) = V0 m \<and> resolve_keys env m = Inr keys \<and>
         nth_opt (account_keys m) 0 = Some owner \<and>
         (\<forall>(p, ix) \<in> set (calls keys m). p \<in> Some ` set ALLOWED_TOP_LEVEL_PROGRAMS)"
    using a by (rule validate_exit_Inr) (auto simp: calls_def exit_instruction_ok_def image_iff)
  show "0 \<le> vt_priority_fee_lamports v \<and> vt_priority_fee_lamports v \<le> cap"
    using a by (rule validate_exit_Inr) simp
qed

text \<open>
  C27 (safety). A Jupiter exit that is accepted for signing is an unsigned v0
  transaction whose only signer and fee payer is the wallet. Every top-level
  instruction, with lookup tables expanded, calls an allowlisted program; a
  token-program instruction only syncs a native account or closes one back to
  the wallet under its own authority, an associated-token instruction only
  creates an account paid by and owned by the wallet; a Jupiter instruction is
  present; and the priority fee is within the configured cap.
\<close>

theorem accepted_exit_is_safe:
  assumes "validate_jupiter_exit_transaction env owner encoded cap = Inr v"
  shows "\<exists>m keys. tx_message (vt_transaction v) = V0 m \<and> num_required_signatures m = 1 \<and>
    nth_opt (account_keys m) 0 = Some owner \<and> signatures (vt_transaction v) = [default_signature] \<and>
    resolve_keys env m = Inr keys \<and>
    (\<forall>ix \<in> set (instructions m). exit_instruction_ok owner keys ix) \<and>
    (\<exists>ix \<in> set (instructions m). nth_opt keys (program_id_index ix) = Some JUPITER_V6_PROGRAM) \<and>
    vt_priority_fee_lamports v \<le> cap"
  using assms by (rule validate_exit_Inr) blast

definition sample_exit_tx :: VersionedTransaction where
  "sample_exit_tx = \<lparr> tx_message = V0 \<lparr> num_required_signatures = 1,
       account_keys = [''Wallet'', COMPUTE_BUDGET_PROGRAM, JUPITER_V6_PROGRAM, TOKEN_PROGRAM, ''Wsol''],
       instructions = [\<lparr> program_id_index = 1, accounts = [], data = 3 # le_bytes 8 50000 \<rparr>,
                       \<lparr> program_id_index = 2, accounts = [0, 4], data = [1] \<rparr>,
                       \<lparr> program_id_index = 3, accounts = [4, 0, 0], data = [9] \<rparr>],
       address_table_lookups = [] \<rparr>,
     signatures = [default_signature] \<rparr>"

definition sample_env :: "VersionedTransaction \<Rightarrow> wire_env" where
  "sample_env tx = \<lparr> from_bytes = (\<lambda>raw. if raw = [] then Some tx else None),
     pubkey_text = (\<lambda>_. ''key''), account_data = (\<lambda>_. Inl (ExternalServiceError ''rpc'')) \<rparr>"

lemma sample_exit_accepted:
  "is_Inr (validate_jupiter_exit_transaction (sample_env sample_exit_tx) ''Wallet'' [] 10000)"
  by code_simp

theorem accepted_exit_is_safe_witness:
  "\<exists>v. validate_jupiter_exit_transaction (sample_env sample_exit_tx) ''Wallet'' [] 10000 = Inr v \<and>
     signatures (vt_transaction v) = [default_signature] \<and> vt_priority_fee_lamports v \<le> 10000"
proof -
  obtain v where v: "validate_jupiter_exit_transaction (sample_env sample_exit_tx) ''Wallet'' [] 10000 = Inr v"
    using sample_exit_accepted by (auto simp: is_Inr_def split: sum.splits)
  from accepted_exit_is_safe [OF v] v show ?thesis by blast
qed

section \<open>Accepted simulations\<close>

text \<open>The balance every holding must have after the simulated exit.\<close>

definition wanted :: "string \<Rightarrow> int \<Rightarrow> TokenHolding \<Rightarrow> int" where
  "wanted target_mint expected_remaining h =
     (if th_mint h = target_mint then expected_remaining else th_amount h)"

definition segment_ok :: "string \<Rightarrow> int \<Rightarrow> TokenHolding \<Rightarrow> json list \<Rightarrow> bool" where
  "segment_ok target_mint expected_remaining h seg \<longleftrightarrow>
     length seg = length (th_token_accounts h) \<and>
     post_amount seg = Inr (wanted target_mint expected_remaining h) \<and>
     (th_mint h = target_mint \<longrightarrow> 0 \<le> expected_remaining)"

lemma check_simulated_holding_Inr:
  "check_simulated_holding accts target rem h (off, saw) = Inr acc' \<longleftrightarrow>
     post_amount (take (length (th_token_accounts h)) (drop off accts)) = Inr (wanted target rem h) \<and>
     (th_mint h = target \<longrightarrow> 0 \<le> rem) \<and>
     acc' = (off + length (th_token_accounts h), saw \<or> th_mint h = target)"
  by (auto simp: check_simulated_holding_def wanted_def Let_def split: if_splits)

lemma check_simulated_all:
  assumes "length (drop off accts) = sum_list (map (\<lambda>h. length (th_token_accounts h)) hs)"
  shows "(\<exists>off'. rfold (check_simulated_holding accts target rem) hs (off, saw) = Inr (off', saw')) \<longleftrightarrow>
    (saw' \<longleftrightarrow> saw \<or> target \<in> th_mint ` set hs) \<and>
    (\<exists>segs. drop off accts = concat segs \<and> list_all2 (segment_ok target rem) hs segs)"
  using assms
proof (induction hs arbitrary: off saw)
  case Nil
  then show ?case by (auto intro: exI [of _ "[]"])
next
  case (Cons h hs)
  let ?n = "length (th_token_accounts h)"
  have split: "drop off accts = take ?n (drop off accts) @ drop (off + ?n) accts"
    by (metis append_take_drop_id drop_drop add.commute)
  have len: "length (take ?n (drop off accts)) = ?n" using Cons.prems by simp
  have rest: "length (drop (off + ?n) accts) = sum_list (map (\<lambda>h. length (th_token_accounts h)) hs)"
    using Cons.prems by simp
  have segs: "(\<exists>segs. drop off accts = concat segs \<and> list_all2 (segment_ok target rem) (h # hs) segs) \<longleftrightarrow>
      segment_ok target rem h (take ?n (drop off accts)) \<and>
      (\<exists>segs. drop (off + ?n) accts = concat segs \<and> list_all2 (segment_ok target rem) hs segs)"
    (is "?L \<longleftrightarrow> ?R")
  proof
    assume ?L
    then obtain seg segs where s: "drop off accts = seg @ concat segs" "segment_ok target rem h seg"
      "list_all2 (segment_ok target rem) hs segs" by (auto simp: list_all2_Cons1)
    then have "length seg = ?n" by (simp add: segment_ok_def)
    then have "take ?n (drop off accts) = seg \<and> drop (off + ?n) accts = concat segs"
      using s(1) split len by (metis append_eq_append_conv)
    then show ?R using s by auto
  next
    assume ?R
    then obtain segs where "segment_ok target rem h (take ?n (drop off accts))"
      "drop (off + ?n) accts = concat segs" "list_all2 (segment_ok target rem) hs segs" by auto
    then show ?L using split by (intro exI [of _ "take ?n (drop off accts) # segs"]) simp
  qed
  have ok: "segment_ok target rem h (take ?n (drop off accts)) \<longleftrightarrow>
      post_amount (take ?n (drop off accts)) = Inr (wanted target rem h) \<and> (th_mint h = target \<longrightarrow> 0 \<le> rem)"
    using len by (simp add: segment_ok_def)
  have "(\<exists>off'. rfold (check_simulated_holding accts target rem) (h # hs) (off, saw) = Inr (off', saw')) \<longleftrightarrow>
      segment_ok target rem h (take ?n (drop off accts)) \<and>
      (\<exists>off'. rfold (check_simulated_holding accts target rem) hs (off + ?n, saw \<or> th_mint h = target) =
        Inr (off', saw'))"
    unfolding ok by (simp add: check_simulated_holding_Inr)
  then show ?case
    unfolding segs Cons.IH [OF rest] by auto
qed

text \<open>
  The simulation of an exit is accepted exactly when it reports
  the wallet followed by every token account of every holding, the wallet ends
  with at least its balance plus the minimum output less the allowed cost, the
  target is among the holdings and its accounts together hold exactly the
  intended remainder (never negative), and the accounts of every other holding
  together hold exactly what they held.
\<close>

lemma simulated_exit_accepted_iff:
  "validate_simulated_exit simulation holdings target pre minimum cost remaining = Inr () \<longleftrightarrow>
     (\<exists>wallet lamports segs.
        jget ''accounts'' simulation = JList (JObj wallet # concat segs) \<and>
        as_int (jget ''lamports'' wallet) = Some lamports \<and> pre + minimum - cost \<le> lamports \<and>
        target \<in> th_mint ` set holdings \<and>
        list_all2 (segment_ok target remaining) holdings segs)"
  (is "?L \<longleftrightarrow> ?R")
proof
  let ?total = "sum_list (map (\<lambda>h. length (th_token_accounts h)) holdings)"
  {
    fix accts
    assume acc: "jget ''accounts'' simulation = JList accts" and len: "length accts = 1 + ?total"
    then obtain w rest where w: "accts = w # rest" by (cases accts) auto
    have "length (drop 1 accts) = ?total" using len by simp
    note all = check_simulated_all [OF this, of target remaining False True]
    have "?L \<longleftrightarrow> (\<exists>wallet lamports. w = JObj wallet \<and> as_int (jget ''lamports'' wallet) = Some lamports \<and>
        pre + minimum - cost \<le> lamports \<and>
        (\<exists>off'. rfold (check_simulated_holding accts target remaining) holdings (1, False) = Inr (off', True)))"
      using acc len w
      by (cases "obj_of w") (auto simp: validate_simulated_exit_def Let_def split: if_splits option.splits)
    also have "\<dots> \<longleftrightarrow> (\<exists>wallet lamports. w = JObj wallet \<and> as_int (jget ''lamports'' wallet) = Some lamports \<and>
        pre + minimum - cost \<le> lamports \<and> target \<in> th_mint ` set holdings \<and>
        (\<exists>segs. rest = concat segs \<and> list_all2 (segment_ok target remaining) holdings segs))"
      unfolding all using w by simp
    finally have "?L \<longleftrightarrow> (\<exists>wallet lamports. w = JObj wallet \<and> as_int (jget ''lamports'' wallet) = Some lamports \<and>
        pre + minimum - cost \<le> lamports \<and> target \<in> th_mint ` set holdings \<and>
        (\<exists>segs. rest = concat segs \<and> list_all2 (segment_ok target remaining) holdings segs))" .
    then have "?L \<longleftrightarrow> ?R" using acc w by auto
  }
  note core = this
  have lenR: "length (concat segs) = ?total" if "list_all2 (segment_ok target remaining) holdings segs" for segs
    using that by (induction rule: list_all2_induct) (auto simp: segment_ok_def)
  {
    assume L: ?L
    then obtain accts where "jget ''accounts'' simulation = JList accts" "length accts = 1 + ?total"
      by (auto simp: validate_simulated_exit_def Let_def split: json.splits if_splits)
    then show ?R using core L by blast
  }
  {
    assume R: ?R
    then obtain w segs where "jget ''accounts'' simulation = JList (JObj w # concat segs)"
      "list_all2 (segment_ok target remaining) holdings segs" by blast
    then show ?L using core [of "JObj w # concat segs"] lenR R by simp
  }
qed

end
