(* ===== verification/Sim_Chunks.thy ===== *)
theory Sim_Chunks
  imports Transaction Clients
begin

text \<open>
  How the safety simulation covers a wallet with many token accounts
  (\<open>SellExecutor._simulation_chunks\<close> of
  \<open>joshibot/shitcoims_sentinel/executor.py\<close>): several passes over the same
  signed transaction, each carrying the whole target holding.
\<close>

section \<open>Definitions\<close>

definition SIMULATION_CHUNK_LIMIT :: nat where
  "SIMULATION_CHUNK_LIMIT = 24"

definition account_count :: "TokenHolding list \<Rightarrow> nat" where
  "account_count hs = sum_list (map (\<lambda>h. length (th_token_accounts h)) hs)"

record chunking =
  ck_chunks :: "TokenHolding list list"
  ck_current :: "TokenHolding list"
  ck_used :: nat

text \<open>One turn of the loop over the holdings other than the target.\<close>

definition chunk_step ::
  "TokenHolding list \<Rightarrow> nat \<Rightarrow> TokenHolding \<Rightarrow> chunking \<Rightarrow> chunking res" where
  "chunk_step target budget holding c =
     (let count = length (th_token_accounts holding)
      in if budget < count
         then Inl (SimulationCoverageError ''holding spans more token accounts than fit alongside the target'')
         else
           let c1 = (if budget < ck_used c + count
                     then \<lparr> ck_chunks = ck_chunks c @ [target @ ck_current c], ck_current = [], ck_used = 0 \<rparr>
                     else c)
           in Inr (c1\<lparr>ck_current := ck_current c1 @ [holding], ck_used := ck_used c1 + count\<rparr>))"

definition simulation_chunks :: "TokenHolding list \<Rightarrow> string \<Rightarrow> TokenHolding list list res" where
  "simulation_chunks holdings target_mint =
     (let target = filter (\<lambda>h. th_mint h = target_mint) holdings;
          others = filter (\<lambda>h. th_mint h \<noteq> target_mint) holdings
      in if target = []
         then Inl (SimulationCoverageError ''target mint is not a current shitcoims holding'')
         else
           let fixed = 1 + account_count target
           in if SIMULATION_ADDRESS_LIMIT < fixed
              then Inl (SimulationCoverageError ''the target holds more token accounts than the ceiling'')
              else
                rbind (rfold (chunk_step target (SIMULATION_ADDRESS_LIMIT - fixed)) others
                         \<lparr> ck_chunks = [], ck_current = [], ck_used = 0 \<rparr>) (\<lambda>c.
                let chunks = (if ck_current c \<noteq> [] \<or> ck_chunks c = []
                              then ck_chunks c @ [target @ ck_current c] else ck_chunks c)
                in if SIMULATION_CHUNK_LIMIT < length chunks
                   then Inl (SimulationCoverageError ''too many simulation passes'')
                   else Inr chunks))"

section \<open>Coverage\<close>

text \<open>
  The loop invariant: what the finished chunks and the current one hold beside
  the target is the holdings seen so far, in order, and every chunk fits.
\<close>

definition chunk_inv :: "TokenHolding list \<Rightarrow> nat \<Rightarrow> TokenHolding list \<Rightarrow> chunking \<Rightarrow> bool" where
  "chunk_inv target budget seen c \<longleftrightarrow>
     (\<exists>parts. ck_chunks c = map ((@) target) parts \<and> seen = concat parts @ ck_current c \<and>
        (\<forall>p \<in> set parts. account_count p \<le> budget)) \<and>
     ck_used c = account_count (ck_current c) \<and> ck_used c \<le> budget"

lemma account_count_simps [simp]:
  "account_count [] = 0" "account_count (h # hs) = length (th_token_accounts h) + account_count hs"
  "account_count (hs @ hs') = account_count hs + account_count hs'"
  by (simp_all add: account_count_def)

lemma chunk_step_inv:
  assumes "chunk_inv target budget seen c" and "chunk_step target budget h c = Inr c'"
  shows "chunk_inv target budget (seen @ [h]) c'"
proof -
  from assms(1) obtain parts where parts: "ck_chunks c = map ((@) target) parts"
      "seen = concat parts @ ck_current c" "\<forall>p \<in> set parts. account_count p \<le> budget"
    and used: "ck_used c = account_count (ck_current c)" "ck_used c \<le> budget"
    by (auto simp: chunk_inv_def)
  show ?thesis
  proof (cases "budget < ck_used c + length (th_token_accounts h)")
    case True
    then have c': "c' = \<lparr> ck_chunks = ck_chunks c @ [target @ ck_current c], ck_current = [h],
        ck_used = length (th_token_accounts h) \<rparr>" and fits: "length (th_token_accounts h) \<le> budget"
      using assms(2) by (auto simp: chunk_step_def Let_def split: if_splits)
    show ?thesis
      unfolding chunk_inv_def c' using parts used fits
      by (auto intro!: exI [of _ "parts @ [ck_current c]"])
  next
    case False
    then have c': "c' = c\<lparr>ck_current := ck_current c @ [h], ck_used := ck_used c + length (th_token_accounts h)\<rparr>"
      using assms(2) by (auto simp: chunk_step_def Let_def split: if_splits)
    show ?thesis
      unfolding chunk_inv_def c' using parts used False by (auto intro!: exI [of _ parts])
  qed
qed

lemma chunk_fold_inv:
  "rfold (chunk_step target budget) hs c = Inr c' \<Longrightarrow> chunk_inv target budget seen c \<Longrightarrow>
   chunk_inv target budget (seen @ hs) c'"
proof (induction hs arbitrary: c seen)
  case (Cons h hs)
  from Cons.prems obtain c1 where "chunk_step target budget h c = Inr c1"
    and "rfold (chunk_step target budget) hs c1 = Inr c'" by auto
  then show ?case using Cons.IH [of c1 "seen @ [h]"] chunk_step_inv Cons.prems(2) by simp
qed simp

text \<open>The shape of a successful split: the target in front of every part of the other holdings.\<close>

lemma simulation_chunks_shape:
  assumes "simulation_chunks holdings mint = Inr chunks"
  obtains parts where
    "chunks = map ((@) (filter (\<lambda>h. th_mint h = mint) holdings)) parts"
    "filter (\<lambda>h. th_mint h \<noteq> mint) holdings = concat parts"
    "\<forall>p \<in> set parts. 1 + account_count (filter (\<lambda>h. th_mint h = mint) holdings) + account_count p
       \<le> SIMULATION_ADDRESS_LIMIT"
    "parts \<noteq> []" "length chunks \<le> SIMULATION_CHUNK_LIMIT" "filter (\<lambda>h. th_mint h = mint) holdings \<noteq> []"
proof -
  let ?t = "filter (\<lambda>h. th_mint h = mint) holdings"
  let ?o = "filter (\<lambda>h. th_mint h \<noteq> mint) holdings"
  let ?b = "SIMULATION_ADDRESS_LIMIT - (1 + account_count ?t)"
  from assms obtain c where t: "?t \<noteq> []" "1 + account_count ?t \<le> SIMULATION_ADDRESS_LIMIT"
    and c: "rfold (chunk_step ?t ?b) ?o \<lparr> ck_chunks = [], ck_current = [], ck_used = 0 \<rparr> = Inr c"
    and chunks: "chunks = (if ck_current c \<noteq> [] \<or> ck_chunks c = [] then ck_chunks c @ [?t @ ck_current c] else ck_chunks c)"
      "length chunks \<le> SIMULATION_CHUNK_LIMIT"
    by (auto simp: simulation_chunks_def Let_def split: if_splits)
  have "chunk_inv ?t ?b [] \<lparr> ck_chunks = [], ck_current = [], ck_used = 0 \<rparr>"
    by (simp add: chunk_inv_def)
  from chunk_fold_inv [OF c this] obtain parts where p: "ck_chunks c = map ((@) ?t) parts"
      "?o = concat parts @ ck_current c" "\<forall>p \<in> set parts. account_count p \<le> ?b"
      "account_count (ck_current c) \<le> ?b"
    by (auto simp: chunk_inv_def)
  define parts' where "parts' = (if ck_current c \<noteq> [] \<or> ck_chunks c = [] then parts @ [ck_current c] else parts)"
  show thesis
  proof (rule that [of parts'])
    show "chunks = map ((@) ?t) parts'" using chunks(1) p(1) by (auto simp: parts'_def)
    show "?o = concat parts'" using p(2) by (auto simp: parts'_def)
    have "\<forall>p \<in> set parts'. account_count p \<le> ?b" using p(3,4) by (auto simp: parts'_def)
    then show "\<forall>p \<in> set parts'. 1 + account_count ?t + account_count p \<le> SIMULATION_ADDRESS_LIMIT"
      using t(2) by auto
    show "parts' \<noteq> []" using p(1) by (auto simp: parts'_def)
  qed (use chunks(2) t(1) in auto)
qed

text \<open>
  C28 (safety). The passes of a safety simulation cover the wallet: every
  holding is in some pass, never split between two; every pass carries the whole
  target and fits the address ceiling together with the wallet account; together
  the passes see the other holdings exactly once each, in order; and there are at
  most as many passes as the cap allows.
\<close>

theorem simulation_covers_wallet:
  assumes "simulation_chunks holdings mint = Inr chunks"
  shows "set holdings = \<Union> (set ` set chunks) \<and>
    (\<forall>chunk \<in> set chunks. 1 + account_count chunk \<le> SIMULATION_ADDRESS_LIMIT \<and>
       filter (\<lambda>h. th_mint h = mint) chunk = filter (\<lambda>h. th_mint h = mint) holdings) \<and>
    concat (map (filter (\<lambda>h. th_mint h \<noteq> mint)) chunks) = filter (\<lambda>h. th_mint h \<noteq> mint) holdings \<and>
    mint \<in> th_mint ` set holdings \<and> length chunks \<le> SIMULATION_CHUNK_LIMIT"
  using assms
proof (rule simulation_chunks_shape)
  let ?t = "filter (\<lambda>h. th_mint h = mint) holdings"
  let ?o = "filter (\<lambda>h. th_mint h \<noteq> mint) holdings"
  fix parts
  assume ch: "chunks = map ((@) ?t) parts" and o: "?o = concat parts"
    and fits: "\<forall>p \<in> set parts. 1 + account_count ?t + account_count p \<le> SIMULATION_ADDRESS_LIMIT"
    and ne: "parts \<noteq> []" "length chunks \<le> SIMULATION_CHUNK_LIMIT" "?t \<noteq> []"
  have other: "\<forall>p \<in> set parts. \<forall>h \<in> set p. th_mint h \<noteq> mint"
  proof (intro ballI)
    fix p h assume "p \<in> set parts" "h \<in> set p"
    then have "h \<in> set ?o" unfolding o by auto
    then show "th_mint h \<noteq> mint" by simp
  qed
  have "set holdings = set ?t \<union> set ?o" by auto
  then have "set holdings = \<Union> (set ` set chunks)" using ne(1) by (auto simp: ch o)
  moreover have "\<forall>chunk \<in> set chunks. 1 + account_count chunk \<le> SIMULATION_ADDRESS_LIMIT \<and>
      filter (\<lambda>h. th_mint h = mint) chunk = ?t"
    using fits other by (auto simp: ch)
  moreover have "concat (map (filter (\<lambda>h. th_mint h \<noteq> mint)) chunks) = concat parts"
    using other by (auto simp: ch comp_def intro!: arg_cong [where f = concat] map_idI)
  moreover have "mint \<in> th_mint ` set holdings"
    using ne(3) by (metis (mono_tags, lifting) filter_False image_eqI)
  ultimately show ?thesis using o ne(2) by simp
qed

theorem simulation_covers_wallet_witness:
  "\<exists>chunks. simulation_chunks [sample_holding] (th_mint sample_holding) = Inr chunks \<and>
     set [sample_holding] = \<Union> (set ` set chunks)"
proof -
  have "simulation_chunks [sample_holding] (th_mint sample_holding) = Inr [[sample_holding]]"
    by (simp add: simulation_chunks_def SIMULATION_ADDRESS_LIMIT_def SIMULATION_CHUNK_LIMIT_def
        sample_holding_def Let_def)
  from simulation_covers_wallet [OF this] this show ?thesis by blast
qed

end
