(* ===== verification/Effects.thy ===== *)
theory Effects
  imports Sim_Chunks Fill
begin

text \<open>
  Running the sell executor: the world it acts on, the outside services it
  asks, and the sequencing of effectful code that may raise.

  The outside world (the Solana RPC and Jupiter as the JSON they return, the
  signer of \<open>solders\<close>, the notifier, the trade ledger, the clock) is the
  record \<open>services\<close>: every answer is a function of the number of questions asked
  before, so the theorems hold for every sequence of answers, failures
  included. Each question and each write of the state file is appended to a
  log: the history a crash can cut at any point.
\<close>

section \<open>The world\<close>

text \<open>
  A submission: the signature a signed exit transaction has, the blockhash it
  expires with (an empty one counts as absent) and the balance it leaves.
\<close>

record submission =
  sub_signature :: string
  sub_blockhash :: "string option"
  sub_remaining :: int

text \<open>What was checked about a transaction before it was broadcast.\<close>

record evidence =
  ev_mint :: string
  ev_amount :: int
  ev_signed :: string
  ev_validated :: ValidatedTransaction
  ev_holdings :: "TokenHolding list"
  ev_pre_sol :: int
  ev_min_out :: int

datatype action =
    Wrote disk
  | Executed submission evidence
  | Asked_status string "string res"
  | Asked_blockhash string "bool res"
  | Asked_holdings "TokenHolding list res"
  | Ordered string int
  | Traded string int "int option" string
  | Notified string string
  | Wrote_config obj

record services =
  svc_clock :: "nat \<Rightarrow> int"
  svc_signature_status :: "nat \<Rightarrow> string \<Rightarrow> json res"
  svc_blockhash_valid :: "nat \<Rightarrow> string \<Rightarrow> json res"
  svc_token_accounts :: "nat \<Rightarrow> string \<Rightarrow> json res"
  svc_sol_balance :: "nat \<Rightarrow> json res"
  svc_simulate :: "nat \<Rightarrow> string \<Rightarrow> string list \<Rightarrow> json res"
  svc_order :: "nat \<Rightarrow> string \<Rightarrow> int \<Rightarrow> int \<Rightarrow> json res"
  svc_execute :: "nat \<Rightarrow> string \<Rightarrow> string \<Rightarrow> json res"
  svc_wire :: "nat \<Rightarrow> wire_env"
  svc_sign :: "ValidatedTransaction \<Rightarrow> (string \<times> string) res"
  svc_recent_blockhash :: "VersionedTransaction \<Rightarrow> string"
  svc_notify :: "nat \<Rightarrow> unit res"
  svc_append_trade :: "nat \<Rightarrow> unit res"
  svc_arm_file :: "nat \<Rightarrow> string option res"
  svc_config_file :: "nat \<Rightarrow> unit res"
  svc_config_check :: "nat \<Rightarrow> obj \<Rightarrow> unit res"

text \<open>
  The state of the running process: the world (state file, question counter, log),
  the local variables of \<open>sell\<close> that its attempts share, and what the engine and
  the metadata client remember between polls: for a mint the generation, the time to
  wait for and the reason of a failed basis read; the policies whose basis was
  observed in this cycle; the \<open>complete\<close> flag of a token with the time it is kept; the
  configuration file as the mapping YAML reads, the policies in use, the mints seen
  without a policy, and the observations of those with the time of the next sweep.
\<close>

record sys =
  w_disk :: disk
  w_tick :: nat
  w_log :: "action list"
  intent :: obj
  last_error :: string
  pending_signature :: "string option"
  pending_blockhash :: "string option"
  pending_expected_remaining :: int
  pending_amount :: int
  pending_output_lamports :: "int option"
  basis_retry :: "(string \<times> (int \<times> rat \<times> string)) list"
  basis_refills :: "PositionPolicy list"
  pump_cache :: "(string \<times> (rat \<times> bool option option)) list"
  w_config :: obj
  cur_positions :: "PositionPolicy list"
  known_unmonitored :: "string list"
  observe_cache :: "(string \<times> string) list"
  next_observe_sweep :: rat

section \<open>Effectful code\<close>

type_synonym 'a io = "sys \<Rightarrow> 'a res \<times> sys"

definition ret :: "'a \<Rightarrow> 'a io" where
  "ret v s = (Inr v, s)"

definition raise :: "py_exc \<Rightarrow> 'a io" where
  "raise e s = (Inl e, s)"

definition lift :: "'a res \<Rightarrow> 'a io" where
  "lift r s = (r, s)"

definition bind :: "'a io \<Rightarrow> ('a \<Rightarrow> 'b io) \<Rightarrow> 'b io" where
  "bind m f s = (case m s of (Inl e, s') \<Rightarrow> (Inl e, s') | (Inr v, s') \<Rightarrow> f v s')"

text \<open>\<open>try: m except Exception as exc: h exc\<close>.\<close>

definition catch :: "'a io \<Rightarrow> (py_exc \<Rightarrow> 'a io) \<Rightarrow> 'a io" where
  "catch m h s = (case m s of (Inl e, s') \<Rightarrow> h e s' | (Inr v, s') \<Rightarrow> (Inr v, s'))"

definition modify :: "(sys \<Rightarrow> sys) \<Rightarrow> unit io" where
  "modify f s = (Inr (), f s)"

definition gets :: "(sys \<Rightarrow> 'a) \<Rightarrow> 'a io" where
  "gets f s = (Inr (f s), s)"

primrec mapM_io :: "('a \<Rightarrow> 'b io) \<Rightarrow> 'a list \<Rightarrow> 'b list io" where
  "mapM_io f [] = ret []"
| "mapM_io f (x # xs) = bind (f x) (\<lambda>y. bind (mapM_io f xs) (\<lambda>ys. ret (y # ys)))"

text \<open>Asking a service: the answer of this tick, with or without an entry in the log.\<close>

definition ask :: "(nat \<Rightarrow> 'a res) \<Rightarrow> 'a io" where
  "ask q s = (q (w_tick s), s\<lparr>w_tick := w_tick s + 1\<rparr>)"

definition ask_logged :: "('a res \<Rightarrow> action) \<Rightarrow> (nat \<Rightarrow> 'a res) \<Rightarrow> 'a io" where
  "ask_logged act q s =
     (q (w_tick s), s\<lparr>w_tick := w_tick s + 1, w_log := w_log s @ [act (q (w_tick s))]\<rparr>)"

text \<open>The state store: a write that succeeds is one atomic replacement of the file.\<close>

definition db :: "services \<Rightarrow> (int \<Rightarrow> disk \<Rightarrow> disk res) \<Rightarrow> unit io" where
  "db svc f s =
     (case f (svc_clock svc (w_tick s)) (w_disk s) of
        Inl e \<Rightarrow> (Inl e, s)
      | Inr d \<Rightarrow> (Inr (), s\<lparr>w_disk := d, w_log := w_log s @ [Wrote d]\<rparr>))"

definition db_get :: "services \<Rightarrow> string list \<Rightarrow> json \<Rightarrow> json io" where
  "db_get svc keys d s = (store_get (svc_clock svc (w_tick s)) keys d (w_disk s), s)"

definition notify :: "services \<Rightarrow> string \<Rightarrow> string \<Rightarrow> unit io" where
  "notify svc severity tag = ask_logged (\<lambda>_. Notified severity tag) (svc_notify svc)"

section \<open>Reasoning about effectful code\<close>

text \<open>
  \<open>spec P m Q E\<close>: started in a state with \<open>P\<close>, the code returns in a
  state with \<open>Q\<close> of its value, or raises in a state with \<open>E\<close>.
\<close>

definition spec :: "(sys \<Rightarrow> bool) \<Rightarrow> 'a io \<Rightarrow> ('a \<Rightarrow> sys \<Rightarrow> bool) \<Rightarrow> (sys \<Rightarrow> bool) \<Rightarrow> bool" where
  "spec P m Q E \<longleftrightarrow>
     (\<forall>s. P s \<longrightarrow> (case m s of (Inl e, s') \<Rightarrow> E s' | (Inr v, s') \<Rightarrow> Q v s'))"

named_theorems spec_intros \<open>rules of the effect calculus\<close>

lemma specI:
  assumes "\<And>s e s'. P s \<Longrightarrow> m s = (Inl e, s') \<Longrightarrow> E s'"
    and "\<And>s v s'. P s \<Longrightarrow> m s = (Inr v, s') \<Longrightarrow> Q v s'"
  shows "spec P m Q E"
  unfolding spec_def
proof (intro allI impI)
  fix s assume "P s"
  then show "case m s of (Inl e, s') \<Rightarrow> E s' | (Inr v, s') \<Rightarrow> Q v s'"
    using assms by (cases "m s"; cases "fst (m s)") auto
qed

lemma spec_Inr: "spec P m Q E \<Longrightarrow> P s \<Longrightarrow> m s = (Inr v, s') \<Longrightarrow> Q v s'"
  by (auto simp: spec_def dest!: spec [where x = s])

lemma spec_Inl: "spec P m Q E \<Longrightarrow> P s \<Longrightarrow> m s = (Inl e, s') \<Longrightarrow> E s'"
  by (auto simp: spec_def dest!: spec [where x = s])

lemma spec_weaken:
  "spec P m Q E \<Longrightarrow> (\<And>s. P' s \<Longrightarrow> P s) \<Longrightarrow> (\<And>v s. Q v s \<Longrightarrow> Q' v s) \<Longrightarrow> (\<And>s. E s \<Longrightarrow> E' s) \<Longrightarrow>
   spec P' m Q' E'"
  by (rule specI) (blast dest: spec_Inl spec_Inr)+

lemma spec_ret [spec_intros]: "(\<And>s. P s \<Longrightarrow> Q v s) \<Longrightarrow> spec P (ret v) Q E"
  by (auto simp: spec_def ret_def)

lemma spec_raise [spec_intros]: "(\<And>s. P s \<Longrightarrow> E s) \<Longrightarrow> spec P (raise e) Q E"
  by (auto simp: spec_def raise_def)

lemma spec_lift:
  "(\<And>s v. P s \<Longrightarrow> r = Inr v \<Longrightarrow> Q v s) \<Longrightarrow> (\<And>s. P s \<Longrightarrow> E s) \<Longrightarrow> spec P (lift r) Q E"
  by (cases r) (auto simp: spec_def lift_def)

lemma spec_bind:
  assumes "spec P m R E" and "\<And>v. spec (R v) (f v) Q E"
  shows "spec P (bind m f) Q E"
proof (rule specI)
  fix s e s' assume "P s" and "bind m f s = (Inl e, s')"
  then show "E s'"
    using spec_Inl [OF assms(1), of s] spec_Inr [OF assms(1), of s] spec_Inl [OF assms(2)]
    by (auto simp: bind_def split: prod.splits sum.splits)
next
  fix s v s' assume "P s" and "bind m f s = (Inr v, s')"
  then show "Q v s'"
    using spec_Inr [OF assms(1), of s] spec_Inr [OF assms(2)]
    by (auto simp: bind_def split: prod.splits sum.splits)
qed

lemma spec_catch:
  assumes "spec P m Q R" and "\<And>e. spec R (h e) Q E"
  shows "spec P (catch m h) Q E"
proof (rule specI)
  fix s e s' assume "P s" and "catch m h s = (Inl e, s')"
  then show "E s'"
    using spec_Inl [OF assms(1), of s] spec_Inl [OF assms(2)]
    by (auto simp: catch_def split: prod.splits sum.splits)
next
  fix s v s' assume "P s" and "catch m h s = (Inr v, s')"
  then show "Q v s'"
    using spec_Inr [OF assms(1), of s] spec_Inl [OF assms(1), of s] spec_Inr [OF assms(2)]
    by (auto simp: catch_def split: prod.splits sum.splits)
qed

lemma spec_modify: "(\<And>s. P s \<Longrightarrow> Q () (f s)) \<Longrightarrow> spec P (modify f) Q E"
  by (auto simp: spec_def modify_def)

lemma spec_gets: "(\<And>s. P s \<Longrightarrow> Q (f s) s) \<Longrightarrow> spec P (gets f) Q E"
  by (auto simp: spec_def gets_def)

lemma spec_if [spec_intros]:
  "(b \<Longrightarrow> spec P m Q E) \<Longrightarrow> (\<not> b \<Longrightarrow> spec P n Q E) \<Longrightarrow> spec P (if b then m else n) Q E"
  by simp

lemma spec_option [spec_intros]:
  "(x = None \<Longrightarrow> spec P m Q E) \<Longrightarrow> (\<And>v. x = Some v \<Longrightarrow> spec P (f v) Q E) \<Longrightarrow>
   spec P (case x of None \<Rightarrow> m | Some v \<Rightarrow> f v) Q E"
  by (cases x) auto

lemma spec_ask:
  "(\<And>s v. P s \<Longrightarrow> q (w_tick s) = Inr v \<Longrightarrow> Q v (s\<lparr>w_tick := w_tick s + 1\<rparr>)) \<Longrightarrow>
   (\<And>s. P s \<Longrightarrow> E (s\<lparr>w_tick := w_tick s + 1\<rparr>)) \<Longrightarrow> spec P (ask q) Q E"
  by (rule specI) (auto simp: ask_def)

lemma spec_ask_logged:
  "(\<And>s v. P s \<Longrightarrow> q (w_tick s) = Inr v \<Longrightarrow>
      Q v (s\<lparr>w_tick := w_tick s + 1, w_log := w_log s @ [act (Inr v)]\<rparr>)) \<Longrightarrow>
   (\<And>s e. P s \<Longrightarrow> q (w_tick s) = Inl e \<Longrightarrow>
      E (s\<lparr>w_tick := w_tick s + 1, w_log := w_log s @ [act (Inl e)]\<rparr>)) \<Longrightarrow>
   spec P (ask_logged act q) Q E"
  by (rule specI) (auto simp: ask_logged_def)

lemma spec_db:
  "(\<And>s d. P s \<Longrightarrow> f (svc_clock svc (w_tick s)) (w_disk s) = Inr d \<Longrightarrow>
      Q () (s\<lparr>w_disk := d, w_log := w_log s @ [Wrote d]\<rparr>)) \<Longrightarrow>
   (\<And>s. P s \<Longrightarrow> E s) \<Longrightarrow> spec P (db svc f) Q E"
  by (rule specI) (auto simp: db_def split: sum.splits)

lemma spec_db_get:
  "(\<And>s v. P s \<Longrightarrow> store_get (svc_clock svc (w_tick s)) keys d (w_disk s) = Inr v \<Longrightarrow> Q v s) \<Longrightarrow>
   (\<And>s. P s \<Longrightarrow> E s) \<Longrightarrow> spec P (db_get svc keys d) Q E"
  by (rule specI) (auto simp: db_get_def)

lemma spec_mapM:
  assumes "\<And>x. x \<in> set xs \<Longrightarrow> spec I (f x) (\<lambda>v s. I s \<and> R x v) E"
  shows "spec I (mapM_io f xs) (\<lambda>vs s. I s \<and> list_all2 R xs vs) E"
  using assms
proof (induction xs)
  case Nil
  then show ?case by (auto intro: spec_ret)
next
  case (Cons x xs)
  have ih: "spec I (mapM_io f xs) (\<lambda>vs s. I s \<and> list_all2 R xs vs) E"
    using Cons by simp
  show ?case
    unfolding mapM_io.simps
  proof (rule spec_bind [OF Cons.prems [OF list.set_intros(1)]])
    fix v
    show "spec (\<lambda>s. I s \<and> R x v) (bind (mapM_io f xs) (\<lambda>ys. ret (v # ys)))
        (\<lambda>vs s. I s \<and> list_all2 R (x # xs) vs) E"
    proof (cases "R x v")
      case True
      have "spec (\<lambda>s. I s \<and> R x v) (mapM_io f xs) (\<lambda>vs s. I s \<and> list_all2 R xs vs) E"
        by (rule spec_weaken [OF ih]) auto
      then show ?thesis
        by (rule spec_bind) (rule spec_ret, simp add: True)
    qed (simp add: spec_def)
  qed
qed

end
