(* ===== verification/Executor.thy ===== *)
theory Executor
  imports Effects
begin

text \<open>
  The sell executor (\<open>joshibot/shitcoims_sentinel/executor.py\<close>): the
  execution gate, the resolution of submitted signatures, the safety simulation,
  the reserve floor, and \<open>sell\<close> with its attempts. Operations are written in
  the order of the source, over the effects of theory \<open>Effects\<close>. Messages are the
  source's texts; the dash in two of them is written \<open>--\<close>, and of a
  notification the severity and the message are kept.
\<close>

section \<open>Configuration and results\<close>

record exec_config =
  cfg_enabled :: bool
  cfg_cli_live :: bool
  cfg_wallet :: string
  cfg_jupiter_ready :: bool
  cfg_max_attempts :: nat
  cfg_max_sol_cost_lamports :: int
  cfg_max_priority_fee_lamports :: int
  cfg_slippage_bps :: int

definition RESOLUTION_POLL_ATTEMPTS :: nat where
  "RESOLUTION_POLL_ATTEMPTS = 50"

definition UNRESOLVED_STATUSES :: "string list" where
  "UNRESOLVED_STATUSES = [''submitting'', ''submitted'', ''submitted_unconfirmed'']"

record ExecutionResult =
  er_status :: string
  er_signature :: "string option"
  er_attempts :: nat
  er_message :: string
  er_input_amount :: int
  er_output_lamports :: "int option"

datatype sig_state = Sig_confirmed | Sig_dead | Sig_unresolved

record SignatureResolution =
  sr_state :: sig_state
  sr_detail :: string
  sr_leftover :: "int option"

fun describe_execution_failure :: "py_exc \<Rightarrow> string" where
  "describe_execution_failure (TransactionRejected m) = ''security stop (TransactionRejected): '' @ m"
| "describe_execution_failure (SimulationCoverageError m) = ''simulation coverage (SimulationCoverageError): '' @ m"
| "describe_execution_failure (ExternalServiceError m) = ''external service (ExternalServiceError): '' @ m"
| "describe_execution_failure (HttpError m) = ''transport failure; request detail withheld''"
| "describe_execution_failure (TimeoutError m) = ''timeout (TimeoutError) waiting for an execution response''"
| "describe_execution_failure _ = ''unexpected exception; detail withheld''"

section \<open>The gate\<close>

definition expected_arm_value :: "exec_config \<Rightarrow> string" where
  "expected_arm_value cfg = ''shitcoims:'' @ cfg_wallet cfg"

definition gate_failures :: "exec_config \<Rightarrow> string option \<Rightarrow> string list" where
  "gate_failures cfg arm =
     (if cfg_enabled cfg then [] else [''execution.enabled is false'']) @
     (if cfg_cli_live cfg then [] else [''process was not started with --live'']) @
     (if arm = Some (expected_arm_value cfg) then []
      else [''shitcoims live arm file is absent or does not match this wallet'']) @
     (if cfg_jupiter_ready cfg then [] else [''Jupiter API key is unavailable''])"

definition gate_status :: "services \<Rightarrow> exec_config \<Rightarrow> (bool \<times> string list) io" where
  "gate_status svc cfg =
     bind (ask (svc_arm_file svc)) (\<lambda>arm.
       ret (gate_failures cfg arm = [], gate_failures cfg arm))"

section \<open>Balances\<close>

definition holdings_now :: "services \<Rightarrow> TokenHolding list io" where
  "holdings_now svc = ask_logged Asked_holdings (\<lambda>t. token_holdings (svc_token_accounts svc t))"

definition find_holding :: "string \<Rightarrow> TokenHolding list \<Rightarrow> TokenHolding option" where
  "find_holding mint hs = find (\<lambda>h. th_mint h = mint) hs"

definition amount_of :: "TokenHolding option \<Rightarrow> int" where
  "amount_of h = (case h of None \<Rightarrow> 0 | Some x \<Rightarrow> th_amount x)"

definition holding_now :: "services \<Rightarrow> string \<Rightarrow> TokenHolding option io" where
  "holding_now svc mint = bind (holdings_now svc) (\<lambda>hs. ret (find_holding mint hs))"

section \<open>Signature resolution\<close>

text \<open>An empty blockhash is falsy and counts as none.\<close>

definition nonblank :: "string option \<Rightarrow> string option" where
  "nonblank b = (if b = Some [] then None else b)"

definition ask_blockhash :: "services \<Rightarrow> string \<Rightarrow> bool io" where
  "ask_blockhash svc bh =
     catch (ask_logged (Asked_blockhash bh) (\<lambda>t. rbind (svc_blockhash_valid svc t bh) blockhash_valid))
       (\<lambda>e. case e of ExternalServiceError _ \<Rightarrow> ret True | _ \<Rightarrow> raise e)"

definition resolution :: "sig_state \<Rightarrow> string \<Rightarrow> int option \<Rightarrow> SignatureResolution" where
  "resolution st detail leftover = \<lparr> sr_state = st, sr_detail = detail, sr_leftover = leftover \<rparr>"

text \<open>The polling loop; the first argument is the number of polls left.\<close>

fun resolve_polls ::
  "nat \<Rightarrow> services \<Rightarrow> string \<Rightarrow> string option \<Rightarrow> string \<Rightarrow> int \<Rightarrow> string \<Rightarrow> SignatureResolution io" where
  "resolve_polls 0 svc sig bh mint expected_remaining detail =
     ret (resolution Sig_unresolved detail None)"
| "resolve_polls (Suc n) svc sig bh mint expected_remaining detail =
     bind (ask_logged (Asked_status sig) (\<lambda>t. rbind (svc_signature_status svc t sig) signature_status)) (\<lambda>status.
       if status = ''failed''
       then ret (resolution Sig_dead ''transaction landed with an on-chain error'' None)
       else if status = ''confirmed'' then
         bind (holding_now svc mint) (\<lambda>remaining.
           if amount_of remaining \<le> expected_remaining
           then ret (resolution Sig_confirmed ''confirmed onchain'' (Some (amount_of remaining)))
           else resolve_polls n svc sig bh mint expected_remaining
                  ''confirmed signature has not yet reduced the balance'')
       else
         (case (if status = ''unknown'' then nonblank bh else None) of
            None \<Rightarrow> resolve_polls n svc sig bh mint expected_remaining (''signature status is '' @ status)
          | Some b \<Rightarrow>
              bind (ask_blockhash svc b) (\<lambda>still_valid.
                if still_valid
                then resolve_polls n svc sig bh mint expected_remaining (''signature status is '' @ status)
                else ret (resolution Sig_dead ''blockhash expired before the transaction landed'' None))))"

definition resolve_signature ::
  "services \<Rightarrow> string \<Rightarrow> string option \<Rightarrow> string \<Rightarrow> int \<Rightarrow> SignatureResolution io" where
  "resolve_signature svc sig bh mint expected_remaining =
     resolve_polls RESOLUTION_POLL_ATTEMPTS svc sig bh mint expected_remaining
       ''signature never reached a terminal state''"

section \<open>Settling\<close>

definition pending_path :: "string \<Rightarrow> string list" where
  "pending_path mint = [''pending_exits'', mint]"

definition save_pending :: "services \<Rightarrow> string \<Rightarrow> obj \<Rightarrow> unit io" where
  "save_pending svc mint i = db svc (\<lambda>now. store_set now (pending_path mint) (JObj i))"

definition drop_pending :: "services \<Rightarrow> string \<Rightarrow> unit io" where
  "drop_pending svc mint = db svc (\<lambda>now. store_delete now (pending_path mint))"

definition end_disposal :: "services \<Rightarrow> string \<Rightarrow> string \<Rightarrow> unit io" where
  "end_disposal svc mint reason =
     (if reason = ''exit_dispose'' then db svc (\<lambda>now. set_dispose_policy now mint False) else ret ())"

definition result_of :: "string \<Rightarrow> string option \<Rightarrow> nat \<Rightarrow> string \<Rightarrow> int \<Rightarrow> int option \<Rightarrow> ExecutionResult" where
  "result_of st sig attempts message amount out = \<lparr> er_status = st, er_signature = sig,
     er_attempts = attempts, er_message = message, er_input_amount = amount, er_output_lamports = out \<rparr>"

definition finalize_confirmed ::
  "services \<Rightarrow> string \<Rightarrow> string \<Rightarrow> string \<Rightarrow> string \<Rightarrow> int \<Rightarrow> int option \<Rightarrow> nat \<Rightarrow> ExecutionResult io" where
  "finalize_confirmed svc mint name reason sig sold_amount output_lamports attempt =
     bind (end_disposal svc mint reason) (\<lambda>_.
     bind (drop_pending svc mint) (\<lambda>_.
     bind (ask_logged (\<lambda>_. Traded mint sold_amount output_lamports sig) (svc_append_trade svc)) (\<lambda>_.
     let message = (if reason = ''exit_scale''
                    then ''SCALE CONFIRMED: '' @ name @ '' sold '' @ int_text sold_amount @ '' from shitcoims''
                    else ''EXIT CONFIRMED: '' @ name @ '' sold from shitcoims'')
     in bind (notify svc (if reason = ''exit_rug'' then ''critical'' else ''warning'') message) (\<lambda>_.
          ret (result_of ''success'' (Some sig) attempt message sold_amount output_lamports)))))"

definition mark_unresolved :: "string \<Rightarrow> string \<Rightarrow> obj \<Rightarrow> obj" where
  "mark_unresolved sig detail i =
     AList.update ''last_error'' (JStr detail)
       (AList.update ''signature'' (JStr sig)
         (AList.update ''status'' (JStr ''submitted_unconfirmed'') i))"

definition unresolved_message :: "string \<Rightarrow> string" where
  "unresolved_message name =
     ''EXIT UNRESOLVED: '' @ name @ '' on shitcoims has a submitted transaction that has not '' @
     ''resolved; no replacement will be sent -- MANUAL ACTION REQUIRED''"

definition block_on_unresolved ::
  "services \<Rightarrow> string \<Rightarrow> string \<Rightarrow> obj \<Rightarrow> string \<Rightarrow> string \<Rightarrow> nat \<Rightarrow> int \<Rightarrow> ExecutionResult io" where
  "block_on_unresolved svc mint name i sig detail attempt amount =
     bind (save_pending svc mint (mark_unresolved sig detail i)) (\<lambda>_.
     let message = unresolved_message name
     in bind (notify svc ''critical'' message) (\<lambda>_.
          ret (result_of ''unresolved'' (Some sig) attempt message amount None)))"

text \<open>
  The unresolved submission a stored intent carries, if any: a signature whose
  status says that it may still land.
\<close>

definition carries_signature :: "json \<Rightarrow> obj option" where
  "carries_signature entry =
     (case obj_of entry of
        None \<Rightarrow> None
      | Some prior \<Rightarrow>
          if truthy (jget ''signature'' prior) \<and> json_text (jget ''status'' prior) \<in> set UNRESOLVED_STATUSES
          then Some prior else None)"

definition stored_blockhash :: "obj \<Rightarrow> string option" where
  "stored_blockhash prior =
     (if truthy (jget ''recent_blockhash'' prior) then Some (json_text (jget ''recent_blockhash'' prior)) else None)"

definition text_or :: "json \<Rightarrow> string \<Rightarrow> string" where
  "text_or v d = (if truthy v then json_text v else d)"

definition resolve_prior_submission ::
  "services \<Rightarrow> string \<Rightarrow> string \<Rightarrow> string \<Rightarrow> ExecutionResult option io" where
  "resolve_prior_submission svc mint name reason =
     bind (db_get svc (pending_path mint) JNull) (\<lambda>entry.
       case carries_signature entry of
         None \<Rightarrow> ret None
       | Some prior \<Rightarrow>
           let sig = json_text (jget ''signature'' prior);
               prior_reason = text_or (jget ''reason'' prior) reason;
               prior_name = text_or (jget ''name'' prior) name;
               expected = int_of_json (jget ''expected_remaining'' prior);
               sold_amount = (case int_of_json (jget ''sell_amount'' prior) of Some a \<Rightarrow> a | None \<Rightarrow> 0)
           in if expected = None \<or> the expected < 0
              then bind (block_on_unresolved svc mint prior_name prior sig
                           ''stored exit intent is malformed and cannot be resolved'' 0 sold_amount)
                     (\<lambda>r. ret (Some r))
              else
                bind (resolve_signature svc sig (stored_blockhash prior) mint (the expected)) (\<lambda>res.
                  case sr_state res of
                    Sig_confirmed \<Rightarrow>
                      bind (finalize_confirmed svc mint prior_name prior_reason sig sold_amount
                              (int_of_json (jget ''output_lamports'' prior)) 0) (\<lambda>r. ret (Some r))
                  | Sig_unresolved \<Rightarrow>
                      bind (block_on_unresolved svc mint prior_name prior sig (sr_detail res) 0 sold_amount)
                        (\<lambda>r. ret (Some r))
                  | Sig_dead \<Rightarrow> ret None))"

section \<open>Simulation\<close>

definition units_consumed :: "obj \<Rightarrow> int option" where
  "units_consumed sim = (case jget ''units_consumed'' sim of JInt u \<Rightarrow> if 0 < u then Some u else None | _ \<Rightarrow> None)"

definition simulate_one :: "services \<Rightarrow> exec_config \<Rightarrow> string \<Rightarrow> TokenHolding list \<Rightarrow> obj io" where
  "simulate_one svc cfg signed_tx chunk =
     (let addresses = cfg_wallet cfg # concat (map th_token_accounts chunk)
      in ask (\<lambda>t. simulate_transaction_accounts (svc_simulate svc t signed_tx addresses) addresses))"

definition simulate_exit ::
  "services \<Rightarrow> exec_config \<Rightarrow> string \<Rightarrow> TokenHolding list \<Rightarrow> string \<Rightarrow> int \<Rightarrow> int \<Rightarrow> int \<Rightarrow> int option io" where
  "simulate_exit svc cfg signed_tx holdings target_mint pre_sol minimum_output expected_remaining =
     bind (lift (simulation_chunks holdings target_mint)) (\<lambda>chunks.
     bind (mapM_io (simulate_one svc cfg signed_tx) chunks) (\<lambda>simulations.
     bind (lift (rmapM (\<lambda>(chunk, sim).
              rbind (validate_simulated_exit sim chunk target_mint pre_sol minimum_output
                       (cfg_max_sol_cost_lamports cfg) expected_remaining)
                (\<lambda>_. Inr (units_consumed sim))) (zip chunks simulations))) (\<lambda>units.
       let consumed = List.map_filter id units
       in ret (if consumed = [] then None else Some (Max (set consumed))))))"

section \<open>The reserve floor and the landing bid\<close>

definition json_or :: "json \<Rightarrow> json \<Rightarrow> json" where
  "json_or v d = (if truthy v then v else d)"

definition reserve_floor_refusal ::
  "services \<Rightarrow> string \<Rightarrow> string \<Rightarrow> string \<Rightarrow> PoolSnapshot option \<Rightarrow> TokenHolding \<Rightarrow> int \<Rightarrow> obj \<Rightarrow>
   ExecutionResult option io" where
  "reserve_floor_refusal svc mint name reason pool holding amount order =
     bind (gets (\<lambda>s. svc_clock svc (w_tick s))) (\<lambda>now.
       case reserve_minimum_out pool holding amount RESERVE_DRIFT_ALLOWANCE_BPS now of
         None \<Rightarrow> ret None
       | Some flr \<Rightarrow>
           (case int_of_json (json_or (jget ''otherAmountThreshold'' order) (JInt 0)) of
              None \<Rightarrow> ret None
            | Some authorised \<Rightarrow>
                if flr \<le> authorised then ret None
                else if reason \<in> set WIDE_EXIT_REASONS
                then bind (notify svc ''critical'' (''EMERGENCY EXIT PRICED BELOW THE POOL for '' @ name @
                       '': order authorises '' @ int_text authorised @ '' lamports against a '' @ int_text flr @
                       '' reserve floor. Selling anyway.'')) (\<lambda>_. ret None)
                else
                  let message = ''SELL REFUSED: '' @ name @ '' order authorises '' @ int_text authorised @
                        '' lamports, below the '' @ int_text flr @ '' floor computed from the observed pool reserves''
                  in bind (notify svc ''critical'' message) (\<lambda>_.
                     bind (drop_pending svc mint) (\<lambda>_.
                       ret (Some (result_of ''skipped'' None 0 message 0 None))))))"

definition record_landing_bid ::
  "services \<Rightarrow> string \<Rightarrow> ValidatedTransaction \<Rightarrow> int option \<Rightarrow> unit io" where
  "record_landing_bid svc name validated units =
     (let price = int_text (vt_compute_unit_price_micro_lamports validated);
          limit = int_text (vt_compute_unit_limit validated)
      in if bid_below_landing_floor validated
         then notify svc ''critical'' (''LOW LANDING BID on '' @ name @ '': '' @ price @
                '' microlamports/CU is below the measured '' @ int_text LANDING_BID_FLOOR_MICRO_LAMPORTS @
                '' cliff (29.6% vs 97.2% landing). Submitting anyway.'')
         else if limit_is_oversized_against validated units
         then notify svc ''warning'' (''OVERSIZED COMPUTE REQUEST on '' @ name @ '': asked for '' @ limit @
                '' CU against '' @ (case units of Some u \<Rightarrow> int_text u | None \<Rightarrow> ''None'') @ '' simulated. '' @
                ''The block cost tracker charges the request to every writable account, '' @
                ''so this throttles the pool we are exiting and is paid for in fee.'')
         else notify svc ''info'' (''bid '' @ price @ '' microlamports/CU x '' @ limit @ '' CU for '' @ name))"

section \<open>Selling\<close>

text \<open>What one call of \<open>sell\<close> is about.\<close>

record sale =
  sale_mint :: string
  sale_name :: string
  sale_reason :: string
  sale_observed :: int
  sale_requested :: int
  sale_pool :: "PoolSnapshot option"

text \<open>\<open>clear_pending_signature\<close>: only after a submission was shown to be dead.\<close>

definition clear_pending_signature :: "services \<Rightarrow> string \<Rightarrow> string \<Rightarrow> unit io" where
  "clear_pending_signature svc mint detail =
     bind (modify (\<lambda>s. s\<lparr>pending_signature := None, pending_blockhash := None, pending_output_lamports := None,
             intent := AList.update ''last_error'' (JStr detail)
                         (AList.update ''status'' (JStr ''retrying'')
                           (AList.delete ''recent_blockhash'' (AList.delete ''signature'' (intent s))))\<rparr>)) (\<lambda>_.
     bind (gets intent) (\<lambda>i. save_pending svc mint i))"

definition block_sale :: "services \<Rightarrow> sale \<Rightarrow> string \<Rightarrow> string \<Rightarrow> nat \<Rightarrow> int \<Rightarrow> ExecutionResult io" where
  "block_sale svc sale sig detail attempt amount =
     bind (modify (\<lambda>s. s\<lparr>intent := mark_unresolved sig detail (intent s)\<rparr>)) (\<lambda>_.
     bind (gets intent) (\<lambda>i.
       block_on_unresolved svc (sale_mint sale) (sale_name sale) i sig detail attempt amount))"

text \<open>The start of an attempt: a signature that survived the previous one is resolved first.\<close>

definition settle_pending :: "services \<Rightarrow> sale \<Rightarrow> nat \<Rightarrow> ExecutionResult option io" where
  "settle_pending svc sale attempt =
     bind (gets (\<lambda>s. s)) (\<lambda>s.
       case pending_signature s of
         None \<Rightarrow> ret None
       | Some sig \<Rightarrow>
           bind (resolve_signature svc sig (pending_blockhash s) (sale_mint sale) (pending_expected_remaining s)) (\<lambda>res.
             case sr_state res of
               Sig_confirmed \<Rightarrow>
                 bind (finalize_confirmed svc (sale_mint sale) (sale_name sale) (sale_reason sale) sig
                         (pending_amount s) (pending_output_lamports s) attempt) (\<lambda>r. ret (Some r))
             | Sig_unresolved \<Rightarrow>
                 bind (block_sale svc sale sig (last_error s @ ''; '' @ sr_detail res) attempt (pending_amount s))
                   (\<lambda>r. ret (Some r))
             | Sig_dead \<Rightarrow>
                 let detail = last_error s @ ''; prior submission is dead ('' @ sr_detail res @ '')''
                 in bind (modify (\<lambda>s. s\<lparr>last_error := detail\<rparr>)) (\<lambda>_.
                    bind (clear_pending_signature svc (sale_mint sale) detail) (\<lambda>_. ret None))))"

text \<open>The balance is already down: there is nothing left to sell.\<close>

definition already_filled :: "sale \<Rightarrow> TokenHolding option \<Rightarrow> bool" where
  "already_filled sale current =
     (case current of
        None \<Rightarrow> True
      | Some h \<Rightarrow> th_amount h = 0 \<or> th_amount h \<le> sale_observed sale - sale_requested sale)"

definition reconcile_filled ::
  "services \<Rightarrow> sale \<Rightarrow> TokenHolding option \<Rightarrow> nat \<Rightarrow> ExecutionResult io" where
  "reconcile_filled svc sale current attempt =
     bind (end_disposal svc (sale_mint sale) (sale_reason sale)) (\<lambda>_.
     bind (drop_pending svc (sale_mint sale)) (\<lambda>_.
     let message = sale_name sale @ '' pending exit already filled; remaining '' @ int_text (amount_of current)
     in bind (notify svc ''info'' message) (\<lambda>_.
          ret (result_of ''reconciled'' None (attempt - 1) message (amount_of current) None))))"

text \<open>An order that was built, checked, signed and simulated, ready to be submitted.\<close>

record built =
  b_request_id :: string
  b_current :: int
  b_submission :: submission
  b_blockhash :: string
  b_evidence :: evidence

definition order_text :: "string \<Rightarrow> obj \<Rightarrow> string res" where
  "order_text k order = (case map_of order k of Some v \<Rightarrow> Inr (json_text v) | None \<Rightarrow> Inl (KeyError k))"

definition build_order ::
  "services \<Rightarrow> exec_config \<Rightarrow> sale \<Rightarrow> TokenHolding \<Rightarrow> (ExecutionResult + built) io" where
  "build_order svc cfg sale current =
     (let sell_now = min (sale_requested sale) (th_amount current);
          expected_remaining = th_amount current - sell_now;
          slippage = exit_slippage_bps (sale_reason sale) (cfg_slippage_bps cfg)
      in bind (ask_logged (\<lambda>_. Ordered (sale_mint sale) sell_now)
                (\<lambda>t. rbind (svc_order svc t (sale_mint sale) sell_now slippage)
                       (executable_order (sale_mint sale) sell_now slippage))) (\<lambda>order.
         bind (reserve_floor_refusal svc (sale_mint sale) (sale_name sale) (sale_reason sale)
                 (sale_pool sale) current sell_now order) (\<lambda>refusal.
           case refusal of
             Some r \<Rightarrow> ret (Inl r)
           | None \<Rightarrow>
               bind (lift (order_text ''transaction'' order)) (\<lambda>encoded.
               bind (ask (\<lambda>t. validate_jupiter_exit_transaction (svc_wire svc t) (cfg_wallet cfg) encoded
                            (cfg_max_priority_fee_lamports cfg))) (\<lambda>validated.
               bind (lift (svc_sign svc validated)) (\<lambda>(signed_tx, derived_signature).
               let recent_blockhash = svc_recent_blockhash svc (vt_transaction validated)
               in bind (holdings_now svc) (\<lambda>all_holdings.
                  bind (ask (\<lambda>t. rbind (svc_sol_balance svc t) sol_balance)) (\<lambda>pre_sol.
                  bind (lift (int_value (json_or (jget ''otherAmountThreshold'' order) (JInt 0)))) (\<lambda>minimum_output.
                  bind (simulate_exit svc cfg signed_tx all_holdings (sale_mint sale) pre_sol minimum_output
                          expected_remaining) (\<lambda>units.
                  bind (record_landing_bid svc (sale_name sale) validated units) (\<lambda>_.
                  bind (lift (order_text ''requestId'' order)) (\<lambda>request_id.
                    ret (Inr \<lparr> b_request_id = request_id, b_current = th_amount current,
                      b_submission = \<lparr> sub_signature = derived_signature,
                        sub_blockhash = nonblank (Some recent_blockhash), sub_remaining = expected_remaining \<rparr>,
                      b_blockhash = recent_blockhash,
                      b_evidence = \<lparr> ev_mint = sale_mint sale, ev_amount = sell_now, ev_signed = signed_tx, ev_validated = validated,
                        ev_holdings = all_holdings, ev_pre_sol = pre_sol, ev_min_out = minimum_output \<rparr> \<rparr>)))))))))))))"

text \<open>The local variables as they are set just before the intent is persisted.\<close>

definition arm_submission :: "built \<Rightarrow> nat \<Rightarrow> sys \<Rightarrow> sys" where
  "arm_submission b attempt s =
     s\<lparr>pending_signature := Some (sub_signature (b_submission b)),
       pending_blockhash := Some (b_blockhash b),
       pending_expected_remaining := sub_remaining (b_submission b),
       pending_amount := ev_amount (b_evidence b),
       pending_output_lamports := None,
       intent :=
         AList.update ''recent_blockhash'' (JStr (b_blockhash b))
         (AList.update ''signature'' (JStr (sub_signature (b_submission b)))
         (AList.update ''expected_remaining'' (JInt (sub_remaining (b_submission b)))
         (AList.update ''sell_amount'' (JInt (ev_amount (b_evidence b)))
         (AList.update ''last_observed_amount'' (JInt (b_current b))
         (AList.update ''request_id'' (JStr (b_request_id b))
         (AList.update ''attempt'' (JInt (int attempt))
         (AList.update ''status'' (JStr ''submitting'') (intent s))))))))\<rparr>"

text \<open>After a reported success: persist, resolve, and finish or clear.\<close>

definition after_success ::
  "services \<Rightarrow> sale \<Rightarrow> built \<Rightarrow> nat \<Rightarrow> obj \<Rightarrow> ExecutionResult option io" where
  "after_success svc sale b attempt result =
     (let sub = b_submission b; sig = sub_signature sub;
          reported = text_or (jget ''signature'' result) []
      in if reported \<noteq> [] \<and> reported \<noteq> sig
         then raise (TransactionRejected ''Jupiter reported a signature that is not the transaction we signed'')
         else
           bind (lift (int_value (json_or (jget ''totalOutputAmount'' result) (JInt 0)))) (\<lambda>out.
           bind (modify (\<lambda>s. s\<lparr>pending_output_lamports := Some out,
                   intent := AList.update ''output_lamports'' (JInt out)
                               (AList.update ''status'' (JStr ''submitted'') (intent s))\<rparr>)) (\<lambda>_.
           bind (gets intent) (\<lambda>i.
           bind (save_pending svc (sale_mint sale) i) (\<lambda>_.
           bind (resolve_signature svc sig (Some (b_blockhash b)) (sale_mint sale) (sub_remaining sub)) (\<lambda>res.
             case sr_state res of
               Sig_confirmed \<Rightarrow>
                 bind (finalize_confirmed svc (sale_mint sale) (sale_name sale) (sale_reason sale) sig
                         (ev_amount (b_evidence b)) (Some out) attempt) (\<lambda>r. ret (Some r))
             | Sig_unresolved \<Rightarrow>
                 bind (block_sale svc sale sig (sr_detail res) attempt (ev_amount (b_evidence b))) (\<lambda>r. ret (Some r))
             | Sig_dead \<Rightarrow>
                 let detail = ''submitted exit did not land ('' @ sr_detail res @ '')''
                 in bind (modify (\<lambda>s. s\<lparr>last_error := detail\<rparr>)) (\<lambda>_.
                    bind (clear_pending_signature svc (sale_mint sale) detail) (\<lambda>_. ret None))))))))"

text \<open>Persist the intent with its signature, then broadcast.\<close>

definition submit ::
  "services \<Rightarrow> sale \<Rightarrow> built \<Rightarrow> nat \<Rightarrow> ExecutionResult option io" where
  "submit svc sale b attempt =
     bind (modify (arm_submission b attempt)) (\<lambda>_.
     bind (gets intent) (\<lambda>i.
     bind (save_pending svc (sale_mint sale) i) (\<lambda>_.
     bind (ask_logged (\<lambda>_. Executed (b_submission b) (b_evidence b))
             (\<lambda>t. rbind (svc_execute svc t (ev_signed (b_evidence b)) (b_request_id b)) execute_body)) (\<lambda>result.
     let failed = bind (modify (\<lambda>s. s\<lparr>last_error := ''Jupiter execute code '' @
                      json_text (jget_or ''code'' (JStr ''unknown'') result)\<rparr>)) (\<lambda>_. ret None)
     in if jget ''status'' result = JStr ''Success''
        then bind (lift (int_value (jget_or ''code'' (JInt 0) result))) (\<lambda>code.
               if code = 0 then after_success svc sale b attempt result else failed)
        else failed))))"

text \<open>One attempt: the body of the \<open>try\<close>, and what the \<open>except\<close> does with an exception.\<close>

definition attempt_body ::
  "services \<Rightarrow> exec_config \<Rightarrow> sale \<Rightarrow> nat \<Rightarrow> ExecutionResult option io" where
  "attempt_body svc cfg sale attempt =
     bind (settle_pending svc sale attempt) (\<lambda>settled.
       case settled of
         Some r \<Rightarrow> ret (Some r)
       | None \<Rightarrow>
           bind (holding_now svc (sale_mint sale)) (\<lambda>current.
             if already_filled sale current
             then bind (reconcile_filled svc sale current attempt) (\<lambda>r. ret (Some r))
             else
               bind (build_order svc cfg sale (the current)) (\<lambda>built.
                 case built of
                   Inl r \<Rightarrow> ret (Some r)
                 | Inr b \<Rightarrow> submit svc sale b attempt)))"

definition sell_attempt ::
  "services \<Rightarrow> exec_config \<Rightarrow> sale \<Rightarrow> nat \<Rightarrow> ExecutionResult option io" where
  "sell_attempt svc cfg sale attempt =
     catch (attempt_body svc cfg sale attempt)
       (\<lambda>e. bind (modify (\<lambda>s. s\<lparr>last_error := describe_execution_failure e\<rparr>)) (\<lambda>_. ret None))"

text \<open>The loop over the attempts that are left, and what follows it.\<close>

definition give_up :: "services \<Rightarrow> exec_config \<Rightarrow> sale \<Rightarrow> ExecutionResult io" where
  "give_up svc cfg sale =
     bind (gets (\<lambda>s. s)) (\<lambda>s.
       case pending_signature s of
         Some sig \<Rightarrow> block_sale svc sale sig (last_error s) (cfg_max_attempts cfg) (pending_amount s)
       | None \<Rightarrow>
           bind (modify (\<lambda>s. s\<lparr>intent := AList.update ''last_error'' (JStr (last_error s))
                   (AList.update ''status'' (JStr ''failed'') (intent s))\<rparr>)) (\<lambda>_.
           bind (gets intent) (\<lambda>i.
           bind (save_pending svc (sale_mint sale) i) (\<lambda>_.
           let message = ''EXIT FAILED: '' @ sale_name sale @ '' on shitcoims -- MANUAL ACTION REQUIRED''
           in bind (notify svc ''critical'' message) (\<lambda>_.
                ret (result_of ''failed'' None (cfg_max_attempts cfg) message (sale_observed sale) None))))))"

fun sell_loop :: "nat \<Rightarrow> services \<Rightarrow> exec_config \<Rightarrow> sale \<Rightarrow> nat \<Rightarrow> ExecutionResult io" where
  "sell_loop 0 svc cfg sale attempt = give_up svc cfg sale"
| "sell_loop (Suc n) svc cfg sale attempt =
     bind (sell_attempt svc cfg sale attempt) (\<lambda>r.
       case r of
         Some result \<Rightarrow> ret result
       | None \<Rightarrow> sell_loop n svc cfg sale (attempt + 1))"

definition initial_intent :: "int \<Rightarrow> sale \<Rightarrow> obj" where
  "initial_intent now sale =
     [(''created_at'', JStamp (Aware now)), (''wallet'', JStr ''shitcoims''), (''mint'', JStr (sale_mint sale)),
      (''name'', JStr (sale_name sale)), (''reason'', JStr (sale_reason sale)), (''status'', JStr ''intent''),
      (''last_observed_amount'', JInt (sale_observed sale)), (''sell_amount'', JInt (sale_requested sale)),
      (''expected_remaining'', JInt (sale_observed sale - sale_requested sale))]"

definition start_sale :: "services \<Rightarrow> sale \<Rightarrow> unit io" where
  "start_sale svc sale =
     bind (modify (\<lambda>s. s\<lparr>intent := initial_intent (svc_clock svc (w_tick s)) sale,
             last_error := ''unknown execution failure'', pending_signature := None, pending_blockhash := None,
             pending_expected_remaining := 0, pending_amount := sale_requested sale,
             pending_output_lamports := None\<rparr>)) (\<lambda>_.
     bind (gets intent) (\<lambda>i. save_pending svc (sale_mint sale) i))"

definition sell ::
  "services \<Rightarrow> exec_config \<Rightarrow> string \<Rightarrow> string \<Rightarrow> string \<Rightarrow> TokenHolding \<Rightarrow> int option \<Rightarrow>
   PoolSnapshot option \<Rightarrow> ExecutionResult io" where
  "sell svc cfg mint name reason observed amount pool =
     (let requested = (case amount of None \<Rightarrow> th_amount observed | Some a \<Rightarrow> a);
          sale = \<lparr> sale_mint = mint, sale_name = name, sale_reason = reason,
                   sale_observed = th_amount observed, sale_requested = requested, sale_pool = pool \<rparr>
      in if requested \<le> 0 \<or> th_amount observed < requested
         then let message = ''SELL SKIPPED: '' @ name @ '' requested '' @ int_text requested @ '' of '' @
                    int_text (th_amount observed)
              in bind (notify svc ''warning'' message) (\<lambda>_. ret (result_of ''skipped'' None 0 message 0 None))
         else
           bind (gate_status svc cfg) (\<lambda>(live, failures).
             if \<not> live
             then let message = ''DRY RUN: would sell '' @
                        (if requested = th_amount observed then ''all'' else int_text requested @ '' raw'') @ '' '' @
                        name @ '' from shitcoims ('' @ join_with ''; '' failures @ '')''
                  in bind (notify svc ''warning'' message) (\<lambda>_.
                       ret (result_of ''dry_run'' None 0 message requested None))
             else
               bind (resolve_prior_submission svc mint name reason) (\<lambda>settled.
                 case settled of
                   Some r \<Rightarrow> ret r
                 | None \<Rightarrow>
                     bind (start_sale svc sale) (\<lambda>_. sell_loop (cfg_max_attempts cfg) svc cfg sale 1))))"

end
