(* ===== verification/Executor_Cost.thy ===== *)
theory Executor_Cost
  imports Executor
begin

text \<open>
  How much the sell executor does: a calculus for bounds on a measure of the
  state, proved once for every operation over the interface \<open>meter\<close>, and used
  for two measures: the questions a call asks of the outside world, which bounds
  its running time, and the transactions it broadcasts.
\<close>

section \<open>A calculus of costs\<close>

definition cost :: "(sys \<Rightarrow> nat) \<Rightarrow> 'a io \<Rightarrow> nat \<Rightarrow> bool" where
  "cost mu m k \<longleftrightarrow> (\<forall>s. mu (snd (m s)) \<le> mu s + k)"

lemma cost_mono: "cost mu m k \<Longrightarrow> k \<le> k' \<Longrightarrow> cost mu m k'"
  by (auto simp: cost_def intro: order_trans)

lemma cost_ret: "cost mu (ret v) k"
  by (simp add: cost_def ret_def)

lemma cost_raise: "cost mu (raise e) k"
  by (simp add: cost_def raise_def)

lemma cost_lift: "cost mu (lift r) k"
  by (simp add: cost_def lift_def)

lemma cost_gets: "cost mu (gets f) k"
  by (simp add: cost_def gets_def)

lemma cost_db_get: "cost mu (db_get svc keys d) k"
  by (simp add: cost_def db_get_def)

text \<open>The second part may depend on the value of the first.\<close>

lemma cost_bind_value:
  assumes "cost mu m k" and "\<And>v s s'. m s = (Inr v, s') \<Longrightarrow> cost mu (f v) l"
  shows "cost mu (bind m f) (k + l)"
  unfolding cost_def
proof
  fix s
  obtain r s' where m: "m s = (r, s')" by fastforce
  have k: "mu s' \<le> mu s + k" using assms(1) m by (metis cost_def snd_conv)
  show "mu (snd (bind m f s)) \<le> mu s + (k + l)"
  proof (cases r)
    case (Inl e)
    then show ?thesis using m k by (simp add: bind_def)
  next
    case (Inr v)
    then have "mu (snd (f v s')) \<le> mu s' + l" using assms(2) m unfolding cost_def by blast
    then show ?thesis using m k Inr by (simp add: bind_def)
  qed
qed

lemma cost_bind: "cost mu m k \<Longrightarrow> (\<And>v. cost mu (f v) l) \<Longrightarrow> cost mu (bind m f) (k + l)"
  by (rule cost_bind_value)

lemma cost_bind_free: "cost mu m 0 \<Longrightarrow> (\<And>v. cost mu (f v) l) \<Longrightarrow> cost mu (bind m f) l"
  using cost_bind [of mu m 0 f l] by simp

lemma cost_catch:
  assumes "cost mu m k" and "\<And>e. cost mu (h e) l"
  shows "cost mu (catch m h) (k + l)"
  unfolding cost_def
proof
  fix s
  obtain r s' where m: "m s = (r, s')" by fastforce
  have k: "mu s' \<le> mu s + k" using assms(1) m by (metis cost_def snd_conv)
  show "mu (snd (catch m h s)) \<le> mu s + (k + l)"
  proof (cases r)
    case (Inl e)
    have "mu (snd (h e s')) \<le> mu s' + l" using assms(2) unfolding cost_def by blast
    then show ?thesis using m k Inl by (simp add: catch_def)
  qed (use m k in \<open>simp add: catch_def\<close>)
qed

lemma cost_if: "cost mu m k \<Longrightarrow> cost mu n k \<Longrightarrow> cost mu (if b then m else n) k"
  by simp

lemma cost_option: "cost mu m k \<Longrightarrow> (\<And>v. cost mu (f v) k) \<Longrightarrow> cost mu (case x of None \<Rightarrow> m | Some v \<Rightarrow> f v) k"
  by (cases x) auto

lemma cost_mapM: "(\<And>x. cost mu (f x) k) \<Longrightarrow> cost mu (mapM_io f xs) (length xs * k)"
proof (induction xs)
  case (Cons x xs)
  have "cost mu (bind (f x) (\<lambda>y. bind (mapM_io f xs) (\<lambda>ys. ret (y # ys)))) (k + (length xs * k + 0))"
    using Cons by (intro cost_bind cost_ret) auto
  then show ?case by simp
qed (simp add: cost_ret)

section \<open>Meters\<close>

text \<open>
  A measure that local variables do not count for, that a question raises by at
  most \<open>q\<close>, a write of the state file not at all and a broadcast by at most \<open>b\<close>.
\<close>

locale meter =
  fixes mu :: "sys \<Rightarrow> nat" and q b :: nat
  assumes tick: "mu (s\<lparr>w_tick := Suc (w_tick s)\<rparr>) \<le> mu s + q"
    and logged: "(\<And>sb e. x \<noteq> Executed sb e) \<Longrightarrow> mu (s\<lparr>w_tick := Suc (w_tick s), w_log := w_log s @ [x]\<rparr>) \<le> mu s + q"
    and executed: "mu (s\<lparr>w_tick := Suc (w_tick s), w_log := w_log s @ [Executed sb e]\<rparr>) \<le> mu s + b"
    and written: "mu (s\<lparr>w_disk := d, w_log := w_log s @ [Wrote d]\<rparr>) \<le> mu s"
    and locals: "w_tick s = w_tick s' \<Longrightarrow> w_log s = w_log s' \<Longrightarrow> mu s = mu s'"
begin

lemma cost_ask: "cost mu (ask f) q"
  using tick by (simp add: cost_def ask_def)

lemma cost_ask_logged: "(\<And>r sb e. act r \<noteq> Executed sb e) \<Longrightarrow> cost mu (ask_logged act f) q"
  using logged by (simp add: cost_def ask_logged_def)

lemma cost_execute: "cost mu (ask_logged (\<lambda>_. Executed sb e) f) b"
  using executed by (simp add: cost_def ask_logged_def)

lemma cost_db: "cost mu (db svc f) 0"
  using written by (auto simp: cost_def db_def split: sum.splits)

lemma cost_modify: "(\<And>s. w_tick (f s) = w_tick s) \<Longrightarrow> (\<And>s. w_log (f s) = w_log s) \<Longrightarrow> cost mu (modify f) 0"
  unfolding cost_def modify_def using locals by (metis add.right_neutral le_refl snd_conv)

lemma cost_notify: "cost mu (notify svc sev m) q"
  unfolding notify_def by (rule cost_ask_logged) simp

lemma cost_holdings: "cost mu (holdings_now svc) q"
  unfolding holdings_now_def by (rule cost_ask_logged) simp

lemma cost_holding: "cost mu (holding_now svc mint) q"
  unfolding holding_now_def using cost_bind [OF cost_holdings cost_ret [of mu _ 0]] by simp

lemma cost_ask_blockhash: "cost mu (ask_blockhash svc bh) q"
proof -
  have "cost mu (case e of ExternalServiceError x \<Rightarrow> ret True | _ \<Rightarrow> raise e) 0" for e :: py_exc
    by (cases e) (auto intro: cost_ret cost_raise)
  then have "cost mu (ask_blockhash svc bh) (q + 0)"
    unfolding ask_blockhash_def by (intro cost_catch cost_ask_logged) auto
  then show ?thesis by simp
qed

lemma cost_resolve_polls: "cost mu (resolve_polls n svc sig bh mint left detail) (n * (2 * q))"
proof (induction n arbitrary: detail)
  case 0
  then show ?case by (simp add: cost_ret)
next
  case (Suc n)
  have more: "cost mu (resolve_polls n svc sig bh mint left d) (n * (2 * q))" for d by (rule Suc.IH)
  have stop: "cost mu (ret (r :: SignatureResolution)) (n * (2 * q))" for r by (rule cost_ret)
  have "cost mu (resolve_polls (Suc n) svc sig bh mint left detail) (q + (q + n * (2 * q)))"
    unfolding resolve_polls.simps
    apply (rule cost_bind, rule cost_ask_logged, simp)
    apply (rule cost_if, rule cost_ret, rule cost_if)
     apply (rule cost_bind [OF cost_holding], rule cost_if [OF stop more])
    apply (rule cost_option, rule cost_mono [OF more], simp)
    apply (rule cost_bind [OF cost_ask_blockhash], rule cost_if [OF more stop])
    done
  then show ?case by (simp add: algebra_simps)
qed

lemma cost_resolve_signature: "cost mu (resolve_signature svc sig bh mint left) (100 * q)"
  using cost_resolve_polls [of RESOLUTION_POLL_ATTEMPTS] unfolding resolve_signature_def
  by (simp add: RESOLUTION_POLL_ATTEMPTS_def)

lemma cost_save_pending: "cost mu (save_pending svc mint i) 0"
  unfolding save_pending_def by (rule cost_db)

lemma cost_drop_pending: "cost mu (drop_pending svc mint) 0"
  unfolding drop_pending_def by (rule cost_db)

lemma cost_end_disposal: "cost mu (end_disposal svc mint r) 0"
  unfolding end_disposal_def by (intro cost_if cost_db cost_ret)

lemmas cost_writes = cost_save_pending cost_drop_pending cost_end_disposal

lemma cost_finalize: "cost mu (finalize_confirmed svc mint name r sig sold out att) (2 * q)"
proof -
  have "cost mu (finalize_confirmed svc mint name r sig sold out att) (0 + (0 + (q + (q + 0))))"
    unfolding finalize_confirmed_def Let_def
    by (intro cost_bind cost_writes cost_ask_logged cost_notify cost_ret) simp
  then show ?thesis by (simp add: mult_2)
qed

lemma cost_block_on_unresolved: "cost mu (block_on_unresolved svc mint name i sig d att n) q"
proof -
  have "cost mu (block_on_unresolved svc mint name i sig d att n) (0 + (q + 0))"
    unfolding block_on_unresolved_def Let_def by (intro cost_bind cost_writes cost_notify cost_ret)
  then show ?thesis by simp
qed

lemma cost_block_sale: "cost mu (block_sale svc sale sig d att n) q"
  unfolding block_sale_def
  by (intro cost_bind_free cost_modify cost_gets cost_block_on_unresolved) simp_all

lemma cost_clear: "cost mu (clear_pending_signature svc mint d) 0"
  unfolding clear_pending_signature_def
  by (intro cost_bind_free cost_modify cost_gets cost_save_pending) simp_all

lemma cost_some: "cost mu m k \<Longrightarrow> cost mu (bind m (\<lambda>r. ret (Some r))) k"
  using cost_bind [of mu m k "\<lambda>r. ret (Some r)" 0] by (simp add: cost_ret)

lemma cost_dead: "cost mu (bind (modify (\<lambda>s. s\<lparr>last_error := e\<rparr>)) (\<lambda>_. bind (clear_pending_signature svc m d) (\<lambda>_. ret None))) k"
  by (intro cost_bind_free cost_modify cost_clear cost_ret) simp_all

lemma cost_settled:
  assumes "cost mu c k" "cost mu d k" "cost mu u k"
  shows "cost mu (case sr_state res of Sig_confirmed \<Rightarrow> c | Sig_dead \<Rightarrow> d | Sig_unresolved \<Rightarrow> u) k"
  using assms by (cases "sr_state res") auto

lemma cost_settle_pending: "cost mu (settle_pending svc sale att) (102 * q)"
proof -
  have "cost mu (settle_pending svc sale att) (0 + (100 * q + 2 * q))"
    unfolding settle_pending_def Let_def
    apply (rule cost_bind [OF cost_gets], rule cost_option, rule cost_ret)
    apply (rule cost_bind [OF cost_resolve_signature], rule cost_settled)
      apply (rule cost_some [OF cost_finalize])
     apply (rule cost_dead)
    apply (rule cost_some, rule cost_mono [OF cost_block_sale], simp)
    done
  then show ?thesis by (simp add: algebra_simps)
qed

lemma cost_reconcile_filled: "cost mu (reconcile_filled svc sale current att) q"
proof -
  have "cost mu (reconcile_filled svc sale current att) (0 + (0 + (q + 0)))"
    unfolding reconcile_filled_def Let_def by (intro cost_bind cost_writes cost_notify cost_ret)
  then show ?thesis by simp
qed

lemma cost_reserve_floor: "cost mu (reserve_floor_refusal svc mint name r pool h n order) q"
proof -
  have tell: "cost mu (bind (notify svc sev m) (\<lambda>_. ret None)) q" for sev m
    using cost_bind [OF cost_notify cost_ret [of mu _ 0]] by simp
  have refuse: "cost mu (bind (notify svc sev m) (\<lambda>_. bind (drop_pending svc mint) (\<lambda>_. ret (Some x)))) q" for sev m x
  proof -
    have "cost mu (bind (notify svc sev m) (\<lambda>_. bind (drop_pending svc mint) (\<lambda>_. ret (Some x)))) (q + 0)"
      by (intro cost_bind [OF cost_notify] cost_bind_free [OF cost_drop_pending] cost_ret)
    then show ?thesis by simp
  qed
  show ?thesis
    unfolding reserve_floor_refusal_def Let_def
    by (intro cost_bind_free [OF cost_gets] cost_option cost_if cost_ret tell refuse)
qed

lemma cost_landing_bid: "cost mu (record_landing_bid svc name v u) q"
  unfolding record_landing_bid_def Let_def by (intro cost_if cost_notify)

lemma cost_simulate_one: "cost mu (simulate_one svc cfg tx chunk) q"
  unfolding simulate_one_def Let_def by (rule cost_ask)

lemma chunks_limited: "simulation_chunks hs mint = Inr chunks \<Longrightarrow> length chunks \<le> SIMULATION_CHUNK_LIMIT"
  by (auto simp: simulation_chunks_def Let_def split: if_splits)

lemma cost_simulate_exit: "cost mu (simulate_exit svc cfg tx hs mint pre out left) (24 * q)"
proof -
  have "cost mu (bind (lift (simulation_chunks hs mint)) (\<lambda>chunks.
     bind (mapM_io (simulate_one svc cfg tx) chunks) (\<lambda>simulations.
     bind (lift (rmapM (\<lambda>(chunk, sim).
              rbind (validate_simulated_exit sim chunk mint pre out (cfg_max_sol_cost_lamports cfg) left)
                (\<lambda>_. Inr (units_consumed sim))) (zip chunks simulations))) (\<lambda>units.
       let consumed = List.map_filter id units
       in ret (if consumed = [] then None else Some (Max (set consumed))))))) (0 + 24 * q)"
  proof (rule cost_bind_value [OF cost_lift])
    fix chunks s s'
    assume "lift (simulation_chunks hs mint) s = (Inr chunks, s')"
    then have len: "length chunks * q + 0 \<le> 24 * q"
      using chunks_limited [of hs mint chunks] by (simp add: lift_def SIMULATION_CHUNK_LIMIT_def)
    show "cost mu (bind (mapM_io (simulate_one svc cfg tx) chunks) (\<lambda>simulations.
     bind (lift (rmapM (\<lambda>(chunk, sim).
              rbind (validate_simulated_exit sim chunk mint pre out (cfg_max_sol_cost_lamports cfg) left)
                (\<lambda>_. Inr (units_consumed sim))) (zip chunks simulations))) (\<lambda>units.
       let consumed = List.map_filter id units
       in ret (if consumed = [] then None else Some (Max (set consumed)))))) (24 * q)"
      unfolding Let_def
      by (rule cost_mono [OF _ len], intro cost_bind cost_mapM cost_simulate_one cost_bind_free [OF cost_lift] cost_ret)
  qed
  then show ?thesis by (simp add: simulate_exit_def)
qed

lemma cost_build_order: "cost mu (build_order svc cfg sale current) (30 * q)"
proof -
  have "cost mu (build_order svc cfg sale current) (q + (q + (0 + (q + (0 + (q + (q + (0 + (24 * q + (q + (0 + 0)))))))))))"
    unfolding build_order_def Let_def
    apply (rule cost_bind, rule cost_ask_logged, simp)
    apply (rule cost_bind [OF cost_reserve_floor], rule cost_option)
     apply (rule cost_bind [OF cost_lift], rule cost_bind [OF cost_ask], rule cost_bind [OF cost_lift])
     apply (clarsimp split del: if_split)
     apply (rule cost_mono [where k = "q + (q + (0 + (24 * q + (q + (0 + 0)))))"])
      apply (rule cost_bind [OF cost_holdings], rule cost_bind [OF cost_ask], rule cost_bind [OF cost_lift])
      apply (rule cost_bind [OF cost_simulate_exit], rule cost_bind [OF cost_landing_bid], rule cost_bind [OF cost_lift])
      apply (rule cost_ret)
     apply simp
    apply (rule cost_ret)
    done
  then show ?thesis by (simp add: algebra_simps)
qed

lemma cost_after_success: "cost mu (after_success svc sale bt att result) (102 * q)"
proof -
  have "cost mu (after_success svc sale bt att result) (100 * q + 2 * q)"
    unfolding after_success_def Let_def
    apply (rule cost_if, rule cost_raise)
    apply (rule cost_bind_free [OF cost_lift], rule cost_bind_free [OF cost_modify], simp, simp)
    apply (rule cost_bind_free [OF cost_gets], rule cost_bind_free [OF cost_save_pending])
    apply (rule cost_bind [OF cost_resolve_signature], rule cost_settled)
      apply (rule cost_some [OF cost_finalize])
     apply (rule cost_dead)
    apply (rule cost_some, rule cost_mono [OF cost_block_sale], simp)
    done
  then show ?thesis by (simp add: algebra_simps)
qed

lemma cost_submit: "cost mu (submit svc sale bt att) (b + 102 * q)"
proof -
  have failed: "cost mu (bind (modify (\<lambda>s. s\<lparr>last_error := e\<rparr>)) (\<lambda>_. ret None)) (102 * q)" for e
    by (intro cost_bind_free cost_modify cost_ret) simp_all
  show ?thesis
    unfolding submit_def Let_def
    apply (rule cost_bind_free [OF cost_modify], simp add: arm_submission_def, simp add: arm_submission_def)
    apply (rule cost_bind_free [OF cost_gets], rule cost_bind_free [OF cost_save_pending])
    apply (rule cost_bind [OF cost_execute], rule cost_if)
     apply (rule cost_bind_free [OF cost_lift], rule cost_if [OF cost_after_success failed])
    apply (rule failed)
    done
qed

lemma cost_attempt: "cost mu (sell_attempt svc cfg sale att) (b + 235 * q)"
proof -
  have step: "cost mu (case built of Inl r \<Rightarrow> ret (Some r) | Inr bt \<Rightarrow> submit svc sale bt att) (b + 102 * q)" for built
    by (cases built) (auto intro: cost_ret cost_submit)
  have "cost mu (attempt_body svc cfg sale att) (102 * q + (q + (30 * q + (b + 102 * q))))"
    unfolding attempt_body_def
    apply (rule cost_bind [OF cost_settle_pending], rule cost_option)
     apply (rule cost_bind [OF cost_holding], rule cost_if)
      apply (rule cost_mono [OF cost_some [OF cost_reconcile_filled]], simp)
     apply (rule cost_bind [OF cost_build_order step])
    apply (rule cost_ret)
    done
  moreover have "cost mu (bind (modify (\<lambda>s. s\<lparr>last_error := e\<rparr>)) (\<lambda>_. ret None)) 0" for e
    by (intro cost_bind_free cost_modify cost_ret) simp_all
  ultimately have "cost mu (sell_attempt svc cfg sale att) ((102 * q + (q + (30 * q + (b + 102 * q)))) + 0)"
    unfolding sell_attempt_def by (intro cost_catch) simp_all
  then show ?thesis by (simp add: algebra_simps)
qed

lemma cost_give_up: "cost mu (give_up svc cfg sale) q"
proof -
  have tell: "cost mu (bind (notify svc sev m) (\<lambda>_. ret x)) q" for sev m and x :: ExecutionResult
    using cost_bind [OF cost_notify cost_ret [of mu _ 0]] by simp
  show ?thesis
    unfolding give_up_def Let_def
    apply (rule cost_bind_free [OF cost_gets], rule cost_option)
     apply (rule cost_bind_free [OF cost_modify], simp, simp)
     apply (rule cost_bind_free [OF cost_gets], rule cost_bind_free [OF cost_save_pending], rule tell)
    apply (rule cost_block_sale)
    done
qed

lemma cost_sell_loop: "cost mu (sell_loop n svc cfg sale att) (n * (b + 235 * q) + q)"
proof (induction n arbitrary: att)
  case 0
  then show ?case by (simp add: cost_give_up)
next
  case (Suc n)
  have rest: "cost mu (case r of None \<Rightarrow> sell_loop n svc cfg sale (att + 1) | Some x \<Rightarrow> ret x) (n * (b + 235 * q) + q)" for r
    by (cases r) (use Suc.IH in \<open>auto intro: cost_ret\<close>)
  have "cost mu (sell_loop (Suc n) svc cfg sale att) ((b + 235 * q) + (n * (b + 235 * q) + q))"
    unfolding sell_loop.simps by (rule cost_bind [OF cost_attempt rest])
  then show ?case by (simp add: algebra_simps)
qed

lemma cost_resolve_prior: "cost mu (resolve_prior_submission svc mint name r) (102 * q)"
proof -
  have block: "cost mu (bind (block_on_unresolved svc mint nm p sig d 0 n) (\<lambda>r. ret (Some r))) (k + 2 * q)" for nm p sig d n k
    by (rule cost_mono [OF cost_some [OF cost_block_on_unresolved]]) simp
  have "cost mu (resolve_prior_submission svc mint name r) (100 * q + 2 * q)"
    unfolding resolve_prior_submission_def Let_def
    apply (rule cost_bind_free [OF cost_db_get], rule cost_option, rule cost_ret)
    apply (rule cost_if, rule block)
    apply (rule cost_bind [OF cost_resolve_signature], rule cost_settled)
      apply (rule cost_some [OF cost_finalize])
     apply (rule cost_ret)
    using block [where k = 0] apply simp
    done
  then show ?thesis by (simp add: algebra_simps)
qed

lemma cost_sell:
  "cost mu (sell svc cfg mint name r observed amount pool) (cfg_max_attempts cfg * (b + 235 * q) + 104 * q)"
proof -
  let ?n = "cfg_max_attempts cfg * (b + 235 * q) + q"
  have tell: "cost mu (bind (notify svc sev m) (\<lambda>_. ret x)) (k + q)" for sev m k and x :: ExecutionResult
    by (rule cost_mono [OF cost_bind [OF cost_notify cost_ret [of mu _ 0]]]) simp
  have start: "cost mu (start_sale svc sale) 0" for sale
    unfolding start_sale_def by (intro cost_bind_free cost_modify cost_gets cost_save_pending) simp_all
  have gate: "cost mu (gate_status svc cfg) q"
    unfolding gate_status_def using cost_bind [OF cost_ask cost_ret [of mu _ 0]] by simp
  have run: "cost mu (case settled of None \<Rightarrow> bind (start_sale svc sale) (\<lambda>_. sell_loop (cfg_max_attempts cfg) svc cfg sale 1)
      | Some x \<Rightarrow> ret x) ?n" for settled sale
    by (cases settled) (auto intro: cost_ret cost_bind_free [OF start] cost_sell_loop)
  have "cost mu (sell svc cfg mint name r observed amount pool) (q + (102 * q + ?n))"
    unfolding sell_def Let_def
    apply (rule cost_if)
     apply (rule cost_mono [OF tell [where k = 0]], simp)
    apply (rule cost_bind [OF gate], clarsimp split del: if_split, rule cost_if)
     apply (rule cost_mono [OF tell [where k = 0]], simp)
    apply (rule cost_mono [OF cost_bind [OF cost_resolve_prior run]], simp)
    done
  then show ?thesis by (simp add: algebra_simps)
qed

end

section \<open>The two meters\<close>

definition broadcasts :: "action list \<Rightarrow> nat" where
  "broadcasts h = length (filter (\<lambda>x. case x of Executed sb e \<Rightarrow> True | _ \<Rightarrow> False) h)"

interpretation questions: meter w_tick 1 1
  by unfold_locales auto

interpretation sent: meter "\<lambda>s. broadcasts (w_log s)" 0 1
proof unfold_locales
  fix x :: action and s :: sys
  assume "\<And>sb e. x \<noteq> Executed sb e"
  then show "broadcasts (w_log (s\<lparr>w_tick := Suc (w_tick s), w_log := w_log s @ [x]\<rparr>)) \<le> broadcasts (w_log s) + 0"
    by (cases x) (auto simp: broadcasts_def)
qed (auto simp: broadcasts_def)

text \<open>
  C16 (termination). A call of \<open>sell\<close> ends: whatever the services answer, it asks
  the outside world at most 236 questions for each attempt the configuration
  allows and 104 more (fifty polls of two questions for every signature, at most
  24 simulations for every order), so it returns whenever every answer arrives.
\<close>

theorem sell_asks_boundedly:
  "w_tick (snd (sell svc cfg mint name reason observed amount pool s)) \<le>
     w_tick s + 236 * cfg_max_attempts cfg + 104"
proof -
  have "cost w_tick (sell svc cfg mint name reason observed amount pool) (cfg_max_attempts cfg * (1 + 235 * 1) + 104 * 1)"
    by (rule questions.cost_sell)
  then show ?thesis by (simp add: cost_def algebra_simps)
qed

text \<open>
  A call of \<open>sell\<close> broadcasts at most as many transactions as the
  configuration allows attempts.
\<close>

lemma sell_broadcasts_boundedly:
  "broadcasts (w_log (snd (sell svc cfg mint name reason observed amount pool s))) \<le>
     broadcasts (w_log s) + cfg_max_attempts cfg"
proof -
  have "cost (\<lambda>s. broadcasts (w_log s)) (sell svc cfg mint name reason observed amount pool)
      (cfg_max_attempts cfg * (1 + 235 * 0) + 104 * 0)"
    by (rule sent.cost_sell)
  then show ?thesis by (simp add: cost_def)
qed

end
