(* ===== verification/Executor_History.thy ===== *)
theory Executor_History
  imports Executor
begin

text \<open>
  Histories of the sell executor: when a broadcast is settled, which
  submissions a history leaves in flight, what a safe history is, and the
  invariant a running sale keeps, with the rules for the questions and the
  writes the executor makes.
\<close>

section \<open>Histories\<close>

text \<open>
  A history is that of a whole wallet; a broadcast names the mint it sells. A broadcast
  transaction is settled by what the cluster says about it
  afterwards: it failed on chain, or it is unknown and its blockhash has
  expired, or it is confirmed and the balance is down to what it was to leave.
\<close>

definition settles :: "string \<Rightarrow> submission \<Rightarrow> action list \<Rightarrow> bool" where
  "settles mint sb b \<longleftrightarrow>
     (\<exists>u v. b = u @ [Asked_status (sub_signature sb) (Inr ''failed'')] @ v) \<or>
     (\<exists>u v bh. sub_blockhash sb = Some bh \<and>
        b = u @ [Asked_status (sub_signature sb) (Inr ''unknown''), Asked_blockhash bh (Inr False)] @ v) \<or>
     (\<exists>u v hs. b = u @ [Asked_status (sub_signature sb) (Inr ''confirmed''), Asked_holdings (Inr hs)] @ v \<and>
        amount_of (find_holding mint hs) \<le> sub_remaining sb)"

definition in_flight :: "string \<Rightarrow> action list \<Rightarrow> submission \<Rightarrow> bool" where
  "in_flight mint h sb \<longleftrightarrow> (\<exists>a e b. h = a @ Executed sb e # b \<and> ev_mint e = mint \<and> \<not> settles mint sb b)"

text \<open>The state file after a history.\<close>

fun disk_after :: "disk \<Rightarrow> action list \<Rightarrow> disk" where
  "disk_after d [] = d"
| "disk_after d (Wrote d' # h) = disk_after d' h"
| "disk_after d (_ # h) = disk_after d h"

text \<open>The submission the state file would let a new process resolve.\<close>

definition stored_submission :: "string \<Rightarrow> disk \<Rightarrow> submission option" where
  "stored_submission mint d =
     (case store_get 0 (pending_path mint) JNull d of
        Inl e \<Rightarrow> None
      | Inr entry \<Rightarrow>
          Option.bind (carries_signature entry) (\<lambda>prior.
            map_option (\<lambda>n. \<lparr> sub_signature = json_text (jget ''signature'' prior),
                sub_blockhash = nonblank (stored_blockhash prior), sub_remaining = n \<rparr>)
              (int_of_json (jget ''expected_remaining'' prior))))"

text \<open>
  A safe history: no broadcast while an earlier one is in flight, and at every
  point where a crash may cut it the state file names what is in flight.
\<close>

definition safe_history :: "string \<Rightarrow> disk \<Rightarrow> action list \<Rightarrow> bool" where
  "safe_history mint d0 h \<longleftrightarrow>
     (\<forall>a sb e b. h = a @ Executed sb e # b \<longrightarrow> ev_mint e = mint \<longrightarrow> (\<forall>sb'. \<not> in_flight mint a sb')) \<and>
     (\<forall>a b sb. h = a @ b \<longrightarrow> in_flight mint a sb \<longrightarrow> stored_submission mint (disk_after d0 a) = Some sb)"

subsection \<open>Appending to a history\<close>

lemma settles_append: "settles mint sb b \<Longrightarrow> settles mint sb (b @ c)"
  unfolding settles_def by (elim disjE exE conjE) fastforce+

lemma in_flight_snoc:
  assumes "in_flight mint (h @ [x]) sb"
  shows "in_flight mint h sb \<or> (\<exists>e. x = Executed sb e \<and> ev_mint e = mint)"
proof -
  from assms obtain a e b where l: "h @ [x] = a @ Executed sb e # b" and m: "ev_mint e = mint" and n: "\<not> settles mint sb b"
    by (auto simp: in_flight_def)
  show ?thesis
  proof (cases b rule: rev_cases)
    case Nil
    then show ?thesis using l m by simp
  next
    case (snoc b' y)
    then have "h = a @ Executed sb e # b'" "\<not> settles mint sb b'"
      using l n settles_append by auto
    then show ?thesis using m by (auto simp: in_flight_def)
  qed
qed

lemma in_flight_Nil [simp]: "\<not> in_flight mint [] sb"
  by (simp add: in_flight_def)

lemma disk_after_append [simp]: "disk_after d (a @ b) = disk_after (disk_after d a) b"
  by (induction d a rule: disk_after.induct) auto

lemma safe_history_Nil [simp]: "safe_history mint d0 []"
  by (simp add: safe_history_def)

lemma safe_history_snoc:
  assumes "safe_history mint d0 h"
    and "\<And>sb e. x = Executed sb e \<Longrightarrow> ev_mint e = mint \<Longrightarrow> \<forall>sb'. \<not> in_flight mint h sb'"
    and "\<And>sb. in_flight mint (h @ [x]) sb \<Longrightarrow> stored_submission mint (disk_after d0 (h @ [x])) = Some sb"
  shows "safe_history mint d0 (h @ [x])"
  unfolding safe_history_def
proof (intro conjI allI impI)
  fix a sb e b sb'
  assume l: "h @ [x] = a @ Executed sb e # b" and m: "ev_mint e = mint"
  show "\<not> in_flight mint a sb'"
  proof (cases b rule: rev_cases)
    case Nil
    then show ?thesis using l m assms(2) by auto
  next
    case (snoc b' y)
    then show ?thesis using l m assms(1) by (auto simp: safe_history_def)
  qed
next
  fix a b sb
  assume l: "h @ [x] = a @ b" and f: "in_flight mint a sb"
  show "stored_submission mint (disk_after d0 a) = Some sb"
  proof (cases b rule: rev_cases)
    case Nil
    then show ?thesis using l f assms(3) by auto
  next
    case (snoc b' y)
    then show ?thesis using l f assms(1) by (auto simp: safe_history_def)
  qed
qed

lemma safe_history_prefix: "safe_history mint d0 (a @ b) \<Longrightarrow> safe_history mint d0 a"
  unfolding safe_history_def by (metis append.assoc append_Cons)

text \<open>Evidence at the end of a history settles the submission it is about.\<close>

lemma split_before:
  assumes "h @ xs = a @ Executed sb e # b" and "\<forall>x \<in> set xs. \<forall>sb e. x \<noteq> Executed sb e"
  shows "\<exists>u. b = u @ xs"
  using assms
proof (induction xs arbitrary: b rule: rev_induct)
  case (snoc x xs)
  then show ?case
  proof (cases b rule: rev_cases)
    case Nil
    then show ?thesis using snoc.prems by (metis append.assoc last_snoc in_set_conv_decomp)
  next
    case (snoc b' y)
    then show ?thesis using snoc.prems snoc.IH [of b'] by auto
  qed
qed simp

lemma settled_at_end:
  assumes "settles mint sb xs" and "\<forall>x \<in> set xs. \<forall>sb e. x \<noteq> Executed sb e"
  shows "\<not> in_flight mint (h @ xs) sb"
proof
  assume "in_flight mint (h @ xs) sb"
  then obtain a e b where l: "h @ xs = a @ Executed sb e # b" and n: "\<not> settles mint sb b"
    by (auto simp: in_flight_def)
  obtain u where "b = u @ xs" using split_before [OF l assms(2)] by blast
  moreover have "settles mint sb (u @ xs)"
    using assms(1) unfolding settles_def by (elim disjE exE conjE) (metis append.assoc)+
  ultimately show False using n by simp
qed

section \<open>The invariant of a running sale\<close>

text \<open>
  The history so far is safe, the state file is what the history wrote, and
  every broadcast satisfied \<open>ok\<close>.
\<close>

definition hist :: "(submission \<Rightarrow> evidence \<Rightarrow> bool) \<Rightarrow> string \<Rightarrow> disk \<Rightarrow> sys \<Rightarrow> bool" where
  "hist ok mint d0 s \<longleftrightarrow>
     safe_history mint d0 (w_log s) \<and> w_disk s = disk_after d0 (w_log s) \<and>
     (\<forall>sb e. Executed sb e \<in> set (w_log s) \<longrightarrow> ok sb e)"

definition idle :: "string \<Rightarrow> sys \<Rightarrow> bool" where
  "idle mint s \<longleftrightarrow> (\<forall>sb. \<not> in_flight mint (w_log s) sb)"

text \<open>The submission the local variables name.\<close>

definition pend :: "sys \<Rightarrow> submission option" where
  "pend s = map_option (\<lambda>sig. \<lparr> sub_signature = sig, sub_blockhash = nonblank (pending_blockhash s),
     sub_remaining = pending_expected_remaining s \<rparr>) (pending_signature s)"

text \<open>An intent from which a submission can be read back.\<close>

definition carries :: "obj \<Rightarrow> submission \<Rightarrow> bool" where
  "carries i sb \<longleftrightarrow>
     jget ''signature'' i = JStr (sub_signature sb) \<and> sub_signature sb \<noteq> [] \<and>
     json_text (jget ''status'' i) \<in> set UNRESOLVED_STATUSES \<and>
     nonblank (stored_blockhash i) = sub_blockhash sb \<and>
     jget ''expected_remaining'' i = JInt (sub_remaining sb)"

definition locals_ok :: "sys \<Rightarrow> bool" where
  "locals_ok s \<longleftrightarrow> (\<forall>sb. pend s = Some sb \<longrightarrow> carries (intent s) sb)"

definition sale_inv :: "(submission \<Rightarrow> evidence \<Rightarrow> bool) \<Rightarrow> string \<Rightarrow> disk \<Rightarrow> sys \<Rightarrow> bool" where
  "sale_inv ok mint d0 s \<longleftrightarrow> hist ok mint d0 s \<and> locals_ok s \<and>
     (\<forall>sb. in_flight mint (w_log s) sb \<longrightarrow> pend s = Some sb)"

text \<open>Nothing in flight, with a condition on the local variables.\<close>

definition calm :: "(submission \<Rightarrow> evidence \<Rightarrow> bool) \<Rightarrow> string \<Rightarrow> disk \<Rightarrow> (sys \<Rightarrow> bool) \<Rightarrow> sys \<Rightarrow> bool" where
  "calm ok mint d0 P s \<longleftrightarrow> hist ok mint d0 s \<and> idle mint s \<and> P s"

definition local_pred :: "(sys \<Rightarrow> bool) \<Rightarrow> bool" where
  "local_pred P \<longleftrightarrow> (\<forall>s d t l. P (s\<lparr>w_disk := d, w_tick := t, w_log := l\<rparr>) = P s)"

text \<open>Predicates that questions without consequence keep.\<close>

definition quiet :: "action \<Rightarrow> bool" where
  "quiet x \<longleftrightarrow> (\<forall>d. x \<noteq> Wrote d) \<and> (\<forall>sb e. x \<noteq> Executed sb e)"

definition stable :: "(sys \<Rightarrow> bool) \<Rightarrow> bool" where
  "stable J \<longleftrightarrow> (\<forall>s t x. J s \<longrightarrow> J (s\<lparr>w_tick := t\<rparr>) \<and>
     (quiet x \<longrightarrow> J (s\<lparr>w_tick := t, w_log := w_log s @ [x]\<rparr>)))"

lemma quiet_simps [simp]:
  "quiet (Asked_status a r)" "quiet (Asked_blockhash b r')" "quiet (Asked_holdings r'')"
  "quiet (Ordered m n)" "quiet (Traded m n out a)" "quiet (Notified a b)" "quiet (Wrote_config c)"
  "\<not> quiet (Wrote d)" "\<not> quiet (Executed sb e)"
  by (auto simp: quiet_def)

lemma disk_after_quiet: "quiet x \<Longrightarrow> disk_after d [x] = d"
  by (cases x) auto

lemma in_flight_quiet: "quiet x \<Longrightarrow> in_flight mint (h @ [x]) sb \<Longrightarrow> in_flight mint h sb"
  using in_flight_snoc by (fastforce simp: quiet_def)

lemma hist_quiet:
  assumes "hist ok mint d0 s" "quiet x"
  shows "hist ok mint d0 (s\<lparr>w_tick := t, w_log := w_log s @ [x]\<rparr>)"
proof -
  have "safe_history mint d0 (w_log s @ [x])"
  proof (rule safe_history_snoc)
    fix sb assume "in_flight mint (w_log s @ [x]) sb"
    then have "in_flight mint (w_log s) sb" using assms(2) in_flight_quiet by blast
    then have "stored_submission mint (disk_after d0 (w_log s)) = Some sb"
      using assms(1) by (auto simp: hist_def safe_history_def)
    then show "stored_submission mint (disk_after d0 (w_log s @ [x])) = Some sb"
      using disk_after_quiet [OF assms(2)] by simp
  qed (use assms in \<open>auto simp: hist_def quiet_def\<close>)
  then show ?thesis using assms disk_after_quiet [OF assms(2)] by (auto simp: hist_def quiet_def)
qed

lemma hist_tick: "hist ok mint d0 (s\<lparr>w_tick := t\<rparr>) = hist ok mint d0 s"
  by (simp add: hist_def)

lemma local_predD: "local_pred P \<Longrightarrow> P (s\<lparr>w_disk := d, w_tick := t, w_log := l\<rparr>) = P s"
  by (simp add: local_pred_def)

lemma local_pred_tick_log:
  assumes "local_pred P" shows "P (s\<lparr>w_tick := t\<rparr>) = P s" "P (s\<lparr>w_tick := t, w_log := l\<rparr>) = P s"
    "P (s\<lparr>w_disk := d, w_log := l\<rparr>) = P s"
  using local_predD [OF assms, where s = s and d = "w_disk s" and t = t and l = "w_log s"]
    local_predD [OF assms, where s = s and d = "w_disk s" and t = t and l = l]
    local_predD [OF assms, where s = s and d = d and t = "w_tick s" and l = l] by simp_all

lemma pend_world [simp]:
  "pend (s\<lparr>w_tick := t\<rparr>) = pend s" "pend (s\<lparr>w_log := l\<rparr>) = pend s" "pend (s\<lparr>w_disk := d\<rparr>) = pend s"
  "pend (s\<lparr>intent := i\<rparr>) = pend s" "pend (s\<lparr>last_error := m\<rparr>) = pend s"
  "pend (s\<lparr>pending_output_lamports := p\<rparr>) = pend s" "pend (s\<lparr>pending_amount := q\<rparr>) = pend s"
  by (simp_all add: pend_def)

lemma local_pred_intros [simp, intro]:
  "local_pred locals_ok" "local_pred (\<lambda>s. pending_signature s = None)" "local_pred (\<lambda>s. True)"
  "local_pred P \<Longrightarrow> local_pred Q \<Longrightarrow> local_pred (\<lambda>s. P s \<and> Q s)"
  by (auto simp: local_pred_def locals_ok_def)

lemma stable_calm: "local_pred P \<Longrightarrow> stable (calm ok mint d0 P)"
  unfolding stable_def calm_def
  using hist_quiet by (auto simp: hist_tick idle_def local_pred_tick_log dest: in_flight_quiet)

lemma stable_inv: "stable (sale_inv ok mint d0)"
  unfolding stable_def sale_inv_def
  using hist_quiet by (auto simp: hist_tick locals_ok_def dest: in_flight_quiet)

lemma stable_conj: "stable J \<Longrightarrow> local_pred P \<Longrightarrow> stable (\<lambda>s. J s \<and> P s)"
  by (auto simp: stable_def local_pred_tick_log)

subsection \<open>Questions\<close>

lemma spec_ask_stable: "stable J \<Longrightarrow> spec J (ask q) (\<lambda>v s. J s \<and> (\<exists>t. q t = Inr v)) J"
  by (rule spec_ask) (auto simp: stable_def)

lemma spec_ask_logged_stable:
  "stable J \<Longrightarrow> (\<And>r. quiet (act r)) \<Longrightarrow> spec J (ask_logged act q) (\<lambda>v s. J s \<and> (\<exists>t. q t = Inr v)) J"
  by (rule spec_ask_logged) (auto simp: stable_def)

lemma spec_notify: "stable J \<Longrightarrow> spec J (notify svc sev m) (\<lambda>_. J) J"
  unfolding notify_def by (rule spec_weaken [OF spec_ask_logged_stable]) auto

lemma spec_holdings_now: "stable J \<Longrightarrow> spec J (holdings_now svc) (\<lambda>_. J) J"
  unfolding holdings_now_def by (rule spec_weaken [OF spec_ask_logged_stable]) auto

lemma spec_holding_now: "stable J \<Longrightarrow> spec J (holding_now svc mint) (\<lambda>_. J) J"
  unfolding holding_now_def by (rule spec_bind [OF spec_holdings_now]) (auto intro: spec_ret)

subsection \<open>Signature resolution\<close>

abbreviation sub_of :: "string \<Rightarrow> string option \<Rightarrow> int \<Rightarrow> submission" where
  "sub_of sig bh n \<equiv> \<lparr> sub_signature = sig, sub_blockhash = nonblank bh, sub_remaining = n \<rparr>"

lemma resolve_polls_spec:
  assumes J: "stable J"
  shows "spec J (resolve_polls n svc sig bh mint left detail)
    (\<lambda>r s. J s \<and> (sr_state r \<noteq> Sig_unresolved \<longrightarrow> \<not> in_flight mint (w_log s) (sub_of sig bh left))) J"
proof (induction n arbitrary: detail)
  case 0
  then show ?case by (auto simp: resolution_def intro: spec_ret)
next
  case (Suc n)
  let ?Q = "\<lambda>r s. J s \<and> (sr_state r \<noteq> Sig_unresolved \<longrightarrow> \<not> in_flight mint (w_log s) (sub_of sig bh left))"
  let ?asked = "\<lambda>status s. J s \<and> (\<exists>l. w_log s = l @ [Asked_status sig (Inr status)])"
  have Jq: "J (s\<lparr>w_tick := t, w_log := w_log s @ [x]\<rparr>)" if "J s" "quiet x" for s t x
    using J that by (auto simp: stable_def)
  have ask: "spec J (ask_logged (Asked_status sig) (\<lambda>t. rbind (svc_signature_status svc t sig) signature_status)) ?asked J"
    by (rule spec_ask_logged) (auto intro: Jq)
  have again: "spec (?asked status) (resolve_polls n svc sig bh mint left d) ?Q J" for status d
    by (rule spec_weaken [OF Suc.IH]) auto
  have hold: "spec (?asked ''confirmed'') (holding_now svc mint)
      (\<lambda>h s. J s \<and> (amount_of h \<le> left \<longrightarrow> \<not> in_flight mint (w_log s) (sub_of sig bh left))) J"
    unfolding holding_now_def holdings_now_def
  proof (rule spec_bind [where R = "\<lambda>hs s. J s \<and> (\<exists>l. w_log s = l @ [Asked_status sig (Inr ''confirmed''), Asked_holdings (Inr hs)])"])
    show "spec (?asked ''confirmed'') (ask_logged Asked_holdings (\<lambda>t. token_holdings (svc_token_accounts svc t)))
        (\<lambda>hs s. J s \<and> (\<exists>l. w_log s = l @ [Asked_status sig (Inr ''confirmed''), Asked_holdings (Inr hs)])) J"
      by (rule spec_ask_logged) (auto intro: Jq)
  next
    fix hs
    have "settles mint (sub_of sig bh left) [Asked_status sig (Inr ''confirmed''), Asked_holdings (Inr hs)]"
      if "amount_of (find_holding mint hs) \<le> left"
      unfolding settles_def using that by (intro disjI2 exI [of _ "[]"] exI [of _ hs]) simp
    then have "\<not> in_flight mint (l @ [Asked_status sig (Inr ''confirmed''), Asked_holdings (Inr hs)]) (sub_of sig bh left)"
      if "amount_of (find_holding mint hs) \<le> left" for l
      using that by (intro settled_at_end) auto
    then show "spec (\<lambda>s. J s \<and> (\<exists>l. w_log s = l @ [Asked_status sig (Inr ''confirmed''), Asked_holdings (Inr hs)]))
        (ret (find_holding mint hs))
        (\<lambda>h s. J s \<and> (amount_of h \<le> left \<longrightarrow> \<not> in_flight mint (w_log s) (sub_of sig bh left))) J"
      by (intro spec_ret) auto
  qed
  have failed: "settles mint (sub_of sig bh left) [Asked_status sig (Inr ''failed'')]"
    unfolding settles_def by (rule disjI1) (intro exI [of _ "[]"], simp)
  have landed: "\<not> in_flight mint (l @ [Asked_status sig (Inr ''failed'')]) (sub_of sig bh left)" for l
    using failed by (intro settled_at_end) auto
  have expired: "settles mint (sub_of sig bh left) [Asked_status sig (Inr ''unknown''), Asked_blockhash b (Inr False)]"
    if "nonblank bh = Some b" for b
    unfolding settles_def using that
    by (intro disjI2 disjI1 exI [of _ "[]"] exI [of _ b]) simp
  have gone: "\<not> in_flight mint (l @ [Asked_status sig (Inr ''unknown''), Asked_blockhash b (Inr False)]) (sub_of sig bh left)"
    if "nonblank bh = Some b" for l b
    using expired [OF that] by (intro settled_at_end) auto
  have bhash: "spec (?asked ''unknown'') (ask_blockhash svc b)
      (\<lambda>valid s. J s \<and> (\<not> valid \<longrightarrow> \<not> in_flight mint (w_log s) (sub_of sig bh left))) J"
    if b: "nonblank bh = Some b" for b
    unfolding ask_blockhash_def
  proof (rule spec_catch [where R = J])
    show "spec (?asked ''unknown'') (ask_logged (Asked_blockhash b) (\<lambda>t. rbind (svc_blockhash_valid svc t b) blockhash_valid))
      (\<lambda>valid s. J s \<and> (\<not> valid \<longrightarrow> \<not> in_flight mint (w_log s) (sub_of sig bh left))) J"
      by (rule spec_ask_logged) (auto intro: Jq simp: gone [OF b])
  next
    fix e
    show "spec J (case e of ExternalServiceError _ \<Rightarrow> ret True | _ \<Rightarrow> raise e)
      (\<lambda>valid s. J s \<and> (\<not> valid \<longrightarrow> \<not> in_flight mint (w_log s) (sub_of sig bh left))) J"
      by (cases e) (auto intro: spec_ret spec_raise)
  qed
  show ?case
    unfolding resolve_polls.simps
  proof (rule spec_bind [OF ask], intro spec_if)
    show "spec (?asked status) (ret (resolution Sig_dead ''transaction landed with an on-chain error'' None)) ?Q J"
      if "status = ''failed''" for status
      using that landed by (intro spec_ret) auto
    show "spec (?asked status) (bind (holding_now svc mint) (\<lambda>remaining.
        if amount_of remaining \<le> left then ret (resolution Sig_confirmed ''confirmed onchain'' (Some (amount_of remaining)))
        else resolve_polls n svc sig bh mint left ''confirmed signature has not yet reduced the balance'')) ?Q J"
      if "status = ''confirmed''" for status
      unfolding that
      by (rule spec_bind [OF hold]) (auto intro!: spec_ret spec_weaken [OF Suc.IH])
    show "spec (?asked status) (case if status = ''unknown'' then nonblank bh else None of
        None \<Rightarrow> resolve_polls n svc sig bh mint left (''signature status is '' @ status)
      | Some b \<Rightarrow> bind (ask_blockhash svc b) (\<lambda>still_valid.
          if still_valid then resolve_polls n svc sig bh mint left (''signature status is '' @ status)
          else ret (resolution Sig_dead ''blockhash expired before the transaction landed'' None))) ?Q J" for status
    proof (rule spec_option [OF again])
      fix b assume "(if status = ''unknown'' then nonblank bh else None) = Some b"
      then have b: "status = ''unknown''" "nonblank bh = Some b" by (auto split: if_splits)
      show "spec (?asked status) (bind (ask_blockhash svc b) (\<lambda>still_valid.
          if still_valid then resolve_polls n svc sig bh mint left (''signature status is '' @ status)
          else ret (resolution Sig_dead ''blockhash expired before the transaction landed'' None))) ?Q J"
        unfolding b(1)
        by (rule spec_bind [OF bhash [OF b(2)]]) (auto intro!: spec_ret spec_weaken [OF Suc.IH])
    qed
  qed
qed

lemma resolve_signature_spec:
  "stable J \<Longrightarrow> spec J (resolve_signature svc sig bh mint left)
    (\<lambda>r s. J s \<and> (sr_state r \<noteq> Sig_unresolved \<longrightarrow> \<not> in_flight mint (w_log s) (sub_of sig bh left))) J"
  unfolding resolve_signature_def by (rule resolve_polls_spec)

subsection \<open>Writes\<close>

lemma pending_path_safe [simp]: "safe_path (pending_path mint)"
  by (simp add: pending_path_def safe_path_def)

lemma nonblank_nonblank [simp]: "nonblank (nonblank b) = nonblank b"
  by (auto simp: nonblank_def)

lemma stored_of_entry:
  assumes "store_set now (pending_path mint) (JObj i) d = Inr d'" and "carries i sb"
  shows "stored_submission mint d' = Some sb"
proof -
  have get: "store_get 0 (pending_path mint) JNull d' = Inr (JObj i)"
    by (rule sf.get_put [OF pending_path_safe assms(1)])
  have "carries_signature (JObj i) = Some i"
    using assms(2) by (simp add: carries_def carries_signature_def)
  then show ?thesis
    using get assms(2) by (simp add: stored_submission_def carries_def)
qed

text \<open>A write while nothing is in flight, whatever it writes.\<close>

lemma hist_write:
  assumes "hist ok mint d0 s"
    and "\<And>sb. in_flight mint (w_log s) sb \<Longrightarrow> stored_submission mint d = Some sb"
  shows "hist ok mint d0 (s\<lparr>w_disk := d, w_log := w_log s @ [Wrote d]\<rparr>)"
proof -
  have "safe_history mint d0 (w_log s @ [Wrote d])"
  proof (rule safe_history_snoc)
    fix sb assume "in_flight mint (w_log s @ [Wrote d]) sb"
    then have "in_flight mint (w_log s) sb" using in_flight_snoc by blast
    then show "stored_submission mint (disk_after d0 (w_log s @ [Wrote d])) = Some sb"
      using assms(2) by simp
  qed (use assms in \<open>auto simp: hist_def\<close>)
  then show ?thesis using assms(1) by (auto simp: hist_def)
qed

lemma in_flight_write: "in_flight mint (h @ [Wrote d]) sb \<Longrightarrow> in_flight mint h sb"
  using in_flight_snoc by blast

lemma spec_db_calm:
  assumes "local_pred P"
  shows "spec (calm ok mint d0 P) (db svc f) (\<lambda>_. calm ok mint d0 P) (calm ok mint d0 P)"
proof (rule spec_db)
  fix s d
  assume c: "calm ok mint d0 P s"
  then have "hist ok mint d0 (s\<lparr>w_disk := d, w_log := w_log s @ [Wrote d]\<rparr>)"
    by (intro hist_write) (auto simp: calm_def idle_def)
  then show "calm ok mint d0 P (s\<lparr>w_disk := d, w_log := w_log s @ [Wrote d]\<rparr>)"
    using c assms by (auto simp: calm_def idle_def local_pred_tick_log dest: in_flight_write)
qed simp

text \<open>Saving an intent that carries what is in flight.\<close>

lemma inv_write:
  assumes "sale_inv ok mint d0 s" and "\<And>sb. pend s = Some sb \<Longrightarrow> stored_submission mint d = Some sb"
  shows "sale_inv ok mint d0 (s\<lparr>w_disk := d, w_log := w_log s @ [Wrote d]\<rparr>)"
proof -
  have "hist ok mint d0 (s\<lparr>w_disk := d, w_log := w_log s @ [Wrote d]\<rparr>)"
    using assms by (intro hist_write) (auto simp: sale_inv_def)
  moreover have "pend s = Some sb" if "in_flight mint (w_log s @ [Wrote d]) sb" for sb
    using assms(1) in_flight_write [OF that] by (simp add: sale_inv_def)
  ultimately show ?thesis
    using assms(1) by (simp add: sale_inv_def locals_ok_def)
qed

lemma spec_save_intent:
  assumes "\<And>s. P s \<Longrightarrow> sale_inv ok mint d0 s"
    and "\<And>s sb. P s \<Longrightarrow> pend s = Some sb \<Longrightarrow> carries i sb"
    and "local_pred L" "\<And>s. P s \<Longrightarrow> L s"
  shows "spec P (save_pending svc mint i)
     (\<lambda>_ s. sale_inv ok mint d0 s \<and> L s \<and> (\<forall>sb. pend s = Some sb \<longrightarrow> stored_submission mint (w_disk s) = Some sb))
     (sale_inv ok mint d0)"
  unfolding save_pending_def
proof (rule spec_db)
  fix s d
  assume a: "P s" and w: "store_set (svc_clock svc (w_tick s)) (pending_path mint) (JObj i) (w_disk s) = Inr d"
  have st: "stored_submission mint d = Some sb" if "pend s = Some sb" for sb
    using stored_of_entry [OF w] assms(2) a that by blast
  show "sale_inv ok mint d0 (s\<lparr>w_disk := d, w_log := w_log s @ [Wrote d]\<rparr>) \<and>
      L (s\<lparr>w_disk := d, w_log := w_log s @ [Wrote d]\<rparr>) \<and>
      (\<forall>sb. pend (s\<lparr>w_disk := d, w_log := w_log s @ [Wrote d]\<rparr>) = Some sb \<longrightarrow>
        stored_submission mint (w_disk (s\<lparr>w_disk := d, w_log := w_log s @ [Wrote d]\<rparr>)) = Some sb)"
    using inv_write [OF assms(1) [OF a] st] local_pred_tick_log(3) [OF assms(3), where s = s and d = d] assms(4) [OF a] st
    by simp
qed (rule assms(1))

lemma calm_inv: "calm ok mint d0 locals_ok s \<Longrightarrow> sale_inv ok mint d0 s"
  by (auto simp: calm_def sale_inv_def idle_def)

lemma inv_calm:
  "sale_inv ok mint d0 s \<Longrightarrow> (\<And>sb. pend s = Some sb \<Longrightarrow> \<not> in_flight mint (w_log s) sb) \<Longrightarrow>
   calm ok mint d0 locals_ok s"
  unfolding calm_def sale_inv_def idle_def by blast

end
