(* ===== verification/Executor_Safety.thy ===== *)
theory Executor_Safety
  imports Executor_History
begin

text \<open>
  What the sell executor guarantees about money, operation by operation and
  for histories of calls: at no point of any history of sales, answers, failures
  and crashes are two exit transactions of one mint in flight; nothing is
  broadcast that was not ordered, validated, signed, simulated and persisted
  first; and what a call returns tells whether anything is still in flight.
\<close>

section \<open>The operations of a sale\<close>

lemma spec_pre: "spec P m Q E \<Longrightarrow> (\<And>s. P' s \<Longrightarrow> P s) \<Longrightarrow> spec P' m Q E"
  by (rule spec_weaken)

lemma jget_update [simp]: "jget k (AList.update k' v m) = (if k = k' then v else jget k m)"
  by (simp add: jget_def)

lemma jget_delete [simp]: "jget k (AList.delete k' m) = (if k = k' then JNull else jget k m)"
  by (simp add: jget_def)

lemma spec_end_disposal:
  "local_pred P \<Longrightarrow> spec (calm ok mint d0 P) (end_disposal svc m r) (\<lambda>_. calm ok mint d0 P) (calm ok mint d0 P)"
  unfolding end_disposal_def by (auto intro!: spec_if spec_db_calm spec_ret)

lemma spec_drop_pending:
  "local_pred P \<Longrightarrow> spec (calm ok mint d0 P) (drop_pending svc m) (\<lambda>_. calm ok mint d0 P) (calm ok mint d0 P)"
  unfolding drop_pending_def by (rule spec_db_calm)

lemma spec_save_calm:
  "local_pred P \<Longrightarrow> spec (calm ok mint d0 P) (save_pending svc m i) (\<lambda>_. calm ok mint d0 P) (calm ok mint d0 P)"
  unfolding save_pending_def by (rule spec_db_calm)

lemma spec_traded:
  "stable J \<Longrightarrow> spec J (ask_logged (\<lambda>_. Traded m n out sig) q) (\<lambda>_. J) J"
  by (rule spec_weaken [OF spec_ask_logged_stable]) auto

lemma finalize_spec:
  assumes "local_pred P"
  shows "spec (calm ok mint d0 P) (finalize_confirmed svc m name reason sig sold out att)
    (\<lambda>r s. calm ok mint d0 P s \<and> er_status r = ''success'') (calm ok mint d0 P)"
  unfolding finalize_confirmed_def Let_def
  by (intro spec_bind [OF spec_end_disposal] spec_bind [OF spec_drop_pending] spec_bind [OF spec_notify]
      spec_bind [OF spec_traded] spec_ret stable_calm assms conjI)
    (auto simp: result_of_def)

lemma reconcile_spec:
  assumes "local_pred P"
  shows "spec (calm ok mint d0 P) (reconcile_filled svc sale current att)
    (\<lambda>r s. calm ok mint d0 P s \<and> er_status r = ''reconciled'') (calm ok mint d0 P)"
  unfolding reconcile_filled_def Let_def
  by (intro spec_bind [OF spec_end_disposal] spec_bind [OF spec_drop_pending] spec_bind [OF spec_notify]
      spec_ret stable_calm assms conjI) (auto simp: result_of_def)

lemma reserve_floor_spec:
  assumes "local_pred P"
  shows "spec (calm ok mint d0 P) (reserve_floor_refusal svc m name reason pool holding amount order)
    (\<lambda>r s. calm ok mint d0 P s \<and> (\<forall>x. r = Some x \<longrightarrow> er_status x = ''skipped'')) (calm ok mint d0 P)"
  unfolding reserve_floor_refusal_def Let_def
proof (rule spec_bind [where R = "\<lambda>_. calm ok mint d0 P"])
  show "spec (calm ok mint d0 P) (gets (\<lambda>s. svc_clock svc (w_tick s))) (\<lambda>_. calm ok mint d0 P) (calm ok mint d0 P)"
    by (rule spec_gets)
qed (intro spec_option spec_if spec_ret spec_bind [OF spec_notify] spec_bind [OF spec_drop_pending]
    stable_calm assms; simp add: result_of_def)

lemma landing_bid_spec: "stable J \<Longrightarrow> spec J (record_landing_bid svc name v units) (\<lambda>_. J) J"
  unfolding record_landing_bid_def Let_def by (intro spec_if spec_notify)

subsection \<open>Intents that carry a submission\<close>

lemma stored_blockhash_update [simp]:
  "k \<noteq> ''recent_blockhash'' \<Longrightarrow> stored_blockhash (AList.update k v i) = stored_blockhash i"
  "stored_blockhash (AList.update ''recent_blockhash'' (JStr b) i) = nonblank (Some b)"
  by (auto simp: stored_blockhash_def nonblank_def)

lemma mark_unresolved_carries:
  assumes "carries i sb" shows "carries (mark_unresolved (sub_signature sb) detail i) sb"
  using assms by (simp add: carries_def mark_unresolved_def UNRESOLVED_STATUSES_def)

lemma arm_carries:
  assumes "sub_signature (b_submission b) \<noteq> []"
    and "sub_blockhash (b_submission b) = nonblank (Some (b_blockhash b))"
  shows "pend (arm_submission b n s) = Some (b_submission b)"
    and "carries (intent (arm_submission b n s)) (b_submission b)"
  using assms by (simp_all add: pend_def arm_submission_def carries_def UNRESOLVED_STATUSES_def)

lemma submitted_carries:
  "carries i sb \<Longrightarrow>
   carries (AList.update ''output_lamports'' out (AList.update ''status'' (JStr ''submitted'') i)) sb"
  by (simp add: carries_def UNRESOLVED_STATUSES_def)

subsection \<open>What a call returns\<close>

text \<open>The state file still holds an entry with this signature, in a status that is resolved first.\<close>

definition kept :: "string \<Rightarrow> disk \<Rightarrow> string \<Rightarrow> bool" where
  "kept mint d sig \<longleftrightarrow>
     (\<exists>entry prior. store_get 0 (pending_path mint) JNull d = Inr entry \<and>
        carries_signature entry = Some prior \<and> json_text (jget ''signature'' prior) = sig)"

definition outcome ::
  "(submission \<Rightarrow> evidence \<Rightarrow> bool) \<Rightarrow> string \<Rightarrow> disk \<Rightarrow> ExecutionResult \<Rightarrow> sys \<Rightarrow> bool" where
  "outcome ok mint d0 r s \<longleftrightarrow> hist ok mint d0 s \<and>
     (er_status r \<in> {''success'', ''reconciled'', ''failed'', ''skipped''} \<longrightarrow> idle mint s) \<and>
     (er_status r = ''unresolved'' \<longrightarrow> (\<exists>sig. er_signature r = Some sig \<and> kept mint (w_disk s) sig))"

lemma calm_outcome:
  "calm ok mint d0 P s \<Longrightarrow> er_status r \<in> {''success'', ''reconciled'', ''failed'', ''skipped''} \<Longrightarrow>
   outcome ok mint d0 r s"
  by (auto simp: outcome_def calm_def)

lemma stored_kept: "stored_submission mint d = Some sb \<Longrightarrow> kept mint d (sub_signature sb)"
  by (auto simp: stored_submission_def kept_def bind_eq_Some_conv split: sum.splits)

lemma stable_inv_pend: "stable (\<lambda>s. sale_inv ok mint d0 s \<and> pend s = p)"
  by (rule stable_conj [OF stable_inv]) (simp add: local_pred_def)

lemma spec_notify_kept:
  assumes J: "stable J"
  shows "spec (\<lambda>s. J s \<and> K (w_disk s)) (notify svc sev m) (\<lambda>_ s. J s \<and> K (w_disk s)) J"
  unfolding notify_def using J by (intro spec_ask_logged) (auto simp: stable_def)

lemma block_on_spec:
  assumes "\<And>s. P s \<Longrightarrow> sale_inv ok mint d0 s"
    and "\<And>s sb. P s \<Longrightarrow> pend s = Some sb \<Longrightarrow> carries (mark_unresolved sig detail i) sb"
    and "\<And>s. P s \<Longrightarrow> \<exists>sb. pend s = Some sb \<and> sub_signature sb = sig"
  shows "spec P (block_on_unresolved svc mint name i sig detail att amount) (outcome ok mint d0) (sale_inv ok mint d0)"
  unfolding block_on_unresolved_def Let_def
proof (rule spec_bind)
  let ?L = "\<lambda>s. \<exists>sb. pend s = Some sb \<and> sub_signature sb = sig"
  have "local_pred ?L" by (simp add: local_pred_def)
  then show "spec P (save_pending svc mint (mark_unresolved sig detail i))
      (\<lambda>_ s. sale_inv ok mint d0 s \<and> kept mint (w_disk s) sig) (sale_inv ok mint d0)"
    by (intro spec_weaken [OF spec_save_intent [where P = P and L = ?L]]) (use assms stored_kept in blast)+
  show "spec (\<lambda>s. sale_inv ok mint d0 s \<and> kept mint (w_disk s) sig)
     (bind (notify svc ''critical'' (unresolved_message name))
       (\<lambda>_. ret (result_of ''unresolved'' (Some sig) att (unresolved_message name) amount None)))
     (outcome ok mint d0) (sale_inv ok mint d0)"
    by (rule spec_bind [OF spec_notify_kept [OF stable_inv]])
      (auto intro!: spec_ret simp: outcome_def result_of_def sale_inv_def)
qed

lemma block_sale_spec:
  "spec (\<lambda>s. sale_inv ok (sale_mint sale) d0 s \<and> pend s = Some sb \<and> sub_signature sb = sig)
     (block_sale svc sale sig detail att amount) (outcome ok (sale_mint sale) d0) (sale_inv ok (sale_mint sale) d0)"
  unfolding block_sale_def
proof (rule spec_bind)
  let ?R = "\<lambda>s. sale_inv ok (sale_mint sale) d0 s \<and> pend s = Some sb \<and> sub_signature sb = sig"
  show "spec ?R (modify (\<lambda>s. s\<lparr>intent := mark_unresolved sig detail (intent s)\<rparr>)) (\<lambda>_. ?R) (sale_inv ok (sale_mint sale) d0)"
    by (rule spec_modify)
      (clarsimp simp: sale_inv_def hist_def locals_ok_def mark_unresolved_carries)
  show "spec ?R (bind (gets intent) (\<lambda>i. block_on_unresolved svc (sale_mint sale) (sale_name sale) i sig detail att amount))
     (outcome ok (sale_mint sale) d0) (sale_inv ok (sale_mint sale) d0)"
  proof (rule spec_bind [where R = "\<lambda>i s. ?R s \<and> carries i sb"])
    show "spec ?R (gets intent) (\<lambda>i s. ?R s \<and> carries i sb) (sale_inv ok (sale_mint sale) d0)"
      by (rule spec_gets) (clarsimp simp: sale_inv_def locals_ok_def)
    show "spec (\<lambda>s. ?R s \<and> carries i sb)
        (block_on_unresolved svc (sale_mint sale) (sale_name sale) i sig detail att amount)
        (outcome ok (sale_mint sale) d0) (sale_inv ok (sale_mint sale) d0)" for i
      by (rule block_on_spec) (auto intro: mark_unresolved_carries)
  qed
qed

abbreviation rested :: "(submission \<Rightarrow> evidence \<Rightarrow> bool) \<Rightarrow> string \<Rightarrow> disk \<Rightarrow> sys \<Rightarrow> bool" where
  "rested ok mint d0 \<equiv> calm ok mint d0 (\<lambda>s. pending_signature s = None)"

lemma rested_inv: "rested ok mint d0 s \<Longrightarrow> sale_inv ok mint d0 s"
  by (auto simp: calm_def sale_inv_def idle_def locals_ok_def pend_def)

lemma inv_rested: "sale_inv ok mint d0 s \<Longrightarrow> pending_signature s = None \<Longrightarrow> rested ok mint d0 s"
  by (auto simp: calm_def sale_inv_def idle_def pend_def)

lemma clear_spec:
  "spec (calm ok mint d0 (\<lambda>_. True)) (clear_pending_signature svc m detail) (\<lambda>_. rested ok mint d0) (sale_inv ok mint d0)"
  unfolding clear_pending_signature_def
proof (rule spec_bind [where R = "\<lambda>_. rested ok mint d0"])
  show "spec (calm ok mint d0 (\<lambda>_. True)) (modify (\<lambda>s. s\<lparr>pending_signature := None, pending_blockhash := None,
       pending_output_lamports := None, intent := AList.update ''last_error'' (JStr detail)
         (AList.update ''status'' (JStr ''retrying'')
           (AList.delete ''recent_blockhash'' (AList.delete ''signature'' (intent s))))\<rparr>))
      (\<lambda>_. rested ok mint d0) (sale_inv ok mint d0)"
    by (rule spec_modify) (simp add: calm_def hist_def idle_def)
  show "spec (rested ok mint d0) (bind (gets intent) (save_pending svc m)) (\<lambda>_. rested ok mint d0) (sale_inv ok mint d0)"
    by (rule spec_bind [where R = "\<lambda>_. rested ok mint d0"])
      (auto intro: spec_gets spec_weaken [OF spec_save_calm] rested_inv)
qed

subsection \<open>Settling the signature of an earlier attempt\<close>

text \<open>The result of an attempt: a call's result, or another attempt with the invariant kept.\<close>

definition attempt_post ::
  "(sys \<Rightarrow> bool) \<Rightarrow> (submission \<Rightarrow> evidence \<Rightarrow> bool) \<Rightarrow> string \<Rightarrow> disk \<Rightarrow> ExecutionResult option \<Rightarrow> sys \<Rightarrow> bool" where
  "attempt_post N ok mint d0 r s = (case r of None \<Rightarrow> N s | Some x \<Rightarrow> outcome ok mint d0 x s)"

lemma spec_Some:
  "spec P m (outcome ok mint d0) E \<Longrightarrow> spec P (bind m (\<lambda>r. ret (Some r))) (attempt_post N ok mint d0) E"
  by (erule spec_bind) (auto intro: spec_ret simp: attempt_post_def)

lemma calm_weaken: "calm ok mint d0 P s \<Longrightarrow> calm ok mint d0 (\<lambda>_. True) s"
  by (simp add: calm_def)

lemma finalize_outcome:
  assumes "\<And>s. P s \<Longrightarrow> calm ok mint d0 locals_ok s"
  shows "spec P (finalize_confirmed svc m name reason sig sold out att) (outcome ok mint d0) (sale_inv ok mint d0)"
  by (rule spec_weaken [OF finalize_spec [where P = locals_ok]])
    (use assms in \<open>auto intro: calm_outcome calm_inv\<close>)

lemma resolve_pend_spec:
  "spec (\<lambda>s. sale_inv ok mint d0 s \<and> pend s = Some (sub_of sig bh left))
     (resolve_signature svc sig bh mint left)
     (\<lambda>r s. (sale_inv ok mint d0 s \<and> pend s = Some (sub_of sig bh left)) \<and>
        (sr_state r \<noteq> Sig_unresolved \<longrightarrow> calm ok mint d0 locals_ok s)) (sale_inv ok mint d0)"
  by (rule spec_weaken [OF resolve_signature_spec [OF stable_inv_pend]]) (auto intro: inv_calm)

lemma dead_spec:
  "spec (calm ok mint d0 locals_ok)
     (bind (modify (\<lambda>s. s\<lparr>last_error := e\<rparr>)) (\<lambda>_. bind (clear_pending_signature svc m detail) (\<lambda>_. ret None)))
     (attempt_post (rested ok mint d0) ok mint d0) (sale_inv ok mint d0)"
proof (rule spec_bind)
  show "spec (calm ok mint d0 locals_ok) (modify (\<lambda>s. s\<lparr>last_error := e\<rparr>)) (\<lambda>_. calm ok mint d0 (\<lambda>_. True)) (sale_inv ok mint d0)"
    by (rule spec_modify) (simp add: calm_def hist_def idle_def)
qed (rule spec_bind [OF clear_spec], rule spec_ret, simp add: attempt_post_def)

text \<open>What follows a resolution, whatever the three branches do with it.\<close>

lemma resolved_spec:
  assumes "sr_state res = Sig_confirmed \<Longrightarrow> spec (calm ok mint d0 locals_ok) c Q (sale_inv ok mint d0)"
    and "sr_state res = Sig_dead \<Longrightarrow> spec (calm ok mint d0 locals_ok) d Q (sale_inv ok mint d0)"
    and "spec (\<lambda>s. sale_inv ok mint d0 s \<and> pend s = Some sb) u Q (sale_inv ok mint d0)"
  shows "spec (\<lambda>s. (sale_inv ok mint d0 s \<and> pend s = Some sb) \<and>
      (sr_state res \<noteq> Sig_unresolved \<longrightarrow> calm ok mint d0 locals_ok s))
    (case sr_state res of Sig_confirmed \<Rightarrow> c | Sig_dead \<Rightarrow> d | Sig_unresolved \<Rightarrow> u) Q (sale_inv ok mint d0)"
proof (cases "sr_state res")
  case Sig_confirmed
  show ?thesis using Sig_confirmed by (simp, intro spec_weaken [OF assms(1) [OF Sig_confirmed]]) auto
next
  case Sig_dead
  show ?thesis using Sig_dead by (simp, intro spec_weaken [OF assms(2) [OF Sig_dead]]) auto
next
  case Sig_unresolved
  show ?thesis using Sig_unresolved by (simp, intro spec_weaken [OF assms(3)]) auto
qed

lemma settle_spec:
  "spec (sale_inv ok (sale_mint sale) d0) (settle_pending svc sale att)
     (attempt_post (rested ok (sale_mint sale) d0) ok (sale_mint sale) d0) (sale_inv ok (sale_mint sale) d0)"
  unfolding settle_pending_def Let_def
  apply (rule spec_bind [where R = "\<lambda>s0 s. sale_inv ok (sale_mint sale) d0 s \<and> s = s0"])
   apply (rule spec_gets, simp)
  apply (rule spec_option)
   apply (rule spec_ret, auto simp: attempt_post_def intro: inv_rested)[1]
  apply (rule spec_bind, rule spec_pre [OF resolve_pend_spec], simp add: pend_def)
  apply (rule resolved_spec)
    apply (rule spec_Some, rule finalize_outcome, assumption)
   apply (rule dead_spec)
  apply (rule spec_Some, rule spec_pre [OF block_sale_spec], auto)
  done

subsection \<open>Building an order\<close>

text \<open>
  What is known of every broadcast: the order was accepted for this sale, its
  transaction passed the signing gate and was signed by the configured signer,
  the amount is within the request, and then the wallet was read and every chunk of what it
  held was simulated with the signed bytes and accepted. The services are asked one question
  after another, and the number of a question dates it: \<open>u\<close> is the one at which the
  transaction was validated.
\<close>

definition chunk_simulated :: "services \<Rightarrow> exec_config \<Rightarrow> string \<Rightarrow> nat \<Rightarrow> TokenHolding list \<Rightarrow> obj \<Rightarrow> bool" where
  "chunk_simulated svc cfg signed_tx u chunk sim \<longleftrightarrow>
     (let addresses = cfg_wallet cfg # concat (map th_token_accounts chunk)
      in \<exists>t>u. simulate_transaction_accounts (svc_simulate svc t signed_tx addresses) addresses = Inr sim)"

definition chunk_accepted ::
  "services \<Rightarrow> exec_config \<Rightarrow> string \<Rightarrow> string \<Rightarrow> int \<Rightarrow> int \<Rightarrow> int \<Rightarrow> nat \<Rightarrow> TokenHolding list \<Rightarrow> bool" where
  "chunk_accepted svc cfg signed_tx mint pre_sol min_out left u chunk \<longleftrightarrow>
     (\<exists>sim. chunk_simulated svc cfg signed_tx u chunk sim \<and>
        validate_simulated_exit sim chunk mint pre_sol min_out (cfg_max_sol_cost_lamports cfg) left = Inr ())"

definition ordered_and_signed ::
  "services \<Rightarrow> exec_config \<Rightarrow> string \<Rightarrow> string \<Rightarrow> nat \<Rightarrow> submission \<Rightarrow> evidence \<Rightarrow> bool" where
  "ordered_and_signed svc cfg mint reason u sb e \<longleftrightarrow>
     (let slippage = exit_slippage_bps reason (cfg_slippage_bps cfg)
      in \<exists>t raw order encoded. t < u \<and>
           svc_order svc t mint (ev_amount e) slippage = Inr raw \<and>
           executable_order mint (ev_amount e) slippage raw = Inr order \<and>
           order_text ''transaction'' order = Inr encoded \<and>
           int_value (json_or (jget ''otherAmountThreshold'' order) (JInt 0)) = Inr (ev_min_out e) \<and>
           validate_jupiter_exit_transaction (svc_wire svc u) (cfg_wallet cfg) encoded
             (cfg_max_priority_fee_lamports cfg) = Inr (ev_validated e) \<and>
           svc_sign svc (ev_validated e) = Inr (ev_signed e, sub_signature sb))"

definition wallet_simulated ::
  "services \<Rightarrow> exec_config \<Rightarrow> string \<Rightarrow> nat \<Rightarrow> submission \<Rightarrow> evidence \<Rightarrow> bool" where
  "wallet_simulated svc cfg mint u sb e \<longleftrightarrow>
     (\<exists>t>u. token_holdings (svc_token_accounts svc t) = Inr (ev_holdings e) \<and>
     (\<exists>t'>t. rbind (svc_sol_balance svc t') sol_balance = Inr (ev_pre_sol e) \<and>
        (\<exists>chunks. simulation_chunks (ev_holdings e) mint = Inr chunks \<and>
           (\<forall>h \<in> set (ev_holdings e). \<exists>chunk \<in> set chunks. h \<in> set chunk) \<and>
           list_all (chunk_accepted svc cfg (ev_signed e) mint (ev_pre_sol e) (ev_min_out e) (sub_remaining sb) t') chunks)))"

definition exec_ok ::
  "services \<Rightarrow> exec_config \<Rightarrow> string \<Rightarrow> string \<Rightarrow> int \<Rightarrow> submission \<Rightarrow> evidence \<Rightarrow> bool" where
  "exec_ok svc cfg mint reason requested sb e \<longleftrightarrow>
     ev_mint e = mint \<and> sub_signature sb \<noteq> [] \<and> 0 < ev_amount e \<and> ev_amount e \<le> requested \<and>
     (\<exists>u. ordered_and_signed svc cfg mint reason u sb e \<and> wallet_simulated svc cfg mint u sb e)"

definition signs_nonempty :: "services \<Rightarrow> bool" where
  "signs_nonempty svc \<longleftrightarrow> (\<forall>v sd sg. svc_sign svc v = Inr (sd, sg) \<longrightarrow> sg \<noteq> [])"

lemma spec_fact: "(F \<Longrightarrow> spec J m Q E) \<Longrightarrow> spec (\<lambda>s. J s \<and> F) m Q E"
  by (cases F) (simp_all add: spec_def)

lemma spec_lift_fact: "spec J (lift r) (\<lambda>v s. J s \<and> r = Inr v) J"
  by (rule spec_lift) auto

lemma chunks_accepted:
  assumes "list_all2 (chunk_simulated svc cfg signed_tx u) chunks sims"
    and "rmapM (\<lambda>(chunk, sim). rbind (validate_simulated_exit sim chunk mint pre_sol min_out
           (cfg_max_sol_cost_lamports cfg) left) (\<lambda>_. Inr (units_consumed sim))) (zip chunks sims) = Inr units"
  shows "list_all (chunk_accepted svc cfg signed_tx mint pre_sol min_out left u) chunks"
  using assms
  by (induction chunks sims arbitrary: units rule: list_all2_induct) (auto simp: chunk_accepted_def)

lemma chunks_cover:
  assumes "simulation_chunks holdings mint = Inr chunks" "h \<in> set holdings"
  shows "\<exists>chunk \<in> set chunks. h \<in> set chunk"
  using assms(1)
proof (rule simulation_chunks_shape)
  fix parts
  assume ch: "chunks = map ((@) (filter (\<lambda>h. th_mint h = mint) holdings)) parts"
    and o: "filter (\<lambda>h. th_mint h \<noteq> mint) holdings = concat parts" and ne: "parts \<noteq> []"
  show ?thesis
  proof (cases "th_mint h = mint")
    case True
    then show ?thesis using ch ne assms(2) by (cases parts) auto
  next
    case False
    then have "h \<in> set (concat parts)" using assms(2) unfolding o [symmetric] by simp
    then show ?thesis using ch by auto
  qed
qed

text \<open>The questions are asked one after another: after question \<open>n\<close> the next has a greater number.\<close>

definition later :: "nat \<Rightarrow> (sys \<Rightarrow> bool) \<Rightarrow> sys \<Rightarrow> bool" where
  "later n J s \<longleftrightarrow> J s \<and> n < w_tick s"

lemma spec_dated: "(\<And>t. F t \<Longrightarrow> spec (later t J) m Q E) \<Longrightarrow> spec (\<lambda>s. \<exists>t. F t \<and> later t J s) m Q E"
  by (rule specI; elim exE conjE) (blast dest: spec_Inl spec_Inr)+

lemma spec_first_question:
  "stable J \<Longrightarrow> (\<And>r. quiet (act r)) \<Longrightarrow> spec J (ask_logged act q) (\<lambda>v s. \<exists>t. q t = Inr v \<and> later t J s) J"
  by (rule spec_ask_logged) (auto simp: stable_def later_def)

lemma spec_ask_later: "stable J \<Longrightarrow> spec (later n J) (ask q) (\<lambda>v s. \<exists>t. (n < t \<and> q t = Inr v) \<and> later t J s) J"
  by (rule spec_ask) (auto simp: stable_def later_def)

lemma spec_holdings_later:
  "stable J \<Longrightarrow> spec (later n J) (holdings_now svc)
     (\<lambda>v s. \<exists>t. (n < t \<and> token_holdings (svc_token_accounts svc t) = Inr v) \<and> later t J s) J"
  unfolding holdings_now_def by (rule spec_ask_logged) (auto simp: stable_def later_def)

lemma spec_lift_later: "spec (later n J) (lift r) (\<lambda>v s. later n J s \<and> r = Inr v) J"
  by (rule spec_lift) (auto simp: later_def)

lemma spec_both: "spec P m Q E \<Longrightarrow> spec P' m Q' E' \<Longrightarrow> spec (\<lambda>s. P s \<and> P' s) m (\<lambda>v s. Q v s \<and> Q' v s) (\<lambda>s. E s \<and> E' s)"
  by (rule specI) (blast dest: spec_Inl spec_Inr)+

lemma spec_tell_ticks: "spec (\<lambda>s. n < w_tick s) (notify svc sev m) (\<lambda>_ s. n < w_tick s) (\<lambda>_. True)"
  unfolding notify_def by (rule spec_ask_logged) auto

lemma spec_drop_ticks: "spec (\<lambda>s. n < w_tick s) (drop_pending svc m) (\<lambda>_ s. n < w_tick s) (\<lambda>_. True)"
  unfolding drop_pending_def by (rule spec_db) auto

lemma reserve_floor_ticks:
  "spec (\<lambda>s. n < w_tick s) (reserve_floor_refusal svc m name reason pool holding amount order) (\<lambda>_ s. n < w_tick s) (\<lambda>_. True)"
  unfolding reserve_floor_refusal_def Let_def
proof (rule spec_bind [where R = "\<lambda>_ s. n < w_tick s"])
  show "spec (\<lambda>s. n < w_tick s) (gets (\<lambda>s. svc_clock svc (w_tick s))) (\<lambda>_ s. n < w_tick s) (\<lambda>_. True)"
    by (rule spec_gets)
qed (intro spec_option spec_if spec_ret spec_bind [OF spec_tell_ticks] spec_bind [OF spec_drop_ticks])

lemma reserve_floor_later:
  assumes "local_pred P"
  shows "spec (later n (calm ok mint d0 P)) (reserve_floor_refusal svc m name reason pool holding amount order)
    (\<lambda>r s. later n (calm ok mint d0 P) s \<and> (\<forall>x. r = Some x \<longrightarrow> er_status x = ''skipped'')) (calm ok mint d0 P)"
  by (rule spec_weaken [OF spec_both [OF reserve_floor_spec [OF assms] reserve_floor_ticks]]) (auto simp: later_def)

lemma simulate_exit_spec:
  assumes J: "stable J"
  shows "spec (later u J) (simulate_exit svc cfg signed_tx holdings mint pre_sol min_out left)
    (\<lambda>_ s. J s \<and> (\<exists>chunks. simulation_chunks holdings mint = Inr chunks \<and>
       (\<forall>h \<in> set holdings. \<exists>chunk \<in> set chunks. h \<in> set chunk) \<and>
       list_all (chunk_accepted svc cfg signed_tx mint pre_sol min_out left u) chunks)) J"
proof -
  have one: "spec (later u J) (simulate_one svc cfg signed_tx chunk) (\<lambda>v s. later u J s \<and> chunk_simulated svc cfg signed_tx u chunk v) J"
    for chunk
    unfolding simulate_one_def chunk_simulated_def Let_def
    by (rule spec_weaken [OF spec_ask_later [OF J]]) (auto simp: later_def)
  show ?thesis
    unfolding simulate_exit_def Let_def
    apply (rule spec_bind [OF spec_lift_later], rule spec_fact)
    apply (rule spec_bind [OF spec_mapM [OF one]], rule spec_fact)
    apply (rule spec_bind [OF spec_lift_later], rule spec_fact)
    apply (rule spec_ret)
    subgoal for chunks sims units s
      using chunks_accepted [of svc cfg signed_tx u chunks sims] chunks_cover [of holdings mint chunks]
      by (intro conjI exI [of _ chunks] ballI) (simp_all add: later_def)
    done
qed

definition build_post ::
  "services \<Rightarrow> exec_config \<Rightarrow> sale \<Rightarrow> ExecutionResult + built \<Rightarrow> bool" where
  "build_post svc cfg sale r =
     (case r of
        Inl x \<Rightarrow> er_status x = ''skipped''
      | Inr b \<Rightarrow>
          exec_ok svc cfg (sale_mint sale) (sale_reason sale) (sale_requested sale) (b_submission b) (b_evidence b) \<and>
          sub_blockhash (b_submission b) = nonblank (Some (b_blockhash b)))"

lemma build_order_spec:
  assumes "signs_nonempty svc" "0 < sale_requested sale" "0 < th_amount current"
  shows "spec (rested ok mint d0) (build_order svc cfg sale current)
    (\<lambda>r s. rested ok mint d0 s \<and> build_post svc cfg sale r) (rested ok mint d0)"
proof -
  have st: "stable (rested ok mint d0)" by (rule stable_calm) simp
  show ?thesis
    unfolding build_order_def Let_def
    apply (rule spec_bind [OF spec_first_question [OF st]], simp, rule spec_dated)
    apply (rule spec_bind [OF reserve_floor_later], simp, rule spec_fact, rule spec_option)
     prefer 2
     apply (rule spec_ret, simp add: build_post_def later_def)
    apply (rule spec_bind [OF spec_lift_later], rule spec_fact)
    apply (rule spec_bind [OF spec_ask_later [OF st]], rule spec_dated)
    apply (rule spec_bind [OF spec_lift_later], rule spec_fact, clarsimp split del: if_split)
    apply (rule spec_bind [OF spec_holdings_later [OF st]], rule spec_dated)
    apply (rule spec_bind [OF spec_ask_later [OF st]], rule spec_dated)
    apply (rule spec_bind [OF spec_lift_later], rule spec_fact)
    apply (rule spec_bind [OF simulate_exit_spec [OF st]], rule spec_fact)
    apply (rule spec_bind [OF landing_bid_spec [OF st]])
    apply (rule spec_bind [OF spec_lift_fact], rule spec_fact)
    apply (rule spec_ret)
    using assms apply (clarsimp simp: build_post_def exec_ok_def signs_nonempty_def ordered_and_signed_def
        wallet_simulated_def Let_def)
    subgoal for v t vb vc u a b vd va t1 ve t2
      by (rule exI [of _ u], rule conjI, rule exI [of _ t], simp, rule exI [of _ t1], simp, rule exI [of _ t2], simp)
    done
qed

subsection \<open>Submitting\<close>

lemma spec_execute:
  assumes "ok sb e"
  shows "spec (\<lambda>s. calm ok mint d0 locals_ok s \<and> pend s = Some sb \<and> stored_submission mint (w_disk s) = Some sb)
     (ask_logged (\<lambda>_. Executed sb e) q)
     (\<lambda>_ s. sale_inv ok mint d0 s \<and> pend s = Some sb) (sale_inv ok mint d0)"
proof -
  let ?P = "\<lambda>s. calm ok mint d0 locals_ok s \<and> pend s = Some sb \<and> stored_submission mint (w_disk s) = Some sb"
  have "sale_inv ok mint d0 (s\<lparr>w_tick := t, w_log := w_log s @ [Executed sb e]\<rparr>)" if p: "?P s" for s t
  proof -
    have only: "sb = sb'" if "in_flight mint (w_log s @ [Executed sb e]) sb'" for sb'
      using in_flight_snoc [OF that] p by (auto simp: calm_def idle_def)
    have "safe_history mint d0 (w_log s @ [Executed sb e])"
      using p only by (intro safe_history_snoc) (auto simp: calm_def hist_def idle_def)
    then show ?thesis
      using p only assms by (auto simp: sale_inv_def calm_def hist_def locals_ok_def)
  qed
  then show ?thesis by (intro spec_ask_logged) auto
qed

lemma after_success_spec:
  assumes "sub_blockhash (b_submission b) = nonblank (Some (b_blockhash b))"
  shows "spec (\<lambda>s. sale_inv ok (sale_mint sale) d0 s \<and> pend s = Some (b_submission b))
    (after_success svc sale b att result)
    (attempt_post (sale_inv ok (sale_mint sale) d0) ok (sale_mint sale) d0) (sale_inv ok (sale_mint sale) d0)"
proof -
  let ?I = "\<lambda>s. sale_inv ok (sale_mint sale) d0 s \<and> pend s = Some (b_submission b)"
  let ?E = "sale_inv ok (sale_mint sale) d0"
  have sub: "b_submission b = sub_of (sub_signature (b_submission b)) (Some (b_blockhash b)) (sub_remaining (b_submission b))"
    using assms by simp
  have local: "local_pred (\<lambda>s. pend s = Some (b_submission b))" by (simp add: local_pred_def)
  have arm: "spec ?I (modify (\<lambda>s. s\<lparr>pending_output_lamports := Some out,
       intent := AList.update ''output_lamports'' (JInt out) (AList.update ''status'' (JStr ''submitted'') (intent s))\<rparr>))
      (\<lambda>_. ?I) ?E" for out
    by (rule spec_modify) (clarsimp simp: sale_inv_def hist_def locals_ok_def submitted_carries)
  have get: "spec ?I (gets intent) (\<lambda>i s. ?I s \<and> carries i (b_submission b)) ?E"
    by (rule spec_gets) (clarsimp simp: sale_inv_def locals_ok_def)
  have save: "spec ?I (save_pending svc (sale_mint sale) i) (\<lambda>_. ?I) ?E" if "carries i (b_submission b)" for i
    by (rule spec_weaken [OF spec_save_intent [OF _ _ local, where P = ?I]]) (use that in auto)
  have dead: "spec (calm ok (sale_mint sale) d0 locals_ok) (bind (modify (\<lambda>s. s\<lparr>last_error := detail\<rparr>))
      (\<lambda>_. bind (clear_pending_signature svc (sale_mint sale) detail) (\<lambda>_. ret None)))
      (attempt_post ?E ok (sale_mint sale) d0) ?E" for detail
    by (rule spec_weaken [OF dead_spec]) (auto simp: attempt_post_def intro: rested_inv split: option.splits)
  show ?thesis
    unfolding after_success_def Let_def
    apply (rule spec_if, rule spec_raise, simp)
    apply (rule spec_bind [where R = "\<lambda>_. ?I"], rule spec_lift, simp, simp)
    apply (rule spec_bind [OF arm], rule spec_bind [OF get], rule spec_fact [where J = ?I])
    apply (rule spec_bind [OF save], assumption)
    apply (rule spec_bind, rule spec_pre [OF resolve_pend_spec], subst (asm) sub, assumption)
    apply (rule resolved_spec)
      apply (rule spec_Some, rule finalize_outcome, assumption)
     apply (rule dead)
    apply (rule spec_Some, rule spec_pre [OF block_sale_spec], auto)
    done
qed

lemma submit_spec:
  assumes "exec_ok svc cfg (sale_mint sale) r n (b_submission b) (b_evidence b)"
    and "sub_blockhash (b_submission b) = nonblank (Some (b_blockhash b))"
    and "ok (b_submission b) (b_evidence b)"
  shows "spec (rested ok (sale_mint sale) d0) (submit svc sale b att)
    (attempt_post (sale_inv ok (sale_mint sale) d0) ok (sale_mint sale) d0) (sale_inv ok (sale_mint sale) d0)"
proof -
  let ?E = "sale_inv ok (sale_mint sale) d0"
  let ?L = "\<lambda>s. pend s = Some (b_submission b)"
  let ?C = "\<lambda>s. calm ok (sale_mint sale) d0 locals_ok s \<and> ?L s"
  have armed: "pend (arm_submission b att s) = Some (b_submission b)"
      "carries (intent (arm_submission b att s)) (b_submission b)" for s
    using assms(1,2) by (auto simp: exec_ok_def intro: arm_carries)
  have world: "w_log (arm_submission b att s) = w_log s" "w_disk (arm_submission b att s) = w_disk s" for s
    by (simp_all add: arm_submission_def)
  have arm: "spec (rested ok (sale_mint sale) d0) (modify (arm_submission b att)) (\<lambda>_. ?C) ?E"
    by (rule spec_modify) (use armed in \<open>simp add: calm_def hist_def idle_def locals_ok_def world\<close>)
  have get: "spec ?C (gets intent) (\<lambda>i s. ?C s \<and> carries i (b_submission b)) ?E"
    by (rule spec_gets) (clarsimp simp: calm_def locals_ok_def)
  have save: "spec ?C (save_pending svc (sale_mint sale) i)
      (\<lambda>_ s. calm ok (sale_mint sale) d0 locals_ok s \<and> ?L s \<and> stored_submission (sale_mint sale) (w_disk s) = Some (b_submission b)) ?E"
    if i: "carries i (b_submission b)" for i
    unfolding save_pending_def
  proof (rule spec_db)
    fix s d
    assume c: "?C s" and w: "store_set (svc_clock svc (w_tick s)) (pending_path (sale_mint sale)) (JObj i) (w_disk s) = Inr d"
    have "calm ok (sale_mint sale) d0 locals_ok (s\<lparr>w_disk := d, w_log := w_log s @ [Wrote d]\<rparr>)"
      using c hist_write [of ok "sale_mint sale" d0 s d]
      by (auto simp: calm_def idle_def locals_ok_def dest: in_flight_write)
    then show "calm ok (sale_mint sale) d0 locals_ok (s\<lparr>w_disk := d, w_log := w_log s @ [Wrote d]\<rparr>) \<and>
        ?L (s\<lparr>w_disk := d, w_log := w_log s @ [Wrote d]\<rparr>) \<and>
        stored_submission (sale_mint sale) (w_disk (s\<lparr>w_disk := d, w_log := w_log s @ [Wrote d]\<rparr>)) = Some (b_submission b)"
      using c stored_of_entry [OF w i] by simp
  qed (use calm_inv in blast)
  have failed: "spec (\<lambda>s. ?E s \<and> ?L s) (bind (modify (\<lambda>s. s\<lparr>last_error := e\<rparr>)) (\<lambda>_. ret None))
      (attempt_post ?E ok (sale_mint sale) d0) ?E" for e
    by (rule spec_bind [where R = "\<lambda>_. ?E"])
      (auto intro!: spec_modify spec_ret simp: sale_inv_def hist_def locals_ok_def attempt_post_def)
  show ?thesis
    unfolding submit_def Let_def
    apply (rule spec_bind [OF arm], rule spec_bind [OF get], rule spec_fact [where J = ?C])
    apply (rule spec_bind [OF save], assumption)
    apply (rule spec_bind [OF spec_execute [where ok = ok]], rule assms(3))
    apply (rule spec_if)
     apply (rule spec_bind [where R = "\<lambda>_ s. ?E s \<and> ?L s"], rule spec_lift, simp, simp)
     apply (rule spec_if, rule after_success_spec [OF assms(2)], rule failed)
    apply (rule failed)
    done
qed

lemma attempt_body_spec:
  assumes "signs_nonempty svc" "0 < sale_requested sale" "sale_requested sale \<le> sale_observed sale"
    and ok: "\<And>sb e. exec_ok svc cfg (sale_mint sale) (sale_reason sale) (sale_requested sale) sb e \<Longrightarrow> ok sb e"
  shows "spec (sale_inv ok (sale_mint sale) d0) (attempt_body svc cfg sale att)
    (attempt_post (sale_inv ok (sale_mint sale) d0) ok (sale_mint sale) d0) (sale_inv ok (sale_mint sale) d0)"
  unfolding attempt_body_def
proof (rule spec_bind [OF settle_spec])
  fix settled
  let ?E = "sale_inv ok (sale_mint sale) d0"
  let ?R = "rested ok (sale_mint sale) d0"
  let ?N = "attempt_post ?E ok (sale_mint sale) d0"
  have st: "stable ?R" by (rule stable_calm) simp
  have rec: "spec ?R (reconcile_filled svc sale current att) (outcome ok (sale_mint sale) d0) ?E" for current
    by (rule spec_weaken [OF reconcile_spec]) (auto intro: calm_outcome rested_inv)
  have build: "spec ?R (build_order svc cfg sale h) (\<lambda>r s. ?R s \<and> build_post svc cfg sale r) ?E"
    if "0 < th_amount h" for h
    by (rule spec_weaken [OF build_order_spec]) (use assms that rested_inv in auto)
  have positive: "0 < th_amount (the current)" if "\<not> already_filled sale current" for current
    using that assms(2,3) by (auto simp: already_filled_def split: option.splits)
  have step: "spec ?R (bind (holding_now svc (sale_mint sale)) (\<lambda>current.
       if already_filled sale current
       then bind (reconcile_filled svc sale current att) (\<lambda>r. ret (Some r))
       else bind (build_order svc cfg sale (the current)) (\<lambda>built.
              case built of Inl r \<Rightarrow> ret (Some r) | Inr b \<Rightarrow> submit svc sale b att))) ?N ?E"
    apply (rule spec_bind [OF spec_weaken [OF spec_holding_now [OF st], of ?R "\<lambda>_. ?R" ?E]])
       apply (auto intro: rested_inv)[3]
    apply (rule spec_if, rule spec_Some, rule rec)
    apply (rule spec_bind [OF build [OF positive]], assumption, rule spec_fact)
    subgoal for current built
      by (cases built)
        (auto simp: build_post_def attempt_post_def intro!: spec_ret submit_spec ok intro: calm_outcome)
    done
  show "spec (attempt_post ?R ok (sale_mint sale) d0 settled)
     (case settled of None \<Rightarrow> bind (holding_now svc (sale_mint sale)) (\<lambda>current.
       if already_filled sale current
       then bind (reconcile_filled svc sale current att) (\<lambda>r. ret (Some r))
       else bind (build_order svc cfg sale (the current)) (\<lambda>built.
              case built of Inl r \<Rightarrow> ret (Some r) | Inr b \<Rightarrow> submit svc sale b att))
      | Some r \<Rightarrow> ret (Some r)) ?N ?E"
    by (rule spec_option; (rule spec_pre [OF step])?; (rule spec_ret)?) (auto simp: attempt_post_def)
qed

lemma sell_attempt_spec:
  assumes "signs_nonempty svc" "0 < sale_requested sale" "sale_requested sale \<le> sale_observed sale"
    and "\<And>sb e. exec_ok svc cfg (sale_mint sale) (sale_reason sale) (sale_requested sale) sb e \<Longrightarrow> ok sb e"
  shows "spec (sale_inv ok (sale_mint sale) d0) (sell_attempt svc cfg sale att)
    (attempt_post (sale_inv ok (sale_mint sale) d0) ok (sale_mint sale) d0) (sale_inv ok (sale_mint sale) d0)"
  unfolding sell_attempt_def
proof (rule spec_catch [OF attempt_body_spec [OF assms]])
  fix e
  let ?E = "sale_inv ok (sale_mint sale) d0"
  show "spec ?E (bind (modify (\<lambda>s. s\<lparr>last_error := describe_execution_failure e\<rparr>)) (\<lambda>_. ret None))
      (attempt_post ?E ok (sale_mint sale) d0) ?E"
    by (rule spec_bind [where R = "\<lambda>_. ?E"])
      (auto intro!: spec_modify spec_ret simp: sale_inv_def hist_def locals_ok_def attempt_post_def)
qed

lemma give_up_spec:
  "spec (sale_inv ok (sale_mint sale) d0) (give_up svc cfg sale)
     (outcome ok (sale_mint sale) d0) (sale_inv ok (sale_mint sale) d0)"
proof -
  let ?E = "sale_inv ok (sale_mint sale) d0"
  let ?R = "rested ok (sale_mint sale) d0"
  have save: "spec ?R (save_pending svc (sale_mint sale) i) (\<lambda>_. ?R) ?E" for i
    by (rule spec_weaken [OF spec_save_calm]) (auto intro: rested_inv)
  have tell: "spec ?R (notify svc ''critical'' m) (\<lambda>_. ?R) ?E" for m
    by (rule spec_weaken [OF spec_notify [OF stable_calm]]) (auto intro: rested_inv)
  show ?thesis
    unfolding give_up_def Let_def
    apply (rule spec_bind [where R = "\<lambda>s0 s. ?E s \<and> s = s0"], rule spec_gets, simp)
    apply (rule spec_option)
     apply (rule spec_bind [where R = "\<lambda>_. ?R"], rule spec_modify)
      apply (auto simp: calm_def hist_def idle_def sale_inv_def pend_def)[1]
     apply (rule spec_bind [where R = "\<lambda>_. ?R"], rule spec_gets, assumption)
     apply (rule spec_bind [OF save], rule spec_bind [OF tell], rule spec_ret)
     apply (rule calm_outcome, assumption, simp add: result_of_def)
    apply (rule spec_pre [OF block_sale_spec], auto simp: pend_def)
    done
qed

lemma sell_loop_spec:
  assumes "signs_nonempty svc" "0 < sale_requested sale" "sale_requested sale \<le> sale_observed sale"
    and "\<And>sb e. exec_ok svc cfg (sale_mint sale) (sale_reason sale) (sale_requested sale) sb e \<Longrightarrow> ok sb e"
  shows "spec (sale_inv ok (sale_mint sale) d0) (sell_loop n svc cfg sale att)
    (outcome ok (sale_mint sale) d0) (sale_inv ok (sale_mint sale) d0)"
proof (induction n arbitrary: att)
  case 0
  then show ?case by (simp add: give_up_spec)
next
  case (Suc n)
  show ?case
    unfolding sell_loop.simps
  proof (rule spec_bind, rule sell_attempt_spec [OF assms(1-3)], erule assms(4))
    fix r
    show "spec (attempt_post (sale_inv ok (sale_mint sale) d0) ok (sale_mint sale) d0 r)
        (case r of None \<Rightarrow> sell_loop n svc cfg sale (att + 1) | Some result \<Rightarrow> ret result)
        (outcome ok (sale_mint sale) d0) (sale_inv ok (sale_mint sale) d0)"
      by (cases r) (auto intro!: spec_ret spec_pre [OF Suc.IH] simp: attempt_post_def)
  qed
qed

lemma start_sale_spec:
  "spec (calm ok mint d0 (\<lambda>_. True)) (start_sale svc sale) (\<lambda>_. sale_inv ok mint d0) (sale_inv ok mint d0)"
  unfolding start_sale_def
proof (rule spec_bind [where R = "\<lambda>_. rested ok mint d0"])
  show "spec (rested ok mint d0) (bind (gets intent) (save_pending svc (sale_mint sale)))
      (\<lambda>_. sale_inv ok mint d0) (sale_inv ok mint d0)"
    by (rule spec_bind [where R = "\<lambda>_. rested ok mint d0"])
      (auto intro: spec_gets spec_weaken [OF spec_save_calm] rested_inv)
qed (rule spec_modify, simp add: calm_def hist_def idle_def)

subsection \<open>A submission left behind by an earlier call\<close>

lemma store_get_pending_now: "store_get now (pending_path mint) JNull d = store_get 0 (pending_path mint) JNull d"
  by (cases d) (auto simp: store_get_def load_def initial_state_def pending_path_def)

text \<open>The entry a state file holds for a mint, when it carries a signature.\<close>

definition holds_entry :: "string \<Rightarrow> disk \<Rightarrow> obj \<Rightarrow> bool" where
  "holds_entry mint d prior \<longleftrightarrow> store_get 0 (pending_path mint) JNull d = Inr (JObj prior) \<and>
     carries_signature (JObj prior) = Some prior"

lemma holds_entry_kept: "holds_entry mint d prior \<Longrightarrow> kept mint d (json_text (jget ''signature'' prior))"
  by (auto simp: holds_entry_def kept_def)

lemma carries_signature_Some: "carries_signature entry = Some prior \<Longrightarrow> entry = JObj prior"
  by (auto simp: carries_signature_def split: option.splits if_splits)

lemma holds_entry_stored:
  "holds_entry mint d prior \<Longrightarrow> stored_submission mint d =
     map_option (\<lambda>n. sub_of (json_text (jget ''signature'' prior)) (stored_blockhash prior) n)
       (int_of_json (jget ''expected_remaining'' prior))"
  by (simp add: holds_entry_def stored_submission_def)

lemma mark_unresolved_entry:
  assumes "holds_entry mint d prior"
    and "store_set now (pending_path mint)
      (JObj (mark_unresolved (json_text (jget ''signature'' prior)) detail prior)) d = Inr d'"
  shows "stored_submission mint d' = stored_submission mint d"
    and "kept mint d' (json_text (jget ''signature'' prior))"
proof -
  let ?m = "mark_unresolved (json_text (jget ''signature'' prior)) detail prior"
  have get: "store_get 0 (pending_path mint) JNull d' = Inr (JObj ?m)"
    by (rule sf.get_put [OF pending_path_safe assms(2)])
  have sig: "truthy (jget ''signature'' prior)"
    using assms(1) by (auto simp: holds_entry_def carries_signature_def split: if_splits)
  then have "carries_signature (JObj ?m) = Some ?m"
    by (simp add: carries_signature_def mark_unresolved_def UNRESOLVED_STATUSES_def json_text_nonempty)
  then have h: "holds_entry mint d' ?m" using get by (simp add: holds_entry_def)
  show "stored_submission mint d' = stored_submission mint d"
    using holds_entry_stored [OF h] holds_entry_stored [OF assms(1)] by (simp add: mark_unresolved_def)
  show "kept mint d' (json_text (jget ''signature'' prior))"
    using holds_entry_kept [OF h] by (simp add: mark_unresolved_def)
qed

text \<open>The history, with the entry that is being resolved still on disk.\<close>

definition resolving :: "(submission \<Rightarrow> evidence \<Rightarrow> bool) \<Rightarrow> string \<Rightarrow> disk \<Rightarrow> obj \<Rightarrow> sys \<Rightarrow> bool" where
  "resolving ok mint d0 prior s \<longleftrightarrow> hist ok mint d0 s \<and> holds_entry mint (w_disk s) prior"

lemma stable_resolving: "stable (resolving ok mint d0 prior)"
  by (auto simp: stable_def resolving_def hist_tick hist_quiet)

lemma stable_hist: "stable (hist ok mint d0)"
  by (auto simp: stable_def hist_tick hist_quiet)

lemma hist_in_flight: "hist ok mint d0 s \<Longrightarrow> in_flight mint (w_log s) sb \<Longrightarrow> stored_submission mint (w_disk s) = Some sb"
  by (auto simp: hist_def safe_history_def)

lemma hist_idle: "hist ok mint d0 s \<Longrightarrow> stored_submission mint (w_disk s) = None \<Longrightarrow> calm ok mint d0 (\<lambda>_. True) s"
  by (auto simp: calm_def idle_def dest: hist_in_flight)

lemma block_prior_spec:
  "spec (resolving ok mint d0 prior)
     (block_on_unresolved svc mint name prior (json_text (jget ''signature'' prior)) detail att amount)
     (outcome ok mint d0) (hist ok mint d0)"
  unfolding block_on_unresolved_def Let_def save_pending_def
proof (rule spec_bind [where R = "\<lambda>_ s. hist ok mint d0 s \<and> kept mint (w_disk s) (json_text (jget ''signature'' prior))"],
    rule spec_db)
  fix s d
  assume r: "resolving ok mint d0 prior s"
    and w: "store_set (svc_clock svc (w_tick s)) (pending_path mint)
      (JObj (mark_unresolved (json_text (jget ''signature'' prior)) detail prior)) (w_disk s) = Inr d"
  note m = mark_unresolved_entry [OF _ w]
  show "hist ok mint d0 (s\<lparr>w_disk := d, w_log := w_log s @ [Wrote d]\<rparr>) \<and>
      kept mint (w_disk (s\<lparr>w_disk := d, w_log := w_log s @ [Wrote d]\<rparr>)) (json_text (jget ''signature'' prior))"
    using r m hist_write [of ok mint d0 s d] by (auto simp: resolving_def hist_in_flight)
next
  show "spec (\<lambda>s. hist ok mint d0 s \<and> kept mint (w_disk s) (json_text (jget ''signature'' prior)))
     (bind (notify svc ''critical'' (unresolved_message name)) (\<lambda>_.
       ret (result_of ''unresolved'' (Some (json_text (jget ''signature'' prior))) att (unresolved_message name) amount None)))
     (outcome ok mint d0) (hist ok mint d0)" for u :: unit
    by (rule spec_bind [OF spec_notify_kept [OF stable_hist]])
      (auto intro!: spec_ret simp: outcome_def result_of_def)
qed (simp add: resolving_def)

lemma resolve_prior_poll_spec:
  assumes "int_of_json (jget ''expected_remaining'' prior) = Some n"
  shows "spec (resolving ok mint d0 prior)
     (resolve_signature svc (json_text (jget ''signature'' prior)) (stored_blockhash prior) mint n)
     (\<lambda>r s. resolving ok mint d0 prior s \<and> (sr_state r \<noteq> Sig_unresolved \<longrightarrow> calm ok mint d0 (\<lambda>_. True) s))
     (hist ok mint d0)"
proof (rule spec_weaken [OF resolve_signature_spec [OF stable_resolving]])
  fix r s
  assume a: "resolving ok mint d0 prior s \<and> (sr_state r \<noteq> Sig_unresolved \<longrightarrow>
    \<not> in_flight mint (w_log s) (sub_of (json_text (jget ''signature'' prior)) (stored_blockhash prior) n))"
  have "stored_submission mint (w_disk s) = Some (sub_of (json_text (jget ''signature'' prior)) (stored_blockhash prior) n)"
    using a assms holds_entry_stored [of mint "w_disk s" prior] by (auto simp: resolving_def)
  then show "resolving ok mint d0 prior s \<and> (sr_state r \<noteq> Sig_unresolved \<longrightarrow> calm ok mint d0 (\<lambda>_. True) s)"
    using a by (auto simp: calm_def idle_def resolving_def dest: hist_in_flight)
qed (auto simp: resolving_def)

lemma resolve_prior_spec:
  "spec (hist ok mint d0) (resolve_prior_submission svc mint name reason)
     (attempt_post (calm ok mint d0 (\<lambda>_. True)) ok mint d0) (hist ok mint d0)"
proof -
  let ?H = "hist ok mint d0"
  let ?N = "attempt_post (calm ok mint d0 (\<lambda>_. True)) ok mint d0"
  have get: "spec ?H (db_get svc (pending_path mint) JNull)
      (\<lambda>entry s. (case carries_signature entry of None \<Rightarrow> calm ok mint d0 (\<lambda>_. True) s
                   | Some prior \<Rightarrow> resolving ok mint d0 prior s)) ?H"
  proof (rule spec_db_get)
    fix s entry
    assume h: "?H s" and g: "store_get (svc_clock svc (w_tick s)) (pending_path mint) JNull (w_disk s) = Inr entry"
    show "case carries_signature entry of None \<Rightarrow> calm ok mint d0 (\<lambda>_. True) s | Some prior \<Rightarrow> resolving ok mint d0 prior s"
      using h g store_get_pending_now [of "svc_clock svc (w_tick s)" mint "w_disk s"]
      by (auto simp: resolving_def holds_entry_def stored_submission_def
          intro!: hist_idle dest: carries_signature_Some split: option.splits)
  qed
  have fin: "spec (calm ok mint d0 (\<lambda>_. True)) (finalize_confirmed svc mint nm rs sig sold out 0) (outcome ok mint d0) ?H"
    for nm rs sig sold out
    by (rule spec_weaken [OF finalize_spec]) (auto intro: calm_outcome simp: calm_def)
  have branch: "spec (resolving ok mint d0 prior) (bind (resolve_signature svc (json_text (jget ''signature'' prior))
       (stored_blockhash prior) mint n) (\<lambda>res. case sr_state res of
          Sig_confirmed \<Rightarrow> bind (finalize_confirmed svc mint nm rs sig sold out 0) (\<lambda>r. ret (Some r))
        | Sig_dead \<Rightarrow> ret None
        | Sig_unresolved \<Rightarrow> bind (block_on_unresolved svc mint nm prior (json_text (jget ''signature'' prior))
            (sr_detail res) 0 sold) (\<lambda>r. ret (Some r)))) ?N ?H"
    if "int_of_json (jget ''expected_remaining'' prior) = Some n" for prior n nm rs sig sold out
    apply (rule spec_bind [OF resolve_prior_poll_spec [OF that]])
    subgoal for res
      by (cases "sr_state res")
        (auto intro!: spec_Some spec_pre [OF fin] spec_pre [OF block_prior_spec] spec_ret simp: attempt_post_def)
    done
  show ?thesis
    unfolding resolve_prior_submission_def Let_def
    apply (rule spec_bind [OF get], rule spec_option)
     apply (rule spec_ret, simp add: attempt_post_def)
    apply (simp only: option.case, rule spec_if, rule spec_Some, rule block_prior_spec)
    apply (rule branch, auto)
    done
qed

subsection \<open>A whole call\<close>

lemma sell_valid_spec:
  assumes svc: "signs_nonempty svc"
    and valid: "0 < (case amount of None \<Rightarrow> th_amount observed | Some a \<Rightarrow> a)"
      "(case amount of None \<Rightarrow> th_amount observed | Some a \<Rightarrow> a) \<le> th_amount observed"
    and ok: "\<And>sb e. exec_ok svc cfg mint reason (case amount of None \<Rightarrow> th_amount observed | Some a \<Rightarrow> a) sb e \<Longrightarrow> ok sb e"
  shows "spec (hist ok mint d0) (sell svc cfg mint name reason observed amount pool)
    (outcome ok mint d0) (hist ok mint d0)"
proof -
  let ?H = "hist ok mint d0"
  let ?requested = "case amount of None \<Rightarrow> th_amount observed | Some a \<Rightarrow> a"
  let ?sale = "\<lparr> sale_mint = mint, sale_name = name, sale_reason = reason,
     sale_observed = th_amount observed, sale_requested = ?requested, sale_pool = pool \<rparr>"
  have quit: "spec ?H (bind (notify svc ''warning'' m) (\<lambda>_. ret (result_of st None 0 m n None))) (outcome ok mint d0) ?H"
    if "st = ''dry_run''" for m st n
    by (rule spec_bind [OF spec_notify [OF stable_hist]])
      (use that in \<open>auto intro!: spec_ret simp: outcome_def result_of_def\<close>)
  have gate: "spec ?H (gate_status svc cfg) (\<lambda>_. ?H) ?H"
    unfolding gate_status_def
    by (rule spec_bind [OF spec_ask_stable [OF stable_hist]]) (auto intro: spec_ret)
  have start: "spec (calm ok mint d0 (\<lambda>_. True)) (start_sale svc ?sale) (\<lambda>_. sale_inv ok mint d0) ?H"
    by (rule spec_weaken [OF start_sale_spec]) (auto simp: sale_inv_def)
  have loop: "spec (sale_inv ok mint d0) (sell_loop n svc cfg ?sale 1) (outcome ok mint d0) ?H"
    if "\<not> (?requested \<le> 0 \<or> th_amount observed < ?requested)" for n
  proof (rule spec_weaken)
    have "spec (sale_inv ok (sale_mint ?sale) d0) (sell_loop n svc cfg ?sale 1)
        (outcome ok (sale_mint ?sale) d0) (sale_inv ok (sale_mint ?sale) d0)"
      by (rule sell_loop_spec [OF svc]) (use that ok in \<open>simp_all add: not_le not_less\<close>)
    then show "spec (sale_inv ok mint d0) (sell_loop n svc cfg ?sale 1) (outcome ok mint d0) (sale_inv ok mint d0)"
      by simp
  qed (simp_all add: sale_inv_def)
  have run: "spec (attempt_post (calm ok mint d0 (\<lambda>_. True)) ok mint d0 settled)
      (case settled of None \<Rightarrow> bind (start_sale svc ?sale) (\<lambda>_. sell_loop (cfg_max_attempts cfg) svc cfg ?sale 1)
        | Some r \<Rightarrow> ret r) (outcome ok mint d0) ?H"
    if "\<not> (?requested \<le> 0 \<or> th_amount observed < ?requested)" for settled
  proof (rule spec_option)
    assume "settled = None"
    then show "spec (attempt_post (calm ok mint d0 (\<lambda>_. True)) ok mint d0 settled)
        (bind (start_sale svc ?sale) (\<lambda>_. sell_loop (cfg_max_attempts cfg) svc cfg ?sale 1)) (outcome ok mint d0) ?H"
      by (intro spec_pre [OF spec_bind [OF start loop [OF that]]]) (simp add: attempt_post_def)
  qed (rule spec_ret, simp add: attempt_post_def)
  show ?thesis
    unfolding sell_def Let_def
    apply (rule spec_if)
    using valid apply linarith
    apply (rule spec_bind [OF gate], clarsimp simp del: not_le split del: if_split)
    apply (rule spec_if, rule quit, simp)
    apply (rule spec_bind [OF resolve_prior_spec], rule run, simp)
    done
qed

text \<open>A call with any amount: an invalid one is skipped before anything is looked at.\<close>

lemma sell_spec:
  assumes "signs_nonempty svc"
    and "\<And>sb e. exec_ok svc cfg mint reason (case amount of None \<Rightarrow> th_amount observed | Some a \<Rightarrow> a) sb e \<Longrightarrow> ok sb e"
  shows "spec (hist ok mint d0) (sell svc cfg mint name reason observed amount pool)
    (\<lambda>r s. hist ok mint d0 s \<and> (er_status r \<noteq> ''skipped'' \<longrightarrow> outcome ok mint d0 r s)) (hist ok mint d0)"
proof (cases "0 < (case amount of None \<Rightarrow> th_amount observed | Some a \<Rightarrow> a) \<and>
    (case amount of None \<Rightarrow> th_amount observed | Some a \<Rightarrow> a) \<le> th_amount observed")
  case True
  then show ?thesis
    by (intro spec_weaken [OF sell_valid_spec [where ok = ok]]) (use assms in \<open>auto simp: outcome_def\<close>)
next
  case False
  then have bad: "(case amount of None \<Rightarrow> th_amount observed | Some a \<Rightarrow> a) \<le> 0 \<or>
      th_amount observed < (case amount of None \<Rightarrow> th_amount observed | Some a \<Rightarrow> a)" by linarith
  show ?thesis
    unfolding sell_def Let_def
    by (simp only: bad if_True, rule spec_bind [OF spec_notify [OF stable_hist]])
      (auto intro!: spec_ret simp: result_of_def)
qed

section \<open>Histories of calls\<close>

text \<open>
  A history of one mint from the state file \<open>d0\<close>: calls of \<open>sell\<close> and of
  \<open>resolve_pending_exit\<close>, by one process after another, each with its own
  configuration, answers and local variables, each cut by a crash at any point
  of what it would have done (or not at all); writes of the state file by others
  that leave the entry of the mint alone; and whatever is asked, notified or
  broadcast for other mints.
\<close>

inductive sale_history :: "string \<Rightarrow> disk \<Rightarrow> action list \<Rightarrow> bool" for mint d0 where
  start: "sale_history mint d0 []"
| sell: "sale_history mint d0 h \<Longrightarrow> signs_nonempty svc \<Longrightarrow> w_log s = h \<Longrightarrow> w_disk s = disk_after d0 h \<Longrightarrow>
    sell svc cfg mint name reason observed amount pool s = (r, s') \<Longrightarrow> w_log s' = h' @ lost \<Longrightarrow>
    sale_history mint d0 h'"
| resolve: "sale_history mint d0 h \<Longrightarrow> w_log s = h \<Longrightarrow> w_disk s = disk_after d0 h \<Longrightarrow>
    resolve_prior_submission svc mint name reason s = (r', s') \<Longrightarrow> w_log s' = h' @ lost \<Longrightarrow>
    sale_history mint d0 h'"
| other: "sale_history mint d0 h \<Longrightarrow>
    store_get 0 (pending_path mint) JNull d = store_get 0 (pending_path mint) JNull (disk_after d0 h) \<Longrightarrow>
    sale_history mint d0 (h @ [Wrote d])"
| elsewhere: "sale_history mint d0 h \<Longrightarrow> quiet x \<or> (\<exists>sb e. x = Executed sb e \<and> ev_mint e \<noteq> mint) \<Longrightarrow>
    sale_history mint d0 (h @ [x])"

lemma spec_hist:
  assumes "spec P m (\<lambda>r s. hist ok mint d0 s) (hist ok mint d0)" "P s" "m s = (r, s')"
  shows "hist ok mint d0 s'"
  using assms by (cases r) (auto dest: spec_Inl spec_Inr)

lemma sale_history_safe: "sale_history mint d0 h \<Longrightarrow> safe_history mint d0 h"
proof (induction rule: sale_history.induct)
  case (sell h svc s cfg name reason observed amount pool r s' h' lost)
  have "spec (hist (\<lambda>_ _. True) mint d0) (sell svc cfg mint name reason observed amount pool)
      (\<lambda>_. hist (\<lambda>_ _. True) mint d0) (hist (\<lambda>_ _. True) mint d0)"
    by (rule spec_weaken [OF sell_spec [OF sell.hyps(2)]]) (auto simp: outcome_def)
  moreover have "hist (\<lambda>_ _. True) mint d0 s" using sell by (simp add: hist_def)
  ultimately have "hist (\<lambda>_ _. True) mint d0 s'" using sell.hyps(5) by (rule spec_hist)
  then show ?case using sell.hyps(6) safe_history_prefix by (auto simp: hist_def)
next
  case (resolve h s svc name reason r' s' h' lost)
  have "spec (hist (\<lambda>_ _. True) mint d0) (resolve_prior_submission svc mint name reason)
      (\<lambda>_. hist (\<lambda>_ _. True) mint d0) (hist (\<lambda>_ _. True) mint d0)"
    by (rule spec_weaken [OF resolve_prior_spec])
      (auto simp: attempt_post_def outcome_def calm_def split: option.splits)
  moreover have "hist (\<lambda>_ _. True) mint d0 s" using resolve by (simp add: hist_def)
  ultimately have "hist (\<lambda>_ _. True) mint d0 s'" using resolve.hyps(4) by (rule spec_hist)
  then show ?case using resolve.hyps(5) safe_history_prefix by (auto simp: hist_def)
next
  case (other h d)
  show ?case
  proof (rule safe_history_snoc [OF other.IH])
    fix sb assume "in_flight mint (h @ [Wrote d]) sb"
    then have "stored_submission mint (disk_after d0 h) = Some sb"
      using other.IH in_flight_write by (auto simp: safe_history_def)
    then show "stored_submission mint (disk_after d0 (h @ [Wrote d])) = Some sb"
      using other.hyps(2) by (simp add: stored_submission_def)
  qed simp
next
  case (elsewhere h x)
  show ?case
  proof (rule safe_history_snoc [OF elsewhere.IH])
    fix sb assume "in_flight mint (h @ [x]) sb"
    then have "in_flight mint h sb" using in_flight_snoc elsewhere.hyps(2) by (fastforce simp: quiet_def)
    then have "stored_submission mint (disk_after d0 h) = Some sb"
      using elsewhere.IH by (auto simp: safe_history_def)
    moreover have "disk_after d0 (h @ [x]) = disk_after d0 h"
      using elsewhere.hyps(2) by (auto simp: disk_after_quiet)
    ultimately show "stored_submission mint (disk_after d0 (h @ [x])) = Some sb" by (simp only:)
  qed (use elsewhere.hyps(2) in \<open>auto simp: quiet_def\<close>)
qed simp

end
