(* ===== verification/Sales.thy ===== *)
theory Sales
  imports Executor_Safety
begin

text \<open>
  The properties of the sell executor, and a sale that is followed from the
  gate to the confirmed fill on concrete answers of the services.
\<close>

section \<open>A complete sale\<close>

text \<open>
  The services of an uneventful sale of five units: the wallet holds them until
  the transaction is executed, the cluster confirms it, the simulation reports
  the wallet and the emptied token account.
\<close>

definition demo_account :: json where
  "demo_account = JObj [(''pubkey'', JStr ''ACC''), (''account'', JObj [(''data'', JObj [(''parsed'', JObj [(''info'',
     JObj [(''mint'', JStr ''MINT''),
           (''tokenAmount'', JObj [(''amount'', JDec 5), (''decimals'', JInt 0)])])])])])]"

definition demo_accounts :: "nat \<Rightarrow> string \<Rightarrow> json res" where
  "demo_accounts t program =
     Inr (JObj [(''value'', JList (if t < 9 \<and> program = TOKEN_PROGRAM then [demo_account] else []))])"

definition demo_order :: obj where
  "demo_order = [(''transaction'', JStr ''AAAA''), (''requestId'', JStr ''r1''), (''inputMint'', JStr ''MINT''),
     (''outputMint'', JStr WSOL_MINT), (''inAmount'', JDec 5), (''router'', JStr ''metis''),
     (''outAmount'', JDec 1000), (''otherAmountThreshold'', JDec 980)]"

definition demo_services :: services where
  "demo_services = \<lparr>
     svc_clock = (\<lambda>t. int t),
     svc_signature_status = (\<lambda>t sig. Inr (JObj [(''value'',
       JList [JObj [(''confirmationStatus'', JStr ''confirmed'')]])])),
     svc_blockhash_valid = (\<lambda>t b. Inr (JObj [(''value'', JBool True)])),
     svc_token_accounts = demo_accounts,
     svc_sol_balance = (\<lambda>t. Inr (JObj [(''value'', JInt 100)])),
     svc_simulate = (\<lambda>t tx addresses. Inr (JObj [(''value'', JObj [
       (''accounts'', JList [JObj [(''lamports'', JInt 1080)], JNull]), (''unitsConsumed'', JInt 150000)])])),
     svc_order = (\<lambda>t mint amount slippage. Inr (JObj demo_order)),
     svc_execute = (\<lambda>t tx request. Inr (JObj [(''status'', JStr ''Success''), (''code'', JInt 0),
       (''signature'', JStr ''SIG''), (''totalOutputAmount'', JDec 990)])),
     svc_wire = (\<lambda>t. \<lparr> from_bytes = (\<lambda>raw. Some sample_exit_tx), pubkey_text = (\<lambda>_. ''key''),
       account_data = (\<lambda>_. Inl (ExternalServiceError ''rpc'')) \<rparr>),
     svc_sign = (\<lambda>v. Inr (''signed'', ''SIG'')),
     svc_recent_blockhash = (\<lambda>tx. ''BLOCKHASH''),
     svc_notify = (\<lambda>t. Inr ()),
     svc_append_trade = (\<lambda>t. Inr ()),
     svc_arm_file = (\<lambda>t. Inr (Some ''shitcoims:Wallet'')),
     svc_config_file = (\<lambda>t. Inr ()), svc_config_check = (\<lambda>t d. Inr ()) \<rparr>"

definition demo_config :: exec_config where
  "demo_config = \<lparr> cfg_enabled = True, cfg_cli_live = True, cfg_wallet = ''Wallet'', cfg_jupiter_ready = True,
     cfg_max_attempts = 3, cfg_max_sol_cost_lamports = 0, cfg_max_priority_fee_lamports = 10000, cfg_slippage_bps = 1500 \<rparr>"

definition demo_holding :: TokenHolding where
  "demo_holding = \<lparr> th_mint = ''MINT'', th_amount = 5, th_decimals = 0, th_token_accounts = [''ACC''],
     th_program_ids = [TOKEN_PROGRAM] \<rparr>"

definition demo_start :: sys where
  "demo_start = \<lparr> w_disk = Missing, w_tick = 0, w_log = [], intent = [], last_error = [], pending_signature = None,
     pending_blockhash = None, pending_expected_remaining = 0, pending_amount = 0, pending_output_lamports = None,
     basis_retry = [], basis_refills = [], pump_cache = [], w_config = [], cur_positions = [],
     known_unmonitored = [], observe_cache = [], next_observe_sweep = 0 \<rparr>"

definition demo_sale :: "ExecutionResult res \<times> sys" where
  "demo_sale = sell demo_services demo_config ''MINT'' ''bag'' ''exit_stop'' demo_holding None None demo_start"

fun broadcast_mints :: "action list \<Rightarrow> string list" where
  "broadcast_mints [] = []"
| "broadcast_mints (Executed sb e # h) = ev_mint e # broadcast_mints h"
| "broadcast_mints (_ # h) = broadcast_mints h"

lemma broadcast_mints_set: "Executed sb e \<in> set h \<Longrightarrow> ev_mint e \<in> set (broadcast_mints h)"
  by (induction h rule: broadcast_mints.induct) auto

fun broadcast_signatures :: "action list \<Rightarrow> string list" where
  "broadcast_signatures [] = []"
| "broadcast_signatures (Executed sb e # h) = sub_signature sb # broadcast_signatures h"
| "broadcast_signatures (_ # h) = broadcast_signatures h"

lemma broadcast_in_history:
  "sig \<in> set (broadcast_signatures h) \<Longrightarrow> \<exists>a sb e b. h = a @ Executed sb e # b \<and> sub_signature sb = sig"
proof (induction h rule: broadcast_signatures.induct)
  case (2 sb e h)
  show ?case
  proof (cases "sub_signature sb = sig")
    case True
    then show ?thesis by (intro exI [of _ "[]"]) auto
  next
    case False
    then obtain a sb' e' b where "h = a @ Executed sb' e' # b" "sub_signature sb' = sig" using 2 by auto
    then show ?thesis by (intro exI [of _ "Executed sb e # a"]) auto
  qed
qed (fastforce intro: exI [of _ "_ # _"])+

lemma demo_mints: "broadcast_mints (w_log (snd demo_sale)) = [''MINT'']"
  by code_simp

lemma demo_broadcasts: "broadcast_signatures (w_log (snd demo_sale)) = [''SIG'']"
  by code_simp

lemma demo_log_length: "length (w_log (snd demo_sale)) = 13"
  by code_simp

lemma demo_result:
  "map_sum id er_status (fst demo_sale) = Inr ''success''"
  by code_simp

section \<open>Histories\<close>

lemma demo_signs: "signs_nonempty demo_services"
  by (simp add: signs_nonempty_def demo_services_def)

lemma demo_history: "sale_history ''MINT'' Missing (w_log (snd demo_sale))"
proof (rule sale_history.sell [OF sale_history.start demo_signs])
  show "w_log demo_start = []" "w_disk demo_start = disk_after Missing []"
    by (simp_all add: demo_start_def)
  show "sell demo_services demo_config ''MINT'' ''bag'' ''exit_stop'' demo_holding None None demo_start =
      (fst demo_sale, snd demo_sale)"
    by (simp add: demo_sale_def)
  show "w_log (snd demo_sale) = w_log (snd demo_sale) @ []" by simp
qed

lemma demo_executes: "\<exists>a sb e b. w_log (snd demo_sale) = a @ Executed sb e # b \<and> sub_signature sb = ''SIG''"
  by (rule broadcast_in_history) (simp add: demo_broadcasts)

text \<open>
  C1 (safety). Never two exits of one mint in flight: whatever the services
  answer, however calls fail, wherever processes crash and whatever is sold of other
  mints, when an exit transaction of a mint is broadcast every transaction broadcast before it for the mint has
  been settled by what the cluster said: failed on chain, unknown with its
  blockhash expired, or confirmed with the balance down to what it was to leave.
\<close>

theorem never_two_in_flight:
  assumes "sale_history mint d0 (a @ Executed sb e # b)" and "ev_mint e = mint"
  shows "\<not> in_flight mint a sb'"
  using sale_history_safe [OF assms(1)] assms(2) by (auto simp: safe_history_def)

theorem never_two_in_flight_witness:
  "\<exists>a sb e b. w_log (snd demo_sale) = a @ Executed sb e # b \<and> (\<forall>sb'. \<not> in_flight ''MINT'' a sb')"
proof -
  from demo_executes obtain a sb e b where h: "w_log (snd demo_sale) = a @ Executed sb e # b" by blast
  then have m: "ev_mint e = ''MINT''" using broadcast_mints_set [of sb e "w_log (snd demo_sale)"] demo_mints by simp
  have "sale_history ''MINT'' Missing (a @ Executed sb e # b)" using demo_history h by simp
  from never_two_in_flight [OF this m] h show ?thesis by blast
qed

text \<open>
  C2 (invariant). The write-ahead promise: at every point of a history, so at
  every point where a crash can leave the state file, a transaction that is in
  flight is the one the file's entry for the mint names, with the blockhash and
  the remaining balance that settle it.
\<close>

theorem crash_leaves_the_submission:
  assumes "sale_history mint d0 h" and "in_flight mint h sb"
  shows "stored_submission mint (disk_after d0 h) = Some sb"
  using sale_history_safe [OF assms(1)] assms(2) by (auto simp: safe_history_def)

lemma history_prefix: "sale_history mint d0 h \<Longrightarrow> h = a @ b \<Longrightarrow> sale_history mint d0 a"
proof (induction arbitrary: a b rule: sale_history.induct)
  case (sell h svc s cfg name reason observed amount pool r s' h' lost)
  have "w_log s' = a @ (b @ lost)" using sell.hyps(6) sell.prems by simp
  from sale_history.sell [OF sell.hyps(1-5) this] show ?case .
next
  case (resolve h s svc name reason r' s' h' lost)
  have "w_log s' = a @ (b @ lost)" using resolve.hyps(5) resolve.prems by simp
  from sale_history.resolve [OF resolve.hyps(1-4) this] show ?case .
next
  case (other h d)
  show ?case
  proof (cases b rule: rev_cases)
    case Nil
    then show ?thesis using other sale_history.other [OF other.hyps] by simp
  next
    case (snoc ys y)
    then show ?thesis using other.IH [of a ys] other.prems by simp
  qed
next
  case (elsewhere h x)
  show ?case
  proof (cases b rule: rev_cases)
    case Nil
    then show ?thesis using elsewhere sale_history.elsewhere [OF elsewhere.hyps] by simp
  next
    case (snoc ys y)
    then show ?thesis using elsewhere.IH [of a ys] elsewhere.prems by simp
  qed
qed (auto intro: sale_history.start)

theorem crash_leaves_the_submission_witness:
  "\<exists>a sb. in_flight ''MINT'' a sb \<and> sub_signature sb = ''SIG'' \<and>
     stored_submission ''MINT'' (disk_after Missing a) = Some sb"
proof -
  from demo_executes obtain a sb e b where
    h: "w_log (snd demo_sale) = (a @ [Executed sb e]) @ b" "sub_signature sb = ''SIG''" by auto
  then have m: "ev_mint e = ''MINT''" using broadcast_mints_set [of sb e "w_log (snd demo_sale)"] demo_mints by simp
  have "sale_history ''MINT'' Missing (a @ [Executed sb e])"
    by (rule history_prefix [OF demo_history h(1)])
  moreover have "\<not> settles ''MINT'' sb []" by (simp add: settles_def)
  then have f: "in_flight ''MINT'' (a @ [Executed sb e]) sb" using m by (auto simp: in_flight_def)
  ultimately show ?thesis using crash_leaves_the_submission h(2) by blast
qed

section \<open>One call\<close>

lemma hist_Nil: "w_log s = [] \<Longrightarrow> hist ok mint (w_disk s) s"
  by (simp add: hist_def)

text \<open>
  C3 (safety). Whatever a call of \<open>sell\<close> broadcasts was checked first: the
  amount is positive and within the request, Jupiter's order was accepted for
  this mint, amount and tolerance, its transaction passed the signing gate and
  was signed by the configured signer, and the signature is the one of those bytes. After that
  the holdings of the whole wallet and then its balance were read, and after these the signed bytes were
  simulated on chunks that have every holding in one of them, and each chunk
  was accepted for the balance the submission is to leave.
\<close>

theorem broadcasts_are_checked:
  assumes "signs_nonempty svc" and "w_log s = []"
    and "sell svc cfg mint name reason observed amount pool s = (r, s')"
    and "Executed sb e \<in> set (w_log s')"
  shows "0 < ev_amount e \<and> ev_amount e \<le> (case amount of None \<Rightarrow> th_amount observed | Some a \<Rightarrow> a) \<and>
    (\<exists>u. ordered_and_signed svc cfg mint reason u sb e \<and>
      (\<exists>t>u. \<exists>t'>t. \<exists>holdings pre_sol chunks.
         token_holdings (svc_token_accounts svc t) = Inr holdings \<and>
         rbind (svc_sol_balance svc t') sol_balance = Inr pre_sol \<and>
         simulation_chunks holdings mint = Inr chunks \<and> (\<forall>h \<in> set holdings. \<exists>chunk \<in> set chunks. h \<in> set chunk) \<and>
         list_all (chunk_accepted svc cfg (ev_signed e) mint pre_sol (ev_min_out e) (sub_remaining sb) t') chunks))"
proof -
  let ?ok = "exec_ok svc cfg mint reason (case amount of None \<Rightarrow> th_amount observed | Some a \<Rightarrow> a)"
  have "spec (hist ?ok mint (w_disk s)) (sell svc cfg mint name reason observed amount pool)
      (\<lambda>_. hist ?ok mint (w_disk s)) (hist ?ok mint (w_disk s))"
    by (rule spec_weaken [OF sell_spec [OF assms(1)]]) (auto simp: outcome_def)
  from spec_hist [OF this hist_Nil [OF assms(2)] assms(3)]
  have "?ok sb e" using assms(4) by (auto simp: hist_def)
  then show ?thesis unfolding exec_ok_def wallet_simulated_def by blast
qed

theorem broadcasts_are_checked_witness:
  "\<exists>sb e. Executed sb e \<in> set (w_log (snd demo_sale)) \<and> 0 < ev_amount e \<and> ev_amount e \<le> 5 \<and>
     (\<exists>u. ordered_and_signed demo_services demo_config ''MINT'' ''exit_stop'' u sb e \<and>
       (\<exists>t>u. \<exists>holdings chunks. token_holdings (demo_accounts t) = Inr holdings \<and>
          simulation_chunks holdings ''MINT'' = Inr chunks))"
proof -
  from demo_executes obtain sb e where x: "Executed sb e \<in> set (w_log (snd demo_sale))"
    by (metis in_set_conv_decomp)
  have w: "w_log demo_start = []" by (simp add: demo_start_def)
  have "sell demo_services demo_config ''MINT'' ''bag'' ''exit_stop'' demo_holding None None demo_start =
      (fst demo_sale, snd demo_sale)" by (simp add: demo_sale_def)
  note checked = broadcasts_are_checked [OF demo_signs w this x]
  have "svc_token_accounts demo_services = demo_accounts" by (simp add: demo_services_def)
  with checked have "0 < ev_amount e \<and> ev_amount e \<le> th_amount demo_holding \<and>
      (\<exists>u. ordered_and_signed demo_services demo_config ''MINT'' ''exit_stop'' u sb e \<and>
       (\<exists>t>u. \<exists>holdings chunks. token_holdings (demo_accounts t) = Inr holdings \<and>
          simulation_chunks holdings ''MINT'' = Inr chunks))" by (simp only: option.case) blast
  moreover have "th_amount demo_holding = 5" by (simp add: demo_holding_def)
  ultimately show ?thesis using x by (simp only:) blast
qed

text \<open>
  C4 (functional). The returned status tells the truth about what may still
  land: after \<open>success\<close>, \<open>reconciled\<close> or \<open>failed\<close> nothing of the mint is in
  flight, and after \<open>unresolved\<close> the state file still holds an entry with the
  returned signature in a status that the next call resolves first. A call that
  raises leaves a history in which whatever is in flight is on file.
\<close>

theorem result_tells_in_flight:
  assumes "sale_history mint d0 (w_log s)" and "w_disk s = disk_after d0 (w_log s)" and "signs_nonempty svc"
    and "sell svc cfg mint name reason observed amount pool s = (r, s')"
  shows "case r of
      Inl e \<Rightarrow> \<forall>sb. in_flight mint (w_log s') sb \<longrightarrow> stored_submission mint (w_disk s') = Some sb
    | Inr x \<Rightarrow> (er_status x \<in> {''success'', ''reconciled'', ''failed''} \<longrightarrow> (\<forall>sb. \<not> in_flight mint (w_log s') sb)) \<and>
        (er_status x = ''unresolved'' \<longrightarrow> (\<exists>sig. er_signature x = Some sig \<and> kept mint (w_disk s') sig))"
proof -
  have h: "hist (\<lambda>_ _. True) mint d0 s"
    using sale_history_safe [OF assms(1)] assms(2) by (simp add: hist_def)
  have sp: "spec (hist (\<lambda>_ _. True) mint d0) (sell svc cfg mint name reason observed amount pool)
      (\<lambda>r s. hist (\<lambda>_ _. True) mint d0 s \<and> (er_status r \<noteq> ''skipped'' \<longrightarrow> outcome (\<lambda>_ _. True) mint d0 r s))
      (hist (\<lambda>_ _. True) mint d0)"
    by (rule sell_spec [OF assms(3)]) simp
  show ?thesis
  proof (cases r)
    case (Inl e)
    then show ?thesis using spec_Inl [OF sp h, of e s'] assms(4) hist_in_flight by auto
  next
    case (Inr x)
    then have "er_status x \<noteq> ''skipped'' \<longrightarrow> outcome (\<lambda>_ _. True) mint d0 x s'"
      using spec_Inr [OF sp h, of x s'] assms(4) by simp
    then show ?thesis using Inr by (auto simp: outcome_def idle_def)
  qed
qed

theorem result_tells_in_flight_witness:
  "map_sum id er_status (fst demo_sale) = Inr ''success'' \<and> (\<forall>sb. \<not> in_flight ''MINT'' (w_log (snd demo_sale)) sb)"
proof -
  obtain x where x: "fst demo_sale = Inr x" "er_status x = ''success''"
    using demo_result by (cases "fst demo_sale") auto
  have "sell demo_services demo_config ''MINT'' ''bag'' ''exit_stop'' demo_holding None None demo_start =
      (Inr x, snd demo_sale)" using x(1) by (simp add: demo_sale_def prod_eq_iff)
  from result_tells_in_flight [OF _ _ demo_signs this, of Missing] x demo_result show ?thesis
    by (simp add: demo_start_def sale_history.start)
qed

section \<open>The gate\<close>

definition requested_amount :: "TokenHolding \<Rightarrow> int option \<Rightarrow> int" where
  "requested_amount observed amount = (case amount of None \<Rightarrow> th_amount observed | Some a \<Rightarrow> a)"

text \<open>
  C5 (safety). A call of \<open>sell\<close> does nothing but notify unless the
  requested amount is positive and held, execution is enabled in the
  configuration, the process was started live, the Jupiter key is there and the
  arm file names this wallet: otherwise the state file is as before and the log
  has at most one notification more.
\<close>

theorem acts_only_when_armed:
  assumes "sell svc cfg mint name reason observed amount pool s = (r, s')"
    and "\<not> (w_disk s' = w_disk s \<and>
       (w_log s' = w_log s \<or> (\<exists>m. w_log s' = w_log s @ [Notified ''warning'' m])))"
  shows "0 < requested_amount observed amount \<and> requested_amount observed amount \<le> th_amount observed \<and>
    cfg_enabled cfg \<and> cfg_cli_live cfg \<and> cfg_jupiter_ready cfg \<and>
    svc_arm_file svc (w_tick s) = Inr (Some (''shitcoims:'' @ cfg_wallet cfg))"
proof -
  have amount: "\<not> (requested_amount observed amount \<le> 0 \<or> th_amount observed < requested_amount observed amount)"
    using assms
    by (auto simp: sell_def requested_amount_def Let_def bind_def ret_def notify_def ask_logged_def
        split: sum.splits prod.splits)
  obtain arm where arm: "svc_arm_file svc (w_tick s) = Inr arm"
    using assms amount
    by (cases "svc_arm_file svc (w_tick s)")
      (auto simp: sell_def requested_amount_def Let_def bind_def gate_status_def ask_def)
  have "gate_failures cfg arm = []"
  proof (rule ccontr)
    assume "gate_failures cfg arm \<noteq> []"
    then show False
      using assms amount arm
      by (auto simp: sell_def requested_amount_def Let_def bind_def gate_status_def ask_def ret_def notify_def
          ask_logged_def split: sum.splits prod.splits if_splits)
  qed
  then show ?thesis
    using amount arm by (auto simp: gate_failures_def expected_arm_value_def split: if_splits)
qed

theorem acts_only_when_armed_witness:
  "w_log (snd demo_sale) \<noteq> [] \<and> cfg_enabled demo_config \<and> cfg_cli_live demo_config"
proof -
  have "sell demo_services demo_config ''MINT'' ''bag'' ''exit_stop'' demo_holding None None demo_start =
      (fst demo_sale, snd demo_sale)" by (simp add: demo_sale_def)
  moreover have "\<not> (w_disk (snd demo_sale) = w_disk demo_start \<and> (w_log (snd demo_sale) = w_log demo_start \<or>
      (\<exists>m. w_log (snd demo_sale) = w_log demo_start @ [Notified ''warning'' m])))"
    using demo_log_length by (auto simp: demo_start_def)
  moreover have "w_log (snd demo_sale) \<noteq> []" using demo_log_length by auto
  ultimately show ?thesis by (blast dest: acts_only_when_armed)
qed

end
