(* ===== verification/Resolver.thy ===== *)
theory Resolver
  imports Sales
begin

text \<open>
  Progress of the signature resolution: on a cluster that keeps answering, and
  settles the transaction while the executor still polls, the resolution ends
  with a verdict.
\<close>

declare rbind_eq_Inr [simp del]

section \<open>Answers\<close>

abbreviation status_at :: "services \<Rightarrow> string \<Rightarrow> nat \<Rightarrow> string res" where
  "status_at svc sig t \<equiv> rbind (svc_signature_status svc t sig) signature_status"

abbreviation valid_at :: "services \<Rightarrow> string \<Rightarrow> nat \<Rightarrow> bool res" where
  "valid_at svc b t \<equiv> rbind (svc_blockhash_valid svc t b) blockhash_valid"

abbreviation holdings_at :: "services \<Rightarrow> nat \<Rightarrow> TokenHolding list res" where
  "holdings_at svc t \<equiv> token_holdings (svc_token_accounts svc t)"

text \<open>
  The status and the balance are always answered; the validity of the blockhash
  is answered or fails as a service does, which the executor reads as valid.
\<close>

definition responsive :: "services \<Rightarrow> string \<Rightarrow> bool" where
  "responsive svc sig \<longleftrightarrow> (\<forall>t. is_Inr (status_at svc sig t)) \<and> (\<forall>t. is_Inr (holdings_at svc t)) \<and>
     (\<forall>b t. is_Inr (valid_at svc b t) \<or> (\<exists>m. valid_at svc b t = Inl (ExternalServiceError m)))"

text \<open>
  What a poll at time \<open>t\<close> would be told settles the transaction: it failed, it
  is confirmed and the balance is down, or it is unknown and its blockhash
  expired.
\<close>

definition conclusive :: "services \<Rightarrow> string \<Rightarrow> string option \<Rightarrow> string \<Rightarrow> int \<Rightarrow> nat \<Rightarrow> bool" where
  "conclusive svc sig bh mint left t \<longleftrightarrow>
     status_at svc sig t = Inr ''failed'' \<or>
     (status_at svc sig t = Inr ''confirmed'' \<and>
       (\<exists>hs. holdings_at svc (t + 1) = Inr hs \<and> amount_of (find_holding mint hs) \<le> left)) \<or>
     (status_at svc sig t = Inr ''unknown'' \<and> (\<exists>b. nonblank bh = Some b \<and> valid_at svc b (t + 1) = Inr False))"

section \<open>One poll\<close>

definition verdict :: "SignatureResolution res \<times> sys \<Rightarrow> bool" where
  "verdict p \<longleftrightarrow> (case fst p of Inl e \<Rightarrow> False | Inr r \<Rightarrow> sr_state r \<noteq> Sig_unresolved)"

lemma holding_now_at:
  assumes "holdings_at svc (w_tick s) = Inr hs"
  shows "holding_now svc mint s = (Inr (find_holding mint hs),
     s\<lparr>w_tick := w_tick s + 1, w_log := w_log s @ [Asked_holdings (Inr hs)]\<rparr>)"
  using assms by (simp add: holding_now_def holdings_now_def bind_def ask_logged_def ret_def)

lemma ask_blockhash_at:
  "valid_at svc b (w_tick s) = Inr v \<Longrightarrow>
     \<exists>s'. ask_blockhash svc b s = (Inr v, s') \<and> w_tick s' = w_tick s + 1"
  "valid_at svc b (w_tick s) = Inl (ExternalServiceError m) \<Longrightarrow>
     \<exists>s'. ask_blockhash svc b s = (Inr True, s') \<and> w_tick s' = w_tick s + 1"
  by (simp_all add: ask_blockhash_def catch_def ask_logged_def ret_def)

text \<open>A poll that is told something conclusive ends the loop.\<close>

lemma conclusive_poll:
  assumes "conclusive svc sig bh mint left (w_tick s)"
  shows "verdict (resolve_polls (Suc n) svc sig bh mint left detail s)"
  using assms unfolding conclusive_def
proof (elim disjE conjE exE)
  fix hs
  assume "status_at svc sig (w_tick s) = Inr ''confirmed''" "holdings_at svc (w_tick s + 1) = Inr hs"
    "amount_of (find_holding mint hs) \<le> left"
  then show ?thesis
    by (simp add: verdict_def bind_def ask_logged_def ret_def resolution_def holding_now_at)
next
  fix b
  assume st: "status_at svc sig (w_tick s) = Inr ''unknown''" and b: "nonblank bh = Some b"
    and v: "valid_at svc b (w_tick s + 1) = Inr False"
  let ?s = "s\<lparr>w_tick := w_tick s + 1, w_log := w_log s @ [Asked_status sig (Inr ''unknown'')]\<rparr>"
  obtain s' where "ask_blockhash svc b ?s = (Inr False, s')"
    using ask_blockhash_at(1) [where svc = svc and b = b and s = ?s] v by auto
  then show ?thesis using st b by (simp add: verdict_def bind_def ask_logged_def ret_def resolution_def)
qed (simp add: verdict_def bind_def ask_logged_def ret_def resolution_def)

text \<open>Any other poll gives a verdict as well, or leaves the rest of the polls to a later time.\<close>

lemma responsive_poll:
  assumes "responsive svc sig"
  shows "verdict (resolve_polls (Suc n) svc sig bh mint left detail s) \<or>
    (\<exists>d s'. w_tick s < w_tick s' \<and>
       resolve_polls (Suc n) svc sig bh mint left detail s = resolve_polls n svc sig bh mint left d s')"
proof -
  let ?later = "\<lambda>st. s\<lparr>w_tick := w_tick s + 1, w_log := w_log s @ [Asked_status sig (Inr st)]\<rparr>"
  obtain st where st: "status_at svc sig (w_tick s) = Inr st"
    using assms unfolding responsive_def is_Inr_iff by meson
  obtain hs where hs: "holdings_at svc (w_tick s + 1) = Inr hs"
    using assms unfolding responsive_def is_Inr_iff by meson
  consider (failed) "st = ''failed''" | (confirmed) "st = ''confirmed''"
    | (unknown) b where "st = ''unknown''" "nonblank bh = Some b"
    | (waiting) "st \<noteq> ''failed''" "st \<noteq> ''confirmed''" "(if st = ''unknown'' then nonblank bh else None) = None"
    by (cases "nonblank bh"; cases "st = ''failed''"; cases "st = ''confirmed''"; cases "st = ''unknown''") simp_all
  then show ?thesis
  proof cases
    case failed
    then show ?thesis using st by (simp add: verdict_def bind_def ask_logged_def ret_def resolution_def)
  next
    case confirmed
    then show ?thesis using st hs holding_now_at [of svc "?later st" hs mint]
      by (cases "amount_of (find_holding mint hs) \<le> left")
        (force simp: verdict_def bind_def ask_logged_def ret_def resolution_def)+
  next
    case unknown
    have "(\<exists>v. valid_at svc b (w_tick (?later st)) = Inr v) \<or>
        (\<exists>m. valid_at svc b (w_tick (?later st)) = Inl (ExternalServiceError m))"
      using assms unfolding responsive_def is_Inr_iff by blast
    then obtain v s' where "ask_blockhash svc b (?later st) = (Inr v, s')" "w_tick s' = w_tick s + 2"
      using ask_blockhash_at [where svc = svc and b = b and s = "?later st"] by fastforce
    then show ?thesis using st unknown
      by (cases v) (force simp: verdict_def bind_def ask_logged_def ret_def resolution_def)+
  next
    case waiting
    then have "resolve_polls (Suc n) svc sig bh mint left detail s =
        resolve_polls n svc sig bh mint left (''signature status is '' @ st) (?later st)"
      using st by (simp add: bind_def ask_logged_def)
    then show ?thesis by (intro disjI2 exI conjI) auto
  qed
qed

lemma polls_settle:
  assumes "responsive svc sig" and "\<And>t. T \<le> t \<Longrightarrow> conclusive svc sig bh mint left t" and "T \<le> w_tick s + n"
  shows "verdict (resolve_polls (Suc n) svc sig bh mint left detail s)"
  using assms(3)
proof (induction n arbitrary: s detail)
  case 0
  then show ?case using assms(2) conclusive_poll by fastforce
next
  case (Suc n)
  from responsive_poll [OF assms(1), of "Suc n" bh mint left detail s] show ?case
  proof (elim disjE exE conjE)
    fix d s'
    assume "w_tick s < w_tick s'" and "resolve_polls (Suc (Suc n)) svc sig bh mint left detail s =
        resolve_polls (Suc n) svc sig bh mint left d s'"
    then show ?thesis using Suc.IH [of s' d] Suc.prems by simp
  qed
qed

section \<open>The resolution\<close>

text \<open>
  C17 (liveness). A resolution ends with a verdict: if the status and the
  balance are answered, and within the next 49 questions the cluster comes to
  what settles the transaction and stays there (failed on chain, confirmed with
  the balance down, or unknown with the blockhash expired), then
  \<open>_resolve_signature\<close> returns dead or confirmed and not unresolved.
\<close>

theorem resolution_ends_with_a_verdict:
  assumes "responsive svc sig" and "\<forall>t \<ge> T. conclusive svc sig bh mint left t" and "T \<le> w_tick s + 49"
  shows "\<exists>r s'. resolve_signature svc sig bh mint left s = (Inr r, s') \<and> sr_state r \<noteq> Sig_unresolved"
proof -
  have polls: "RESOLUTION_POLL_ATTEMPTS = Suc 49" by (simp add: RESOLUTION_POLL_ATTEMPTS_def)
  have "verdict (resolve_signature svc sig bh mint left s)"
    unfolding resolve_signature_def polls by (rule polls_settle) (use assms in auto)
  then show ?thesis by (cases "resolve_signature svc sig bh mint left s") (auto simp: verdict_def split: sum.splits)
qed

text \<open>A cluster that reports the transaction as failed from the tenth question on.\<close>

definition late_failure :: services where
  "late_failure = demo_services\<lparr>
     svc_signature_status := (\<lambda>t sig. Inr (JObj [(''value'', JList [if t < 10 then JNull
       else JObj [(''err'', JStr ''slippage''), (''confirmationStatus'', JStr ''confirmed'')]])])),
     svc_token_accounts := (\<lambda>t program. Inr (JObj [(''value'', JList [])]))\<rparr>"

lemma late_failure_answers:
  "status_at late_failure sig t = (if t < 10 then Inr ''unknown'' else Inr ''failed'')"
  "holdings_at late_failure t = Inr []" "valid_at late_failure b t = Inr True"
  by (simp_all add: late_failure_def demo_services_def signature_status_def blockhash_valid_def token_holdings_def
      value_list_def jget_def jget_or_def)

theorem resolution_ends_with_a_verdict_witness:
  "\<exists>r s'. resolve_signature late_failure ''SIG'' (Some ''HASH'') ''MINT'' 0 demo_start = (Inr r, s') \<and>
     sr_state r \<noteq> Sig_unresolved"
proof (rule resolution_ends_with_a_verdict [where T = 10])
  show "responsive late_failure ''SIG''" by (auto simp: responsive_def late_failure_answers is_Inr_iff)
qed (simp_all add: conclusive_def late_failure_answers demo_start_def)

end
