(* ===== verification/Reconcile.thy ===== *)
theory Reconcile
  imports Sales
begin

text \<open>
  What the engine does with exits that were pending when it started
  (\<open>joshibot/shitcoims_sentinel/engine.py\<close>, \<open>reconcile_pending_exits\<close> and the
  methods it calls): it settles, clears, holds or resumes every entry of the state
  file. The theorems say for which entries this keeps the executor's promise that a
  transaction in flight is on file, and show the entries for which it does not.
\<close>

section \<open>Reconciliation\<close>

definition TERMINAL_INTENT_STATUSES :: "string list" where
  "TERMINAL_INTENT_STATUSES = [''failed'']"

definition intent_reason :: "obj \<Rightarrow> string" where
  "intent_reason stored = text_or (jget ''reason'' stored) ''resume_pending_exit''"

definition intent_name :: "string \<Rightarrow> obj \<Rightarrow> string" where
  "intent_name mint stored = text_or (jget ''name'' stored) (take 8 mint)"

definition hold_terminal_intent :: "services \<Rightarrow> string \<Rightarrow> obj \<Rightarrow> string \<Rightarrow> unit io" where
  "hold_terminal_intent svc mint stored name =
     (if truthy (jget ''resume_blocked_at'' stored) then ret ()
      else
        bind (gets (\<lambda>s. svc_clock svc (w_tick s))) (\<lambda>now.
        bind (save_pending svc mint (AList.update ''resume_blocked_at'' (JStamp (Aware now)) stored)) (\<lambda>_.
          notify svc ''critical'' (''PENDING EXIT NOT AUTO-RESUMED for '' @ name @
            '': the previous attempt failed and MANUAL ACTION REQUIRED was already sent. Sell by hand, or '' @
            ''acknowledge the intent before the sentinel will retry it.''))))"

text \<open>Whether the executor took over the entry of a bag that is gone.\<close>

definition settle_absent_holding :: "services \<Rightarrow> string \<Rightarrow> obj \<Rightarrow> string \<Rightarrow> bool io" where
  "settle_absent_holding svc mint stored name =
     (if \<not> truthy (jget ''signature'' stored) then ret False
      else bind (resolve_prior_submission svc mint name (intent_reason stored)) (\<lambda>settled.
             ret (settled \<noteq> None)))"

definition clear_pending_exit :: "services \<Rightarrow> string \<Rightarrow> string \<Rightarrow> unit io" where
  "clear_pending_exit svc mint message =
     bind (drop_pending svc mint) (\<lambda>_. notify svc ''warning'' message)"

definition resume_amount :: "obj \<Rightarrow> int option" where
  "resume_amount stored = int_of_json (jget ''sell_amount'' stored)"

definition blocks_resume :: "obj \<Rightarrow> bool" where
  "blocks_resume stored \<longleftrightarrow>
     text_or (jget ''status'' stored) [] \<in> set TERMINAL_INTENT_STATUSES \<and>
     jget ''operator_resume_ack'' stored \<noteq> JBool True"

definition unexecutable :: "obj \<Rightarrow> TokenHolding \<Rightarrow> bool" where
  "unexecutable stored holding \<longleftrightarrow>
     (case resume_amount stored of None \<Rightarrow> False | Some n \<Rightarrow> \<not> (0 < n \<and> n \<le> th_amount holding)) \<and>
     \<not> truthy (jget ''signature'' stored)"

definition resume_entry :: "services \<Rightarrow> exec_config \<Rightarrow> string \<Rightarrow> obj \<Rightarrow> string \<Rightarrow> TokenHolding \<Rightarrow> unit io" where
  "resume_entry svc cfg mint stored name holding =
     bind (notify svc ''critical'' (''Resuming pending shitcoims exit for '' @ name)) (\<lambda>_.
     bind (sell svc cfg mint name (intent_reason stored) holding (resume_amount stored) None) (\<lambda>result.
       if er_status result = ''skipped''
       then clear_pending_exit svc mint (''Cleared pending exit for '' @ name @
              '': the executor skipped it and it will not be retried automatically'')
       else ret ()))"

text \<open>One turn of the loop over the pending exits.\<close>

definition reconcile_entry ::
  "services \<Rightarrow> exec_config \<Rightarrow> TokenHolding list \<Rightarrow> string \<Rightarrow> json \<Rightarrow> unit io" where
  "reconcile_entry svc cfg holdings mint entry =
     (case obj_of entry of
        None \<Rightarrow> drop_pending svc mint
      | Some stored \<Rightarrow>
          let name = intent_name mint stored
          in case find_holding mint (rev holdings) of
               None \<Rightarrow>
                 bind (settle_absent_holding svc mint stored name) (\<lambda>settled.
                   if settled then ret ()
                   else bind (drop_pending svc mint) (\<lambda>_.
                          notify svc ''info'' (''Cleared completed pending exit for '' @ name)))
             | Some holding \<Rightarrow>
                 if blocks_resume stored then hold_terminal_intent svc mint stored name
                 else if unexecutable stored holding
                 then clear_pending_exit svc mint (''Cleared unexecutable pending exit for '' @ name @
                        '': intent wanted '' @ int_text (the (resume_amount stored)) @ '' of '' @
                        int_text (th_amount holding) @ '' held'')
                 else resume_entry svc cfg mint stored name holding)"

fun reconcile_entries :: "services \<Rightarrow> exec_config \<Rightarrow> TokenHolding list \<Rightarrow> obj \<Rightarrow> unit io" where
  "reconcile_entries svc cfg holdings [] = ret ()"
| "reconcile_entries svc cfg holdings ((mint, entry) # rest) =
     bind (reconcile_entry svc cfg holdings mint entry) (\<lambda>_. reconcile_entries svc cfg holdings rest)"

definition reconcile_pending_exits :: "services \<Rightarrow> exec_config \<Rightarrow> unit io" where
  "reconcile_pending_exits svc cfg =
     bind (db_get svc [''pending_exits''] (JObj [])) (\<lambda>pending.
       case obj_of pending of
         None \<Rightarrow> ret ()
       | Some entries \<Rightarrow>
           if entries = [] then ret ()
           else bind (holdings_now svc) (\<lambda>holdings. reconcile_entries svc cfg holdings entries))"

section \<open>What it keeps\<close>

text \<open>
  The entry does not carry a signature together with an amount that the bag no
  longer has: the case in which the executor refuses the amount before it looks
  at the signature.
\<close>

definition resumable :: "obj \<Rightarrow> TokenHolding list \<Rightarrow> string \<Rightarrow> bool" where
  "resumable stored holdings mint \<longleftrightarrow>
     (case (find_holding mint (rev holdings), resume_amount stored) of
        (Some h, Some n) \<Rightarrow> truthy (jget ''signature'' stored) \<longrightarrow> 0 < n \<and> n \<le> th_amount h
      | (Some h, None) \<Rightarrow> 0 < th_amount h
      | (None, _) \<Rightarrow> True)"

lemma on_file_idle:
  assumes "hist ok mint d0 s" "store_get 0 (pending_path mint) JNull (w_disk s) = Inr entry"
    "carries_signature entry = None"
  shows "calm ok mint d0 (\<lambda>_. True) s"
  using assms by (intro hist_idle) (auto simp: stored_submission_def)

lemma not_carrying:
  "obj_of entry = None \<Longrightarrow> carries_signature entry = None"
  "\<not> truthy (jget ''signature'' stored) \<Longrightarrow> carries_signature (JObj stored) = None"
  "blocks_resume stored \<Longrightarrow> carries_signature (JObj stored) = None"
  by (auto simp: carries_signature_def blocks_resume_def text_or_def TERMINAL_INTENT_STATUSES_def
      UNRESOLVED_STATUSES_def split: option.splits if_splits)

abbreviation on_file :: "(submission \<Rightarrow> evidence \<Rightarrow> bool) \<Rightarrow> string \<Rightarrow> disk \<Rightarrow> json \<Rightarrow> sys \<Rightarrow> bool" where
  "on_file ok mint d0 entry \<equiv> (\<lambda>s. hist ok mint d0 s \<and> store_get 0 (pending_path mint) JNull (w_disk s) = Inr entry)"

lemma calm_True_stable: "stable (calm ok mint d0 (\<lambda>_. True))"
  by (rule stable_calm) simp

lemma spec_calm_hist:
  assumes "spec (calm ok mint d0 (\<lambda>_. True)) m (\<lambda>_. calm ok mint d0 (\<lambda>_. True)) (calm ok mint d0 (\<lambda>_. True))"
    and "\<And>s. P s \<Longrightarrow> calm ok mint d0 (\<lambda>_. True) s"
  shows "spec P m (\<lambda>_. hist ok mint d0) (hist ok mint d0)"
  by (rule spec_weaken [OF assms(1)]) (use assms(2) in \<open>auto simp: calm_def\<close>)

lemma drop_and_notify_spec:
  "spec (calm ok mint d0 (\<lambda>_. True)) (bind (drop_pending svc m) (\<lambda>_. notify svc sev msg))
     (\<lambda>_. calm ok mint d0 (\<lambda>_. True)) (calm ok mint d0 (\<lambda>_. True))"
  by (rule spec_bind [OF spec_drop_pending spec_notify [OF calm_True_stable]]) simp

lemma hold_spec:
  "spec (calm ok mint d0 (\<lambda>_. True)) (hold_terminal_intent svc m stored name)
     (\<lambda>_. calm ok mint d0 (\<lambda>_. True)) (calm ok mint d0 (\<lambda>_. True))"
  unfolding hold_terminal_intent_def
  apply (rule spec_if, rule spec_ret, assumption)
  apply (rule spec_bind [where R = "\<lambda>_. calm ok mint d0 (\<lambda>_. True)"], rule spec_gets, assumption)
  apply (rule spec_bind [OF spec_save_calm spec_notify [OF calm_True_stable]], simp)
  done

lemma settle_absent_spec:
  "spec (on_file ok mint d0 (JObj stored)) (settle_absent_holding svc mint stored name)
     (\<lambda>b s. hist ok mint d0 s \<and> (\<not> b \<longrightarrow> calm ok mint d0 (\<lambda>_. True) s)) (hist ok mint d0)"
  unfolding settle_absent_holding_def
proof (rule spec_if)
  assume "\<not> truthy (jget ''signature'' stored)"
  then show "spec (on_file ok mint d0 (JObj stored)) (ret False)
      (\<lambda>b s. hist ok mint d0 s \<and> (\<not> b \<longrightarrow> calm ok mint d0 (\<lambda>_. True) s)) (hist ok mint d0)"
    by (intro spec_ret) (auto intro: on_file_idle not_carrying)
next
  have "spec (on_file ok mint d0 (JObj stored)) (resolve_prior_submission svc mint name (intent_reason stored))
      (attempt_post (calm ok mint d0 (\<lambda>_. True)) ok mint d0) (hist ok mint d0)"
    by (rule spec_pre [OF resolve_prior_spec]) simp
  then show "spec (on_file ok mint d0 (JObj stored))
      (bind (resolve_prior_submission svc mint name (intent_reason stored)) (\<lambda>settled. ret (settled \<noteq> None)))
      (\<lambda>b s. hist ok mint d0 s \<and> (\<not> b \<longrightarrow> calm ok mint d0 (\<lambda>_. True) s)) (hist ok mint d0)"
    by (rule spec_bind)
      (auto intro!: spec_ret simp: attempt_post_def outcome_def calm_def split: option.splits)
qed

lemma resume_spec:
  assumes svc: "signs_nonempty svc"
    and "0 < requested_amount holding (resume_amount stored)"
    and "requested_amount holding (resume_amount stored) \<le> th_amount holding"
  shows "spec (hist (\<lambda>_ _. True) mint d0) (resume_entry svc cfg mint stored name holding)
    (\<lambda>_. hist (\<lambda>_ _. True) mint d0) (hist (\<lambda>_ _. True) mint d0)"
proof -
  let ?H = "hist (\<lambda>_ _. True) mint d0"
  have sale: "spec ?H (sell svc cfg mint name (intent_reason stored) holding (resume_amount stored) None)
      (outcome (\<lambda>_ _. True) mint d0) ?H"
    using assms(2,3) by (intro sell_valid_spec svc) (auto simp: requested_amount_def)
  have clear: "spec (outcome (\<lambda>_ _. True) mint d0 r) (clear_pending_exit svc mint msg) (\<lambda>_. ?H) ?H"
    if "er_status r = ''skipped''" for r msg
    unfolding clear_pending_exit_def
    by (rule spec_calm_hist [OF drop_and_notify_spec]) (use that in \<open>auto simp: outcome_def calm_def\<close>)
  show ?thesis
    unfolding resume_entry_def
    apply (rule spec_bind [OF spec_notify [OF stable_hist]], rule spec_bind [OF sale], rule spec_if)
     apply (rule clear, assumption)
    apply (rule spec_ret, simp add: outcome_def)
    done
qed

lemma reconcile_entry_spec:
  assumes "signs_nonempty svc" and "\<And>stored. entry = JObj stored \<Longrightarrow> resumable stored holdings mint"
  shows "spec (on_file (\<lambda>_ _. True) mint d0 entry) (reconcile_entry svc cfg holdings mint entry)
    (\<lambda>_. hist (\<lambda>_ _. True) mint d0) (hist (\<lambda>_ _. True) mint d0)"
proof (cases "obj_of entry")
  case None
  then show ?thesis
    unfolding reconcile_entry_def
    by (simp, intro spec_calm_hist [OF spec_drop_pending]) (auto intro: on_file_idle not_carrying)
next
  case (Some stored)
  then have e: "entry = JObj stored" by simp
  show ?thesis
  proof (cases "find_holding mint (rev holdings)")
    case None
    show ?thesis
      unfolding reconcile_entry_def e Let_def obj_of.simps option.case None
      apply (rule spec_bind [OF settle_absent_spec], rule spec_if, rule spec_ret, simp)
      apply (rule spec_calm_hist [OF drop_and_notify_spec], simp)
      done
  next
    case (Some h)
    have valid: "0 < requested_amount h (resume_amount stored) \<and>
        requested_amount h (resume_amount stored) \<le> th_amount h" if "\<not> unexecutable stored h"
      using assms(2) [OF e] Some that
      by (auto simp: resumable_def unexecutable_def requested_amount_def split: option.splits)
    show ?thesis
      unfolding reconcile_entry_def e Let_def obj_of.simps option.case Some
      apply (rule spec_if)
       apply (rule spec_calm_hist [OF hold_spec], auto intro: on_file_idle not_carrying)[1]
      apply (rule spec_if)
       apply (unfold clear_pending_exit_def)[1]
       apply (rule spec_calm_hist [OF drop_and_notify_spec],
          auto intro: on_file_idle not_carrying simp: unexecutable_def)[1]
      apply (rule spec_pre [OF resume_spec [OF assms(1)]])
      using valid apply auto
      done
  qed
qed

text \<open>
  C14 (safety). Reconciling a pending exit at startup keeps the executor's
  promise: unless the entry carries a signature with an amount that the bag no
  longer holds, whatever the engine does with the entry (settle it, clear it, hold
  it for the operator or resume the sale) leaves a history in which every
  transaction in flight is the one on file, and no exit was broadcast over another.
\<close>

theorem reconcile_keeps_the_promise:
  assumes "sale_history mint d0 (w_log s)" and "w_disk s = disk_after d0 (w_log s)" and "signs_nonempty svc"
    and "store_get 0 (pending_path mint) JNull (w_disk s) = Inr entry"
    and "case obj_of entry of None \<Rightarrow> True | Some stored \<Rightarrow> resumable stored holdings mint"
    and "reconcile_entry svc cfg holdings mint entry s = (r, s')"
  shows "(\<forall>sb. in_flight mint (w_log s') sb \<longrightarrow> stored_submission mint (w_disk s') = Some sb) \<and>
    (\<forall>a sb e b. w_log s' = a @ Executed sb e # b \<longrightarrow> ev_mint e = mint \<longrightarrow> (\<forall>sb'. \<not> in_flight mint a sb'))"
proof -
  have "on_file (\<lambda>_ _. True) mint d0 entry s"
    using sale_history_safe [OF assms(1)] assms(2,4) by (simp add: hist_def)
  moreover have "resumable stored holdings mint" if "entry = JObj stored" for stored
    using assms(5) that by simp
  ultimately have "hist (\<lambda>_ _. True) mint d0 s'"
    using spec_hist [OF reconcile_entry_spec [OF assms(3), of entry holdings mint] _ assms(6)] by blast
  then show ?thesis by (auto simp: hist_in_flight, auto simp: hist_def safe_history_def)
qed

theorem reconcile_keeps_the_promise_witness:
  "\<exists>a sb prior s'. in_flight ''MINT'' a sb \<and>
     store_get 0 (pending_path ''MINT'') JNull (disk_after Missing a) = Inr (JObj prior) \<and>
     snd (reconcile_entry demo_services demo_config [] ''MINT'' (JObj prior)
       (demo_start\<lparr>w_log := a, w_disk := disk_after Missing a\<rparr>)) = s' \<and>
     (\<forall>sb'. in_flight ''MINT'' (w_log s') sb' \<longrightarrow> stored_submission ''MINT'' (w_disk s') = Some sb')"
proof -
  from demo_executes obtain a sb e b where "w_log (snd demo_sale) = (a @ [Executed sb e]) @ b" by auto
  note run = this
  then have m: "ev_mint e = ''MINT''" using broadcast_mints_set [of sb e "w_log (snd demo_sale)"] demo_mints by simp
  note hist = history_prefix [OF demo_history run]
  let ?a = "a @ [Executed sb e]"
  let ?s = "demo_start\<lparr>w_log := ?a, w_disk := disk_after Missing ?a\<rparr>"
  have f: "in_flight ''MINT'' ?a sb" using m by (auto simp: in_flight_def settles_def)
  then have "stored_submission ''MINT'' (disk_after Missing ?a) = Some sb"
    using sale_history_safe [OF hist] unfolding safe_history_def by blast
  then obtain entry prior where
    p: "store_get 0 (pending_path ''MINT'') JNull (disk_after Missing ?a) = Inr entry" "carries_signature entry = Some prior"
    by (auto simp: stored_submission_def bind_eq_Some_conv split: sum.splits)
  have g: "store_get 0 (pending_path ''MINT'') JNull (disk_after Missing ?a) = Inr (JObj prior)"
    using p carries_signature_Some by simp
  let ?r = "reconcile_entry demo_services demo_config [] ''MINT'' (JObj prior) ?s"
  have "reconcile_entry demo_services demo_config [] ''MINT'' (JObj prior) ?s = (fst ?r, snd ?r)" by simp
  from reconcile_keeps_the_promise [OF _ _ demo_signs _ _ this, of Missing] hist g
  have "\<forall>sb'. in_flight ''MINT'' (w_log (snd ?r)) sb' \<longrightarrow> stored_submission ''MINT'' (w_disk (snd ?r)) = Some sb'"
    by (simp add: resumable_def find_holding_def)
  then show ?thesis using f g by blast
qed

section \<open>What it loses\<close>

lemma bind_eq_Inr: "bind m f s = (Inr v, s') \<longleftrightarrow> (\<exists>x s1. m s = (Inr x, s1) \<and> f x s1 = (Inr v, s'))"
  by (auto simp: bind_def split: prod.splits sum.splits)

text \<open>
  C15 (error). An entry that carries a signature with an amount larger than the
  bag (a partial exit of more than half that landed while the process was down
  leaves exactly this) is deleted by the resume: the executor skips the amount
  before it looks at the signature, and the engine clears what the executor
  skipped. No status is asked, no trade is booked, and the signature is gone from
  the state file.
\<close>

theorem resume_forgets_the_signature:
  assumes "find_holding mint (rev holdings) = Some h" and "resume_amount stored = Some n" and "th_amount h < n"
    and "\<not> blocks_resume stored" and "truthy (jget ''signature'' stored)"
    and "reconcile_entry svc cfg holdings mint (JObj stored) s = (Inr u, s')"
  shows "store_get 0 (pending_path mint) JNull (w_disk s') = Inr JNull \<and>
    (\<exists>d m1 m2 m3. w_log s' = w_log s @ [Notified ''critical'' m1, Notified ''warning'' m2, Wrote d, Notified ''warning'' m3])"
proof -
  have "\<not> unexecutable stored h" using assms(5) by (simp add: unexecutable_def)
  then have run: "resume_entry svc cfg mint stored (intent_name mint stored) h s = (Inr u, s')"
    using assms(1,4,6) by (simp add: reconcile_entry_def)
  let ?skipped = "sell svc cfg mint (intent_name mint stored) (intent_reason stored) h (Some n) None"
  have skip: "?skipped = bind (notify svc ''warning'' (''SELL SKIPPED: '' @ intent_name mint stored @ '' requested '' @
      int_text n @ '' of '' @ int_text (th_amount h))) (\<lambda>_. ret (result_of ''skipped'' None 0 (''SELL SKIPPED: '' @
      intent_name mint stored @ '' requested '' @ int_text n @ '' of '' @ int_text (th_amount h)) 0 None))"
    using assms(3) by (simp only: sell_def Let_def option.case) simp
  from run obtain s1 s2 s3 m1 m2 m3 u1 u2 u3 where
    steps: "notify svc ''critical'' m1 s = (Inr u1, s1)" "notify svc ''warning'' m2 s1 = (Inr u2, s2)"
      "drop_pending svc mint s2 = (Inr u3, s3)" "notify svc ''warning'' m3 s3 = (Inr u, s')"
    unfolding resume_entry_def assms(2) skip bind_eq_Inr clear_pending_exit_def
    by (auto simp only: result_of_def ExecutionResult.simps ret_def prod.inject sum.inject bind_eq_Inr simp_thms if_True if_False)
  from steps(3) obtain d where d: "store_delete (svc_clock svc (w_tick s2)) (pending_path mint) (w_disk s2) = Inr d"
      "s3 = s2\<lparr>w_disk := d, w_log := w_log s2 @ [Wrote d]\<rparr>"
    by (auto simp: drop_pending_def db_def split: sum.splits)
  have "store_get 0 (pending_path mint) JNull d = Inr JNull"
    by (rule store_get_delete [OF pending_path_safe d(1)])
  then show ?thesis
    using steps(1,2,4) d(2) by (auto simp: notify_def ask_logged_def)
qed

text \<open>
  An exit of eight of thirteen units was submitted and landed while the process was
  down: the wallet holds the five the sale was to leave, and the entry still names
  the signature \<open>SIG\<close>.
\<close>

definition demo_entry :: obj where
  "demo_entry = [(''status'', JStr ''submitted_unconfirmed''), (''signature'', JStr ''SIG''), (''name'', JStr ''bag''),
     (''reason'', JStr ''exit_scale''), (''sell_amount'', JInt 8), (''expected_remaining'', JInt 5),
     (''recent_blockhash'', JStr ''BLOCKHASH'')]"

definition demo_restart :: sys where
  "demo_restart = demo_start\<lparr>w_disk := projr (store_set 0 (pending_path ''MINT'') (JObj demo_entry) Missing)\<rparr>"

lemma demo_entry_stored:
  "stored_submission ''MINT'' (w_disk demo_restart) =
     Some \<lparr> sub_signature = ''SIG'', sub_blockhash = Some ''BLOCKHASH'', sub_remaining = 5 \<rparr>"
  by code_simp

lemma demo_resume_returns:
  "is_Inr (fst (reconcile_entry demo_services demo_config [demo_holding] ''MINT'' (JObj demo_entry) demo_restart))"
  by code_simp

theorem resume_forgets_the_signature_witness:
  "stored_submission ''MINT'' (w_disk demo_restart) =
     Some \<lparr> sub_signature = ''SIG'', sub_blockhash = Some ''BLOCKHASH'', sub_remaining = 5 \<rparr> \<and>
   store_get 0 (pending_path ''MINT'') JNull
     (w_disk (snd (reconcile_entry demo_services demo_config [demo_holding] ''MINT'' (JObj demo_entry) demo_restart))) =
     Inr JNull"
proof -
  let ?r = "reconcile_entry demo_services demo_config [demo_holding] ''MINT'' (JObj demo_entry) demo_restart"
  obtain u where "?r = (Inr u, snd ?r)"
    using demo_resume_returns by (cases "fst ?r"; cases ?r) (auto simp: is_Inr_def)
  from resume_forgets_the_signature [OF _ _ _ _ _ this, of demo_holding 8] demo_entry_stored show ?thesis
    by (simp add: find_holding_def demo_holding_def demo_entry_def resume_amount_def jget_def blocks_resume_def
        text_or_def TERMINAL_INTENT_STATUSES_def)
qed

end
