(* ===== verification/Basis.thy ===== *)
theory Basis
  imports Clients "HOL-Library.Product_Lexorder"
begin

text \<open>
  What a bag cost (\<open>joshibot/shitcoims_sentinel/engine.py\<close>,
  \<open>reconstruct_observed_basis\<close> and the functions it calls): the wallet's own
  confirmed transactions of a mint are walked backwards until the lot opens, and
  the SOL that left the wallet for the tokens is added up. The answers of the RPC
  are two functions, one for the history of a token account and one for a
  transaction; each account and each signature is asked for once.
\<close>

section \<open>The observed basis\<close>

definition OBSERVED_BASIS_MAX_SIGNATURES :: int where "OBSERVED_BASIS_MAX_SIGNATURES = 100"
definition OBSERVED_BASIS_MAX_TRANSACTIONS :: int where "OBSERVED_BASIS_MAX_TRANSACTIONS = 40"

record ObservedBasis =
  ob_mint :: string
  lamports_spent :: int
  base_units_acquired :: int
  ob_decimals :: nat
  ob_signatures :: "string list"

text \<open>The checks of \<open>__post_init__\<close>; decimals are never negative here.\<close>

definition observed_basis :: "string \<Rightarrow> int \<Rightarrow> int \<Rightarrow> nat \<Rightarrow> string list \<Rightarrow> ObservedBasis res" where
  "observed_basis mint lamports acquired dec sigs =
     (if lamports \<le> 0 \<or> acquired \<le> 0
      then Inl (ValueError ''observed basis requires a positive SOL outflow and token inflow'')
      else if sigs = [] then Inl (ValueError ''observed basis requires at least one acquiring signature'')
      else Inr \<lparr> ob_mint = mint, lamports_spent = lamports, base_units_acquired = acquired, ob_decimals = dec,
                 ob_signatures = sigs \<rparr>)"

definition ui_amount_acquired :: "ObservedBasis \<Rightarrow> decimal" where
  "ui_amount_acquired b = ddiv (of_int (base_units_acquired b)) (10 ^ ob_decimals b)"

definition total_sol :: "ObservedBasis \<Rightarrow> decimal" where
  "total_sol b = ddiv (of_int (lamports_spent b)) (of_int LAMPORTS_PER_SOL)"

definition basis_unit_price_sol :: "ObservedBasis \<Rightarrow> decimal" where
  "basis_unit_price_sol b = ddiv (total_sol b) (ui_amount_acquired b)"

section \<open>One transaction\<close>

definition field_obj :: "string \<Rightarrow> obj \<Rightarrow> obj" where
  "field_obj k m = (case obj_of (jget k m) of Some x \<Rightarrow> x | None \<Rightarrow> [])"

fun list_of :: "json \<Rightarrow> json list" where
  "list_of (JList xs) = xs"
| "list_of _ = []"

text \<open>\<open>isinstance(v, int)\<close>, which holds of the booleans too.\<close>

fun as_int :: "json \<Rightarrow> int option" where
  "as_int (JInt i) = Some i"
| "as_int (JBool b) = Some (if b then 1 else 0)"
| "as_int _ = None"

definition account_keys_of :: "obj \<Rightarrow> string list" where
  "account_keys_of transaction =
     map (\<lambda>key. case obj_of key of Some m \<Rightarrow> json_text (jget ''pubkey'' m) | None \<Rightarrow> json_text key)
       (list_of (jget ''accountKeys'' (field_obj ''message'' (field_obj ''transaction'' transaction))))"

definition key_of_index :: "string list \<Rightarrow> json \<Rightarrow> string option" where
  "key_of_index keys v =
     (case as_int v of
        Some i \<Rightarrow> if 0 \<le> i \<and> i < int (length keys) then Some (keys ! nat i) else None
      | None \<Rightarrow> None)"

definition counts_entry :: "string list \<Rightarrow> string \<Rightarrow> string \<Rightarrow> string list \<Rightarrow> obj \<Rightarrow> bool" where
  "counts_entry keys owner mint token_accounts entry \<longleftrightarrow>
     json_text (jget ''mint'' entry) = mint \<and>
     (if jget ''owner'' entry \<noteq> JNull then json_text (jget ''owner'' entry) = owner
      else case key_of_index keys (jget ''accountIndex'' entry) of
             None \<Rightarrow> False | Some k \<Rightarrow> k \<in> set token_accounts)"

definition entry_amount :: "obj \<Rightarrow> int res" where
  "entry_amount entry =
     (let amount = jget ''uiTokenAmount'' entry
      in if \<not> truthy amount then Inl (KeyError ''amount'')
         else case obj_of amount of
                None \<Rightarrow> Inl (TypeError ''uiTokenAmount'')
              | Some m \<Rightarrow> (case map_of m ''amount'' of None \<Rightarrow> Inl (KeyError ''amount'') | Some v \<Rightarrow> int_value v))"

definition balance_side :: "string list \<Rightarrow> string \<Rightarrow> string \<Rightarrow> string list \<Rightarrow> json \<Rightarrow> int res" where
  "balance_side keys owner mint token_accounts entries =
     rfold (\<lambda>entry total.
         case obj_of entry of
           None \<Rightarrow> Inr total
         | Some m \<Rightarrow>
             if counts_entry keys owner mint token_accounts m
             then rbind (entry_amount m) (\<lambda>n. Inr (total + n)) else Inr total)
       (list_of entries) 0"

definition wallet_token_delta :: "obj \<Rightarrow> string \<Rightarrow> string \<Rightarrow> string list \<Rightarrow> int res" where
  "wallet_token_delta transaction owner mint token_accounts =
     (let meta = field_obj ''meta'' transaction; keys = account_keys_of transaction;
          side = balance_side keys owner mint token_accounts
      in rbind (side (jget ''postTokenBalances'' meta)) (\<lambda>post.
         rbind (side (jget ''preTokenBalances'' meta)) (\<lambda>pre. Inr (post - pre))))"

fun index_of :: "'a list \<Rightarrow> 'a \<Rightarrow> nat" where
  "index_of [] x = 0"
| "index_of (y # ys) x = (if y = x then 0 else Suc (index_of ys x))"

definition wallet_lamport_outflow :: "obj \<Rightarrow> string \<Rightarrow> int option res" where
  "wallet_lamport_outflow transaction owner =
     (let meta = field_obj ''meta'' transaction; keys = account_keys_of transaction; i = index_of keys owner
      in if owner \<notin> set keys then Inr None
         else case (jget ''preBalances'' meta, jget ''postBalances'' meta) of
                (JList pre, JList post) \<Rightarrow>
                  if length pre \<le> i \<or> length post \<le> i then Inr None
                  else rbind (int_value (pre ! i)) (\<lambda>before.
                       rbind (int_value (post ! i)) (\<lambda>after.
                       rbind (if hd keys = owner
                              then int_value (let fee = jget ''fee'' meta in if truthy fee then fee else JInt 0)
                              else Inr 0) (\<lambda>fee. Inr (Some (before - after - fee)))))
              | _ \<Rightarrow> Inr None)"

section \<open>The history\<close>

text \<open>Successful signatures with their slots, each with the slot it was first seen with.\<close>

definition note_signature :: "json \<Rightarrow> (string \<times> int) list \<Rightarrow> (string \<times> int) list" where
  "note_signature entry slots =
     (case obj_of entry of
        None \<Rightarrow> slots
      | Some m \<Rightarrow>
          if jget ''err'' m \<noteq> JNull then slots
          else let sig = (if truthy (jget ''signature'' m) then json_text (jget ''signature'' m) else [])
               in (case as_int (jget ''slot'' m) of
                     None \<Rightarrow> slots
                   | Some slot \<Rightarrow> if sig = [] \<or> map_of slots sig \<noteq> None then slots else slots @ [(sig, slot)]))"

definition confirmed_signatures :: "(string \<Rightarrow> json res) \<Rightarrow> string list \<Rightarrow> (int \<times> string) list res" where
  "confirmed_signatures history token_accounts =
     rbind (rfold (\<lambda>account slots.
              rbind (history account) (\<lambda>result.
                case result of
                  JList entries \<Rightarrow> Inr (fold note_signature entries slots)
                | _ \<Rightarrow> Inl (ExternalServiceError ''Helius returned malformed signature history'')))
            token_accounts [])
       (\<lambda>slots. Inr (rev (sort (map (\<lambda>(sig, slot). (slot, sig)) slots))))"

record basis_walk =
  bw_running :: int
  bw_acquired :: int
  bw_lamports :: int
  bw_used :: "string list"

text \<open>One transaction of the walk: a reason to give up, or the walk after it.\<close>

definition walk_step ::
  "(string \<Rightarrow> json res) \<Rightarrow> string \<Rightarrow> TokenHolding \<Rightarrow> string \<Rightarrow> basis_walk \<Rightarrow> (string + basis_walk) res" where
  "walk_step get_transaction owner holding sig w =
     rbind (get_transaction sig) (\<lambda>answer.
       case obj_of answer of
         None \<Rightarrow> Inr (Inl (''transaction '' @ take 8 sig @ '' is unavailable''))
       | Some transaction \<Rightarrow>
           (case rbind (wallet_token_delta transaction owner (th_mint holding) (th_token_accounts holding)) (\<lambda>delta.
                 rbind (wallet_lamport_outflow transaction owner) (\<lambda>outflow. Inr (delta, outflow))) of
              Inl e \<Rightarrow> if parse_error e then Inr (Inl (''transaction '' @ take 8 sig @ '' could not be parsed'')) else Inl e
            | Inr (delta, outflow) \<Rightarrow>
                let opening = bw_running w - delta
                in if opening < 0
                   then Inr (Inl ''token balance history is inconsistent with the current holding'')
                   else if 0 < delta then
                     (case outflow of
                        None \<Rightarrow> Inr (Inl (''transaction '' @ take 8 sig @ '' does not debit this wallet''))
                      | Some paid \<Rightarrow>
                          if paid \<le> 0
                          then Inr (Inl ''tokens were acquired without a SOL payment (transfer or airdrop)'')
                          else Inr (Inr (w\<lparr>bw_running := opening, bw_acquired := bw_acquired w + delta,
                                 bw_lamports := bw_lamports w + paid, bw_used := bw_used w @ [sig]\<rparr>)))
                   else Inr (Inr (w\<lparr>bw_running := opening\<rparr>))))"

fun walk_back ::
  "(string \<Rightarrow> json res) \<Rightarrow> string \<Rightarrow> TokenHolding \<Rightarrow> nat \<Rightarrow> (int \<times> string) list \<Rightarrow> basis_walk \<Rightarrow>
   (string + basis_walk) res" where
  "walk_back get_transaction owner holding seen [] w =
     Inr (Inl (''lot start not reached within '' @ int_text (int seen) @ '' inspected transaction(s)''))"
| "walk_back get_transaction owner holding seen ((slot, sig) # rest) w =
     rbind (walk_step get_transaction owner holding sig w) (\<lambda>r.
       case r of
         Inl reason \<Rightarrow> Inr (Inl reason)
       | Inr w' \<Rightarrow>
           if bw_running w' = 0 then Inr (Inr w')
           else walk_back get_transaction owner holding seen rest w')"

definition reconstruct_observed_basis ::
  "(string \<Rightarrow> json res) \<Rightarrow> (string \<Rightarrow> json res) \<Rightarrow> string \<Rightarrow> TokenHolding \<Rightarrow> int \<Rightarrow>
   (ObservedBasis option \<times> string) res" where
  "reconstruct_observed_basis history get_transaction owner holding max_transactions =
     (if th_amount holding \<le> 0 then Inr (None, ''holding is empty'')
      else if th_token_accounts holding = [] then Inr (None, ''wallet has no token account for this mint'')
      else
        rbind (confirmed_signatures history (th_token_accounts holding)) (\<lambda>sigs.
          if sigs = [] then Inr (None, ''no confirmed transaction history for this token account'')
          else
            let window = take (nat (max 1 max_transactions)) sigs
            in rbind (walk_back get_transaction owner holding (length window) window
                       \<lparr> bw_running = th_amount holding, bw_acquired = 0, bw_lamports = 0, bw_used = [] \<rparr>) (\<lambda>r.
                 case r of
                   Inl reason \<Rightarrow> Inr (None, reason)
                 | Inr w \<Rightarrow>
                     if bw_acquired w < th_amount holding
                     then Inr (None, ''observed buys do not cover the current holding'')
                     else rbind (observed_basis (th_mint holding) (bw_lamports w) (bw_acquired w) (th_decimals holding)
                                  (bw_used w)) (\<lambda>b.
                            Inr (Some b, int_text (int (length (bw_used w))) @ '' observed buy(s)'')))))"

section \<open>What the basis is made of\<close>

text \<open>
  What a transaction is known to have moved: the change of the wallet's balance in
  the mint and the lamports that left the wallet.
\<close>

definition move_of :: "(string \<Rightarrow> json res) \<Rightarrow> string \<Rightarrow> TokenHolding \<Rightarrow> string \<Rightarrow> (int \<times> int option) option" where
  "move_of get_transaction owner holding sig =
     (case get_transaction sig of
        Inr (JObj transaction) \<Rightarrow>
          (case (wallet_token_delta transaction owner (th_mint holding) (th_token_accounts holding),
                 wallet_lamport_outflow transaction owner) of
             (Inr delta, Inr outflow) \<Rightarrow> Some (delta, outflow)
           | _ \<Rightarrow> None)
      | _ \<Rightarrow> None)"

definition moved :: "(string \<Rightarrow> json res) \<Rightarrow> string \<Rightarrow> TokenHolding \<Rightarrow> string \<Rightarrow> int" where
  "moved get_transaction owner holding sig =
     (case move_of get_transaction owner holding sig of Some (delta, outflow) \<Rightarrow> delta | None \<Rightarrow> 0)"

definition paid_for :: "(string \<Rightarrow> json res) \<Rightarrow> string \<Rightarrow> TokenHolding \<Rightarrow> string \<Rightarrow> int" where
  "paid_for get_transaction owner holding sig =
     (case move_of get_transaction owner holding sig of Some (delta, Some paid) \<Rightarrow> paid | _ \<Rightarrow> 0)"

lemma walk_step_Inr:
  assumes "walk_step tx owner holding sig w = Inr (Inr w')"
  shows "move_of tx owner holding sig \<noteq> None \<and> bw_running w' = bw_running w - moved tx owner holding sig \<and>
    0 \<le> bw_running w' \<and>
    (if 0 < moved tx owner holding sig
     then 0 < paid_for tx owner holding sig \<and> bw_acquired w' = bw_acquired w + moved tx owner holding sig \<and>
       bw_lamports w' = bw_lamports w + paid_for tx owner holding sig \<and> bw_used w' = bw_used w @ [sig]
     else bw_acquired w' = bw_acquired w \<and> bw_lamports w' = bw_lamports w \<and> bw_used w' = bw_used w)"
proof -
  obtain t where t: "tx sig = Inr (JObj t)"
    using assms by (auto simp: walk_step_def split: option.splits)
  obtain delta outflow where m: "wallet_token_delta t owner (th_mint holding) (th_token_accounts holding) = Inr delta"
      "wallet_lamport_outflow t owner = Inr outflow"
    using assms t
    by (cases "wallet_token_delta t owner (th_mint holding) (th_token_accounts holding)";
        cases "wallet_lamport_outflow t owner") (auto simp: walk_step_def split: if_splits)
  then have "move_of tx owner holding sig = Some (delta, outflow)" using t by (simp add: move_of_def)
  then show ?thesis
    using assms t m by (auto simp: walk_step_def Let_def moved_def paid_for_def split: if_splits option.splits)
qed

text \<open>The transactions of a lot, newest first, of a bag that now holds \<open>n\<close>.\<close>

definition opens_lot :: "(string \<Rightarrow> int) \<Rightarrow> int \<Rightarrow> string list \<Rightarrow> bool" where
  "opens_lot f n lot \<longleftrightarrow> sum_list (map f lot) = n \<and>
     (\<forall>a b. lot = a @ b \<and> a \<noteq> [] \<and> b \<noteq> [] \<longrightarrow> sum_list (map f a) < n)"

lemma opens_lot_single: "f x = n \<Longrightarrow> opens_lot f n [x]"
  by (auto simp: opens_lot_def Cons_eq_append_conv)

lemma opens_lot_Cons:
  assumes "opens_lot f (n - f x) lot" and "f x < n"
  shows "opens_lot f n (x # lot)"
  unfolding opens_lot_def
proof (intro conjI allI impI)
  show "sum_list (map f (x # lot)) = n" using assms(1) by (simp add: opens_lot_def)
  fix a b assume s: "x # lot = a @ b \<and> a \<noteq> [] \<and> b \<noteq> []"
  then obtain a' where a: "a = x # a'" "lot = a' @ b" by (auto simp: Cons_eq_append_conv)
  show "sum_list (map f a) < n"
  proof (cases "a' = []")
    case False
    then have "sum_list (map f a') < n - f x" using assms(1) a s by (auto simp: opens_lot_def)
    then show ?thesis using a by simp
  qed (use assms(2) a in simp)
qed

lemma walk_back_Inr:
  assumes "walk_back tx owner holding seen xs w = Inr (Inr w')" and "0 < bw_running w"
  shows "\<exists>lot rest. map snd xs = lot @ rest \<and> (\<forall>s \<in> set lot. move_of tx owner holding s \<noteq> None) \<and>
    opens_lot (moved tx owner holding) (bw_running w) lot \<and>
    (let buys = filter (\<lambda>s. 0 < moved tx owner holding s) lot in
       (\<forall>s \<in> set buys. 0 < paid_for tx owner holding s) \<and>
       bw_acquired w' = bw_acquired w + sum_list (map (moved tx owner holding) buys) \<and>
       bw_lamports w' = bw_lamports w + sum_list (map (paid_for tx owner holding) buys) \<and>
       bw_used w' = bw_used w @ buys)"
  using assms
proof (induction tx owner holding seen xs w rule: walk_back.induct)
  case (2 tx owner holding seen slot sig rest w)
  from 2(2) obtain r where r: "walk_step tx owner holding sig w = Inr r" by auto
  with 2(2) obtain w1 where w1: "walk_step tx owner holding sig w = Inr (Inr w1)" by (cases r) simp_all
  note st = walk_step_Inr [OF w1]
  show ?case
  proof (cases "bw_running w1 = 0")
    case True
    then have "w' = w1" using 2(2) w1 by simp
    moreover have "opens_lot (moved tx owner holding) (bw_running w) [sig]"
      by (rule opens_lot_single) (use st True in simp)
    ultimately show ?thesis using st by (intro exI [of _ "[sig]"] exI [of _ "map snd rest"]) (auto simp: Let_def split: if_splits)
  next
    case False
    then have run: "walk_back tx owner holding seen rest w1 = Inr (Inr w')" "0 < bw_running w1"
      using 2(2) w1 st by simp_all
    from 2(1) [OF False run] obtain lot rest' where ih: "map snd rest = lot @ rest'"
      "\<forall>s \<in> set lot. move_of tx owner holding s \<noteq> None"
      "opens_lot (moved tx owner holding) (bw_running w1) lot"
      "\<forall>s \<in> set (filter (\<lambda>s. 0 < moved tx owner holding s) lot). 0 < paid_for tx owner holding s"
      "bw_acquired w' = bw_acquired w1 + sum_list (map (moved tx owner holding) (filter (\<lambda>s. 0 < moved tx owner holding s) lot))"
      "bw_lamports w' = bw_lamports w1 + sum_list (map (paid_for tx owner holding) (filter (\<lambda>s. 0 < moved tx owner holding s) lot))"
      "bw_used w' = bw_used w1 @ filter (\<lambda>s. 0 < moved tx owner holding s) lot"
      by (auto simp: Let_def)
    have "opens_lot (moved tx owner holding) (bw_running w) (sig # lot)"
      by (rule opens_lot_Cons) (use ih(3) st run(2) in simp_all)
    then show ?thesis using st ih
      by (intro exI [of _ "sig # lot"] exI [of _ rest']) (auto simp: Let_def split: if_splits)
  qed
qed simp

text \<open>
  What a basis is made of, in the order of the walk: the first transactions of the sorted
  history back to the one before which the balance comes out as zero.
\<close>

lemma basis_of_the_walk:
  assumes "reconstruct_observed_basis history tx owner holding max_transactions = Inr (Some b, reason)"
    and "confirmed_signatures history (th_token_accounts holding) = Inr sigs"
  shows "\<exists>lot rest. map snd (take (nat (max 1 max_transactions)) sigs) = lot @ rest \<and>
    (\<forall>s \<in> set lot. move_of tx owner holding s \<noteq> None) \<and> opens_lot (moved tx owner holding) (th_amount holding) lot \<and>
    ob_signatures b = filter (\<lambda>s. 0 < moved tx owner holding s) lot \<and>
    (\<forall>s \<in> set (ob_signatures b). 0 < paid_for tx owner holding s) \<and>
    base_units_acquired b = sum_list (map (moved tx owner holding) (ob_signatures b)) \<and>
    lamports_spent b = sum_list (map (paid_for tx owner holding) (ob_signatures b)) \<and>
    th_amount holding \<le> base_units_acquired b \<and> 0 < lamports_spent b"
proof -
  let ?window = "take (nat (max 1 max_transactions)) sigs"
  let ?start = "\<lparr> bw_running = th_amount holding, bw_acquired = 0, bw_lamports = 0, bw_used = [] \<rparr>"
  have pos: "0 < th_amount holding" using assms by (auto simp: reconstruct_observed_basis_def split: if_splits)
  obtain r where r: "walk_back tx owner holding (length ?window) ?window ?start = Inr r"
    using assms by (auto simp: reconstruct_observed_basis_def Let_def split: if_split_asm)
  obtain w where w: "walk_back tx owner holding (length ?window) ?window ?start = Inr (Inr w)"
      "th_amount holding \<le> bw_acquired w" "observed_basis (th_mint holding) (bw_lamports w) (bw_acquired w) (th_decimals holding) (bw_used w) = Inr b"
    using assms r by (cases r) (auto simp: reconstruct_observed_basis_def Let_def split: if_split_asm)
  have b: "lamports_spent b = bw_lamports w" "base_units_acquired b = bw_acquired w" "ob_signatures b = bw_used w"
      "0 < bw_lamports w"
    using w(3) by (auto simp: observed_basis_def split: if_splits)
  have "0 < bw_running ?start" using pos by simp
  from walk_back_Inr [OF w(1) this] obtain lot rest where l: "map snd ?window = lot @ rest"
    "\<forall>s \<in> set lot. move_of tx owner holding s \<noteq> None" "opens_lot (moved tx owner holding) (th_amount holding) lot"
    "\<forall>s \<in> set (filter (\<lambda>s. 0 < moved tx owner holding s) lot). 0 < paid_for tx owner holding s"
    "bw_acquired w = sum_list (map (moved tx owner holding) (filter (\<lambda>s. 0 < moved tx owner holding s) lot))"
    "bw_lamports w = sum_list (map (paid_for tx owner holding) (filter (\<lambda>s. 0 < moved tx owner holding s) lot))"
    "bw_used w = filter (\<lambda>s. 0 < moved tx owner holding s) lot"
    by (auto simp: Let_def)
  show ?thesis using l b w(2) by (intro exI [of _ lot] exI [of _ rest]) simp
qed

text \<open>
  The walk meets the transactions in the order of their slots, and within one slot in that
  of their signatures. Where no two of them share a slot this is the order of the chain.
\<close>

lemma note_signature_distinct: "distinct (map fst slots) \<Longrightarrow> distinct (map fst (note_signature e slots))"
  by (auto simp: note_signature_def Let_def map_of_eq_None_iff split: option.splits)

lemma note_signatures_distinct: "distinct (map fst slots) \<Longrightarrow> distinct (map fst (fold note_signature es slots))"
  by (induction es arbitrary: slots) (simp_all add: note_signature_distinct)

lemma walk_in_chain_order:
  assumes "confirmed_signatures history as = Inr sigs"
    and chain: "sorted_wrt (\<lambda>x y. fst y < fst x) chain" "set chain = set sigs"
  shows "sigs = chain"
proof -
  obtain slots where slots: "distinct (map fst slots)" "sigs = rev (sort (map (\<lambda>(sig, slot). (slot, sig)) slots))"
  proof -
    obtain slots where s: "rfold (\<lambda>account slots. rbind (history account) (\<lambda>result. case result of
          JList entries \<Rightarrow> Inr (fold note_signature entries slots)
        | _ \<Rightarrow> Inl (ExternalServiceError ''Helius returned malformed signature history''))) as [] = Inr slots"
        "sigs = rev (sort (map (\<lambda>(sig, slot). (slot, sig)) slots))"
      using assms(1) by (auto simp: confirmed_signatures_def rbind_eq_Inr)
    have "distinct (map fst slots)"
    proof (rule rfold_invariant [OF s(1)])
      fix a :: string and r r' :: "(string \<times> int) list"
      assume d: "distinct (map fst r)" and step: "rbind (history a) (\<lambda>result. case result of
          JList entries \<Rightarrow> Inr (fold note_signature entries r)
        | _ \<Rightarrow> Inl (ExternalServiceError ''Helius returned malformed signature history'')) = Inr r'"
      then obtain v where v: "history a = Inr v" by (cases "history a") auto
      then show "distinct (map fst r')" using step note_signatures_distinct [OF d] by (cases v) auto
    qed simp
    then show ?thesis using that s(2) by blast
  qed
  have "distinct (map (\<lambda>(sig, slot). (slot, sig)) slots)"
    using slots(1) by (auto simp: distinct_map inj_on_def)
  then have sigs: "sorted (rev sigs)" "distinct (rev sigs)" unfolding slots(2) by simp_all
  have "sorted_wrt (\<lambda>x y. y \<le> x) chain"
    using chain(1) by (rule sorted_wrt_mono_rel [rotated]) (simp add: less_eq_prod_def)
  then have "sorted (rev chain)" by (simp add: sorted_wrt_rev)
  moreover have "sorted_wrt (\<lambda>x y. x \<noteq> y) chain"
    using chain(1) by (rule sorted_wrt_mono_rel [rotated]) auto
  then have "distinct chain" by (induction chain) auto
  then have "distinct (rev chain)" by simp
  ultimately have "rev sigs = rev chain" using sigs chain(2) by (intro sorted_distinct_set_unique) simp_all
  then show ?thesis by simp
qed

text \<open>
  C12 (functional). An observed basis is what this wallet paid for the lot it
  holds, if no two transactions of the history share a slot. Let the chain be these transactions, newest
  first. The lot is made of its newest transactions, at most as many as may be inspected, back to the
  one before which the balance was zero (and no later one); the basis counts
  exactly those of the lot that raised the balance, each of which took SOL from the wallet, and
  its lamports and units are their sums, at least as many units as are held.
\<close>

theorem basis_is_what_the_lot_paid:
  assumes "reconstruct_observed_basis history tx owner holding max_transactions = Inr (Some b, reason)"
    and "confirmed_signatures history (th_token_accounts holding) = Inr sigs"
    and "sorted_wrt (\<lambda>x y. fst y < fst x) chain" and "set chain = set sigs"
  shows "\<exists>lot rest. map snd chain = lot @ rest \<and> length lot \<le> nat (max 1 max_transactions) \<and>
    (\<forall>s \<in> set lot. move_of tx owner holding s \<noteq> None) \<and> opens_lot (moved tx owner holding) (th_amount holding) lot \<and>
    ob_signatures b = filter (\<lambda>s. 0 < moved tx owner holding s) lot \<and>
    (\<forall>s \<in> set (ob_signatures b). 0 < paid_for tx owner holding s) \<and>
    base_units_acquired b = sum_list (map (moved tx owner holding) (ob_signatures b)) \<and>
    lamports_spent b = sum_list (map (paid_for tx owner holding) (ob_signatures b)) \<and>
    th_amount holding \<le> base_units_acquired b \<and> 0 < lamports_spent b"
proof -
  let ?k = "nat (max 1 max_transactions)"
  have sigs: "sigs = chain" by (rule walk_in_chain_order [OF assms(2-4)])
  obtain lot rest where l: "map snd (take ?k sigs) = lot @ rest"
    "(\<forall>s \<in> set lot. move_of tx owner holding s \<noteq> None) \<and> opens_lot (moved tx owner holding) (th_amount holding) lot \<and>
    ob_signatures b = filter (\<lambda>s. 0 < moved tx owner holding s) lot \<and>
    (\<forall>s \<in> set (ob_signatures b). 0 < paid_for tx owner holding s) \<and>
    base_units_acquired b = sum_list (map (moved tx owner holding) (ob_signatures b)) \<and>
    lamports_spent b = sum_list (map (paid_for tx owner holding) (ob_signatures b)) \<and>
    th_amount holding \<le> base_units_acquired b \<and> 0 < lamports_spent b"
    using basis_of_the_walk [OF assms(1,2)] by blast
  have "map snd chain = lot @ (rest @ map snd (drop ?k chain))"
    using l(1) unfolding sigs by (metis append.assoc append_take_drop_id map_append)
  moreover have "length lot \<le> length (take ?k chain)" using arg_cong [OF l(1), of length] unfolding sigs by simp
  then have "length lot \<le> ?k" by simp
  ultimately show ?thesis using l(2) by blast
qed

section \<open>Two lots in one slot\<close>

text \<open>
  A wallet that bought seven units in slot 1 for 7000 lamports, sold all of them in
  slot 5, and in the same slot bought the ten units it holds for 1000. The
  transaction of the sale and that of the second purchase have the given signatures.
\<close>

definition sample_transaction :: "int \<Rightarrow> int \<Rightarrow> int \<Rightarrow> int \<Rightarrow> json" where
  "sample_transaction units_before units_after lamports_before lamports_after =
     (let balance = (\<lambda>n. JList [JObj [(''mint'', JStr ''M''), (''owner'', JStr ''W''),
                (''uiTokenAmount'', JObj [(''amount'', JInt n)])]])
      in JObj [(''transaction'', JObj [(''message'', JObj [(''accountKeys'', JList [JStr ''W''])])]),
           (''meta'', JObj [(''fee'', JInt 0), (''preBalances'', JList [JInt lamports_before]),
              (''postBalances'', JList [JInt lamports_after]), (''preTokenBalances'', balance units_before),
              (''postTokenBalances'', balance units_after)])])"

definition sample_transactions :: "string \<Rightarrow> string \<Rightarrow> string \<Rightarrow> json res" where
  "sample_transactions sale rebuy sig =
     (if sig = sale then Inr (sample_transaction 7 0 1000 3000)
      else if sig = rebuy then Inr (sample_transaction 0 10 3000 2000)
      else Inr (sample_transaction 0 7 8000 1000))"

definition sample_history :: "string \<Rightarrow> string \<Rightarrow> string \<Rightarrow> json res" where
  "sample_history sale rebuy account =
     (let entry = (\<lambda>sig slot. JObj [(''signature'', JStr sig), (''slot'', JInt slot)])
      in Inr (JList [entry rebuy 5, entry sale 5, entry ''first'' 1]))"

definition sample_bag :: TokenHolding where
  "sample_bag = \<lparr> th_mint = ''M'', th_amount = 10, th_decimals = 0, th_token_accounts = [''A''], th_program_ids = [] \<rparr>"

definition sample_basis :: "string \<Rightarrow> string \<Rightarrow> (int \<times> int \<times> string list) option" where
  "sample_basis sale rebuy =
     (case reconstruct_observed_basis (sample_history sale rebuy) (sample_transactions sale rebuy) ''W'' sample_bag 40 of
        Inr (Some b, reason) \<Rightarrow> Some (lamports_spent b, base_units_acquired b, ob_signatures b)
      | _ \<Rightarrow> None)"

text \<open>
  Within one slot the walk follows the alphabet, not the chain: the
  signatures are sorted by slot and then by their text. The same three transactions
  give the basis of the lot that is held, 1000 lamports for 10 units, when the
  purchase has the greater signature, and when it has the smaller one the walk meets
  the sale first, runs past the opening of the lot into the previous one and reports
  8000 lamports for 17 units.
\<close>

lemma same_slot_order_merges_lots:
  "sample_basis ''aSale'' ''zBuy'' = Some (1000, 10, [''zBuy'']) \<and>
   sample_basis ''zSale'' ''aBuy'' = Some (8000, 17, [''aBuy'', ''first''])"
  by code_simp

text \<open>With the sale one slot before the purchase, the same signatures give the basis of the lot.\<close>

definition apart_history :: "string \<Rightarrow> json res" where
  "apart_history account =
     (let entry = (\<lambda>sig slot. JObj [(''signature'', JStr sig), (''slot'', JInt slot)])
      in Inr (JList [entry ''aBuy'' 6, entry ''zSale'' 5, entry ''first'' 1]))"

theorem basis_is_what_the_lot_paid_witness:
  "\<exists>b reason. reconstruct_observed_basis apart_history (sample_transactions ''zSale'' ''aBuy'') ''W'' sample_bag 40 =
     Inr (Some b, reason) \<and> lamports_spent b = 1000 \<and>
     (\<exists>lot rest. [''aBuy'', ''zSale'', ''first''] = lot @ rest \<and>
        opens_lot (moved (sample_transactions ''zSale'' ''aBuy'') ''W'' sample_bag) 10 lot)"
proof -
  let ?r = "reconstruct_observed_basis apart_history (sample_transactions ''zSale'' ''aBuy'') ''W'' sample_bag 40"
  let ?chain = "[(6, ''aBuy''), (5, ''zSale''), (1, ''first'')] :: (int \<times> string) list"
  have "case ?r of Inr (Some b, reason) \<Rightarrow> lamports_spent b = 1000 | _ \<Rightarrow> False" by code_simp
  then obtain b reason where b: "?r = Inr (Some b, reason)" "lamports_spent b = 1000" by (auto split: sum.splits option.splits)
  have "confirmed_signatures apart_history (th_token_accounts sample_bag) = Inr ?chain" by code_simp
  from basis_is_what_the_lot_paid [OF b(1) this, of ?chain] b show ?thesis by (auto simp: sample_bag_def)
qed

end
