(* ===== verification/Rug.thy ===== *)
theory Rug
  imports Lots
begin

text \<open>
  The rug detector (\<open>joshibot/shitcoims_sentinel/rug_detector.py\<close>): it
  compares this poll's pool, mint and exit quote with the baselines the last
  poll recorded in the state file.
\<close>

section \<open>Definitions\<close>

text \<open>The thresholds of \<open>RugConfig\<close> the detector reads, each as \<open>Decimal(str(x))\<close>.\<close>

record RugConfig =
  liquidity_drop_pct :: decimal
  mint_supply_growth_pct :: decimal
  active_mint_liquidity_drop_pct :: decimal
  quote_collapse_pct :: decimal

text \<open>\<open>Decimal(str(v))\<close> of a stored value.\<close>

fun decimal_of_json :: "json \<Rightarrow> decimal res" where
  "decimal_of_json (JDec d) = Inr d"
| "decimal_of_json (JInt i) = Inr (of_int i)"
| "decimal_of_json (JReal r) = Inr r"
| "decimal_of_json _ = Inl (OtherError ''decimal.InvalidOperation'')"

text \<open>\<open>v.get(k)\<close> of a value that should be a dict.\<close>

definition dict_get :: "json \<Rightarrow> string \<Rightarrow> json res" where
  "dict_get v k = (case obj_of v of Some m \<Rightarrow> Inr (jget k m)
                                  | None \<Rightarrow> Inl (OtherError ''AttributeError''))"

text \<open>The pinned pair is the value whose text \<open>pinned_pair\<close> returns.\<close>

definition pinned_pair :: "int \<Rightarrow> string \<Rightarrow> disk \<Rightarrow> json option res" where
  "pinned_pair now mint f =
     rbind (store_get now [''pool_baselines'', mint] (JObj []) f) (\<lambda>baseline.
     rbind (dict_get baseline ''pair_address'') (\<lambda>v. Inr (if truthy v then Some v else None)))"

definition liquidity_drop :: "PoolSnapshot option \<Rightarrow> json \<Rightarrow> decimal option res" where
  "liquidity_drop pool previous_pool =
     (case pool of
        None \<Rightarrow> Inr None
      | Some p \<Rightarrow>
          rbind (dict_get previous_pool ''reserve_value'') (\<lambda>v.
            if v = JNull then Inr None
            else rbind (decimal_of_json v) (\<lambda>prior.
                 rbind (dict_get previous_pool ''pair_address'') (\<lambda>pair.
                 rbind (dict_get previous_pool ''reserve_unit'') (\<lambda>unit.
                   if 0 < prior \<and> pair = JStr (ps_pair_address p) \<and> unit = JStr (ps_reserve_unit p)
                   then Inr (Some (max 0 (dmul (dsub 1 (ddiv (ps_reserve_value p) prior)) 100)))
                   else Inr None)))))"

definition supply_growth :: "MintSafety option \<Rightarrow> json \<Rightarrow> decimal option res" where
  "supply_growth mint_safety previous_supply =
     (case mint_safety of
        None \<Rightarrow> Inr None
      | Some ms \<Rightarrow>
          if previous_supply = JNull then Inr None
          else case int_of_json previous_supply of
                 None \<Rightarrow> Inl (OtherError ''int() of a stored supply'')
               | Some prior \<Rightarrow>
                   if 0 < prior
                   then Inr (Some (dmul (dsub (ddiv (of_int (ms_supply ms)) (of_int prior)) 1) 100))
                   else Inr None)"

definition quote_collapse :: "TokenHolding \<Rightarrow> ExitQuote option \<Rightarrow> json \<Rightarrow> decimal option res" where
  "quote_collapse holding quote previous_quote =
     (case quote of
        None \<Rightarrow> Inr None
      | Some q \<Rightarrow>
          if previous_quote = JNull then Inr None
          else rbind (decimal_of_json previous_quote) (\<lambda>previous_unit.
               rbind (unit_price_sol q holding) (\<lambda>current_unit.
                 if 0 < previous_unit
                 then Inr (Some (max 0 (dmul (dsub 1 (ddiv current_unit previous_unit)) 100)))
                 else Inr None)))"

text \<open>A mint authority that is set and is not pump.fun's own.\<close>

definition active_mint :: "MintSafety option \<Rightarrow> bool" where
  "active_mint mint_safety =
     (case mint_safety of
        None \<Rightarrow> False
      | Some ms \<Rightarrow> ms_mint_authority ms \<noteq> None \<and> ms_mint_authority ms \<noteq> Some PUMP_MINT_AUTHORITY)"

fun at_least :: "decimal option \<Rightarrow> decimal \<Rightarrow> bool" where
  "at_least None t = False"
| "at_least (Some x) t = (t \<le> x)"

text \<open>The verdict on the three measurements.\<close>

definition rug_verdict ::
  "RugConfig \<Rightarrow> MintSafety option \<Rightarrow> decimal option \<Rightarrow> decimal option \<Rightarrow> decimal option \<Rightarrow> RugSignal" where
  "rug_verdict config mint_safety fall growth collapse =
     (if active_mint mint_safety \<and> at_least growth (mint_supply_growth_pct config)
      then \<lparr> rs_emergency = True, rs_reason = map_option Mint_supply_grew growth,
             rs_liquidity_drop_pct = fall, rs_supply_growth_pct = growth, rs_needs_confirmation = False \<rparr>
      else
        let active_mint_with_drop =
              (active_mint mint_safety \<and> at_least fall (active_mint_liquidity_drop_pct config));
            drained = at_least fall (liquidity_drop_pct config);
            exit_door_collapsed = at_least collapse (quote_collapse_pct config)
        in if (drained \<or> active_mint_with_drop) \<and> exit_door_collapsed
           then \<lparr> rs_emergency = True,
                  rs_reason = map_option (\<lambda>d. Pool_reserve_fell d active_mint_with_drop) fall,
                  rs_liquidity_drop_pct = fall, rs_supply_growth_pct = growth,
                  rs_needs_confirmation = True \<rparr>
           else \<lparr> rs_emergency = False, rs_reason = None, rs_liquidity_drop_pct = fall,
                  rs_supply_growth_pct = growth, rs_needs_confirmation = False \<rparr>)"

definition assess ::
  "RugConfig \<Rightarrow> int \<Rightarrow> disk \<Rightarrow> TokenHolding \<Rightarrow> PoolSnapshot option \<Rightarrow> MintSafety option \<Rightarrow>
   ExitQuote option \<Rightarrow> RugSignal res" where
  "assess config now f holding pool mint_safety quote =
     rbind (store_get now [''pool_baselines'', th_mint holding] (JObj []) f) (\<lambda>previous_pool.
     rbind (store_get now [''supply_baselines'', th_mint holding] JNull f) (\<lambda>previous_supply.
     rbind (store_get now [''quote_baselines'', th_mint holding] JNull f) (\<lambda>previous_quote.
     rbind (liquidity_drop pool previous_pool) (\<lambda>fall.
     rbind (supply_growth mint_safety previous_supply) (\<lambda>growth.
     rbind (quote_collapse holding quote previous_quote) (\<lambda>collapse.
       Inr (rug_verdict config mint_safety fall growth collapse)))))))"

definition pool_baseline :: "PoolSnapshot \<Rightarrow> json" where
  "pool_baseline p = JObj
     [(''pair_address'', JStr (ps_pair_address p)),
      (''dex_id'', JStr (ps_dex_id p)),
      (''reserve_value'', JDec (ps_reserve_value p)),
      (''reserve_unit'', JStr (ps_reserve_unit p)),
      (''liquidity_usd'', JDec (ps_liquidity_usd p)),
      (''observed_at'', JStamp (Aware (ps_observed_at p)))]"

definition record_baselines ::
  "int \<Rightarrow> TokenHolding \<Rightarrow> PoolSnapshot option \<Rightarrow> MintSafety option \<Rightarrow> ExitQuote option \<Rightarrow> disk \<Rightarrow> disk res" where
  "record_baselines now holding pool mint_safety quote f =
     rbind (case pool of
              None \<Rightarrow> Inr f
            | Some p \<Rightarrow> store_set now [''pool_baselines'', th_mint holding] (pool_baseline p) f) (\<lambda>f1.
     rbind (case mint_safety of
              None \<Rightarrow> Inr f1
            | Some ms \<Rightarrow> store_set now [''supply_baselines'', th_mint holding] (JInt (ms_supply ms)) f1) (\<lambda>f2.
     case quote of
       None \<Rightarrow> Inr f2
     | Some q \<Rightarrow> rbind (unit_price_sol q holding) (\<lambda>u.
                   store_set now [''quote_baselines'', th_mint holding] (JDec u) f2)))"

section \<open>Lemmas\<close>

lemma at_least_Some: "at_least x t \<longleftrightarrow> (\<exists>v. x = Some v \<and> t \<le> v)"
  by (cases x) auto

lemma rug_verdict_cases:
  "rs_emergency (rug_verdict config ms fall growth collapse) \<longleftrightarrow>
     active_mint ms \<and> at_least growth (mint_supply_growth_pct config) \<or>
     (at_least fall (liquidity_drop_pct config) \<or>
      active_mint ms \<and> at_least fall (active_mint_liquidity_drop_pct config)) \<and>
     at_least collapse (quote_collapse_pct config)"
  by (auto simp: rug_verdict_def Let_def)

text \<open>What is recorded under a key is what the detector reads back there.\<close>

lemma baseline_paths_safe [simp]:
  "safe_path [''pool_baselines'', m]" "safe_path [''supply_baselines'', m]" "safe_path [''quote_baselines'', m]"
  by (simp_all add: safe_path_def)

lemma record_readback:
  assumes "record_baselines now holding (Some p) (Some ms) (Some q) f = Inr f'"
  obtains u where "unit_price_sol q holding = Inr u"
    "store_get t [''pool_baselines'', th_mint holding] (JObj []) f' = Inr (pool_baseline p)"
    "store_get t [''supply_baselines'', th_mint holding] JNull f' = Inr (JInt (ms_supply ms))"
    "store_get t [''quote_baselines'', th_mint holding] JNull f' = Inr (JDec u)"
proof -
  from assms obtain f1 f2 u where
      s1: "store_set now [''pool_baselines'', th_mint holding] (pool_baseline p) f = Inr f1"
    and s2: "store_set now [''supply_baselines'', th_mint holding] (JInt (ms_supply ms)) f1 = Inr f2"
    and u: "unit_price_sol q holding = Inr u"
    and s3: "store_set now [''quote_baselines'', th_mint holding] (JDec u) f2 = Inr f'"
    by (auto simp: record_baselines_def)
  show thesis
  proof (rule that [OF u])
    show "store_get t [''pool_baselines'', th_mint holding] (JObj []) f' = Inr (pool_baseline p)"
      using sf.get_put [OF _ s1] sf.get_put_apart [OF _ _ _ s2] sf.get_put_apart [OF _ _ _ s3] by simp
    show "store_get t [''supply_baselines'', th_mint holding] JNull f' = Inr (JInt (ms_supply ms))"
      using sf.get_put [OF _ s2] sf.get_put_apart [OF _ _ _ s3] by simp
    show "store_get t [''quote_baselines'', th_mint holding] JNull f' = Inr (JDec u)"
      using sf.get_put [OF _ s3] by simp
  qed
qed

lemma rnd_1 [simp]: "rnd 1 = 1"
  by code_simp

lemma ddiv_self [simp]: "x \<noteq> 0 \<Longrightarrow> ddiv x x = 1"
  by (simp add: ddiv_def)

section \<open>What the detector promises\<close>

text \<open>
  C29 (safety). Missing data never becomes rug evidence. An emergency is either a
  supply growth measured between a recorded and a present supply of a mint with
  an active authority, or a collapse of the exit quote against a recorded one
  together with a reserve drop of the same pool in the same unit against its
  recorded baseline; the second kind asks for confirmation. A provider that
  returns nothing, or a first sighting, is never an emergency by itself.
\<close>

theorem emergency_needs_evidence:
  assumes "assess config now f holding pool mint_safety quote = Inr signal" and "rs_emergency signal"
  shows "(\<exists>ms prior growth. mint_safety = Some ms \<and> active_mint mint_safety \<and>
            store_get now [''supply_baselines'', th_mint holding] JNull f = Inr prior \<and> prior \<noteq> JNull \<and>
            supply_growth mint_safety prior = Inr (Some growth) \<and> mint_supply_growth_pct config \<le> growth) \<or>
         (\<exists>p q prior prior_unit fall collapse. pool = Some p \<and> quote = Some q \<and> rs_needs_confirmation signal \<and>
            store_get now [''pool_baselines'', th_mint holding] (JObj []) f = Inr (JObj prior) \<and>
            jget ''pair_address'' prior = JStr (ps_pair_address p) \<and>
            jget ''reserve_unit'' prior = JStr (ps_reserve_unit p) \<and>
            store_get now [''quote_baselines'', th_mint holding] JNull f = Inr prior_unit \<and> prior_unit \<noteq> JNull \<and>
            rs_liquidity_drop_pct signal = Some fall \<and>
            min (liquidity_drop_pct config) (active_mint_liquidity_drop_pct config) \<le> fall \<and>
            quote_collapse holding quote prior_unit = Inr (Some collapse) \<and>
            quote_collapse_pct config \<le> collapse)"
proof -
  from assms(1) obtain pp ps pq fall growth collapse where
      reads: "store_get now [''pool_baselines'', th_mint holding] (JObj []) f = Inr pp"
        "store_get now [''supply_baselines'', th_mint holding] JNull f = Inr ps"
        "store_get now [''quote_baselines'', th_mint holding] JNull f = Inr pq"
    and fall: "liquidity_drop pool pp = Inr fall" and growth: "supply_growth mint_safety ps = Inr growth"
    and collapse: "quote_collapse holding quote pq = Inr collapse"
    and signal: "signal = rug_verdict config mint_safety fall growth collapse"
    by (auto simp: assess_def)
  show ?thesis
  proof (cases "active_mint mint_safety \<and> at_least growth (mint_supply_growth_pct config)")
    case True
    then show ?thesis using reads(2) growth
      by (auto simp: at_least_Some supply_growth_def split: option.splits if_splits)
  next
    case False
    with assms(2) signal have hit: "at_least fall (liquidity_drop_pct config) \<or>
        active_mint mint_safety \<and> at_least fall (active_mint_liquidity_drop_pct config)"
      and door: "at_least collapse (quote_collapse_pct config)"
      by (auto simp: rug_verdict_cases)
    then obtain dv cv where dv: "fall = Some dv" and cv: "collapse = Some cv" "quote_collapse_pct config \<le> cv"
      by (auto simp: at_least_Some)
    from fall dv obtain p prior where p: "pool = Some p" "pp = JObj prior"
        "jget ''pair_address'' prior = JStr (ps_pair_address p)"
        "jget ''reserve_unit'' prior = JStr (ps_reserve_unit p)"
      by (auto simp: liquidity_drop_def dict_get_def split: option.splits if_splits)
    from collapse cv obtain q where q: "quote = Some q" "pq \<noteq> JNull"
      by (auto simp: quote_collapse_def split: option.splits if_splits)
    have "rs_needs_confirmation signal" "rs_liquidity_drop_pct signal = Some dv"
      using False hit door signal dv by (auto simp: rug_verdict_def Let_def)
    moreover have "min (liquidity_drop_pct config) (active_mint_liquidity_drop_pct config) \<le> dv"
      using hit dv by auto
    ultimately show ?thesis using p q reads cv collapse by auto
  qed
qed

definition sample_rug_config :: RugConfig where
  "sample_rug_config = \<lparr> liquidity_drop_pct = 50, mint_supply_growth_pct = 5,
     active_mint_liquidity_drop_pct = 25, quote_collapse_pct = 50 \<rparr>"

definition sample_safety :: "int \<Rightarrow> MintSafety" where
  "sample_safety supply = \<lparr> ms_mint_authority = Some ''dev'', ms_freeze_authority = None,
     ms_supply = supply, ms_decimals = 6, ms_token_program = TOKEN_PROGRAM \<rparr>"

definition sample_disk :: disk where
  "sample_disk = Content (JObj (AList.update ''supply_baselines'' (JObj [(th_mint sample_holding, JInt 100)]) (initial_state 0)))"

lemma sample_assess:
  "map_sum id rs_emergency (assess sample_rug_config 9 sample_disk sample_holding None (Some (sample_safety 110)) None) = Inr True"
  by code_simp

theorem emergency_needs_evidence_witness:
  "\<exists>ms prior growth. Some (sample_safety 110) = Some ms \<and>
     store_get 9 [''supply_baselines'', th_mint sample_holding] JNull sample_disk = Inr prior \<and> prior \<noteq> JNull \<and>
     supply_growth (Some (sample_safety 110)) prior = Inr (Some growth) \<and> 5 \<le> growth"
proof -
  obtain signal where s: "assess sample_rug_config 9 sample_disk sample_holding None (Some (sample_safety 110)) None = Inr signal"
    "rs_emergency signal"
    using sample_assess by (cases "assess sample_rug_config 9 sample_disk sample_holding None (Some (sample_safety 110)) None") auto
  from emergency_needs_evidence [OF s] show ?thesis by (auto simp: sample_rug_config_def)
qed

text \<open>
  A poll that records its observations and then sees the same
  pool, supply and quote again raises no alarm: the baselines written to the
  state file are the ones read back, and an unchanged market measures as zero
  fall, zero growth and zero collapse, below any positive threshold.
\<close>

lemma unchanged_market_is_no_rug:
  assumes rec: "record_baselines now holding (Some p) (Some ms) (Some q) f = Inr f'"
    and pos: "0 < ps_reserve_value p" "0 < ms_supply ms" "0 < eq_out_lamports q"
    and thresholds: "0 < liquidity_drop_pct config" "0 < mint_supply_growth_pct config"
      "0 < active_mint_liquidity_drop_pct config" "0 < quote_collapse_pct config"
  shows "\<exists>signal. assess config t f' holding (Some p) (Some ms) (Some q) = Inr signal \<and>
    \<not> rs_emergency signal \<and> rs_liquidity_drop_pct signal = Some 0 \<and> rs_supply_growth_pct signal = Some 0"
  using rec
proof (rule record_readback [where t = t])
  fix u
  assume u: "unit_price_sol q holding = Inr u"
    and reads: "store_get t [''pool_baselines'', th_mint holding] (JObj []) f' = Inr (pool_baseline p)"
      "store_get t [''supply_baselines'', th_mint holding] JNull f' = Inr (JInt (ms_supply ms))"
      "store_get t [''quote_baselines'', th_mint holding] JNull f' = Inr (JDec u)"
  have fall: "liquidity_drop (Some p) (pool_baseline p) = Inr (Some 0)"
    using pos(1) by (simp add: liquidity_drop_def pool_baseline_def dict_get_def jget_def dsub_def dmul_def)
  have growth: "supply_growth (Some ms) (JInt (ms_supply ms)) = Inr (Some 0)"
    using pos(2) by (simp add: supply_growth_def dsub_def dmul_def)
  obtain c where c: "quote_collapse holding (Some q) (JDec u) = Inr c" "c = None \<or> c = Some 0"
    using u by (cases "0 < u") (simp_all add: quote_collapse_def dsub_def dmul_def)
  show ?thesis
    using reads fall growth c thresholds
    by (auto simp: assess_def rug_verdict_cases rug_verdict_def Let_def)
qed

end
