(* ===== verification/Dex.thy ===== *)
theory Dex
  imports Clients Rug Rounding "HOL-Library.Product_Lexorder"
begin

text \<open>
  Market data (\<open>joshibot/shitcoims_sentinel/clients.py\<close>): how a pool is read from the
  JSON of DexScreener, which pool of a token is its primary one, and what is kept of
  the metadata of Pump.fun, of which the display fields are not modelled; HTTP and its
  retries are not.
\<close>

section \<open>Definitions\<close>

definition decimal_from :: "string \<Rightarrow> json \<Rightarrow> decimal res" where
  "decimal_from field v =
     (case decimal_of_json v of
        Inl e \<Rightarrow> Inl (ValueError (field @ '' must be a decimal number''))
      | Inr d \<Rightarrow> Inr d)"

text \<open>\<open>float(v)\<close>: a text that is no number raises, as do a dict and a list.\<close>

fun float_of_json :: "json \<Rightarrow> pyfloat res" where
  "float_of_json (JBool b) = Inr (if b then 1 else 0)"
| "float_of_json (JInt i) = Inr (float_of i)"
| "float_of_json (JReal r) = Inr r"
| "float_of_json (JDec d) = Inr (fl d)"
| "float_of_json (JStr s) = Inl (ValueError ''could not convert string to float'')"
| "float_of_json (JStamp t) = Inl (ValueError ''could not convert string to float'')"
| "float_of_json _ = Inl (TypeError ''float() argument must be a string or a real number'')"

text \<open>\<open>v or {}\<close>, then a method of dict on it.\<close>

definition dict_or_empty :: "json \<Rightarrow> obj res" where
  "dict_or_empty v =
     (if \<not> truthy v then Inr []
      else case obj_of v of Some m \<Rightarrow> Inr m | None \<Rightarrow> Inl (OtherError ''AttributeError''))"

definition pool_snapshot :: "int \<Rightarrow> obj \<Rightarrow> string \<Rightarrow> PoolSnapshot res" where
  "pool_snapshot now pair mint =
     reading (ExternalServiceError (''DexScreener returned malformed pool data for '' @ mint))
       (rbind (rbind (item ''baseToken'' (JObj pair)) (item ''address'')) (\<lambda>base.
        rbind (rbind (item ''quoteToken'' (JObj pair)) (item ''address'')) (\<lambda>quote.
        rbind (dict_or_empty (jget ''liquidity'' pair)) (\<lambda>liquidity.
        rbind (decimal_from ''liquidity.usd'' (jget_or ''usd'' (JInt 0) liquidity)) (\<lambda>usd.
        let base_mint = json_text base; quote_mint = json_text quote
        in rbind (if base_mint = WSOL_MINT
                  then rbind (decimal_from ''liquidity.base'' (jget_or ''base'' (JInt 0) liquidity))
                         (\<lambda>r. Inr (r, ''SOL''))
                  else if quote_mint = WSOL_MINT
                  then rbind (decimal_from ''liquidity.quote'' (jget_or ''quote'' (JInt 0) liquidity))
                         (\<lambda>r. Inr (r, ''SOL''))
                  else Inr (usd, ''USD'')) (\<lambda>(reserve, unit).
           rbind (item ''pairAddress'' (JObj pair)) (\<lambda>address.
           rbind (if jget ''priceNative'' pair = JNull then Inr None
                  else rbind (decimal_from ''priceNative'' (jget ''priceNative'' pair)) (\<lambda>d. Inr (Some d)))
             (\<lambda>price.
           let token = as_object (jget (if base_mint = mint then ''baseToken'' else ''quoteToken'') pair);
               named = (\<lambda>k. if truthy (jget k token) then Some (json_text (jget k token)) else None)
           in
             Inr \<lparr> ps_pair_address = json_text address,
                   ps_dex_id = json_text (jget_or ''dexId'' (JStr ''unknown'') pair),
                   ps_base_mint = base_mint, ps_quote_mint = quote_mint, ps_liquidity_usd = usd,
                   ps_reserve_value = reserve, ps_reserve_unit = unit, ps_price_native = price,
                   ps_observed_at = now, ps_token_name = named ''name'', ps_token_symbol = named ''symbol'' \<rparr>))))))))"

definition pair_mints :: "obj \<Rightarrow> string list res" where
  "pair_mints pair =
     rbind (dict_or_empty (jget ''baseToken'' pair)) (\<lambda>base.
     rbind (dict_or_empty (jget ''quoteToken'' pair)) (\<lambda>quote.
       Inr [json_text (jget ''address'' base), json_text (jget ''address'' quote)]))"

text \<open>An element that is no dict raises at its first \<open>get\<close>.\<close>

definition is_candidate :: "string \<Rightarrow> json \<Rightarrow> obj option res" where
  "is_candidate mint v =
     (case obj_of v of
        None \<Rightarrow> Inl (OtherError ''AttributeError'')
      | Some pair \<Rightarrow>
          if jget ''chainId'' pair \<noteq> JStr ''solana'' then Inr None
          else rbind (pair_mints pair) (\<lambda>mints. Inr (if mint \<in> set mints then Some pair else None)))"

fun candidates :: "string \<Rightarrow> json list \<Rightarrow> obj list res" where
  "candidates mint [] = Inr []"
| "candidates mint (v # vs) =
     rbind (is_candidate mint v) (\<lambda>c. rbind (candidates mint vs) (\<lambda>cs.
       Inr (case c of None \<Rightarrow> cs | Some pair \<Rightarrow> pair # cs)))"

definition pool_rank :: "obj \<Rightarrow> (pyfloat \<times> int) res" where
  "pool_rank pair =
     rbind (pair_mints pair) (\<lambda>mints.
     rbind (dict_or_empty (jget ''liquidity'' pair)) (\<lambda>liquidity.
     rbind (let usd = jget ''usd'' liquidity in float_of_json (if truthy usd then usd else JInt 0)) (\<lambda>usd.
       Inr (usd, if WSOL_MINT \<in> set mints then 1 else 0))))"

text \<open>\<open>max(pairs, key=rank)\<close>: the first of the pairs with the highest rank.\<close>

fun best_pool :: "obj \<times> (pyfloat \<times> int) \<Rightarrow> obj list \<Rightarrow> (obj \<times> (pyfloat \<times> int)) res" where
  "best_pool best [] = Inr best"
| "best_pool best (p # ps) =
     rbind (pool_rank p) (\<lambda>r. best_pool (if snd best < r then (p, r) else best) ps)"

definition discover_primary_pool :: "int \<Rightarrow> string \<Rightarrow> json \<Rightarrow> PoolSnapshot option res" where
  "discover_primary_pool now mint body =
     (case body of
        JList vs \<Rightarrow>
          rbind (candidates mint vs) (\<lambda>cs.
            case cs of
              [] \<Rightarrow> Inr None
            | p # ps \<Rightarrow>
                rbind (pool_rank p) (\<lambda>r.
                rbind (best_pool (p, r) ps) (\<lambda>best.
                rbind (pool_snapshot now (fst best) mint) (\<lambda>s. Inr (Some s)))))
      | _ \<Rightarrow> Inl (ExternalServiceError ''DexScreener token-pairs returned malformed data''))"

text \<open>The first of the pairs with the address; every element before and after it is looked at.\<close>

fun matching :: "string \<Rightarrow> json list \<Rightarrow> obj list res" where
  "matching address [] = Inr []"
| "matching address (v # vs) =
     (case obj_of v of
        None \<Rightarrow> Inl (OtherError ''AttributeError'')
      | Some pair \<Rightarrow> rbind (matching address vs) (\<lambda>ps.
          Inr (if json_text (jget ''pairAddress'' pair) = address then pair # ps else ps)))"

definition pool_of :: "int \<Rightarrow> string \<Rightarrow> string \<Rightarrow> json \<Rightarrow> PoolSnapshot option res" where
  "pool_of now mint pair_address body =
     (let pairs = (case obj_of body of Some m \<Rightarrow> jget ''pairs'' m | None \<Rightarrow> JNull)
      in if \<not> truthy pairs then Inr None
         else case pairs of
                JList vs \<Rightarrow>
                  rbind (matching pair_address vs) (\<lambda>ps.
                    case ps of [] \<Rightarrow> Inr None | p # _ \<Rightarrow> rbind (pool_snapshot now p mint) (\<lambda>s. Inr (Some s)))
              | JObj m \<Rightarrow> Inl (OtherError ''AttributeError'')
              | JStr s \<Rightarrow> Inl (OtherError ''AttributeError'')
              | JDec d \<Rightarrow> Inl (OtherError ''AttributeError'')
              | JStamp t \<Rightarrow> Inl (OtherError ''AttributeError'')
              | _ \<Rightarrow> Inl (TypeError ''object is not iterable''))"

text \<open>The metadata of a token, \<open>None\<close> for a response 404; of it the flag \<open>complete\<close>.\<close>

definition pump_token :: "string \<Rightarrow> json option \<Rightarrow> bool option option res" where
  "pump_token mint response =
     (case response of
        None \<Rightarrow> Inr None
      | Some body \<Rightarrow>
          let mismatch = Inl (ExternalServiceError ''Pump.fun metadata did not match the requested mint'')
          in case obj_of body of
               None \<Rightarrow> mismatch
             | Some m \<Rightarrow>
                 if json_text (jget ''mint'' m) \<noteq> mint then mismatch
                 else Inr (Some (case jget ''complete'' m of JBool b \<Rightarrow> Some b | _ \<Rightarrow> None)))"

section \<open>The primary pool\<close>

lemma best_pool_max:
  assumes "best_pool best ps = Inr b"
  shows "snd best \<le> snd b \<and> (\<forall>p \<in> set ps. \<exists>r. pool_rank p = Inr r \<and> r \<le> snd b) \<and>
    (b = best \<or> fst b \<in> set ps \<and> pool_rank (fst b) = Inr (snd b))"
  using assms
proof (induction ps arbitrary: best)
  case (Cons p ps)
  from Cons.prems obtain r where r: "pool_rank p = Inr r"
    and go: "best_pool (if snd best < r then (p, r) else best) ps = Inr b"
    by auto
  from Cons.IH [OF go] r show ?case
    by (cases "snd best < r") (auto intro: order_trans [of _ r] order_trans [of _ "snd best"] simp: not_less simp del: split_paired_Ex split_paired_All)
qed simp

lemma candidates_set:
  assumes "candidates mint vs = Inr cs"
  shows "pair \<in> set cs \<longleftrightarrow> JObj pair \<in> set vs \<and> jget ''chainId'' pair = JStr ''solana'' \<and>
    (\<exists>mints. pair_mints pair = Inr mints \<and> mint \<in> set mints)"
  using assms
proof (induction vs arbitrary: cs)
  case (Cons v vs)
  from Cons.prems obtain c cs' where c: "is_candidate mint v = Inr c" and cs': "candidates mint vs = Inr cs'"
    and cs: "cs = (case c of None \<Rightarrow> cs' | Some pair \<Rightarrow> pair # cs')"
    by auto
  from c have "c = Some pair \<longleftrightarrow> v = JObj pair \<and> jget ''chainId'' pair = JStr ''solana'' \<and>
      (\<exists>mints. pair_mints pair = Inr mints \<and> mint \<in> set mints)"
    by (cases v) (auto simp: is_candidate_def split: if_splits)
  with Cons.IH [OF cs'] cs show ?case by (cases c) auto
qed simp

text \<open>
  The primary pool of a token is one of the pairs on Solana that have
  the token on a side, and none of those has more liquidity in dollars; of equally
  liquid ones a pool against SOL is taken. So a small pool made by an attacker never
  stands for the token's real venue, whatever it is denominated in.
\<close>

lemma primary_pool_is_the_deepest:
  assumes "discover_primary_pool now mint (JList vs) = Inr (Some pool)"
  shows "\<exists>pair usd direct. JObj pair \<in> set vs \<and> jget ''chainId'' pair = JStr ''solana'' \<and>
    (\<exists>mints. pair_mints pair = Inr mints \<and> mint \<in> set mints) \<and>
    pool_snapshot now pair mint = Inr pool \<and> pool_rank pair = Inr (usd, direct) \<and>
    (\<forall>other mints. JObj other \<in> set vs \<longrightarrow> jget ''chainId'' other = JStr ''solana'' \<longrightarrow>
       pair_mints other = Inr mints \<longrightarrow> mint \<in> set mints \<longrightarrow>
       (\<exists>usd' direct'. pool_rank other = Inr (usd', direct') \<and> (usd' < usd \<or> usd' = usd \<and> direct' \<le> direct)))"
proof -
  obtain cs' where cs': "candidates mint vs = Inr cs'"
    using assms by (cases "candidates mint vs") (simp_all add: discover_primary_pool_def)
  then obtain p ps where cs: "candidates mint vs = Inr (p # ps)"
    using assms by (cases cs') (simp_all add: discover_primary_pool_def)
  then obtain r best where r: "pool_rank p = Inr r"
    and best: "best_pool (p, r) ps = Inr best" and snap: "pool_snapshot now (fst best) mint = Inr pool"
    using assms by (auto simp: discover_primary_pool_def simp del: split_paired_Ex)
  obtain usd direct where b: "snd best = (usd, direct)" by (cases "snd best")
  note top_rank = best_pool_max [OF best]
  have rank: "pool_rank (fst best) = Inr (usd, direct)" and mem: "fst best \<in> set (p # ps)"
    using top_rank r b by (cases best, auto)+
  have le: "\<exists>usd' direct'. pool_rank q = Inr (usd', direct') \<and> (usd' < usd \<or> usd' = usd \<and> direct' \<le> direct)"
    if "q \<in> set (p # ps)" for q
  proof -
    have "\<exists>x. pool_rank q = Inr x \<and> x \<le> snd best" using that top_rank r by (auto simp del: split_paired_Ex)
    then show ?thesis using b by (auto simp: less_eq_prod_def)
  qed
  have "fst best \<in> set (p # ps) \<longrightarrow> JObj (fst best) \<in> set vs \<and> jget ''chainId'' (fst best) = JStr ''solana'' \<and>
      (\<exists>mints. pair_mints (fst best) = Inr mints \<and> mint \<in> set mints)"
    using candidates_set [OF cs, of "fst best"] by blast
  then show ?thesis
    using mem snap rank le candidates_set [OF cs]
    by (intro exI [of _ "fst best"] exI [of _ usd] exI [of _ direct]) (auto simp del: set_simps)
qed

definition demo_pair :: "string \<Rightarrow> string \<Rightarrow> string \<Rightarrow> int \<Rightarrow> json" where
  "demo_pair address base quote usd = JObj
     [(''chainId'', JStr ''solana''), (''pairAddress'', JStr address),
      (''baseToken'', JObj [(''address'', JStr base)]), (''quoteToken'', JObj [(''address'', JStr quote)]),
      (''liquidity'', JObj [(''usd'', JInt usd), (''base'', JInt 7), (''quote'', JInt 9)])]"

definition demo_pairs :: "json list" where
  "demo_pairs = [demo_pair ''TRAP'' ''MINT'' WSOL_MINT 3, demo_pair ''VENUE'' ''MINT'' ''USDC'' 4]"

lemma demo_discovery:
  "map_sum id (map_option ps_pair_address) (discover_primary_pool 0 ''MINT'' (JList demo_pairs)) = Inr (Some ''VENUE'')"
  by code_simp

end
