(* ===== verification/Engine.thy ===== *)
theory Engine
  imports Reconcile Policies Basis Dex
begin

text \<open>
  One poll of one bag (\<open>joshibot/shitcoims_sentinel/engine.py\<close>): the memory of a
  bag in the state file, the lot and basis glue, and \<open>_inspect_position\<close>, which
  observes, decides with the pure policy, persists and calls the executor. The row it
  returns for the dashboard, and the error texts collected for it, are not modelled;
  a notification is logged with the fixed part of its message. The answers of the
  services that the executor does not ask are the record \<open>feeds\<close>. Of the requests
  that run concurrently the answers are taken in the order they are written.
\<close>

section \<open>The memory of a bag\<close>

definition some_or_null :: "('a \<Rightarrow> json) \<Rightarrow> 'a option \<Rightarrow> json" where
  "some_or_null f v = (case v of None \<Rightarrow> JNull | Some x \<Rightarrow> f x)"

definition state_mapping :: "PositionState \<Rightarrow> json" where
  "state_mapping st = JObj
     [(''trailing_active'', JBool (trailing_active st)),
      (''trailing_peak_unit_price_sol'', some_or_null JDec (trailing_peak_unit_price_sol st)),
      (''last_pnl_pct'', some_or_null JDec (last_pnl_pct st)),
      (''dispose_trigger_slot'', some_or_null JInt (dispose_trigger_slot st)),
      (''below_floor_streak'', JInt (below_floor_streak st)),
      (''below_stop_streak'', JInt (below_stop_streak st)),
      (''above_take_profit_streak'', JInt (above_take_profit_streak st)),
      (''scale_rungs_fired'', JList (map JStr (scale_rungs_fired st))),
      (''original_amount'', some_or_null JInt (original_amount st)),
      (''runner_floor_multiple'', some_or_null JDec (runner_floor_multiple st))]"

definition optional_decimal :: "json \<Rightarrow> decimal option res" where
  "optional_decimal v = (if v = JNull then Inr None else rbind (decimal_of_json v) (\<lambda>d. Inr (Some d)))"

text \<open>A stored streak: what is no number counts as none.\<close>

definition stored_streak :: "string \<Rightarrow> obj \<Rightarrow> int" where
  "stored_streak k m = max (case int_of_json (jget_or k (JInt 0) m) of Some n \<Rightarrow> n | None \<Rightarrow> 0) 0"

definition stored_rungs :: "json \<Rightarrow> string list res" where
  "stored_rungs v =
     (if \<not> truthy v then Inr []
      else case v of
             JStr s \<Rightarrow> Inr [s]
           | JDec d \<Rightarrow> Inr [json_text v]
           | _ \<Rightarrow> rbind (iterate v) (\<lambda>items. Inr (filter (\<lambda>t. t \<noteq> []) (map json_text items))))"

definition state_of_mapping :: "json \<Rightarrow> PositionState res" where
  "state_of_mapping raw =
     (case obj_of raw of
        None \<Rightarrow> Inl (OtherError ''AttributeError'')
      | Some m \<Rightarrow>
          rbind (optional_decimal (jget ''trailing_peak_unit_price_sol'' m)) (\<lambda>peak.
          rbind (optional_decimal (jget ''last_pnl_pct'' m)) (\<lambda>pnl.
          rbind (if jget ''dispose_trigger_slot'' m = JNull then Inr None
                 else rbind (int_value (jget ''dispose_trigger_slot'' m)) (\<lambda>n. Inr (Some n))) (\<lambda>slot.
          rbind (stored_rungs (jget ''scale_rungs_fired'' m)) (\<lambda>rungs.
          rbind (optional_decimal (jget ''runner_floor_multiple'' m)) (\<lambda>flr.
            Inr \<lparr> trailing_active = truthy (jget_or ''trailing_active'' (JBool False) m),
                  trailing_peak_unit_price_sol = peak, last_pnl_pct = pnl, dispose_trigger_slot = slot,
                  below_floor_streak = stored_streak ''below_floor_streak'' m,
                  below_stop_streak = stored_streak ''below_stop_streak'' m,
                  above_take_profit_streak = stored_streak ''above_take_profit_streak'' m,
                  scale_rungs_fired = rungs,
                  original_amount = (case int_of_json (jget ''original_amount'' m) of
                     Some n \<Rightarrow> if 0 < n then Some n else None | None \<Rightarrow> None),
                  runner_floor_multiple = flr \<rparr>))))))"

definition position_state :: "services \<Rightarrow> string \<Rightarrow> PositionState io" where
  "position_state svc mint =
     bind (db_get svc [''positions'', mint] (JObj [])) (\<lambda>raw. lift (state_of_mapping raw))"

definition persist_position_state :: "services \<Rightarrow> string \<Rightarrow> PositionState \<Rightarrow> unit io" where
  "persist_position_state svc mint st = db svc (\<lambda>now. store_set now [''positions'', mint] (state_mapping st))"

definition dispose_enabled_of :: "json \<Rightarrow> PositionPolicy \<Rightarrow> bool" where
  "dispose_enabled_of override policy =
     (case obj_of override of
        None \<Rightarrow> pp_dispose_after_break_even policy
      | Some m \<Rightarrow> (case jget ''enabled'' m of JBool b \<Rightarrow> b | _ \<Rightarrow> pp_dispose_after_break_even policy))"

definition dispose_enabled_now :: "services \<Rightarrow> string \<Rightarrow> PositionPolicy \<Rightarrow> bool io" where
  "dispose_enabled_now svc mint policy =
     bind (db_get svc [''dispose_policies'', mint] JNull) (\<lambda>override. ret (dispose_enabled_of override policy))"

section \<open>Lots\<close>

definition lot_of :: "services \<Rightarrow> string \<Rightarrow> LotRecord io" where
  "lot_of svc mint = bind (db_get svc [''lots'', mint] (JObj [])) (\<lambda>raw. ret (record_from_mapping mint raw))"

definition write_lot :: "services \<Rightarrow> LotRecord \<Rightarrow> unit io" where
  "write_lot svc r = db svc (\<lambda>now. store_set now [''lots'', lot_mint r] (to_mapping r))"

definition clear_runtime_lot :: "services \<Rightarrow> string \<Rightarrow> unit io" where
  "clear_runtime_lot svc mint = persist_position_state svc mint empty_runtime_state"

definition clock_now :: "services \<Rightarrow> stamp io" where
  "clock_now svc = gets (\<lambda>s. Aware (svc_clock svc (w_tick s)))"

text \<open>What the caller does with the file's policy: \<open>drop\<close> it or \<open>strip\<close> its basis.\<close>

definition retire_absent_lot :: "services \<Rightarrow> string \<Rightarrow> string io" where
  "retire_absent_lot svc mint =
     bind (lot_of svc mint) (\<lambda>before.
     bind (clock_now svc) (\<lambda>now.
     bind (write_lot svc (retire before now)) (\<lambda>_.
     bind (clear_runtime_lot svc mint) (\<lambda>_.
       ret (if origin before = Some ORIGIN_DEFAULT then ''drop'' else ''strip'')))))"

fun mark_policy_origin :: "services \<Rightarrow> string list \<Rightarrow> string \<Rightarrow> unit io" where
  "mark_policy_origin svc [] new_origin = ret ()"
| "mark_policy_origin svc (mint # mints) new_origin =
     bind (lot_of svc mint) (\<lambda>lot.
     bind (clock_now svc) (\<lambda>now.
     bind (lift (mark_origin lot new_origin now None)) (\<lambda>marked.
     bind (write_lot svc marked) (\<lambda>_. mark_policy_origin svc mints new_origin))))"

definition skip_auto_protect :: "services \<Rightarrow> string \<Rightarrow> unit io" where
  "skip_auto_protect svc mint = bind (lot_of svc mint) (\<lambda>lot. write_lot svc (skip_auto lot))"

section \<open>Feeds\<close>

text \<open>
  Jupiter's quote, DexScreener's pools of a token and its pool of an address, the mint
  account, Pump.fun's metadata (\<open>None\<close> for a 404), and the chain history the basis is
  read from; the monotonic clock; the health of the RPC and the confirmed slot. The
  last two fields of the configuration are the parser of public keys and the
  conversion of decimals for the policy file.
\<close>

record feeds =
  fd_quote :: "nat \<Rightarrow> string \<Rightarrow> int \<Rightarrow> json res"
  fd_token_pairs :: "nat \<Rightarrow> string \<Rightarrow> json res"
  fd_pair :: "nat \<Rightarrow> string \<Rightarrow> json res"
  fd_mint :: "nat \<Rightarrow> string \<Rightarrow> json res"
  fd_pump :: "nat \<Rightarrow> string \<Rightarrow> json option res"
  fd_history :: "nat \<Rightarrow> string \<Rightarrow> json res"
  fd_transaction :: "nat \<Rightarrow> string \<Rightarrow> json res"
  fd_monotonic :: "nat \<Rightarrow> rat"
  fd_health :: "nat \<Rightarrow> json res"
  fd_slot :: "nat \<Rightarrow> json res"

record engine_config =
  ec_exec :: exec_config
  ec_rug :: RugConfig
  ec_pump_metadata :: bool
  ec_pump_cache_seconds :: rat
  ec_auto_discover :: bool
  ec_max_unmonitored :: nat
  ec_sweep_seconds :: rat
  ec_heartbeat_hours :: rat
  ec_pubkey :: "string \<Rightarrow> string option"
  ec_float :: "decimal \<Rightarrow> decimal"

fun is_external :: "py_exc \<Rightarrow> bool" where
  "is_external (ExternalServiceError m) = True"
| "is_external _ = False"

text \<open>\<open>try: m except ExternalServiceError: h\<close>.\<close>

definition catch_external :: "'a io \<Rightarrow> 'a io \<Rightarrow> 'a io" where
  "catch_external m h = catch m (\<lambda>e. if is_external e then h else raise e)"

definition basis_needs_observation :: "LotRecord \<Rightarrow> PositionPolicy \<Rightarrow> bool" where
  "basis_needs_observation lot policy \<longleftrightarrow>
     needs_basis lot \<or> pp_buy_price_sol policy = None \<and> pp_cost_basis_sol policy = None \<or>
     origin lot = Some ORIGIN_DEFAULT \<and> pp_buy_price_sol policy = None"

definition OBSERVED_BASIS_RETRY_SECONDS :: rat where "OBSERVED_BASIS_RETRY_SECONDS = 180"
definition OBSERVED_BASIS_STRUCTURAL_RETRY_SECONDS :: rat where "OBSERVED_BASIS_STRUCTURAL_RETRY_SECONDS = 3600"

definition basis_read :: "feeds \<Rightarrow> string \<Rightarrow> TokenHolding \<Rightarrow> nat \<Rightarrow> (ObservedBasis option \<times> string \<times> rat) res" where
  "basis_read fd owner holding t =
     (case reconstruct_observed_basis (fd_history fd t) (fd_transaction fd t) owner holding
             OBSERVED_BASIS_MAX_TRANSACTIONS of
        Inr (basis, reason) \<Rightarrow> Inr (basis, reason, OBSERVED_BASIS_STRUCTURAL_RETRY_SECONDS)
      | Inl (ExternalServiceError m) \<Rightarrow>
          Inr (None, ''chain history unavailable (ExternalServiceError)'', OBSERVED_BASIS_RETRY_SECONDS)
      | Inl e \<Rightarrow> Inl e)"

definition observed_basis_now ::
  "feeds \<Rightarrow> string \<Rightarrow> TokenHolding \<Rightarrow> LotRecord \<Rightarrow> (ObservedBasis option \<times> string) io" where
  "observed_basis_now fd owner holding lot =
     bind (gets (\<lambda>s. (fd_monotonic fd (w_tick s), basis_retry s))) (\<lambda>(now, retry).
       let mint = th_mint holding;
           fresh = bind (ask (basis_read fd owner holding)) (\<lambda>(basis, reason, cooldown).
             bind (modify (\<lambda>s. s\<lparr>basis_retry :=
                 (if basis = None then AList.update mint (generation lot, now + cooldown, reason) retry
                  else AList.delete mint retry)\<rparr>)) (\<lambda>_. ret (basis, reason)))
       in case map_of retry mint of
            None \<Rightarrow> fresh
          | Some (gen, until, reason) \<Rightarrow>
              if gen = generation lot \<and> now < until then ret (None, reason) else fresh)"

definition pool_for :: "services \<Rightarrow> feeds \<Rightarrow> string \<Rightarrow> PoolSnapshot option io" where
  "pool_for svc fd mint =
     bind (bind (gets (\<lambda>s. pinned_pair (svc_clock svc (w_tick s)) mint (w_disk s))) lift) (\<lambda>pinned.
     bind (ask (\<lambda>t. case pinned of Some address \<Rightarrow> fd_pair fd t (json_text address)
                     | None \<Rightarrow> fd_token_pairs fd t mint)) (\<lambda>body.
     bind (gets (\<lambda>s. svc_clock svc (w_tick s))) (\<lambda>now.
       lift (case pinned of Some address \<Rightarrow> pool_of now mint (json_text address) body
             | None \<Rightarrow> discover_primary_pool now mint body))))"

text \<open>The client of Pump.fun keeps an answer, an absent token too, for a while.\<close>

definition pump_token_now :: "feeds \<Rightarrow> rat \<Rightarrow> string \<Rightarrow> bool option option io" where
  "pump_token_now fd cache_seconds mint =
     bind (gets (\<lambda>s. (fd_monotonic fd (w_tick s), pump_cache s))) (\<lambda>(now, cache).
       let fresh = bind (ask (\<lambda>t. fd_pump fd t mint)) (\<lambda>response.
             bind (lift (pump_token mint response)) (\<lambda>result.
             bind (modify (\<lambda>s. s\<lparr>pump_cache := AList.update mint (now + cache_seconds, result) cache\<rparr>)) (\<lambda>_.
               ret result)))
       in case map_of cache mint of
            None \<Rightarrow> fresh
          | Some (until, result) \<Rightarrow> if now < until then ret result else fresh)"

definition pump_metadata_for :: "feeds \<Rightarrow> engine_config \<Rightarrow> string \<Rightarrow> bool option option io" where
  "pump_metadata_for fd cfg mint =
     (if \<not> ec_pump_metadata cfg then ret None
      else catch_external (pump_token_now fd (ec_pump_cache_seconds cfg) mint) (ret None))"

text \<open>A result of \<open>asyncio.gather(..., return_exceptions=True)\<close>: what raised counts as absent.\<close>

definition gathered :: "'a option io \<Rightarrow> 'a option io" where
  "gathered m = catch m (\<lambda>_. ret None)"

section \<open>One poll of one bag\<close>

fun kind_text :: "DecisionKind \<Rightarrow> string" where
  "kind_text HOLD = ''hold''"
| "kind_text ACTIVATE_TRAIL = ''activate_trail''"
| "kind_text EXIT_STOP = ''exit_stop''"
| "kind_text EXIT_TRAIL = ''exit_trail''"
| "kind_text EXIT_SCALE = ''exit_scale''"
| "kind_text EXIT_RUG = ''exit_rug''"
| "kind_text EXIT_DISPOSE = ''exit_dispose''"
| "kind_text EXIT_TAKE_PROFIT = ''exit_take_profit''"

text \<open>The lot of a bag that is held: a flat one is opened again.\<close>

definition held_lot_now :: "services \<Rightarrow> string \<Rightarrow> LotRecord io" where
  "held_lot_now svc mint =
     bind (lot_of svc mint) (\<lambda>lot.
       if is_flat lot
       then bind (clock_now svc) (\<lambda>now. let opened = reopen_held lot now in
              bind (write_lot svc opened) (\<lambda>_. ret opened))
       else ret lot)"

text \<open>The policy and the lot after the basis was looked for, when the lot has none of its own.\<close>

definition observe_basis ::
  "services \<Rightarrow> feeds \<Rightarrow> engine_config \<Rightarrow> TokenHolding \<Rightarrow> PositionPolicy \<Rightarrow> LotRecord \<Rightarrow>
   (PositionPolicy \<times> LotRecord) io" where
  "observe_basis svc fd cfg holding policy lot =
     (if \<not> basis_needs_observation lot policy then ret (policy, lot)
      else
        let policy = policy_without_basis policy
        in bind (observed_basis_now fd (cfg_wallet (ec_exec cfg)) holding lot) (\<lambda>(basis, reason).
             case basis of
               None \<Rightarrow>
                 bind (notify svc ''warning'' (''NO OBSERVED COST BASIS for '' @ pp_name policy @ '': '' @ reason @
                   ''. Rug protection only -- no stop, take-profit or trail on this bag.'')) (\<lambda>_.
                   ret (policy, lot))
             | Some b \<Rightarrow>
                 let policy = policy\<lparr>pp_buy_price_sol := Some (basis_unit_price_sol b), pp_cost_basis_sol := None\<rparr>;
                     lot = basis_applied lot
                 in bind (modify (\<lambda>s. s\<lparr>basis_refills := basis_refills s @ [policy]\<rparr>)) (\<lambda>_.
                    bind (write_lot svc lot) (\<lambda>_.
                    bind (notify svc ''info'' (''COST BASIS OBSERVED '' @ pp_name policy)) (\<lambda>_.
                      ret (policy, lot))))))"

definition exit_quote_now ::
  "services \<Rightarrow> feeds \<Rightarrow> engine_config \<Rightarrow> TokenHolding \<Rightarrow> PositionPolicy \<Rightarrow> ExitQuote option io" where
  "exit_quote_now svc fd cfg holding policy =
     (if \<not> cfg_jupiter_ready (ec_exec cfg) then ret None
      else catch_external
        (bind (ask (\<lambda>t. fd_quote fd t (th_mint holding) (th_amount holding))) (\<lambda>body.
         bind (gets (\<lambda>s. svc_clock svc (w_tick s))) (\<lambda>now.
         bind (lift (quote_exit (th_mint holding) (th_amount holding) now body)) (\<lambda>q. ret (Some q)))))
        (bind (notify svc ''critical'' (''EXIT DOOR UNAVAILABLE for '' @ pp_name policy)) (\<lambda>_. ret None)))"

definition mint_safety_now :: "feeds \<Rightarrow> string \<Rightarrow> MintSafety option io" where
  "mint_safety_now fd mint = bind (ask (\<lambda>t. fd_mint fd t mint)) (\<lambda>body.
     bind (lift (mint_safety body)) (\<lambda>ms. ret (Some ms)))"

definition assess_now ::
  "services \<Rightarrow> engine_config \<Rightarrow> TokenHolding \<Rightarrow> PoolSnapshot option \<Rightarrow> MintSafety option \<Rightarrow>
   ExitQuote option \<Rightarrow> RugSignal io" where
  "assess_now svc cfg holding pool safety quote =
     bind (gets (\<lambda>s. assess (ec_rug cfg) (svc_clock svc (w_tick s)) (w_disk s) holding pool safety quote)) lift"

definition no_rug :: "reason \<Rightarrow> RugSignal" where
  "no_rug why = \<lparr> rs_emergency = False, rs_reason = Some why, rs_liquidity_drop_pct = None,
     rs_supply_growth_pct = None, rs_needs_confirmation = False \<rparr>"

text \<open>The signal to act on, the pool that goes to the executor, and the pool to record.\<close>

definition confirm_rug ::
  "services \<Rightarrow> feeds \<Rightarrow> engine_config \<Rightarrow> TokenHolding \<Rightarrow> MintSafety option \<Rightarrow> ExitQuote option \<Rightarrow>
   PoolSnapshot option \<Rightarrow> RugSignal \<Rightarrow> (RugSignal \<times> PoolSnapshot option \<times> PoolSnapshot option) io" where
  "confirm_rug svc fd cfg holding safety quote pool rug =
     (if \<not> (rs_emergency rug \<and> rs_needs_confirmation rug) then ret (rug, pool, pool)
      else catch_external
        (bind (pool_for svc fd (th_mint holding)) (\<lambda>again.
         bind (assess_now svc cfg holding again safety quote) (\<lambda>confirmed.
           if rs_emergency confirmed then ret (confirmed, again, pool)
           else ret (no_rug Transient_sample_rejected, pool, None))))
        (ret (no_rug Signal_not_confirmed, pool, None)))"

definition announce :: "services \<Rightarrow> PositionPolicy \<Rightarrow> PositionState \<Rightarrow> Decision \<Rightarrow> unit io" where
  "announce svc policy prior decision =
     bind (if dispose_trigger_slot prior = None \<and> dispose_trigger_slot (d_next_state decision) \<noteq> None
           then notify svc ''warning'' (''DISPOSE TRIGGERED: '' @ pp_name policy @
                  '' crossed break-even; waiting one confirmed block'')
           else ret ()) (\<lambda>_.
       if d_kind decision = ACTIVATE_TRAIL then notify svc ''info'' ''runner armed'' else ret ())"

definition act_on ::
  "services \<Rightarrow> engine_config \<Rightarrow> TokenHolding \<Rightarrow> PositionPolicy \<Rightarrow> PoolSnapshot option \<Rightarrow> Decision \<Rightarrow>
   (Decision \<times> ExecutionResult option) io" where
  "act_on svc cfg holding policy pool decision =
     (if \<not> exits decision then ret (decision, None)
      else
        bind (if d_kind decision = EXIT_RUG
              then notify svc ''critical'' (''RUG SIGNAL: '' @ pp_name policy) else ret ()) (\<lambda>_.
        bind (if d_kind decision = EXIT_DISPOSE
              then dispose_enabled_now svc (th_mint holding) policy else ret True) (\<lambda>wanted.
          if \<not> wanted
          then let cancelled = (d_next_state decision)\<lparr>last_pnl_pct := None, dispose_trigger_slot := None\<rparr>
               in bind (persist_position_state svc (th_mint holding) cancelled) (\<lambda>_.
                    ret (decision\<lparr>d_kind := HOLD, d_reason := Dispose_cancelled, d_next_state := cancelled\<rparr>, None))
          else bind (sell svc (ec_exec cfg) (th_mint holding) (pp_name policy) (kind_text (d_kind decision))
                       holding (d_sell_amount decision) pool) (\<lambda>result. ret (decision, Some result)))))"

text \<open>\<open>RugDetector.record\<close> as the writes it makes, one for each baseline.\<close>

definition record_now ::
  "services \<Rightarrow> TokenHolding \<Rightarrow> PoolSnapshot option \<Rightarrow> MintSafety option \<Rightarrow> ExitQuote option \<Rightarrow> unit io" where
  "record_now svc holding pool safety quote =
     bind (case pool of
             None \<Rightarrow> ret ()
           | Some p \<Rightarrow> db svc (\<lambda>now. store_set now [''pool_baselines'', th_mint holding] (pool_baseline p))) (\<lambda>_.
     bind (case safety of
             None \<Rightarrow> ret ()
           | Some ms \<Rightarrow> db svc (\<lambda>now. store_set now [''supply_baselines'', th_mint holding] (JInt (ms_supply ms)))) (\<lambda>_.
       case quote of
         None \<Rightarrow> ret ()
       | Some q \<Rightarrow> bind (lift (unit_price_sol q holding)) (\<lambda>u.
                     db svc (\<lambda>now. store_set now [''quote_baselines'', th_mint holding] (JDec u)))))"

definition effective_policy :: "PositionPolicy \<Rightarrow> bool \<Rightarrow> PositionPolicy" where
  "effective_policy policy stop_live = (if stop_live then policy else policy\<lparr>pp_stop_loss_pct := None\<rparr>)"

definition inspect_position ::
  "services \<Rightarrow> feeds \<Rightarrow> engine_config \<Rightarrow> TokenHolding \<Rightarrow> PositionPolicy \<Rightarrow> int option \<Rightarrow>
   (Decision \<times> ExecutionResult option) io" where
  "inspect_position svc fd cfg holding policy slot =
     bind (held_lot_now svc (th_mint holding)) (\<lambda>lot.
     bind (observe_basis svc fd cfg holding policy lot) (\<lambda>(policy, lot).
     bind (exit_quote_now svc fd cfg holding policy) (\<lambda>quote.
     bind (gathered (pool_for svc fd (th_mint holding))) (\<lambda>pool.
     bind (gathered (mint_safety_now fd (th_mint holding))) (\<lambda>safety.
     bind (gathered (pump_metadata_for fd cfg (th_mint holding))) (\<lambda>metadata.
     bind (assess_now svc cfg holding pool safety quote) (\<lambda>sample.
     bind (confirm_rug svc fd cfg holding safety quote pool sample) (\<lambda>(rug, traded, record_pool).
     bind (position_state svc (th_mint holding)) (\<lambda>prior.
     bind (dispose_enabled_now svc (th_mint holding) policy) (\<lambda>dispose.
     bind (clock_now svc) (\<lambda>now.
     bind (lift (sl_is_live (Some lot) now)) (\<lambda>stop_live.
     bind (lift (evaluate_position (effective_policy policy stop_live) holding quote prior rug slot (Some dispose)
                   (Option.bind metadata id))) (\<lambda>decision.
     bind (persist_position_state svc (th_mint holding) (d_next_state decision)) (\<lambda>_.
     bind (announce svc policy prior decision) (\<lambda>_.
     bind (act_on svc cfg holding policy traded decision) (\<lambda>result.
     bind (record_now svc holding record_pool safety quote) (\<lambda>_. ret result)))))))))))))))))"

section \<open>The memory survives a restart\<close>

text \<open>The states the policy can leave: streaks count up from zero, a lot starts with some units.\<close>

definition state_wf :: "PositionState \<Rightarrow> bool" where
  "state_wf st \<longleftrightarrow> 0 \<le> below_floor_streak st \<and> 0 \<le> below_stop_streak st \<and> 0 \<le> above_take_profit_streak st \<and>
     list_all (\<lambda>t. t \<noteq> []) (scale_rungs_fired st) \<and>
     (case original_amount st of None \<Rightarrow> True | Some n \<Rightarrow> 0 < n)"

lemma stored_rungs_strings: "list_all (\<lambda>t. t \<noteq> []) ts \<Longrightarrow> stored_rungs (JList (map JStr ts)) = Inr ts"
  by (cases ts) (auto simp: stored_rungs_def comp_def list_all_iff intro!: filter_True)

lemma optional_decimal_stored [simp]: "optional_decimal (some_or_null JDec v) = Inr v"
  by (cases v) (simp_all add: optional_decimal_def some_or_null_def)

lemma some_or_null_int [simp]: "some_or_null JInt None = JNull" "some_or_null JInt (Some n) = JInt n"
  by (simp_all add: some_or_null_def)

lemma state_roundtrip:
  assumes "state_wf st"
  shows "state_of_mapping (state_mapping st) = Inr st"
proof -
  have "stored_rungs (JList (map JStr (scale_rungs_fired st))) = Inr (scale_rungs_fired st)"
    using assms by (intro stored_rungs_strings) (simp add: state_wf_def)
  then show ?thesis
    using assms
    by (cases "dispose_trigger_slot st"; cases "original_amount st")
      (simp_all add: state_of_mapping_def state_mapping_def jget_def jget_or_def stored_streak_def state_wf_def
        int_value_def)
qed

lemma rung_key_nonempty: "rung_key r \<noteq> []"
  using json_text_nonempty [of "JDec r"] by simp

lemma runner_memory:
  assumes "evaluate_runner policy holding u entry pnl state = Inr d"
  shows "below_floor_streak (d_next_state d) \<in> {0, below_floor_streak state, below_floor_streak state + 1}"
    and "set (scale_rungs_fired (d_next_state d)) \<subseteq> set (scale_rungs_fired state) \<union> range rung_key"
  using assms by (auto simp: runner_defs split: option.splits if_splits)

lemma runner_state_wf:
  assumes "evaluate_runner policy holding u entry pnl state = Inr d" "state_wf state" "0 < th_amount holding"
  shows "state_wf (d_next_state d)"
proof -
  have "0 < py_or (original_amount state) (th_amount holding)"
    using assms(2,3) by (cases "original_amount state") (auto simp: py_or_def state_wf_def)
  moreover have "\<forall>t \<in> set (scale_rungs_fired (d_next_state d)). t \<noteq> []"
  proof
    fix t assume "t \<in> set (scale_rungs_fired (d_next_state d))"
    then consider "t \<in> set (scale_rungs_fired state)" | r where "t = rung_key r"
      using runner_memory(2) [OF assms(1)] by blast
    then show "t \<noteq> []"
    proof cases
      case 1
      then show ?thesis using assms(2) by (auto simp: state_wf_def list_all_iff)
    qed (simp only: rung_key_nonempty not_False_eq_True)
  qed
  ultimately show ?thesis
    using runner_memory(1) [OF assms(1)] runner_next_state(3-5) [OF assms(1)] assms(2) by (auto simp: state_wf_def list_all_iff)
qed

lemma take_profit_state_wf:
  assumes "state_wf state" "0 < th_amount holding"
  shows "state_wf (d_next_state (take_profit_rule policy holding u pnl state))"
proof -
  have "0 < py_or (original_amount state) (th_amount holding)"
    using assms by (cases "original_amount state") (auto simp: py_or_def state_wf_def)
  then show ?thesis
    using assms by (auto simp: take_profit_rule_def Let_def state_wf_def split: option.splits)
qed

lemma evaluate_state_wf:
  assumes "evaluate_position policy holding quote state rug slot de pc = Inr d"
    and wf: "state_wf state" and amount: "0 < th_amount holding"
  shows "state_wf (d_next_state d)"
  using assms(1)
proof (cases rule: evaluate_position_cases)
  case (stop u)
  then show ?thesis using wf by (auto simp: stop_rule_def Let_def state_wf_def)
next
  case (dispose u)
  then show ?thesis using dispose_rule_Inl(3) [OF dispose(5)] wf by (auto simp: state_wf_def)
next
  case (trail u st)
  have "state_wf st"
    using trail(4) wf by (auto simp: state_wf_def dest!: dispose_rule_Inr)
  moreover from this have "state_wf (st\<lparr>trailing_active := False, trailing_peak_unit_price_sol := None\<rparr>)"
    by (simp add: state_wf_def)
  ultimately show ?thesis
    using trail(5) amount
    by (auto simp: trail_rules_def Let_def intro: runner_state_wf take_profit_state_wf split: if_splits)
qed (use wf in simp_all)

text \<open>
  C11 (roundtrip). A restart loses nothing the policy counts on: the state an
  evaluation leaves, written to the state file in the engine's format and read back
  from it, is the same state, with its streaks, its peak, the rungs that fired, the
  size of the lot and the disposal trigger; and it is again a state from which the next
  evaluation's will survive.
\<close>

theorem position_memory_survives:
  assumes "evaluate_position policy holding quote state rug slot de pc = Inr d"
    and "state_wf state" and "0 < th_amount holding"
    and "store_set now [''positions'', mint] (state_mapping (d_next_state d)) f = Inr f'"
  shows "rbind (store_get t [''positions'', mint] (JObj []) f') state_of_mapping = Inr (d_next_state d) \<and>
    state_wf (d_next_state d)"
proof -
  have wf: "state_wf (d_next_state d)" by (rule evaluate_state_wf [OF assms(1-3)])
  have "store_get t [''positions'', mint] (JObj []) f' = Inr (state_mapping (d_next_state d))"
    by (rule sf.get_put [OF _ assms(4)]) (simp add: safe_path_def)
  then show ?thesis using state_roundtrip [OF wf] wf by simp
qed

definition counted_state :: PositionState where
  "counted_state = initial_PositionState\<lparr>below_stop_streak := 1\<rparr>"

theorem position_memory_survives_witness:
  "\<exists>d f'. evaluate_position sample_policy sample_holding None counted_state (sample_rug False) None None None = Inr d \<and>
     store_set 5 [''positions'', ''MintA''] (state_mapping (d_next_state d)) Missing = Inr f' \<and>
     rbind (store_get 9 [''positions'', ''MintA''] (JObj []) f') state_of_mapping = Inr (d_next_state d)"
proof -
  obtain d where d: "evaluate_position sample_policy sample_holding None counted_state (sample_rug False) None None None = Inr d"
    by (auto simp: evaluate_position_def Let_def sample_rug_def)
  obtain f' where f': "store_set 5 [''positions'', ''MintA''] (state_mapping (d_next_state d)) Missing = Inr f'"
    by (simp add: store_set_def load_def initial_state_def)
  have "state_wf counted_state" "0 < th_amount sample_holding"
    by (simp_all add: state_wf_def counted_state_def initial_PositionState_def sample_holding_def)
  with position_memory_survives [OF d _ _ f'] d f' show ?thesis by blast
qed

end
