(* ===== verification/Cycle.thy ===== *)
theory Cycle
  imports Engine
begin

text \<open>
  The cycle of the engine over all bags of the wallet
  (\<open>joshibot/shitcoims_sentinel/engine.py\<close>, \<open>cycle\<close> and the methods it calls): lots that
  are gone are retired, each held bag with a policy is polled, bags without a policy are
  observed and get the default rule after a delay, and the policy file is rewritten. The
  snapshot for the dashboard is not modelled, and of the rows of the unmonitored bags
  only the mint and the name, which the default policy takes over; the ellipsis in a
  shortened name is written as three dots. What runs concurrently is taken in order.
\<close>

section \<open>The policy list\<close>

definition write_config :: "obj \<Rightarrow> unit io" where
  "write_config doc = modify (\<lambda>s. s\<lparr>w_config := doc, w_log := w_log s @ [Wrote_config doc]\<rparr>)"

text \<open>
  The file is read, replaced and read back: a failure before the replacement is an
  answer of \<open>svc_config_file\<close>; the read-back checks the positions and then the other
  sections (\<open>svc_config_check\<close>), when the new file is already in place.
\<close>

definition persist_positions :: "services \<Rightarrow> engine_config \<Rightarrow> PositionPolicy list \<Rightarrow> unit io" where
  "persist_positions svc cfg policies =
     bind (ask (svc_config_file svc)) (\<lambda>_.
     bind (gets w_config) (\<lambda>document.
       let document = positions_document (ec_float cfg) document policies
       in bind (write_config document) (\<lambda>_.
          bind (lift (load_positions (ec_pubkey cfg) document)) (\<lambda>_.
            ask (\<lambda>t. svc_config_check svc t document)))))"

text \<open>\<open>mutate_positions\<close>; the function also returns what its closure left behind.\<close>

definition mutate_positions ::
  "services \<Rightarrow> engine_config \<Rightarrow> (PositionPolicy list \<Rightarrow> (PositionPolicy list option \<times> 'x) io) \<Rightarrow>
   (string \<times> string list) option \<Rightarrow> 'x io" where
  "mutate_positions svc cfg mutate stamped_as =
     bind (gets cur_positions) (\<lambda>current.
     bind (mutate current) (\<lambda>(proposed, extra).
       case proposed of
         None \<Rightarrow> ret extra
       | Some policies \<Rightarrow>
           bind (persist_positions svc cfg policies) (\<lambda>_.
           bind (modify (\<lambda>s. s\<lparr>cur_positions := policies\<rparr>)) (\<lambda>_.
           bind (case stamped_as of
                   None \<Rightarrow> ret ()
                 | Some (new_origin, touch) \<Rightarrow>
                     mark_policy_origin svc (if touch = [] then map pp_mint policies else touch) new_origin) (\<lambda>_.
             ret extra)))))"

definition relax_stop :: "PositionPolicy \<Rightarrow> LotRecord \<Rightarrow> PositionPolicy option" where
  "relax_stop policy lot =
     (case pp_stop_loss_pct policy of
        None \<Rightarrow> None
      | Some stop \<Rightarrow>
          if origin lot = Some ORIGIN_DEFAULT \<and>
             (case pd_stop_loss_pct DEFAULTS of None \<Rightarrow> True | Some default_stop \<Rightarrow> default_stop < stop)
          then Some (policy\<lparr>pp_stop_loss_pct := pd_stop_loss_pct DEFAULTS\<rparr>) else None)"

fun relax_all :: "services \<Rightarrow> PositionPolicy list \<Rightarrow> (PositionPolicy list \<times> bool) io" where
  "relax_all svc [] = ret ([], False)"
| "relax_all svc (policy # policies) =
     bind (lot_of svc (pp_mint policy)) (\<lambda>lot.
     bind (relax_all svc policies) (\<lambda>(rest, relaxed).
       case relax_stop policy lot of
         None \<Rightarrow> ret (policy # rest, relaxed)
       | Some p \<Rightarrow> ret (p # rest, True)))"

definition policies_relaxed_to_default_stop ::
  "services \<Rightarrow> PositionPolicy list \<Rightarrow> (PositionPolicy list option \<times> unit) io" where
  "policies_relaxed_to_default_stop svc policies =
     bind (relax_all svc policies) (\<lambda>(next_policies, relaxed). ret (if relaxed then Some next_policies else None, ()))"

text \<open>What becomes of one policy at the end of a cycle, and whether that is a change.\<close>

definition rewrite_lot ::
  "string list \<Rightarrow> string list \<Rightarrow> PositionPolicy list \<Rightarrow> PositionPolicy \<Rightarrow> PositionPolicy option \<times> bool" where
  "rewrite_lot gone stripped refills policy =
     (if pp_mint policy \<in> set gone then (None, True)
      else case map_of (rev (map (\<lambda>p. (pp_mint p, p)) refills)) (pp_mint policy) of
             Some refill \<Rightarrow> (Some refill, True)
           | None \<Rightarrow>
               if pp_mint policy \<in> set stripped \<and> (pp_cost_basis_sol policy \<noteq> None \<or> pp_buy_price_sol policy \<noteq> None)
               then (Some (policy_without_basis policy), True) else (Some policy, False))"

definition rewrite_lots_yaml ::
  "string list \<Rightarrow> string list \<Rightarrow> PositionPolicy list \<Rightarrow> PositionPolicy list \<Rightarrow> PositionPolicy list option" where
  "rewrite_lots_yaml gone stripped refills current =
     (let rewritten = map (rewrite_lot gone stripped refills) current
      in if list_ex snd rewritten then Some (List.map_filter fst rewritten) else None)"

section \<open>Bags without a policy\<close>

definition short_name :: "string \<Rightarrow> string" where
  "short_name mint = take 6 mint @ ''...'' @ drop (length mint - 4) mint"

definition inspect_unmonitored :: "services \<Rightarrow> feeds \<Rightarrow> engine_config \<Rightarrow> TokenHolding \<Rightarrow> (string \<times> string) io" where
  "inspect_unmonitored svc fd cfg holding =
     bind (if \<not> cfg_jupiter_ready (ec_exec cfg) then ret None
           else catch_external
             (bind (ask (\<lambda>t. fd_quote fd t (th_mint holding) (th_amount holding))) (\<lambda>body.
              bind (gets (\<lambda>s. svc_clock svc (w_tick s))) (\<lambda>now.
              bind (lift (quote_exit (th_mint holding) (th_amount holding) now body)) (\<lambda>q. ret (Some q)))))
             (ret None)) (\<lambda>quote.
     bind (gathered (pool_for svc fd (th_mint holding))) (\<lambda>pool.
     bind (gathered (mint_safety_now fd (th_mint holding))) (\<lambda>safety.
     bind (gathered (pump_metadata_for fd cfg (th_mint holding))) (\<lambda>metadata.
     bind (assess_now svc cfg holding pool safety quote) (\<lambda>rug.
     let symbol = Option.bind pool ps_token_symbol
     in bind (if rs_emergency rug
              then notify svc ''critical'' (''RUG SIGNAL on observe-only shitcoims holding '' @
                     (case symbol of Some name \<Rightarrow> name | None \<Rightarrow> th_mint holding))
              else ret ()) (\<lambda>_.
        bind (record_now svc holding pool safety quote) (\<lambda>_.
          ret (th_mint holding, case symbol of Some name \<Rightarrow> name | None \<Rightarrow> short_name (th_mint holding)))))))))"

text \<open>The rows of the bags without a policy: mint and name.\<close>

definition sweep ::
  "services \<Rightarrow> feeds \<Rightarrow> engine_config \<Rightarrow> TokenHolding list \<Rightarrow> unit io" where
  "sweep svc fd cfg active =
     bind (gets (\<lambda>s. (fd_monotonic fd (w_tick s), observe_cache s, next_observe_sweep s))) (\<lambda>(now, cache, due).
       let mints = map th_mint active
       in if (due \<le> now \<or> \<not> set mints \<subseteq> set (map fst cache)) \<and> active \<noteq> []
          then bind (mapM_io (inspect_unmonitored svc fd cfg) active) (\<lambda>rows.
                 modify (\<lambda>s. s\<lparr>observe_cache := rows, next_observe_sweep := now + ec_sweep_seconds cfg\<rparr>))
          else modify (\<lambda>s. s\<lparr>observe_cache := filter (\<lambda>row. fst row \<in> set mints) cache\<rparr>))"

definition observe_unmonitored ::
  "services \<Rightarrow> feeds \<Rightarrow> engine_config \<Rightarrow> TokenHolding list \<Rightarrow> (string \<times> string) list io" where
  "observe_unmonitored svc fd cfg holdings =
     (let unnamed = map (\<lambda>h. (th_mint h, short_name (th_mint h)))
      in if \<not> ec_auto_discover cfg then ret (unnamed holdings)
         else
           let active = take (ec_max_unmonitored cfg) holdings; quarantined = drop (ec_max_unmonitored cfg) holdings
           in bind (sweep svc fd cfg active) (\<lambda>_.
              bind (gets observe_cache) (\<lambda>cache.
                ret (map (\<lambda>h. (th_mint h, case map_of cache (th_mint h) of Some name \<Rightarrow> name
                                          | None \<Rightarrow> short_name (th_mint h))) active @ unnamed quarantined))))"

section \<open>The default rule\<close>

text \<open>Every bag without a policy is noted; those whose delay is over are due.\<close>

fun note_rows :: "services \<Rightarrow> (string \<times> string) list \<Rightarrow> (string \<times> string) list io" where
  "note_rows svc [] = ret []"
| "note_rows svc ((mint, name) # rows) =
     (if mint = [] then note_rows svc rows
      else
        bind (lot_of svc mint) (\<lambda>lot.
        bind (clock_now svc) (\<lambda>now.
        let (record, fresh) = note_seen (Some lot) mint DEFAULT_NEW_BAG_PROTECT_DELAY_SECONDS now
        in bind (write_lot svc record) (\<lambda>_.
           bind (if fresh
                 then notify svc ''warning'' (''NEW BAG '' @ (if name = [] then take 8 mint else name)) else ret ()) (\<lambda>_.
           bind (clock_now svc) (\<lambda>later.
           bind (lift (due_for_default (Some record) later)) (\<lambda>due.
           bind (note_rows svc rows) (\<lambda>rest. ret (if due then (mint, name) # rest else rest)))))))))"

fun observe_prices ::
  "services \<Rightarrow> feeds \<Rightarrow> engine_config \<Rightarrow> TokenHolding list \<Rightarrow> (string \<times> string) list \<Rightarrow> (string \<times> decimal) list io" where
  "observe_prices svc fd cfg holdings [] = ret []"
| "observe_prices svc fd cfg holdings ((mint, name) # rows) =
     (case find_holding mint (rev holdings) of
        None \<Rightarrow> observe_prices svc fd cfg holdings rows
      | Some holding \<Rightarrow>
          bind (lot_of svc mint) (\<lambda>lot.
          bind (observed_basis_now fd (cfg_wallet (ec_exec cfg)) holding lot) (\<lambda>(basis, reason).
          bind (observe_prices svc fd cfg holdings rows) (\<lambda>prices.
            ret (case basis of None \<Rightarrow> prices | Some b \<Rightarrow> (mint, basis_unit_price_sol b) # prices)))))"

definition row_json :: "string \<times> string \<Rightarrow> json" where
  "row_json row = JObj [(''mint'', JStr (fst row)), (''name'', JStr (snd row))]"

definition with_price :: "(string \<times> decimal) list \<Rightarrow> string list \<Rightarrow> PositionPolicy \<Rightarrow> PositionPolicy" where
  "with_price prices created policy =
     (case map_of prices (pp_mint policy) of
        None \<Rightarrow> policy
      | Some price \<Rightarrow>
          if pp_mint policy \<in> set created
          then policy\<lparr>pp_buy_price_sol := Some price, pp_cost_basis_sol := None\<rparr> else policy)"

definition merge_defaults ::
  "engine_config \<Rightarrow> (string \<times> string) list \<Rightarrow> (string \<times> decimal) list \<Rightarrow> PositionPolicy list \<Rightarrow>
   (PositionPolicy list option \<times> string list) res" where
  "merge_defaults cfg rows prices current =
     rbind (policies_for_unmonitored (ec_pubkey cfg) (map row_json rows) current ''rug_only'' DEFAULTS) (\<lambda>g.
       Inr (if mg_created g = [] then None else Some (map (with_price prices (mg_created g)) (mg_merged g)),
            mg_created g))"

definition schedule_and_apply_defaults ::
  "services \<Rightarrow> feeds \<Rightarrow> engine_config \<Rightarrow> (string \<times> string) list \<Rightarrow> TokenHolding list \<Rightarrow> unit io" where
  "schedule_and_apply_defaults svc fd cfg rows holdings =
     bind (note_rows svc rows) (\<lambda>due.
       if due = [] then ret ()
       else
         bind (observe_prices svc fd cfg holdings due) (\<lambda>prices.
         bind (mutate_positions svc cfg (\<lambda>current. lift (merge_defaults cfg due prices current)) None) (\<lambda>created.
           if created = [] then ret ()
           else
             bind (mark_policy_origin svc created ORIGIN_DEFAULT) (\<lambda>_.
               notify svc (if list_all (\<lambda>m. m \<in> set (map fst prices)) created then ''info'' else ''warning'')
                 (''Auto-protected '' @ int_text (int (length created)) @ '' bag(s)'')))))"

section \<open>The cycle\<close>

fun any_io :: "('a \<Rightarrow> bool io) \<Rightarrow> 'a list \<Rightarrow> bool io" where
  "any_io f [] = ret False"
| "any_io f (x # xs) = bind (f x) (\<lambda>b. if b then ret True else any_io f xs)"

text \<open>Bags that are gone: each mint with what the policy file is to do about it.\<close>

definition retire_mints :: "services \<Rightarrow> string list \<Rightarrow> (string \<times> string) list io" where
  "retire_mints svc = mapM_io (\<lambda>mint. bind (retire_absent_lot svc mint) (\<lambda>act. ret (mint, act)))"

fun visit_policies ::
  "services \<Rightarrow> feeds \<Rightarrow> engine_config \<Rightarrow> TokenHolding list \<Rightarrow> int option \<Rightarrow> PositionPolicy list \<Rightarrow>
   (string \<times> string) list io" where
  "visit_policies svc fd cfg holdings slot [] = ret []"
| "visit_policies svc fd cfg holdings slot (policy # policies) =
     (case find_holding (pp_mint policy) (rev holdings) of
        None \<Rightarrow>
          bind (retire_absent_lot svc (pp_mint policy)) (\<lambda>act.
          bind (dispose_enabled_now svc (pp_mint policy) policy) (\<lambda>_.
          bind (visit_policies svc fd cfg holdings slot policies) (\<lambda>rest. ret ((pp_mint policy, act) # rest))))
      | Some holding \<Rightarrow>
          bind (inspect_position svc fd cfg holding policy slot) (\<lambda>_.
            visit_policies svc fd cfg holdings slot policies))"

definition confirmed_slot_now :: "services \<Rightarrow> feeds \<Rightarrow> PositionPolicy list \<Rightarrow> int option io" where
  "confirmed_slot_now svc fd policies =
     bind (any_io (\<lambda>p. dispose_enabled_now svc (pp_mint p) p) policies) (\<lambda>needed.
       if \<not> needed then ret None
       else catch_external (bind (ask (fd_slot fd)) (\<lambda>r. bind (lift (confirmed_slot r)) (\<lambda>n. ret (Some n)))) (ret None))"

text \<open>The mints of the stored memories, when there is an object of them.\<close>

definition stored_mints :: "services \<Rightarrow> string list io" where
  "stored_mints svc = bind (db_get svc [''positions''] (JObj [])) (\<lambda>v. ret (map fst (as_object v)))"

fun report_new :: "services \<Rightarrow> string list \<Rightarrow> string list \<Rightarrow> unit io" where
  "report_new svc known [] = ret ()"
| "report_new svc known (mint # mints) =
     bind (if mint \<in> set known then ret ()
           else notify svc ''warning'' (''UNMONITORED POSITION on shitcoims: '' @ mint)) (\<lambda>_. report_new svc known mints)"

definition unmonitored_mints :: "TokenHolding list \<Rightarrow> PositionPolicy list \<Rightarrow> string list" where
  "unmonitored_mints holdings policies =
     sort (remdups (filter (\<lambda>m. m \<notin> set (map pp_mint policies)) (map th_mint holdings)))"

definition watch_unmonitored ::
  "services \<Rightarrow> feeds \<Rightarrow> engine_config \<Rightarrow> TokenHolding list \<Rightarrow> PositionPolicy list \<Rightarrow> unit io" where
  "watch_unmonitored svc fd cfg holdings policies =
     (let mints = unmonitored_mints holdings policies;
          bags = List.map_filter (\<lambda>m. find_holding m (rev holdings)) mints
      in bind (gets known_unmonitored) (\<lambda>known.
         bind (report_new svc known mints) (\<lambda>_.
         bind (modify (\<lambda>s. s\<lparr>known_unmonitored := mints\<rparr>)) (\<lambda>_.
         bind (if ec_max_unmonitored cfg < length bags
               then notify svc ''warning'' ''shitcoims discovery budget exceeded'' else ret ()) (\<lambda>_.
         bind (observe_unmonitored svc fd cfg bags) (\<lambda>rows.
           schedule_and_apply_defaults svc fd cfg rows holdings))))))"

text \<open>
  The heartbeat: what \<open>fromisoformat\<close> does with the stored instant, and the difference
  in seconds to it.
\<close>

definition heartbeat_due :: "rat \<Rightarrow> int \<Rightarrow> json \<Rightarrow> bool res" where
  "heartbeat_due hours now last_raw =
     (if \<not> truthy last_raw then Inr True
      else case last_raw of
             JStamp (Aware t) \<Rightarrow> Inr (hours * 3600 \<le> of_int (now - t) / 1000000)
           | JStamp (Naive t) \<Rightarrow> Inl (TypeError ''can't subtract offset-naive and offset-aware datetimes'')
           | JStr s \<Rightarrow> Inl (ValueError ''Invalid isoformat string'')
           | JDec d \<Rightarrow> Inl (ValueError ''Invalid isoformat string'')
           | _ \<Rightarrow> Inl (TypeError ''fromisoformat: argument must be str''))"

definition maybe_heartbeat :: "services \<Rightarrow> engine_config \<Rightarrow> unit io" where
  "maybe_heartbeat svc cfg =
     bind (db_get svc [''last_heartbeat_at''] JNull) (\<lambda>last_raw.
     bind (gets (\<lambda>s. svc_clock svc (w_tick s))) (\<lambda>now.
     bind (lift (heartbeat_due (ec_heartbeat_hours cfg) now last_raw)) (\<lambda>due.
       if \<not> due then ret ()
       else bind (notify svc ''info'' ''Sentinel alive'') (\<lambda>_.
              db svc (\<lambda>t. store_set t [''last_heartbeat_at''] (JStamp (Aware now)))))))"

definition marked :: "string \<Rightarrow> (string \<times> string) list \<Rightarrow> string list" where
  "marked act actions = map fst (filter (\<lambda>e. snd e = act) actions)"

definition finish_cycle :: "services \<Rightarrow> engine_config \<Rightarrow> (string \<times> string) list \<Rightarrow> unit io" where
  "finish_cycle svc cfg actions =
     bind (gate_status svc (ec_exec cfg)) (\<lambda>_.
     bind (maybe_heartbeat svc cfg) (\<lambda>_.
     bind (gets basis_refills) (\<lambda>refills.
       mutate_positions svc cfg
         (\<lambda>current. ret (rewrite_lots_yaml (marked ''drop'' actions) (marked ''strip'' actions) refills current, ()))
         None)))"

definition cycle :: "services \<Rightarrow> feeds \<Rightarrow> engine_config \<Rightarrow> unit io" where
  "cycle svc fd cfg =
     bind (mutate_positions svc cfg (policies_relaxed_to_default_stop svc) None) (\<lambda>_.
     bind (gets cur_positions) (\<lambda>policies.
     bind (ask (fd_health fd)) (\<lambda>health.
     bind (ask (\<lambda>t. rbind (svc_sol_balance svc t) sol_balance)) (\<lambda>_.
     bind (holdings_now svc) (\<lambda>holdings.
       if health \<noteq> JStr ''ok'' then raise (RuntimeError ''Helius RPC health check failed'')
       else
         bind (confirmed_slot_now svc fd policies) (\<lambda>slot.
         bind (modify (\<lambda>s. s\<lparr>basis_refills := []\<rparr>)) (\<lambda>_.
         bind (stored_mints svc) (\<lambda>stored.
         bind (retire_mints svc (filter (\<lambda>m. find_holding m holdings = None) stored)) (\<lambda>retired.
         bind (visit_policies svc fd cfg holdings slot policies) (\<lambda>absent.
         bind (watch_unmonitored svc fd cfg holdings policies) (\<lambda>_.
           finish_cycle svc cfg (retired @ absent))))))))))))"

definition panic :: "services \<Rightarrow> engine_config \<Rightarrow> ExecutionResult list io" where
  "panic svc cfg =
     bind (holdings_now svc) (\<lambda>holdings.
     bind (gets cur_positions) (\<lambda>policies.
       let names = map_of (rev (map (\<lambda>p. (pp_mint p, pp_name p)) policies))
       in mapM_io (\<lambda>h. sell svc (ec_exec cfg) (th_mint h)
            (case names (th_mint h) of Some name \<Rightarrow> name | None \<Rightarrow> take 8 (th_mint h)) ''panic'' h None None) holdings))"

end
