(* ===== verification/Frames.thy ===== *)
theory Frames
  imports Executor_Safety
begin

text \<open>
  Reasoning about code that keeps an invariant, and the frame of the executor: a sale of
  one mint leaves the exits of every other mint alone. It writes the state file only at
  paths apart from the entries of other mints, and broadcasts only its own mint.
\<close>

section \<open>Code that keeps an invariant\<close>

abbreviation reads :: "(sys \<Rightarrow> bool) \<Rightarrow> 'a io \<Rightarrow> bool" where
  "reads J m \<equiv> spec J m (\<lambda>_. J) J"

lemma reads_ask: "stable J \<Longrightarrow> reads J (ask q)"
  by (rule spec_weaken [OF spec_ask_stable]) auto

lemma reads_ret: "reads J (ret v)"
  by (rule spec_ret)

lemma reads_raise: "reads J (raise e)"
  by (rule spec_raise)

lemma reads_lift: "reads J (lift r)"
  by (rule spec_lift) auto

lemma reads_gets: "reads J (gets f)"
  by (rule spec_gets)

lemma reads_bind: "reads J m \<Longrightarrow> (\<And>v. reads J (f v)) \<Longrightarrow> reads J (bind m f)"
  by (rule spec_bind)

lemma reads_if: "(b \<Longrightarrow> reads J m) \<Longrightarrow> (\<not> b \<Longrightarrow> reads J n) \<Longrightarrow> reads J (if b then m else n)"
  by (rule spec_if)

lemma reads_case_option: "reads J m \<Longrightarrow> (\<And>v. reads J (f v)) \<Longrightarrow> reads J (case x of None \<Rightarrow> m | Some v \<Rightarrow> f v)"
  by (rule spec_option)

lemma reads_case_prod: "(\<And>a b. reads J (f a b)) \<Longrightarrow> reads J (case x of (a, b) \<Rightarrow> f a b)"
  by (cases x) simp

lemma reads_catch: "reads J m \<Longrightarrow> (\<And>e. reads J (h e)) \<Longrightarrow> reads J (catch m h)"
  by (rule spec_catch)

lemma reads_db_get: "reads J (db_get svc keys v)"
  by (rule spec_db_get) auto

lemmas reads_intros = reads_ask reads_ret reads_raise reads_lift reads_gets reads_bind reads_if
  reads_case_option reads_case_prod reads_catch reads_db_get spec_notify stable_hist

text \<open>Facts about a value beside an invariant of the state.\<close>

abbreviation yields :: "(sys \<Rightarrow> bool) \<Rightarrow> 'a io \<Rightarrow> ('a \<Rightarrow> bool) \<Rightarrow> bool" where
  "yields J m F \<equiv> spec J m (\<lambda>v s. J s \<and> F v) J"

lemma yields_bind: "yields J m F \<Longrightarrow> (\<And>v. F v \<Longrightarrow> yields J (f v) G) \<Longrightarrow> yields J (bind m f) G"
  by (erule spec_bind) (rule spec_fact)

lemma yields_reads: "reads J m \<Longrightarrow> yields J m (\<lambda>_. True)"
  by (erule spec_weaken) auto

lemma yields_ret: "F v \<Longrightarrow> yields J (ret v) F"
  by (rule spec_ret) simp

section \<open>Writes apart from the pending exits of a mint\<close>

lemma set_apart_submission:
  assumes "safe_path p" "apart p (pending_path mint)" "store_set now p v d = Inr d'"
  shows "stored_submission mint d' = stored_submission mint d"
  using sf.get_put_apart [OF assms(1) pending_path_safe assms(2,3)] by (simp add: stored_submission_def)

lemma spec_set_apart:
  assumes "safe_path p" "apart p (pending_path mint)"
  shows "spec (hist ok mint d0) (db svc (\<lambda>now. store_set now p v)) (\<lambda>_. hist ok mint d0) (hist ok mint d0)"
proof (rule spec_db)
  fix s d
  assume h: "hist ok mint d0 s" and w: "store_set (svc_clock svc (w_tick s)) p v (w_disk s) = Inr d"
  show "hist ok mint d0 (s\<lparr>w_disk := d, w_log := w_log s @ [Wrote d]\<rparr>)"
    using h set_apart_submission [OF assms w] by (intro hist_write) (auto dest: hist_in_flight)
qed simp

text \<open>
  The promise for one mint, and what is known of its entry. An operation that works on
  another mint keeps both.
\<close>

definition pending_entry :: "string \<Rightarrow> disk \<Rightarrow> json res" where
  "pending_entry mint d = store_get 0 (pending_path mint) JNull d"

definition framed :: "(json res \<Rightarrow> bool) \<Rightarrow> string \<Rightarrow> disk \<Rightarrow> sys \<Rightarrow> bool" where
  "framed Q mint d0 s \<longleftrightarrow> hist (\<lambda>_ _. True) mint d0 s \<and> Q (pending_entry mint (w_disk s))"

abbreviation wallet :: "string \<Rightarrow> disk \<Rightarrow> sys \<Rightarrow> bool" where
  "wallet mint d0 \<equiv> hist (\<lambda>_ _. True) mint d0"

lemma framed_True [simp]: "framed (\<lambda>_. True) mint d0 = wallet mint d0"
  by (simp add: framed_def fun_eq_iff)

lemma stable_framed: "stable (framed Q mint d0)"
  by (auto simp: stable_def framed_def hist_tick hist_quiet)

lemma submission_of_entry:
  "pending_entry mint d' = pending_entry mint d \<Longrightarrow> stored_submission mint d' = stored_submission mint d"
  by (simp add: stored_submission_def pending_entry_def)

lemma framed_kept_write:
  assumes "\<And>now d d'. f now d = Inr d' \<Longrightarrow> pending_entry mint d' = pending_entry mint d"
  shows "reads (framed Q mint d0) (db svc f)"
proof (rule spec_db)
  fix s d
  assume h: "framed Q mint d0 s" and w: "f (svc_clock svc (w_tick s)) (w_disk s) = Inr d"
  have "hist (\<lambda>_ _. True) mint d0 (s\<lparr>w_disk := d, w_log := w_log s @ [Wrote d]\<rparr>)"
    using h submission_of_entry [OF assms [OF w]]
    by (intro hist_write) (auto simp: framed_def dest: hist_in_flight)
  then show "framed Q mint d0 (s\<lparr>w_disk := d, w_log := w_log s @ [Wrote d]\<rparr>)"
    using h assms [OF w] by (simp add: framed_def)
qed simp

lemma delete_apart_entry:
  assumes "safe_path p" "apart p (pending_path mint)" "store_delete now p d = Inr d'"
  shows "pending_entry mint d' = pending_entry mint d"
  using sf.get_del_apart [OF assms(1) pending_path_safe assms(2,3)] by (simp add: pending_entry_def)

lemma set_apart_entry:
  assumes "safe_path p" "apart p (pending_path mint)" "store_set now p v d = Inr d'"
  shows "pending_entry mint d' = pending_entry mint d"
  using sf.get_put_apart [OF assms(1) pending_path_safe assms(2,3)] by (simp add: pending_entry_def)

lemma framed_set_apart:
  "safe_path p \<Longrightarrow> apart p (pending_path mint) \<Longrightarrow> reads (framed Q mint d0) (db svc (\<lambda>now. store_set now p v))"
  by (rule framed_kept_write) (rule set_apart_entry)

lemma dispose_apart_entry:
  assumes "set_dispose_policy now m enabled d = Inr d'"
  shows "pending_entry mint d' = pending_entry mint d"
  using dispose_switch_resets_edge [OF assms, of 0 JNull] pending_path_safe [of mint]
  by (auto simp: pending_entry_def pending_path_def)

lemma apart_pending: "a \<noteq> b \<Longrightarrow> apart (pending_path a) (pending_path b)"
  by (simp add: pending_path_def)

lemma reads_mapM: "(\<And>x. reads J (f x)) \<Longrightarrow> reads J (mapM_io f xs)"
  by (induction xs) (auto intro!: reads_intros)

lemma reads_case_sum: "(\<And>a. reads J (f a)) \<Longrightarrow> (\<And>b. reads J (g b)) \<Longrightarrow> reads J (case x of Inl a \<Rightarrow> f a | Inr b \<Rightarrow> g b)"
  by (cases x) auto

lemma reads_case_sig:
  "reads J a \<Longrightarrow> reads J b \<Longrightarrow> reads J c \<Longrightarrow>
   reads J (case x of Sig_confirmed \<Rightarrow> a | Sig_dead \<Rightarrow> b | Sig_unresolved \<Rightarrow> c)"
  by (cases x) auto

lemma reads_Let: "(\<And>x. x = v \<Longrightarrow> reads J (f x)) \<Longrightarrow> reads J (Let v f)"
  by simp

section \<open>Sales that keep an invariant\<close>

text \<open>An update of the variables of a sale only.\<close>

definition sale_local :: "(sys \<Rightarrow> sys) \<Rightarrow> bool" where
  "sale_local f \<longleftrightarrow> (\<forall>s. w_disk (f s) = w_disk s \<and> w_tick (f s) = w_tick s \<and> w_log (f s) = w_log s \<and>
     basis_retry (f s) = basis_retry s \<and> basis_refills (f s) = basis_refills s \<and> pump_cache (f s) = pump_cache s \<and>
     w_config (f s) = w_config s \<and> cur_positions (f s) = cur_positions s \<and>
     known_unmonitored (f s) = known_unmonitored s \<and> observe_cache (f s) = observe_cache s \<and>
     next_observe_sweep (f s) = next_observe_sweep s)"

text \<open>
  What an invariant has to bear to be kept by the sale of a mint that \<open>sells\<close> allows:
  questions, the variables of the sale, writes of the pending exit of that mint and of its
  disposal switch, and broadcasts of that mint.
\<close>

locale kept_by_sales =
  fixes J :: "sys \<Rightarrow> bool" and sells :: "string \<Rightarrow> bool"
  assumes keeps_stable: "stable J"
    and keeps_local: "sale_local f \<Longrightarrow> J s \<Longrightarrow> J (f s)"
    and keeps_save: "sells m \<Longrightarrow> reads J (save_pending svc m i)"
    and keeps_drop: "sells m \<Longrightarrow> reads J (drop_pending svc m)"
    and keeps_disposal: "sells m \<Longrightarrow> reads J (end_disposal svc m reason)"
    and keeps_broadcast: "sells (ev_mint e) \<Longrightarrow> reads J (ask_logged (\<lambda>_. Executed sb e) (q :: nat \<Rightarrow> obj res))"
begin

lemma logged_kept:
  "reads J (ask_logged (\<lambda>_. Traded m a b c) q1)" "reads J (ask_logged (\<lambda>_. Ordered m n) q2)"
  "reads J (ask_logged (Asked_status sig) q3)" "reads J (ask_logged (Asked_blockhash bh) q4)"
  by (rule spec_weaken [OF spec_ask_logged_stable [OF keeps_stable]], auto)+

lemma modify_kept: "sale_local f \<Longrightarrow> reads J (modify f)"
  by (rule spec_modify) (rule keeps_local)

lemmas kept_intros = reads_intros keeps_stable keeps_save keeps_drop keeps_disposal logged_kept
  modify_kept reads_mapM reads_case_sum reads_case_sig spec_holdings_now spec_holding_now

lemma ask_blockhash_kept: "reads J (ask_blockhash svc bh)"
  unfolding ask_blockhash_def by (intro kept_intros) (auto split: py_exc.splits intro: kept_intros)

lemma resolve_polls_kept: "reads J (resolve_polls n svc sig bh m left detail)"
  by (induction n arbitrary: detail) (auto intro!: kept_intros ask_blockhash_kept)

lemma resolve_signature_kept: "reads J (resolve_signature svc sig bh m left)"
  unfolding resolve_signature_def by (rule resolve_polls_kept)

lemma finalize_kept:
  "sells m \<Longrightarrow> reads J (finalize_confirmed svc m name reason sig sold out att)"
  unfolding finalize_confirmed_def Let_def by (intro kept_intros)

lemma block_kept:
  "sells m \<Longrightarrow> reads J (block_on_unresolved svc m name i sig detail att amount)"
  unfolding block_on_unresolved_def Let_def by (intro kept_intros)

lemmas settle_kept = resolve_signature_kept finalize_kept block_kept

lemma resolve_prior_kept:
  "sells m \<Longrightarrow> reads J (resolve_prior_submission svc m name reason)"
  unfolding resolve_prior_submission_def Let_def by (intro kept_intros settle_kept)

lemma simulate_kept: "reads J (simulate_exit svc cfg tx hs target a b c)"
  unfolding simulate_exit_def simulate_one_def Let_def by (intro kept_intros)

lemma floor_kept:
  "sells m \<Longrightarrow> reads J (reserve_floor_refusal svc m name reason pool holding amount order)"
  unfolding reserve_floor_refusal_def Let_def by (intro kept_intros)

lemma bid_kept: "reads J (record_landing_bid svc name v units)"
  unfolding record_landing_bid_def Let_def by (intro kept_intros)

lemma clear_kept: "sells m \<Longrightarrow> reads J (clear_pending_signature svc m detail)"
  unfolding clear_pending_signature_def by (intro kept_intros) (simp_all add: sale_local_def)

lemma block_sale_kept:
  "sells (sale_mint sale) \<Longrightarrow> reads J (block_sale svc sale sig detail att amount)"
  unfolding block_sale_def by (intro kept_intros block_kept) (simp_all add: sale_local_def)

lemma settle_pending_kept: "sells (sale_mint sale) \<Longrightarrow> reads J (settle_pending svc sale att)"
  unfolding settle_pending_def Let_def
  by (intro kept_intros settle_kept block_sale_kept clear_kept) (simp_all add: sale_local_def)

lemma reconcile_filled_kept:
  "sells (sale_mint sale) \<Longrightarrow> reads J (reconcile_filled svc sale current att)"
  unfolding reconcile_filled_def Let_def by (intro kept_intros)

lemma build_order_kept:
  assumes "sells (sale_mint sale)"
  shows "yields J (build_order svc cfg sale current)
    (\<lambda>r. \<forall>b. r = Inr b \<longrightarrow> ev_mint (b_evidence b) = sale_mint sale)"
  unfolding build_order_def Let_def
  apply (rule yields_bind [OF yields_reads [OF logged_kept(2)]])
  apply (rule yields_bind [OF yields_reads [OF floor_kept [OF assms]]])
  apply (rule spec_option)
   prefer 2
   apply (rule yields_ret, simp)
  apply (rule yields_bind [OF yields_reads [OF reads_lift]])
  apply (rule yields_bind [OF yields_reads [OF reads_ask [OF keeps_stable]]])
  apply (rule yields_bind [OF yields_reads [OF reads_lift]], clarsimp)
  apply (rule yields_bind [OF yields_reads [OF spec_holdings_now [OF keeps_stable]]])
  apply (rule yields_bind [OF yields_reads [OF reads_ask [OF keeps_stable]]])
  apply (rule yields_bind [OF yields_reads [OF reads_lift]])
  apply (rule yields_bind [OF yields_reads [OF simulate_kept]])
  apply (rule yields_bind [OF yields_reads [OF bid_kept]])
  apply (rule yields_bind [OF yields_reads [OF reads_lift]])
  apply (rule yields_ret, simp)
  done

lemma after_success_kept:
  "sells (sale_mint sale) \<Longrightarrow> reads J (after_success svc sale b att result)"
  unfolding after_success_def Let_def
  by (intro kept_intros settle_kept block_sale_kept clear_kept) (simp_all add: sale_local_def)

lemma submit_kept:
  assumes "sells (sale_mint sale)" "ev_mint (b_evidence b) = sale_mint sale"
  shows "reads J (submit svc sale b att)"
  unfolding submit_def Let_def
  by (intro kept_intros after_success_kept keeps_broadcast) (use assms in \<open>simp_all add: arm_submission_def sale_local_def\<close>)

lemma attempt_kept:
  assumes "sells (sale_mint sale)"
  shows "reads J (sell_attempt svc cfg sale att)"
proof -
  have trade: "reads J (bind (build_order svc cfg sale h) (\<lambda>built.
      case built of Inl r \<Rightarrow> ret (Some r) | Inr b \<Rightarrow> submit svc sale b att))" for h
    by (rule spec_bind [OF build_order_kept [OF assms]], rule spec_fact)
      (auto split: sum.split intro: reads_ret submit_kept [OF assms])
  show ?thesis
    unfolding sell_attempt_def attempt_body_def
    by (intro kept_intros settle_pending_kept reconcile_filled_kept trade assms) (simp_all add: sale_local_def)
qed

lemma give_up_kept: "sells (sale_mint sale) \<Longrightarrow> reads J (give_up svc cfg sale)"
  unfolding give_up_def Let_def by (intro kept_intros block_sale_kept) (simp_all add: sale_local_def)

lemma sell_loop_kept: "sells (sale_mint sale) \<Longrightarrow> reads J (sell_loop n svc cfg sale att)"
  by (induction n arbitrary: att) (auto intro!: kept_intros attempt_kept give_up_kept)

lemma sell_kept:
  "sells m \<Longrightarrow> reads J (sell svc cfg m name reason observed amount pool)"
  unfolding sell_def gate_status_def start_sale_def Let_def
  by (intro kept_intros resolve_prior_kept sell_loop_kept) (simp_all add: sale_local_def)

end

text \<open>The promise for one mint is kept by the sale of another.\<close>

interpretation framed: kept_by_sales "framed Q mint d0" "\<lambda>m. m \<noteq> mint" for Q mint d0
proof unfold_locales
  show "stable (framed Q mint d0)" by (auto simp: stable_def framed_def hist_tick hist_quiet)
  show "framed Q mint d0 (f s)" if "sale_local f" "framed Q mint d0 s" for f s
    using that by (auto simp: sale_local_def framed_def hist_def)
  show "reads (framed Q mint d0) (save_pending svc m i)" if "m \<noteq> mint" for svc m i
    unfolding save_pending_def by (rule framed_set_apart) (use that in \<open>simp_all add: apart_pending\<close>)
  show "reads (framed Q mint d0) (drop_pending svc m)" if "m \<noteq> mint" for svc m
    unfolding drop_pending_def
    by (rule framed_kept_write, rule delete_apart_entry) (use that in \<open>simp_all add: apart_pending\<close>)
  show "reads (framed Q mint d0) (end_disposal svc m reason)" for svc m reason
    unfolding end_disposal_def by (intro reads_intros stable_framed framed_kept_write) (rule dispose_apart_entry)
  show "reads (framed Q mint d0) (ask_logged (\<lambda>_. Executed sb e) q)" if "ev_mint e \<noteq> mint" for sb e q
  proof -
    have "framed Q mint d0 (s\<lparr>w_tick := t, w_log := w_log s @ [Executed sb e]\<rparr>)" if h: "framed Q mint d0 s" for s t
    proof -
      have only: "in_flight mint (w_log s) sb'" if "in_flight mint (w_log s @ [Executed sb e]) sb'" for sb'
        using in_flight_snoc [OF that] \<open>ev_mint e \<noteq> mint\<close> by auto
      have "safe_history mint d0 (w_log s @ [Executed sb e])"
        using h \<open>ev_mint e \<noteq> mint\<close> only by (intro safe_history_snoc) (auto simp: framed_def hist_def safe_history_def)
      then show ?thesis using h by (auto simp: framed_def hist_def)
    qed
    then show ?thesis by (intro spec_ask_logged) auto
  qed
qed

end
