(* ===== verification/Engine_Kept.thy ===== *)
theory Engine_Kept
  imports Cycle Frames
begin

text \<open>
  What it takes for an invariant to hold through a whole cycle of the engine: a locale
  with one law per kind of step, and in it one lemma per operation up to the polls; and the
  locale that extends it by the law for rewriting the policies, in which the whole cycle is covered.
\<close>

section \<open>The steps of a cycle\<close>

text \<open>An update of the memory of the process, its policies and refills apart.\<close>

definition memory_local :: "(sys \<Rightarrow> sys) \<Rightarrow> bool" where
  "memory_local f \<longleftrightarrow> (\<forall>s. w_disk (f s) = w_disk s \<and> w_tick (f s) = w_tick s \<and> w_log (f s) = w_log s \<and>
     basis_refills (f s) = basis_refills s \<and> w_config (f s) = w_config s \<and> cur_positions (f s) = cur_positions s)"

definition pol_relaxed :: "PositionPolicy \<Rightarrow> PositionPolicy \<Rightarrow> bool" where
  "pol_relaxed p q \<longleftrightarrow> q = p \<or> (\<exists>lot. relax_stop p lot = Some q)"

text \<open>
  What is assumed of the services and the configuration (\<open>sane\<close>); the invariant \<open>J\<close>; the
  policies a poll may work with (\<open>pol_ok\<close>), those it may leave for the file
  (\<open>refill_ok\<close>), the lists of policies the engine may hold (\<open>good\<close>), and the mints whose
  bag may count as gone (\<open>absent\<close>).
\<close>

locale kept_by_engine =
  fixes sane :: bool and J :: "sys \<Rightarrow> bool" and pol_ok :: "PositionPolicy \<Rightarrow> bool"
    and refill_ok :: "PositionPolicy \<Rightarrow> bool" and good :: "PositionPolicy list \<Rightarrow> bool"
    and absent :: "string \<Rightarrow> bool" and svc :: services and fd :: feeds and cfg :: engine_config
  assumes engine_stable: "stable J"
    and engine_memory: "memory_local f \<Longrightarrow> J s \<Longrightarrow> J (f s)"
    and engine_write: "safe_path path \<Longrightarrow> (\<And>n. apart path (pending_path n)) \<Longrightarrow>
      reads J (db svc (\<lambda>now. store_set now path v))"
    and engine_sell: "sane \<Longrightarrow> reads J (sell svc (ec_exec cfg) m name reason observed amount pool)"
    and engine_config: "reads J (write_config doc)"
    and engine_refill: "pol_ok p \<Longrightarrow> J s \<Longrightarrow> 
      J (s\<lparr>basis_refills := basis_refills s @ [p\<lparr>pp_cost_basis_sol := None, pp_buy_price_sol := Some u\<rparr>]\<rparr>)"
    and engine_no_refills: "J s \<Longrightarrow> J (s\<lparr>basis_refills := []\<rparr>)"
    and engine_refills: "J s \<Longrightarrow> list_all refill_ok (basis_refills s)"
    and engine_positions: "J s \<Longrightarrow> good (cur_positions s)"
    and engine_set_positions: "good ps \<Longrightarrow> J s \<Longrightarrow> J (s\<lparr>cur_positions := ps\<rparr>)"
    and pol_basis: "pol_ok p \<Longrightarrow> pol_ok (p\<lparr>pp_cost_basis_sol := c, pp_buy_price_sol := b\<rparr>)"
    and good_relaxed: "good ps \<Longrightarrow> list_all2 pol_relaxed ps qs \<Longrightarrow> good qs"
    and good_merged: "sane \<Longrightarrow> good ps \<Longrightarrow> merge_defaults cfg rows prices ps = Inr (Some qs, created) \<Longrightarrow> good qs"
    and good_rewritten: "good ps \<Longrightarrow> list_all absent gone \<Longrightarrow> list_all refill_ok refills \<Longrightarrow>
      rewrite_lots_yaml gone stripped refills ps = Some qs \<Longrightarrow> good qs"
    and answered_absent: "token_holdings (svc_token_accounts svc t) = Inr hs \<Longrightarrow> find_holding m hs = None \<Longrightarrow> absent m"
begin

lemma memory_kept: "memory_local f \<Longrightarrow> reads J (modify f)"
  by (rule spec_modify) (rule engine_memory)

lemmas engine_intros = reads_intros engine_stable reads_mapM spec_holdings_now engine_write memory_kept

lemma engine_paths [simp]:
  "safe_path [''lots'', m]" "safe_path [''positions'', m]" "safe_path [''last_heartbeat_at'']"
  "safe_path [''pool_baselines'', m]" "safe_path [''supply_baselines'', m]" "safe_path [''quote_baselines'', m]"
  "apart [''lots'', m] (pending_path n)" "apart [''positions'', m] (pending_path n)"
  "apart [''pool_baselines'', m] (pending_path n)" "apart [''supply_baselines'', m] (pending_path n)"
  "apart [''quote_baselines'', m] (pending_path n)" "apart [''last_heartbeat_at''] (pending_path n)"
  by (simp_all add: safe_path_def pending_path_def)

lemma lot_kept:
  "reads J (lot_of svc m)" "reads J (write_lot svc r)" "reads J (persist_position_state svc m st)"
  "reads J (clock_now svc)" "reads J (dispose_enabled_now svc m p)" "reads J (position_state svc m)"
  unfolding lot_of_def write_lot_def persist_position_state_def clock_now_def dispose_enabled_now_def position_state_def
  by (intro engine_intros; simp)+

lemma external_kept: "reads J m \<Longrightarrow> reads J h \<Longrightarrow> reads J (catch_external m h)"
  unfolding catch_external_def by (intro engine_intros)

lemma gathered_kept: "reads J m \<Longrightarrow> reads J (gathered m)"
  unfolding gathered_def by (intro engine_intros)

lemma observed_basis_kept: "reads J (observed_basis_now fd owner holding lot)"
  unfolding observed_basis_now_def Let_def by (intro engine_intros) (simp_all add: memory_local_def)

lemma pool_kept: "reads J (pool_for svc fd m)"
  unfolding pool_for_def by (intro engine_intros)

lemma pump_kept: "reads J (pump_metadata_for fd cfg m)"
  unfolding pump_metadata_for_def pump_token_now_def Let_def
  by (intro engine_intros external_kept) (simp_all add: memory_local_def)

lemma safety_kept: "reads J (mint_safety_now fd m)"
  unfolding mint_safety_now_def by (intro engine_intros)

lemma assess_kept: "reads J (assess_now svc cfg holding pool safety quote)"
  unfolding assess_now_def by (intro engine_intros)

lemma record_kept: "reads J (record_now svc holding pool safety quote)"
  unfolding record_now_def by (intro engine_intros) simp_all

lemmas market_kept = engine_intros lot_kept external_kept gathered_kept observed_basis_kept pool_kept pump_kept
  safety_kept assess_kept record_kept

section \<open>One poll\<close>

lemma without_basis_ok: "pol_ok p \<Longrightarrow> pol_ok (policy_without_basis p)"
  unfolding policy_without_basis_def by (rule pol_basis)

lemma observe_basis_kept:
  assumes "pol_ok policy" shows "reads J (observe_basis svc fd cfg holding policy lot)"
proof -
  have "policy_without_basis policy\<lparr>pp_buy_price_sol := Some u, pp_cost_basis_sol := None\<rparr> =
      policy\<lparr>pp_cost_basis_sol := None, pp_buy_price_sol := Some u\<rparr>" for u
    by (simp add: policy_without_basis_def)
  then have refill: "reads J (modify (\<lambda>s. s\<lparr>basis_refills := basis_refills s @
      [policy_without_basis policy\<lparr>pp_buy_price_sol := Some u, pp_cost_basis_sol := None\<rparr>]\<rparr>))" for u
    by (intro spec_modify) (simp add: engine_refill assms)
  then show ?thesis
    unfolding observe_basis_def Let_def by (intro refill market_kept)
qed

lemma inspect_kept: "sane \<Longrightarrow> pol_ok policy \<Longrightarrow> reads J (inspect_position svc fd cfg holding policy slot)"
  unfolding inspect_position_def held_lot_now_def exit_quote_now_def confirm_rug_def announce_def act_on_def Let_def
  by (intro market_kept observe_basis_kept engine_sell)

section \<open>The policy list\<close>

lemma mutate_kept:
  fixes mutate :: "PositionPolicy list \<Rightarrow> (PositionPolicy list option \<times> 'x) io"
  assumes "\<And>ps. good ps \<Longrightarrow> yields J (mutate ps) (\<lambda>(qs, x). \<forall>q. qs = Some q \<longrightarrow> good q)"
    and "\<And>ms new. reads J (mark_policy_origin svc ms new)"
  shows "reads J (mutate_positions svc cfg mutate stamped_as)"
proof -
  have persist: "reads J (persist_positions svc cfg ps)" for ps
    unfolding persist_positions_def Let_def by (intro engine_intros engine_config)
  have set_positions: "good ps \<Longrightarrow> reads J (modify (\<lambda>s. s\<lparr>cur_positions := ps\<rparr>))" for ps
    by (intro spec_modify engine_set_positions)
  have current: "yields J (gets cur_positions) good"
    by (rule specI) (auto simp: gets_def engine_positions)
  have drop_fact: "reads J m" if "yields J m F" for m :: "'x io" and F
    by (rule spec_weaken [OF that]) auto
  have stamp: "reads J (case stamped_as of None \<Rightarrow> ret ()
      | Some (new_origin, touch) \<Rightarrow> mark_policy_origin svc (if touch = [] then map pp_mint ps else touch) new_origin)" for ps
    by (intro engine_intros assms(2))
  have commit: "reads J (bind (persist_positions svc cfg policies) (\<lambda>_.
      bind (modify (\<lambda>s. s\<lparr>cur_positions := policies\<rparr>)) (\<lambda>_. bind (case stamped_as of None \<Rightarrow> ret ()
      | Some (new_origin, touch) \<Rightarrow> mark_policy_origin svc (if touch = [] then map pp_mint policies else touch) new_origin)
        (\<lambda>_. ret extra))))"
    if "good policies" for policies and extra :: 'x
    by (intro set_positions persist stamp engine_intros that)
  show ?thesis
    unfolding mutate_positions_def
    apply (rule spec_bind [OF current], rule spec_fact)
    apply (rule spec_bind [OF assms(1)], assumption, rule spec_fact)
    subgoal for ps r
      by (cases r; cases "fst r") (simp_all add: commit reads_ret)
    done
qed

lemma mark_kept: "reads J (mark_policy_origin svc ms new)"
  by (induction ms) (auto intro!: market_kept)

lemma relax_all_yields: "yields J (relax_all svc ps) (\<lambda>(qs, relaxed). list_all2 pol_relaxed ps qs)"
proof (induction ps)
  case Nil
  then show ?case by (simp add: yields_ret)
next
  case (Cons p ps)
  show ?case
    apply (simp only: relax_all.simps)
    apply (rule yields_bind [OF yields_reads [OF lot_kept(1)]])
    apply (rule yields_bind [OF Cons.IH])
    apply (clarsimp split: option.split)
    apply (intro conjI impI allI yields_ret)
     apply (auto simp: pol_relaxed_def)
    done
qed

lemma relax_kept:
  assumes "good ps"
  shows "yields J (policies_relaxed_to_default_stop svc ps) (\<lambda>(qs, x). \<forall>q. qs = Some q \<longrightarrow> good q)"
  unfolding policies_relaxed_to_default_stop_def
proof (rule yields_bind [OF relax_all_yields])
  fix v :: "PositionPolicy list \<times> bool"
  assume v: "case v of (qs, relaxed) \<Rightarrow> list_all2 pol_relaxed ps qs"
  obtain qs relaxed where q: "v = (qs, relaxed)" by (cases v)
  have "good qs" using v q by (intro good_relaxed [OF assms]) simp
  then have "yields J (ret (if relaxed then Some qs else None, ())) (\<lambda>(qs, x). \<forall>q. qs = Some q \<longrightarrow> good q)"
    by (intro yields_ret) simp
  then show "yields J (case v of (next_policies, relaxed) \<Rightarrow> ret (if relaxed then Some next_policies else None, ()))
      (\<lambda>(qs, x). \<forall>q. qs = Some q \<longrightarrow> good q)"
    by (simp add: q)
qed

section \<open>Bags without a policy\<close>

lemma unmonitored_kept: "reads J (inspect_unmonitored svc fd cfg holding)"
  unfolding inspect_unmonitored_def Let_def by (intro market_kept)

lemma sweep_kept: "reads J (observe_unmonitored svc fd cfg holdings)"
  unfolding observe_unmonitored_def sweep_def Let_def
  by (intro market_kept unmonitored_kept) (simp_all add: memory_local_def)

lemma note_rows_kept: "reads J (note_rows svc rows)"
proof (induction rows)
  case (Cons row rows)
  then show ?case by (cases row) (auto intro!: market_kept simp: Let_def split: prod.split)
qed (simp add: reads_ret)

lemma observe_prices_kept: "reads J (observe_prices svc fd cfg holdings rows)"
proof (induction rows)
  case (Cons row rows)
  then show ?case by (cases row) (auto intro!: market_kept split: option.split)
qed (simp add: reads_ret)

lemma merge_kept: "sane \<Longrightarrow> good ps \<Longrightarrow> yields J (lift (merge_defaults cfg rows prices ps)) (\<lambda>(qs, x). \<forall>q. qs = Some q \<longrightarrow> good q)"
  by (rule spec_weaken [OF spec_lift_fact]) (auto intro: good_merged)

lemma defaults_kept: "sane \<Longrightarrow> reads J (schedule_and_apply_defaults svc fd cfg rows holdings)"
  unfolding schedule_and_apply_defaults_def
  by (intro market_kept note_rows_kept observe_prices_kept mutate_kept merge_kept mark_kept)

lemma report_kept: "reads J (report_new svc known mints)"
  by (induction svc known mints rule: report_new.induct) (auto intro!: market_kept)

lemma watch_kept: "sane \<Longrightarrow> reads J (watch_unmonitored svc fd cfg holdings policies)"
  unfolding watch_unmonitored_def Let_def
  by (intro market_kept report_kept sweep_kept defaults_kept) (simp_all add: memory_local_def)

section \<open>The cycle\<close>

lemma retire_kept: "reads J (retire_absent_lot svc m)"
  unfolding retire_absent_lot_def clear_runtime_lot_def by (intro market_kept)

lemma retire_mints_yields:
  "list_all absent ms \<Longrightarrow> yields J (retire_mints svc ms) (list_all (\<lambda>a. absent (fst a)))"
proof (induction ms)
  case (Cons m ms)
  have one: "yields J (bind (retire_absent_lot svc m) (\<lambda>act. ret (m, act))) (\<lambda>a. absent (fst a))"
    by (rule yields_bind [OF yields_reads [OF retire_kept]], rule yields_ret) (use Cons.prems in simp)
  have "yields J (retire_mints svc ms) (list_all (\<lambda>a. absent (fst a)))" using Cons by simp
  note rest = this [unfolded retire_mints_def]
  show ?case
    unfolding retire_mints_def mapM_io.simps
    by (rule yields_bind [OF one], rule yields_bind [OF rest], rule yields_ret) simp
qed (simp add: retire_mints_def yields_ret)

lemma visit_yields:
  assumes sane "\<And>m. find_holding m (rev holdings) = None \<Longrightarrow> absent m" "list_all pol_ok policies"
  shows "yields J (visit_policies svc fd cfg holdings slot policies) (list_all (\<lambda>a. absent (fst a)))"
  using assms(3)
proof (induction policies)
  case (Cons p ps)
  show ?case
  proof (cases "find_holding (pp_mint p) (rev holdings)")
    case None
    show ?thesis
      apply (simp only: visit_policies.simps None option.case)
      apply (rule yields_bind [OF yields_reads [OF retire_kept]])
      apply (rule yields_bind [OF yields_reads [OF lot_kept(5)]])
      apply (rule yields_bind [OF Cons.IH])
      using Cons.prems assms(2) [OF None] apply (auto intro: yields_ret)
      done
  next
    case (Some h)
    show ?thesis
      apply (simp only: visit_policies.simps Some option.case)
      apply (rule yields_bind [OF yields_reads [OF inspect_kept [OF assms(1)]]])
      using Cons apply auto
      done
  qed
qed (simp add: yields_ret)

lemma any_io_kept: "(\<And>x. reads J (f x)) \<Longrightarrow> reads J (any_io f xs)"
  by (induction xs) (auto intro!: reads_intros)

lemma slot_kept: "reads J (confirmed_slot_now svc fd policies)" "reads J (stored_mints svc)"
  unfolding confirmed_slot_now_def stored_mints_def by (intro market_kept any_io_kept)+

lemma finish_kept:
  assumes "list_all (\<lambda>a. absent (fst a)) actions"
  shows "reads J (finish_cycle svc cfg actions)"
proof -
  have gone: "list_all absent (marked act actions)" for act
    using assms by (auto simp: marked_def list_all_iff)
  have refills: "yields J (gets basis_refills) (list_all refill_ok)"
    by (rule specI) (auto simp: gets_def engine_refills)
  have rewrite: "reads J (mutate_positions svc cfg (\<lambda>current. ret (rewrite_lots_yaml (marked ''drop'' actions)
      (marked ''strip'' actions) refills current, ())) None)" if "list_all refill_ok refills" for refills
    by (rule mutate_kept, rule yields_ret, simp, intro allI impI)
      (rule good_rewritten [OF _ gone that], assumption+, rule mark_kept)
  have heartbeat: "reads J (maybe_heartbeat svc cfg)" "reads J (gate_status svc (ec_exec cfg))"
    unfolding maybe_heartbeat_def gate_status_def by (intro market_kept; simp)+
  show ?thesis
    unfolding finish_cycle_def
    by (intro reads_bind heartbeat spec_bind [OF refills] spec_fact) (rule rewrite)
qed

lemma holdings_yields: "yields J (holdings_now svc) (\<lambda>hs. \<forall>m. find_holding m hs = None \<longrightarrow> absent m)"
  unfolding holdings_now_def
  by (rule spec_weaken [OF spec_ask_logged_stable [OF engine_stable]]) (auto dest: answered_absent)

lemma find_rev: "find_holding m (rev hs) = None \<longleftrightarrow> find_holding m hs = None"
  by (auto simp: find_holding_def find_None_iff)

end

text \<open>A whole cycle also polls with the policies that the engine holds.\<close>

locale kept_by_cycle = kept_by_engine +
  assumes good_pol: "good ps \<Longrightarrow> list_all pol_ok ps"
begin

lemma cycle_kept:
  assumes sane shows "reads J (cycle svc fd cfg)"
proof -
  have policies: "yields J (gets cur_positions) (list_all pol_ok)"
    by (rule specI) (auto simp: gets_def good_pol engine_positions)
  have no_refills: "reads J (modify (\<lambda>s. s\<lparr>basis_refills := []\<rparr>))"
    by (intro spec_modify engine_no_refills)
  have drop_fact: "reads J m" if "yields J m F" for m :: "'x io" and F
    by (rule spec_weaken [OF that]) auto
  show ?thesis
    unfolding cycle_def
    apply (rule reads_bind, intro mutate_kept relax_kept mark_kept, assumption)
    apply (rule spec_bind [OF policies], rule spec_fact)
    apply (rule reads_bind, intro market_kept)
    apply (rule reads_bind, intro market_kept)
    apply (rule spec_bind [OF holdings_yields], rule spec_fact)
    apply (rule reads_if, rule reads_raise)
    apply (rule reads_bind [OF slot_kept(1)], rule reads_bind [OF no_refills], rule reads_bind [OF slot_kept(2)])
    apply (rule spec_bind [OF retire_mints_yields], simp add: list_all_iff, rule spec_fact)
    apply (rule spec_bind [OF visit_yields [OF assms]], simp add: find_rev, assumption, rule spec_fact)
    apply (rule reads_bind [OF watch_kept [OF assms]], rule finish_kept, simp)
    done
qed

end

end
