(* ===== verification/Poll.thy ===== *)
theory Poll
  imports Engine Frames
begin

text \<open>
  What one poll of one bag does (\<open>_inspect_position\<close> of
  \<open>joshibot/shitcoims_sentinel/engine.py\<close>): one specification per step, and the
  properties of the whole. A poll writes the lot, the memory and the baselines of its
  mint, none of which holds a pending exit, so the promise of the executor holds across
  polls; what it broadcasts is what the policy decided on the memory and the baselines
  the state file held when the poll began.
\<close>

section \<open>Writes apart from the pending exits\<close>

lemma poll_paths [simp]:
  "safe_path [''lots'', m]" "safe_path [''positions'', m]"
  "apart [''lots'', m] (pending_path n)" "apart [''positions'', m] (pending_path n)"
  "apart [''pool_baselines'', m] (pending_path n)" "apart [''supply_baselines'', m] (pending_path n)"
  "apart [''quote_baselines'', m] (pending_path n)"
  by (simp_all add: safe_path_def pending_path_def)

text \<open>What a poll reads of the state file before it decides.\<close>

definition memory_paths :: "string \<Rightarrow> string list set" where
  "memory_paths mint = {[''positions'', mint], [''pool_baselines'', mint], [''supply_baselines'', mint],
     [''quote_baselines'', mint]}"

definition same_memory :: "string \<Rightarrow> disk \<Rightarrow> disk \<Rightarrow> bool" where
  "same_memory mint d d' \<longleftrightarrow> (\<forall>p \<in> memory_paths mint. \<forall>t v. store_get t p v d' = store_get t p v d)"

lemma same_memory_refl [simp]: "same_memory mint d d"
  by (simp add: same_memory_def)

definition polling :: "(submission \<Rightarrow> evidence \<Rightarrow> bool) \<Rightarrow> string \<Rightarrow> disk \<Rightarrow> disk \<Rightarrow> sys \<Rightarrow> bool" where
  "polling ok mint d0 d s \<longleftrightarrow> hist ok mint d0 s \<and> same_memory mint d (w_disk s)"

lemma polling_hist: "polling ok mint d0 d s \<Longrightarrow> hist ok mint d0 s"
  by (simp add: polling_def)

lemma stable_polling: "stable (polling ok mint d0 d)"
  by (auto simp: stable_def polling_def hist_tick hist_quiet)

lemma polling_engine [simp]:
  "polling ok mint d0 d (s\<lparr>basis_retry := a\<rparr>) = polling ok mint d0 d s"
  "polling ok mint d0 d (s\<lparr>basis_refills := b\<rparr>) = polling ok mint d0 d s"
  "polling ok mint d0 d (s\<lparr>pump_cache := c\<rparr>) = polling ok mint d0 d s"
  by (simp_all add: polling_def hist_def)

lemma write_lot_spec:
  "spec (polling ok mint d0 d) (write_lot svc r) (\<lambda>_. polling ok mint d0 d) (polling ok mint d0 d)"
  unfolding write_lot_def
proof (rule spec_db)
  fix s d'
  assume p: "polling ok mint d0 d s"
    and w: "store_set (svc_clock svc (w_tick s)) [''lots'', lot_mint r] (to_mapping r) (w_disk s) = Inr d'"
  have "hist ok mint d0 (s\<lparr>w_disk := d', w_log := w_log s @ [Wrote d']\<rparr>)"
    using p set_apart_submission [OF _ _ w] by (intro hist_write) (auto simp: polling_def dest: hist_in_flight)
  moreover have "same_memory mint d d'"
    using p sf.get_put_apart [OF _ _ _ w]
    by (auto simp: polling_def same_memory_def memory_paths_def)
  ultimately show "polling ok mint d0 d (s\<lparr>w_disk := d', w_log := w_log s @ [Wrote d']\<rparr>)"
    by (simp add: polling_def)
qed simp

section \<open>The steps before the decision\<close>

lemmas polling_intros = reads_intros stable_polling

lemma reads_catch_external: "reads J m \<Longrightarrow> reads J h \<Longrightarrow> reads J (catch_external m h)"
  unfolding catch_external_def by (intro polling_intros)

lemma held_lot_reads: "reads (polling ok mint d0 d) (held_lot_now svc m)"
  unfolding held_lot_now_def lot_of_def clock_now_def Let_def by (intro polling_intros write_lot_spec)

lemma observed_basis_reads: "reads (polling ok mint d0 d) (observed_basis_now fd owner holding lot)"
  unfolding observed_basis_now_def Let_def by (intro polling_intros spec_modify) simp_all

lemma pool_for_reads: "reads (polling ok mint d0 d) (pool_for svc fd m)"
  unfolding pool_for_def by (intro polling_intros)

lemma pump_metadata_reads: "reads (polling ok mint d0 d) (pump_metadata_for fd cfg m)"
  unfolding pump_metadata_for_def pump_token_now_def Let_def
  by (intro polling_intros reads_catch_external spec_modify) simp_all

lemma mint_safety_reads: "reads (polling ok mint d0 d) (mint_safety_now fd m)"
  unfolding mint_safety_now_def by (intro polling_intros)

lemma gathered_reads: "reads J m \<Longrightarrow> reads J (gathered m)"
  unfolding gathered_def by (intro polling_intros)

subsection \<open>The basis and the signal\<close>

text \<open>
  The price references a poll may decide with: the policy's own, none, or what
  the chain says the lot cost.
\<close>

definition basis_reference ::
  "feeds \<Rightarrow> engine_config \<Rightarrow> TokenHolding \<Rightarrow> PositionPolicy \<Rightarrow> decimal option \<Rightarrow> decimal option \<Rightarrow> bool" where
  "basis_reference fd cfg holding policy buy cost \<longleftrightarrow>
     buy = pp_buy_price_sol policy \<and> cost = pp_cost_basis_sol policy \<or> buy = None \<and> cost = None \<or>
     (\<exists>t b reason. reconstruct_observed_basis (fd_history fd t) (fd_transaction fd t) (cfg_wallet (ec_exec cfg))
          holding OBSERVED_BASIS_MAX_TRANSACTIONS = Inr (Some b, reason) \<and>
        buy = Some (basis_unit_price_sol b) \<and> cost = None)"

definition polled_policy ::
  "feeds \<Rightarrow> engine_config \<Rightarrow> TokenHolding \<Rightarrow> PositionPolicy \<Rightarrow> PositionPolicy \<Rightarrow> bool" where
  "polled_policy fd cfg holding policy pol \<longleftrightarrow>
     (\<exists>buy cost stop. basis_reference fd cfg holding policy buy cost \<and> stop \<in> {None, pp_stop_loss_pct policy} \<and>
        pol = policy\<lparr>pp_buy_price_sol := buy, pp_cost_basis_sol := cost, pp_stop_loss_pct := stop\<rparr>)"

definition rebased :: "feeds \<Rightarrow> engine_config \<Rightarrow> TokenHolding \<Rightarrow> PositionPolicy \<Rightarrow> PositionPolicy \<Rightarrow> bool" where
  "rebased fd cfg holding policy pol \<longleftrightarrow>
     (\<exists>buy cost. basis_reference fd cfg holding policy buy cost \<and>
        pol = policy\<lparr>pp_buy_price_sol := buy, pp_cost_basis_sol := cost\<rparr>)"

lemma rebasedI:
  "basis_reference fd cfg holding policy buy cost \<Longrightarrow>
   rebased fd cfg holding policy (policy\<lparr>pp_buy_price_sol := buy, pp_cost_basis_sol := cost\<rparr>)"
  unfolding rebased_def by blast

lemma rebased_simps:
  "rebased fd cfg holding policy policy"
  "rebased fd cfg holding policy (policy_without_basis policy)"
proof -
  have "basis_reference fd cfg holding policy (pp_buy_price_sol policy) (pp_cost_basis_sol policy)"
    "basis_reference fd cfg holding policy None None"
    by (simp_all add: basis_reference_def)
  from this [THEN rebasedI] show "rebased fd cfg holding policy policy"
    "rebased fd cfg holding policy (policy_without_basis policy)"
    by (cases policy, simp add: policy_without_basis_def)+
qed

lemma rebased_observed:
  assumes "reconstruct_observed_basis (fd_history fd t) (fd_transaction fd t) (cfg_wallet (ec_exec cfg)) holding
      OBSERVED_BASIS_MAX_TRANSACTIONS = Inr (Some b, r)"
  shows "rebased fd cfg holding policy ((policy_without_basis policy)
      \<lparr>pp_buy_price_sol := Some (basis_unit_price_sol b), pp_cost_basis_sol := None\<rparr>)"
proof -
  have "basis_reference fd cfg holding policy (Some (basis_unit_price_sol b)) None"
    using assms unfolding basis_reference_def by blast
  from rebasedI [OF this] show ?thesis by (cases policy) (simp add: policy_without_basis_def)
qed

lemma rebased_effective:
  assumes "rebased fd cfg holding policy pol"
  shows "polled_policy fd cfg holding policy (effective_policy pol stop_live)"
proof -
  from assms obtain buy cost where b: "basis_reference fd cfg holding policy buy cost"
    and pol: "pol = policy\<lparr>pp_buy_price_sol := buy, pp_cost_basis_sol := cost\<rparr>"
    by (auto simp: rebased_def)
  have "\<exists>stop \<in> {None, pp_stop_loss_pct policy}. effective_policy pol stop_live =
      policy\<lparr>pp_buy_price_sol := buy, pp_cost_basis_sol := cost, pp_stop_loss_pct := stop\<rparr>"
    using pol by (cases policy) (auto simp: effective_policy_def)
  then show ?thesis using b unfolding polled_policy_def by blast
qed

lemma basis_read_Some:
  assumes "basis_read fd owner holding t = Inr (Some b, reason, cooldown)"
  shows "\<exists>r. reconstruct_observed_basis (fd_history fd t) (fd_transaction fd t) owner holding
    OBSERVED_BASIS_MAX_TRANSACTIONS = Inr (Some b, r)"
proof (cases "reconstruct_observed_basis (fd_history fd t) (fd_transaction fd t) owner holding
    OBSERVED_BASIS_MAX_TRANSACTIONS")
  case (Inl e)
  then show ?thesis using assms by (cases e) (simp_all add: basis_read_def)
qed (use assms in \<open>auto simp: basis_read_def\<close>)

lemma observed_basis_yields:
  "yields (polling ok mint d0 d) (observed_basis_now fd owner holding lot)
     (\<lambda>(basis, reason). \<forall>b. basis = Some b \<longrightarrow>
        (\<exists>t. \<exists>r. reconstruct_observed_basis (fd_history fd t) (fd_transaction fd t) owner holding
           OBSERVED_BASIS_MAX_TRANSACTIONS = Inr (Some b, r)))"
proof -
  let ?J = "polling ok mint d0 d"
  let ?G = "\<lambda>(basis, reason). \<forall>b. basis = Some b \<longrightarrow>
        (\<exists>t. \<exists>r. reconstruct_observed_basis (fd_history fd t) (fd_transaction fd t) owner holding
           OBSERVED_BASIS_MAX_TRANSACTIONS = Inr (Some b, r))"
  have read: "yields ?J (ask (basis_read fd owner holding)) (\<lambda>(basis, reason, cooldown). ?G (basis, reason))"
    apply (rule spec_weaken [OF spec_ask_stable [OF stable_polling]])
      apply assumption
     apply (clarsimp)
     apply (drule basis_read_Some)
     apply (erule exE)
     apply (rule exI, rule exI, assumption)
    apply assumption
    done
  have fresh: "yields ?J (bind (ask (basis_read fd owner holding)) (\<lambda>(basis, reason, cooldown).
       bind (modify (\<lambda>s. s\<lparr>basis_retry := f basis reason cooldown\<rparr>)) (\<lambda>_. ret (basis, reason)))) ?G" for f
  proof (rule yields_bind [OF read])
    fix v :: "ObservedBasis option \<times> string \<times> rat"
    assume g: "case v of (basis, reason, cooldown) \<Rightarrow> ?G (basis, reason)"
    obtain basis reason cooldown where v: "v = (basis, reason, cooldown)" by (cases v)
    have "yields ?J (bind (modify (\<lambda>s. s\<lparr>basis_retry := f basis reason cooldown\<rparr>)) (\<lambda>_. ret (basis, reason))) ?G"
      by (rule yields_bind [OF yields_reads], rule spec_modify, simp) (rule yields_ret, use g v in simp)
    then show "yields ?J (case v of (basis, reason, cooldown) \<Rightarrow>
        bind (modify (\<lambda>s. s\<lparr>basis_retry := f basis reason cooldown\<rparr>)) (\<lambda>_. ret (basis, reason))) ?G"
      by (simp add: v)
  qed
  show ?thesis
    unfolding observed_basis_now_def Let_def
    apply (rule yields_bind [OF yields_reads [OF reads_gets]], clarsimp split: option.split)
    apply (intro conjI allI impI fresh)
    apply (rule yields_ret, simp)
    done
qed

lemma observe_basis_yields:
  "yields (polling ok mint d0 d) (observe_basis svc fd cfg holding policy lot)
     (\<lambda>(pol, lot'). rebased fd cfg holding policy pol)"
proof (cases "basis_needs_observation lot policy")
  case True
  let ?J = "polling ok mint d0 d"
  have found: "yields ?J (bind (modify (\<lambda>s. s\<lparr>basis_refills := basis_refills s @ [pol]\<rparr>)) (\<lambda>_.
      bind (write_lot svc lot') (\<lambda>_. bind (notify svc sev m) (\<lambda>_. ret (pol, lot'))))) 
      (\<lambda>(pol, lot'). rebased fd cfg holding policy pol)"
    if "rebased fd cfg holding policy pol" for pol lot' sev m
    by (rule yields_bind [OF yields_reads], rule spec_modify, simp)
      (rule yields_bind [OF yields_reads [OF write_lot_spec]],
       rule yields_bind [OF yields_reads [OF spec_notify [OF stable_polling]]], rule yields_ret, simp add: that)
  show ?thesis
    unfolding observe_basis_def Let_def
    apply (simp only: True not_True_eq_False if_False)
    apply (rule yields_bind [OF observed_basis_yields], clarify)
    subgoal for basis reason
      apply (cases basis; simp only: option.case)
       apply (rule yields_bind [OF yields_reads [OF spec_notify [OF stable_polling]]])
       apply (rule yields_ret, simp add: rebased_simps)
      apply (rule found)
      using rebased_observed apply blast
      done
    done
qed (simp add: observe_basis_def yields_ret rebased_simps)

lemma same_memory_assess:
  assumes "same_memory (th_mint holding) d d'"
  shows "assess config t d' holding pool safety quote = assess config t d holding pool safety quote"
  using assms by (simp add: assess_def same_memory_def memory_paths_def)

lemma assess_yields:
  "yields (polling ok (th_mint holding) d0 d) (assess_now svc cfg holding pool safety quote)
     (\<lambda>rug. \<exists>t. assess (ec_rug cfg) t d holding pool safety quote = Inr rug)"
  by (rule specI)
    (fastforce simp: assess_now_def bind_def gets_def lift_def polling_def same_memory_assess)+

definition measured ::
  "engine_config \<Rightarrow> disk \<Rightarrow> TokenHolding \<Rightarrow> MintSafety option \<Rightarrow> ExitQuote option \<Rightarrow> RugSignal \<Rightarrow> bool" where
  "measured cfg d holding safety quote rug \<longleftrightarrow>
     (rs_emergency rug \<longrightarrow> (\<exists>t pool. assess (ec_rug cfg) t d holding pool safety quote = Inr rug))"

lemma confirm_yields:
  assumes "\<exists>t. assess (ec_rug cfg) t d holding pool safety quote = Inr rug"
  shows "yields (polling ok (th_mint holding) d0 d) (confirm_rug svc fd cfg holding safety quote pool rug)
     (\<lambda>(signal, traded, record_pool). measured cfg d holding safety quote signal)"
proof -
  have calm: "measured cfg d holding safety quote (no_rug why)" for why
    by (simp add: measured_def no_rug_def)
  have first: "measured cfg d holding safety quote rug" using assms by (auto simp: measured_def)
  show ?thesis
    unfolding confirm_rug_def catch_external_def
    apply (rule spec_if, rule yields_ret, simp add: first)
    apply (rule spec_catch)
     apply (rule yields_bind [OF yields_reads [OF pool_for_reads]])
     apply (rule yields_bind [OF assess_yields], rule spec_if)
      apply (rule yields_ret, auto simp: measured_def) [1]
     apply (rule yields_ret, simp add: calm)
    apply (rule spec_if)
     apply (rule yields_ret, simp add: calm)
    apply (rule spec_raise, simp)
    done
qed

section \<open>The decision and its execution\<close>

lemma persist_spec:
  "spec (hist ok mint d0) (persist_position_state svc m st) (\<lambda>_. hist ok mint d0) (hist ok mint d0)"
  unfolding persist_position_state_def by (rule spec_set_apart) simp_all

lemma record_now_spec:
  "spec (hist ok mint d0) (record_now svc holding pool safety quote) (\<lambda>_. hist ok mint d0) (hist ok mint d0)"
  unfolding record_now_def by (intro polling_intros spec_set_apart) simp_all

lemma announce_spec:
  "spec (hist ok mint d0) (announce svc policy prior decision) (\<lambda>_. hist ok mint d0) (hist ok mint d0)"
  unfolding announce_def by (intro polling_intros)

definition may_broadcast ::
  "services \<Rightarrow> engine_config \<Rightarrow> TokenHolding \<Rightarrow> Decision \<Rightarrow> submission \<Rightarrow> evidence \<Rightarrow> bool" where
  "may_broadcast svc cfg holding decision sb e \<longleftrightarrow> exits decision \<and>
     exec_ok svc (ec_exec cfg) (th_mint holding) (kind_text (d_kind decision))
       (requested_amount holding (d_sell_amount decision)) sb e"

lemma sell_keeps:
  assumes "signs_nonempty svc"
    and "\<And>sb e. exec_ok svc cfg mint reason (requested_amount observed amount) sb e \<Longrightarrow> ok sb e"
  shows "spec (hist ok mint d0) (sell svc cfg mint name reason observed amount pool) (\<lambda>_. hist ok mint d0) (hist ok mint d0)"
  by (rule spec_weaken [OF sell_spec [OF assms(1)]])
    (use assms(2) in \<open>auto simp: requested_amount_def\<close>)

lemma act_on_spec:
  assumes "signs_nonempty svc" and "\<And>sb e. may_broadcast svc cfg holding decision sb e \<Longrightarrow> ok sb e"
  shows "spec (hist ok (th_mint holding) d0) (act_on svc cfg holding policy pool decision)
    (\<lambda>_. hist ok (th_mint holding) d0) (hist ok (th_mint holding) d0)"
proof (cases "exits decision")
  case True
  have sale: "spec (hist ok (th_mint holding) d0)
      (sell svc (ec_exec cfg) (th_mint holding) name (kind_text (d_kind decision)) holding (d_sell_amount decision) pool)
      (\<lambda>_. hist ok (th_mint holding) d0) (hist ok (th_mint holding) d0)" for name
    by (rule sell_keeps [OF assms(1)]) (simp add: assms(2) may_broadcast_def True)
  show ?thesis
    unfolding act_on_def dispose_enabled_now_def Let_def by (intro polling_intros persist_spec sale)
qed (simp add: act_on_def reads_ret)

text \<open>
  What a poll may broadcast: an exit the policy decided on this balance, with a price
  reference as above, at no price or at one that Jupiter quoted for it, from the memory the file held for the bag, and, if the rug signal
  was an emergency, from a measurement against the baselines the file held.
\<close>

definition quoted :: "feeds \<Rightarrow> TokenHolding \<Rightarrow> ExitQuote option \<Rightarrow> bool" where
  "quoted fd holding quote \<longleftrightarrow> quote = None \<or>
     (\<exists>t now body q. quote = Some q \<and> fd_quote fd t (th_mint holding) (th_amount holding) = Inr body \<and>
        quote_exit (th_mint holding) (th_amount holding) now body = Inr q)"

lemma quotedI:
  "fd_quote fd t (th_mint holding) (th_amount holding) = Inr body \<Longrightarrow>
   quote_exit (th_mint holding) (th_amount holding) now body = Inr q \<Longrightarrow> quoted fd holding (Some q)"
  unfolding quoted_def by blast

lemma exit_quote_yields:
  "yields (polling ok mint d0 d) (exit_quote_now svc fd cfg holding policy) (quoted fd holding)"
  unfolding exit_quote_now_def catch_external_def
  apply (rule spec_if, rule yields_ret, simp add: quoted_def)
  apply (rule spec_catch)
   apply (rule yields_bind [OF spec_ask_stable [OF stable_polling]])
   apply (rule yields_bind [OF yields_reads [OF reads_gets]])
   apply (rule yields_bind [OF spec_lift_fact], rule yields_ret)
   apply (elim exE, rule quotedI, assumption+)
  apply (rule spec_if)
   apply (rule yields_bind [OF yields_reads [OF spec_notify [OF stable_polling]]])
   apply (rule yields_ret, simp add: quoted_def)
  apply (rule spec_raise, simp)
  done

definition poll_decides ::
  "feeds \<Rightarrow> engine_config \<Rightarrow> TokenHolding \<Rightarrow> PositionPolicy \<Rightarrow> int option \<Rightarrow> disk \<Rightarrow> Decision \<Rightarrow> bool" where
  "poll_decides fd cfg holding policy slot d decision \<longleftrightarrow>
     (\<exists>pol quote safety rug prior dispose complete t.
        polled_policy fd cfg holding policy pol \<and> quoted fd holding quote \<and>
        measured cfg d holding safety quote rug \<and>
        rbind (store_get t [''positions'', th_mint holding] (JObj []) d) state_of_mapping = Inr prior \<and>
        evaluate_position pol holding quote prior rug slot (Some dispose) complete = Inr decision)"

lemma position_state_yields:
  "yields (polling ok mint d0 d) (position_state svc mint)
     (\<lambda>prior. \<exists>t. rbind (store_get t [''positions'', mint] (JObj []) d) state_of_mapping = Inr prior)"
proof (rule specI)
  fix s v s'
  assume p: "polling ok mint d0 d s" and r: "position_state svc mint s = (Inr v, s')"
  let ?t = "svc_clock svc (w_tick s)"
  from r obtain raw where raw: "store_get ?t [''positions'', mint] (JObj []) (w_disk s) = Inr raw"
      "state_of_mapping raw = Inr v" and s': "s' = s"
    by (auto simp: position_state_def bind_def db_get_def lift_def split: sum.splits)
  have "store_get ?t [''positions'', mint] (JObj []) d = store_get ?t [''positions'', mint] (JObj []) (w_disk s)"
    using p by (simp add: polling_def same_memory_def memory_paths_def)
  with raw p s' show "polling ok mint d0 d s' \<and>
      (\<exists>t. rbind (store_get t [''positions'', mint] (JObj []) d) state_of_mapping = Inr v)"
    by (metis rbind_Inr)
next
  fix s e s'
  assume "polling ok mint d0 d s" and "position_state svc mint s = (Inl e, s')"
  then show "polling ok mint d0 d s'"
    by (auto simp: position_state_def bind_def db_get_def lift_def split: sum.splits)
qed

lemma decided_spec:
  assumes svc: "signs_nonempty svc"
    and ok: "\<And>sb e. may_broadcast svc cfg holding decision sb e \<Longrightarrow> ok sb e"
  shows "spec (polling ok (th_mint holding) d0 d)
    (bind (persist_position_state svc (th_mint holding) (d_next_state decision)) (\<lambda>_.
     bind (announce svc policy prior decision) (\<lambda>_.
     bind (act_on svc cfg holding policy traded decision) (\<lambda>result.
     bind (record_now svc holding record_pool safety quote) (\<lambda>_. ret result)))))
    (\<lambda>_. hist ok (th_mint holding) d0) (hist ok (th_mint holding) d0)"
  by (rule spec_pre [where P = "hist ok (th_mint holding) d0"],
      intro polling_intros persist_spec announce_spec act_on_spec [OF svc ok] record_now_spec)
    (simp_all add: polling_hist)

lemma inspect_position_spec:
  assumes svc: "signs_nonempty svc"
    and ok: "\<And>decision sb e. poll_decides fd cfg holding policy slot d decision \<Longrightarrow>
      may_broadcast svc cfg holding decision sb e \<Longrightarrow> ok sb e"
  shows "spec (polling ok (th_mint holding) d0 d) (inspect_position svc fd cfg holding policy slot)
    (\<lambda>_. hist ok (th_mint holding) d0) (hist ok (th_mint holding) d0)"
proof -
  let ?J = "polling ok (th_mint holding) d0 d"
  let ?H = "hist ok (th_mint holding) d0"
  have step: "spec ?J (bind m f) (\<lambda>_. ?H) ?H"
    if "yields ?J m F" "\<And>v. F v \<Longrightarrow> spec ?J (f v) (\<lambda>_. ?H) ?H" for m :: "'x io" and f :: "'x \<Rightarrow> 'y io" and F
    by (rule spec_bind [where R = "\<lambda>v s. ?J s \<and> F v"])
      (use that in \<open>auto intro: spec_weaken [OF that(1)] spec_fact dest: polling_hist\<close>)
  note read = step [OF yields_reads]
  show ?thesis
    unfolding inspect_position_def dispose_enabled_now_def clock_now_def
    apply (rule read [OF held_lot_reads])
    apply (rule step [OF observe_basis_yields], clarify)
    apply (rule step [OF exit_quote_yields])
    apply (rule read [OF gathered_reads [OF pool_for_reads]])
    apply (rule read [OF gathered_reads [OF mint_safety_reads]])
    apply (rule read [OF gathered_reads [OF pump_metadata_reads]])
    apply (rule step [OF assess_yields])
    apply (rule step [OF confirm_yields], assumption, clarify)
    apply (rule step [OF position_state_yields])
    apply (rule read, intro polling_intros)
    apply (rule read, intro polling_intros)
    apply (rule read [OF reads_lift])
    apply (rule step [OF spec_lift_fact])
    apply (rule decided_spec [OF svc ok])
     apply (unfold poll_decides_def)
     apply (elim exE)
     apply (intro exI conjI, erule rebased_effective, assumption+)
    done
qed

section \<open>Properties of a poll\<close>

lemma starts_polling: "safe_history mint d0 (w_log s) \<Longrightarrow> w_disk s = disk_after d0 (w_log s) \<Longrightarrow>
    polling (\<lambda>_ _. True) mint d0 (w_disk s) s"
  by (simp add: polling_def hist_def)

text \<open>
  C6 (safety). Every transaction a poll broadcasts is the execution of a decision of the
  pure policy: an exit that \<open>evaluate_position\<close> returned for this bag on its full
  observed balance, from the memory the state file held when the poll began, at a price
  quoted for it, with a price reference that is the policy's own or was read from the
  chain, and with an emergency only if it was measured against the baselines on file. It
  sells no more than the decision said, and passed the executor's checks.
\<close>

theorem poll_broadcasts_what_was_decided:
  assumes "signs_nonempty svc" and "w_log s = []"
    and "inspect_position svc fd cfg holding policy slot s = (r, s')"
    and "Executed sb e \<in> set (w_log s')"
  shows "\<exists>decision. poll_decides fd cfg holding policy slot (w_disk s) decision \<and>
    may_broadcast svc cfg holding decision sb e"
proof -
  let ?ok = "\<lambda>sb e. \<exists>decision. poll_decides fd cfg holding policy slot (w_disk s) decision \<and>
    may_broadcast svc cfg holding decision sb e"
  have "spec (polling ?ok (th_mint holding) (w_disk s) (w_disk s)) (inspect_position svc fd cfg holding policy slot)
      (\<lambda>_. hist ?ok (th_mint holding) (w_disk s)) (hist ?ok (th_mint holding) (w_disk s))"
    by (rule inspect_position_spec [OF assms(1)]) blast
  moreover have "polling ?ok (th_mint holding) (w_disk s) (w_disk s) s"
    using hist_Nil [OF assms(2)] by (simp add: polling_def)
  ultimately have "hist ?ok (th_mint holding) (w_disk s) s'"
    using assms(3) by (rule spec_hist)
  then show ?thesis using assms(4) unfolding hist_def by blast
qed

text \<open>A poll that finds a stop broken and sells: the services of the demonstration sale, three questions later.\<close>

definition poll_services :: services where
  "poll_services = demo_services\<lparr>svc_token_accounts := (\<lambda>t. demo_accounts (t - 3))\<rparr>"

definition poll_feeds :: feeds where
  "poll_feeds = \<lparr> fd_quote = (\<lambda>t mint amount. Inr (JObj demo_order)),
     fd_token_pairs = (\<lambda>t mint. Inl (ExternalServiceError ''dex'')),
     fd_pair = (\<lambda>t address. Inl (ExternalServiceError ''dex'')),
     fd_mint = (\<lambda>t mint. Inl (ExternalServiceError ''rpc'')), fd_pump = (\<lambda>t mint. Inr None),
     fd_history = (\<lambda>t account. Inr (JList [])), fd_transaction = (\<lambda>t sig. Inr JNull), fd_monotonic = (\<lambda>t. 0),
     fd_health = (\<lambda>t. Inr (JStr ''ok'')), fd_slot = (\<lambda>t. Inr (JInt 7)) \<rparr>"

definition poll_config :: engine_config where
  "poll_config = \<lparr> ec_exec = demo_config, ec_rug = sample_rug_config, ec_pump_metadata = False,
     ec_pump_cache_seconds = 60, ec_auto_discover = True, ec_max_unmonitored = 8, ec_sweep_seconds = 60,
     ec_heartbeat_hours = 24, ec_pubkey = Some, ec_float = id \<rparr>"

definition poll_policy :: PositionPolicy where
  "poll_policy = sample_policy\<lparr>pp_buy_price_sol := Some 1, pp_cost_basis_sol := None, pp_stop_loss_pct := Some (-50),
     pp_floor_confirm_quotes := 1\<rparr>"

definition demo_poll :: "(Decision \<times> ExecutionResult option) res \<times> sys" where
  "demo_poll = inspect_position poll_services poll_feeds poll_config demo_holding poll_policy None demo_start"

fun broadcast_pairs :: "action list \<Rightarrow> (string \<times> string) list" where
  "broadcast_pairs [] = []"
| "broadcast_pairs (Executed sb e # h) = (ev_mint e, sub_signature sb) # broadcast_pairs h"
| "broadcast_pairs (_ # h) = broadcast_pairs h"

lemma broadcast_pairs_parts:
  "broadcast_signatures h = map snd (broadcast_pairs h)" "broadcast_mints h = map fst (broadcast_pairs h)"
  by (induction h rule: broadcast_pairs.induct) simp_all

lemma demo_poll_broadcasts: "broadcast_pairs (w_log (snd demo_poll)) = [(''MINT'', ''SIG'')]"
  by code_simp

lemma demo_poll_executes:
  "\<exists>a sb e b. w_log (snd demo_poll) = a @ Executed sb e # b \<and> sub_signature sb = ''SIG'' \<and> ev_mint e = ''MINT''"
proof -
  obtain a sb e b where h: "w_log (snd demo_poll) = a @ Executed sb e # b" "sub_signature sb = ''SIG''"
    using broadcast_in_history [of "''SIG''" "w_log (snd demo_poll)"]
    by (auto simp: demo_poll_broadcasts broadcast_pairs_parts)
  moreover have "ev_mint e \<in> set (broadcast_mints (w_log (snd demo_poll)))"
    by (rule broadcast_mints_set [of sb]) (simp add: h(1))
  then have "ev_mint e = ''MINT''" by (simp only: broadcast_pairs_parts demo_poll_broadcasts) simp
  ultimately show ?thesis by blast
qed

lemma poll_signs: "signs_nonempty poll_services"
  using demo_signs by (simp add: signs_nonempty_def poll_services_def)

lemma demo_poll_run:
  "inspect_position poll_services poll_feeds poll_config demo_holding poll_policy None demo_start =
     (fst demo_poll, snd demo_poll)"
  by (simp add: demo_poll_def)

lemma demo_start_simps [simp]: "w_log demo_start = []" "w_disk demo_start = Missing"
  by (simp_all add: demo_start_def)

theorem poll_broadcasts_what_was_decided_witness:
  "\<exists>decision sb e. Executed sb e \<in> set (w_log (snd demo_poll)) \<and> sub_signature sb = ''SIG'' \<and>
     poll_decides poll_feeds poll_config demo_holding poll_policy None Missing decision \<and> exits decision"
proof -
  from demo_poll_executes obtain sb e where x: "Executed sb e \<in> set (w_log (snd demo_poll))" "sub_signature sb = ''SIG''"
    by (metis in_set_conv_decomp)
  from poll_broadcasts_what_was_decided [OF poll_signs _ demo_poll_run x(1)] x
  show ?thesis unfolding may_broadcast_def by force
qed

text \<open>
  Polls keep the executor's promise: if so far no exit of the bag was
  broadcast while another was in flight and the state file named what was in flight at
  every point, then the same holds after a poll, whatever it does, cut by a crash at any
  point; so it holds over any number of polls and restarts.
\<close>

lemma polls_keep_the_promise:
  assumes "signs_nonempty svc"
    and "safe_history (th_mint holding) d0 (w_log s)" and "w_disk s = disk_after d0 (w_log s)"
    and "inspect_position svc fd cfg holding policy slot s = (r, s')" and "w_log s' = h @ lost"
  shows "safe_history (th_mint holding) d0 h"
proof -
  let ?ok = "\<lambda>_ _. True"
  have "spec (polling ?ok (th_mint holding) d0 (w_disk s)) (inspect_position svc fd cfg holding policy slot)
      (\<lambda>_. hist ?ok (th_mint holding) d0) (hist ?ok (th_mint holding) d0)"
    by (rule inspect_position_spec [OF assms(1)]) simp
  then have "hist ?ok (th_mint holding) d0 s'"
    using starts_polling [OF assms(2,3)] assms(4) by (rule spec_hist)
  then show ?thesis using assms(5) safe_history_prefix by (auto simp: hist_def)
qed

subsection \<open>The second look\<close>

lemma reads_disk: "reads (\<lambda>s. w_disk s = d) (pool_for svc fd m)"
  unfolding pool_for_def by (intro polling_intros) (simp_all add: stable_def)

text \<open>A pool that is read costs one question to DexScreener, and no answer touches the disk.\<close>

lemma pool_for_asks:
  assumes "pool_for svc fd m s = (r, s1)"
  shows "w_disk s1 = w_disk s" and "r = Inr p \<Longrightarrow> w_tick s1 = Suc (w_tick s)"
proof -
  show "w_disk s1 = w_disk s" using reads_disk [of "w_disk s" svc fd m] assms by (auto simp: spec_def split: sum.splits)
  show "w_tick s1 = Suc (w_tick s)" if "r = Inr p"
    using assms that by (auto simp: pool_for_def bind_def gets_def lift_def ask_def split: sum.splits)
qed

lemma assess_now_value:
  "assess_now svc cfg holding pool safety quote s =
     (assess (ec_rug cfg) (svc_clock svc (w_tick s)) (w_disk s) holding pool safety quote, s)"
  by (simp add: assess_now_def bind_def gets_def lift_def)

text \<open>
  C10 (safety). An emergency that rests on reserves and a quote is acted on only after a
  second look: a question to DexScreener asked after it, whose answer, a pool or none, is assessed
  against the same baselines on file and gives the signal that counts. That fresh pool goes to the
  executor, and the one of the first look is what is to be recorded. If the second
  look fails or finds nothing, no emergency is left, the executor gets the first pool, and nothing
  is recorded as a baseline.
\<close>

theorem emergency_needs_a_second_look:
  assumes "confirm_rug svc fd cfg holding safety quote pool rug s = (Inr (signal, traded, recorded), s')"
    and "rs_emergency rug" and "rs_needs_confirmation rug"
  shows "w_disk s' = w_disk s \<and>
    (if rs_emergency signal
     then \<exists>again s1. pool_for svc fd (th_mint holding) s = (Inr again, s1) \<and> w_tick s1 = Suc (w_tick s) \<and>
       assess (ec_rug cfg) (svc_clock svc (w_tick s1)) (w_disk s) holding again safety quote = Inr signal \<and>
       traded = again \<and> recorded = pool
     else (signal = no_rug Transient_sample_rejected \<or> signal = no_rug Signal_not_confirmed) \<and>
       traded = pool \<and> recorded = None)"
proof -
  obtain r s1 where p: "pool_for svc fd (th_mint holding) s = (r, s1)" by fastforce
  note d = pool_for_asks(1) [OF p]
  show ?thesis
  proof (cases r)
    case (Inl e)
    then show ?thesis using assms p d
      by (auto simp: confirm_rug_def catch_external_def catch_def bind_def ret_def raise_def no_rug_def split: if_splits)
  next
    case (Inr again)
    note t = pool_for_asks(2) [OF p Inr]
    obtain a where a: "assess (ec_rug cfg) (svc_clock svc (w_tick s1)) (w_disk s) holding again safety quote = a" by blast
    show ?thesis using assms p d t Inr a
      by (cases a) (auto simp: confirm_rug_def catch_external_def catch_def bind_def ret_def raise_def no_rug_def
          assess_now_value split: if_splits)
  qed
qed

text \<open>
  A first look that found a drained pool; the second finds the reserve and the quote at a tenth of
  what is on file, and DexScreener may be down instead.
\<close>

definition alarm :: RugSignal where
  "alarm = \<lparr> rs_emergency = True, rs_reason = Some (Pool_reserve_fell 90 False), rs_liquidity_drop_pct = Some 90,
     rs_supply_growth_pct = None, rs_needs_confirmation = True \<rparr>"

definition look_start :: sys where
  "look_start = demo_start\<lparr>w_disk := Content (JObj
     (AList.update ''quote_baselines'' (JObj [(''MINT'', JDec 1)])
     (AList.update ''pool_baselines'' (JObj [(''MINT'', JObj [(''pair_address'', JStr ''VENUE''),
        (''reserve_value'', JDec 40), (''reserve_unit'', JStr ''USD'')])]) (initial_state 0))))\<rparr>"

definition look_quote :: ExitQuote where
  "look_quote = \<lparr> eq_input_mint = ''MINT'', eq_input_amount = 5, eq_out_lamports = 500000000, eq_minimum_out_lamports = None,
     eq_price_impact_pct = None, eq_router = None, eq_received_at = 0 \<rparr>"

definition second_look :: "json res \<Rightarrow> (RugSignal \<times> PoolSnapshot option \<times> PoolSnapshot option) res \<times> sys" where
  "second_look answer = confirm_rug poll_services (poll_feeds\<lparr>fd_pair := \<lambda>t address. answer\<rparr>) poll_config demo_holding None
     (Some look_quote) None alarm look_start"

definition venue_now :: "json res" where
  "venue_now = Inr (JObj [(''pairs'', JList [demo_pair ''VENUE'' ''MINT'' ''USDC'' 4])])"

lemma second_look_result:
  "map_sum id (\<lambda>(signal, traded, recorded). (rs_emergency signal, map_option ps_reserve_value traded)) (fst (second_look venue_now)) =
     Inr (True, Some 4)"
  "map_sum id (\<lambda>(signal, traded, recorded). rs_emergency signal) (fst (second_look (Inl (ExternalServiceError ''dex'')))) = Inr False"
  by code_simp+

lemma second_look_runs:
  assumes "map_sum id f (fst (second_look answer)) = Inr v"
  obtains signal traded recorded where "f (signal, traded, recorded) = v" "fst (second_look answer) = Inr (signal, traded, recorded)"
    "confirm_rug poll_services (poll_feeds\<lparr>fd_pair := \<lambda>t address. answer\<rparr>) poll_config demo_holding None
       (Some look_quote) None alarm look_start = (Inr (signal, traded, recorded), snd (second_look answer))"
proof -
  obtain x where x: "fst (second_look answer) = Inr x" "f x = v" using assms by (cases "fst (second_look answer)") auto
  obtain signal traded recorded where "x = (signal, traded, recorded)" by (rule prod_cases3)
  then show thesis using that x unfolding second_look_def by (metis prod.collapse)
qed

theorem emergency_needs_a_second_look_witness:
  "(\<exists>signal again s1. pool_for poll_services (poll_feeds\<lparr>fd_pair := \<lambda>t address. venue_now\<rparr>) ''MINT'' look_start = (Inr again, s1) \<and>
      map_option ps_reserve_value again = Some 4 \<and> rs_emergency signal \<and>
      assess sample_rug_config (svc_clock poll_services (w_tick s1)) (w_disk look_start) demo_holding again None (Some look_quote) =
        Inr signal) \<and>
   (\<exists>signal traded. fst (second_look (Inl (ExternalServiceError ''dex''))) = Inr (signal, traded, None) \<and> \<not> rs_emergency signal)"
proof
  have a: "rs_emergency alarm" "rs_needs_confirmation alarm" by (simp_all add: alarm_def)
  show "\<exists>signal again s1. pool_for poll_services (poll_feeds\<lparr>fd_pair := \<lambda>t address. venue_now\<rparr>) ''MINT'' look_start = (Inr again, s1) \<and>
      map_option ps_reserve_value again = Some 4 \<and> rs_emergency signal \<and>
      assess sample_rug_config (svc_clock poll_services (w_tick s1)) (w_disk look_start) demo_holding again None (Some look_quote) =
        Inr signal"
    by (rule second_look_runs [OF second_look_result(1)])
      (drule emergency_needs_a_second_look [OF _ a], auto simp: demo_holding_def poll_config_def split: if_splits)
  show "\<exists>signal traded. fst (second_look (Inl (ExternalServiceError ''dex''))) = Inr (signal, traded, None) \<and> \<not> rs_emergency signal"
    by (rule second_look_runs [OF second_look_result(2)])
      (drule emergency_needs_a_second_look [OF _ a], auto split: if_splits)
qed

end
