(* ===== verification/Engine_Run.thy ===== *)
theory Engine_Run
  imports Engine_Kept Poll
begin

text \<open>
  The engine as a whole: a history of its cycles, panics and restarts over all bags of
  the wallet. Each step keeps, for every mint, the promise of the executor, but for a restart
  that drops an entry whose signature was never looked at; a history carries the mints so exposed.
\<close>

section \<open>A cycle keeps every promise\<close>

lemma sell_wallet:
  assumes "signs_nonempty svc"
  shows "reads (wallet mint d0) (sell svc cfg m name reason observed amount pool)"
proof (cases "m = mint")
  case True
  have "spec (wallet m d0) (sell svc cfg m name reason observed amount pool) (\<lambda>_. wallet m d0) (wallet m d0)"
    by (rule spec_weaken [OF sell_spec [OF assms]]) auto
  then show ?thesis using True by simp
next
  case False
  then show ?thesis using framed.sell_kept [of m mint "\<lambda>_. True"] by simp
qed

lemma write_config_wallet: "reads (wallet mint d0) (write_config doc)"
  unfolding write_config_def
proof (rule spec_modify)
  fix s assume "wallet mint d0 s"
  from hist_quiet [OF this, of "Wrote_config doc" "w_tick s"]
  show "wallet mint d0 (s\<lparr>w_config := doc, w_log := w_log s @ [Wrote_config doc]\<rparr>)" by (simp add: hist_def)
qed

interpretation promise: kept_by_cycle "signs_nonempty svc" "wallet mint d0" "\<lambda>_. True" "\<lambda>_. True" "\<lambda>_. True"
    "\<lambda>_. True" svc fd cfg
  for svc mint d0 fd cfg
proof unfold_locales
  show "stable (wallet mint d0)" by (rule stable_hist)
  show "wallet mint d0 (f s)" if "memory_local f" "wallet mint d0 s" for f s
    using that by (auto simp: memory_local_def hist_def)
  show "reads (wallet mint d0) (db svc (\<lambda>now. store_set now path v))"
    if "safe_path path" "\<And>n. apart path (pending_path n)" for path v
    by (rule spec_set_apart [OF that])
qed (auto simp: sell_wallet write_config_wallet hist_def list_all_iff)

lemma cycle_wallet: "signs_nonempty svc \<Longrightarrow> reads (wallet mint d0) (cycle svc fd cfg)"
  by (rule promise.cycle_kept)

lemma panic_wallet: "signs_nonempty svc \<Longrightarrow> reads (wallet mint d0) (panic svc cfg)"
  unfolding panic_def Let_def by (intro reads_intros reads_mapM spec_holdings_now sell_wallet)

section \<open>A restart\<close>

text \<open>A turn of the reconciliation touches the mint of its entry only.\<close>

context kept_by_sales
begin

lemma clear_exit_kept: "sells m \<Longrightarrow> reads J (clear_pending_exit svc m msg)"
  unfolding clear_pending_exit_def by (intro kept_intros)

lemma hold_kept: "sells m \<Longrightarrow> reads J (hold_terminal_intent svc m stored name)"
  unfolding hold_terminal_intent_def by (intro kept_intros)

lemma settle_absent_kept: "sells m \<Longrightarrow> reads J (settle_absent_holding svc m stored name)"
  unfolding settle_absent_holding_def by (intro kept_intros resolve_prior_kept)

lemma resume_kept: "sells m \<Longrightarrow> reads J (resume_entry svc cfg m stored name holding)"
  unfolding resume_entry_def by (intro kept_intros sell_kept clear_exit_kept)

lemma reconcile_entry_kept:
  "sells m \<Longrightarrow> reads J (reconcile_entry svc cfg holdings m entry)"
  unfolding reconcile_entry_def Let_def
  by (intro kept_intros settle_absent_kept hold_kept clear_exit_kept resume_kept)

end

text \<open>What the file lists for a mint is what is on file when its turn comes.\<close>

abbreviation listed :: "obj \<Rightarrow> string \<Rightarrow> json res \<Rightarrow> bool" where
  "listed entries mint r \<equiv> (\<forall>e. map_of entries mint = Some e \<longrightarrow> r = Inr e)"

lemma reconcile_entries_spec:
  assumes "signs_nonempty svc" and "count_list (map fst entries) mint \<le> 1"
    and "\<And>stored. (mint, JObj stored) \<in> set entries \<Longrightarrow> resumable stored holdings mint"
  shows "spec (framed (listed entries mint) mint d0) (reconcile_entries svc cfg holdings entries)
    (\<lambda>_. wallet mint d0) (wallet mint d0)"
  using assms(2,3)
proof (induction entries)
  case Nil
  then show ?case by (simp add: reads_ret)
next
  case (Cons x rest)
  obtain m e where x: "x = (m, e)" by (cases x)
  show ?case
  proof (cases "m = mint")
    case True
    then have "mint \<notin> set (map fst rest)" using Cons.prems(1) x by (simp add: count_list_0_iff)
    then have gone: "map_of rest mint = None" by (simp add: map_of_eq_None_iff)
    have "spec (framed (listed rest mint) mint d0) (reconcile_entries svc cfg holdings rest)
        (\<lambda>_. wallet mint d0) (wallet mint d0)"
      using Cons.IH Cons.prems x by (simp split: if_splits)
    then have rest: "reads (wallet mint d0) (reconcile_entries svc cfg holdings rest)" using gone by simp
    have "spec (framed (\<lambda>r. r = Inr e) mint d0) (reconcile_entry svc cfg holdings mint e)
        (\<lambda>_. wallet mint d0) (wallet mint d0)"
      by (rule spec_pre [OF reconcile_entry_spec [OF assms(1)]])
        (use Cons.prems(2) x True in \<open>auto simp: framed_def pending_entry_def\<close>)
    then show ?thesis using True x rest by (auto intro: spec_bind)
  next
    case False
    have "spec (framed (listed rest mint) mint d0) (reconcile_entries svc cfg holdings rest)
        (\<lambda>_. wallet mint d0) (wallet mint d0)"
      using Cons.IH Cons.prems x by (simp split: if_splits)
    moreover have "spec (framed (listed rest mint) mint d0) (reconcile_entry svc cfg holdings m e)
        (\<lambda>_. framed (listed rest mint) mint d0) (wallet mint d0)"
      by (rule spec_weaken [OF framed.reconcile_entry_kept [OF False]]) (auto simp: framed_def)
    ultimately show ?thesis using False x by (auto intro: spec_bind)
  qed
qed

text \<open>
  A mint is exposed by a restart that finds an entry of it on file that is not \<open>resumable\<close>
  with the bags that are then observed: it has a signature and wants none of the bag or more than there
  is, and the executor refuses it before it looks at the signature (the case in
  which \<open>resume_forgets_the_signature\<close> loses it). The file is a dict and lists a mint once.
\<close>

definition exposed :: "services \<Rightarrow> sys \<Rightarrow> string \<Rightarrow> bool" where
  "exposed svc s mint \<longleftrightarrow>
     (\<exists>entries. store_get 0 [''pending_exits''] (JObj []) (w_disk s) = Inr (JObj entries) \<and>
        (1 < count_list (map fst entries) mint \<or>
         (\<exists>holdings stored. fst (holdings_now svc s) = Inr holdings \<and> (mint, JObj stored) \<in> set entries \<and>
            \<not> resumable stored holdings mint)))"

lemma listed_on_file:
  assumes "store_get 0 [''pending_exits''] (JObj []) d = Inr (JObj entries)" "map_of entries mint = Some e"
  shows "pending_entry mint d = Inr e"
  using assms
  by (auto simp: store_get_def pending_entry_def pending_path_def rbind_Inr split: option.splits json.splits)

lemma holdings_framed:
  assumes "framed Q mint d0 s" "holdings_now svc s = (r, s')"
  shows "framed Q mint d0 s'"
  using spec_holdings_now [OF stable_framed, of Q mint d0 svc] assms by (cases r) (auto dest: spec_Inl spec_Inr)

lemma restart_wallet:
  assumes "signs_nonempty svc" and "\<not> exposed svc s mint" and "wallet mint d0 s"
    and "reconcile_pending_exits svc cfg s = (r, s')"
  shows "wallet mint d0 s'"
proof (cases "\<exists>entries. store_get 0 [''pending_exits''] (JObj []) (w_disk s) = Inr (JObj entries) \<and> entries \<noteq> []")
  case False
  have "store_get (svc_clock svc (w_tick s)) [''pending_exits''] (JObj []) (w_disk s) =
      store_get 0 [''pending_exits''] (JObj []) (w_disk s)"
    by (rule store_get_now) (simp add: safe_path_def)
  then have "s' = s" using assms(4) False
    by (auto simp: reconcile_pending_exits_def bind_def db_get_def ret_def split: sum.splits option.splits json.splits if_splits)
  then show ?thesis using assms(3) by simp
next
  case True
  then obtain entries where e: "store_get 0 [''pending_exits''] (JObj []) (w_disk s) = Inr (JObj entries)" "entries \<noteq> []"
    by blast
  have "store_get (svc_clock svc (w_tick s)) [''pending_exits''] (JObj []) (w_disk s) = Inr (JObj entries)"
    using e(1) store_get_now [of "[''pending_exits'']" "svc_clock svc (w_tick s)" _ _ 0] by (simp add: safe_path_def)
  then have run: "bind (holdings_now svc) (\<lambda>holdings. reconcile_entries svc cfg holdings entries) s = (r, s')"
    using assms(4) e(2) by (simp add: reconcile_pending_exits_def bind_def db_get_def)
  have f: "framed (listed entries mint) mint d0 s"
    using assms(3) listed_on_file [OF e(1)] by (simp add: framed_def)
  obtain hr s1 where h: "holdings_now svc s = (hr, s1)" by fastforce
  note f1 = holdings_framed [OF f h]
  show ?thesis
  proof (cases hr)
    case (Inl x)
    then show ?thesis using run h f1 by (auto simp: bind_def framed_def)
  next
    case (Inr holdings)
    have "spec (framed (listed entries mint) mint d0) (reconcile_entries svc cfg holdings entries)
        (\<lambda>_. wallet mint d0) (wallet mint d0)"
      using assms(2) e(1) h Inr by (intro reconcile_entries_spec assms(1)) (auto simp: exposed_def)
    moreover note f1
    moreover have "reconcile_entries svc cfg holdings entries s1 = (r, s')" using run h Inr by (simp add: bind_def)
    ultimately show ?thesis by (rule spec_hist)
  qed
qed

section \<open>Histories of the engine\<close>

text \<open>
  A history of the whole wallet from the state file \<open>d0\<close>: cycles, panics and restarts, by
  one process after another with its own configuration, answers and memory, each cut by a
  crash at any point; what is asked and notified between them, edits of the policy file,
  and writes of the state file by others that leave the pending exits alone.
\<close>

definition between_steps :: "disk \<Rightarrow> action list \<Rightarrow> action \<Rightarrow> bool" where
  "between_steps d0 h x \<longleftrightarrow>
     quiet x \<or> (\<exists>d. x = Wrote d \<and> (\<forall>mint. pending_entry mint d = pending_entry mint (disk_after d0 h)))"

text \<open>A step and the mints it exposes: a restart may, a cycle and a panic expose none.\<close>

inductive engine_step :: "string set \<Rightarrow> sys \<Rightarrow> sys \<Rightarrow> bool" where
  cycle: "signs_nonempty svc \<Longrightarrow> cycle svc fd cfg s = (r, s') \<Longrightarrow> engine_step {} s s'"
| panic: "signs_nonempty svc \<Longrightarrow> panic svc cfg s = (r', s') \<Longrightarrow> engine_step {} s s'"
| restart: "signs_nonempty svc \<Longrightarrow> reconcile_pending_exits svc ecfg s = (r'', s') \<Longrightarrow>
    engine_step {mint. exposed svc s mint} s s'"

text \<open>The set is that of the mints that any restart of the history has exposed.\<close>

inductive engine_history :: "disk \<Rightarrow> string set \<Rightarrow> action list \<Rightarrow> bool" for d0 where
  start: "engine_history d0 {} []"
| step: "engine_history d0 X h \<Longrightarrow> w_log s = h \<Longrightarrow> w_disk s = disk_after d0 h \<Longrightarrow> engine_step Y s s' \<Longrightarrow>
    w_log s' = h' @ lost \<Longrightarrow> engine_history d0 (X \<union> Y) h'"
| between: "engine_history d0 X h \<Longrightarrow> between_steps d0 h x \<Longrightarrow> engine_history d0 X (h @ [x])"

lemma step_wallet:
  assumes "engine_step Y s s'" "mint \<notin> Y" "wallet mint d0 s" shows "wallet mint d0 s'"
  using assms(1)
proof cases
  case (cycle svc fd cfg r)
  show ?thesis by (rule spec_hist [OF cycle_wallet [OF cycle(2)] assms(3) cycle(3)])
next
  case (panic svc cfg r')
  show ?thesis by (rule spec_hist [OF panic_wallet [OF panic(2)] assms(3) panic(3)])
next
  case (restart svc ecfg r'')
  then have "\<not> exposed svc s mint" using assms(2) by simp
  from restart_wallet [OF restart(2) this assms(3) restart(3)] show ?thesis .
qed

lemma engine_history_safe: "engine_history d0 X h \<Longrightarrow> mint \<notin> X \<Longrightarrow> safe_history mint d0 h"
proof (induction rule: engine_history.induct)
  case (step X h s Y s' h' lost)
  then have "wallet mint d0 s" by (simp add: hist_def)
  from step_wallet [OF step.hyps(4) _ this] step.prems step.hyps(5) show ?case
    using safe_history_prefix by (auto simp: hist_def)
next
  case (between X h x)
  note IH = between.IH [OF between.prems]
  show ?case
  proof (rule safe_history_snoc [OF IH])
    fix sb assume "in_flight mint (h @ [x]) sb"
    then have "in_flight mint h sb"
      using in_flight_snoc between.hyps(2) by (fastforce simp: quiet_def between_steps_def)
    then have stored: "stored_submission mint (disk_after d0 h) = Some sb"
      using IH by (auto simp: safe_history_def)
    have "pending_entry mint (disk_after d0 (h @ [x])) = pending_entry mint (disk_after d0 h)"
      using between.hyps(2) disk_after_quiet by (auto simp: between_steps_def)
    from submission_of_entry [OF this] show "stored_submission mint (disk_after d0 (h @ [x])) = Some sb"
      using stored by (rule trans)
  qed (use between.hyps(2) in \<open>auto simp: quiet_def between_steps_def\<close>)
qed simp

text \<open>
  C7 (invariant). Over any history of the engine (cycles over all bags, panics, restarts of
  any kind, each cut by a crash anywhere, with any answers, edits of the policy file and other writes
  of the state file between them that leave the pending exits alone) no exit of a mint is broadcast while another exit of
  that mint is in flight, and at every point the state file names what is in flight of
  each mint, except for the mints that a restart has exposed: those of which it found an
  entry whose signature the executor does not look at because it refuses the amount.
\<close>

theorem engine_keeps_one_exit_per_mint:
  assumes "engine_history d0 X h"
  shows "(\<forall>a sb e b sb'. h = a @ Executed sb e # b \<longrightarrow> ev_mint e \<notin> X \<longrightarrow> \<not> in_flight (ev_mint e) a sb') \<and>
    (\<forall>mint sb. mint \<notin> X \<longrightarrow> in_flight mint h sb \<longrightarrow> stored_submission mint (disk_after d0 h) = Some sb)"
  using engine_history_safe [OF assms] by (auto simp: safe_history_def)

text \<open>A cycle over a wallet with one bag, whose stop is broken: the bag is sold.\<close>

definition cycle_services :: services where
  "cycle_services = demo_services\<lparr>svc_token_accounts := (\<lambda>t. demo_accounts (t - 6))\<rparr>"

definition cycle_config :: engine_config where
  "cycle_config = poll_config\<lparr>ec_pubkey := sample_pubkey\<rparr>"

definition cycle_start :: sys where
  "cycle_start = demo_start\<lparr>cur_positions := [poll_policy]\<rparr>"

definition demo_cycle :: "unit res \<times> sys" where
  "demo_cycle = cycle cycle_services poll_feeds cycle_config cycle_start"

lemma demo_cycle_broadcasts: "broadcast_pairs (w_log (snd demo_cycle)) = [(''MINT'', ''SIG'')]"
  by code_simp

lemma cycle_signs: "signs_nonempty cycle_services"
  using demo_signs by (simp add: signs_nonempty_def cycle_services_def)

lemma demo_cycle_run: "cycle cycle_services poll_feeds cycle_config cycle_start = (fst demo_cycle, snd demo_cycle)"
  by (simp add: demo_cycle_def)

text \<open>The bag is sold by the first cycle; then the process is restarted.\<close>

definition demo_after :: sys where
  "demo_after = snd (reconcile_pending_exits cycle_services demo_config (snd demo_cycle))"

lemma demo_cycle_disk: "w_disk (snd demo_cycle) = disk_after Missing (w_log (snd demo_cycle))"
  by code_simp

lemma demo_after_log: "store_get 0 [''pending_exits''] (JObj []) (w_disk (snd demo_cycle)) = Inr (JObj []) \<and>
    w_log demo_after = w_log (snd demo_cycle)"
  by code_simp

lemma demo_engine_history: "engine_history Missing {} (w_log demo_after)"
proof -
  have "engine_history Missing ({} \<union> {}) (w_log (snd demo_cycle))"
  proof (rule engine_history.step [OF engine_history.start])
    show "w_log cycle_start = []" "w_disk cycle_start = disk_after Missing []"
      by (simp_all add: cycle_start_def)
    show "engine_step {} cycle_start (snd demo_cycle)" by (rule engine_step.cycle [OF cycle_signs demo_cycle_run])
    show "w_log (snd demo_cycle) = w_log (snd demo_cycle) @ []" by simp
  qed
  moreover have "engine_step {m. exposed cycle_services (snd demo_cycle) m} (snd demo_cycle) demo_after"
    by (rule engine_step.restart [OF cycle_signs]) (simp add: demo_after_def prod_eq_iff)
  ultimately have "engine_history Missing ({} \<union> {} \<union> {m. exposed cycle_services (snd demo_cycle) m}) (w_log demo_after)"
    by (rule engine_history.step [OF _ refl demo_cycle_disk, where lost = "[]"]) simp
  moreover have "{m. exposed cycle_services (snd demo_cycle) m} = {}"
    using demo_after_log by (auto simp: exposed_def)
  ultimately show ?thesis by simp
qed

theorem engine_keeps_one_exit_per_mint_witness:
  "\<exists>a sb e b. w_log demo_after = a @ Executed sb e # b \<and> sub_signature sb = ''SIG'' \<and>
     (\<forall>sb'. \<not> in_flight (ev_mint e) a sb')"
proof -
  have "w_log demo_after = w_log (snd demo_cycle)" using demo_after_log by simp
  then obtain a sb e b where h: "w_log demo_after = a @ Executed sb e # b" "sub_signature sb = ''SIG''"
    using broadcast_in_history [of "''SIG''" "w_log (snd demo_cycle)"]
    by (auto simp: demo_cycle_broadcasts broadcast_pairs_parts)
  with engine_keeps_one_exit_per_mint [OF demo_engine_history] show ?thesis by blast
qed

end
