(* ===== verification/Engine_Rules.thy ===== *)
theory Engine_Rules
  imports Engine_Run
begin

text \<open>
  What a cycle of the engine does to the policies by itself: price references, stops that
  are only loosened, default policies for new bags, and removals for bags that are gone.
  And where the policy of a bag that is gone outlives the cycle that meant to drop it.
\<close>

section \<open>The rules of the operator\<close>

definition looser :: "decimal option \<Rightarrow> decimal option \<Rightarrow> bool" where
  "looser old new \<longleftrightarrow> new = old \<or>
     (\<exists>x. old = Some x \<and> new = pd_stop_loss_pct DEFAULTS \<and>
        (case pd_stop_loss_pct DEFAULTS of None \<Rightarrow> True | Some d \<Rightarrow> d < x))"

lemma looser_refl [simp]: "looser a a"
  by (simp add: looser_def)

lemma looser_trans: "looser a b \<Longrightarrow> looser b c \<Longrightarrow> looser a c"
  by (auto simp: looser_def split: option.splits)

text \<open>The same policy but for its price reference and a looser stop.\<close>

definition same_rule :: "PositionPolicy \<Rightarrow> PositionPolicy \<Rightarrow> bool" where
  "same_rule q p \<longleftrightarrow> pp_mint p = pp_mint q \<and> pp_name p = pp_name q \<and>
     looser (pp_stop_loss_pct q) (pp_stop_loss_pct p) \<and> pp_take_profit_pct p = pp_take_profit_pct q \<and>
     pp_runner_tightness p = pp_runner_tightness q \<and> pp_rug_exit p = pp_rug_exit q \<and>
     pp_dispose_after_break_even p = pp_dispose_after_break_even q \<and>
     pp_floor_confirm_quotes p = pp_floor_confirm_quotes q \<and>
     pp_hold_trail_until_graduated p = pp_hold_trail_until_graduated q"

lemma same_rule_refl [simp]: "same_rule p p"
  by (simp add: same_rule_def looser_def)

lemma same_rule_trans: "same_rule q p \<Longrightarrow> same_rule p r \<Longrightarrow> same_rule q r"
  unfolding same_rule_def by (metis looser_trans)

lemma same_rule_basis: "same_rule p (p\<lparr>pp_cost_basis_sol := c, pp_buy_price_sol := b\<rparr>)"
  by (simp add: same_rule_def looser_def)

lemma relax_stop_Some:
  "relax_stop p lot = Some q \<Longrightarrow> q = p\<lparr>pp_stop_loss_pct := pd_stop_loss_pct DEFAULTS\<rparr> \<and>
     looser (pp_stop_loss_pct p) (pd_stop_loss_pct DEFAULTS)"
  by (auto simp: relax_stop_def looser_def split: option.splits if_splits)

lemma same_rule_relaxed: "pol_relaxed p q \<Longrightarrow> same_rule p q"
  by (auto simp: pol_relaxed_def same_rule_def dest!: relax_stop_Some)

section \<open>Through a cycle\<close>

text \<open>A balance the wallet answered did not have the mint.\<close>

definition gone :: "services \<Rightarrow> string \<Rightarrow> bool" where
  "gone svc m \<longleftrightarrow> (\<exists>t hs. token_holdings (svc_token_accounts svc t) = Inr hs \<and> find_holding m hs = None)"

text \<open>
  A policy that a cycle from \<open>old\<close> may hold: one of the old ones, or a default for a mint
  that had none or is gone.
\<close>

definition derived :: "services \<Rightarrow> PositionPolicy list \<Rightarrow> PositionPolicy \<Rightarrow> bool" where
  "derived svc old p \<longleftrightarrow> (\<exists>q\<in>set old. same_rule q p) \<or>
     follows_defaults DEFAULTS p \<and> (pp_mint p \<in> pp_mint ` set old \<longrightarrow> gone svc (pp_mint p))"

definition keeps_rules :: "services \<Rightarrow> PositionPolicy list \<Rightarrow> PositionPolicy list \<Rightarrow> bool" where
  "keeps_rules svc old ps \<longleftrightarrow> distinct (map pp_mint old) \<and> list_all (derived svc old) ps \<and>
     (\<forall>q\<in>set old. gone svc (pp_mint q) \<or> (\<exists>p\<in>set ps. same_rule q p))"

definition rules_inv :: "services \<Rightarrow> PositionPolicy list \<Rightarrow> sys \<Rightarrow> bool" where
  "rules_inv svc old s \<longleftrightarrow> keeps_rules svc old (cur_positions s) \<and> list_all (derived svc old) (basis_refills s)"

lemma derived_same: "derived svc old p \<Longrightarrow> same_rule p r \<Longrightarrow> pp_stop_loss_pct r = pp_stop_loss_pct p \<or>
    pp_stop_loss_pct r = pd_stop_loss_pct DEFAULTS \<Longrightarrow> derived svc old r"
  by (auto simp: derived_def follows_defaults_def same_rule_def dest: looser_trans)

lemma derived_basis: "derived svc old p \<Longrightarrow> derived svc old (p\<lparr>pp_cost_basis_sol := c, pp_buy_price_sol := b\<rparr>)"
  by (rule derived_same [OF _ same_rule_basis]) simp_all

lemma derived_relaxed: "derived svc old p \<Longrightarrow> pol_relaxed p q \<Longrightarrow> derived svc old q"
  by (rule derived_same [OF _ same_rule_relaxed])
    (auto simp: pol_relaxed_def dest!: relax_stop_Some)

lemma relaxed_keeps:
  assumes "keeps_rules svc old ps" "list_all2 pol_relaxed ps qs"
  shows "keeps_rules svc old qs"
proof -
  have one: "\<exists>q\<in>set qs. pol_relaxed p q" if "p \<in> set ps" for p
    using assms(2) that by (metis in_set_conv_nth list_all2_conv_all_nth nth_mem)
  have other: "\<exists>p\<in>set ps. pol_relaxed p q" if "q \<in> set qs" for q
    using assms(2) that by (metis in_set_conv_nth list_all2_conv_all_nth nth_mem)
  show ?thesis
    unfolding keeps_rules_def
  proof (intro conjI ballI)
    show "list_all (derived svc old) qs"
      using assms(1) other derived_relaxed unfolding keeps_rules_def list_all_iff by metis
    show "gone svc (pp_mint q) \<or> (\<exists>p\<in>set qs. same_rule q p)" if "q \<in> set old" for q
      using assms(1) that one same_rule_relaxed same_rule_trans unfolding keeps_rules_def by metis
  qed (use assms(1) in \<open>simp add: keeps_rules_def\<close>)
qed

lemma price_same: "pp_mint p \<notin> set created \<Longrightarrow> with_price prices created p = p"
  by (simp add: with_price_def split: option.split)

lemma price_basis: "same_rule p (with_price prices created p)"
  "pp_stop_loss_pct (with_price prices created p) = pp_stop_loss_pct p"
  by (auto simp: with_price_def same_rule_def looser_def split: option.split)

lemma merged_keeps:
  assumes "canonical (ec_pubkey cfg)" "keeps_rules svc old ps"
    and "merge_defaults cfg rows prices ps = Inr (Some qs, created)"
  shows "keeps_rules svc old qs"
proof -
  obtain g where g: "policies_for_unmonitored (ec_pubkey cfg) (map row_json rows) ps ''rug_only'' DEFAULTS = Inr g"
    and qs: "qs = map (with_price prices (mg_created g)) (mg_merged g)"
    using assms(3)
    by (cases "policies_for_unmonitored (ec_pubkey cfg) (map row_json rows) ps ''rug_only'' DEFAULTS")
      (auto simp: merge_defaults_def split: if_splits)
  obtain new where new: "mg_merged g = ps @ new" "mg_created g = map pp_mint new" "list_all (rug_only DEFAULTS) new"
      "pp_mint ` set new \<inter> pp_mint ` set ps = {}"
    using merged_policies [OF assms(1) g] by (auto simp: merge_inv_def)
  have old: "map (with_price prices (mg_created g)) ps = ps"
    using new(2,4) by (intro map_idI price_same) auto
  have split: "qs = ps @ map (with_price prices (mg_created g)) new" using qs new(1) old by simp
  have fresh: "derived svc old (with_price prices (mg_created g) p)" if p: "p \<in> set new" for p
  proof (rule derived_same [OF _ price_basis(1)])
    have "gone svc (pp_mint p)" if "q \<in> set old" "pp_mint p = pp_mint q" for q
      using assms(2) that new(4) p unfolding keeps_rules_def same_rule_def by (metis disjoint_iff image_eqI)
    then show "derived svc old p"
      using p new(3) by (auto simp: derived_def list_all_iff rug_only_def)
  qed (simp add: price_basis(2))
  then show ?thesis
    using assms(2) split by (auto simp: keeps_rules_def list_all_iff)
qed

lemma map_of_refills:
  "map_of (rev (map (\<lambda>p. (pp_mint p, p)) refills)) m = Some r \<Longrightarrow> r \<in> set refills \<and> pp_mint r = m"
  by (auto dest!: map_of_SomeD)

lemma rewrite_lot_cases:
  assumes "rewrite_lot gone_mints stripped refills p = (r, changed)"
  obtains "pp_mint p \<in> set gone_mints" "r = None"
  | q where "r = Some q" "q \<in> set refills" "pp_mint q = pp_mint p"
  | q where "r = Some q" "same_rule p q" "pp_stop_loss_pct q = pp_stop_loss_pct p"
proof -
  let ?m = "map_of (rev (map (\<lambda>p. (pp_mint p, p)) refills)) (pp_mint p)"
  consider "pp_mint p \<in> set gone_mints" | x where "pp_mint p \<notin> set gone_mints" "?m = Some x"
    | "pp_mint p \<notin> set gone_mints" "?m = None" by (cases ?m) auto
  then show thesis
  proof cases
    case 1
    then show thesis using assms that(1) by (simp add: rewrite_lot_def)
  next
    case (2 x)
    then have "r = Some x" using assms by (simp add: rewrite_lot_def)
    then show thesis using that(2) map_of_refills [OF 2(2)] by blast
  next
    case 3
    then have "r = Some p \<or> r = Some (policy_without_basis p)"
      using assms by (auto simp: rewrite_lot_def split: if_splits)
    then show thesis using that(3) same_rule_basis [of p None None] by (auto simp: policy_without_basis_def)
  qed
qed

lemma rewritten_mem:
  assumes "rewrite_lots_yaml gone_mints stripped refills ps = Some qs"
  shows "q \<in> set qs \<longleftrightarrow> (\<exists>p\<in>set ps. fst (rewrite_lot gone_mints stripped refills p) = Some q)"
proof -
  have "qs = List.map_filter (\<lambda>p. fst (rewrite_lot gone_mints stripped refills p)) ps"
    using assms by (auto simp: rewrite_lots_yaml_def Let_def map_filter_def comp_def filter_map split: if_splits)
  then show ?thesis unfolding map_filter_def by force
qed

lemma rewrite_keeps_mint:
  assumes "fst (rewrite_lot gone_mints stripped refills p) = Some q"
  shows "pp_mint p = pp_mint q"
proof -
  obtain r c where w: "rewrite_lot gone_mints stripped refills p = (r, c)" by fastforce
  then have "r = Some q" using assms by simp
  with w show ?thesis by (cases rule: rewrite_lot_cases) (auto simp: same_rule_def)
qed

lemma rewritten_keeps:
  assumes k: "keeps_rules svc old ps" and gone: "list_all (gone svc) gone_mints"
    and refills: "list_all (derived svc old) refills"
    and run: "rewrite_lots_yaml gone_mints stripped refills ps = Some qs"
  shows "keeps_rules svc old qs"
proof -
  let ?w = "\<lambda>p. fst (rewrite_lot gone_mints stripped refills p)"
  note mem = rewritten_mem [OF run]
  have same: "derived svc old q" if "p \<in> set ps" "?w p = Some q" for p q
  proof -
    have d: "derived svc old p" using k that(1) by (auto simp: keeps_rules_def list_all_iff)
    obtain r c where w: "rewrite_lot gone_mints stripped refills p = (r, c)" by fastforce
    then have "r = Some q" using that(2) by simp
    with w show ?thesis
      using d refills by (cases rule: rewrite_lot_cases) (auto simp: list_all_iff intro: derived_same)
  qed
  have kept: "gone svc (pp_mint q) \<or> (\<exists>p'\<in>set qs. same_rule q p')" if q: "q \<in> set old" for q
  proof (cases "gone svc (pp_mint q)")
    case False
    then obtain p where p: "p \<in> set ps" "same_rule q p" using k q by (auto simp: keeps_rules_def)
    then have m: "pp_mint p = pp_mint q" by (simp add: same_rule_def)
    obtain r c where w: "rewrite_lot gone_mints stripped refills p = (r, c)" by fastforce
    then show ?thesis
    proof (cases rule: rewrite_lot_cases)
      case 1
      then show ?thesis using gone m False by (auto simp: list_all_iff)
    next
      case (2 x)
      then have "derived svc old x" using refills by (auto simp: list_all_iff)
      then obtain q' where q': "q' \<in> set old" "same_rule q' x"
        using False 2(3) m q by (auto simp: derived_def)
      then have "pp_mint q' = pp_mint q" using 2(3) m by (simp add: same_rule_def)
      then have "q' = q" using k q q'(1) by (auto simp: keeps_rules_def distinct_map dest: inj_onD)
      then show ?thesis using q'(2) mem p(1) w 2(1) by (metis fst_conv)
    next
      case (3 x)
      then show ?thesis using mem p w same_rule_trans by (metis fst_conv)
    qed
  qed simp
  show ?thesis
    using k same kept mem by (auto simp: keeps_rules_def list_all_iff)
qed

section \<open>The cycle\<close>

lemma write_db_inert:
  assumes "\<And>s d l. J (s\<lparr>w_disk := d, w_log := l\<rparr>) = J s"
  shows "reads J (db svc f)"
  by (rule spec_db) (simp_all add: assms)

lemma stable_rules: "stable (rules_inv svc old)"
  by (auto simp: stable_def rules_inv_def)

interpretation rules_sales: kept_by_sales "rules_inv svc old" "\<lambda>_. True" for svc old
proof unfold_locales
  show "stable (rules_inv svc old)" by (rule stable_rules)
  show "rules_inv svc old (f s)" if "sale_local f" "rules_inv svc old s" for f s
    using that by (simp add: sale_local_def rules_inv_def)
  show "reads (rules_inv svc old) (save_pending svc' m i)" "reads (rules_inv svc old) (drop_pending svc' m)" for svc' m i
    unfolding save_pending_def drop_pending_def by (rule write_db_inert, simp add: rules_inv_def)+
  show "reads (rules_inv svc old) (end_disposal svc' m reason)" for svc' m reason
    unfolding end_disposal_def by (intro reads_intros write_db_inert) (simp add: rules_inv_def)
  show "reads (rules_inv svc old) (ask_logged (\<lambda>_. Executed sb e) q)" for sb e and q :: "nat \<Rightarrow> obj res"
    by (rule spec_ask_logged) (simp_all add: rules_inv_def)
qed

interpretation rules: kept_by_cycle "canonical (ec_pubkey cfg)" "rules_inv svc old" "derived svc old"
    "derived svc old" "keeps_rules svc old" "gone svc" svc fd cfg for svc old fd cfg
proof unfold_locales
  show "stable (rules_inv svc old)" by (rule stable_rules)
  show "rules_inv svc old (f s)" if "memory_local f" "rules_inv svc old s" for f s
    using that by (simp add: memory_local_def rules_inv_def)
  show "reads (rules_inv svc old) (db svc (\<lambda>now. store_set now path v))" for path v
    by (rule write_db_inert) (simp add: rules_inv_def)
  show "reads (rules_inv svc old) (sell svc (ec_exec cfg) m name reason observed amount pool)"
    for m name reason observed amount pool
    by (rule rules_sales.sell_kept) simp
  show "reads (rules_inv svc old) (write_config doc)" for doc
    unfolding write_config_def by (rule spec_modify) (simp add: rules_inv_def)
  show "gone svc m" if "token_holdings (svc_token_accounts svc t) = Inr hs" "find_holding m hs = None" for t hs m
    using that by (auto simp: gone_def)
  show "keeps_rules svc old qs" if "keeps_rules svc old ps" "list_all2 pol_relaxed ps qs" for ps qs
    by (rule relaxed_keeps [OF that])
  show "keeps_rules svc old qs"
    if "canonical (ec_pubkey cfg)" "keeps_rules svc old ps" "merge_defaults cfg rows prices ps = Inr (Some qs, created)"
    for ps rows prices qs created
    by (rule merged_keeps [OF that])
  show "keeps_rules svc old qs"
    if "keeps_rules svc old ps" "list_all (gone svc) gone_mints" "list_all (derived svc old) refills"
      "rewrite_lots_yaml gone_mints stripped refills ps = Some qs" for ps gone_mints refills stripped qs
    by (rule rewritten_keeps [OF that])
qed (auto simp: rules_inv_def keeps_rules_def derived_basis)



section \<open>What the rewriting loses\<close>

lemma retired_origin: "origin (record_from_mapping m (to_mapping (retire r now))) \<noteq> Some ORIGIN_DEFAULT"
  by (auto simp: record_from_mapping_def to_mapping_def retire_def as_object_def jget_def Let_def known_origin_def)

lemma retire_run:
  assumes "retire_absent_lot svc m s = (Inr act, s')"
  obtains raw r now where "store_get 0 [''lots'', m] (JObj []) (w_disk s) = Inr raw"
    "act = (if origin (record_from_mapping m raw) = Some ORIGIN_DEFAULT then ''drop'' else ''strip'')"
    "store_get 0 [''lots'', m] (JObj []) (w_disk s') = Inr (to_mapping (retire r now))"
proof -
  let ?t = "svc_clock svc (w_tick s)"
  obtain raw where raw: "store_get ?t [''lots'', m] (JObj []) (w_disk s) = Inr raw"
    using assms by (cases "store_get ?t [''lots'', m] (JObj []) (w_disk s)")
      (auto simp: retire_absent_lot_def lot_of_def bind_def db_get_def)
  let ?lot = "record_from_mapping m raw"
  obtain d d' where w: "store_set ?t [''lots'', m] (to_mapping (retire ?lot (Aware ?t))) (w_disk s) = Inr d"
    "store_set ?t [''positions'', m] (state_mapping empty_runtime_state) d = Inr d'" "w_disk s' = d'"
    "act = (if origin ?lot = Some ORIGIN_DEFAULT then ''drop'' else ''strip'')"
    using assms raw
    by (auto simp: retire_absent_lot_def lot_of_def bind_def db_get_def ret_def clock_now_def gets_def write_lot_def
        db_def clear_runtime_lot_def persist_position_state_def retire_def record_from_mapping_def Let_def split: sum.splits)
  have safe: "safe_path [''lots'', m]" "safe_path [''positions'', m]" "apart [''positions'', m] [''lots'', m]"
    by (simp_all add: safe_path_def)
  have "store_get 0 [''lots'', m] (JObj []) d' = Inr (to_mapping (retire ?lot (Aware ?t)))"
    using sf.get_put_apart [OF safe(2,1,3) w(2)] sf.get_put [OF safe(1) w(1)] by simp
  moreover have "store_get 0 [''lots'', m] (JObj []) (w_disk s) = Inr raw"
    using raw store_get_now [OF safe(1), of ?t _ _ 0] by simp
  ultimately show thesis using that w(3,4) by blast
qed

text \<open>
  A bag that is gone is reported for removal of its default policy only once:
  the record of its lot forgets the origin when it is retired, long before the policy file
  is rewritten at the end of the cycle. If the cycle raises or the process ends in
  between, the next cycle asks only to strip the basis, which keeps the policy, so the
  default policy stays in the file for the next bag of that mint.
\<close>

lemma default_policy_outlives_a_broken_cycle:
  assumes "retire_absent_lot svc m s = (Inr act, s1)" and "w_disk s2 = w_disk s1"
    and "retire_absent_lot svc' m s2 = (Inr act', s3)"
  shows "act' = ''strip'' \<and> (\<forall>p. \<exists>q. fst (rewrite_lot [] [m] [] p) = Some q \<and> same_rule p q)"
proof -
  obtain r now where d: "store_get 0 [''lots'', m] (JObj []) (w_disk s2) = Inr (to_mapping (retire r now))"
    using retire_run [OF assms(1)] assms(2) by metis
  obtain raw where raw: "store_get 0 [''lots'', m] (JObj []) (w_disk s2) = Inr raw"
    "act' = (if origin (record_from_mapping m raw) = Some ORIGIN_DEFAULT then ''drop'' else ''strip'')"
    by (rule retire_run [OF assms(3)])
  have "raw = to_mapping (retire r now)" using d raw(1) by simp
  then have "act' = ''strip''" using raw(2) retired_origin by metis
  then show ?thesis using same_rule_basis by (auto simp: rewrite_lot_def policy_without_basis_def)
qed

text \<open>A default policy of a bag that is gone, and a cycle that stops after the lot is retired.\<close>

definition default_lot :: sys where
  "default_lot = demo_start\<lparr>w_disk := Content (JObj [(''version'', JInt 1), (''lots'', JObj [(''MINT'',
     JObj [(''generation'', JInt 1), (''origin'', JStr ORIGIN_DEFAULT)])])])\<rparr>"

definition first_retire :: "string res \<times> sys" where
  "first_retire = retire_absent_lot demo_services ''MINT'' default_lot"

definition second_retire :: "string res \<times> sys" where
  "second_retire = retire_absent_lot demo_services ''MINT'' (snd first_retire)"

lemma first_retire_drops: "fst first_retire = Inr ''drop''"
  by code_simp

lemma second_retire_runs: "is_Inr (fst second_retire)"
  by code_simp

end
