(* ===== verification/Engine_Refill.thy ===== *)
theory Engine_Refill
  imports Engine_Rules
begin

text \<open>
  What a cycle writes over an edit of the operator. The policies of a cycle are taken when it
  begins; the policy file is rewritten when it ends, over whatever is current then. In between the
  control server may replace the policies. The locale of the engine's operations is interpreted for
  the refills, the policies with an observed basis that the cycle leaves for the file.
\<close>

section \<open>A cycle and two edits\<close>

text \<open>
  The cycle with the edits that land while it runs: one after the policies were taken, one
  before the file is rewritten. Each may do anything to the current policies.
\<close>

definition cycle_edited ::
  "services \<Rightarrow> feeds \<Rightarrow> engine_config \<Rightarrow> (PositionPolicy list \<Rightarrow> PositionPolicy list) \<Rightarrow>
   (PositionPolicy list \<Rightarrow> PositionPolicy list) \<Rightarrow> unit io" where
  "cycle_edited svc fd cfg edit edit' =
     bind (mutate_positions svc cfg (policies_relaxed_to_default_stop svc) None) (\<lambda>_.
     bind (gets cur_positions) (\<lambda>policies.
     bind (modify (\<lambda>s. s\<lparr>cur_positions := edit (cur_positions s)\<rparr>)) (\<lambda>_.
     bind (ask (fd_health fd)) (\<lambda>health.
     bind (ask (\<lambda>t. rbind (svc_sol_balance svc t) sol_balance)) (\<lambda>_.
     bind (holdings_now svc) (\<lambda>holdings.
       if health \<noteq> JStr ''ok'' then raise (RuntimeError ''Helius RPC health check failed'')
       else
         bind (confirmed_slot_now svc fd policies) (\<lambda>slot.
         bind (modify (\<lambda>s. s\<lparr>basis_refills := []\<rparr>)) (\<lambda>_.
         bind (stored_mints svc) (\<lambda>stored.
         bind (retire_mints svc (filter (\<lambda>m. find_holding m holdings = None) stored)) (\<lambda>retired.
         bind (visit_policies svc fd cfg holdings slot policies) (\<lambda>absent.
         bind (watch_unmonitored svc fd cfg holdings policies) (\<lambda>_.
         bind (modify (\<lambda>s. s\<lparr>cur_positions := edit' (cur_positions s)\<rparr>)) (\<lambda>_.
           finish_cycle svc cfg (retired @ absent))))))))))))))"

text \<open>Without an edit it is the cycle.\<close>

lemma cycle_unedited: "cycle_edited svc fd cfg (\<lambda>ps. ps) (\<lambda>ps. ps) = cycle svc fd cfg"
proof -
  have "modify (\<lambda>s. s\<lparr>cur_positions := cur_positions s\<rparr>) = ret ()" by (rule ext) (simp add: modify_def ret_def)
  then have skip: "bind (modify (\<lambda>s. s\<lparr>cur_positions := cur_positions s\<rparr>)) f = f ()" for f :: "unit \<Rightarrow> 'a io"
    by (rule_tac ext) (simp add: bind_def ret_def)
  show ?thesis by (simp only: cycle_edited_def cycle_def skip)
qed

section \<open>The refills of a cycle\<close>

text \<open>A policy with another price reference, and one with an observed price.\<close>

definition based :: "PositionPolicy list \<Rightarrow> PositionPolicy \<Rightarrow> bool" where
  "based old p \<longleftrightarrow> (\<exists>q \<in> set old. \<exists>c b. p = q\<lparr>pp_cost_basis_sol := c, pp_buy_price_sol := b\<rparr>)"

definition refilled :: "PositionPolicy list \<Rightarrow> PositionPolicy \<Rightarrow> bool" where
  "refilled old p \<longleftrightarrow> (\<exists>q \<in> set old. \<exists>price. p = q\<lparr>pp_cost_basis_sol := None, pp_buy_price_sol := Some price\<rparr>)"

definition refills_of :: "PositionPolicy list \<Rightarrow> sys \<Rightarrow> bool" where
  "refills_of old s \<longleftrightarrow> list_all (refilled old) (basis_refills s)"

lemma based_self: "list_all (based ps) ps"
  unfolding list_all_iff based_def
proof
  fix p assume "p \<in> set ps"
  then show "\<exists>q\<in>set ps. \<exists>c b. p = q\<lparr>pp_cost_basis_sol := c, pp_buy_price_sol := b\<rparr>"
    by (intro bexI [of _ p] exI [of _ "pp_cost_basis_sol p"] exI [of _ "pp_buy_price_sol p"]) simp_all
qed

lemma based_refilled: "based old p \<Longrightarrow> refilled old (p\<lparr>pp_cost_basis_sol := None, pp_buy_price_sol := Some u\<rparr>)"
  unfolding based_def refilled_def by (elim bexE exE, rule bexI, rule exI [of _ u]) simp_all

lemma based_again: "based old p \<Longrightarrow> based old (p\<lparr>pp_cost_basis_sol := c, pp_buy_price_sol := b\<rparr>)"
  unfolding based_def by (elim bexE exE, rule bexI, rule exI [of _ c], rule exI [of _ b]) simp_all

lemma stable_refills: "stable (refills_of old)"
  by (auto simp: stable_def refills_of_def)

interpretation refill_sales: kept_by_sales "refills_of old" "\<lambda>_. True" for old
proof unfold_locales
  show "stable (refills_of old)" by (rule stable_refills)
  show "refills_of old (f s)" if "sale_local f" "refills_of old s" for f s
    using that by (simp add: sale_local_def refills_of_def)
  show "reads (refills_of old) (save_pending svc' m i)" "reads (refills_of old) (drop_pending svc' m)" for svc' m i
    unfolding save_pending_def drop_pending_def by (rule write_db_inert, simp add: refills_of_def)+
  show "reads (refills_of old) (end_disposal svc' m reason)" for svc' m reason
    unfolding end_disposal_def by (intro reads_intros write_db_inert) (simp add: refills_of_def)
  show "reads (refills_of old) (ask_logged (\<lambda>_. Executed sb e) q)" for sb e and q :: "nat \<Rightarrow> obj res"
    by (rule spec_ask_logged) (simp_all add: refills_of_def)
qed

interpretation refill: kept_by_engine True "refills_of old" "based old" "refilled old" "\<lambda>_. True" "\<lambda>_. True" svc fd cfg
  for old svc fd cfg
proof unfold_locales
  show "stable (refills_of old)" by (rule stable_refills)
  show "refills_of old (f s)" if "memory_local f" "refills_of old s" for f s
    using that by (simp add: memory_local_def refills_of_def)
  show "reads (refills_of old) (db svc (\<lambda>now. store_set now path v))" for path v
    by (rule write_db_inert) (simp add: refills_of_def)
  show "reads (refills_of old) (sell svc (ec_exec cfg) m name reason observed amount pool)"
    for m name reason observed amount pool
    by (rule refill_sales.sell_kept) simp
  show "reads (refills_of old) (write_config doc)" for doc
    unfolding write_config_def by (rule spec_modify) (simp add: refills_of_def)
qed (auto simp: refills_of_def based_refilled based_again)

section \<open>The policies of a cycle\<close>

lemma relax_all_run: "relax_all svc ps s = (Inr (qs, b), s') \<Longrightarrow> s' = s \<and> list_all2 pol_relaxed ps qs"
proof (induction ps arbitrary: qs b s')
  case (Cons p ps)
  obtain lot s1 rest b1 s2 where r: "lot_of svc (pp_mint p) s = (Inr lot, s1)" "relax_all svc ps s1 = (Inr (rest, b1), s2)"
      "(case relax_stop p lot of None \<Rightarrow> ret (p # rest, b1) | Some q \<Rightarrow> ret (q # rest, True)) s2 = (Inr (qs, b), s')"
    using Cons.prems by (auto simp: bind_eq_Inr)
  have s1: "s1 = s" using r(1) by (auto simp: lot_of_def bind_def db_get_def ret_def split: sum.splits)
  show ?case using Cons.IH [OF r(2) [unfolded s1]] r(3) by (auto simp: ret_def pol_relaxed_def split: option.splits)
qed (simp add: ret_def)

lemma positions_relaxed:
  assumes "mutate_positions svc cfg (policies_relaxed_to_default_stop svc) None s = (Inr u, s')"
  shows "list_all2 pol_relaxed (cur_positions s) (cur_positions s')"
proof -
  obtain qs b s1 where r: "relax_all svc (cur_positions s) s = (Inr (qs, b), s1)"
    using assms by (auto simp: mutate_positions_def policies_relaxed_to_default_stop_def bind_eq_Inr gets_def)
  note q = relax_all_run [OF r]
  have "s1 = s" using q by simp
  show ?thesis
  proof (cases b)
    case True
    then have "cur_positions s' = qs"
      using assms r by (auto simp: mutate_positions_def policies_relaxed_to_default_stop_def bind_eq_Inr gets_def ret_def modify_def)
    then show ?thesis using q by simp
  next
    case False
    then have "s' = s"
      using assms r \<open>s1 = s\<close> by (auto simp: mutate_positions_def policies_relaxed_to_default_stop_def bind_eq_Inr gets_def ret_def)
    then show ?thesis by (simp add: list_all2_refl pol_relaxed_def)
  qed
qed

section \<open>The file at the end\<close>

lemma persist_refills: "reads (\<lambda>s. basis_refills s = R) (persist_positions svc cfg ps)"
  unfolding persist_positions_def write_config_def Let_def
  by (intro reads_intros spec_modify) (simp_all add: stable_def)

lemma rewritten_by_refills:
  assumes "mutate_positions svc cfg (\<lambda>current. ret (rewrite_lots_yaml gone_mints stripped R current, ())) None s = (Inr u, s')"
    and "basis_refills s = R"
  shows "basis_refills s' = R \<and> (\<forall>r \<in> set R. \<forall>p \<in> set (cur_positions s'). pp_mint p = pp_mint r \<longrightarrow> p \<in> set R)"
proof -
  let ?w = "rewrite_lot gone_mints stripped R" and ?refill = "map_of (rev (map (\<lambda>p. (pp_mint p, p)) R))"
  have hit: "?w p = (None, True) \<or> (\<exists>x \<in> set R. ?w p = (Some x, True))" if "r \<in> set R" "pp_mint p = pp_mint r" for r p
  proof -
    have "pp_mint r \<in> fst ` set (rev (map (\<lambda>p. (pp_mint p, p)) R))" using that(1) by force
    then have "?refill (pp_mint p) \<noteq> None" unfolding that(2) by (simp only: map_of_eq_None_iff not_not)
    then obtain x where x: "?refill (pp_mint p) = Some x" by blast
    then have "x \<in> set R" using map_of_refills [OF x] by simp
    then show ?thesis using x by (auto simp: rewrite_lot_def)
  qed
  show ?thesis
  proof (cases "rewrite_lots_yaml gone_mints stripped R (cur_positions s)")
    case None
    then have "s' = s" and same: "\<forall>p \<in> set (cur_positions s). \<not> snd (?w p)"
      using assms(1) by (auto simp: mutate_positions_def bind_eq_Inr gets_def ret_def rewrite_lots_yaml_def Let_def list_ex_iff
          split: if_splits)
    moreover have "pp_mint p \<noteq> pp_mint r" if "r \<in> set R" "p \<in> set (cur_positions s)" for r p
      using hit [OF that(1), of p] bspec [OF same that(2)] by auto
    ultimately show ?thesis using assms(2) by blast
  next
    case (Some qs)
    then obtain u s1 where p: "persist_positions svc cfg qs s = (Inr u, s1)" and s': "s' = s1\<lparr>cur_positions := qs\<rparr>"
      using assms(1) by (auto simp: mutate_positions_def bind_eq_Inr gets_def ret_def modify_def)
    have "basis_refills s1 = R" using spec_Inr [OF persist_refills assms(2) p] .
    moreover have "q \<in> set R" if r: "r \<in> set R" "q \<in> set qs" "pp_mint q = pp_mint r" for r q
    proof -
      obtain p where p: "p \<in> set (cur_positions s)" "fst (?w p) = Some q" using rewritten_mem [OF Some] r(2) by blast
      have "pp_mint p = pp_mint r" using rewrite_keeps_mint [OF p(2)] r(3) by simp
      from hit [OF r(1) this] p(2) show ?thesis by auto
    qed
    ultimately show ?thesis using s' by auto
  qed
qed

lemma finish_refills:
  assumes "finish_cycle svc cfg actions s = (Inr u, s')" and "refills_of old s"
  shows "refills_of old s' \<and>
    (\<forall>r \<in> set (basis_refills s'). \<forall>p \<in> set (cur_positions s'). pp_mint p = pp_mint r \<longrightarrow> p \<in> set (basis_refills s'))"
proof -
  obtain g s1 h s2 where r: "gate_status svc (ec_exec cfg) s = (Inr g, s1)" "maybe_heartbeat svc cfg s1 = (Inr h, s2)"
      "mutate_positions svc cfg (\<lambda>current. ret (rewrite_lots_yaml (marked ''drop'' actions) (marked ''strip'' actions)
         (basis_refills s2) current, ())) None s2 = (Inr u, s')"
    using assms(1) by (auto simp: finish_cycle_def bind_eq_Inr gets_def)
  have kept: "reads (refills_of old) (maybe_heartbeat svc cfg)" "reads (refills_of old) (gate_status svc (ec_exec cfg))"
    unfolding maybe_heartbeat_def gate_status_def by (intro refill.market_kept; simp)+
  have "refills_of old s1" by (rule spec_Inr [OF kept(2) assms(2) r(1)])
  from spec_Inr [OF kept(1) this r(2)] have "refills_of old s2" .
  with rewritten_by_refills [OF r(3) refl] show ?thesis by (simp add: refills_of_def)
qed

section \<open>The whole cycle\<close>

text \<open>What does not depend on the state stays true.\<close>

lemma spec_same: "spec (\<lambda>_. F) m (\<lambda>_ _. F) (\<lambda>_. True)"
  by (rule specI) simp_all

lemma cycle_from_refills:
  fixes policies :: "PositionPolicy list"
  assumes "bind (stored_mints svc) (\<lambda>stored.
         bind (retire_mints svc (filter (\<lambda>m. find_holding m holdings = None) stored)) (\<lambda>retired.
         bind (visit_policies svc fd cfg holdings slot policies) (\<lambda>absent.
         bind (watch_unmonitored svc fd cfg holdings policies) (\<lambda>_.
         bind (modify (\<lambda>s. s\<lparr>cur_positions := edit' (cur_positions s)\<rparr>)) (\<lambda>_.
           finish_cycle svc cfg (retired @ absent)))))) s = (Inr v, s')"
    and "refills_of policies s"
  shows "refills_of policies s' \<and>
    (\<forall>r \<in> set (basis_refills s'). \<forall>p \<in> set (cur_positions s'). pp_mint p = pp_mint r \<longrightarrow> p \<in> set (basis_refills s'))"
proof -
  let ?J = "refills_of policies"
  obtain stored s1 retired s2 absent s3 u s4 where
    r: "stored_mints svc s = (Inr stored, s1)"
      "retire_mints svc (filter (\<lambda>m. find_holding m holdings = None) stored) s1 = (Inr retired, s2)"
      "visit_policies svc fd cfg holdings slot policies s2 = (Inr absent, s3)"
      "watch_unmonitored svc fd cfg holdings policies s3 = (Inr u, s4)"
      "finish_cycle svc cfg (retired @ absent) (s4\<lparr>cur_positions := edit' (cur_positions s4)\<rparr>) = (Inr v, s')"
    using assms(1) by (auto simp: bind_eq_Inr modify_def)
  have "?J s1" by (rule spec_Inr [OF refill.slot_kept(2) assms(2) r(1)])
  then have "?J s2" using spec_Inr [OF refill.retire_mints_yields _ r(2)] by (simp add: list_all_iff)
  then have "?J s3" using spec_Inr [OF refill.visit_yields [OF TrueI TrueI based_self] _ r(3)] by simp
  then have "?J s4" using spec_Inr [OF refill.watch_kept [OF TrueI] _ r(4)] by blast
  then have "?J (s4\<lparr>cur_positions := edit' (cur_positions s4)\<rparr>)" by (simp add: refills_of_def)
  from finish_refills [OF r(5) this] show ?thesis .
qed

text \<open>
  C9 (error). A basis observed in a cycle reverts the edits of the operator that land while the
  cycle runs. When the cycle returns, whatever was done to the policies after it had taken them,
  the policy of a bag whose basis it observed is the one the cycle began with, but for
  the default stop it may have loosened before and for the observed price.
\<close>

theorem refill_reverts_an_edit:
  assumes "cycle_edited svc fd cfg edit edit' s = (Inr (), s')"
    and "r \<in> set (basis_refills s')" and "p \<in> set (cur_positions s')" and "pp_mint p = pp_mint r"
  shows "\<exists>q0 \<in> set (cur_positions s). \<exists>q price. pol_relaxed q0 q \<and>
    p = q\<lparr>pp_cost_basis_sol := None, pp_buy_price_sol := Some price\<rparr>"
proof -
  have "spec (\<lambda>t. cur_positions t = cur_positions s) (cycle_edited svc fd cfg edit edit')
    (\<lambda>_ t. \<exists>policies. list_all2 pol_relaxed (cur_positions s) policies \<and> refills_of policies t \<and>
      (\<forall>r \<in> set (basis_refills t). \<forall>p \<in> set (cur_positions t). pp_mint p = pp_mint r \<longrightarrow> p \<in> set (basis_refills t)))
    (\<lambda>_. True)"
    unfolding cycle_edited_def
    apply (rule spec_bind [where R = "\<lambda>_ t. list_all2 pol_relaxed (cur_positions s) (cur_positions t)"])
     apply (rule specI, simp, metis positions_relaxed)
    apply (rule spec_bind [where R = "\<lambda>ps t. list_all2 pol_relaxed (cur_positions s) ps"], simp add: spec_gets)
    subgoal for u policies
      apply (rule spec_bind [OF spec_same], rule spec_bind [OF spec_same], rule spec_bind [OF spec_same],
          rule spec_bind [OF spec_same], rule spec_if, rule spec_raise, simp)
      apply (rule spec_bind [OF spec_same])
      apply (rule spec_bind [where R = "\<lambda>_ t. list_all2 pol_relaxed (cur_positions s) policies \<and> refills_of policies t"])
       apply (rule spec_modify, simp add: refills_of_def)
      apply (rule specI, rule TrueI, elim conjE)
      apply (drule (1) cycle_from_refills, blast)
      done
    done
  from spec_Inr [OF this _ assms(1)] obtain policies where
    ps: "list_all2 pol_relaxed (cur_positions s) policies" "refills_of policies s'" "p \<in> set (basis_refills s')"
    using assms(2-4) by blast
  then have "refilled policies p" by (simp add: refills_of_def list_all_iff)
  then obtain q price where q: "q \<in> set policies" "p = q\<lparr>pp_cost_basis_sol := None, pp_buy_price_sol := Some price\<rparr>"
    by (auto simp: refilled_def)
  obtain q0 where "q0 \<in> set (cur_positions s)" "pol_relaxed q0 q"
    using ps(1) q(1) by (metis in_set_conv_nth list_all2_conv_all_nth)
  then show ?thesis using q(2) by blast
qed

text \<open>
  A bag without a cost basis was bought in one transaction, five units for five SOL; while the cycle
  reads that, the operator lowers the take profit, twice.
\<close>

definition refill_purchase :: json where
  "refill_purchase =
     (let balance = (\<lambda>n. JList [JObj [(''mint'', JStr ''MINT''), (''owner'', JStr ''Wallet''),
                (''uiTokenAmount'', JObj [(''amount'', JInt n)])]])
      in JObj [(''transaction'', JObj [(''message'', JObj [(''accountKeys'', JList [JStr ''Wallet''])])]),
           (''meta'', JObj [(''fee'', JInt 0), (''preBalances'', JList [JInt 7000000000]),
              (''postBalances'', JList [JInt 2000000000]), (''preTokenBalances'', balance 0),
              (''postTokenBalances'', balance 5)])])"

definition refill_services :: services where
  "refill_services = cycle_services\<lparr>svc_token_accounts := (\<lambda>t. demo_accounts 0)\<rparr>"

definition refill_feeds :: feeds where
  "refill_feeds = poll_feeds\<lparr>fd_quote := (\<lambda>t mint amount. Inl (ExternalServiceError ''jupiter'')),
     fd_history := (\<lambda>t account. Inr (JList [JObj [(''signature'', JStr ''Buy''), (''slot'', JInt 3)]])),
     fd_transaction := (\<lambda>t sig. Inr refill_purchase)\<rparr>"

definition bare_policy :: PositionPolicy where
  "bare_policy = sample_policy\<lparr>pp_cost_basis_sol := None\<rparr>"

definition lower_target :: "decimal \<Rightarrow> PositionPolicy list \<Rightarrow> PositionPolicy list" where
  "lower_target x = map (\<lambda>p. p\<lparr>pp_take_profit_pct := Some x\<rparr>)"

definition demo_edited :: "unit res \<times> sys" where
  "demo_edited = cycle_edited refill_services refill_feeds cycle_config (lower_target 8) (lower_target 7)
     (demo_start\<lparr>cur_positions := [bare_policy]\<rparr>)"

lemma demo_edited_end:
  "fst demo_edited = Inr () \<and> map (\<lambda>p. (pp_mint p, pp_take_profit_pct p)) (cur_positions (snd demo_edited)) = [(''MINT'', Some 100)] \<and>
   map pp_mint (basis_refills (snd demo_edited)) = [''MINT'']"
  by code_simp

theorem refill_reverts_an_edit_witness:
  "\<exists>p. cur_positions (snd demo_edited) = [p] \<and> pp_take_profit_pct p = Some 100 \<and>
     (\<exists>q price. pol_relaxed bare_policy q \<and> p = q\<lparr>pp_cost_basis_sol := None, pp_buy_price_sol := Some price\<rparr>)"
proof -
  obtain p where p: "cur_positions (snd demo_edited) = [p]" "pp_mint p = ''MINT''" "pp_take_profit_pct p = Some 100"
    using demo_edited_end by (cases "cur_positions (snd demo_edited)") auto
  obtain r where r: "basis_refills (snd demo_edited) = [r]" "pp_mint r = ''MINT''"
    using demo_edited_end by (cases "basis_refills (snd demo_edited)") auto
  have run: "cycle_edited refill_services refill_feeds cycle_config (lower_target 8) (lower_target 7)
      (demo_start\<lparr>cur_positions := [bare_policy]\<rparr>) = (Inr (), snd demo_edited)"
    using demo_edited_end unfolding demo_edited_def by (metis prod.collapse)
  from refill_reverts_an_edit [OF run, of r p] p r show ?thesis by auto
qed

end
