(* ===== verification/Paper_Curve.thy ===== *)
theory Paper_Curve
  imports Fill Rounding
begin

text \<open>
  The curve that the paper traders fill against (\<open>joshibot/shitcoims_scalper/shadow.py\<close>):
  purchases and sales on a constant product, in integers, and what their rounding does
  beside the fill kernel's.
\<close>

section \<open>The curve\<close>

record CurveState =
  cs_t :: pyfloat
  cs_vsol :: int
  cs_vtok :: int

definition curve_state :: "pyfloat \<Rightarrow> int \<Rightarrow> int \<Rightarrow> CurveState res" where
  "curve_state t vsol vtok =
     (if vsol \<le> 0 \<or> vtok \<le> 0 then Inl (ValueError ''reserves must be positive'')
      else Inr \<lparr> cs_t = t, cs_vsol = vsol, cs_vtok = vtok \<rparr>)"

text \<open>Every caller charges at most 10000 basis points, so the divisor is positive.\<close>

definition curve_buy :: "CurveState \<Rightarrow> int \<Rightarrow> int \<Rightarrow> int" where
  "curve_buy state spend_lamports fee_bps =
     (if spend_lamports \<le> 0 then 0
      else
        let effective = spend_lamports * (10000 - fee_bps) div 10000;
            k = cs_vsol state * cs_vtok state;
            new_tok = k div (cs_vsol state + effective)
        in cs_vtok state - new_tok)"

definition curve_sell :: "CurveState \<Rightarrow> int \<Rightarrow> int \<Rightarrow> int" where
  "curve_sell state amount fee_bps =
     (if amount \<le> 0 then 0
      else
        let k = cs_vsol state * cs_vtok state;
            new_sol = k div (cs_vtok state + amount);
            gross = cs_vsol state - new_sol
        in gross * (10000 - fee_bps) div 10000)"

definition curve_ok :: "CurveState \<Rightarrow> bool" where
  "curve_ok c \<longleftrightarrow> 0 < cs_vsol c \<and> 0 < cs_vtok c"

lemma curve_state_ok: "curve_state t s v = Inr c \<Longrightarrow> curve_ok c"
  by (auto simp: curve_state_def curve_ok_def split: if_splits)

section \<open>The rounding of a fill\<close>

lemma minus_div:
  fixes s t d :: int
  assumes "0 < d"
  shows "s - (s * t) div d = s * (d - t) div d + (if s * (d - t) mod d = 0 then 0 else 1)"
proof -
  define q r where "q = (s * t) div d" and "r = (s * t) mod d"
  have st: "s * t = d * q + r" and r: "0 \<le> r" "r < d"
    using assms by (simp_all add: q_def r_def)
  show ?thesis
  proof (cases "r = 0")
    case True
    then have "s * (d - t) = d * (s - q)" using st by (simp add: algebra_simps)
    then show ?thesis using assms by (simp add: q_def [symmetric])
  next
    case False
    then have e: "s * (d - t) = d * (s - q - 1) + (d - r)" using st by (simp add: algebra_simps)
    have b: "0 \<le> d - r" "d - r < d" using r False by simp_all
    have "s * (d - t) div d = s - q - 1" "s * (d - t) mod d = d - r"
      by (rule int_div_pos_eq [OF e b], rule int_mod_pos_eq [OF e b])
    then show ?thesis using r by (simp add: q_def [symmetric])
  qed
qed

text \<open>
  What a sale into the paper curve pays before the fee is what the fill
  kernel pays, and one lamport more unless the division is exact: the kernel rounds down,
  the paper curve up.
\<close>

lemma paper_sale_rounds_up:
  assumes "curve_ok c" and "0 < a"
  shows "\<exists>out. sell_out \<lparr> token_raw = cs_vtok c, sol_lamports = cs_vsol c \<rparr> (PInt a) = Inr out \<and>
    curve_sell c a 0 = out + (if cs_vsol c * a mod (cs_vtok c + a) = 0 then 0 else 1)"
proof -
  have d: "0 < cs_vtok c + a" using assms by (simp add: curve_ok_def)
  from minus_div [OF this, of "cs_vsol c" "cs_vtok c"] show ?thesis
    using assms d by (simp add: sell_out_value curve_sell_def Let_def)
qed

text \<open>The curve after a purchase of \<open>tokens\<close> that paid \<open>effective\<close> into it.\<close>

definition after_buy :: "CurveState \<Rightarrow> int \<Rightarrow> CurveState" where
  "after_buy c spend = c\<lparr>cs_vsol := cs_vsol c + spend, cs_vtok := cs_vtok c - curve_buy c spend 0\<rparr>"

lemma curve_buy_value:
  assumes "curve_ok c" "0 < spend"
  shows "cs_vtok c - curve_buy c spend 0 = cs_vsol c * cs_vtok c div (cs_vsol c + spend)"
  using assms by (simp add: curve_buy_def Let_def)

text \<open>
  Without a fee, buying and selling straight back never loses: the sale
  returns at least what was spent, and more than one lamport above it only by what one raw
  token is worth. So the marker is not a floor: both of its roundings favour the trader.
\<close>

lemma paper_round_trip_never_loses:
  assumes "curve_ok c" and "0 < spend" and "0 < curve_buy c spend 0"
  shows "spend \<le> curve_sell (after_buy c spend) (curve_buy c spend 0) 0 \<and>
    curve_sell (after_buy c spend) (curve_buy c spend 0) 0 \<le> spend + (cs_vsol c + spend) div cs_vtok c + 1"
proof -
  let ?S = "cs_vsol c" and ?T = "cs_vtok c" and ?t = "curve_buy c spend 0"
  have pos: "0 < ?S" "0 < ?T" "0 < ?S + spend" using assms(1,2) by (auto simp: curve_ok_def)
  define n where "n = ?S * ?T div (?S + spend)"
  define r where "r = ?S * ?T mod (?S + spend)"
  have k: "?S * ?T = (?S + spend) * n + r" and r: "0 \<le> r" "r < ?S + spend"
    using pos by (simp_all add: n_def r_def)
  have t: "?T - ?t = n" using curve_buy_value [OF assms(1,2)] by (simp add: n_def)
  have "cs_vtok (after_buy c spend) + ?t = ?T" "cs_vtok (after_buy c spend) = n" "cs_vsol (after_buy c spend) = ?S + spend"
    using t by (simp_all add: after_buy_def)
  then have sale: "curve_sell (after_buy c spend) ?t 0 = ?S + spend - (?S + spend) * n div ?T"
    using assms(3) by (simp add: curve_sell_def Let_def)
  have "(?S + spend) * n \<le> ?S * ?T" using k r by simp
  then have "(?S + spend) * n div ?T \<le> ?S * ?T div ?T" using pos by (intro zdiv_mono1)
  then have lower: "(?S + spend) * n div ?T \<le> ?S" using pos by simp
  have "?S * ?T - (?S + spend) < (?S + spend) * n" using k r by simp
  moreover have "(?S + spend) < ?T * ((?S + spend) div ?T + 1)"
    using pos by (metis add.commute distrib_left mult.right_neutral pos_mod_bound mult_div_mod_eq add_less_cancel_left)
  ultimately have "?T * (?S - (?S + spend) div ?T - 1) < (?S + spend) * n"
    by (simp add: algebra_simps)
  then have "?S - (?S + spend) div ?T - 1 \<le> (?S + spend) * n div ?T"
    using pos by (metis less_imp_le nonzero_mult_div_cancel_left zdiv_mono1 less_irrefl)
  then show ?thesis using sale lower by simp
qed

end
