(* ===== verification/Scalper.thy ===== *)
theory Scalper
  imports Paper_Curve Clients
begin

text \<open>
  The shadow scalper (\<open>joshibot/shitcoims_scalper\<close>): its decision policy with logged
  propensities (\<open>policy.py\<close>), its book of deadlines with limits and circuit breaker
  (\<open>book.py\<close>), the marker of its positions (\<open>shadow.py\<close>), and the turn of the runner
  (\<open>run_shadow.py\<close>). What the random generator draws is an argument; an infinite cost is
  \<open>None\<close>.
\<close>

section \<open>Sizing and friction\<close>

text \<open>\<open>math.isqrt\<close>, the greatest integer whose square is not above \<open>n\<close>.\<close>

function isqrt :: "int \<Rightarrow> int" where
  "isqrt n =
     (if n < 2 then max 0 n
      else let r = 2 * isqrt (n div 4) in if (r + 1) * (r + 1) \<le> n then r + 1 else r)"
  by pat_completeness auto
termination by (relation "measure nat") auto

declare isqrt.simps [simp del]

lemma isqrt_is_the_root: "0 \<le> n \<Longrightarrow> 0 \<le> isqrt n \<and> isqrt n * isqrt n \<le> n \<and> n < (isqrt n + 1) * (isqrt n + 1)"
proof (induction n rule: isqrt.induct)
  case (1 n)
  show ?case
  proof (cases "n < 2")
    case True
    then have "n = 0 \<or> n = 1" using 1(2) by auto
    then show ?thesis by (auto simp: isqrt.simps [of 0] isqrt.simps [of 1])
  next
    case False
    define q r where "q = isqrt (n div 4)" and "r = 2 * q"
    have ih: "0 \<le> q" "q * q \<le> n div 4" "n div 4 < (q + 1) * (q + 1)"
      using "1.IH" [OF False] False by (simp_all add: q_def)
    have "4 * (q * q) \<le> n" "n < 4 * ((q + 1) * (q + 1))" using ih by presburger+
    then have low: "r * r \<le> n" and high: "n < (r + 2) * (r + 2)" by (simp_all add: r_def algebra_simps)
    have e: "isqrt n = (if (r + 1) * (r + 1) \<le> n then r + 1 else r)"
      using False by (simp add: isqrt.simps [of n] r_def q_def Let_def)
    show ?thesis using low high ih(1) unfolding e by (auto simp: r_def algebra_simps)
  qed
qed

definition optimal_size_lamports :: "int \<Rightarrow> int \<Rightarrow> int \<Rightarrow> int \<Rightarrow> int" where
  "optimal_size_lamports pool_sol_lamports priority_fee_lamports rho_max_bps bankroll_cap_lamports =
     (if pool_sol_lamports \<le> 0 then 0
      else
        let b_star = isqrt (priority_fee_lamports * pool_sol_lamports);
            rho_cap = pool_sol_lamports * rho_max_bps div 10000
        in max 0 (min b_star (min rho_cap bankroll_cap_lamports)))"

definition round_trip_friction :: "int \<Rightarrow> int \<Rightarrow> int \<Rightarrow> int \<Rightarrow> pyfloat option" where
  "round_trip_friction size_lamports pool_sol_lamports swap_fee_bps priority_fee_lamports =
     (if size_lamports \<le> 0 \<or> pool_sol_lamports \<le> 0 then None
      else Some (fadd (fadd (int_div (2 * swap_fee_bps) 10000) (int_div (2 * priority_fee_lamports) size_lamports))
                  (int_div (2 * size_lamports) pool_sol_lamports)))"

section \<open>The policy\<close>

type_synonym features = "(string \<times> pyfloat) list"

text \<open>\<open>features[k]\<close>.\<close>

definition feature :: "string \<Rightarrow> features \<Rightarrow> pyfloat res" where
  "feature k f = (case map_of f k of Some v \<Rightarrow> Inr v | None \<Rightarrow> Inl (KeyError k))"

record DrawnThresholds =
  min_age_s :: pyfloat
  max_age_s :: pyfloat
  max_trade_recency_s :: pyfloat
  min_sol_in_curve :: pyfloat
  hold_seconds :: pyfloat

text \<open>
  \<open>JitterRanges\<close> and its \<open>draw\<close>; \<open>u 0\<close>, \<open>u 1\<close>, \<dots> are the numbers in \<open>[0, 1)\<close> that
  \<open>random.Random\<close> returns during one decision, and \<open>uniform(a, b)\<close> is
  \<open>a + (b - a) * random()\<close>.
\<close>

definition uniform :: "pyfloat \<times> pyfloat \<Rightarrow> pyfloat \<Rightarrow> pyfloat" where
  "uniform r u = fadd (fst r) (fmul (fsub (snd r) (fst r)) u)"

record JitterRanges =
  jr_min_age_s :: "pyfloat \<times> pyfloat"
  jr_max_age_s :: "pyfloat \<times> pyfloat"
  jr_max_trade_recency_s :: "pyfloat \<times> pyfloat"
  jr_min_sol_in_curve :: "pyfloat \<times> pyfloat"
  jr_hold_seconds :: "pyfloat \<times> pyfloat"

definition default_ranges :: JitterRanges where
  "default_ranges = \<lparr> jr_min_age_s = (20, 90), jr_max_age_s = (900, 3600), jr_max_trade_recency_s = (5, 30),
     jr_min_sol_in_curve = (5, 15), jr_hold_seconds = (180, 420) \<rparr>"

definition draw :: "JitterRanges \<Rightarrow> (nat \<Rightarrow> pyfloat) \<Rightarrow> DrawnThresholds" where
  "draw r u = \<lparr> min_age_s = uniform (jr_min_age_s r) (u 0), max_age_s = uniform (jr_max_age_s r) (u 1),
     max_trade_recency_s = uniform (jr_max_trade_recency_s r) (u 2),
     min_sol_in_curve = uniform (jr_min_sol_in_curve r) (u 3), hold_seconds = uniform (jr_hold_seconds r) (u 4) \<rparr>"

definition liveness_verdict :: "features \<Rightarrow> DrawnThresholds \<Rightarrow> bool res" where
  "liveness_verdict f t =
     rbind (feature ''age_s'' f) (\<lambda>age.
       if \<not> (min_age_s t \<le> age \<and> age \<le> max_age_s t) then Inr False
       else
         rbind (feature ''trade_recency_s'' f) (\<lambda>recency.
           if \<not> recency \<le> max_trade_recency_s t then Inr False
           else rbind (feature ''sol_in_curve'' f) (\<lambda>sol. Inr (min_sol_in_curve t \<le> sol))))"

text \<open>
  The flip and its propensity, for a draw \<open>u\<close> of the generator in \<open>[0, 1)\<close>: whether to
  enter, whether that is against the verdict, and the probability that is logged.
\<close>

definition epsilon_flip :: "pyfloat \<Rightarrow> bool \<Rightarrow> pyfloat \<Rightarrow> bool \<times> bool \<times> pyfloat" where
  "epsilon_flip explore_eps verdict u =
     (let flip = u < explore_eps;
          enter = (verdict \<noteq> flip);
          p_enter = (if verdict then fsub 1 explore_eps else explore_eps)
      in (enter, flip, if enter then p_enter else fsub 1 p_enter))"

record ShadowDecision =
  dc_decision_id :: string
  dc_mint :: string
  dc_enter :: bool
  dc_verdict_pass :: bool
  dc_explored :: bool
  dc_propensity :: pyfloat
  dc_thresholds :: DrawnThresholds
  dc_features :: features
  dc_size_lamports :: int
  dc_deadline_unix :: pyfloat

record ScalperPolicy =
  sp_ranges :: JitterRanges
  sp_explore_eps :: pyfloat
  sp_swap_fee_bps :: int
  sp_priority_fee_lamports :: int
  sp_rho_max_bps :: int
  sp_bankroll_cap_lamports :: int
  sp_max_friction :: pyfloat

definition scalper_policy ::
  "JitterRanges \<Rightarrow> pyfloat \<Rightarrow> int \<Rightarrow> int \<Rightarrow> int \<Rightarrow> int \<Rightarrow> pyfloat \<Rightarrow> ScalperPolicy res" where
  "scalper_policy ranges eps swap_fee priority rho cap max_friction =
     (if \<not> (0 < eps \<and> eps < 1 / 2) then Inl (ValueError ''explore_eps must be in (0, 0.5)'')
      else Inr \<lparr> sp_ranges = ranges, sp_explore_eps = eps, sp_swap_fee_bps = swap_fee, sp_priority_fee_lamports = priority,
                 sp_rho_max_bps = rho, sp_bankroll_cap_lamports = cap, sp_max_friction = max_friction \<rparr>)"

text \<open>The name of a decision: \<open>mint[:8]\<close> and the milliseconds.\<close>

definition decision_name :: "string \<Rightarrow> pyfloat \<Rightarrow> string" where
  "decision_name mint now = take 8 mint @ ''-'' @ int_text (dint (fmul now 1000))"

definition scalper_decide ::
  "ScalperPolicy \<Rightarrow> (nat \<Rightarrow> pyfloat) \<Rightarrow> string \<Rightarrow> features \<Rightarrow> pyfloat \<Rightarrow> ShadowDecision res" where
  "scalper_decide p u mint features now =
     (let thresholds = draw (sp_ranges p) u in
     rbind (liveness_verdict features thresholds) (\<lambda>alive.
     rbind (feature ''sol_in_curve'' features) (\<lambda>sol.
       let pool_lamports = dint (fmul sol (of_int LAMPORTS_PER_SOL));
           size = optimal_size_lamports pool_lamports (sp_priority_fee_lamports p) (sp_rho_max_bps p)
             (sp_bankroll_cap_lamports p);
           actionable = 0 < size \<and>
             (case round_trip_friction size pool_lamports (sp_swap_fee_bps p) (sp_priority_fee_lamports p) of
                None \<Rightarrow> False | Some friction \<Rightarrow> friction \<le> sp_max_friction p);
           verdict = alive \<and> actionable;
           (enter, flip, propensity) = epsilon_flip (sp_explore_eps p) verdict (u 5)
       in Inr \<lparr> dc_decision_id = decision_name mint now, dc_mint = mint, dc_enter = enter, dc_verdict_pass = verdict,
                dc_explored = flip, dc_propensity = propensity, dc_thresholds = thresholds,
                dc_features = sort_key fst features, dc_size_lamports = (if enter then size else 0),
                dc_deadline_unix = fadd now (hold_seconds thresholds) \<rparr>)))"

section \<open>The propensity\<close>

lemma fl_near: "0 \<le> x \<Longrightarrow> x \<le> 1 \<Longrightarrow> \<bar>fl x - x\<bar> \<le> 1 / 2 ^ 53"
proof -
  assume x: "0 \<le> x" "x \<le> 1"
  have "\<bar>fl x - x\<bar> \<le> \<bar>x\<bar> / 2 ^ 53" by (rule fl_error)
  also have "\<dots> \<le> 1 / 2 ^ 53" using x by (intro divide_right_mono) simp_all
  finally show ?thesis .
qed

text \<open>
  The logged propensity is the probability of the action that was taken:
  the draws that lead to it are an interval of \<open>[0, 1)\<close>, and the logged number is its
  length up to two roundings. It is never zero once the exploration rate is at least
  \<open>2^-53\<close>, so both actions are possible for every candidate.
\<close>

lemma propensity_is_the_probability:
  assumes "0 \<le> eps" and "eps < 1 / 2" and "epsilon_flip eps verdict u = (enter, flip, p)"
  shows "(\<forall>v. fst (epsilon_flip eps verdict v) = enter \<longleftrightarrow> (if enter = verdict then eps \<le> v else v < eps)) \<and>
    \<bar>p - (if enter = verdict then 1 - eps else eps)\<bar> \<le> 2 / 2 ^ 53 \<and> (1 / 2 ^ 53 \<le> eps \<longrightarrow> 0 < p)"
proof -
  have enter: "enter = (verdict \<noteq> (u < eps))" and p: "p = (let q = (if verdict then fl (1 - eps) else eps)
      in if enter then q else fl (1 - q))"
    using assms(3) by (auto simp: epsilon_flip_def Let_def fsub_def)
  define c where "c = fl (1 - eps)"
  have c: "\<bar>c - (1 - eps)\<bar> \<le> 1 / 2 ^ 53" unfolding c_def using assms(1,2) by (intro fl_near) simp_all
  have "c \<le> (1 - eps) * (1 + 1 / 2 ^ 53)" unfolding c_def using assms(1,2) by (intro fl_at_most) simp
  also have "\<dots> \<le> 1 + 1 / 2 ^ 53" using assms(1,2) by (simp add: algebra_simps)
  finally have le: "c \<le> 1 + 1 / 2 ^ 53" .
  have c_pos: "0 < c" unfolding c_def using assms(2) by (intro fl_pos) simp
  have c_less: "c < 1" if "1 / 2 ^ 53 \<le> eps"
  proof -
    have "c \<le> (1 - eps) * (1 + 1 / 2 ^ 53)" unfolding c_def using assms(1,2) by (intro fl_at_most) simp
    also have "\<dots> = 1 - eps + (1 - eps) / 2 ^ 53" by (simp add: field_simps)
    also have "\<dots> < 1"
    proof -
      have "0 < eps" using that by (rule less_le_trans [rotated]) simp
      then have "(1 - eps) / 2 ^ 53 < 1 / 2 ^ 53" by (intro divide_strict_right_mono) simp_all
      then show ?thesis using that by linarith
    qed
    finally show ?thesis .
  qed
  have d: "\<bar>fl (1 - c) - (1 - c)\<bar> \<le> 1 / 2 ^ 53"
  proof -
    have "\<bar>fl (1 - c) - (1 - c)\<bar> \<le> \<bar>1 - c\<bar> / 2 ^ 53" by (rule fl_error)
    also have "\<dots> \<le> 1 / 2 ^ 53" using c_pos le by (intro divide_right_mono) (simp_all add: abs_if)
    finally show ?thesis .
  qed
  have both: "\<bar>fl (1 - c) - eps\<bar> \<le> 2 / 2 ^ 53"
  proof -
    have "fl (1 - c) - eps = (fl (1 - c) - (1 - c)) - (c - (1 - eps))" by simp
    then have "\<bar>fl (1 - c) - eps\<bar> \<le> \<bar>fl (1 - c) - (1 - c)\<bar> + \<bar>c - (1 - eps)\<bar>"
      by (simp only: abs_triangle_ineq4)
    also have "\<dots> \<le> 1 / 2 ^ 53 + 1 / 2 ^ 53" by (rule add_mono [OF d c])
    finally show ?thesis by simp
  qed
  have single: "\<bar>c - (1 - eps)\<bar> \<le> 2 / 2 ^ 53" by (rule order_trans [OF c]) simp
  have near: "\<bar>p - (if enter = verdict then 1 - eps else eps)\<bar> \<le> 2 / 2 ^ 53"
    using both single p enter d by (cases verdict; cases "u < eps") (simp_all add: c_def [symmetric] del: divide_le_eq_numeral1 le_divide_eq_numeral1)
  have pos: "0 < p" if "1 / 2 ^ 53 \<le> eps"
    using p enter c_pos fl_pos [of "1 - c"] c_less [OF that] that fl_pos [of "1 - eps"] assms(2)
    by (cases verdict; cases "u < eps") (simp_all add: c_def [symmetric])
  show ?thesis
    using near pos enter by (auto simp: epsilon_flip_def Let_def)
qed

section \<open>The book\<close>

record OpenPosition =
  op_decision_id :: string
  op_mint :: string
  op_size_lamports :: int
  op_deadline_unix :: pyfloat

text \<open>
  The heap as the ascending list of what \<open>heapq\<close> pops, by deadline and then name; a name is
  in it once, so nothing compares two positions. Beside it the dictionary of what is open.
\<close>

record DeadlineHeap =
  dh_heap :: "OpenPosition list"
  dh_open :: "(string \<times> OpenPosition) list"

definition before :: "OpenPosition \<Rightarrow> OpenPosition \<Rightarrow> bool" where
  "before a b \<longleftrightarrow> op_deadline_unix a < op_deadline_unix b \<or>
     op_deadline_unix a = op_deadline_unix b \<and> op_decision_id a \<le> op_decision_id b"

fun heap_push :: "OpenPosition \<Rightarrow> OpenPosition list \<Rightarrow> OpenPosition list" where
  "heap_push p [] = [p]"
| "heap_push p (q # qs) = (if before p q then p # q # qs else q # heap_push p qs)"

definition push :: "OpenPosition \<Rightarrow> DeadlineHeap \<Rightarrow> DeadlineHeap res" where
  "push p h =
     (if op_decision_id p \<in> set (map fst (dh_open h)) then Inl (ValueError ''position already open'')
      else Inr \<lparr> dh_heap = heap_push p (dh_heap h), dh_open = AList.update (op_decision_id p) p (dh_open h) \<rparr>)"

text \<open>The loop of \<open>due\<close>: the heap that is left, what is open, and what came out.\<close>

fun pop_due ::
  "pyfloat \<Rightarrow> OpenPosition list \<Rightarrow> (string \<times> OpenPosition) list \<Rightarrow>
   OpenPosition list \<times> (string \<times> OpenPosition) list \<times> OpenPosition list" where
  "pop_due now [] opn = ([], opn, [])"
| "pop_due now (p # ps) opn =
     (if op_deadline_unix p \<le> now
      then let (heap, rest, out) = pop_due now ps (AList.delete (op_decision_id p) opn)
           in (heap, rest, if op_decision_id p \<in> set (map fst opn) then p # out else out)
      else (p # ps, opn, []))"

definition due :: "pyfloat \<Rightarrow> DeadlineHeap \<Rightarrow> OpenPosition list \<times> DeadlineHeap" where
  "due now h = (let (heap, opn, out) = pop_due now (dh_heap h) (dh_open h) in (out, \<lparr> dh_heap = heap, dh_open = opn \<rparr>))"

definition exposure_lamports :: "DeadlineHeap \<Rightarrow> int" where
  "exposure_lamports h = sum_list (map (op_size_lamports \<circ> snd) (dh_open h))"

record CircuitBreaker =
  cb_window :: nat
  cb_max_drawdown_lamports :: int
  cb_pause_seconds :: pyfloat
  cb_closes :: "int list"
  cb_paused_until :: pyfloat

definition record_close :: "int \<Rightarrow> pyfloat \<Rightarrow> CircuitBreaker \<Rightarrow> CircuitBreaker" where
  "record_close pnl now cb =
     (let closes = cb_closes cb @ [pnl];
          closes = drop (length closes - cb_window cb) closes
      in if sum_list closes < - cb_max_drawdown_lamports cb
         then cb\<lparr>cb_paused_until := max (cb_paused_until cb) (fadd now (cb_pause_seconds cb)), cb_closes := []\<rparr>
         else cb\<lparr>cb_closes := closes\<rparr>)"

definition paused :: "pyfloat \<Rightarrow> CircuitBreaker \<Rightarrow> bool" where
  "paused now cb \<longleftrightarrow> now < cb_paused_until cb"

record Book =
  bk_max_positions :: nat
  bk_max_exposure_lamports :: int
  bk_heap :: DeadlineHeap
  bk_breaker :: CircuitBreaker
  bk_open_mints :: "string set"

definition admits :: "string \<Rightarrow> int \<Rightarrow> pyfloat \<Rightarrow> Book \<Rightarrow> bool" where
  "admits mint size_lamports now b \<longleftrightarrow>
     \<not> paused now (bk_breaker b) \<and> mint \<notin> bk_open_mints b \<and> length (dh_open (bk_heap b)) < bk_max_positions b \<and>
     exposure_lamports (bk_heap b) + size_lamports \<le> bk_max_exposure_lamports b"

definition book_open :: "OpenPosition \<Rightarrow> Book \<Rightarrow> Book res" where
  "book_open p b = rbind (push p (bk_heap b)) (\<lambda>h.
     Inr (b\<lparr>bk_heap := h, bk_open_mints := insert (op_mint p) (bk_open_mints b)\<rparr>))"

definition book_close :: "OpenPosition \<Rightarrow> int \<Rightarrow> pyfloat \<Rightarrow> Book \<Rightarrow> Book" where
  "book_close p pnl now b =
     b\<lparr>bk_open_mints := bk_open_mints b - {op_mint p}, bk_breaker := record_close pnl now (bk_breaker b)\<rparr>"

section \<open>Deadlines\<close>

definition by_name :: "OpenPosition \<Rightarrow> string \<times> OpenPosition" where
  "by_name p = (op_decision_id p, p)"

definition heap_inv :: "DeadlineHeap \<Rightarrow> bool" where
  "heap_inv h \<longleftrightarrow> sorted_wrt before (dh_heap h) \<and> distinct (map op_decision_id (dh_heap h)) \<and>
     distinct (map fst (dh_open h)) \<and> set (dh_open h) = by_name ` set (dh_heap h) \<and>
     list_all (\<lambda>p. 0 \<le> op_size_lamports p) (dh_heap h)"

lemma before_total: "before p q \<or> before q p"
  by (auto simp: before_def)

lemma before_trans: "before p q \<Longrightarrow> before q r \<Longrightarrow> before p r"
  by (auto simp: before_def)

lemma set_heap_push [simp]: "set (heap_push p qs) = insert p (set qs)"
  by (induction p qs rule: heap_push.induct) auto

lemma heap_push_sorted: "sorted_wrt before qs \<Longrightarrow> sorted_wrt before (heap_push p qs)"
proof (induction p qs rule: heap_push.induct)
  case (2 p q qs)
  show ?case
  proof (cases "before p q")
    case True
    then show ?thesis using 2(2) before_trans by auto
  next
    case False
    then have "before q p" using before_total by blast
    then show ?thesis using 2 False by auto
  qed
qed simp

lemma heap_push_distinct:
  "distinct (map op_decision_id (heap_push p qs)) \<longleftrightarrow>
   distinct (map op_decision_id qs) \<and> op_decision_id p \<notin> op_decision_id ` set qs"
  by (induction p qs rule: heap_push.induct) auto

lemma open_names: "heap_inv h \<Longrightarrow> set (map fst (dh_open h)) = op_decision_id ` set (dh_heap h)"
  by (force simp: heap_inv_def by_name_def image_iff)

lemma update_new: "k \<notin> set (map fst xs) \<Longrightarrow> AList.update k v xs = xs @ [(k, v)]"
  by (induction xs) auto

lemma push_inv:
  assumes "heap_inv h" "push p h = Inr h'" "0 \<le> op_size_lamports p"
  shows "heap_inv h'" "exposure_lamports h' = exposure_lamports h + op_size_lamports p"
    "length (dh_open h') = length (dh_open h) + 1"
proof -
  have new: "op_decision_id p \<notin> set (map fst (dh_open h))"
    and h': "h' = \<lparr> dh_heap = heap_push p (dh_heap h), dh_open = dh_open h @ [(op_decision_id p, p)] \<rparr>"
    using assms(2) by (auto simp: push_def update_new split: if_splits)
  show "heap_inv h'"
    using assms(1,3) new open_names [OF assms(1)] h'
    by (auto simp: heap_inv_def heap_push_sorted heap_push_distinct by_name_def list_all_iff)
  show "exposure_lamports h' = exposure_lamports h + op_size_lamports p" "length (dh_open h') = length (dh_open h) + 1"
    by (simp_all add: h' exposure_lamports_def)
qed

lemma delete_filter: "AList.delete k xs = filter (\<lambda>e. fst e \<noteq> k) xs"
  by (induction xs) auto

lemma pop_due_value:
  assumes "distinct (map op_decision_id ps)" "op_decision_id ` set ps \<subseteq> fst ` set opn" "sorted_wrt before ps"
  shows "pop_due now ps opn = (filter (\<lambda>p. \<not> op_deadline_unix p \<le> now) ps,
    filter (\<lambda>e. fst e \<notin> op_decision_id ` {p \<in> set ps. op_deadline_unix p \<le> now}) opn,
    filter (\<lambda>p. op_deadline_unix p \<le> now) ps)"
  using assms
proof (induction ps arbitrary: opn)
  case (Cons p ps)
  show ?case
  proof (cases "op_deadline_unix p \<le> now")
    case True
    let ?opn = "AList.delete (op_decision_id p) opn"
    have "op_decision_id q \<in> fst ` set ?opn" if "q \<in> set ps" for q
    proof -
      have "op_decision_id q \<noteq> op_decision_id p" using Cons.prems(1) that by (metis distinct.simps(2) image_eqI list.set_map list.simps(9))
      moreover have "op_decision_id q \<in> fst ` set opn" using that by (intro subsetD [OF Cons.prems(2)]) simp
      then obtain e where "e \<in> set opn" "fst e = op_decision_id q" by (metis imageE)
      ultimately show ?thesis by (auto simp: delete_filter intro!: image_eqI [of _ _ e])
    qed
    then have names: "op_decision_id ` set ps \<subseteq> fst ` set ?opn" by blast
    have "distinct (map op_decision_id ps)" "sorted_wrt before ps" using Cons.prems(1,3) by simp_all
    note this(1) names this(2)
    from Cons.IH [OF this] have "pop_due now ps ?opn = (filter (\<lambda>p. \<not> op_deadline_unix p \<le> now) ps,
        filter (\<lambda>e. fst e \<notin> op_decision_id ` {p \<in> set ps. op_deadline_unix p \<le> now}) ?opn,
        filter (\<lambda>p. op_deadline_unix p \<le> now) ps)" .
    moreover have "op_decision_id p \<in> set (map fst opn)" using Cons.prems(2) by auto
    moreover have "op_decision_id ` {q \<in> set (p # ps). op_deadline_unix q \<le> now} =
        insert (op_decision_id p) (op_decision_id ` {q \<in> set ps. op_deadline_unix q \<le> now})"
      using True by (auto simp only: set_simps insert_iff mem_Collect_eq image_iff Collect_disj_eq)
    then have "filter (\<lambda>e. fst e \<notin> op_decision_id ` {q \<in> set ps. op_deadline_unix q \<le> now}) ?opn =
        filter (\<lambda>e. fst e \<notin> op_decision_id ` {q \<in> set (p # ps). op_deadline_unix q \<le> now}) opn"
      unfolding delete_filter filter_filter by (simp only: insert_iff de_Morgan_disj conj_commute)
    ultimately show ?thesis using True by simp
  next
    case False
    then have "\<forall>q \<in> set ps. \<not> op_deadline_unix q \<le> now"
      using Cons.prems(3) by (auto simp: before_def)
    then have none: "{q \<in> set (p # ps). op_deadline_unix q \<le> now} = {}"
      and "filter (\<lambda>p. \<not> op_deadline_unix p \<le> now) ps = ps" "filter (\<lambda>p. op_deadline_unix p \<le> now) ps = []"
      using False by (auto simp: filter_empty_conv filter_id_conv)
    then show ?thesis using False by (simp only: none) simp
  qed
qed simp

lemma due_value:
  assumes "heap_inv h"
  shows "due now h = (filter (\<lambda>p. op_deadline_unix p \<le> now) (dh_heap h),
    \<lparr> dh_heap = filter (\<lambda>p. \<not> op_deadline_unix p \<le> now) (dh_heap h),
      dh_open = filter (\<lambda>e. \<not> op_deadline_unix (snd e) \<le> now) (dh_open h) \<rparr>)"
proof -
  have names: "op_decision_id ` set (dh_heap h) \<subseteq> fst ` set (dh_open h)" using open_names [OF assms] by simp
  have "fst e \<in> op_decision_id ` {p \<in> set (dh_heap h). op_deadline_unix p \<le> now} \<longleftrightarrow> op_deadline_unix (snd e) \<le> now"
    if "e \<in> set (dh_open h)" for e
  proof -
    have "e \<in> by_name ` set (dh_heap h)" using assms that by (simp add: heap_inv_def)
    then obtain q where q: "q \<in> set (dh_heap h)" "e = by_name q" by blast
    have "p = q" if "p \<in> set (dh_heap h)" "op_decision_id p = op_decision_id q" for p
      using assms that q(1) by (auto simp: heap_inv_def distinct_map dest: inj_onD)
    then show ?thesis using q by (force simp: by_name_def)
  qed
  then have "filter (\<lambda>e. fst e \<notin> op_decision_id ` {p \<in> set (dh_heap h). op_deadline_unix p \<le> now}) (dh_open h) =
      filter (\<lambda>e. \<not> op_deadline_unix (snd e) \<le> now) (dh_open h)"
    by (intro filter_cong) auto
  then show ?thesis
    using assms names by (simp add: due_def pop_due_value heap_inv_def)
qed

lemma due_inv:
  assumes "heap_inv h" "due now h = (out, h')"
  shows "heap_inv h'"
  using assms
  by (auto simp: due_value heap_inv_def by_name_def list_all_iff distinct_map_filter sorted_wrt_filter)

lemma filter_sum_le:
  fixes f :: "'a \<Rightarrow> int"
  assumes "\<And>x. x \<in> set xs \<Longrightarrow> 0 \<le> f x"
  shows "sum_list (map f (filter P xs)) \<le> sum_list (map f xs)"
  using assms
proof (induction xs)
  case (Cons x xs)
  then have "sum_list (map f (filter P xs)) \<le> sum_list (map f xs)" "0 \<le> f x" by simp_all
  then show ?case by simp
qed simp

lemma due_smaller:
  assumes "heap_inv h" "due now h = (out, h')"
  shows "exposure_lamports h' \<le> exposure_lamports h" "length (dh_open h') \<le> length (dh_open h)"
proof -
  have "0 \<le> op_size_lamports (snd e)" if "e \<in> set (dh_open h)" for e
    using assms(1) that by (auto simp: heap_inv_def by_name_def list_all_iff)
  then show "exposure_lamports h' \<le> exposure_lamports h" "length (dh_open h') \<le> length (dh_open h)"
    using assms by (auto simp: due_value exposure_lamports_def intro!: filter_sum_le)
qed

end
