(* ===== verification/Scalper_Run.thy ===== *)
theory Scalper_Run
  imports Scalper
begin

text \<open>
  The marker of shadow positions (\<open>shadow.py\<close>), the snapshot of a coin (\<open>feed.py\<close>), and
  the session of the runner (\<open>run_shadow.py\<close>): one turn of its loop over what the feed and
  the generator return, and the drain at its end. The files it appends to are lists; the
  heartbeat is not modelled.
\<close>

section \<open>The marker\<close>

record ShadowFill =
  sf_decision_id :: string
  sf_mint :: string
  sf_spend_lamports :: int
  sf_tokens_raw :: int
  sf_entry_state :: CurveState

record ShadowClose =
  sc_decision_id :: string
  sc_mint :: string
  sc_spend_lamports :: int
  sc_proceeds_lamports :: int
  sc_priority_fees_lamports :: int
  sc_pnl_lamports :: int
  sc_entry_t :: pyfloat
  sc_exit_t :: pyfloat
  sc_exit_reason :: string

record ShadowMarker =
  sm_fee_bps :: int
  sm_priority_fee_lamports :: int
  sm_pending :: "(string \<times> string \<times> int) list"
  sm_fills :: "(string \<times> ShadowFill) list"

definition marker_submit :: "string \<Rightarrow> string \<Rightarrow> int \<Rightarrow> ShadowMarker \<Rightarrow> ShadowMarker" where
  "marker_submit decision_id mint spend m = m\<lparr>sm_pending := AList.update decision_id (mint, spend) (sm_pending m)\<rparr>"

definition entry_fills :: "string \<Rightarrow> CurveState \<Rightarrow> ShadowMarker \<Rightarrow> ShadowFill list" where
  "entry_fills mint state m =
     [\<lparr> sf_decision_id = k, sf_mint = mint, sf_spend_lamports = spend,
        sf_tokens_raw = curve_buy state spend (sm_fee_bps m), sf_entry_state = state \<rparr>.
      (k, (x, spend)) \<leftarrow> sm_pending m, x = mint, 0 < curve_buy state spend (sm_fee_bps m)]"

definition on_observation :: "string \<Rightarrow> CurveState \<Rightarrow> ShadowMarker \<Rightarrow> ShadowFill list \<times> ShadowMarker" where
  "on_observation mint state m =
     (let filled = entry_fills mint state m
      in (filled, m\<lparr>sm_pending := filter (\<lambda>(k, x, spend). x \<noteq> mint) (sm_pending m),
                    sm_fills := fold (\<lambda>f. AList.update (sf_decision_id f) f) filled (sm_fills m)\<rparr>))"

definition shadow_close ::
  "string \<Rightarrow> CurveState option \<Rightarrow> string \<Rightarrow> ShadowMarker \<Rightarrow> ShadowClose option \<times> ShadowMarker" where
  "shadow_close decision_id state reason m =
     (case map_of (sm_fills m) decision_id of
        None \<Rightarrow> (None, m\<lparr>sm_pending := AList.delete decision_id (sm_pending m)\<rparr>)
      | Some f \<Rightarrow>
          let prio = 2 * sm_priority_fee_lamports m;
              proceeds = (case state of None \<Rightarrow> 0 | Some c \<Rightarrow> curve_sell c (sf_tokens_raw f) (sm_fee_bps m));
              reason = (case state of None \<Rightarrow> ''feed_lost'' | Some _ \<Rightarrow> reason)
          in (Some \<lparr> sc_decision_id = decision_id, sc_mint = sf_mint f, sc_spend_lamports = sf_spend_lamports f,
                     sc_proceeds_lamports = proceeds, sc_priority_fees_lamports = prio,
                     sc_pnl_lamports = proceeds - sf_spend_lamports f - prio,
                     sc_entry_t = cs_t (sf_entry_state f),
                     sc_exit_t = (case state of None \<Rightarrow> cs_t (sf_entry_state f) | Some c \<Rightarrow> cs_t c),
                     sc_exit_reason = reason \<rparr>,
              m\<lparr>sm_fills := AList.delete decision_id (sm_fills m)\<rparr>))"

section \<open>Snapshots\<close>

record MintSnapshot =
  sn_mint :: string
  sn_t_ingest_unix :: pyfloat
  sn_created_unix :: pyfloat
  sn_last_trade_unix :: "pyfloat option"
  sn_vsol_lamports :: int
  sn_vtok_raw :: int
  sn_complete :: bool

definition VIRTUAL_SOL_FLOOR_LAMPORTS :: int where
  "VIRTUAL_SOL_FLOOR_LAMPORTS = 30000000000"

definition snapshot_curve :: "MintSnapshot \<Rightarrow> CurveState res" where
  "snapshot_curve snap = curve_state (sn_t_ingest_unix snap) (sn_vsol_lamports snap) (sn_vtok_raw snap)"

definition snapshot_features :: "MintSnapshot \<Rightarrow> features" where
  "snapshot_features snap =
     (let now = sn_t_ingest_unix snap;
          recency = (case sn_last_trade_unix snap of
              None \<Rightarrow> 1000000000 | Some t \<Rightarrow> if t = 0 then 1000000000 else fsub now t);
          sol_in_curve = fdiv (float_of (max 0 (sn_vsol_lamports snap - VIRTUAL_SOL_FLOOR_LAMPORTS))) 1000000000
      in [(''age_s'', fsub now (sn_created_unix snap)), (''trade_recency_s'', max 0 recency),
          (''sol_in_curve'', sol_in_curve)])"

section \<open>The session\<close>

record ShadowCounters =
  ct_snapshots :: int
  ct_decisions :: int
  ct_enters :: int
  ct_closes :: int
  ct_feed_lost :: int

record ShadowSession =
  ss_book :: Book
  ss_marker :: ShadowMarker
  ss_positions :: "(string \<times> OpenPosition) list"
  ss_last_decided :: "(string \<times> pyfloat) list"
  ss_counters :: ShadowCounters
  ss_decisions :: "ShadowDecision list"
  ss_closes :: "ShadowClose list"

definition DECISION_COOLDOWN_S :: pyfloat where
  "DECISION_COOLDOWN_S = 120"

definition position_of :: "ShadowDecision \<Rightarrow> OpenPosition" where
  "position_of d = \<lparr> op_decision_id = dc_decision_id d, op_mint = dc_mint d, op_size_lamports = dc_size_lamports d,
     op_deadline_unix = dc_deadline_unix d \<rparr>"

text \<open>The body of the entry: \<open>book.open\<close>, \<open>positions\<close> and \<open>marker.submit\<close>.\<close>

definition shadow_enter :: "ShadowDecision \<Rightarrow> ShadowSession \<Rightarrow> ShadowSession res" where
  "shadow_enter d s = rbind (book_open (position_of d) (ss_book s)) (\<lambda>b.
     Inr (s\<lparr>ss_book := b, ss_positions := AList.update (dc_decision_id d) (position_of d) (ss_positions s),
            ss_marker := marker_submit (dc_decision_id d) (dc_mint d) (dc_size_lamports d) (ss_marker s),
            ss_counters := ss_counters s\<lparr>ct_enters := ct_enters (ss_counters s) + 1\<rparr>\<rparr>))"

definition shadow_decision :: "ScalperPolicy \<Rightarrow> pyfloat \<Rightarrow> (nat \<Rightarrow> pyfloat) \<Rightarrow> MintSnapshot \<Rightarrow> ShadowSession \<Rightarrow> ShadowSession res" where
  "shadow_decision p now u snap s =
     (let s = s\<lparr>ss_last_decided := AList.update (sn_mint snap) now (ss_last_decided s)\<rparr> in
      rbind (scalper_decide p u (sn_mint snap) (snapshot_features snap) now) (\<lambda>d.
      let s = s\<lparr>ss_counters := ss_counters s\<lparr>ct_decisions := ct_decisions (ss_counters s) + 1\<rparr>,
                ss_decisions := ss_decisions s @ [d]\<rparr>
      in if dc_enter d \<and> admits (sn_mint snap) (dc_size_lamports d) now (ss_book s)
         then shadow_enter d s else Inr s))"

text \<open>A snapshot of the listing: it fills what waits for the coin, and is then decided on.\<close>

definition shadow_snapshot ::
  "ScalperPolicy \<Rightarrow> pyfloat \<Rightarrow> (string \<Rightarrow> nat \<Rightarrow> pyfloat) \<Rightarrow> MintSnapshot \<Rightarrow> ShadowSession \<Rightarrow> ShadowSession res" where
  "shadow_snapshot p now u snap s =
     rbind (snapshot_curve snap) (\<lambda>c.
       let s = s\<lparr>ss_marker := snd (on_observation (sn_mint snap) c (ss_marker s))\<rparr> in
       if sn_complete snap \<or>
          fsub now (case map_of (ss_last_decided s) (sn_mint snap) of None \<Rightarrow> 0 | Some t \<Rightarrow> t) < DECISION_COOLDOWN_S
       then Inr s
       else shadow_decision p now (u (sn_mint snap)) snap s)"

text \<open>
  \<open>polled\<close> is what \<open>poll_mint\<close> returns for the position of a decision, \<open>None\<close> when the
  request fails; a position is polled once in the refresh and once at its exit.
\<close>

definition shadow_refresh :: "(string \<Rightarrow> CurveState option) \<Rightarrow> ShadowSession \<Rightarrow> ShadowSession" where
  "shadow_refresh polled s = s\<lparr>ss_marker := fold (\<lambda>(k, pos) m.
     case polled k of None \<Rightarrow> m | Some c \<Rightarrow> snd (on_observation (op_mint pos) c m)) (ss_positions s) (ss_marker s)\<rparr>"

definition shadow_exit :: "pyfloat \<Rightarrow> (string \<Rightarrow> CurveState option) \<Rightarrow> OpenPosition \<Rightarrow> ShadowSession \<Rightarrow> ShadowSession" where
  "shadow_exit now polled pos s =
     (let (c, m) = shadow_close (op_decision_id pos) (polled (op_decision_id pos)) ''deadline'' (ss_marker s);
          s = s\<lparr>ss_marker := m, ss_positions := AList.delete (op_decision_id pos) (ss_positions s)\<rparr>
      in case c of
           None \<Rightarrow> s
         | Some close \<Rightarrow> s\<lparr>ss_book := book_close pos (sc_pnl_lamports close) now (ss_book s),
             ss_counters := ss_counters s\<lparr>ct_closes := ct_closes (ss_counters s) + 1,
               ct_feed_lost := ct_feed_lost (ss_counters s) + (if sc_exit_reason close = ''feed_lost'' then 1 else 0)\<rparr>,
             ss_closes := ss_closes s @ [close]\<rparr>)"

definition shadow_exits :: "pyfloat \<Rightarrow> (string \<Rightarrow> CurveState option) \<Rightarrow> ShadowSession \<Rightarrow> ShadowSession" where
  "shadow_exits now polled s =
     (let (out, h) = due now (bk_heap (ss_book s))
      in fold (shadow_exit now polled) out (s\<lparr>ss_book := ss_book s\<lparr>bk_heap := h\<rparr>\<rparr>))"

text \<open>What one turn of the loop meets outside, and the turn.\<close>

record ShadowTurn =
  st_now :: pyfloat
  st_batch :: "MintSnapshot list"
  st_draws :: "string \<Rightarrow> nat \<Rightarrow> pyfloat"
  st_refreshed :: "string \<Rightarrow> CurveState option"
  st_polled :: "string \<Rightarrow> CurveState option"

definition shadow_turn :: "ScalperPolicy \<Rightarrow> ShadowTurn \<Rightarrow> ShadowSession \<Rightarrow> ShadowSession res" where
  "shadow_turn p t s =
     (let s = s\<lparr>ss_counters := ss_counters s\<lparr>ct_snapshots := ct_snapshots (ss_counters s) + int (length (st_batch t))\<rparr>\<rparr> in
      rbind (rfold (shadow_snapshot p (st_now t) (st_draws t)) (st_batch t) s) (\<lambda>s.
      Inr (shadow_exits (st_now t) (st_polled t) (shadow_refresh (st_refreshed t) s))))"

definition new_session :: "nat \<Rightarrow> int \<Rightarrow> CircuitBreaker \<Rightarrow> int \<Rightarrow> int \<Rightarrow> ShadowSession" where
  "new_session max_positions max_exposure breaker fee priority = \<lparr>
     ss_book = \<lparr> bk_max_positions = max_positions, bk_max_exposure_lamports = max_exposure,
       bk_heap = \<lparr> dh_heap = [], dh_open = [] \<rparr>, bk_breaker = breaker, bk_open_mints = {} \<rparr>,
     ss_marker = \<lparr> sm_fee_bps = fee, sm_priority_fee_lamports = priority, sm_pending = [], sm_fills = [] \<rparr>,
     ss_positions = [], ss_last_decided = [],
     ss_counters = \<lparr> ct_snapshots = 0, ct_decisions = 0, ct_enters = 0, ct_closes = 0, ct_feed_lost = 0 \<rparr>,
     ss_decisions = [], ss_closes = [] \<rparr>"

text \<open>The drain at the end: every position that is left is marked once more and written down.\<close>

definition shadow_drain :: "(string \<Rightarrow> CurveState option) \<Rightarrow> ShadowSession \<Rightarrow> ShadowSession" where
  "shadow_drain polled s = fold (\<lambda>(k, pos) s.
     let (c, m) = shadow_close (op_decision_id pos) (polled (op_decision_id pos)) ''drain'' (ss_marker s)
     in s\<lparr>ss_marker := m, ss_closes := ss_closes s @ (case c of None \<Rightarrow> [] | Some close \<Rightarrow> [close\<lparr>sc_exit_reason := ''drain''\<rparr>])\<rparr>)
     (ss_positions s) s"

end
