(* ===== verification/Scalper_Session.thy ===== *)
theory Scalper_Session
  imports Scalper_Run
begin

text \<open>
  The session of the shadow scalper keeps its limits, whatever the feed returns: the
  invariant of the book, its marker and its dictionaries, for every operation of
  \<open>Scalper_Run\<close>, and what becomes of an entry of size zero.
\<close>

section \<open>The invariant\<close>

text \<open>What the marker holds belongs to live positions, and what is filled had a size.\<close>

definition marks :: "OpenPosition set \<Rightarrow> ShadowMarker \<Rightarrow> bool" where
  "marks live m \<longleftrightarrow>
     distinct (map fst (sm_pending m)) \<and> fst ` set (sm_pending m) \<inter> fst ` set (sm_fills m) = {} \<and>
     (\<forall>(k, x, spend) \<in> set (sm_pending m). \<exists>pos \<in> live.
        op_decision_id pos = k \<and> op_mint pos = x \<and> op_size_lamports pos = spend) \<and>
     (\<forall>(k, f) \<in> set (sm_fills m). \<exists>pos \<in> live.
        op_decision_id pos = k \<and> op_mint pos = sf_mint f \<and> op_size_lamports pos = sf_spend_lamports f \<and>
        0 < op_size_lamports pos)"

text \<open>The positions in the heap, and those that \<open>due\<close> has popped and no exit has met yet.\<close>

definition live :: "OpenPosition list \<Rightarrow> ShadowSession \<Rightarrow> OpenPosition set" where
  "live Q s = set Q \<union> set (dh_heap (bk_heap (ss_book s)))"

definition within_limits :: "Book \<Rightarrow> bool" where
  "within_limits b \<longleftrightarrow> length (dh_open (bk_heap b)) \<le> bk_max_positions b \<and>
     exposure_lamports (bk_heap b) \<le> bk_max_exposure_lamports b"

definition session_ok :: "OpenPosition list \<Rightarrow> ShadowSession \<Rightarrow> bool" where
  "session_ok Q s \<longleftrightarrow> heap_inv (bk_heap (ss_book s)) \<and> within_limits (ss_book s) \<and>
     distinct Q \<and> set Q \<inter> set (dh_heap (bk_heap (ss_book s))) = {} \<and>
     inj_on op_decision_id (live Q s) \<and> inj_on op_mint (live Q s) \<and>
     set (ss_positions s) = by_name ` live Q s \<and> op_mint ` live Q s \<subseteq> bk_open_mints (ss_book s) \<and>
     marks (live Q s) (ss_marker s)"

text \<open>The coin is taken, and no live position on it has a size.\<close>

definition blocked :: "string \<Rightarrow> OpenPosition list \<Rightarrow> ShadowSession \<Rightarrow> bool" where
  "blocked mint Q s \<longleftrightarrow> mint \<in> bk_open_mints (ss_book s) \<and>
     (\<forall>pos \<in> live Q s. op_mint pos = mint \<longrightarrow> op_size_lamports pos = 0)"

section \<open>The marker\<close>

lemma set_update_subset: "set (AList.update k v xs) \<subseteq> insert (k, v) (set xs)"
  by (induction xs) auto

lemma set_updates_subset: "set (fold (\<lambda>f. AList.update (key f) f) fs xs) \<subseteq> set xs \<union> (\<lambda>f. (key f, f)) ` set fs"
proof (induction fs arbitrary: xs)
  case (Cons f fs)
  show ?case
    using Cons.IH [of "AList.update (key f) f xs"] set_update_subset [of "key f" f xs] by auto
qed simp

lemma curve_buy_spends: "0 < curve_buy c spend fee \<Longrightarrow> 0 < spend"
  by (auto simp: curve_buy_def split: if_splits)

definition pending_of :: "OpenPosition set \<Rightarrow> string \<times> string \<times> int \<Rightarrow> bool" where
  "pending_of L e \<longleftrightarrow> (\<exists>pos \<in> L. op_decision_id pos = fst e \<and> op_mint pos = fst (snd e) \<and> op_size_lamports pos = snd (snd e))"

definition filled_of :: "OpenPosition set \<Rightarrow> string \<times> ShadowFill \<Rightarrow> bool" where
  "filled_of L e \<longleftrightarrow> (\<exists>pos \<in> L. op_decision_id pos = fst e \<and> op_mint pos = sf_mint (snd e) \<and>
     op_size_lamports pos = sf_spend_lamports (snd e) \<and> 0 < op_size_lamports pos)"

lemma marks_iff:
  "marks L m \<longleftrightarrow> distinct (map fst (sm_pending m)) \<and> fst ` set (sm_pending m) \<inter> fst ` set (sm_fills m) = {} \<and>
     (\<forall>e \<in> set (sm_pending m). pending_of L e) \<and> (\<forall>e \<in> set (sm_fills m). filled_of L e)"
  by (simp add: marks_def pending_of_def filled_of_def split_beta)

lemma entry_fill_of:
  assumes "f \<in> set (entry_fills mint c m)"
  shows "sf_mint f = mint" "0 < sf_spend_lamports f" "(sf_decision_id f, mint, sf_spend_lamports f) \<in> set (sm_pending m)"
  using assms by (auto simp: entry_fills_def dest: curve_buy_spends split: if_splits)

lemma marks_observation:
  assumes "marks L m"
  shows "marks L (snd (on_observation mint c m))"
proof -
  let ?m = "snd (on_observation mint c m)" and ?fs = "entry_fills mint c m"
  let ?new = "(\<lambda>f. (sf_decision_id f, f)) ` set ?fs"
  have P: "sm_pending ?m = filter (\<lambda>e. fst (snd e) \<noteq> mint) (sm_pending m)"
    by (simp add: on_observation_def Let_def split_beta')
  have F: "set (sm_fills ?m) \<subseteq> set (sm_fills m) \<union> ?new"
    by (simp add: on_observation_def Let_def set_updates_subset)
  have d: "distinct (map fst (sm_pending m))" and old: "fst ` set (sm_pending m) \<inter> fst ` set (sm_fills m) = {}"
    and pend: "\<forall>e \<in> set (sm_pending m). pending_of L e" and fill: "\<forall>e \<in> set (sm_fills m). filled_of L e"
    using assms by (simp_all add: marks_iff)
  have "filled_of L (sf_decision_id f, f)" if "f \<in> set ?fs" for f
    using entry_fill_of [OF that] bspec [OF pend entry_fill_of(3) [OF that]] by (auto simp: filled_of_def pending_of_def)
  then have "\<forall>e \<in> set (sm_fills ?m). filled_of L e" using F fill by blast
  moreover have "\<forall>e \<in> set (sm_pending ?m). pending_of L e" using pend by (simp add: P)
  moreover have "distinct (map fst (sm_pending ?m))" using d by (simp add: P distinct_map_filter)
  moreover have "k \<notin> fst ` set (sm_fills ?m)" if k: "k \<in> fst ` set (sm_pending ?m)" for k
  proof -
    obtain v where v: "(k, v) \<in> set (sm_pending m)" "fst v \<noteq> mint" using k by (auto simp: P)
    have "k \<noteq> sf_decision_id f" if "f \<in> set ?fs" for f
    proof
      assume "k = sf_decision_id f"
      then have "(k, mint, sf_spend_lamports f) \<in> set (sm_pending m)" using entry_fill_of(3) [OF that] by simp
      then have "v = (mint, sf_spend_lamports f)" using v(1) d by (meson eq_key_imp_eq_value)
      then show False using v(2) by simp
    qed
    moreover have "k \<notin> fst ` set (sm_fills m)" using old v(1) by force
    ultimately have "k \<notin> fst ` (set (sm_fills m) \<union> ?new)" by (simp add: image_Un image_image) blast
    then show ?thesis using F by blast
  qed
  ultimately show ?thesis unfolding marks_iff by blast
qed

lemma marks_submit:
  assumes "marks L m" "pos \<in> L" "op_decision_id pos = k" "op_mint pos = x" "op_size_lamports pos = spend"
    and "k \<notin> fst ` set (sm_fills m)"
  shows "marks L (marker_submit k x spend m)"
proof -
  have sub: "set (AList.update k (x, spend) (sm_pending m)) \<subseteq> insert (k, x, spend) (set (sm_pending m))"
    by (rule set_update_subset)
  have "pending_of L (k, x, spend)" using assms(2-5) unfolding pending_of_def by (intro bexI [of _ pos]) simp_all
  then have "\<forall>e \<in> set (AList.update k (x, spend) (sm_pending m)). pending_of L e"
    using assms(1) subsetD [OF sub] unfolding marks_iff by blast
  moreover have "fst ` set (AList.update k (x, spend) (sm_pending m)) = insert k (fst ` set (sm_pending m))"
    using dom_update [of k "(x, spend)" "sm_pending m"] by simp
  ultimately show ?thesis
    using assms(1,6) by (simp add: marks_iff marker_submit_def distinct_update)
qed

lemma marks_mono:
  assumes "marks L m" "L \<subseteq> L'"
  shows "marks L' m"
proof -
  have "pending_of L e \<Longrightarrow> pending_of L' e" "filled_of L e' \<Longrightarrow> filled_of L' e'" for e e'
    using assms(2) unfolding pending_of_def filled_of_def by (meson subsetD)+
  then show ?thesis using assms(1) unfolding marks_iff by blast
qed

text \<open>A position closes when it was filled; then it had a size, and nothing of it is left.\<close>

lemma shadow_close_value:
  assumes "shadow_close k st reason m = (c, m')"
  shows "c = None \<longleftrightarrow> k \<notin> fst ` set (sm_fills m)"
    and "c = None \<Longrightarrow> m' = m\<lparr>sm_pending := AList.delete k (sm_pending m)\<rparr>"
    and "c \<noteq> None \<Longrightarrow> m' = m\<lparr>sm_fills := AList.delete k (sm_fills m)\<rparr>"
proof -
  have "map_of (sm_fills m) k = None \<longleftrightarrow> k \<notin> fst ` set (sm_fills m)" by (rule map_of_eq_None_iff)
  then show "c = None \<longleftrightarrow> k \<notin> fst ` set (sm_fills m)"
    and "c = None \<Longrightarrow> m' = m\<lparr>sm_pending := AList.delete k (sm_pending m)\<rparr>"
    and "c \<noteq> None \<Longrightarrow> m' = m\<lparr>sm_fills := AList.delete k (sm_fills m)\<rparr>"
    using assms by (cases "map_of (sm_fills m) k"; auto simp: shadow_close_def Let_def)+
qed

lemma filter_fresh: "k \<notin> fst ` set xs \<Longrightarrow> filter (\<lambda>e. fst e \<noteq> k) xs = xs"
  by (intro filter_True) force

lemma shadow_close_filters:
  assumes m: "marks L m" and c: "shadow_close k st reason m = (c, m')"
  shows "sm_pending m' = filter (\<lambda>e. fst e \<noteq> k) (sm_pending m)"
    and "sm_fills m' = filter (\<lambda>e. fst e \<noteq> k) (sm_fills m)"
proof -
  note v = shadow_close_value [OF c]
  show "sm_pending m' = filter (\<lambda>e. fst e \<noteq> k) (sm_pending m)"
  proof (cases c)
    case (Some cl)
    then have "k \<in> fst ` set (sm_fills m)" using v(1) by simp
    then have "k \<notin> fst ` set (sm_pending m)" using m by (auto simp: marks_iff)
    note fresh = filter_fresh [OF this]
    show ?thesis using v(3) Some by (simp add: fresh)
  qed (use v(2) in \<open>simp add: delete_filter\<close>)
  show "sm_fills m' = filter (\<lambda>e. fst e \<noteq> k) (sm_fills m)"
  proof (cases c)
    case None
    then have "k \<notin> fst ` set (sm_fills m)" using v(1) by simp
    note fresh = filter_fresh [OF this]
    show ?thesis using v(2) None by (simp add: fresh)
  qed (use v(3) in \<open>simp add: delete_filter\<close>)
qed

lemma of_others:
  "fst e \<noteq> op_decision_id pos \<Longrightarrow> pending_of (insert pos L) e = pending_of L e"
  "fst e' \<noteq> op_decision_id pos \<Longrightarrow> filled_of (insert pos L) e' = filled_of L e'"
  by (auto simp: pending_of_def filled_of_def)

lemma marks_close:
  assumes m: "marks (insert pos L) m" and inj: "inj_on op_decision_id (insert pos L)"
    and c: "shadow_close (op_decision_id pos) st reason m = (c, m')"
  shows "marks L m'" and "c \<noteq> None \<Longrightarrow> 0 < op_size_lamports pos"
proof -
  let ?k = "op_decision_id pos"
  note f = shadow_close_filters [OF m c] and v = shadow_close_value [OF c]
  have d: "distinct (map fst (sm_pending m))" "fst ` set (sm_pending m) \<inter> fst ` set (sm_fills m) = {}"
    and P: "\<forall>e \<in> set (sm_pending m). pending_of (insert pos L) e" and F: "\<forall>e \<in> set (sm_fills m). filled_of (insert pos L) e"
    using m by (simp_all add: marks_iff)
  have "distinct (map fst (sm_pending m'))" using d(1) by (simp add: f distinct_map_filter)
  moreover have "fst ` set (sm_pending m') \<inter> fst ` set (sm_fills m') = {}"
    using d(2) unfolding f by (meson disjoint_iff image_mono filter_is_subset subsetD)
  moreover have "pending_of L e" if "e \<in> set (sm_pending m')" for e
    using that bspec [OF P, of e] of_others(1) [of e pos L] by (simp add: f)
  moreover have "filled_of L e" if "e \<in> set (sm_fills m')" for e
    using that bspec [OF F, of e] of_others(2) [of e pos L] by (simp add: f)
  ultimately show "marks L m'" by (simp add: marks_iff)
  assume "c \<noteq> None"
  then obtain f where "(?k, f) \<in> set (sm_fills m)" using v(1) by force
  then have "filled_of (insert pos L) (?k, f)" using F by blast
  then obtain q where "q \<in> insert pos L" "op_decision_id q = ?k" "0 < op_size_lamports q" by (auto simp: filled_of_def)
  then show "0 < op_size_lamports pos" using inj by (metis inj_onD insertI1)
qed

section \<open>The operations\<close>

text \<open>The invariant, and the coins that stay blocked, in one predicate.\<close>

definition good :: "string set \<Rightarrow> OpenPosition list \<Rightarrow> ShadowSession \<Rightarrow> bool" where
  "good B Q s \<longleftrightarrow> session_ok Q s \<and> (\<forall>mint \<in> B. blocked mint Q s)"

lemma live_simps [simp]:
  "live Q (s\<lparr>ss_marker := m\<rparr>) = live Q s" "live Q (s\<lparr>ss_counters := c\<rparr>) = live Q s"
  "live Q (s\<lparr>ss_last_decided := l\<rparr>) = live Q s" "live Q (s\<lparr>ss_decisions := ds\<rparr>) = live Q s"
  "live Q (s\<lparr>ss_closes := cs\<rparr>) = live Q s" "live Q (s\<lparr>ss_positions := ps\<rparr>) = live Q s"
  by (simp_all add: live_def)

lemma good_logs [simp]:
  "good B Q (s\<lparr>ss_counters := c\<rparr>) = good B Q s" "good B Q (s\<lparr>ss_last_decided := l\<rparr>) = good B Q s"
  "good B Q (s\<lparr>ss_decisions := ds\<rparr>) = good B Q s" "good B Q (s\<lparr>ss_closes := cs\<rparr>) = good B Q s"
  by (simp_all add: good_def session_ok_def blocked_def)

lemma good_marker: "good B Q s \<Longrightarrow> marks (live Q s) m \<Longrightarrow> good B Q (s\<lparr>ss_marker := m\<rparr>)"
  by (simp add: good_def session_ok_def blocked_def)

lemma good_marks: "good B Q s \<Longrightarrow> marks (live Q s) (ss_marker s)"
  by (simp add: good_def session_ok_def)

lemma good_observation: "good B Q s \<Longrightarrow> good B Q (s\<lparr>ss_marker := snd (on_observation mint c (ss_marker s))\<rparr>)"
  by (intro good_marker marks_observation good_marks)

lemma good_refresh:
  assumes "good B Q s"
  shows "good B Q (shadow_refresh polled s)"
proof -
  have "marks (live Q s) (fold (\<lambda>(k, pos) m.
      case polled k of None \<Rightarrow> m | Some c \<Rightarrow> snd (on_observation (op_mint pos) c m)) ps m)"
    if "marks (live Q s) m" for ps m
    using that by (induction ps arbitrary: m) (auto simp: marks_observation split: option.split)
  from this [OF good_marks [OF assms]] show ?thesis
    unfolding shadow_refresh_def using assms by (rule good_marker [rotated])
qed

lemma decide_facts:
  assumes "scalper_decide p u mint f now = Inr d"
  shows "dc_mint d = mint" "0 \<le> dc_size_lamports d"
proof -
  have "0 \<le> optimal_size_lamports a b c e" for a b c e by (simp add: optimal_size_lamports_def Let_def)
  then show "dc_mint d = mint" "0 \<le> dc_size_lamports d"
    using assms by (auto simp: scalper_decide_def rbind_eq_Inr Let_def epsilon_flip_def)
qed

lemma good_enter:
  assumes g: "good B [] s" and a: "admits (dc_mint d) (dc_size_lamports d) now (ss_book s)"
    and size: "0 \<le> dc_size_lamports d" and e: "shadow_enter d s = Inr s'"
  shows "good B [] s'"
proof -
  let ?pos = "position_of d" and ?h = "bk_heap (ss_book s)"
  obtain h where h: "push ?pos ?h = Inr h"
    and s': "s' = s\<lparr>ss_book := ss_book s\<lparr>bk_heap := h, bk_open_mints := insert (dc_mint d) (bk_open_mints (ss_book s))\<rparr>,
      ss_positions := AList.update (dc_decision_id d) ?pos (ss_positions s),
      ss_marker := marker_submit (dc_decision_id d) (dc_mint d) (dc_size_lamports d) (ss_marker s),
      ss_counters := ss_counters s\<lparr>ct_enters := ct_enters (ss_counters s) + 1\<rparr>\<rparr>"
    using e by (auto simp: shadow_enter_def book_open_def rbind_eq_Inr position_of_def)
  have pos [simp]: "op_decision_id ?pos = dc_decision_id d" "op_mint ?pos = dc_mint d" "op_size_lamports ?pos = dc_size_lamports d"
    by (simp_all add: position_of_def)
  have ok: "session_ok [] s" using g by (simp add: good_def)
  have inv: "heap_inv ?h" using ok by (simp add: session_ok_def)
  have fresh: "dc_decision_id d \<notin> op_decision_id ` set (dh_heap ?h)"
    using h open_names [OF inv] by (auto simp: push_def split: if_splits)
  have L: "live [] s' = insert ?pos (live [] s)"
    using h by (auto simp: s' live_def push_def split: if_splits)
  have new_mint: "dc_mint d \<notin> op_mint ` live [] s"
    using a ok by (auto simp: admits_def session_ok_def)
  note p = push_inv [OF inv h]
  have "heap_inv h" "within_limits (ss_book s')"
    using p size a by (simp_all add: within_limits_def admits_def s')
  moreover have "inj_on op_decision_id (live [] s')" "inj_on op_mint (live [] s')"
    using ok fresh new_mint unfolding L by (auto simp: session_ok_def live_def)
  moreover have "set (ss_positions s') = by_name ` live [] s'"
  proof -
    have "dc_decision_id d \<notin> set (map fst (ss_positions s))"
      using ok fresh by (auto simp: session_ok_def live_def by_name_def)
    then have "ss_positions s' = ss_positions s @ [by_name ?pos]" by (simp add: s' update_new by_name_def)
    then show ?thesis using ok unfolding L by (simp add: session_ok_def)
  qed
  moreover have "op_mint ` live [] s' \<subseteq> bk_open_mints (ss_book s')"
    using ok unfolding L by (auto simp: session_ok_def) (auto simp: s')
  moreover have "marks (live [] s') (ss_marker s')"
  proof -
    have m: "marks (live [] s) (ss_marker s)" using g by (rule good_marks)
    then have "dc_decision_id d \<notin> fst ` set (sm_fills (ss_marker s))"
    proof (rule contrapos_pp)
      assume "\<not> dc_decision_id d \<notin> fst ` set (sm_fills (ss_marker s))"
      then obtain f where "f \<in> set (sm_fills (ss_marker s))" "fst f = dc_decision_id d" by force
      then have "filled_of (live [] s) f" using m by (simp add: marks_iff)
      then have "dc_decision_id d \<in> op_decision_id ` set (dh_heap ?h)"
        using \<open>fst f = _\<close> by (force simp: filled_of_def live_def)
      then show "\<not> marks (live [] s) (ss_marker s)" using fresh by simp
    qed
    then have "marks (live [] s') (marker_submit (dc_decision_id d) (dc_mint d) (dc_size_lamports d) (ss_marker s))"
      unfolding L by (intro marks_submit [of _ _ ?pos] marks_mono [OF m]) auto
    then show ?thesis by (simp add: s')
  qed
  ultimately have "session_ok [] s'" by (auto simp: session_ok_def s')
  moreover have "blocked mint [] s'" if "mint \<in> B" for mint
  proof -
    have b: "blocked mint [] s" using g that by (simp add: good_def)
    then have "dc_mint d \<noteq> mint" using a by (auto simp: blocked_def admits_def)
    then have "\<forall>q \<in> live [] s'. op_mint q = mint \<longrightarrow> op_size_lamports q = 0" using b unfolding L by (simp add: blocked_def)
    moreover have "mint \<in> bk_open_mints (ss_book s')" using b by (simp add: blocked_def s')
    ultimately show ?thesis by (simp add: blocked_def)
  qed
  ultimately show ?thesis by (simp add: good_def)
qed

lemma good_exit:
  assumes g: "good B (pos # Q) s"
  shows "good B Q (shadow_exit now polled pos s)"
proof -
  let ?k = "op_decision_id pos" and ?s' = "shadow_exit now polled pos s"
  obtain c m where cm: "shadow_close ?k (polled ?k) ''deadline'' (ss_marker s) = (c, m)" by (cases "shadow_close ?k (polled ?k) ''deadline'' (ss_marker s)")
  have ok: "session_ok (pos # Q) s" using g by (simp add: good_def)
  have L: "live (pos # Q) s = insert pos (live Q s)" by (simp add: live_def)
  have new: "pos \<notin> live Q s" using ok by (auto simp: session_ok_def live_def)
  have ids: "inj_on op_decision_id (insert pos (live Q s))" and mints: "inj_on op_mint (insert pos (live Q s))"
    using ok by (simp_all add: session_ok_def L)
  have "marks (insert pos (live Q s)) (ss_marker s)" using good_marks [OF g] by (simp add: L)
  note marker = marks_close [OF this ids cm]
  have heap: "bk_heap (ss_book ?s') = bk_heap (ss_book s)" "ss_positions ?s' = AList.delete ?k (ss_positions s)"
      "ss_marker ?s' = m" "within_limits (ss_book ?s') = within_limits (ss_book s)"
      "bk_open_mints (ss_book ?s') = (if c = None then bk_open_mints (ss_book s) else bk_open_mints (ss_book s) - {op_mint pos})"
    using cm by (auto simp: shadow_exit_def Let_def book_close_def within_limits_def split: option.split)
  have L': "live Q ?s' = live Q s" by (simp add: live_def heap)
  have other: "op_mint q \<noteq> op_mint pos" if "q \<in> live Q s" for q
    using mints new that by (auto simp: inj_on_def)
  have other_id: "op_decision_id q \<noteq> ?k" if "q \<in> live Q s" for q
    using ids new that by (auto simp: inj_on_def)
  have P: "set (ss_positions s) = insert (by_name pos) (by_name ` live Q s)" using ok by (simp add: session_ok_def L)
  have positions: "set (ss_positions ?s') = by_name ` live Q ?s'"
  proof -
    have "e \<in> set (ss_positions ?s') \<longleftrightarrow> e \<in> by_name ` live Q s" for e
      using other_id by (auto simp: heap delete_filter P by_name_def)
    then show ?thesis by (auto simp: L')
  qed
  have open_mints: "op_mint ` live Q ?s' \<subseteq> bk_open_mints (ss_book ?s')"
  proof -
    have "op_mint ` live Q s \<subseteq> bk_open_mints (ss_book s) - {op_mint pos}"
      using ok other by (auto simp: session_ok_def L)
    then show ?thesis by (auto simp: L' heap)
  qed
  have "session_ok Q ?s'"
    using ok positions open_mints marker(1) ids mints by (simp add: session_ok_def heap L L')
  moreover have "blocked mint Q ?s'" if "mint \<in> B" for mint
  proof -
    have b: "mint \<in> bk_open_mints (ss_book s)" "op_mint pos = mint \<longrightarrow> op_size_lamports pos = 0"
      "\<forall>q \<in> live Q s. op_mint q = mint \<longrightarrow> op_size_lamports q = 0"
      using g that by (auto simp: good_def blocked_def L)
    then have "op_mint pos = mint \<Longrightarrow> c = None" using marker(2) by (cases c) auto
    then show ?thesis using b by (auto simp: blocked_def L' heap)
  qed
  ultimately show ?thesis by (simp add: good_def)
qed

lemma good_exits:
  assumes g: "good B [] s"
  shows "good B [] (shadow_exits now polled s)"
    and "\<forall>pos \<in> live [] (shadow_exits now polled s). now < op_deadline_unix pos"
proof -
  let ?h = "bk_heap (ss_book s)"
  obtain out h where d: "due now ?h = (out, h)" by (cases "due now ?h")
  let ?s = "s\<lparr>ss_book := ss_book s\<lparr>bk_heap := h\<rparr>\<rparr>"
  have ok: "session_ok [] s" using g by (simp add: good_def)
  then have inv: "heap_inv ?h" by (simp add: session_ok_def)
  have out: "out = filter (\<lambda>p. op_deadline_unix p \<le> now) (dh_heap ?h)"
    and left: "dh_heap h = filter (\<lambda>p. \<not> op_deadline_unix p \<le> now) (dh_heap ?h)"
    using d by (auto simp: due_value [OF inv])
  have same: "live out ?s = live [] s" by (auto simp: live_def out left)
  have "distinct (dh_heap ?h)" using inv by (auto simp: heap_inv_def distinct_map)
  then have "distinct out" "set out \<inter> set (dh_heap h) = {}" by (auto simp: out left)
  moreover have "within_limits (ss_book ?s)"
    using ok due_smaller [OF inv d] by (simp add: session_ok_def within_limits_def)
  ultimately have "session_ok out ?s" using ok due_inv [OF inv d] same by (simp add: session_ok_def)
  then have g': "good B out ?s" using g by (simp add: good_def blocked_def same)
  have "good B [] (fold (shadow_exit now polled) Q t)" if "good B Q t" for Q t
    using that by (induction Q arbitrary: t) (simp_all add: good_exit)
  from this [OF g'] show "good B [] (shadow_exits now polled s)" by (simp add: shadow_exits_def d)
  have "bk_heap (ss_book (shadow_exit now polled pos t)) = bk_heap (ss_book t)" for pos t
    by (simp add: shadow_exit_def Let_def book_close_def split: prod.split option.split)
  then have "bk_heap (ss_book (fold (shadow_exit now polled) Q t)) = bk_heap (ss_book t)" for Q t
    by (induction Q arbitrary: t) simp_all
  then show "\<forall>pos \<in> live [] (shadow_exits now polled s). now < op_deadline_unix pos"
    by (auto simp: shadow_exits_def d live_def left)
qed

lemma good_decision:
  assumes g: "good B [] s" and r: "shadow_decision p now u snap s = Inr s'"
  shows "good B [] s'"
proof -
  let ?s = "s\<lparr>ss_last_decided := AList.update (sn_mint snap) now (ss_last_decided s)\<rparr>"
  obtain d where d: "scalper_decide p u (sn_mint snap) (snapshot_features snap) now = Inr d"
    using r by (auto simp: shadow_decision_def Let_def rbind_eq_Inr)
  let ?t = "?s\<lparr>ss_counters := ss_counters ?s\<lparr>ct_decisions := ct_decisions (ss_counters ?s) + 1\<rparr>, ss_decisions := ss_decisions ?s @ [d]\<rparr>"
  have t: "good B [] ?t" using g by simp
  note f = decide_facts [OF d]
  show ?thesis
  proof (cases "dc_enter d \<and> admits (sn_mint snap) (dc_size_lamports d) now (ss_book s)")
    case True
    then have "shadow_enter d ?t = Inr s'" using r d by (simp add: shadow_decision_def Let_def)
    moreover have "admits (dc_mint d) (dc_size_lamports d) now (ss_book ?t)" using True f(1) by simp
    ultimately show ?thesis using good_enter [OF t _ f(2)] by blast
  next
    case False
    then have "s' = ?t" using r d by (auto simp: shadow_decision_def Let_def)
    then show ?thesis using t by simp
  qed
qed

lemma good_snapshot:
  assumes g: "good B [] s" and r: "shadow_snapshot p now u snap s = Inr s'"
  shows "good B [] s'"
proof -
  obtain c where c: "snapshot_curve snap = Inr c" using r by (auto simp: shadow_snapshot_def rbind_eq_Inr)
  have "good B [] (s\<lparr>ss_marker := snd (on_observation (sn_mint snap) c (ss_marker s))\<rparr>)"
    using g by (rule good_observation)
  then show ?thesis using r c by (auto simp: shadow_snapshot_def Let_def split: if_splits dest: good_decision)
qed

lemma good_batch: "good B [] s \<Longrightarrow> rfold (shadow_snapshot p now u) batch s = Inr s' \<Longrightarrow> good B [] s'"
  by (induction batch arbitrary: s) (auto simp: rbind_eq_Inr dest: good_snapshot)

lemma good_turn:
  assumes g: "good B [] s" and r: "shadow_turn p t s = Inr s'"
  shows "good B [] s'" "\<forall>pos \<in> live [] s'. st_now t < op_deadline_unix pos"
proof -
  obtain b where b: "rfold (shadow_snapshot p (st_now t) (st_draws t)) (st_batch t)
        (s\<lparr>ss_counters := ss_counters s\<lparr>ct_snapshots := ct_snapshots (ss_counters s) + int (length (st_batch t))\<rparr>\<rparr>) = Inr b"
      and s': "s' = shadow_exits (st_now t) (st_polled t) (shadow_refresh (st_refreshed t) b)"
    using r by (auto simp: shadow_turn_def Let_def rbind_eq_Inr)
  have "good B [] b" using g by (intro good_batch [OF _ b]) simp
  then show "good B [] s'" "\<forall>pos \<in> live [] s'. st_now t < op_deadline_unix pos"
    unfolding s' by (intro good_exits good_refresh, assumption)+
qed

lemma good_turns: "good B [] s \<Longrightarrow> rfold (shadow_turn p) ts s = Inr s' \<Longrightarrow> good B [] s'"
  by (induction ts arbitrary: s) (auto simp: rbind_eq_Inr dest: good_turn)

lemma good_new: "0 \<le> x \<Longrightarrow> good {} [] (new_session n x breaker fee priority)"
  by (simp add: good_def session_ok_def new_session_def heap_inv_def within_limits_def live_def marks_def exposure_lamports_def)

text \<open>No operation touches the limits.\<close>

definition limits :: "ShadowSession \<Rightarrow> nat \<times> int" where
  "limits s = (bk_max_positions (ss_book s), bk_max_exposure_lamports (ss_book s))"

lemma limits_snapshot: "shadow_snapshot p now u snap s = Inr s' \<Longrightarrow> limits s' = limits s"
  by (auto simp: shadow_snapshot_def shadow_decision_def shadow_enter_def book_open_def limits_def rbind_eq_Inr Let_def
      split: if_splits)

lemma limits_exit [simp]: "limits (shadow_exit now polled pos s) = limits s"
  by (simp add: shadow_exit_def Let_def book_close_def limits_def split: prod.split option.split)

lemma limits_exit_all: "limits (fold (shadow_exit now polled) Q s) = limits s"
  by (induction Q arbitrary: s) simp_all

lemma limits_turn: "shadow_turn p t s = Inr s' \<Longrightarrow> limits s' = limits s"
proof -
  assume t: "shadow_turn p t s = Inr s'"
  have batch: "rfold (shadow_snapshot p now u) b s = Inr s' \<Longrightarrow> limits s' = limits s" for now u b s s'
    by (induction b arbitrary: s) (auto simp: rbind_eq_Inr limits_snapshot)
  have "limits (shadow_exits now polled (shadow_refresh r s)) = limits s" for now polled r s
    unfolding shadow_exits_def by (simp add: limits_exit_all split_beta) (simp add: limits_def shadow_refresh_def)
  then show ?thesis using t batch by (fastforce simp: shadow_turn_def rbind_eq_Inr Let_def limits_def)
qed

lemma limits_turns: "rfold (shadow_turn p) ts s = Inr s' \<Longrightarrow> limits s' = limits s"
  by (induction ts arbitrary: s) (auto simp: rbind_eq_Inr limits_turn)

section \<open>What every session keeps\<close>

text \<open>A session for the witnesses: a coin whose pool is still empty, entered by exploration.\<close>

definition demo_policy :: ScalperPolicy where
  "demo_policy = \<lparr> sp_ranges = default_ranges\<lparr>jr_hold_seconds := (128, 128)\<rparr>, sp_explore_eps = 1 / 4,
     sp_swap_fee_bps = 100, sp_priority_fee_lamports = 35000, sp_rho_max_bps = 200,
     sp_bankroll_cap_lamports = 500000000, sp_max_friction = 1 / 16 \<rparr>"

definition demo_turn :: "pyfloat \<Rightarrow> ShadowTurn" where
  "demo_turn now = \<lparr> st_now = now,
     st_batch = [\<lparr> sn_mint = ''COIN'', sn_t_ingest_unix = now, sn_created_unix = 1020, sn_last_trade_unix = None,
       sn_vsol_lamports = 30000000000, sn_vtok_raw = 1000000000000, sn_complete = False \<rparr>],
     st_draws = (\<lambda>_ _. 0), st_refreshed = (\<lambda>_. None), st_polled = (\<lambda>_. None) \<rparr>"

definition demo_session :: ShadowSession where
  "demo_session = new_session 8 2000000000
     \<lparr> cb_window = 10, cb_max_drawdown_lamports = 100000000, cb_pause_seconds = 1800, cb_closes = [], cb_paused_until = 0 \<rparr>
     100 500000"

lemma demo_entered:
  "case rfold (shadow_turn demo_policy) [demo_turn 1024] demo_session of
     Inl e \<Rightarrow> False
   | Inr s \<Rightarrow> map op_mint (dh_heap (bk_heap (ss_book s))) = [''COIN''] \<and> map op_size_lamports (dh_heap (bk_heap (ss_book s))) = [0]"
  by code_simp

lemma demo_left:
  "case rfold (shadow_turn demo_policy) ([demo_turn 1024] @ [demo_turn 2048]) demo_session of
     Inl e \<Rightarrow> False | Inr s \<Rightarrow> dh_heap (bk_heap (ss_book s)) = [] \<and> ct_enters (ss_counters s) = 1"
  by code_simp

text \<open>
  C36 (invariant). Whatever the feed returns and the generator draws, after every turn the
  session has at most as many positions as its limit and no more lamports in them, the
  dictionary of the runner names exactly the positions of the heap, no coin is held twice,
  and nothing is held past its deadline.
\<close>

theorem shadow_session_keeps_its_limits:
  assumes "rfold (shadow_turn p) (ts @ [t]) (new_session n x breaker fee priority) = Inr s" and "0 \<le> x"
  shows "length (dh_open (bk_heap (ss_book s))) \<le> n \<and> exposure_lamports (bk_heap (ss_book s)) \<le> x \<and>
    set (ss_positions s) = by_name ` set (dh_heap (bk_heap (ss_book s))) \<and>
    inj_on op_mint (set (dh_heap (bk_heap (ss_book s)))) \<and>
    (\<forall>pos \<in> set (dh_heap (bk_heap (ss_book s))). st_now t < op_deadline_unix pos)"
proof -
  obtain r where r: "rfold (shadow_turn p) ts (new_session n x breaker fee priority) = Inr r" and t: "shadow_turn p t r = Inr s"
    using assms(1) by (auto simp: rfold_append rbind_eq_Inr)
  have "good {} [] r" using good_new [OF assms(2)] r by (rule good_turns)
  note s = good_turn [OF this t]
  have "limits s = (n, x)" using limits_turns [OF assms(1)] by (simp add: limits_def new_session_def)
  then show ?thesis
    using s by (simp add: good_def session_ok_def within_limits_def live_def limits_def)
qed

theorem shadow_session_keeps_its_limits_witness:
  "\<exists>s. rfold (shadow_turn demo_policy) ([] @ [demo_turn 1024]) demo_session = Inr s \<and>
     length (dh_open (bk_heap (ss_book s))) \<le> 8 \<and> exposure_lamports (bk_heap (ss_book s)) \<le> 2000000000"
proof -
  obtain s where s: "rfold (shadow_turn demo_policy) ([] @ [demo_turn 1024]) demo_session = Inr s"
    using demo_entered by (cases "rfold (shadow_turn demo_policy) [demo_turn 1024] demo_session") auto
  from shadow_session_keeps_its_limits [OF s [unfolded demo_session_def]] s show ?thesis by auto
qed

text \<open>
  C37 (safety). An entry of size zero, which the exploration makes on a coin without a pool,
  takes its coin for good: it is never filled, so its exit never reaches \<open>book.close\<close>, and
  no later turn of the session is let in on that coin again.
\<close>

theorem empty_entry_blocks_its_coin:
  assumes "rfold (shadow_turn p) ts (new_session n x breaker fee priority) = Inr s" and "0 \<le> x"
    and "pos \<in> set (dh_heap (bk_heap (ss_book s)))" and "op_size_lamports pos = 0"
    and "rfold (shadow_turn p) ts' s = Inr s'"
  shows "op_mint pos \<in> bk_open_mints (ss_book s') \<and> \<not> admits (op_mint pos) size_lamports now (ss_book s')"
proof -
  have ok: "session_ok [] s" using good_turns [OF good_new [OF assms(2)] assms(1)] by (simp add: good_def)
  then have "blocked (op_mint pos) [] s"
    using assms(3,4) by (auto simp: session_ok_def blocked_def live_def inj_on_def)
  then have "good {op_mint pos} [] s" using ok by (simp add: good_def)
  from good_turns [OF this assms(5)] show ?thesis by (simp add: good_def blocked_def admits_def)
qed

theorem empty_entry_blocks_its_coin_witness:
  "\<exists>s. rfold (shadow_turn demo_policy) ([demo_turn 1024] @ [demo_turn 2048]) demo_session = Inr s \<and>
     dh_heap (bk_heap (ss_book s)) = [] \<and> \<not> admits ''COIN'' 1 1000000 (ss_book s)"
proof -
  obtain r where r: "rfold (shadow_turn demo_policy) [demo_turn 1024] demo_session = Inr r"
    and pos: "map op_mint (dh_heap (bk_heap (ss_book r))) = [''COIN'']" "map op_size_lamports (dh_heap (bk_heap (ss_book r))) = [0]"
    using demo_entered by (cases "rfold (shadow_turn demo_policy) [demo_turn 1024] demo_session") auto
  obtain s where s: "rfold (shadow_turn demo_policy) ([demo_turn 1024] @ [demo_turn 2048]) demo_session = Inr s"
    and heap: "dh_heap (bk_heap (ss_book s)) = []"
    using demo_left by (cases "rfold (shadow_turn demo_policy) ([demo_turn 1024] @ [demo_turn 2048]) demo_session") auto
  have later: "rfold (shadow_turn demo_policy) [demo_turn 2048] r = Inr s"
    using s r unfolding rfold_append by simp
  obtain q where q: "q \<in> set (dh_heap (bk_heap (ss_book r)))" "op_mint q = ''COIN''" "op_size_lamports q = 0"
    using pos by (cases "dh_heap (bk_heap (ss_book r))") auto
  from empty_entry_blocks_its_coin [OF r [unfolded demo_session_def] _ q(1,3) later] s heap q(2) show ?thesis by auto
qed

end
