(* ===== verification/Desk_Policy.thy ===== *)
theory Desk_Policy
  imports Scalper Policies
begin

text \<open>
  The policies of the paper desk (\<open>joshibot/shitcoims_paperdesk\<close>): its friction model
  (\<open>friction.py\<close>), an observation of a coin (\<open>feeds.py\<close>), the five policies that decide
  over its features (\<open>policy.py\<close>), and the contract a logged decision has to meet
  (\<open>shitcoims_tape/schema.py\<close>). The hash of the features and the text of a time are not
  modelled; what the generator draws is an argument.
\<close>

section \<open>Friction\<close>

record Friction =
  fr_priority_fee_lamports :: int
  fr_rho_max_bps :: int
  fr_max_round_trip :: pyfloat

definition EFFECTIVE_TAKE_BPS :: "(string \<times> int) list" where
  "EFFECTIVE_TAKE_BPS = [(''DREGG/SOL'', 105), (''SOLVE/SOL'', 105), (''nosis/SOL'', 407 + 85), (''weave/SOL'', 909 + 85)]"

definition BONDING_CURVE_TAKE_BPS :: int where
  "BONDING_CURVE_TAKE_BPS = 100"

definition take_bps_for :: "string option \<Rightarrow> int" where
  "take_bps_for label = (case label of
     None \<Rightarrow> BONDING_CURVE_TAKE_BPS
   | Some l \<Rightarrow> (case map_of EFFECTIVE_TAKE_BPS l of None \<Rightarrow> BONDING_CURVE_TAKE_BPS | Some bps \<Rightarrow> bps))"

definition friction_size :: "Friction \<Rightarrow> int \<Rightarrow> int \<Rightarrow> int" where
  "friction_size fr pool_sol_lamports bankroll_cap =
     optimal_size_lamports pool_sol_lamports (fr_priority_fee_lamports fr) (fr_rho_max_bps fr) bankroll_cap"

definition friction_round_trip :: "Friction \<Rightarrow> int \<Rightarrow> int \<Rightarrow> int \<Rightarrow> pyfloat option" where
  "friction_round_trip fr size_lamports pool_sol_lamports take_bps =
     round_trip_friction size_lamports pool_sol_lamports take_bps (fr_priority_fee_lamports fr)"

definition affordable :: "Friction \<Rightarrow> int \<Rightarrow> int \<Rightarrow> int \<Rightarrow> bool" where
  "affordable fr size_lamports pool_sol_lamports take_bps =
     (if size_lamports \<le> 0 \<or> pool_sol_lamports \<le> 0 then False
      else case friction_round_trip fr size_lamports pool_sol_lamports take_bps of
        None \<Rightarrow> False | Some cost \<Rightarrow> cost \<le> fr_max_round_trip fr)"

section \<open>Observations\<close>

text \<open>The fields of \<open>MintObservation\<close> that the books read.\<close>

record MintObservation =
  ob_mint :: string
  ob_source :: string
  ob_t_ingest_unix :: pyfloat
  ob_t_event_unix :: "pyfloat option"
  ob_t_event_source :: string
  ob_vsol_lamports :: int
  ob_vtok_raw :: int
  ob_usd_market_cap :: pyfloat
  ob_drawdown_from_ath :: pyfloat
  ob_created_unix :: "pyfloat option"
  ob_last_trade_unix :: "pyfloat option"
  ob_complete :: bool
  ob_pool_label :: "string option"

definition drawdown_known :: "MintObservation \<Rightarrow> bool" where
  "drawdown_known obs \<longleftrightarrow> 0 \<le> ob_drawdown_from_ath obs"

definition obs_curve :: "MintObservation \<Rightarrow> CurveState res" where
  "obs_curve obs = curve_state (ob_t_ingest_unix obs) (ob_vsol_lamports obs) (ob_vtok_raw obs)"

definition obs_sol_in_curve :: "MintObservation \<Rightarrow> pyfloat" where
  "obs_sol_in_curve obs = fdiv (float_of (ob_vsol_lamports obs)) 1000000000"

definition obs_price :: "MintObservation \<Rightarrow> pyfloat res" where
  "obs_price obs = (if ob_vtok_raw obs = 0 then Inl (OtherError ''ZeroDivisionError'')
     else Inr (int_div (ob_vsol_lamports obs) (ob_vtok_raw obs)))"

text \<open>A clock that is absent gives not-a-number, which the code replaces by \<open>1e9\<close>.\<close>

definition since :: "pyfloat \<Rightarrow> pyfloat option \<Rightarrow> pyfloat" where
  "since now t = (case t of None \<Rightarrow> 1000000000 | Some t \<Rightarrow> fsub now t)"

definition obs_features :: "MintObservation \<Rightarrow> features" where
  "obs_features obs =
     [(''age_s'', since (ob_t_ingest_unix obs) (ob_created_unix obs)),
      (''trade_recency_s'', since (ob_t_ingest_unix obs) (ob_last_trade_unix obs)),
      (''sol_in_curve'', obs_sol_in_curve obs),
      (''drawdown_from_ath'', ob_drawdown_from_ath obs),
      (''usd_market_cap'', ob_usd_market_cap obs),
      (''drawdown_known'', if drawdown_known obs then 1 else 0)]"

section \<open>Rules\<close>

type_synonym thresholds = "(string \<times> pyfloat) list"

text \<open>\<open>f.get(k, default)\<close>; \<open>feature\<close> is \<open>f[k]\<close>, and \<open>both\<close> is \<open>and\<close> with its short circuit.\<close>

definition get_or :: "string \<Rightarrow> pyfloat \<Rightarrow> features \<Rightarrow> pyfloat" where
  "get_or k d f = (case map_of f k of None \<Rightarrow> d | Some v \<Rightarrow> v)"

definition both :: "bool res \<Rightarrow> bool res \<Rightarrow> bool res" where
  "both a b = rbind a (\<lambda>x. if x then b else Inr False)"

definition at_most :: "pyfloat res \<Rightarrow> pyfloat res \<Rightarrow> bool res" where
  "at_most a b = rbind a (\<lambda>x. rbind b (\<lambda>y. Inr (x \<le> y)))"

definition at_least :: "pyfloat res \<Rightarrow> pyfloat res \<Rightarrow> bool res" where
  "at_least a b = rbind a (\<lambda>x. rbind b (\<lambda>y. Inr (y \<le> x)))"

definition below :: "pyfloat res \<Rightarrow> pyfloat res \<Rightarrow> bool res" where
  "below a b = rbind a (\<lambda>x. rbind b (\<lambda>y. Inr (x < y)))"

definition short_ranges :: "(string \<times> pyfloat \<times> pyfloat) list" where
  "short_ranges = [(''dd_max'', fl (3 / 10), fl (7 / 10)), (''sol_min'', 10, 30), (''mcap_min'', 10000, 100000),
     (''max_trade_recency_s'', 60, 600), (''min_age_s'', 20, 90), (''max_age_s'', 900, 3600),
     (''hold_seconds'', 1800, 14400), (''take_profit'', fl (1 / 10), fl (35 / 100)),
     (''stop_loss'', fl (2 / 10), fl (4 / 10))]"

definition short_rule :: "features \<Rightarrow> thresholds \<Rightarrow> bool res" where
  "short_rule f t =
     rbind (both (at_least (feature ''sol_in_curve'' f) (feature ''sol_min'' t))
                 (at_most (feature ''trade_recency_s'' f) (feature ''max_trade_recency_s'' t))) (\<lambda>common.
     if \<not> common then Inr False
     else if 1 / 2 < get_or ''drawdown_known'' 0 f
     then both (below (feature ''drawdown_from_ath'' f) (feature ''dd_max'' t))
               (at_least (feature ''usd_market_cap'' f) (feature ''mcap_min'' t))
     else both (at_most (feature ''min_age_s'' t) (feature ''age_s'' f))
               (at_most (feature ''age_s'' f) (feature ''max_age_s'' t)))"

definition medium_ranges :: "(string \<times> pyfloat \<times> pyfloat) list" where
  "medium_ranges = [(''min_observed_s'', 7200, 21600), (''min_observations'', 8, 40), (''dd_max'', 1 / 2, fl (9 / 10)),
     (''sol_min'', 5, 20), (''hold_seconds'', 43200, 259200), (''take_profit'', 3 / 4, 2),
     (''stop_loss'', fl (4 / 10), fl (6 / 10)), (''deterioration_drawdown'', 1 / 4, fl (45 / 100)),
     (''deterioration_active_frac'', fl (55 / 100), fl (85 / 100))]"

definition medium_rule :: "features \<Rightarrow> thresholds \<Rightarrow> bool res" where
  "medium_rule f t =
     both (at_least (Inr (get_or ''observed_seconds'' 0 f)) (feature ''min_observed_s'' t))
    (both (at_least (Inr (get_or ''observations'' 0 f)) (feature ''min_observations'' t))
    (both (Inr (1 / 2 < get_or ''drawdown_known'' 0 f))
    (both (below (feature ''drawdown_from_ath'' f) (feature ''dd_max'' t))
          (at_least (feature ''sol_in_curve'' f) (feature ''sol_min'' t)))))"

definition toll_ranges :: "(string \<times> pyfloat \<times> pyfloat) list" where
  "toll_ranges = [(''gate_margin'', fl (9 / 10), fl (13 / 10)), (''half_width'', fl (3 / 10), fl (7 / 10)),
     (''rebalance_trigger'', 0, fl (15 / 100)), (''hold_seconds'', 86400, 345600),
     (''assumed_duty'', fl (9 / 10), fl (99 / 100))]"

definition toll_rule :: "features \<Rightarrow> thresholds \<Rightarrow> bool res" where
  "toll_rule f t =
     (let eta = get_or ''eta'' 0 f; vr = get_or ''variance_ratio'' 1 f in
      if eta \<le> 0 \<or> vr \<le> 0 then Inr False
      else rbind (feature ''assumed_duty'' t) (\<lambda>duty. rbind (feature ''gate_margin'' t) (\<lambda>margin.
        Inr (fmul vr margin < fmul eta duty))))"

definition wiggle_ranges :: "(string \<times> pyfloat \<times> pyfloat) list" where
  "wiggle_ranges = [(''hold_seconds'', 240, 420), (''take_profit'', fl (3 / 100), fl (9 / 100)),
     (''stop_loss'', fl (1 / 10), 1 / 4), (''dd_min'', fl (6 / 10), fl (85 / 100)), (''ghost_min_pool_sol'', 5, 25),
     (''max_trade_recency_s'', 30, 180), (''impact_margin'', 3, 8), (''min_two_sided'', 1 / 4, fl (6 / 10)),
     (''min_obs_per_min'', 1 / 2, 2), (''callout_relief'', fl (5 / 100), fl (3 / 10))]"

definition CALLOUT_ARM :: string where
  "CALLOUT_ARM = ''ignored''"

text \<open>
  The legs of the wiggle rule, by name. The margin is drawn from \<open>[3, 8]\<close>, so the division
  is defined; the callout leg is recorded only where callouts are required.
\<close>

definition wiggle_legs :: "features \<Rightarrow> thresholds \<Rightarrow> (string \<times> bool) list res" where
  "wiggle_legs f t =
     rbind (feature ''dd_min'' t) (\<lambda>dd_min. rbind (feature ''ghost_min_pool_sol'' t) (\<lambda>ghost.
     rbind (feature ''max_trade_recency_s'' t) (\<lambda>recency. rbind (feature ''take_profit'' t) (\<lambda>profit.
     rbind (feature ''impact_margin'' t) (\<lambda>margin. rbind (feature ''min_two_sided'' t) (\<lambda>two_sided.
     let out = [(''drawdown_known'', 1 / 2 < get_or ''drawdown_known'' 0 f),
                (''collapsed'', dd_min \<le> get_or ''drawdown_from_ath'' (- 1) f),
                (''depth'', ghost \<le> get_or ''sol_in_curve'' 0 f),
                (''recently_traded'', get_or ''trade_recency_s'' 1000000000 f \<le> recency),
                (''own_exit_impact'', get_or ''own_exit_impact'' 1 f \<le> fdiv profit margin)];
         callouts = get_or ''callout_n_60m'' 0 f;
         out = out @ (if CALLOUT_ARM = ''required'' then [(''callout'', 1 \<le> callouts)] else [])
     in rbind (if CALLOUT_ARM = ''preferred'' \<and> 1 \<le> callouts
               then rbind (feature ''callout_relief'' t) (\<lambda>relief. Inr (max 0 (fsub two_sided relief)))
               else Inr two_sided) (\<lambda>bar.
        if 3 \<le> get_or ''wiggle_observations'' 0 f
        then rbind (feature ''min_obs_per_min'' t) (\<lambda>cadence.
          Inr (out @ [(''markable_cadence'', cadence \<le> get_or ''wiggle_obs_per_min'' 0 f),
                      (''two_sided'', bar \<le> get_or ''wiggle_two_sided_frac'' 0 f)]))
        else Inr out)))))))"

definition wiggle_rule :: "features \<Rightarrow> thresholds \<Rightarrow> bool res" where
  "wiggle_rule f t = rbind (wiggle_legs f t) (\<lambda>legs. Inr (list_all snd legs))"

section \<open>Decisions\<close>

record DeskPolicy =
  dk_book :: string
  dk_policy_id :: string
  dk_ranges :: "(string \<times> pyfloat \<times> pyfloat) list"
  dk_rule :: "features \<Rightarrow> thresholds \<Rightarrow> bool res"
  dk_explore_eps :: pyfloat

definition short_policy :: "pyfloat \<Rightarrow> DeskPolicy" where
  "short_policy eps = \<lparr> dk_book = ''short'', dk_policy_id = ''paperdesk-short-v1'', dk_ranges = short_ranges,
     dk_rule = short_rule, dk_explore_eps = eps \<rparr>"

definition medium_policy :: "pyfloat \<Rightarrow> DeskPolicy" where
  "medium_policy eps = \<lparr> dk_book = ''medium'', dk_policy_id = ''paperdesk-medium-v1'', dk_ranges = medium_ranges,
     dk_rule = medium_rule, dk_explore_eps = eps \<rparr>"

definition toll_policy :: "pyfloat \<Rightarrow> DeskPolicy" where
  "toll_policy eps = \<lparr> dk_book = ''toll'', dk_policy_id = ''paperdesk-toll-v1'', dk_ranges = toll_ranges,
     dk_rule = toll_rule, dk_explore_eps = eps \<rparr>"

definition wiggle_policy :: "pyfloat \<Rightarrow> DeskPolicy" where
  "wiggle_policy eps = \<lparr> dk_book = ''wiggle'', dk_policy_id = ''paperdesk-wiggle-v1'', dk_ranges = wiggle_ranges,
     dk_rule = wiggle_rule, dk_explore_eps = eps \<rparr>"

definition operator_ranges :: "(string \<times> pyfloat \<times> pyfloat) list" where
  "operator_ranges = AList.update ''hold_seconds'' (1200, 2400) wiggle_ranges"

definition policy_for :: "string \<Rightarrow> pyfloat \<Rightarrow> DeskPolicy res" where
  "policy_for book eps =
     rbind (if book = ''short'' then Inr (short_policy eps) else if book = ''medium'' then Inr (medium_policy eps)
            else if book = ''toll'' then Inr (toll_policy eps) else if book = ''wiggle'' then Inr (wiggle_policy eps)
            else if book = ''operator'' then Inr (wiggle_policy eps\<lparr>dk_book := ''operator'',
              dk_policy_id := ''paperdesk-operator-v2'', dk_ranges := operator_ranges\<rparr>)
            else Inl (KeyError book)) (\<lambda>p.
     if \<not> (0 < eps \<and> eps < 1 / 2) then Inl (ValueError ''explore_eps must be in (0, 0.5)'')
     else Inr (if book = ''operator'' then p\<lparr>dk_explore_eps := 0\<rparr> else p))"

record DeskDecision =
  dd_decision_id :: string
  dd_policy_id :: string
  dd_book :: string
  dd_key :: string
  dd_acted :: bool
  dd_verdict_pass :: bool
  dd_explored :: bool
  dd_propensity :: pyfloat
  dd_thresholds :: thresholds
  dd_features :: features
  dd_size_lamports :: int
  dd_deadline_unix :: pyfloat
  dd_gates :: "(string \<times> bool) list"

text \<open>\<open>draw\<close>: one number per range, in their order.\<close>

definition desk_draw :: "(string \<times> pyfloat \<times> pyfloat) list \<Rightarrow> (nat \<Rightarrow> pyfloat) \<Rightarrow> thresholds" where
  "desk_draw ranges u = map (\<lambda>(i, k, r). (k, uniform r (u i))) (List.enumerate 0 ranges)"

definition desk_decision_id :: "string \<Rightarrow> string \<Rightarrow> pyfloat \<Rightarrow> string" where
  "desk_decision_id book key now = book @ ''-'' @ take 10 key @ ''-'' @ int_text (dint (fmul now 1000))"

definition desk_decide ::
  "DeskPolicy \<Rightarrow> (nat \<Rightarrow> pyfloat) \<Rightarrow> string \<Rightarrow> features \<Rightarrow> pyfloat \<Rightarrow> int \<Rightarrow> bool \<Rightarrow> thresholds option \<Rightarrow> DeskDecision res" where
  "desk_decide p u key features now size_lamports actionable given =
     (let thresholds = (case given of None \<Rightarrow> desk_draw (dk_ranges p) u | Some t \<Rightarrow> t);
          drawn = (case given of None \<Rightarrow> length (dk_ranges p) | Some _ \<Rightarrow> 0)
      in rbind (dk_rule p features thresholds) (\<lambda>pass.
         let verdict = pass \<and> actionable;
             (enter, flip, propensity) = epsilon_flip (dk_explore_eps p) verdict (u drawn);
             horizon = get_or ''hold_seconds'' 3600 thresholds
         in Inr \<lparr> dd_decision_id = desk_decision_id (dk_book p) key now, dd_policy_id = dk_policy_id p,
                  dd_book = dk_book p, dd_key = key, dd_acted = enter, dd_verdict_pass = verdict, dd_explored = flip,
                  dd_propensity = propensity, dd_thresholds = thresholds, dd_features = sort_key fst features,
                  dd_size_lamports = (if enter then size_lamports else 0), dd_deadline_unix = fadd now horizon,
                  dd_gates = [] \<rparr>))"

text \<open>\<open>OperatorPolicy.decide\<close>: always in, with the verdict of every gate beside it.\<close>

definition operator_decide ::
  "DeskPolicy \<Rightarrow> (nat \<Rightarrow> pyfloat) \<Rightarrow> string \<Rightarrow> features \<Rightarrow> pyfloat \<Rightarrow> int \<Rightarrow> bool \<Rightarrow> thresholds option \<Rightarrow> DeskDecision res" where
  "operator_decide p u key features now size_lamports actionable given =
     (let drawn = (case given of None \<Rightarrow> desk_draw (dk_ranges p) u | Some t \<Rightarrow> t) in
      rbind (wiggle_legs features drawn) (\<lambda>legs.
      let gates = legs @ [(''affordable'', actionable)] in
      Inr \<lparr> dd_decision_id = desk_decision_id (dk_book p) key now, dd_policy_id = dk_policy_id p,
            dd_book = dk_book p, dd_key = key, dd_acted = True, dd_verdict_pass = list_all snd gates, dd_explored = False,
            dd_propensity = 1, dd_thresholds = drawn, dd_features = sort_key fst features,
            dd_size_lamports = size_lamports, dd_deadline_unix = fadd now (get_or ''hold_seconds'' 300 drawn),
            dd_gates = gates \<rparr>))"

section \<open>The contract of a logged decision\<close>

definition B58_ALPHABET :: string where
  "B58_ALPHABET = ''123456789ABCDEFGHJKLMNPQRSTUVWXYZabcdefghijkmnopqrstuvwxyz''"

definition b58_index :: "char \<Rightarrow> int option" where
  "b58_index c = map_of (zip B58_ALPHABET [0..57]) c"

fun b58_total :: "int \<Rightarrow> string \<Rightarrow> int option" where
  "b58_total acc [] = Some acc"
| "b58_total acc (c # cs) = (case b58_index c of None \<Rightarrow> None | Some i \<Rightarrow> b58_total (acc * 58 + i) cs)"

function big_endian :: "int \<Rightarrow> int list" where
  "big_endian n = (if n \<le> 0 then [] else big_endian (n div 256) @ [n mod 256])"

  by pat_completeness auto
termination by (relation "measure nat") auto

declare big_endian.simps [simp del]

definition b58_decode :: "string \<Rightarrow> int list option" where
  "b58_decode s = (case b58_total 0 s of
     None \<Rightarrow> None | Some acc \<Rightarrow> Some (replicate (length (takeWhile (\<lambda>c. c = CHR ''1'') s)) 0 @ big_endian acc))"

definition mint_field :: "string \<Rightarrow> string res" where
  "mint_field value =
     (let s = strip value in
      if \<not> (32 \<le> length s \<and> length s \<le> 44 \<and> list_all (\<lambda>c. c \<in> set B58_ALPHABET) s)
      then Inl (ValueError ''mint is not a base58 Solana address'')
      else case b58_decode s of
        None \<Rightarrow> Inl (ValueError ''mint is not a 32-byte Solana address'')
      | Some bytes \<Rightarrow> if length bytes = 32 then Inr s else Inl (ValueError ''mint is not a 32-byte Solana address''))"

text \<open>\<open>_IDENT\<close>: a letter or digit, then at most 127 letters, digits and \<open>_.:/-\<close>.\<close>

definition is_alnum :: "char \<Rightarrow> bool" where
  "is_alnum c \<longleftrightarrow> (let n = (of_char c :: int) in 48 \<le> n \<and> n \<le> 57 \<or> 65 \<le> n \<and> n \<le> 90 \<or> 97 \<le> n \<and> n \<le> 122)"

definition ident_field :: "string \<Rightarrow> string res" where
  "ident_field value =
     (let s = strip value in
      case s of
        [] \<Rightarrow> Inl (ValueError ''not a valid identifier'')
      | c # cs \<Rightarrow> if is_alnum c \<and> length cs \<le> 127 \<and> list_all (\<lambda>c. is_alnum c \<or> c \<in> set ''_.:/-'') cs
          then Inr s else Inl (ValueError ''not a valid identifier''))"

record PropensityRecord =
  pr_decision_id :: string
  pr_policy_id :: string
  pr_action :: string
  pr_propensity :: pyfloat
  pr_envelope_verdict :: string
  pr_mint :: string

text \<open>
  \<open>PropensityRecord\<close> with a coin. The time is the code's own \<open>isoformat\<close> and the hash its own
  \<open>hexdigest\<close>; both pass their checks and are left out.
\<close>

definition propensity_record :: "string \<Rightarrow> string \<Rightarrow> string \<Rightarrow> pyfloat \<Rightarrow> string \<Rightarrow> string \<Rightarrow> PropensityRecord res" where
  "propensity_record decision_id policy_id action propensity envelope mint =
     rbind (ident_field decision_id) (\<lambda>decision_id. rbind (ident_field policy_id) (\<lambda>policy_id.
     rbind (ident_field action) (\<lambda>action. rbind (ident_field envelope) (\<lambda>envelope.
     if \<not> (0 < propensity \<and> propensity \<le> 1) then Inl (ValueError ''propensity must be in (0, 1]'')
     else rbind (mint_field mint) (\<lambda>mint.
       Inr \<lparr> pr_decision_id = decision_id, pr_policy_id = policy_id, pr_action = action, pr_propensity = propensity,
             pr_envelope_verdict = envelope, pr_mint = mint \<rparr>)))))"

definition decision_record :: "DeskDecision \<Rightarrow> PropensityRecord res" where
  "decision_record d = propensity_record (dd_decision_id d) (dd_policy_id d) (if dd_acted d then ''enter'' else ''skip'')
     (dd_propensity d) ''paper'' (dd_key d)"

lemma wsol_is_a_mint: "is_Inr (mint_field ''So11111111111111111111111111111111111111112'')"
  by code_simp

end
