(* ===== verification/Paper_Book.thy ===== *)
theory Paper_Book
  imports Desk_Policy
begin

text \<open>
  The books of the paper desk (\<open>joshibot/shitcoims_paperdesk\<close>): the rows of its ledger
  (\<open>ledger.py\<close>) and the machine of a position over a bonding curve (\<open>books.py\<close>), pending,
  open, armed and closed. The ledger is the list of its rows, without the run id; a time in
  text form is \<open>FTime\<close>. A book is a record that the wiggle book extends, as its class does.
\<close>

section \<open>The ledger\<close>

datatype field =
    FNone
  | FText string
  | FInt int
  | FBool bool
  | FFloat pyfloat
  | FTime pyfloat
  | FFloats "(string \<times> pyfloat) list"
  | FBools "(string \<times> bool) list"
  | FNames "string list"

type_synonym fields = "(string \<times> field) list"

record LedgerRow =
  lr_row :: string
  lr_book :: string
  lr_t_ingest_unix :: pyfloat
  lr_t_event_unix :: "pyfloat option"
  lr_t_event_source :: string
  lr_fields :: fields

definition ROW_KINDS :: "string list" where
  "ROW_KINDS = [''decision'', ''fill'', ''mark'', ''close'', ''watch_open'', ''watch_close'', ''heartbeat'', ''gate'',
     ''accrual'', ''rebalance'', ''defect'', ''hunch'', ''expectation'']"

definition ENVELOPE :: "string list" where
  "ENVELOPE = [''row'', ''run_id'', ''book'', ''t_ingest'', ''t_ingest_unix'', ''t_event'', ''t_event_source'']"

text \<open>\<open>Ledger.write\<close> with the checks of \<open>LedgerRow.to_json\<close>.\<close>

definition ledger_write :: "LedgerRow \<Rightarrow> LedgerRow list \<Rightarrow> LedgerRow list res" where
  "ledger_write r rows =
     (if lr_row r \<notin> set ROW_KINDS then Inl (KeyError ''unknown ledger row kind'')
      else if list_ex (\<lambda>k. k \<in> set ENVELOPE) (map fst (lr_fields r))
      then Inl (KeyError ''ledger row fields collide with the envelope'')
      else Inr (rows @ [r]))"

definition opt_field :: "('a \<Rightarrow> field) \<Rightarrow> 'a option \<Rightarrow> field" where
  "opt_field f v = (case v of None \<Rightarrow> FNone | Some x \<Rightarrow> f x)"

definition MARK_SOURCES :: "string list" where
  "MARK_SOURCES = [''observed'', ''last_observed_before_trigger'', ''total_loss'']"

definition close_row ::
  "string \<Rightarrow> string \<Rightarrow> string \<Rightarrow> string \<Rightarrow> string \<Rightarrow> pyfloat \<Rightarrow> pyfloat \<Rightarrow> pyfloat option \<Rightarrow> string \<Rightarrow>
   int \<Rightarrow> int \<Rightarrow> int \<Rightarrow> int \<Rightarrow> int \<Rightarrow> string \<Rightarrow> bool \<Rightarrow> string option \<Rightarrow> string \<Rightarrow>
   int \<Rightarrow> pyfloat \<Rightarrow> pyfloat \<Rightarrow> pyfloat \<Rightarrow> fields \<Rightarrow> LedgerRow res" where
  "close_row book position_id decision_id key label t_open t_close t_event t_event_source
     spend proceeds priority pnl pnl_pessimistic exit_reason censored censor_reason mark_source
     observations entry_price exit_price peak_price extra =
     (if censored \<and> censor_reason = None then Inl (ValueError ''a censored close must record why it was censored'')
      else if mark_source \<notin> set MARK_SOURCES then Inl (ValueError ''unknown mark_source'')
      else if spend \<le> 0 then Inl (ValueError ''a close row without a spend cannot be divided by; refuse it here'')
      else
        let fields = [(''position_id'', FText position_id), (''decision_id'', FText decision_id), (''key'', FText key),
              (''label'', FText label), (''opened_at'', FTime t_open), (''opened_at_unix'', FFloat t_open),
              (''closed_at'', FTime t_close), (''closed_at_unix'', FFloat t_close),
              (''holding_seconds'', FFloat (max 0 (fsub t_close t_open))),
              (''spend_lamports'', FInt spend), (''proceeds_lamports'', FInt proceeds),
              (''priority_fees_lamports'', FInt priority), (''pnl_lamports'', FInt pnl),
              (''pnl_pessimistic_lamports'', FInt pnl_pessimistic), (''net_return'', FFloat (int_div pnl spend)),
              (''net_return_pessimistic'', FFloat (int_div pnl_pessimistic spend)), (''exit_reason'', FText exit_reason),
              (''censored'', FBool censored), (''censor_reason'', opt_field FText censor_reason),
              (''mark_source'', FText mark_source), (''observations'', FInt observations),
              (''entry_price'', FFloat entry_price), (''exit_price'', FFloat exit_price), (''peak_price'', FFloat peak_price)]
        in if list_ex (\<lambda>k. k \<in> set (map fst fields)) (map fst extra)
           then Inl (KeyError ''close-row extras collide with the contract'')
           else Inr \<lparr> lr_row = ''close'', lr_book = book, lr_t_ingest_unix = t_close, lr_t_event_unix = t_event,
                      lr_t_event_source = t_event_source, lr_fields = fields @ extra \<rparr>)"

section \<open>Positions and books\<close>

datatype WatchClose = DEADLINE | GRADUATED | DIED | OPERATOR | DISPLACED | OBSERVER_LOST

definition watch_close_text :: "WatchClose \<Rightarrow> string" where
  "watch_close_text w = (case w of DEADLINE \<Rightarrow> ''deadline'' | GRADUATED \<Rightarrow> ''graduated'' | DIED \<Rightarrow> ''died''
     | OPERATOR \<Rightarrow> ''operator'' | DISPLACED \<Rightarrow> ''displaced'' | OBSERVER_LOST \<Rightarrow> ''observer_lost'')"

record PaperPosition =
  px_position_id :: string
  px_decision_id :: string
  px_book :: string
  px_mint :: string
  px_source :: string
  px_label :: "string option"
  px_spend_lamports :: int
  px_take_bps :: int
  px_tokens_raw :: int
  px_entry_price :: pyfloat
  px_entry_unix :: pyfloat
  px_entry_t_event :: "pyfloat option"
  px_entry_t_event_source :: string
  px_deadline_unix :: pyfloat
  px_take_profit :: pyfloat
  px_stop_loss :: pyfloat
  px_deterioration_drawdown :: pyfloat
  px_deterioration_active_frac :: pyfloat
  px_peak_price :: pyfloat
  px_last_price :: pyfloat
  px_last_vsol :: int
  px_last_vtok :: int
  px_last_obs_unix :: pyfloat
  px_last_obs_t_event :: "pyfloat option"
  px_last_obs_t_event_source :: string
  px_last_trade_unix :: "pyfloat option"
  px_observations :: int
  px_activity :: "int list"
  px_armed :: "(string \<times> pyfloat \<times> pyfloat) option"

text \<open>\<open>armed_reason\<close>, \<open>armed_unix\<close> and \<open>armed_price\<close> are set together and are one option.\<close>

definition ratio :: "PaperPosition \<Rightarrow> pyfloat" where
  "ratio p = (if 0 < px_entry_price p then fdiv (px_last_price p) (px_entry_price p) else 1)"

definition drawdown_from_peak :: "PaperPosition \<Rightarrow> pyfloat" where
  "drawdown_from_peak p = (if 0 < px_peak_price p then fsub 1 (fdiv (px_last_price p) (px_peak_price p)) else 0)"

definition active_frac :: "PaperPosition \<Rightarrow> pyfloat" where
  "active_frac p = (if px_activity p = [] then 0 else int_div (sum_list (px_activity p)) (int (length (px_activity p))))"

record PendingEntry =
  pe_decision_id :: string
  pe_decided_unix :: pyfloat
  pe_size_lamports :: int
  pe_deadline_unix :: pyfloat
  pe_take_profit :: pyfloat
  pe_stop_loss :: pyfloat
  pe_deterioration_drawdown :: pyfloat
  pe_deterioration_active_frac :: pyfloat
  pe_pool_label :: "string option"

record BookCounters =
  bc_observations :: int
  bc_decisions :: int
  bc_enters :: int
  bc_explored :: int
  bc_fills :: int
  bc_closes :: int
  bc_censored :: int
  bc_skipped_bankroll :: int
  bc_skipped_breaker :: int

record MintBook =
  mb_book :: string
  mb_policy :: DeskPolicy
  mb_friction :: Friction
  mb_bankroll_lamports :: int
  mb_max_positions :: nat
  mb_decision_cooldown_s :: pyfloat
  mb_deterioration_exit :: bool
  mb_breaker :: CircuitBreaker
  mb_departure_timeout_s :: pyfloat
  mb_pending :: "(string \<times> PendingEntry) list"
  mb_positions :: "(string \<times> PaperPosition) list"
  mb_last_decided :: "(string \<times> pyfloat) list"
  mb_seen :: "(string \<times> pyfloat \<times> int) list"
  mb_counters :: BookCounters
  mb_ledger :: "LedgerRow list"

definition DEAD_CURVE_LAMPORTS :: int where "DEAD_CURVE_LAMPORTS = 500000000"

definition ACTIVITY_WINDOW :: nat where "ACTIVITY_WINDOW = 24"

definition deployed_lamports :: "'a MintBook_scheme \<Rightarrow> int" where
  "deployed_lamports b = sum_list (map (px_spend_lamports \<circ> snd) (mb_positions b)) +
     sum_list (map (pe_size_lamports \<circ> snd) (mb_pending b))"

definition free_lamports :: "'a MintBook_scheme \<Rightarrow> int" where
  "free_lamports b = max 0 (mb_bankroll_lamports b - deployed_lamports b)"

definition counting :: "(BookCounters \<Rightarrow> BookCounters) \<Rightarrow> 'a MintBook_scheme \<Rightarrow> 'a MintBook_scheme" where
  "counting f b = b\<lparr>mb_counters := f (mb_counters b)\<rparr>"

definition write_row :: "LedgerRow \<Rightarrow> 'a MintBook_scheme \<Rightarrow> 'a MintBook_scheme res" where
  "write_row r b = rbind (ledger_write r (mb_ledger b)) (\<lambda>rows. Inr (b\<lparr>mb_ledger := rows\<rparr>))"

text \<open>\<open>ledger.emit\<close> with the clocks of an observation.\<close>

definition emit :: "string \<Rightarrow> MintObservation \<Rightarrow> fields \<Rightarrow> 'a MintBook_scheme \<Rightarrow> 'a MintBook_scheme res" where
  "emit kind obs fs b = write_row \<lparr> lr_row = kind, lr_book = mb_book b, lr_t_ingest_unix = ob_t_ingest_unix obs,
     lr_t_event_unix = ob_t_event_unix obs, lr_t_event_source = ob_t_event_source obs, lr_fields = fs \<rparr> b"

section \<open>Closing\<close>

definition emit_close ::
  "PaperPosition \<Rightarrow> pyfloat \<Rightarrow> pyfloat option \<Rightarrow> string \<Rightarrow> int \<Rightarrow> pyfloat \<Rightarrow> string \<Rightarrow> bool \<Rightarrow> string option \<Rightarrow>
   string \<Rightarrow> int \<Rightarrow> 'a MintBook_scheme \<Rightarrow> 'a MintBook_scheme res" where
  "emit_close p now t_event t_event_source proceeds exit_price exit_reason censored censor_reason mark_source pessimistic b =
     (let priority = 2 * fr_priority_fee_lamports (mb_friction b);
          pnl = proceeds - px_spend_lamports p - priority;
          pnl_pess = pessimistic - px_spend_lamports p - priority;
          b = b\<lparr>mb_positions := AList.delete (px_position_id p) (mb_positions b)\<rparr>;
          b = counting (\<lambda>c. c\<lparr>bc_closes := bc_closes c + 1, bc_censored := bc_censored c + (if censored then 1 else 0)\<rparr>) b;
          b = b\<lparr>mb_breaker := record_close pnl now (mb_breaker b)\<rparr>
      in rbind (close_row (mb_book b) (px_position_id p) (px_decision_id p) (px_mint p) (px_source p) (px_entry_unix p) now
           t_event t_event_source (px_spend_lamports p) proceeds priority pnl pnl_pess exit_reason censored censor_reason
           mark_source (px_observations p) (px_entry_price p) exit_price (px_peak_price p)
           [(''source'', FText (px_source p)), (''take_bps'', FInt (px_take_bps p)), (''take_profit'', FFloat (px_take_profit p)),
            (''stop_loss'', FFloat (px_stop_loss p)), (''tokens_raw'', FInt (px_tokens_raw p)),
            (''active_frac'', FFloat (active_frac p)), (''drawdown_from_peak'', FFloat (drawdown_from_peak p)),
            (''armed_at'', case px_armed p of None \<Rightarrow> FNone | Some (_, t, _) \<Rightarrow> if t = 0 then FNone else FTime t)])
         (\<lambda>r. write_row r b))"

text \<open>The clean case: the exit fills at the observation after the trigger.\<close>

definition close_observed :: "PaperPosition \<Rightarrow> MintObservation \<Rightarrow> 'a MintBook_scheme \<Rightarrow> 'a MintBook_scheme res" where
  "close_observed p obs b =
     rbind (curve_state (ob_t_ingest_unix obs) (ob_vsol_lamports obs) (ob_vtok_raw obs)) (\<lambda>c.
     rbind (obs_price obs) (\<lambda>price.
       let proceeds = curve_sell c (px_tokens_raw p) (px_take_bps p) in
       emit_close p (ob_t_ingest_unix obs) (ob_t_event_unix obs) (ob_t_event_source obs) proceeds price
         (case px_armed p of None \<Rightarrow> ''unknown'' | Some (reason, _, _) \<Rightarrow> if reason = [] then ''unknown'' else reason)
         False None ''observed'' proceeds b))"

text \<open>The marked case: at the last price at or before the trigger.\<close>

definition close_marked ::
  "PaperPosition \<Rightarrow> pyfloat \<Rightarrow> string \<Rightarrow> WatchClose \<Rightarrow> bool \<Rightarrow> 'a MintBook_scheme \<Rightarrow> 'a MintBook_scheme res" where
  "close_marked p now reason close_reason total_loss b =
     rbind (curve_state (px_last_obs_unix p) (max 1 (px_last_vsol p)) (max 1 (px_last_vtok p))) (\<lambda>c.
       let proceeds = (if total_loss then 0 else curve_sell c (px_tokens_raw p) (px_take_bps p));
           exit_price = (case px_armed p of None \<Rightarrow> px_last_price p | Some (_, _, price) \<Rightarrow> price);
           censored = (close_reason = DISPLACED \<or> close_reason = OBSERVER_LOST)
       in emit_close p now (px_last_obs_t_event p) (px_last_obs_t_event_source p) proceeds exit_price reason censored
            (if censored then Some (watch_close_text close_reason) else None)
            (if total_loss then ''total_loss'' else ''last_observed_before_trigger'')
            (if censored \<or> total_loss then 0 else proceeds) b)"

section \<open>Observing\<close>

definition filled_position :: "string \<Rightarrow> PendingEntry \<Rightarrow> MintObservation \<Rightarrow> int \<Rightarrow> int \<Rightarrow> pyfloat \<Rightarrow> PaperPosition" where
  "filled_position book pe obs take_bps amount price =
     \<lparr> px_position_id = pe_decision_id pe @ ''-p'', px_decision_id = pe_decision_id pe, px_book = book,
       px_mint = ob_mint obs, px_source = ob_source obs, px_label = ob_pool_label obs,
       px_spend_lamports = pe_size_lamports pe, px_take_bps = take_bps, px_tokens_raw = amount,
       px_entry_price = price, px_entry_unix = ob_t_ingest_unix obs, px_entry_t_event = ob_t_event_unix obs,
       px_entry_t_event_source = ob_t_event_source obs, px_deadline_unix = pe_deadline_unix pe,
       px_take_profit = pe_take_profit pe, px_stop_loss = pe_stop_loss pe,
       px_deterioration_drawdown = pe_deterioration_drawdown pe,
       px_deterioration_active_frac = pe_deterioration_active_frac pe,
       px_peak_price = price, px_last_price = price, px_last_vsol = ob_vsol_lamports obs, px_last_vtok = ob_vtok_raw obs,
       px_last_obs_unix = ob_t_ingest_unix obs, px_last_obs_t_event = ob_t_event_unix obs,
       px_last_obs_t_event_source = ob_t_event_source obs, px_last_trade_unix = ob_last_trade_unix obs,
       px_observations = 1, px_activity = [], px_armed = None \<rparr>"

definition put_position :: "PaperPosition \<Rightarrow> 'a MintBook_scheme \<Rightarrow> 'a MintBook_scheme" where
  "put_position p b = b\<lparr>mb_positions := AList.update (px_position_id p) p (mb_positions b)\<rparr>"

definition fill_pending :: "MintObservation \<Rightarrow> 'a MintBook_scheme \<Rightarrow> 'a MintBook_scheme res" where
  "fill_pending obs b =
     (case map_of (mb_pending b) (ob_mint obs) of
        None \<Rightarrow> Inr b
      | Some pe \<Rightarrow>
          if pe_pool_label pe \<noteq> ob_pool_label obs then Inr b
          else
            let b = b\<lparr>mb_pending := AList.delete (ob_mint obs) (mb_pending b)\<rparr>;
                take_bps = take_bps_for (ob_pool_label obs)
            in rbind (obs_curve obs) (\<lambda>c.
               let amount = curve_buy c (pe_size_lamports pe) take_bps in
               if amount \<le> 0
               then emit ''defect'' obs [(''key'', FText (ob_mint obs)), (''decision_id'', FText (pe_decision_id pe)),
                      (''detail'', FText ''entry_would_receive_zero_tokens'')] b
               else rbind (obs_price obs) (\<lambda>price.
                 let p = filled_position (mb_book b) pe obs take_bps amount price;
                     b = counting (\<lambda>c. c\<lparr>bc_fills := bc_fills c + 1\<rparr>) (put_position p b)
                 in emit ''fill'' obs
                      [(''position_id'', FText (px_position_id p)), (''decision_id'', FText (px_decision_id p)),
                       (''key'', FText (ob_mint obs)), (''source'', FText (ob_source obs)),
                       (''spend_lamports'', FInt (px_spend_lamports p)), (''tokens_raw'', FInt amount),
                       (''entry_price'', FFloat price), (''take_bps'', FInt take_bps),
                       (''take_profit'', FFloat (px_take_profit p)), (''stop_loss'', FFloat (px_stop_loss p)),
                       (''deadline'', FTime (px_deadline_unix p)),
                       (''fill_lag_s'', FFloat (fsub (ob_t_ingest_unix obs) (pe_decided_unix pe)))] b)))"

definition update_position :: "PaperPosition \<Rightarrow> MintObservation \<Rightarrow> pyfloat \<Rightarrow> PaperPosition" where
  "update_position p obs price =
     (let traded = (case (ob_last_trade_unix obs, px_last_trade_unix p) of
              (Some t, Some t0) \<Rightarrow> t0 < t | _ \<Rightarrow> False);
          activity = px_activity p @ [if traded then 1 else 0]
      in p\<lparr>px_activity := drop (length activity - ACTIVITY_WINDOW) activity, px_last_price := price,
           px_peak_price := max (px_peak_price p) price, px_last_vsol := ob_vsol_lamports obs,
           px_last_vtok := ob_vtok_raw obs, px_last_obs_unix := ob_t_ingest_unix obs,
           px_last_obs_t_event := ob_t_event_unix obs, px_last_obs_t_event_source := ob_t_event_source obs,
           px_last_trade_unix := (case ob_last_trade_unix obs of
               None \<Rightarrow> px_last_trade_unix p | Some t \<Rightarrow> if t = 0 then px_last_trade_unix p else Some t),
           px_observations := px_observations p + 1\<rparr>)"

definition trigger :: "bool \<Rightarrow> PaperPosition \<Rightarrow> pyfloat \<Rightarrow> string option" where
  "trigger deterioration_exit p now =
     (if fadd 1 (px_take_profit p) \<le> ratio p then Some ''take_profit''
      else if ratio p \<le> fsub 1 (px_stop_loss p) then Some ''stop_loss''
      else if px_deadline_unix p \<le> now then Some ''deadline''
      else if deterioration_exit \<and> ACTIVITY_WINDOW div 2 \<le> length (px_activity p) \<and>
              px_deterioration_drawdown p \<le> drawdown_from_peak p \<and> px_deterioration_active_frac p \<le> active_frac p
      then Some ''deterioration''
      else None)"

text \<open>The body of the loop over the positions: an armed one exits here, another is marked.\<close>

definition mark_position :: "MintObservation \<Rightarrow> PaperPosition \<Rightarrow> 'a MintBook_scheme \<Rightarrow> 'a MintBook_scheme res" where
  "mark_position obs p b =
     (if px_mint p \<noteq> ob_mint obs \<or> px_label p \<noteq> ob_pool_label obs then Inr b
      else if px_armed p \<noteq> None then close_observed p obs b
      else rbind (obs_price obs) (\<lambda>price.
        let p = update_position p obs price;
            b = put_position p b
        in if ob_vsol_lamports obs \<le> DEAD_CURVE_LAMPORTS
           then close_marked p (ob_t_ingest_unix obs) ''curve_drained'' DIED True b
           else if ob_complete obs
           then close_marked p (ob_t_ingest_unix obs) ''graduated'' GRADUATED False b
           else case trigger (mb_deterioration_exit b) p (ob_t_ingest_unix obs) of
             None \<Rightarrow> Inr b
           | Some reason \<Rightarrow>
               let p = p\<lparr>px_armed := Some (reason, ob_t_ingest_unix obs, price)\<rparr>
               in emit ''mark'' obs
                    [(''position_id'', FText (px_position_id p)), (''key'', FText (px_mint p)), (''armed'', FText reason),
                     (''ratio'', FFloat (ratio p)), (''drawdown_from_peak'', FFloat (drawdown_from_peak p)),
                     (''active_frac'', FFloat (active_frac p)), (''observations'', FInt (px_observations p))]
                    (put_position p b)))"

definition mark :: "MintObservation \<Rightarrow> 'a MintBook_scheme \<Rightarrow> 'a MintBook_scheme res" where
  "mark obs b = rfold (mark_position obs) (map snd (mb_positions b)) b"

definition note_seen :: "MintObservation \<Rightarrow> 'a MintBook_scheme \<Rightarrow> 'a MintBook_scheme" where
  "note_seen obs b =
     (let now = ob_t_ingest_unix obs;
          b = counting (\<lambda>c. c\<lparr>bc_observations := bc_observations c + 1\<rparr>) b;
          (first, count) = (case map_of (mb_seen b) (ob_mint obs) of None \<Rightarrow> (now, 0) | Some e \<Rightarrow> e)
      in b\<lparr>mb_seen := AList.update (ob_mint obs) (first, count + 1) (mb_seen b)\<rparr>)"

definition observe :: "MintObservation \<Rightarrow> 'a MintBook_scheme \<Rightarrow> 'a MintBook_scheme res" where
  "observe obs b = rbind (fill_pending obs (note_seen obs b)) (mark obs)"

section \<open>Sweeping and draining\<close>

definition sweep_position :: "pyfloat \<Rightarrow> bool \<Rightarrow> PaperPosition \<Rightarrow> 'a MintBook_scheme \<Rightarrow> 'a MintBook_scheme res" where
  "sweep_position now source_stale p b =
     (if fsub now (px_last_obs_unix p) < mb_departure_timeout_s b then Inr b
      else close_marked p now
        (case px_armed p of
           Some (reason, _, _) \<Rightarrow> if reason = [] then (if px_deadline_unix p \<le> now then ''deadline'' else ''departed'') else reason
         | None \<Rightarrow> if px_deadline_unix p \<le> now then ''deadline'' else ''departed'')
        (if source_stale then OBSERVER_LOST else DISPLACED) False b)"

definition sweep_pending :: "pyfloat \<Rightarrow> string \<times> PendingEntry \<Rightarrow> 'a MintBook_scheme \<Rightarrow> 'a MintBook_scheme res" where
  "sweep_pending now e b =
     (if mb_departure_timeout_s b \<le> fsub now (pe_decided_unix (snd e))
      then write_row \<lparr> lr_row = ''defect'', lr_book = mb_book b, lr_t_ingest_unix = now, lr_t_event_unix = None,
             lr_t_event_source = ''absent:local_row_has_no_source_clock'',
             lr_fields = [(''key'', FText (fst e)), (''decision_id'', FText (pe_decision_id (snd e))),
               (''detail'', FText ''entry_never_filled_mint_left_observation''),
               (''waited_s'', FFloat (fsub now (pe_decided_unix (snd e))))] \<rparr>
             (b\<lparr>mb_pending := AList.delete (fst e) (mb_pending b)\<rparr>)
      else Inr b)"

definition sweep :: "pyfloat \<Rightarrow> bool \<Rightarrow> 'a MintBook_scheme \<Rightarrow> 'a MintBook_scheme res" where
  "sweep now source_stale b =
     rbind (rfold (sweep_position now source_stale) (map snd (mb_positions b)) b) (\<lambda>b.
     rfold (sweep_pending now) (mb_pending b) b)"

definition drain :: "pyfloat \<Rightarrow> 'a MintBook_scheme \<Rightarrow> 'a MintBook_scheme res" where
  "drain now b = rfold (\<lambda>p. close_marked p now ''drain'' OPERATOR False) (map snd (mb_positions b)) b"

section \<open>Deciding\<close>

definition size_for :: "MintObservation \<Rightarrow> 'a MintBook_scheme \<Rightarrow> int" where
  "size_for obs b = friction_size (mb_friction b) (ob_vsol_lamports obs) (min (free_lamports b) (mb_bankroll_lamports b))"

text \<open>\<open>thresholds["take_profit"]\<close> and \<open>["stop_loss"]\<close> raise where a policy draws none.\<close>

definition pending_entry :: "MintObservation \<Rightarrow> DeskDecision \<Rightarrow> PendingEntry res" where
  "pending_entry obs d =
     rbind (feature ''take_profit'' (dd_thresholds d)) (\<lambda>take_profit.
     rbind (feature ''stop_loss'' (dd_thresholds d)) (\<lambda>stop_loss.
       Inr \<lparr> pe_decision_id = dd_decision_id d, pe_decided_unix = ob_t_ingest_unix obs,
             pe_size_lamports = dd_size_lamports d, pe_deadline_unix = dd_deadline_unix d,
             pe_take_profit = take_profit, pe_stop_loss = stop_loss,
             pe_deterioration_drawdown = get_or ''deterioration_drawdown'' 1 (dd_thresholds d),
             pe_deterioration_active_frac = get_or ''deterioration_active_frac'' 2 (dd_thresholds d),
             pe_pool_label = ob_pool_label obs \<rparr>))"

text \<open>The hook \<open>_pending_entry\<close> of the plain books, which refuses nothing.\<close>

definition plain_entry ::
  "MintObservation \<Rightarrow> DeskDecision \<Rightarrow> 'a MintBook_scheme \<Rightarrow> (PendingEntry option \<times> 'a MintBook_scheme) res" where
  "plain_entry obs d b = rbind (pending_entry obs d) (\<lambda>e. Inr (Some e, b))"

text \<open>Why a decision to enter is not acted on.\<close>

definition blocked_by :: "DeskDecision \<Rightarrow> pyfloat \<Rightarrow> 'a MintBook_scheme \<Rightarrow> string option" where
  "blocked_by d now b =
     (if \<not> dd_acted d then None
      else if paused now (mb_breaker b) then Some ''circuit_breaker''
      else if free_lamports b < dd_size_lamports d \<or> dd_size_lamports d \<le> 0 then Some ''bankroll''
      else if mb_max_positions b \<le> length (mb_positions b) + length (mb_pending b) then Some ''max_positions''
      else None)"

definition count_decision :: "DeskDecision \<Rightarrow> string option \<Rightarrow> BookCounters \<Rightarrow> BookCounters" where
  "count_decision d why c = c\<lparr>bc_decisions := bc_decisions c + 1,
     bc_explored := bc_explored c + (if dd_explored d then 1 else 0),
     bc_skipped_breaker := bc_skipped_breaker c + (if why = Some ''circuit_breaker'' then 1 else 0),
     bc_skipped_bankroll := bc_skipped_bankroll c + (if why = Some ''bankroll'' then 1 else 0)\<rparr>"

definition log_decision ::
  "MintObservation \<Rightarrow> DeskDecision \<Rightarrow> string option \<Rightarrow> 'a MintBook_scheme \<Rightarrow> 'a MintBook_scheme res" where
  "log_decision obs d why b =
     rbind (decision_record d) (\<lambda>r.
     emit ''decision'' obs
       ([(''decision_id'', FText (pr_decision_id r)), (''decided_at'', FTime (ob_t_ingest_unix obs)),
         (''policy_id'', FText (pr_policy_id r)), (''action'', FText (pr_action r)),
         (''propensity'', FFloat (pr_propensity r)), (''envelope_verdict'', FText (pr_envelope_verdict r)),
         (''mint'', FText (pr_mint r)), (''source'', FText (ob_source obs)), (''blocked'', opt_field FText why),
         (''verdict_pass'', FBool (dd_verdict_pass d)), (''explored'', FBool (dd_explored d)),
         (''thresholds'', FFloats (dd_thresholds d)), (''features'', FFloats (dd_features d)),
         (''size_lamports'', FInt (dd_size_lamports d)), (''deadline_unix'', FFloat (dd_deadline_unix d))] @
        (if dd_gates d = [] then []
         else [(''gates'', FBools (dd_gates d)),
               (''gates_would_veto'', FNames (sort (map fst (filter (\<lambda>g. \<not> snd g) (dd_gates d)))))])) b)"

definition decision_features :: "MintObservation \<Rightarrow> features \<Rightarrow> 'a MintBook_scheme \<Rightarrow> features" where
  "decision_features obs extra b =
     (let now = ob_t_ingest_unix obs;
          (first_seen, count) = (case map_of (mb_seen b) (ob_mint obs) of None \<Rightarrow> (now, 0) | Some e \<Rightarrow> e);
          fs = AList.update ''observations'' (float_of count)
            (AList.update ''observed_seconds'' (fsub now first_seen) (obs_features obs))
      in fold (\<lambda>(k, v). AList.update k v) extra fs)"

text \<open>What \<open>consider\<close> does with a decision: the log, and the entry unless it is blocked.\<close>

definition take_decision ::
  "(MintObservation \<Rightarrow> DeskDecision \<Rightarrow> 'a MintBook_scheme \<Rightarrow> (PendingEntry option \<times> 'a MintBook_scheme) res) \<Rightarrow>
   MintObservation \<Rightarrow> DeskDecision \<Rightarrow> 'a MintBook_scheme \<Rightarrow> 'a MintBook_scheme res" where
  "take_decision entry_hook obs d b =
     (let why = blocked_by d (ob_t_ingest_unix obs) b in
      rbind (log_decision obs d why (counting (count_decision d why) b)) (\<lambda>b.
      if \<not> dd_acted d \<or> why \<noteq> None then Inr b
      else rbind (entry_hook obs d b) (\<lambda>(entry, b). case entry of
          None \<Rightarrow> Inr b
        | Some e \<Rightarrow> Inr (counting (\<lambda>c. c\<lparr>bc_enters := bc_enters c + 1\<rparr>)
            (b\<lparr>mb_pending := AList.update (ob_mint obs) e (mb_pending b)\<rparr>)))))"

text \<open>
  \<open>consider\<close>, over the two hooks of the class: the size of a candidate, and the entry, which
  a book may refuse after the decision is logged. \<open>u\<close> are the numbers the generator draws.
\<close>

definition consider_with ::
  "(MintObservation \<Rightarrow> 'a MintBook_scheme \<Rightarrow> int) \<Rightarrow>
   (MintObservation \<Rightarrow> DeskDecision \<Rightarrow> 'a MintBook_scheme \<Rightarrow> (PendingEntry option \<times> 'a MintBook_scheme) res) \<Rightarrow>
   (nat \<Rightarrow> pyfloat) \<Rightarrow> MintObservation \<Rightarrow> features \<Rightarrow> 'a MintBook_scheme \<Rightarrow> 'a MintBook_scheme res" where
  "consider_with size_hook entry_hook u obs extra b =
     (let now = ob_t_ingest_unix obs; mint = ob_mint obs in
      if ob_complete obs \<or> mint \<in> set (map fst (mb_pending b)) then Inr b
      else if list_ex (\<lambda>p. px_mint p = mint) (map snd (mb_positions b)) then Inr b
      else if fsub now (case map_of (mb_last_decided b) mint of None \<Rightarrow> 0 | Some t \<Rightarrow> t) < mb_decision_cooldown_s b then Inr b
      else
        let b = b\<lparr>mb_last_decided := AList.update mint now (mb_last_decided b)\<rparr>;
            take_bps = take_bps_for (ob_pool_label obs);
            size_lamports = size_hook obs b;
            actionable = affordable (mb_friction b) size_lamports (ob_vsol_lamports obs) take_bps
        in rbind (desk_decide (mb_policy b) u mint (decision_features obs extra b) now size_lamports actionable None) (\<lambda>d.
           take_decision entry_hook obs d b))"

definition mint_consider :: "(nat \<Rightarrow> pyfloat) \<Rightarrow> MintObservation \<Rightarrow> features \<Rightarrow> 'a MintBook_scheme \<Rightarrow> 'a MintBook_scheme res" where
  "mint_consider = consider_with size_for plain_entry"

section \<open>The state on disk\<close>

record BookState =
  bs_pending :: "(string \<times> PendingEntry) list"
  bs_positions :: "(string \<times> PaperPosition) list"
  bs_counters :: BookCounters
  bs_seen :: "(string \<times> pyfloat \<times> int) list"

definition book_state :: "'a MintBook_scheme \<Rightarrow> BookState" where
  "book_state b = \<lparr> bs_pending = mb_pending b, bs_positions = mb_positions b, bs_counters = mb_counters b, bs_seen = mb_seen b \<rparr>"

definition restore :: "BookState \<Rightarrow> 'a MintBook_scheme \<Rightarrow> 'a MintBook_scheme" where
  "restore st b = b\<lparr>mb_pending := bs_pending st, mb_positions := bs_positions st, mb_counters := bs_counters st,
     mb_seen := bs_seen st\<rparr>"

definition new_book ::
  "DeskPolicy \<Rightarrow> Friction \<Rightarrow> int \<Rightarrow> nat \<Rightarrow> pyfloat \<Rightarrow> bool \<Rightarrow> CircuitBreaker \<Rightarrow> pyfloat \<Rightarrow> MintBook" where
  "new_book p fr bankroll max_positions cooldown deterioration breaker timeout = \<lparr>
     mb_book = dk_book p, mb_policy = p, mb_friction = fr, mb_bankroll_lamports = bankroll,
     mb_max_positions = max_positions, mb_decision_cooldown_s = cooldown, mb_deterioration_exit = deterioration,
     mb_breaker = breaker, mb_departure_timeout_s = timeout, mb_pending = [], mb_positions = [], mb_last_decided = [],
     mb_seen = [],
     mb_counters = \<lparr> bc_observations = 0, bc_decisions = 0, bc_enters = 0, bc_explored = 0, bc_fills = 0, bc_closes = 0,
       bc_censored = 0, bc_skipped_bankroll = 0, bc_skipped_breaker = 0 \<rparr>,
     mb_ledger = [] \<rparr>"

end
