(* ===== verification/Paper_Book_Kept.thy ===== *)
theory Paper_Book_Kept
  imports Paper_Book "HOL-Library.Multiset"
begin

text \<open>
  What every history of a book of the paper desk keeps, whatever it observes: the capital
  and the number of positions within their limits, no row that the ledger refuses, and a
  pessimistic figure that is never above the headline. The loops over the positions share
  the locale \<open>position_loop\<close>. Then the observation that fills an entry and also closes it, and last
  the life of a book over the saves of its state and the starts that read it back.
\<close>

section \<open>Association lists with distinct keys\<close>

lemma update_split: "k \<notin> fst ` set ys \<Longrightarrow> AList.update k w (ys @ (k, v) # zs) = ys @ (k, w) # zs"
  by (induction ys) auto

lemma delete_split: "k \<notin> fst ` set ys \<Longrightarrow> k \<notin> fst ` set zs \<Longrightarrow> AList.delete k (ys @ (k, v) # zs) = ys @ zs"
proof -
  assume "k \<notin> fst ` set ys" "k \<notin> fst ` set zs"
  then have "filter (\<lambda>e. fst e \<noteq> k) ys = ys" "filter (\<lambda>e. fst e \<noteq> k) zs = zs" by (auto intro!: filter_True)
  then show ?thesis by (simp add: delete_filter)
qed

lemma key_split:
  assumes "distinct (map fst xs)" "(k, v) \<in> set xs"
  obtains ys zs where "xs = ys @ (k, v) # zs" "k \<notin> fst ` set ys" "k \<notin> fst ` set zs"
    "AList.delete k xs = ys @ zs" "\<And>w. AList.update k w xs = ys @ (k, w) # zs"
proof -
  obtain ys zs where xs: "xs = ys @ (k, v) # zs" using assms(2) by (metis split_list)
  then have k: "k \<notin> fst ` set ys" "k \<notin> fst ` set zs" using assms(1) by auto
  show thesis by (rule that [OF xs k]) (simp_all add: xs k update_split delete_split)
qed

lemma sum_update_le:
  fixes f :: "'v \<Rightarrow> int"
  assumes "\<forall>e \<in> set xs. 0 \<le> f (snd e)"
  shows "sum_list (map (f \<circ> snd) (AList.update k v xs)) \<le> sum_list (map (f \<circ> snd) xs) + f v"
  using assms by (induction xs) auto

lemma set_update_subset': "set (AList.update k v xs) \<subseteq> insert (k, v) (set xs)"
  by (induction xs) auto

lemma length_update_le: "length (AList.update k v xs) \<le> length xs + 1"
  by (induction xs) auto

section \<open>The invariant\<close>

text \<open>
  The figures of a closed position add up: the result is what the sale brought less what was
  spent and two priority fees, and the pessimistic one the same or with nothing brought.
\<close>

definition figures_ok :: "int \<Rightarrow> LedgerRow \<Rightarrow> bool" where
  "figures_ok fee r \<longleftrightarrow> (lr_row r = ''close'' \<longrightarrow>
     (\<exists>spend proceeds brought. 0 < spend \<and> brought \<le> proceeds \<and> (brought = proceeds \<or> brought = 0) \<and>
        map_of (lr_fields r) ''spend_lamports'' = Some (FInt spend) \<and>
        map_of (lr_fields r) ''proceeds_lamports'' = Some (FInt proceeds) \<and>
        map_of (lr_fields r) ''priority_fees_lamports'' = Some (FInt (2 * fee)) \<and>
        map_of (lr_fields r) ''pnl_lamports'' = Some (FInt (proceeds - spend - 2 * fee)) \<and>
        map_of (lr_fields r) ''pnl_pessimistic_lamports'' = Some (FInt (brought - spend - 2 * fee))))"

abbreviation book_fee :: "'a MintBook_scheme \<Rightarrow> int" where
  "book_fee b \<equiv> fr_priority_fee_lamports (mb_friction b)"

definition position_ok :: "string \<times> PaperPosition \<Rightarrow> bool" where
  "position_ok e \<longleftrightarrow> fst e = px_position_id (snd e) \<and> 0 < px_spend_lamports (snd e) \<and>
     0 < px_tokens_raw (snd e) \<and> px_take_bps (snd e) \<le> 10000"

definition book_ok :: "'a MintBook_scheme \<Rightarrow> bool" where
  "book_ok b \<longleftrightarrow> distinct (map fst (mb_pending b)) \<and> distinct (map fst (mb_positions b)) \<and>
     (\<forall>e \<in> set (mb_pending b). 0 < pe_size_lamports (snd e)) \<and> (\<forall>e \<in> set (mb_positions b). position_ok e) \<and>
     deployed_lamports b \<le> mb_bankroll_lamports b \<and>
     length (mb_positions b) + length (mb_pending b) \<le> mb_max_positions b \<and>
     (\<forall>r \<in> set (mb_ledger b). figures_ok (book_fee b) r)"

lemma book_ok_other [simp]:
  "book_ok (counting f b) = book_ok b" "book_ok (b\<lparr>mb_breaker := br\<rparr>) = book_ok b"
  "book_ok (b\<lparr>mb_last_decided := l\<rparr>) = book_ok b" "book_ok (b\<lparr>mb_seen := se\<rparr>) = book_ok b"
  by (simp_all add: book_ok_def deployed_lamports_def counting_def)

lemma counting_simps [simp]:
  "mb_pending (counting f b) = mb_pending b" "mb_positions (counting f b) = mb_positions b"
  "mb_ledger (counting f b) = mb_ledger b" "mb_book (counting f b) = mb_book b"
  "mb_friction (counting f b) = mb_friction b" "mb_breaker (counting f b) = mb_breaker b"
  by (simp_all add: counting_def)

lemma book_ok_row: "book_ok b \<Longrightarrow> figures_ok (book_fee b) r \<Longrightarrow> book_ok (b\<lparr>mb_ledger := mb_ledger b @ [r]\<rparr>)"
  by (auto simp: book_ok_def deployed_lamports_def)

lemma put_position_simps [simp]:
  "mb_pending (put_position p b) = mb_pending b" "mb_ledger (put_position p b) = mb_ledger b"
  "mb_bankroll_lamports (put_position p b) = mb_bankroll_lamports b" "mb_max_positions (put_position p b) = mb_max_positions b"
  "mb_friction (put_position p b) = mb_friction b" "mb_book (put_position p b) = mb_book b"
  "mb_deterioration_exit (put_position p b) = mb_deterioration_exit b"
  "mb_positions (put_position p b) = AList.update (px_position_id p) p (mb_positions b)"
  by (simp_all add: put_position_def)

lemma book_ok_put:
  assumes ok: "book_ok b" and old: "(px_position_id p, q) \<in> set (mb_positions b)"
    and same: "px_spend_lamports p = px_spend_lamports q" "px_tokens_raw p = px_tokens_raw q" "px_take_bps p = px_take_bps q"
  shows "book_ok (put_position p b)"
proof -
  have d: "distinct (map fst (mb_positions b))" using ok by (simp add: book_ok_def)
  from key_split [OF d old] obtain ys zs where s: "mb_positions b = ys @ (px_position_id p, q) # zs"
      "AList.update (px_position_id p) p (mb_positions b) = ys @ (px_position_id p, p) # zs"
    by metis
  have "position_ok (px_position_id p, q)" using ok s(1) by (auto simp: book_ok_def)
  then have "position_ok (px_position_id p, p)" using same by (simp add: position_ok_def)
  moreover have "mb_positions (put_position p b) = ys @ (px_position_id p, p) # zs" using s(2) by simp
  ultimately show ?thesis
    using ok same unfolding book_ok_def deployed_lamports_def s(1) by (auto simp del: put_position_simps(8))
qed

lemma book_ok_remove:
  assumes ok: "book_ok b" and old: "(k, q) \<in> set (mb_positions b)"
  shows "book_ok (b\<lparr>mb_positions := AList.delete k (mb_positions b)\<rparr>)"
proof -
  have d: "distinct (map fst (mb_positions b))" using ok by (simp add: book_ok_def)
  from key_split [OF d old] obtain ys zs where s: "mb_positions b = ys @ (k, q) # zs"
      "AList.delete k (mb_positions b) = ys @ zs"
    by metis
  let ?b = "b\<lparr>mb_positions := AList.delete k (mb_positions b)\<rparr>"
  have "mb_positions ?b = ys @ zs" using s(2) by simp
  moreover have "position_ok (k, q)" using ok s(1) by (auto simp: book_ok_def)
  then have "0 < px_spend_lamports q" by (simp add: position_ok_def)
  ultimately show ?thesis
    using ok unfolding book_ok_def deployed_lamports_def s(1) by (auto simp del: distinct_map)
qed

lemma book_ok_expire:
  assumes ok: "book_ok b" and old: "(k, e) \<in> set (mb_pending b)"
  shows "book_ok (b\<lparr>mb_pending := AList.delete k (mb_pending b)\<rparr>)"
    and "deployed_lamports (b\<lparr>mb_pending := AList.delete k (mb_pending b)\<rparr>) + pe_size_lamports e = deployed_lamports b"
    and "length (AList.delete k (mb_pending b)) + 1 = length (mb_pending b)"
proof -
  have d: "distinct (map fst (mb_pending b))" using ok by (simp add: book_ok_def)
  from key_split [OF d old] obtain ys zs where s: "mb_pending b = ys @ (k, e) # zs"
      "AList.delete k (mb_pending b) = ys @ zs"
    by metis
  let ?b = "b\<lparr>mb_pending := AList.delete k (mb_pending b)\<rparr>"
  have P: "mb_pending ?b = ys @ zs" using s(2) by simp
  then show "book_ok ?b"
    using ok unfolding book_ok_def deployed_lamports_def s(1) by auto
  show "deployed_lamports ?b + pe_size_lamports e = deployed_lamports b"
    unfolding deployed_lamports_def P unfolding s(1) by simp
  show "length (AList.delete k (mb_pending b)) + 1 = length (mb_pending b)"
    unfolding s(2) unfolding s(1) by simp
qed

section \<open>Closing a position\<close>

definition limits_of :: "'a MintBook_scheme \<Rightarrow> int \<times> nat \<times> Friction" where
  "limits_of b = (mb_bankroll_lamports b, mb_max_positions b, mb_friction b)"

lemma limits_of_simps [simp]:
  "limits_of (counting f b) = limits_of b" "limits_of (put_position p b) = limits_of b"
  "limits_of (b\<lparr>mb_breaker := br\<rparr>) = limits_of b" "limits_of (b\<lparr>mb_pending := ps\<rparr>) = limits_of b"
  "limits_of (b\<lparr>mb_last_decided := l\<rparr>) = limits_of b" "limits_of (b\<lparr>mb_seen := se\<rparr>) = limits_of b"
  "limits_of (b\<lparr>mb_ledger := rows\<rparr>) = limits_of b" "limits_of (b\<lparr>mb_positions := qs\<rparr>) = limits_of b"
  by (simp_all add: limits_of_def counting_def put_position_def)

text \<open>The row of a close: its position, its two times and prices, and figures that add up.\<close>

definition close_of :: "int \<Rightarrow> PaperPosition \<Rightarrow> pyfloat \<Rightarrow> pyfloat \<Rightarrow> LedgerRow \<Rightarrow> bool" where
  "close_of fee p now price r \<longleftrightarrow> lr_row r = ''close'' \<and> figures_ok fee r \<and>
     map_of (lr_fields r) ''position_id'' = Some (FText (px_position_id p)) \<and>
     map_of (lr_fields r) ''opened_at_unix'' = Some (FFloat (px_entry_unix p)) \<and>
     map_of (lr_fields r) ''closed_at_unix'' = Some (FFloat now) \<and>
     map_of (lr_fields r) ''entry_price'' = Some (FFloat (px_entry_price p)) \<and>
     map_of (lr_fields r) ''exit_price'' = Some (FFloat price)"

definition closed_with :: "PaperPosition \<Rightarrow> pyfloat \<Rightarrow> pyfloat \<Rightarrow> 'a MintBook_scheme \<Rightarrow> 'a MintBook_scheme \<Rightarrow> bool" where
  "closed_with p now price b b' \<longleftrightarrow> mb_positions b' = AList.delete (px_position_id p) (mb_positions b) \<and>
     mb_pending b' = mb_pending b \<and> limits_of b' = limits_of b \<and>
     (\<exists>r. close_of (book_fee b) p now price r \<and> mb_ledger b' = mb_ledger b @ [r])"

lemma close_row_value:
  assumes "0 < spend" "censored \<longrightarrow> why \<noteq> None" "src \<in> set MARK_SOURCES"
    and "map fst extra = [''source'', ''take_bps'', ''take_profit'', ''stop_loss'', ''tokens_raw'', ''active_frac'',
      ''drawdown_from_peak'', ''armed_at'']"
  shows "\<exists>r. close_row book pid did key lbl t0 t1 te ts spend proceeds prio pnl pess reason censored why src n e x pk extra = Inr r \<and>
    lr_row r = ''close'' \<and> lr_t_ingest_unix r = t1 \<and> \<not> list_ex (\<lambda>k. k \<in> set ENVELOPE) (map fst (lr_fields r)) \<and>
    map_of (lr_fields r) ''position_id'' = Some (FText pid) \<and>
    map_of (lr_fields r) ''spend_lamports'' = Some (FInt spend) \<and>
    map_of (lr_fields r) ''pnl_lamports'' = Some (FInt pnl) \<and>
    map_of (lr_fields r) ''pnl_pessimistic_lamports'' = Some (FInt pess) \<and>
    map_of (lr_fields r) ''proceeds_lamports'' = Some (FInt proceeds) \<and>
    map_of (lr_fields r) ''priority_fees_lamports'' = Some (FInt prio) \<and>
    map_of (lr_fields r) ''entry_price'' = Some (FFloat e) \<and> map_of (lr_fields r) ''exit_price'' = Some (FFloat x) \<and>
    map_of (lr_fields r) ''opened_at_unix'' = Some (FFloat t0) \<and>
    map_of (lr_fields r) ''closed_at_unix'' = Some (FFloat t1)"
  using assms by (simp add: close_row_def Let_def ENVELOPE_def)

lemma emit_close_closes:
  assumes "0 < px_spend_lamports p" "pess \<le> proceeds \<and> (pess = proceeds \<or> pess = 0)" "censored \<longrightarrow> why \<noteq> None" "src \<in> set MARK_SOURCES"
  shows "\<exists>b'. emit_close p now te ts proceeds price reason censored why src pess b = Inr b' \<and> closed_with p now price b b'"
proof -
  let ?prio = "2 * fr_priority_fee_lamports (mb_friction b)"
  let ?extra = "[(''source'', FText (px_source p)), (''take_bps'', FInt (px_take_bps p)), (''take_profit'', FFloat (px_take_profit p)),
            (''stop_loss'', FFloat (px_stop_loss p)), (''tokens_raw'', FInt (px_tokens_raw p)),
            (''active_frac'', FFloat (active_frac p)), (''drawdown_from_peak'', FFloat (drawdown_from_peak p)),
            (''armed_at'', case px_armed p of None \<Rightarrow> FNone | Some (_, t, _) \<Rightarrow> if t = 0 then FNone else FTime t)]"
  obtain r where r: "close_row (mb_book b) (px_position_id p) (px_decision_id p) (px_mint p) (px_source p) (px_entry_unix p) now
           te ts (px_spend_lamports p) proceeds ?prio (proceeds - px_spend_lamports p - ?prio) (pess - px_spend_lamports p - ?prio)
           reason censored why src (px_observations p) (px_entry_price p) price (px_peak_price p) ?extra = Inr r"
    and row: "lr_row r = ''close''" "\<not> list_ex (\<lambda>k. k \<in> set ENVELOPE) (map fst (lr_fields r))"
    and fs: "map_of (lr_fields r) ''position_id'' = Some (FText (px_position_id p))"
      "map_of (lr_fields r) ''spend_lamports'' = Some (FInt (px_spend_lamports p))"
      "map_of (lr_fields r) ''pnl_lamports'' = Some (FInt (proceeds - px_spend_lamports p - ?prio))"
      "map_of (lr_fields r) ''pnl_pessimistic_lamports'' = Some (FInt (pess - px_spend_lamports p - ?prio))"
      "map_of (lr_fields r) ''proceeds_lamports'' = Some (FInt proceeds)"
      "map_of (lr_fields r) ''priority_fees_lamports'' = Some (FInt ?prio)"
      "map_of (lr_fields r) ''entry_price'' = Some (FFloat (px_entry_price p))"
      "map_of (lr_fields r) ''exit_price'' = Some (FFloat price)"
      "map_of (lr_fields r) ''opened_at_unix'' = Some (FFloat (px_entry_unix p))"
      "map_of (lr_fields r) ''closed_at_unix'' = Some (FFloat now)"
    using close_row_value [OF assms(1,3,4), of ?extra, where book = "mb_book b" and pid = "px_position_id p" and did = "px_decision_id p" and
      key = "px_mint p" and lbl = "px_source p" and ?t0.0 = "px_entry_unix p" and ?t1.0 = now and te = te and ts = ts and proceeds = proceeds and
      prio = ?prio and pnl = "proceeds - px_spend_lamports p - ?prio" and pess = "pess - px_spend_lamports p - ?prio" and
      reason = reason and n = "px_observations p" and e = "px_entry_price p" and x = price and pk = "px_peak_price p"]
    by (simp del: list_ex_iff) blast
  have "figures_ok (book_fee b) r" unfolding figures_ok_def fs using assms(1,2)
    by (intro impI exI [of _ "px_spend_lamports p"] exI [of _ proceeds] exI [of _ pess]) simp
  then have "close_of (book_fee b) p now price r" by (simp add: close_of_def row fs)
  moreover have "ledger_write r rows = Inr (rows @ [r])" for rows
    using row(2) by (simp add: ledger_write_def row(1) ROW_KINDS_def)
  ultimately show ?thesis
    by (simp add: emit_close_def Let_def r write_row_def closed_with_def)
qed

lemma closed_with_ok:
  assumes "closed_with p now price b b'" "book_ok b" "(px_position_id p, q) \<in> set (mb_positions b)"
  shows "book_ok b'"
proof -
  let ?b = "b\<lparr>mb_positions := AList.delete (px_position_id p) (mb_positions b)\<rparr>"
  have "book_ok ?b" using book_ok_remove [OF assms(2,3)] .
  then show ?thesis
    using assms(1) by (auto simp: closed_with_def close_of_def book_ok_def deployed_lamports_def limits_of_def)
qed

lemma curve_sell_nonneg:
  assumes "curve_ok c" "fee \<le> 10000"
  shows "0 \<le> curve_sell c amount fee"
proof (cases "0 < amount")
  case True
  have pos: "0 < cs_vsol c" "0 < cs_vtok c + amount" using assms(1) True by (auto simp: curve_ok_def)
  have "cs_vsol c * cs_vtok c \<le> cs_vsol c * (cs_vtok c + amount)" using pos(1) True by (intro mult_left_mono) auto
  then have "cs_vsol c * cs_vtok c div (cs_vtok c + amount) \<le> cs_vsol c * (cs_vtok c + amount) div (cs_vtok c + amount)"
    using pos(2) by (intro zdiv_mono1)
  also have "\<dots> = cs_vsol c" using pos(2) by simp
  finally have "0 \<le> cs_vsol c - cs_vsol c * cs_vtok c div (cs_vtok c + amount)" by simp
  then show ?thesis using True assms(2) by (simp add: curve_sell_def Let_def pos_imp_zdiv_nonneg_iff)
qed (simp add: curve_sell_def)

definition obs_ok :: "MintObservation \<Rightarrow> bool" where
  "obs_ok obs \<longleftrightarrow> 0 < ob_vsol_lamports obs \<and> 0 < ob_vtok_raw obs"

lemma obs_values:
  assumes "obs_ok obs"
  shows "obs_price obs = Inr (int_div (ob_vsol_lamports obs) (ob_vtok_raw obs))"
    "obs_curve obs = Inr \<lparr> cs_t = ob_t_ingest_unix obs, cs_vsol = ob_vsol_lamports obs, cs_vtok = ob_vtok_raw obs \<rparr>"
    "curve_state (ob_t_ingest_unix obs) (ob_vsol_lamports obs) (ob_vtok_raw obs) =
       Inr \<lparr> cs_t = ob_t_ingest_unix obs, cs_vsol = ob_vsol_lamports obs, cs_vtok = ob_vtok_raw obs \<rparr>"
  using assms by (auto simp: obs_ok_def obs_price_def obs_curve_def curve_state_def)

lemma close_observed_closes:
  assumes "obs_ok obs" "position_ok (px_position_id p, p)"
  shows "\<exists>b'. close_observed p obs b = Inr b' \<and> closed_with p (ob_t_ingest_unix obs) (int_div (ob_vsol_lamports obs) (ob_vtok_raw obs)) b b'"
  unfolding close_observed_def obs_values [OF assms(1)] rbind_Inr Let_def
  using assms(2) by (intro emit_close_closes) (simp_all add: position_ok_def MARK_SOURCES_def)

lemma close_marked_closes:
  assumes "position_ok (k, p)"
  shows "\<exists>b'. close_marked p now reason why loss b = Inr b' \<and>
    closed_with p now (case px_armed p of None \<Rightarrow> px_last_price p | Some (_, _, price) \<Rightarrow> price) b b'"
proof -
  let ?c = "\<lparr> cs_t = px_last_obs_unix p, cs_vsol = max 1 (px_last_vsol p), cs_vtok = max 1 (px_last_vtok p) \<rparr>"
  have c: "curve_state (px_last_obs_unix p) (max 1 (px_last_vsol p)) (max 1 (px_last_vtok p)) = Inr ?c"
    by (simp add: curve_state_def)
  have "0 \<le> curve_sell ?c (px_tokens_raw p) (px_take_bps p)"
    using assms by (intro curve_sell_nonneg) (simp_all add: position_ok_def curve_ok_def less_max_iff_disj)
  then show ?thesis
    unfolding close_marked_def c rbind_Inr Let_def
    using assms by (intro emit_close_closes) (auto simp: position_ok_def MARK_SOURCES_def)
qed

section \<open>Loops over the positions\<close>

text \<open>
  A body that works on a position of the book keeps the invariant and the limits, and
  leaves the entries of the other positions alone. A loop over the positions that were
  there when it began then meets each of them as it was.
\<close>

definition apart :: "string \<Rightarrow> 'a MintBook_scheme \<Rightarrow> (string \<times> PaperPosition) list" where
  "apart k b = filter (\<lambda>e. fst e \<noteq> k) (mb_positions b)"

definition keeps_book :: "string \<Rightarrow> 'a MintBook_scheme \<Rightarrow> 'a MintBook_scheme \<Rightarrow> bool" where
  "keeps_book k b b' \<longleftrightarrow> book_ok b' \<and> limits_of b' = limits_of b \<and> mb_pending b' = mb_pending b \<and> apart k b' = apart k b"

lemma closed_keeps:
  assumes "closed_with p now price b b'" "book_ok b" "(px_position_id p, q) \<in> set (mb_positions b)"
  shows "keeps_book (px_position_id p) b b'"
  using assms closed_with_ok [OF assms] by (simp add: keeps_book_def closed_with_def apart_def delete_filter)

locale position_loop =
  fixes ok :: "'c \<Rightarrow> bool" and body :: "'c \<Rightarrow> PaperPosition \<Rightarrow> 'a MintBook_scheme \<Rightarrow> 'a MintBook_scheme res"
  assumes body_keeps: "ok c \<Longrightarrow> book_ok b \<Longrightarrow> (px_position_id p, p) \<in> set (mb_positions b) \<Longrightarrow>
    \<exists>b'. body c p b = Inr b' \<and> keeps_book (px_position_id p) b b'"
begin

lemma loop_over:
  assumes "ok c" "book_ok b" "\<forall>p \<in> set ps. (px_position_id p, p) \<in> set (mb_positions b)"
    and "distinct (map px_position_id ps)"
  shows "\<exists>b'. rfold (body c) ps b = Inr b' \<and> book_ok b' \<and> limits_of b' = limits_of b \<and> mb_pending b' = mb_pending b"
  using assms
proof (induction ps arbitrary: b)
  case (Cons p ps)
  obtain b1 where b1: "body c p b = Inr b1" "keeps_book (px_position_id p) b b1"
    using body_keeps [OF Cons.prems(1,2), of p] Cons.prems(3) by auto
  have "(px_position_id q, q) \<in> set (mb_positions b1)" if "q \<in> set ps" for q
  proof -
    have "px_position_id q \<noteq> px_position_id p" using Cons.prems(4) that by (metis distinct.simps(2) image_eqI list.set_map list.simps(9))
    then have "(px_position_id q, q) \<in> set (apart (px_position_id p) b)"
      using Cons.prems(3) that by (simp add: apart_def)
    then have "(px_position_id q, q) \<in> set (apart (px_position_id p) b1)" using b1(2) by (simp add: keeps_book_def)
    then show ?thesis by (simp add: apart_def)
  qed
  then obtain b' where "rfold (body c) ps b1 = Inr b'" "book_ok b'" "limits_of b' = limits_of b1" "mb_pending b' = mb_pending b1"
    using Cons.IH [OF Cons.prems(1), of b1] b1(2) Cons.prems(4) by (auto simp: keeps_book_def)
  then show ?case using b1 by (simp add: keeps_book_def)
qed simp

lemma loop:
  assumes "ok c" "book_ok b"
  shows "\<exists>b'. rfold (body c) (map snd (mb_positions b)) b = Inr b' \<and> book_ok b' \<and> limits_of b' = limits_of b \<and>
    mb_pending b' = mb_pending b"
proof (rule loop_over [OF assms])
  have ids: "\<forall>e \<in> set (mb_positions b). fst e = px_position_id (snd e)"
    using assms(2) by (simp add: book_ok_def position_ok_def)
  show "\<forall>p \<in> set (map snd (mb_positions b)). (px_position_id p, p) \<in> set (mb_positions b)"
  proof
    fix p assume "p \<in> set (map snd (mb_positions b))"
    then obtain k where "(k, p) \<in> set (mb_positions b)" by auto
    then show "(px_position_id p, p) \<in> set (mb_positions b)" using bspec [OF ids] by fastforce
  qed
  have "map px_position_id (map snd (mb_positions b)) = map fst (mb_positions b)" using ids by simp
  then show "distinct (map px_position_id (map snd (mb_positions b)))" using assms(2) by (simp add: book_ok_def del: map_map)
qed

end

text \<open>The marking of an observation, the sweep and the drain are such loops.\<close>

lemma update_position_same [simp]:
  "px_position_id (update_position p obs price) = px_position_id p"
  "px_spend_lamports (update_position p obs price) = px_spend_lamports p"
  "px_tokens_raw (update_position p obs price) = px_tokens_raw p"
  "px_take_bps (update_position p obs price) = px_take_bps p"
  "px_mint (update_position p obs price) = px_mint p"
  "px_entry_unix (update_position p obs price) = px_entry_unix p"
  "px_entry_price (update_position p obs price) = px_entry_price p"
  "px_armed (update_position p obs price) = px_armed p"
  "px_last_price (update_position p obs price) = price"
  by (simp_all add: update_position_def Let_def)

lemma position_of_book: "book_ok b \<Longrightarrow> (k, p) \<in> set (mb_positions b) \<Longrightarrow> position_ok (k, p)"
  by (auto simp: book_ok_def)

lemma put_keeps:
  assumes "book_ok b" "(px_position_id p, q) \<in> set (mb_positions b)"
    and "px_spend_lamports p = px_spend_lamports q" "px_tokens_raw p = px_tokens_raw q" "px_take_bps p = px_take_bps q"
  shows "keeps_book (px_position_id p) b (put_position p b)" "(px_position_id p, p) \<in> set (mb_positions (put_position p b))"
proof -
  have d: "distinct (map fst (mb_positions b))" using assms(1) by (simp add: book_ok_def)
  from key_split [OF d assms(2)] obtain ys zs where s: "mb_positions b = ys @ (px_position_id p, q) # zs"
      "AList.update (px_position_id p) p (mb_positions b) = ys @ (px_position_id p, p) # zs"
    by metis
  have "apart (px_position_id p) (put_position p b) = apart (px_position_id p) b"
    unfolding apart_def put_position_simps s(2) unfolding s(1) by simp
  then show "keeps_book (px_position_id p) b (put_position p b)"
    using book_ok_put [OF assms] by (simp add: keeps_book_def)
  show "(px_position_id p, p) \<in> set (mb_positions (put_position p b))"
    unfolding put_position_simps s(2) by simp
qed

lemma keeps_book_trans: "keeps_book k b b' \<Longrightarrow> keeps_book k b' b'' \<Longrightarrow> keeps_book k b b''"
  by (simp add: keeps_book_def)

lemma emit_Inr:
  assumes "emit kind obs fs b = Inr b'"
  obtains r where "b' = b\<lparr>mb_ledger := mb_ledger b @ [r]\<rparr>" "lr_row r = kind"
  using assms by (auto simp: emit_def write_row_def ledger_write_def split: if_splits)

lemma emit_row:
  assumes "kind \<in> set ROW_KINDS" "kind \<noteq> ''close''" "\<not> list_ex (\<lambda>k. k \<in> set ENVELOPE) (map fst fs)"
  shows "\<exists>r. emit kind obs fs b = Inr (b\<lparr>mb_ledger := mb_ledger b @ [r]\<rparr>) \<and> lr_row r = kind \<and> lr_fields r = fs \<and> figures_ok fee r"
proof -
  let ?r = "\<lparr> lr_row = kind, lr_book = mb_book b, lr_t_ingest_unix = ob_t_ingest_unix obs,
     lr_t_event_unix = ob_t_event_unix obs, lr_t_event_source = ob_t_event_source obs, lr_fields = fs \<rparr>"
  have "emit kind obs fs b = Inr (b\<lparr>mb_ledger := mb_ledger b @ [?r]\<rparr>)"
    using assms by (simp add: emit_def write_row_def ledger_write_def)
  then show ?thesis using assms(2) by (intro exI [of _ ?r]) (simp add: figures_ok_def)
qed

lemma keeps_book_row: "book_ok b \<Longrightarrow> figures_ok (book_fee b) r \<Longrightarrow> keeps_book k b (b\<lparr>mb_ledger := mb_ledger b @ [r]\<rparr>)"
  by (simp add: keeps_book_def book_ok_row apart_def)

lemma mark_position_keeps:
  assumes obs: "obs_ok obs" and ok: "book_ok b" and p: "(px_position_id p, p) \<in> set (mb_positions b)"
  shows "\<exists>b'. mark_position obs p b = Inr b' \<and> keeps_book (px_position_id p) b b'"
proof (cases "px_mint p \<noteq> ob_mint obs \<or> px_label p \<noteq> ob_pool_label obs")
  case True
  then show ?thesis using ok by (simp add: mark_position_def keeps_book_def)
next
  case here: False
  note pos = position_of_book [OF ok p]
  show ?thesis
  proof (cases "px_armed p")
    case (Some a)
    then show ?thesis
      using here close_observed_closes [OF obs pos, of b] closed_keeps [OF _ ok p] by (auto simp: mark_position_def)
  next
    case None
    define price where "price = int_div (ob_vsol_lamports obs) (ob_vtok_raw obs)"
    define q where "q = update_position p obs price"
    let ?b = "put_position q b"
    have id: "px_position_id q = px_position_id p" by (simp add: q_def)
    have put: "keeps_book (px_position_id p) b ?b" "(px_position_id p, q) \<in> set (mb_positions ?b)"
      using put_keeps [OF ok, of q p] p by (simp_all add: q_def)
    have okq: "book_ok ?b" using put(1) by (simp add: keeps_book_def)
    have posq: "position_ok (px_position_id p, q)" using pos by (simp add: position_ok_def q_def)
    have close: "\<exists>b'. close_marked q now reason why loss ?b = Inr b' \<and> keeps_book (px_position_id p) b b'" for now reason why loss
    proof -
      obtain b' where b': "close_marked q now reason why loss ?b = Inr b'"
          "closed_with q now (case px_armed q of None \<Rightarrow> px_last_price q | Some (_, _, price) \<Rightarrow> price) ?b b'"
        using close_marked_closes [OF posq] by blast
      have "keeps_book (px_position_id p) ?b b'" using closed_keeps [OF b'(2) okq, of q] put(2) by (simp add: id)
      then show ?thesis using b'(1) keeps_book_trans [OF put(1)] by blast
    qed
    have arm: "\<exists>b'. emit ''mark'' obs [(''position_id'', i), (''key'', k), (''armed'', FText reason), (''ratio'', x),
          (''drawdown_from_peak'', y), (''active_frac'', z), (''observations'', n)]
          (put_position (q\<lparr>px_armed := a\<rparr>) ?b) = Inr b' \<and> keeps_book (px_position_id p) b b'" for i k reason x y z n a
    proof -
      let ?q = "q\<lparr>px_armed := a\<rparr>" and ?fs = "[(''position_id'', i), (''key'', k), (''armed'', FText reason), (''ratio'', x),
          (''drawdown_from_peak'', y), (''active_frac'', z), (''observations'', n)]"
      have again: "keeps_book (px_position_id p) ?b (put_position ?q ?b)"
        using put_keeps(1) [OF okq, of ?q q] put(2) by (simp add: id)
      obtain r where r: "emit ''mark'' obs ?fs (put_position ?q ?b) =
          Inr ((put_position ?q ?b)\<lparr>mb_ledger := mb_ledger (put_position ?q ?b) @ [r]\<rparr>)" "figures_ok (book_fee b) r"
        using emit_row [of "''mark''" ?fs obs "put_position ?q ?b"] by (auto simp: ROW_KINDS_def ENVELOPE_def)
      have "keeps_book (px_position_id p) (put_position ?q ?b)
          ((put_position ?q ?b)\<lparr>mb_ledger := mb_ledger (put_position ?q ?b) @ [r]\<rparr>)"
        using again r(2) by (intro keeps_book_row) (simp_all add: keeps_book_def)
      from keeps_book_trans [OF put(1) keeps_book_trans [OF again this]] show ?thesis using r(1) by blast
    qed
    show ?thesis
      using here None close arm put(1)
      by (simp add: mark_position_def obs_values [OF obs] Let_def price_def [symmetric] q_def [symmetric] split: option.split)
  qed
qed

interpretation marking: position_loop obs_ok mark_position
  by unfold_locales (rule mark_position_keeps)

lemma sweep_position_keeps:
  assumes "book_ok b" "(px_position_id p, p) \<in> set (mb_positions b)"
  shows "\<exists>b'. sweep_position now stale p b = Inr b' \<and> keeps_book (px_position_id p) b b'"
proof (cases "fsub now (px_last_obs_unix p) < mb_departure_timeout_s b")
  case True
  then show ?thesis using assms(1) by (simp add: sweep_position_def keeps_book_def)
next
  case False
  then have "\<exists>reason why. sweep_position now stale p b = close_marked p now reason why False b"
    unfolding sweep_position_def by (simp only: if_False) blast
  then obtain reason why where e: "sweep_position now stale p b = close_marked p now reason why False b" by blast
  show ?thesis
    using close_marked_closes [OF position_of_book [OF assms], of now reason why False b] closed_keeps [OF _ assms]
    unfolding e by blast
qed

interpretation sweeping: position_loop "\<lambda>_. True" "\<lambda>(now, stale). sweep_position now stale"
  by unfold_locales (auto intro: sweep_position_keeps)

lemma drain_position_keeps:
  assumes "book_ok b" "(px_position_id p, p) \<in> set (mb_positions b)"
  shows "\<exists>b'. close_marked p now ''drain'' OPERATOR False b = Inr b' \<and> keeps_book (px_position_id p) b b'"
  using close_marked_closes [OF position_of_book [OF assms], of now "''drain''" OPERATOR False b] closed_keeps [OF _ assms] by blast

interpretation draining: position_loop "\<lambda>_. True" "\<lambda>now p. close_marked p now ''drain'' OPERATOR False"
  by unfold_locales (rule drain_position_keeps)

section \<open>The operations\<close>

lemma note_seen_ok: "book_ok b \<Longrightarrow> book_ok (note_seen obs b)" "limits_of (note_seen obs b) = limits_of b"
  "mb_pending (note_seen obs b) = mb_pending b" "mb_positions (note_seen obs b) = mb_positions b"
  "mb_ledger (note_seen obs b) = mb_ledger b" "mb_book (note_seen obs b) = mb_book b"
  by (simp_all add: note_seen_def Let_def split_beta)

lemma take_bps_bounds: "take_bps_for label \<le> 10000"
proof (cases label)
  case (Some l)
  have "bps \<le> 10000" if "map_of EFFECTIVE_TAKE_BPS l = Some bps" for bps
    using map_of_SomeD [OF that] by (auto simp: EFFECTIVE_TAKE_BPS_def)
  then show ?thesis using Some by (auto simp: take_bps_for_def BONDING_CURVE_TAKE_BPS_def split: option.split)
qed (simp add: take_bps_for_def BONDING_CURVE_TAKE_BPS_def)

lemma book_ok_fill:
  assumes ok: "book_ok b" and pe: "(mint, pe) \<in> set (mb_pending b)" and pos: "position_ok (px_position_id p, p)"
    and spend: "px_spend_lamports p = pe_size_lamports pe"
  shows "book_ok (put_position p (b\<lparr>mb_pending := AList.delete mint (mb_pending b)\<rparr>))"
proof -
  let ?b = "b\<lparr>mb_pending := AList.delete mint (mb_pending b)\<rparr>"
  note x = book_ok_expire [OF ok pe]
  have nonneg: "\<forall>e \<in> set (mb_positions ?b). 0 \<le> px_spend_lamports (snd e)"
    using ok by (auto simp: book_ok_def position_ok_def)
  have "deployed_lamports (put_position p ?b) \<le> deployed_lamports ?b + px_spend_lamports p"
    using sum_update_le [OF nonneg, of "px_position_id p" p] by (simp add: deployed_lamports_def)
  then have "deployed_lamports (put_position p ?b) \<le> mb_bankroll_lamports b"
    using x(2) spend ok by (simp add: book_ok_def)
  moreover have "length (mb_positions (put_position p ?b)) + length (mb_pending (put_position p ?b)) \<le> mb_max_positions b"
    using length_update_le [of "px_position_id p" p "mb_positions b"] x(3) ok by (simp add: book_ok_def)
  moreover have "\<forall>e \<in> set (AList.update (px_position_id p) p (mb_positions b)). position_ok e"
    using set_update_subset' [of "px_position_id p" p "mb_positions b"] pos ok by (auto simp: book_ok_def)
  ultimately show ?thesis
    using x(1) by (simp add: book_ok_def distinct_update)
qed

lemma fill_pending_keeps:
  assumes obs: "obs_ok obs" and ok: "book_ok b"
  shows "\<exists>b'. fill_pending obs b = Inr b' \<and> book_ok b' \<and> limits_of b' = limits_of b \<and> set (mb_pending b') \<subseteq> set (mb_pending b)"
proof (cases "map_of (mb_pending b) (ob_mint obs)")
  case None
  then show ?thesis using ok by (simp add: fill_pending_def)
next
  case (Some pe)
  show ?thesis
  proof (cases "pe_pool_label pe = ob_pool_label obs")
    case False
    then show ?thesis using ok Some by (simp add: fill_pending_def)
  next
    case True
    let ?b = "b\<lparr>mb_pending := AList.delete (ob_mint obs) (mb_pending b)\<rparr>"
    let ?take = "take_bps_for (ob_pool_label obs)"
    define c where "c = \<lparr> cs_t = ob_t_ingest_unix obs, cs_vsol = ob_vsol_lamports obs, cs_vtok = ob_vtok_raw obs \<rparr>"
    define amount where "amount = curve_buy c (pe_size_lamports pe) ?take"
    have pe: "(ob_mint obs, pe) \<in> set (mb_pending b)" using Some by (rule map_of_SomeD)
    show ?thesis
    proof (cases "amount \<le> 0")
      case small: True
      let ?fs = "[(''key'', FText (ob_mint obs)), (''decision_id'', FText (pe_decision_id pe)),
                      (''detail'', FText ''entry_would_receive_zero_tokens'')]"
      have "fill_pending obs b = emit ''defect'' obs ?fs ?b"
        using Some True small by (simp add: fill_pending_def obs_values [OF obs] c_def [symmetric] amount_def [symmetric] Let_def)
      moreover obtain r where "emit ''defect'' obs ?fs ?b = Inr (?b\<lparr>mb_ledger := mb_ledger ?b @ [r]\<rparr>)" "figures_ok (book_fee b) r"
        using emit_row [of "''defect''" ?fs obs ?b] by (auto simp: ROW_KINDS_def ENVELOPE_def)
      ultimately show ?thesis using book_ok_row [OF book_ok_expire(1) [OF ok pe]] by (auto simp: delete_filter)
    next
      case False
      define price where "price = int_div (ob_vsol_lamports obs) (ob_vtok_raw obs)"
      define p where "p = filled_position (mb_book b) pe obs ?take amount price"
      let ?b2 = "counting (\<lambda>c. c\<lparr>bc_fills := bc_fills c + 1\<rparr>) (put_position p ?b)"
      have "0 < pe_size_lamports pe" using ok pe by (auto simp: book_ok_def)
      then have pos: "position_ok (px_position_id p, p)" "px_spend_lamports p = pe_size_lamports pe"
        using False take_bps_bounds by (simp_all add: p_def filled_position_def position_ok_def)
      have ok2: "book_ok ?b2" using book_ok_fill [OF ok pe pos] by simp
      let ?fs = "[(''position_id'', FText (px_position_id p)), (''decision_id'', FText (px_decision_id p)),
                       (''key'', FText (ob_mint obs)), (''source'', FText (ob_source obs)),
                       (''spend_lamports'', FInt (px_spend_lamports p)), (''tokens_raw'', FInt amount),
                       (''entry_price'', FFloat price), (''take_bps'', FInt ?take),
                       (''take_profit'', FFloat (px_take_profit p)), (''stop_loss'', FFloat (px_stop_loss p)),
                       (''deadline'', FTime (px_deadline_unix p)),
                       (''fill_lag_s'', FFloat (fsub (ob_t_ingest_unix obs) (pe_decided_unix pe)))]"
      have "fill_pending obs b = emit ''fill'' obs ?fs ?b2"
        using Some True False
        by (simp add: fill_pending_def obs_values [OF obs] c_def [symmetric] amount_def [symmetric] price_def [symmetric]
            p_def [symmetric] Let_def)
      moreover obtain r where "emit ''fill'' obs ?fs ?b2 = Inr (?b2\<lparr>mb_ledger := mb_ledger ?b2 @ [r]\<rparr>)" "figures_ok (book_fee b) r"
        using emit_row [of "''fill''" ?fs obs ?b2] by (auto simp: ROW_KINDS_def ENVELOPE_def)
      ultimately show ?thesis using book_ok_row [OF ok2] by (auto simp: delete_filter)
    qed
  qed
qed

lemma observe_keeps:
  assumes "obs_ok obs" "book_ok b"
  shows "\<exists>b'. observe obs b = Inr b' \<and> book_ok b' \<and> limits_of b' = limits_of b \<and> set (mb_pending b') \<subseteq> set (mb_pending b)"
proof -
  obtain b1 where "fill_pending obs (note_seen obs b) = Inr b1" "book_ok b1" "limits_of b1 = limits_of b"
      "set (mb_pending b1) \<subseteq> set (mb_pending b)"
    using fill_pending_keeps [OF assms(1) note_seen_ok(1) [OF assms(2)]] note_seen_ok(2,3) by metis
  moreover obtain b2 where "mark obs b1 = Inr b2" "book_ok b2" "limits_of b2 = limits_of b1" "mb_pending b2 = mb_pending b1"
    using marking.loop [OF assms(1) \<open>book_ok b1\<close>] unfolding mark_def by blast
  ultimately show ?thesis by (simp add: observe_def)
qed

lemma sweep_pendings_keep:
  assumes "book_ok b" "set es \<subseteq> set (mb_pending b)" "distinct (map fst es)"
  shows "\<exists>b'. rfold (sweep_pending now) es b = Inr b' \<and> book_ok b' \<and> limits_of b' = limits_of b \<and> set (mb_pending b') \<subseteq> set (mb_pending b)"
  using assms
proof (induction es arbitrary: b)
  case (Cons e es)
  let ?b = "b\<lparr>mb_pending := AList.delete (fst e) (mb_pending b)\<rparr>"
  have e: "(fst e, snd e) \<in> set (mb_pending b)" using Cons.prems(2) by simp
  show ?case
  proof (cases "mb_departure_timeout_s b \<le> fsub now (pe_decided_unix (snd e))")
    case True
    obtain r where r: "sweep_pending now e b = Inr (?b\<lparr>mb_ledger := mb_ledger ?b @ [r]\<rparr>)" "figures_ok (book_fee b) r"
      using True by (simp add: sweep_pending_def write_row_def ledger_write_def ROW_KINDS_def ENVELOPE_def figures_ok_def)
    have rest: "set es \<subseteq> set (AList.delete (fst e) (mb_pending b))"
      using Cons.prems(2,3) by (auto simp: delete_filter rev_image_eqI)
    have "book_ok (?b\<lparr>mb_ledger := mb_ledger ?b @ [r]\<rparr>)"
      using book_ok_row [OF book_ok_expire(1) [OF Cons.prems(1) e], of r] r(2) by simp
    from Cons.IH [OF this] rest Cons.prems(3) r(1) show ?thesis by (auto simp: delete_filter)
  next
    case False
    then have "sweep_pending now e b = Inr b" by (simp add: sweep_pending_def)
    then show ?thesis using Cons.IH [OF Cons.prems(1)] Cons.prems(2,3) by auto
  qed
qed simp

lemma sweep_keeps:
  assumes "book_ok b"
  shows "\<exists>b'. sweep now stale b = Inr b' \<and> book_ok b' \<and> limits_of b' = limits_of b \<and> set (mb_pending b') \<subseteq> set (mb_pending b)"
proof -
  obtain b1 where b1: "rfold (sweep_position now stale) (map snd (mb_positions b)) b = Inr b1" "book_ok b1" "limits_of b1 = limits_of b"
      "mb_pending b1 = mb_pending b"
    using sweeping.loop [OF TrueI assms, of "(now, stale)"] by auto
  moreover have "distinct (map fst (mb_pending b1))" using b1(2) by (simp add: book_ok_def)
  ultimately show ?thesis using sweep_pendings_keep [OF b1(2) subset_refl] by (simp add: sweep_def)
qed

lemma drain_keeps: "book_ok b \<Longrightarrow> \<exists>b'. drain now b = Inr b' \<and> book_ok b' \<and> limits_of b' = limits_of b \<and> mb_pending b' = mb_pending b"
  unfolding drain_def by (rule draining.loop [OF TrueI])

section \<open>Deciding\<close>

text \<open>
  What a class of books owes: its entry hook takes the size of the decision into the entry
  and touches nothing of the book but its counters and its ledger.
\<close>

definition entry_kept :: "DeskDecision \<Rightarrow> 'a MintBook_scheme \<Rightarrow> PendingEntry option \<Rightarrow> 'a MintBook_scheme \<Rightarrow> bool" where
  "entry_kept d b entry b' \<longleftrightarrow> mb_pending b' = mb_pending b \<and> mb_positions b' = mb_positions b \<and>
     limits_of b' = limits_of b \<and> (book_ok b \<longrightarrow> book_ok b') \<and> (\<forall>e. entry = Some e \<longrightarrow> pe_size_lamports e = dd_size_lamports d)"

lemma book_ok_enter:
  assumes ok: "book_ok b" and new: "mint \<notin> set (map fst (mb_pending b))" and size: "0 < pe_size_lamports e"
    and free: "pe_size_lamports e \<le> free_lamports b" and room: "length (mb_positions b) + length (mb_pending b) < mb_max_positions b"
  shows "book_ok (b\<lparr>mb_pending := AList.update mint e (mb_pending b)\<rparr>)"
proof -
  have p: "AList.update mint e (mb_pending b) = mb_pending b @ [(mint, e)]" using new by (rule update_new)
  have "deployed_lamports b + pe_size_lamports e \<le> mb_bankroll_lamports b" using free size by (simp add: free_lamports_def)
  then have "deployed_lamports (b\<lparr>mb_pending := mb_pending b @ [(mint, e)]\<rparr>) \<le> mb_bankroll_lamports b"
    by (simp add: deployed_lamports_def)
  then show ?thesis using ok new size room unfolding p by (simp add: book_ok_def)
qed

lemma blocked_by_None:
  assumes "blocked_by d now b = None" "dd_acted d"
  shows "0 < dd_size_lamports d" "dd_size_lamports d \<le> free_lamports b"
    "length (mb_positions b) + length (mb_pending b) < mb_max_positions b" "\<not> paused now (mb_breaker b)"
  using assms by (auto simp: blocked_by_def split: if_splits)

lemma log_decision_keeps:
  assumes "log_decision obs d why b = Inr b'"
  shows "mb_pending b' = mb_pending b" "mb_positions b' = mb_positions b" "limits_of b' = limits_of b"
    "book_ok b \<Longrightarrow> book_ok b'"
proof -
  obtain r where "b' = b\<lparr>mb_ledger := mb_ledger b @ [r]\<rparr>" "lr_row r = ''decision''"
    using assms unfolding log_decision_def rbind_eq_Inr by (blast elim: emit_Inr)
  then show "mb_pending b' = mb_pending b" "mb_positions b' = mb_positions b" "limits_of b' = limits_of b"
    "book_ok b \<Longrightarrow> book_ok b'"
    using book_ok_row [of b r] by (simp_all add: figures_ok_def)
qed

lemma same_deployed:
  "mb_pending b' = mb_pending b \<Longrightarrow> mb_positions b' = mb_positions b \<Longrightarrow> limits_of b' = limits_of b \<Longrightarrow>
   free_lamports b' = free_lamports b"
  by (simp add: free_lamports_def deployed_lamports_def limits_of_def)

locale desk_book =
  fixes size_hook :: "MintObservation \<Rightarrow> 'a MintBook_scheme \<Rightarrow> int"
    and entry_hook :: "MintObservation \<Rightarrow> DeskDecision \<Rightarrow> 'a MintBook_scheme \<Rightarrow> (PendingEntry option \<times> 'a MintBook_scheme) res"
  assumes entry_keeps: "entry_hook obs d b = Inr (entry, b') \<Longrightarrow> entry_kept d b entry b'"
begin

lemma take_decision_keeps:
  assumes ok: "book_ok b" and new: "ob_mint obs \<notin> set (map fst (mb_pending b))"
    and r: "take_decision entry_hook obs d b = Inr b'"
  shows "book_ok b' \<and> limits_of b' = limits_of b"
proof -
  let ?why = "blocked_by d (ob_t_ingest_unix obs) b"
  obtain b1 where l: "log_decision obs d ?why (counting (count_decision d ?why) b) = Inr b1"
    using r by (auto simp: take_decision_def Let_def rbind_eq_Inr)
  note k = log_decision_keeps [OF l]
  have ok1: "book_ok b1" using k(4) ok by simp
  show ?thesis
  proof (cases "dd_acted d \<and> ?why = None")
    case False
    then show ?thesis using r l ok1 k(3) by (auto simp: take_decision_def Let_def split: if_splits)
  next
    case True
    then have acted: "dd_acted d" and why: "?why = None" by simp_all
    define enter :: "PendingEntry option \<times> 'a MintBook_scheme \<Rightarrow> 'a MintBook_scheme res" where "enter = (\<lambda>(entry, b). case entry of
          None \<Rightarrow> Inr b
        | Some e \<Rightarrow> Inr (counting (\<lambda>c. c\<lparr>bc_enters := bc_enters c + 1\<rparr>)
            (b\<lparr>mb_pending := AList.update (ob_mint obs) e (mb_pending b)\<rparr>)))"
    have "rbind (entry_hook obs d b1) enter = Inr b'"
      using r l acted why by (simp add: take_decision_def Let_def enter_def)
    then obtain x where x: "entry_hook obs d b1 = Inr x" "enter x = Inr b'" by (auto simp: rbind_eq_Inr)
    obtain entry b2 where "x = (entry, b2)" by (cases x)
    then have h: "entry_hook obs d b1 = Inr (entry, b2)"
      and b': "(case entry of None \<Rightarrow> Inr b2 | Some e \<Rightarrow> Inr (counting (\<lambda>c. c\<lparr>bc_enters := bc_enters c + 1\<rparr>)
                 (b2\<lparr>mb_pending := AList.update (ob_mint obs) e (mb_pending b2)\<rparr>))) = (Inr b' :: 'a MintBook_scheme res)"
      using x by (simp_all add: enter_def)
    have e: "entry_kept d b1 entry b2" by (rule entry_keeps [OF h])
    then have ok2: "book_ok b2" and l2: "limits_of b2 = limits_of b" using ok1 k(3) by (simp_all add: entry_kept_def)
    show ?thesis
    proof (cases entry)
      case None
      then show ?thesis using b' ok2 l2 by simp
    next
      case (Some pe)
      have same: "mb_pending b2 = mb_pending b" "mb_positions b2 = mb_positions b" using e k(1,2) by (simp_all add: entry_kept_def)
      have pe: "pe_size_lamports pe = dd_size_lamports d" using e Some by (simp add: entry_kept_def)
      note bl = blocked_by_None [OF why acted]
      have "free_lamports b2 = free_lamports b" by (rule same_deployed [OF same l2])
      then have "book_ok (b2\<lparr>mb_pending := AList.update (ob_mint obs) pe (mb_pending b2)\<rparr>)"
        using bl new l2 by (intro book_ok_enter [OF ok2]) (simp_all add: same pe limits_of_def)
      then show ?thesis using b' Some l2 by auto
    qed
  qed
qed

lemma consider_keeps:
  assumes ok: "book_ok b" and r: "consider_with size_hook entry_hook u obs extra b = Inr b'"
  shows "book_ok b' \<and> limits_of b' = limits_of b"
proof (cases "b' = b")
  case False
  let ?b = "b\<lparr>mb_last_decided := AList.update (ob_mint obs) (ob_t_ingest_unix obs) (mb_last_decided b)\<rparr>"
  obtain d where "ob_mint obs \<notin> set (map fst (mb_pending ?b))" "take_decision entry_hook obs d ?b = Inr b'"
    using r False by (auto simp: consider_with_def Let_def rbind_eq_Inr split: if_splits)
  moreover have "book_ok ?b" using ok by simp
  ultimately show ?thesis using take_decision_keeps [of ?b obs d b'] by simp
qed (use ok in simp)

text \<open>Every entry that a decision adds comes from the hook of the class.\<close>

lemma take_decision_pending:
  assumes r: "take_decision entry_hook obs d b = Inr b'" and x: "(m, e) \<in> set (mb_pending b')"
  shows "(m, e) \<in> set (mb_pending b) \<or> (\<exists>b1 b2. entry_hook obs d b1 = Inr (Some e, b2))"
proof -
  let ?why = "blocked_by d (ob_t_ingest_unix obs) b"
  obtain b1 where l: "log_decision obs d ?why (counting (count_decision d ?why) b) = Inr b1"
    using r by (auto simp: take_decision_def Let_def rbind_eq_Inr)
  note k = log_decision_keeps [OF l]
  show ?thesis
  proof (cases "dd_acted d \<and> ?why = None")
    case False
    then show ?thesis using r l k(1) x by (auto simp: take_decision_def Let_def split: if_splits)
  next
    case True
    define enter :: "PendingEntry option \<times> 'a MintBook_scheme \<Rightarrow> 'a MintBook_scheme res" where "enter = (\<lambda>(entry, b). case entry of
          None \<Rightarrow> Inr b
        | Some e \<Rightarrow> Inr (counting (\<lambda>c. c\<lparr>bc_enters := bc_enters c + 1\<rparr>)
            (b\<lparr>mb_pending := AList.update (ob_mint obs) e (mb_pending b)\<rparr>)))"
    have "rbind (entry_hook obs d b1) enter = Inr b'"
      using r l True by (simp add: take_decision_def Let_def enter_def)
    then obtain y where y: "entry_hook obs d b1 = Inr y" "enter y = Inr b'" by (auto simp: rbind_eq_Inr)
    obtain entry b2 where e: "y = (entry, b2)" by (cases y)
    have "entry_kept d b1 entry b2" by (rule entry_keeps) (use y(1) e in simp)
    then have p: "mb_pending b2 = mb_pending b" using k(1) by (simp add: entry_kept_def)
    show ?thesis
    proof (cases entry)
      case None
      then show ?thesis using y(2) e p x by (simp add: enter_def)
    next
      case (Some pe)
      then have "mb_pending b' = AList.update (ob_mint obs) pe (mb_pending b)" using y(2) e p by (auto simp: enter_def)
      then have "(m, e) \<in> insert (ob_mint obs, pe) (set (mb_pending b))"
        using x set_update_subset' [of "ob_mint obs" pe "mb_pending b"] by auto
      then show ?thesis using y(1) e Some by auto
    qed
  qed
qed

lemma consider_pending:
  assumes "consider_with size_hook entry_hook u obs extra b = Inr b'" and "(m, e) \<in> set (mb_pending b')"
  shows "(m, e) \<in> set (mb_pending b) \<or> (\<exists>d b1 b2. entry_hook obs d b1 = Inr (Some e, b2))"
proof (cases "b' = b")
  case False
  let ?b = "b\<lparr>mb_last_decided := AList.update (ob_mint obs) (ob_t_ingest_unix obs) (mb_last_decided b)\<rparr>"
  obtain d where "take_decision entry_hook obs d ?b = Inr b'"
    using assms(1) False by (auto simp: consider_with_def Let_def rbind_eq_Inr split: if_splits)
  then show ?thesis using take_decision_pending [of obs d ?b b' m e] assms(2) by auto
qed (use assms(2) in simp)

end

lemma plain_entry_keeps: "plain_entry obs d b = Inr (entry, b') \<Longrightarrow> entry_kept d b entry b'"
  by (auto simp: plain_entry_def pending_entry_def rbind_eq_Inr entry_kept_def)

interpretation plain: desk_book size_for plain_entry
  by unfold_locales (rule plain_entry_keeps)

section \<open>Histories of a book\<close>

text \<open>What a book does between two starts of the desk.\<close>

datatype desk_op =
    Observe MintObservation
  | Decide "nat \<Rightarrow> pyfloat" MintObservation features
  | Sweep pyfloat bool
  | Drain pyfloat

definition desk_step :: "desk_op \<Rightarrow> 'a MintBook_scheme \<Rightarrow> 'a MintBook_scheme res" where
  "desk_step x b = (case x of Observe obs \<Rightarrow> observe obs b | Decide u obs extra \<Rightarrow> mint_consider u obs extra b
     | Sweep now stale \<Rightarrow> sweep now stale b | Drain now \<Rightarrow> drain now b)"

definition op_ok :: "desk_op \<Rightarrow> bool" where
  "op_ok x \<longleftrightarrow> (case x of Observe obs \<Rightarrow> obs_ok obs | _ \<Rightarrow> True)"

lemma desk_step_keeps:
  assumes "op_ok x" "book_ok b" "desk_step x b = Inr b'"
  shows "book_ok b' \<and> limits_of b' = limits_of b"
proof (cases x)
  case (Observe obs)
  then show ?thesis using observe_keeps [of obs b] assms by (auto simp: desk_step_def op_ok_def)
next
  case (Decide u obs extra)
  then show ?thesis using plain.consider_keeps [OF assms(2)] assms(3) by (auto simp: desk_step_def mint_consider_def)
next
  case (Sweep now stale)
  then show ?thesis using sweep_keeps [OF assms(2), of now stale] assms(3) by (auto simp: desk_step_def)
next
  case (Drain now)
  then show ?thesis using drain_keeps [OF assms(2), of now] assms(3) by (auto simp: desk_step_def)
qed

lemma desk_run_keeps:
  assumes "rfold desk_step ops b = Inr b'" "book_ok b" "list_all op_ok ops"
  shows "book_ok b' \<and> limits_of b' = limits_of b"
  using assms
proof (induction ops arbitrary: b)
  case (Cons x ops)
  obtain b1 where b1: "desk_step x b = Inr b1" "rfold desk_step ops b1 = Inr b'" using Cons.prems(1) by (auto simp: rbind_eq_Inr)
  have "book_ok b1 \<and> limits_of b1 = limits_of b" using desk_step_keeps [OF _ Cons.prems(2) b1(1)] Cons.prems(3) by simp
  then show ?case using Cons.IH [OF b1(2)] Cons.prems(3) by simp
qed simp

lemma new_book_ok: "0 \<le> bankroll \<Longrightarrow> book_ok (new_book p fr bankroll n cooldown det breaker timeout)"
  by (simp add: new_book_def book_ok_def deployed_lamports_def)

text \<open>
  The life of a book over many starts. The desk saves the state of the book from time to time, in a
  JSON file whose keys are sorted; a start reads what was saved last into a fresh book (a file
  that is missing is an empty state), while the ledger only grows.
\<close>

datatype desk_event = Act desk_op | Save | Restart

definition saved_file :: "BookState \<Rightarrow> BookState" where
  "saved_file st = st\<lparr>bs_pending := sort_key fst (bs_pending st), bs_positions := sort_key fst (bs_positions st),
     bs_seen := sort_key fst (bs_seen st)\<rparr>"

definition desk_event_step :: "MintBook \<Rightarrow> desk_event \<Rightarrow> BookState \<times> MintBook \<Rightarrow> (BookState \<times> MintBook) res" where
  "desk_event_step fresh x s =
     (case x of
        Act a \<Rightarrow> rbind (desk_step a (snd s)) (\<lambda>b. Inr (fst s, b))
      | Save \<Rightarrow> Inr (saved_file (book_state (snd s)), snd s)
      | Restart \<Rightarrow> Inr (fst s, (restore (fst s) fresh)\<lparr>mb_ledger := mb_ledger (snd s)\<rparr>))"

definition event_ok :: "desk_event \<Rightarrow> bool" where
  "event_ok x \<longleftrightarrow> (case x of Act a \<Rightarrow> op_ok a | _ \<Rightarrow> True)"

definition desk_life :: "MintBook \<Rightarrow> desk_event list \<Rightarrow> (BookState \<times> MintBook) res" where
  "desk_life fresh xs = rfold (desk_event_step fresh) xs (book_state fresh, fresh)"

lemma sum_sort_key: "sum_list (map f (sort_key k xs)) = (sum_list (map f xs) :: int)"
proof -
  have "mset (map f (sort_key k xs)) = mset (map f xs)" by simp
  then show ?thesis by (metis sum_mset_sum_list)
qed

lemma distinct_sort_key: "distinct (map f (sort_key k xs)) = distinct (map f xs)"
proof -
  have "mset (map f (sort_key k xs)) = mset (map f xs)" by simp
  then show ?thesis by (rule mset_eq_imp_distinct_iff)
qed

text \<open>A book is within its limits whenever its state, however ordered, is that of such a book.\<close>

lemma book_ok_restored:
  assumes "book_ok b" "limits_of fresh = limits_of b" "mb_ledger fresh = []"
  shows "book_ok (restore (saved_file (book_state b)) fresh)"
  using assms
  by (simp add: book_ok_def restore_def saved_file_def book_state_def limits_of_def deployed_lamports_def
      sum_sort_key distinct_sort_key del: distinct_map)

lemma desk_event_keeps:
  assumes fresh: "mb_ledger fresh = []"
    and old: "book_ok (restore (fst s) fresh)" "book_ok (snd s)" "limits_of (snd s) = limits_of fresh"
    and step: "event_ok x" "desk_event_step fresh x s = Inr s'"
  shows "book_ok (restore (fst s') fresh) \<and> book_ok (snd s') \<and> limits_of (snd s') = limits_of fresh"
proof (cases x)
  case (Act a)
  then show ?thesis using old step desk_step_keeps [of a "snd s"]
    by (auto simp: desk_event_step_def event_ok_def rbind_eq_Inr)
next
  case Save
  then show ?thesis using old step book_ok_restored [OF old(2) _ fresh] by (auto simp: desk_event_step_def)
next
  case Restart
  have "limits_of (restore (fst s) fresh) = limits_of fresh" by (simp add: restore_def limits_of_def)
  moreover have "book_ok ((restore (fst s) fresh)\<lparr>mb_ledger := mb_ledger (snd s)\<rparr>)"
    using old by (auto simp: book_ok_def deployed_lamports_def restore_def limits_of_def)
  ultimately show ?thesis using old(1) step(2) Restart by (auto simp: desk_event_step_def)
qed

lemma desk_events_keep:
  assumes "rfold (desk_event_step fresh) xs s = Inr s'" "mb_ledger fresh = []"
    and "book_ok (restore (fst s) fresh)" "book_ok (snd s)" "limits_of (snd s) = limits_of fresh" "list_all event_ok xs"
  shows "book_ok (snd s') \<and> limits_of (snd s') = limits_of fresh"
  using assms
proof (induction xs arbitrary: s)
  case (Cons x xs)
  obtain s1 where s1: "desk_event_step fresh x s = Inr s1" "rfold (desk_event_step fresh) xs s1 = Inr s'"
    using Cons.prems(1) by (auto simp: rbind_eq_Inr)
  have "book_ok (restore (fst s1) fresh) \<and> book_ok (snd s1) \<and> limits_of (snd s1) = limits_of fresh"
    using desk_event_keeps [OF Cons.prems(2-5) _ s1(1)] Cons.prems(6) by simp
  then show ?case using Cons.IH [OF s1(2) Cons.prems(2)] Cons.prems(6) by simp
qed simp

lemma desk_life_keeps:
  assumes "desk_life fresh xs = Inr (st, b)" "book_ok fresh" "mb_ledger fresh = []" "list_all event_ok xs"
  shows "book_ok b \<and> limits_of b = limits_of fresh"
proof -
  have "restore (book_state fresh) fresh = fresh" by (simp add: restore_def book_state_def)
  then show ?thesis using desk_events_keep [OF assms(1) [unfolded desk_life_def] assms(3)] assms(2,4) by simp
qed

end
