(* ===== verification/Paper_Desk.thy ===== *)
theory Paper_Desk
  imports Paper_Book_Kept
begin

text \<open>
  What holds of every history of a plain book of the paper desk (\<open>books.py\<close>), with a short
  book that runs through its states as the witness.
\<close>

text \<open>A short book whose first decision is an exploration: every number drawn is zero.\<close>

definition demo_mint :: string where
  "demo_mint = ''So11111111111111111111111111111111111111112''"

definition demo_obs :: "pyfloat \<Rightarrow> bool \<Rightarrow> MintObservation" where
  "demo_obs now ended = \<lparr> ob_mint = demo_mint, ob_source = ''firehose'', ob_t_ingest_unix = now, ob_t_event_unix = None,
     ob_t_event_source = ''absent'', ob_vsol_lamports = 32000000000, ob_vtok_raw = 2 ^ 50, ob_usd_market_cap = 0,
     ob_drawdown_from_ath = - 1, ob_created_unix = None, ob_last_trade_unix = None, ob_complete = ended,
     ob_pool_label = None \<rparr>"

definition demo_friction :: Friction where
  "demo_friction = \<lparr> fr_priority_fee_lamports = 35000, fr_rho_max_bps = 200, fr_max_round_trip = 1 / 16 \<rparr>"

definition demo_desk :: MintBook where
  "demo_desk = new_book (short_policy (1 / 4)) demo_friction 2000000000 8 256 False
     \<lparr> cb_window = 10, cb_max_drawdown_lamports = 100000000, cb_pause_seconds = 1800, cb_closes = [], cb_paused_until = 0 \<rparr>
     600"

definition demo_ops :: "desk_op list" where
  "demo_ops = [Observe (demo_obs 1024 False), Decide (\<lambda>_. 0) (demo_obs 1024 False) []]"

lemma demo_pending:
  "case rfold desk_step demo_ops demo_desk of
     Inl e \<Rightarrow> False
   | Inr b \<Rightarrow> map fst (mb_pending b) = [demo_mint] \<and> mb_positions b = [] \<and>
       (case mb_pending b of
          [] \<Rightarrow> False
        | e # es \<Rightarrow> pe_pool_label (snd e) = None \<and>
            0 < curve_buy \<lparr> cs_t = 1056, cs_vsol = 32000000000, cs_vtok = 2 ^ 50 \<rparr> (pe_size_lamports (snd e)) 100)"
  by code_simp

lemma demo_run:
  obtains b pe where "rfold desk_step demo_ops demo_desk = Inr b" "mb_pending b = [(demo_mint, pe)]" "mb_positions b = []"
    "pe_pool_label pe = None" "0 < curve_buy \<lparr> cs_t = 1056, cs_vsol = 32000000000, cs_vtok = 2 ^ 50 \<rparr> (pe_size_lamports pe) 100"
proof -
  obtain b where b: "rfold desk_step demo_ops demo_desk = Inr b" "map fst (mb_pending b) = [demo_mint]" "mb_positions b = []"
      "case mb_pending b of [] \<Rightarrow> False | e # es \<Rightarrow> pe_pool_label (snd e) = None \<and>
            0 < curve_buy \<lparr> cs_t = 1056, cs_vsol = 32000000000, cs_vtok = 2 ^ 50 \<rparr> (pe_size_lamports (snd e)) 100"
    using demo_pending by (cases "rfold desk_step demo_ops demo_desk") auto
  from b(2) obtain pe where "mb_pending b = [(demo_mint, pe)]" by (cases "mb_pending b") auto
  then show thesis using that b by simp
qed

lemma demo_ops_ok: "list_all op_ok demo_ops"
  by (simp add: demo_ops_def op_ok_def obs_ok_def demo_obs_def)

section \<open>Limits\<close>

text \<open>
  C38 (invariant). After any history of a book (observations, decisions, sweeps, drains, saves of
  its state, and starts of the desk that read back what was saved last), the
  lamports in open positions and pending entries are within the bankroll, their number is
  within the limit, and every row of a closed position adds up: the spend is positive, the result is
  the proceeds less the spend and two priority fees, and the pessimistic result, the
  same or the same with nothing brought in, is not above it.
\<close>

theorem desk_stays_within_its_bankroll:
  assumes "desk_life (new_book p fr bankroll n cooldown det breaker timeout) xs = Inr (saved, b)"
    and "0 \<le> bankroll" and "list_all event_ok xs"
  shows "deployed_lamports b \<le> bankroll \<and> length (mb_positions b) + length (mb_pending b) \<le> n \<and>
    (\<forall>r \<in> set (mb_ledger b). lr_row r = ''close'' \<longrightarrow>
       (\<exists>spend proceeds priority pnl pessimistic.
          map_of (lr_fields r) ''spend_lamports'' = Some (FInt spend) \<and>
          map_of (lr_fields r) ''proceeds_lamports'' = Some (FInt proceeds) \<and>
          map_of (lr_fields r) ''priority_fees_lamports'' = Some (FInt priority) \<and>
          map_of (lr_fields r) ''pnl_lamports'' = Some (FInt pnl) \<and>
          map_of (lr_fields r) ''pnl_pessimistic_lamports'' = Some (FInt pessimistic) \<and>
          0 < spend \<and> priority = 2 * fr_priority_fee_lamports fr \<and> pnl = proceeds - spend - priority \<and>
          pessimistic \<le> pnl \<and> (pessimistic = pnl \<or> pessimistic = - spend - priority)))"
proof -
  let ?fresh = "new_book p fr bankroll n cooldown det breaker timeout"
  have "mb_ledger ?fresh = []" "limits_of ?fresh = (bankroll, n, fr)" by (simp_all add: new_book_def limits_of_def)
  then have b: "book_ok b" "limits_of b = (bankroll, n, fr)"
    using desk_life_keeps [OF assms(1) new_book_ok [OF assms(2)] _ assms(3)] by simp_all
  have "\<exists>spend proceeds priority pnl pessimistic.
          map_of (lr_fields r) ''spend_lamports'' = Some (FInt spend) \<and>
          map_of (lr_fields r) ''proceeds_lamports'' = Some (FInt proceeds) \<and>
          map_of (lr_fields r) ''priority_fees_lamports'' = Some (FInt priority) \<and>
          map_of (lr_fields r) ''pnl_lamports'' = Some (FInt pnl) \<and>
          map_of (lr_fields r) ''pnl_pessimistic_lamports'' = Some (FInt pessimistic) \<and>
          0 < spend \<and> priority = 2 * fr_priority_fee_lamports fr \<and> pnl = proceeds - spend - priority \<and>
          pessimistic \<le> pnl \<and> (pessimistic = pnl \<or> pessimistic = - spend - priority)"
    if "r \<in> set (mb_ledger b)" "lr_row r = ''close''" for r
  proof -
    have "figures_ok (fr_priority_fee_lamports fr) r" using b that(1) by (auto simp: book_ok_def limits_of_def)
    then show ?thesis using that(2) unfolding figures_ok_def by fastforce
  qed
  then show ?thesis using b by (simp add: book_ok_def limits_of_def)
qed

text \<open>An entry is filled and closed, after a save; the restart then brings the entry back.\<close>

definition demo_life :: "desk_event list" where
  "demo_life = map Act demo_ops @ [Save, Act (Observe (demo_obs 1056 True)), Restart]"

lemma demo_life_end:
  "case desk_life demo_desk demo_life of
     Inl e \<Rightarrow> False
   | Inr (saved, b) \<Rightarrow> map fst (mb_pending b) = [demo_mint] \<and> map lr_row (mb_ledger b) = [''decision'', ''fill'', ''close'']"
  by code_simp

theorem desk_stays_within_its_bankroll_witness:
  "\<exists>saved b. desk_life demo_desk demo_life = Inr (saved, b) \<and> mb_pending b \<noteq> [] \<and> deployed_lamports b \<le> 2000000000 \<and>
     (\<exists>r \<in> set (mb_ledger b). lr_row r = ''close'' \<and>
        map_of (lr_fields r) ''priority_fees_lamports'' = Some (FInt 70000))"
proof -
  obtain saved b where b: "desk_life demo_desk demo_life = Inr (saved, b)" "mb_pending b \<noteq> []"
      "map lr_row (mb_ledger b) = [''decision'', ''fill'', ''close'']"
    using demo_life_end by (cases "desk_life demo_desk demo_life") auto
  have "list_all event_ok demo_life"
    by (simp add: demo_life_def demo_ops_def event_ok_def op_ok_def obs_ok_def demo_obs_def)
  note limits = desk_stays_within_its_bankroll [OF b(1) [unfolded demo_desk_def] _ this]
  have "''close'' \<in> set (map lr_row (mb_ledger b))" unfolding b(3) by simp
  then obtain r where "r \<in> set (mb_ledger b)" "lr_row r = ''close''" by auto
  then show ?thesis using limits b(1,2) by (fastforce simp: demo_friction_def)
qed

section \<open>Errors\<close>

text \<open>
  No observation of positive reserves, no sweep and no drain makes a book raise,
  after any history: the checks of the close row and of the ledger never refuse what the
  book writes.
\<close>

lemma feed_never_breaks_a_book:
  assumes "rfold desk_step ops (new_book p fr bankroll n cooldown det breaker timeout) = Inr b"
    and "0 \<le> bankroll" and "list_all op_ok ops" and "obs_ok obs"
  shows "(\<exists>b'. observe obs b = Inr b') \<and> (\<exists>b'. sweep now stale b = Inr b') \<and> (\<exists>b'. drain now b = Inr b')"
proof -
  have "book_ok b" using desk_run_keeps [OF assms(1) new_book_ok [OF assms(2)] assms(3)] by simp
  then show ?thesis using observe_keeps [OF assms(4)] sweep_keeps drain_keeps by metis
qed

section \<open>Filled and closed at once\<close>

lemma mark_others: "\<forall>q \<in> set qs. px_mint q \<noteq> ob_mint obs \<Longrightarrow> rfold (mark_position obs) qs b = Inr b"
  by (induction qs) (simp_all add: mark_position_def)

text \<open>
  C39 (safety). An observation of a coin that has left its curve fills the pending entry of
  the coin and closes the new position in the same call: the price and the time of the fill, of
  the entry and of the exit are all those of this one observation, though
  the book means a position to see its first mark on the observation after its fill.
\<close>

theorem entry_is_closed_by_its_own_fill:
  assumes "map_of (mb_pending b) (ob_mint obs) = Some pe" and "pe_pool_label pe = ob_pool_label obs"
    and "obs_ok obs" and "ob_complete obs" and "DEAD_CURVE_LAMPORTS < ob_vsol_lamports obs"
    and "\<forall>e \<in> set (mb_positions b). px_mint (snd e) \<noteq> ob_mint obs \<and> fst e \<noteq> pe_decision_id pe @ ''-p''"
    and "0 < curve_buy \<lparr> cs_t = ob_t_ingest_unix obs, cs_vsol = ob_vsol_lamports obs, cs_vtok = ob_vtok_raw obs \<rparr>
      (pe_size_lamports pe) (take_bps_for (ob_pool_label obs))"
  shows "\<exists>b' f c. observe obs b = Inr b' \<and> mb_positions b' = mb_positions b \<and> mb_ledger b' = mb_ledger b @ [f, c] \<and>
    lr_row f = ''fill'' \<and> lr_row c = ''close'' \<and>
    map_of (lr_fields f) ''position_id'' = Some (FText (pe_decision_id pe @ ''-p'')) \<and>
    map_of (lr_fields c) ''position_id'' = Some (FText (pe_decision_id pe @ ''-p'')) \<and>
    lr_t_ingest_unix f = ob_t_ingest_unix obs \<and>
    map_of (lr_fields c) ''opened_at_unix'' = Some (FFloat (ob_t_ingest_unix obs)) \<and>
    map_of (lr_fields c) ''closed_at_unix'' = Some (FFloat (ob_t_ingest_unix obs)) \<and>
    (let price = FFloat (int_div (ob_vsol_lamports obs) (ob_vtok_raw obs)) in
     map_of (lr_fields f) ''entry_price'' = Some price \<and> map_of (lr_fields c) ''entry_price'' = Some price \<and>
     map_of (lr_fields c) ''exit_price'' = Some price)"
proof -
  let ?take = "take_bps_for (ob_pool_label obs)" and ?now = "ob_t_ingest_unix obs"
  define cv where "cv = \<lparr> cs_t = ?now, cs_vsol = ob_vsol_lamports obs, cs_vtok = ob_vtok_raw obs \<rparr>"
  define amount where "amount = curve_buy cv (pe_size_lamports pe) ?take"
  define price where "price = int_div (ob_vsol_lamports obs) (ob_vtok_raw obs)"
  define p where "p = filled_position (mb_book b) pe obs ?take amount price"
  have amount: "0 < amount" using assms(7) by (simp add: amount_def cv_def)
  have p [simp]: "px_position_id p = pe_decision_id pe @ ''-p''" "px_mint p = ob_mint obs" "px_label p = ob_pool_label obs"
    "px_armed p = None" "px_entry_unix p = ?now" "px_entry_price p = price"
    by (simp_all add: p_def filled_position_def)
  have "0 < pe_size_lamports pe" using amount by (auto simp: amount_def curve_buy_def split: if_splits)
  then have pos: "position_ok (px_position_id p, p)"
    using amount take_bps_bounds by (simp add: p_def filled_position_def position_ok_def)
  let ?b = "(note_seen obs b)\<lparr>mb_pending := AList.delete (ob_mint obs) (mb_pending b)\<rparr>"
  let ?b2 = "counting (\<lambda>c. c\<lparr>bc_fills := bc_fills c + 1\<rparr>) (put_position p ?b)"
  let ?fs = "[(''position_id'', FText (px_position_id p)), (''decision_id'', FText (px_decision_id p)),
      (''key'', FText (ob_mint obs)), (''source'', FText (ob_source obs)),
      (''spend_lamports'', FInt (px_spend_lamports p)), (''tokens_raw'', FInt amount),
      (''entry_price'', FFloat price), (''take_bps'', FInt ?take),
      (''take_profit'', FFloat (px_take_profit p)), (''stop_loss'', FFloat (px_stop_loss p)),
      (''deadline'', FTime (px_deadline_unix p)), (''fill_lag_s'', FFloat (fsub ?now (pe_decided_unix pe)))]"
  have "fill_pending obs (note_seen obs b) = emit ''fill'' obs ?fs ?b2"
    using assms(1,2) amount
    by (simp add: fill_pending_def note_seen_ok obs_values [OF assms(3)] cv_def [symmetric] amount_def [symmetric]
        price_def [symmetric] p_def [symmetric] Let_def)
  moreover obtain f where f: "emit ''fill'' obs ?fs ?b2 = Inr (?b2\<lparr>mb_ledger := mb_ledger ?b2 @ [f]\<rparr>)"
      "lr_row f = ''fill''" "lr_fields f = ?fs" "lr_t_ingest_unix f = ?now"
    by (simp add: emit_def write_row_def ledger_write_def ROW_KINDS_def ENVELOPE_def)
  ultimately have fill: "fill_pending obs (note_seen obs b) = Inr (?b2\<lparr>mb_ledger := mb_ledger ?b2 @ [f]\<rparr>)" by simp
  let ?b3 = "?b2\<lparr>mb_ledger := mb_ledger ?b2 @ [f]\<rparr>" and ?q = "update_position p obs price"
  have new: "pe_decision_id pe @ ''-p'' \<notin> set (map fst (mb_positions b))" using assms(6) by force
  have P: "mb_positions ?b3 = mb_positions b @ [(px_position_id p, p)]"
    using new by (simp add: note_seen_ok update_new)
  have q: "position_ok (px_position_id p, ?q)" using pos by (simp add: position_ok_def)
  obtain b' where b': "close_marked ?q ?now ''graduated'' GRADUATED False (put_position ?q ?b3) = Inr b'"
      "closed_with ?q ?now price (put_position ?q ?b3) b'"
    using close_marked_closes [OF q, of ?now "''graduated''" GRADUATED False "put_position ?q ?b3"] by auto
  have others: "rfold (mark_position obs) (map snd (mb_positions b)) ?b3 = Inr ?b3"
    using assms(6) by (intro mark_others) auto
  have "mark_position obs p ?b3 = Inr b'"
    using assms(4,5) b'(1) by (simp add: mark_position_def obs_values [OF assms(3)] price_def [symmetric] Let_def)
  then have obs: "observe obs b = Inr b'"
    unfolding observe_def fill rbind_Inr mark_def P map_append rfold_append others by simp
  have "AList.delete (px_position_id ?q) (mb_positions (put_position ?q ?b3)) = mb_positions b"
    unfolding put_position_simps P using new by (simp add: update_split delete_split [where zs = "[]", simplified])
  then have "mb_positions b' = mb_positions b" using b'(2) by (simp add: closed_with_def)
  moreover obtain c where c: "close_of (book_fee (note_seen obs b)) ?q ?now price c" "mb_ledger b' = mb_ledger b @ [f, c]"
    using b'(2) by (auto simp: closed_with_def note_seen_ok)
  ultimately show ?thesis
    using obs f(2-4) by (intro exI [of _ b'] exI [of _ f] exI [of _ c]) (simp add: close_of_def price_def)
qed

theorem entry_is_closed_by_its_own_fill_witness:
  "\<exists>b b' f c. rfold desk_step demo_ops demo_desk = Inr b \<and> observe (demo_obs 1056 True) b = Inr b' \<and>
     mb_ledger b' = mb_ledger b @ [f, c] \<and> map_of (lr_fields c) ''opened_at_unix'' = Some (FFloat 1056) \<and>
     map_of (lr_fields c) ''closed_at_unix'' = Some (FFloat 1056) \<and>
     map_of (lr_fields c) ''exit_price'' = map_of (lr_fields f) ''entry_price''"
proof -
  let ?obs = "demo_obs 1056 True"
  obtain b pe where b: "rfold desk_step demo_ops demo_desk = Inr b" "mb_pending b = [(demo_mint, pe)]" "mb_positions b = []"
    "pe_pool_label pe = None" "0 < curve_buy \<lparr> cs_t = 1056, cs_vsol = 32000000000, cs_vtok = 2 ^ 50 \<rparr> (pe_size_lamports pe) 100"
    by (rule demo_run)
  have "map_of (mb_pending b) (ob_mint ?obs) = Some pe" "pe_pool_label pe = ob_pool_label ?obs" "obs_ok ?obs" "ob_complete ?obs"
    "DEAD_CURVE_LAMPORTS < ob_vsol_lamports ?obs"
    "\<forall>e \<in> set (mb_positions b). px_mint (snd e) \<noteq> ob_mint ?obs \<and> fst e \<noteq> pe_decision_id pe @ ''-p''"
    "0 < curve_buy \<lparr> cs_t = ob_t_ingest_unix ?obs, cs_vsol = ob_vsol_lamports ?obs, cs_vtok = ob_vtok_raw ?obs \<rparr>
      (pe_size_lamports pe) (take_bps_for (ob_pool_label ?obs))"
    using b by (simp_all add: demo_obs_def obs_ok_def DEAD_CURVE_LAMPORTS_def take_bps_for_def BONDING_CURVE_TAKE_BPS_def)
  from entry_is_closed_by_its_own_fill [OF this] show ?thesis using b(1) by (auto simp: demo_obs_def Let_def)
qed

end
