(* ===== verification/Wiggle_Book.thy ===== *)
theory Wiggle_Book
  imports Paper_Book_Kept LP_Planner
begin

text \<open>
  The wiggle book of the paper desk (\<open>joshibot/shitcoims_paperdesk/wiggle.py\<close>): a book with a
  clip of its own, the record of what it saw of each coin, and a hard ceiling on how long
  it means to hold. The oscillation of a price path is \<open>zigzag\<close> of
  \<open>studies/callout_volatility.py\<close>; the logarithms of the C library are those of \<open>float_lib\<close>.
\<close>

section \<open>The watch\<close>

record WiggleWatch =
  ww_prices :: "pyfloat list"
  ww_times :: "pyfloat list"
  ww_basis :: "string option"
  ww_basis_changes :: int

definition WATCH_DEPTH :: nat where "WATCH_DEPTH = 48"

definition WATCH_CAPACITY :: int where "WATCH_CAPACITY = 4000"

definition MAX_HOLD_S :: pyfloat where "MAX_HOLD_S = 900"

definition new_watch :: WiggleWatch where
  "new_watch = \<lparr> ww_prices = [], ww_times = [], ww_basis = None, ww_basis_changes = 0 \<rparr>"

text \<open>Appending to a deque of bounded length.\<close>

definition deque_append :: "'x \<Rightarrow> 'x list \<Rightarrow> 'x list" where
  "deque_append x xs = (let ys = xs @ [x] in drop (length ys - WATCH_DEPTH) ys)"

definition watch_observe :: "pyfloat \<Rightarrow> pyfloat \<Rightarrow> string option \<Rightarrow> WiggleWatch \<Rightarrow> WiggleWatch" where
  "watch_observe price now basis w =
     (if \<not> 0 < price then w
      else
        let w = (if ww_prices w \<noteq> [] \<and> basis \<noteq> ww_basis w
                 then w\<lparr>ww_prices := [], ww_times := [], ww_basis_changes := ww_basis_changes w + 1\<rparr> else w)
        in w\<lparr>ww_basis := basis, ww_prices := deque_append price (ww_prices w), ww_times := deque_append now (ww_times w)\<rparr>)"

fun price_signs :: "pyfloat list \<Rightarrow> int list" where
  "price_signs (a # b # ps) = (if a < b then 1 else if b < a then - 1 else 0) # price_signs (b # ps)"
| "price_signs _ = []"

definition moves :: "WiggleWatch \<Rightarrow> nat" where
  "moves w = length (filter (\<lambda>s. s \<noteq> 0) (price_signs (ww_prices w)))"

fun flips :: "int list \<Rightarrow> nat" where
  "flips (a # b # ss) = (if a \<noteq> b then 1 else 0) + flips (b # ss)"
| "flips _ = 0"

definition two_sided_frac :: "WiggleWatch \<Rightarrow> pyfloat" where
  "two_sided_frac w =
     (if length (ww_prices w) < 3 then 0
      else let ms = filter (\<lambda>s. s \<noteq> 0) (price_signs (ww_prices w))
           in if length ms < 2 then 0 else int_div (int (flips ms)) (int (length ms) - 1))"

definition observations_per_minute :: "WiggleWatch \<Rightarrow> pyfloat" where
  "observations_per_minute w =
     (if length (ww_times w) < 2 then 0
      else let span = fsub (last (ww_times w)) (hd (ww_times w))
           in if span \<le> 0 then 0 else fdiv (fmul (float_of (int (length (ww_times w)) - 1)) 60) span)"

record Zigzag =
  zz_anchor :: pyfloat
  zz_extreme :: pyfloat
  zz_direction :: int
  zz_swings :: int
  zz_amplitude :: pyfloat

definition zigzag_step :: "pyfloat \<Rightarrow> pyfloat \<Rightarrow> Zigzag \<Rightarrow> Zigzag" where
  "zigzag_step threshold x z =
     (if zz_direction z = 0
      then (if threshold \<le> fsub x (zz_anchor z) then z\<lparr>zz_direction := 1, zz_extreme := x\<rparr>
            else if threshold \<le> fsub (zz_anchor z) x then z\<lparr>zz_direction := - 1, zz_extreme := x\<rparr> else z)
      else if zz_direction z = 1
      then (if zz_extreme z < x then z\<lparr>zz_extreme := x\<rparr>
            else if threshold \<le> fsub (zz_extreme z) x
            then z\<lparr>zz_amplitude := fadd (zz_amplitude z) (fsub (zz_extreme z) (zz_anchor z)), zz_swings := zz_swings z + 1,
                   zz_anchor := zz_extreme z, zz_extreme := x, zz_direction := - 1\<rparr>
            else z)
      else (if x < zz_extreme z then z\<lparr>zz_extreme := x\<rparr>
            else if threshold \<le> fsub x (zz_extreme z)
            then z\<lparr>zz_amplitude := fadd (zz_amplitude z) (fsub (zz_anchor z) (zz_extreme z)), zz_swings := zz_swings z + 1,
                   zz_anchor := zz_extreme z, zz_extreme := x, zz_direction := 1\<rparr>
            else z))"

definition zigzag :: "pyfloat list \<Rightarrow> pyfloat \<Rightarrow> int \<times> pyfloat" where
  "zigzag logp threshold =
     (if threshold \<le> 0 \<or> length logp < 2 then (0, 0)
      else
        let z = fold (zigzag_step threshold) logp
              \<lparr> zz_anchor = hd logp, zz_extreme = hd logp, zz_direction = 0, zz_swings = 0, zz_amplitude = 0 \<rparr>
        in (zz_swings z, zz_amplitude z))"

text \<open>A threshold that is not finite is \<open>None\<close>.\<close>

definition zigzag_at :: "float_lib \<Rightarrow> pyfloat option \<Rightarrow> WiggleWatch \<Rightarrow> (int \<times> pyfloat) res" where
  "zigzag_at lib threshold w = (case threshold of
     None \<Rightarrow> Inr (0, 0)
   | Some t \<Rightarrow> if t \<le> 0 \<or> length (ww_prices w) < 3 then Inr (0, 0)
       else rbind (rmapM (m_log lib) (ww_prices w)) (\<lambda>logs. Inr (zigzag logs t)))"

text \<open>An impact on an empty pool is infinite, \<open>None\<close> here.\<close>

definition ghost_town_impact :: "int \<Rightarrow> int \<Rightarrow> pyfloat option" where
  "ghost_town_impact clip_lamports pool_sol_lamports =
     (if clip_lamports \<le> 0 \<or> pool_sol_lamports \<le> 0 then None else Some (int_div clip_lamports pool_sol_lamports))"

definition watch_features :: "float_lib \<Rightarrow> Friction \<Rightarrow> MintObservation \<Rightarrow> int \<Rightarrow> WiggleWatch \<Rightarrow> features res" where
  "watch_features lib fr obs clip_lamports w =
     (let take_bps = take_bps_for (ob_pool_label obs);
          cost = friction_round_trip fr clip_lamports (ob_vsol_lamports obs) take_bps
      in rbind (case cost of
             None \<Rightarrow> Inr None | Some c \<Rightarrow> if 0 < c then rbind (m_log1p lib c) (\<lambda>t. Inr (Some t)) else Inr None) (\<lambda>threshold.
         rbind (zigzag_at lib threshold w) (\<lambda>(swings, amplitude).
         case ghost_town_impact clip_lamports (ob_vsol_lamports obs) of
           None \<Rightarrow> Inl (OtherError ''an infinite feature is not represented'')
         | Some impact \<Rightarrow>
             Inr [(''wiggle_observations'', float_of (int (length (ww_prices w)))),
                  (''wiggle_obs_per_min'', observations_per_minute w),
                  (''wiggle_two_sided_frac'', two_sided_frac w),
                  (''wiggle_n'', float_of swings), (''wiggle_amp'', amplitude),
                  (''wiggle_net'', case threshold of None \<Rightarrow> 0
                     | Some t \<Rightarrow> if swings = 0 then 0 else fsub amplitude (fmul (float_of swings) t)),
                  (''round_trip_cost'', case cost of None \<Rightarrow> 1 | Some c \<Rightarrow> c),
                  (''own_exit_impact'', impact)])))"

section \<open>The book\<close>

record WiggleBook = MintBook +
  wb_clip_lamports :: int
  wb_watch :: "(string \<times> WiggleWatch) list"
  wb_refused_horizon :: int

definition evict :: "string set \<Rightarrow> (string \<times> WiggleWatch) list \<Rightarrow> (string \<times> WiggleWatch) list" where
  "evict live ws =
     (if WATCH_CAPACITY < int (length ws)
      then filter (\<lambda>e. fst e \<in> live) (take (nat (WATCH_CAPACITY div 4)) ws) @ drop (nat (WATCH_CAPACITY div 4)) ws
      else ws)"

definition note_watch :: "MintObservation \<Rightarrow> pyfloat \<Rightarrow> 'a WiggleBook_scheme \<Rightarrow> 'a WiggleBook_scheme" where
  "note_watch obs price b =
     (let w = (case map_of (wb_watch b) (ob_mint obs) of None \<Rightarrow> new_watch | Some w \<Rightarrow> w);
          w = watch_observe price (ob_t_ingest_unix obs) (ob_pool_label obs) w;
          live = px_mint ` set (map snd (mb_positions b)) \<union> set (map fst (mb_pending b))
      in b\<lparr>wb_watch := evict live (AList.update (ob_mint obs) w (wb_watch b))\<rparr>)"

definition wiggle_observe :: "MintObservation \<Rightarrow> 'a WiggleBook_scheme \<Rightarrow> 'a WiggleBook_scheme res" where
  "wiggle_observe obs b = rbind (obs_price obs) (\<lambda>price. observe obs (note_watch obs price b))"

definition wiggle_size_for :: "MintObservation \<Rightarrow> 'a WiggleBook_scheme \<Rightarrow> int" where
  "wiggle_size_for obs b =
     (let cap = min (free_lamports b) (mb_bankroll_lamports b);
          rho_cap = ob_vsol_lamports obs * fr_rho_max_bps (mb_friction b) div 10000
      in max 0 (min (wb_clip_lamports b) (min rho_cap cap)))"

definition wiggle_entry ::
  "MintObservation \<Rightarrow> DeskDecision \<Rightarrow> 'a WiggleBook_scheme \<Rightarrow> (PendingEntry option \<times> 'a WiggleBook_scheme) res" where
  "wiggle_entry obs d b =
     rbind (plain_entry obs d b) (\<lambda>(entry, b). case entry of
       None \<Rightarrow> Inr (None, b)
     | Some e \<Rightarrow>
         let horizon = fsub (pe_deadline_unix e) (ob_t_ingest_unix obs) in
         if MAX_HOLD_S < horizon
         then rbind (emit ''defect'' obs
                [(''key'', FText (ob_mint obs)), (''decision_id'', FText (dd_decision_id d)),
                 (''detail'', FText ''wiggle_horizon_exceeds_hard_clock''), (''horizon_s'', FFloat horizon),
                 (''max_hold_s'', FFloat MAX_HOLD_S)]
                (b\<lparr>wb_refused_horizon := wb_refused_horizon b + 1\<rparr>)) (\<lambda>b. Inr (None, b))
         else Inr (Some e, b))"

text \<open>The policy reads the watch of the coin as it is before the book's own checks.\<close>

definition wiggle_consider ::
  "float_lib \<Rightarrow> (nat \<Rightarrow> pyfloat) \<Rightarrow> MintObservation \<Rightarrow> features \<Rightarrow> 'a WiggleBook_scheme \<Rightarrow> 'a WiggleBook_scheme res" where
  "wiggle_consider lib u obs extra b =
     (let w = (case map_of (wb_watch b) (ob_mint obs) of None \<Rightarrow> new_watch | Some w \<Rightarrow> w) in
      rbind (watch_features lib (mb_friction b) obs (wb_clip_lamports b) w) (\<lambda>fs.
      consider_with wiggle_size_for wiggle_entry u obs (fold (\<lambda>(k, v). AList.update k v) extra fs) b))"

definition new_wiggle_book :: "DeskPolicy \<Rightarrow> Friction \<Rightarrow> int \<Rightarrow> nat \<Rightarrow> pyfloat \<Rightarrow> CircuitBreaker \<Rightarrow> int \<Rightarrow> WiggleBook" where
  "new_wiggle_book p fr bankroll max_positions cooldown breaker clip =
     MintBook.extend (new_book p fr bankroll max_positions cooldown False breaker 420)
       \<lparr> wb_clip_lamports = clip, wb_watch = [], wb_refused_horizon = 0 \<rparr>"

section \<open>What the book keeps\<close>

lemma book_ok_watch: "book_ok (b\<lparr>wb_watch := w\<rparr>) = book_ok b" "book_ok (b\<lparr>wb_refused_horizon := n\<rparr>) = book_ok b"
  "limits_of (b\<lparr>wb_watch := w\<rparr>) = limits_of b" "limits_of (b\<lparr>wb_refused_horizon := n\<rparr>) = limits_of b"
  by (simp_all add: book_ok_def deployed_lamports_def limits_of_def)

lemma wiggle_entry_cases:
  assumes "wiggle_entry obs d b = Inr (entry, b')"
  shows "entry_kept d b entry b'"
    and "entry = Some e \<Longrightarrow> fsub (pe_deadline_unix e) (pe_decided_unix e) \<le> MAX_HOLD_S"
proof -
  obtain pe where pe: "pending_entry obs d = Inr pe"
    using assms by (auto simp: wiggle_entry_def plain_entry_def rbind_eq_Inr)
  then have f: "pe_size_lamports pe = dd_size_lamports d" "pe_decided_unix pe = ob_t_ingest_unix obs"
    by (auto simp: pending_entry_def rbind_eq_Inr)
  let ?horizon = "fsub (pe_deadline_unix pe) (ob_t_ingest_unix obs)"
  let ?b = "b\<lparr>wb_refused_horizon := wb_refused_horizon b + 1\<rparr>"
  have "entry_kept d b entry b' \<and> (entry = Some e \<longrightarrow> fsub (pe_deadline_unix e) (pe_decided_unix e) \<le> MAX_HOLD_S)"
  proof (cases "MAX_HOLD_S < ?horizon")
    case True
    let ?fs = "[(''key'', FText (ob_mint obs)), (''decision_id'', FText (dd_decision_id d)),
         (''detail'', FText ''wiggle_horizon_exceeds_hard_clock''), (''horizon_s'', FFloat ?horizon), (''max_hold_s'', FFloat MAX_HOLD_S)]"
    obtain r where r: "emit ''defect'' obs ?fs ?b = Inr (?b\<lparr>mb_ledger := mb_ledger ?b @ [r]\<rparr>)" "figures_ok (book_fee b) r"
      using emit_row [of "''defect''" ?fs obs ?b] by (auto simp: ROW_KINDS_def ENVELOPE_def)
    then have "entry = None" "b' = ?b\<lparr>mb_ledger := mb_ledger ?b @ [r]\<rparr>"
      using assms pe True by (simp_all add: wiggle_entry_def plain_entry_def)
    then show ?thesis using book_ok_row [of ?b r] r(2) by (simp add: entry_kept_def book_ok_watch)
  next
    case False
    then have "entry = Some pe" "b' = b" using assms pe by (simp_all add: wiggle_entry_def plain_entry_def)
    then show ?thesis using False f by (auto simp: entry_kept_def)
  qed
  then show "entry_kept d b entry b'" "entry = Some e \<Longrightarrow> fsub (pe_deadline_unix e) (pe_decided_unix e) \<le> MAX_HOLD_S"
    by simp_all
qed

lemma wiggle_entry_horizon:
  "wiggle_entry obs d b = Inr (Some e, b') \<Longrightarrow> fsub (pe_deadline_unix e) (pe_decided_unix e) \<le> MAX_HOLD_S"
  by (rule wiggle_entry_cases(2) [OF _ refl])

interpretation wiggle: desk_book wiggle_size_for wiggle_entry
  by unfold_locales (rule wiggle_entry_cases(1))

lemma note_watch_kept:
  "book_ok (note_watch obs price b) = book_ok b" "limits_of (note_watch obs price b) = limits_of b"
  "mb_pending (note_watch obs price b) = mb_pending b"
  by (simp_all add: note_watch_def Let_def book_ok_watch)

text \<open>The operations, and a wiggle book as they leave it.\<close>

definition wiggle_step :: "float_lib \<Rightarrow> desk_op \<Rightarrow> 'a WiggleBook_scheme \<Rightarrow> 'a WiggleBook_scheme res" where
  "wiggle_step lib x b = (case x of Observe obs \<Rightarrow> wiggle_observe obs b | Decide u obs extra \<Rightarrow> wiggle_consider lib u obs extra b
     | Sweep now stale \<Rightarrow> sweep now stale b | Drain now \<Rightarrow> drain now b)"

definition short_held :: "'a WiggleBook_scheme \<Rightarrow> bool" where
  "short_held b \<longleftrightarrow> (\<forall>e \<in> set (mb_pending b). fsub (pe_deadline_unix (snd e)) (pe_decided_unix (snd e)) \<le> MAX_HOLD_S)"

lemma short_held_mono: "short_held b \<Longrightarrow> set (mb_pending b') \<subseteq> set (mb_pending b) \<Longrightarrow> short_held b'"
  by (auto simp: short_held_def)

lemma wiggle_step_keeps:
  assumes "op_ok x" "book_ok b" "short_held b" "wiggle_step lib x b = Inr b'"
  shows "book_ok b' \<and> limits_of b' = limits_of b \<and> short_held b'"
proof (cases x)
  case (Observe obs)
  then obtain price where "observe obs (note_watch obs price b) = Inr b'" "obs_ok obs"
    using assms(1,4) by (auto simp: wiggle_step_def wiggle_observe_def rbind_eq_Inr op_ok_def)
  then show ?thesis
    using observe_keeps [of obs "note_watch obs price b"] assms(2,3) short_held_mono by (auto simp: note_watch_kept)
next
  case (Decide u obs extra)
  then obtain fs where r: "consider_with wiggle_size_for wiggle_entry u obs fs b = Inr b'"
    using assms(4) by (auto simp: wiggle_step_def wiggle_consider_def Let_def rbind_eq_Inr)
  have "short_held b'"
    unfolding short_held_def
  proof
    fix e assume "e \<in> set (mb_pending b')"
    then have "(fst e, snd e) \<in> set (mb_pending b')" by simp
    from wiggle.consider_pending [OF r this] show "fsub (pe_deadline_unix (snd e)) (pe_decided_unix (snd e)) \<le> MAX_HOLD_S"
      using assms(3) wiggle_entry_horizon by (auto simp: short_held_def)
  qed
  then show ?thesis using wiggle.consider_keeps [OF assms(2) r] by simp
next
  case (Sweep now stale)
  then show ?thesis
    using sweep_keeps [OF assms(2), of now stale] assms(3,4) short_held_mono by (auto simp: wiggle_step_def)
next
  case (Drain now)
  then show ?thesis
    using drain_keeps [OF assms(2), of now] assms(3,4) by (auto simp: wiggle_step_def short_held_def)
qed

lemma wiggle_run_keeps:
  assumes "rfold (wiggle_step lib) ops b = Inr b'" "book_ok b" "short_held b" "list_all op_ok ops"
  shows "book_ok b' \<and> limits_of b' = limits_of b \<and> short_held b'"
  using assms
proof (induction ops arbitrary: b)
  case (Cons x ops)
  obtain b1 where b1: "wiggle_step lib x b = Inr b1" "rfold (wiggle_step lib) ops b1 = Inr b'"
    using Cons.prems(1) by (auto simp: rbind_eq_Inr)
  have "book_ok b1 \<and> limits_of b1 = limits_of b \<and> short_held b1"
    using wiggle_step_keeps [OF _ Cons.prems(2,3) b1(1)] Cons.prems(4) by simp
  then show ?case using Cons.IH [OF b1(2)] Cons.prems(4) by simp
qed simp

lemma new_wiggle_ok:
  assumes "0 \<le> bankroll"
  shows "book_ok (new_wiggle_book p fr bankroll n cooldown breaker clip)"
    "limits_of (new_wiggle_book p fr bankroll n cooldown breaker clip) = (bankroll, n, fr)"
    "short_held (new_wiggle_book p fr bankroll n cooldown breaker clip)"
  using assms by (simp_all add: new_wiggle_book_def new_book_def MintBook.extend_def book_ok_def deployed_lamports_def
      limits_of_def short_held_def)

text \<open>
  C40 (bounds). The wiggle book never plans a hold: after any history, whatever the features
  and the policy it is built with, no entry waits with a deadline more than 900 seconds
  after its decision, and the book is within its bankroll and its number of positions.
\<close>

theorem wiggle_never_plans_a_hold:
  assumes "rfold (wiggle_step lib) ops (new_wiggle_book p fr bankroll n cooldown breaker clip) = Inr b"
    and "0 \<le> bankroll" and "list_all op_ok ops"
  shows "(\<forall>e \<in> set (mb_pending b). fsub (pe_deadline_unix (snd e)) (pe_decided_unix (snd e)) \<le> 900) \<and>
    deployed_lamports b \<le> bankroll \<and> length (mb_positions b) + length (mb_pending b) \<le> n"
  using wiggle_run_keeps [OF assms(1) new_wiggle_ok(1,3) [OF assms(2)] assms(3)] new_wiggle_ok(2) [OF assms(2)]
  by (simp add: short_held_def MAX_HOLD_S_def book_ok_def limits_of_def)

text \<open>The witness: an exploration of a coin that was seen once.\<close>

definition wiggle_demo_obs :: MintObservation where
  "wiggle_demo_obs = \<lparr> ob_mint = ''So11111111111111111111111111111111111111112'', ob_source = ''boards'',
     ob_t_ingest_unix = 1024, ob_t_event_unix = None, ob_t_event_source = ''absent'', ob_vsol_lamports = 32000000000,
     ob_vtok_raw = 2 ^ 50, ob_usd_market_cap = 0, ob_drawdown_from_ath = - 1, ob_created_unix = None,
     ob_last_trade_unix = None, ob_complete = False, ob_pool_label = None \<rparr>"

definition wiggle_demo_lib :: float_lib where
  "wiggle_demo_lib = \<lparr> m_pow = (\<lambda>x n. x), m_log = (\<lambda>x. Inr x), m_log1p = (\<lambda>x. Inr x) \<rparr>"

definition wiggle_demo_ops :: "desk_op list" where
  "wiggle_demo_ops = [Observe wiggle_demo_obs, Decide (\<lambda>_. 0) wiggle_demo_obs []]"

definition wiggle_demo :: WiggleBook where
  "wiggle_demo = new_wiggle_book
     (wiggle_policy (1 / 4)\<lparr>dk_ranges := [(''hold_seconds'', 256, 256), (''take_profit'', 1 / 16, 1 / 16), (''stop_loss'', 1 / 8, 1 / 8)],
       dk_rule := (\<lambda>_ _. Inr False)\<rparr>)
     \<lparr> fr_priority_fee_lamports = 35000, fr_rho_max_bps = 200, fr_max_round_trip = 1 / 16 \<rparr>
     2000000000 8 120 \<lparr> cb_window = 10, cb_max_drawdown_lamports = 100000000, cb_pause_seconds = 1800, cb_closes = [], cb_paused_until = 0 \<rparr>
     100000000"

lemma wiggle_demo_run:
  "case rfold (wiggle_step wiggle_demo_lib) wiggle_demo_ops wiggle_demo of
     Inl e \<Rightarrow> False | Inr b \<Rightarrow> length (mb_pending b) = 1"
  by code_simp

theorem wiggle_never_plans_a_hold_witness:
  "\<exists>b k e. rfold (wiggle_step wiggle_demo_lib) wiggle_demo_ops wiggle_demo = Inr b \<and> mb_pending b = [(k, e)] \<and>
     fsub (pe_deadline_unix e) (pe_decided_unix e) \<le> 900"
proof -
  obtain b where b: "rfold (wiggle_step wiggle_demo_lib) wiggle_demo_ops wiggle_demo = Inr b" "length (mb_pending b) = 1"
    using wiggle_demo_run by (cases "rfold (wiggle_step wiggle_demo_lib) wiggle_demo_ops wiggle_demo") auto
  then obtain k e where e: "mb_pending b = [(k, e)]" by (cases "mb_pending b") auto
  have "list_all op_ok wiggle_demo_ops" by (simp add: wiggle_demo_ops_def op_ok_def obs_ok_def wiggle_demo_obs_def)
  from wiggle_never_plans_a_hold [OF b(1) [unfolded wiggle_demo_def] _ this] b(1) e show ?thesis by auto
qed

end
