(* ===== verification/Gate_State.thy ===== *)
theory Gate_State
  imports Policies Clients Rounding
begin

text \<open>
  The state of the gate, the bot in front of the holders group
  (\<open>joshibot/dregg_gate/state.py\<close>, \<open>approvals.py\<close>, \<open>helius.py\<close>, \<open>verify.py\<close>): its tables,
  what it reads of a wallet's balance, and the challenge a wallet signs. A table is the list
  of its rows; the metadata are one field per key. A message to a user is a \<open>notice\<close>, its
  kind with what its text names. A day is its number.
\<close>

section \<open>Challenges, members, messages\<close>

text \<open>The template of a challenge with its three holes; the time in whole seconds.\<close>

datatype challenge_text = Challenge_text (ct_wallet: string) (ct_nonce: string) (ct_issued: int)

definition build_challenge :: "string \<Rightarrow> string \<Rightarrow> pyfloat \<Rightarrow> challenge_text" where
  "build_challenge wallet nonce t = Challenge_text wallet nonce \<lfloor>t\<rfloor>"

text \<open>
  What \<open>solders\<close> does with texts: whether one is a public key, whether one is a signature,
  and whether the key signed the text.
\<close>

record signing =
  sg_pubkey :: "string \<Rightarrow> bool"
  sg_signature :: "string \<Rightarrow> bool"
  sg_verify :: "string \<Rightarrow> challenge_text \<Rightarrow> string \<Rightarrow> bool"

definition quote_chars :: string where
  "quote_chars = [CHR 0x60, CHR 0x22, CHR 0x27]"

definition strip_quotes :: "string \<Rightarrow> string" where
  "strip_quotes s = rev (dropWhile (\<lambda>c. c \<in> set quote_chars) (rev (dropWhile (\<lambda>c. c \<in> set quote_chars) s)))"

definition parse_signature :: "signing \<Rightarrow> string \<Rightarrow> string option" where
  "parse_signature sg txt =
     (let cleaned = strip_quotes (strip txt)
      in if cleaned = [] \<or> list_ex is_space cleaned then None
         else if sg_signature sg cleaned then Some cleaned else None)"

definition signature_matches :: "signing \<Rightarrow> challenge_text \<Rightarrow> string \<Rightarrow> string \<Rightarrow> bool" where
  "signature_matches sg msg wallet txt =
     (case parse_signature sg txt of
        None \<Rightarrow> False
      | Some s \<Rightarrow> sg_pubkey sg wallet \<and> sg_verify sg wallet msg s)"

record Challenge =
  ch_wallet :: string
  ch_nonce :: string
  ch_message :: challenge_text
  ch_issued_at :: pyfloat
  ch_expires_at :: pyfloat

datatype standing = Seated | Grace | Ejected

record Member =
  me_wallet :: string
  me_verified_at :: pyfloat
  me_status :: standing
  me_grace_until :: "pyfloat option"
  me_last_checked_at :: "pyfloat option"
  me_last_balance_raw :: "int option"

datatype notice =
    Start_text int
  | Help_text
  | Lookup_reply string
  | Pending_count int
  | Unknown_command string
  | Verify_usage
  | Not_an_address
  | Wallet_linked_elsewhere
  | Sign_next_message
  | Sign_this challenge_text
  | Challenge_expired int
  | No_live_challenge
  | Work_by_command
  | Not_a_signature
  | Does_not_verify string
  | Balance_unavailable
  | Balance_short int int int
  | Verified int int
  | Not_verified
  | Was_removed
  | Group_not_open
  | Invite_failed
  | Invite_link string int
  | Challenge_pending string
  | Standing_report Member int int pyfloat
  | Bound int
  | Approval_decided int string
  | Approval_summary int string string string
  | Back_above int int
  | Heads_up int int int
  | Removed_below
  | Alert_migrated int
  | Alert_helius
  | Alert_unbound
  | Alert_invite_failed
  | Alert_skipped int string
  | Alert_cannot_eject
  | Alert_dropped string string
  | Daily_report int "int \<times> int \<times> int" "int option" int

datatype payload =
    Send (to_chat: int) notice "string option" "int option"
  | Photo int string int
  | Ban int int
  | Unban int int

text \<open>\<open>Send\<close> carries the parse mode, and of an approval's buttons its number.\<close>

record OutboxItem =
  qi_id :: int
  qi_dedup :: string
  qi_payload :: payload
  qi_attempts :: int
  qi_next_attempt_at :: pyfloat

record ApprovalRequest =
  ar_id :: int
  ar_source :: string
  ar_kind :: string
  ar_summary :: string
  ar_payload :: obj
  ar_created_at :: pyfloat
  ar_presented_at :: "pyfloat option"
  ar_decision :: "(pyfloat \<times> string \<times> string) option"

text \<open>The decision of an approval: when, \<open>approve\<close> or \<open>reject\<close>, and by whom.\<close>

datatype sweep_result = Skipped int string | Swept int int int int int

record SweepPlan =
  sp_day :: int
  sp_pending :: "int list"
  sp_next_batch_at :: pyfloat
  sp_checked :: int
  sp_warned :: int
  sp_ejected :: int
  sp_restored :: int

text \<open>
  The running gate: its database, then what only the process holds (the plan of the sweep,
  what Telegram rejected), then what it asked of Telegram at once: the invite links it had
  minted (for whom, into which group, until when) and the answers to buttons.
\<close>

record gate =
  gt_last_update_id :: "int option"
  gt_group_id :: "int option"
  gt_mint_decimals :: "int option"
  gt_sweep_day :: "int option"
  gt_sweep_result :: "sweep_result option"
  gt_heartbeat_day :: "int option"
  gt_outbox :: "OutboxItem list"
  gt_next_id :: int
  gt_challenges :: "(int \<times> Challenge) list"
  gt_members :: "(int \<times> Member) list"
  gt_approvals :: "ApprovalRequest list"
  gt_next_approval :: int
  gt_plan :: "SweepPlan option"
  gt_dropped :: "(payload \<times> string) list"
  gt_invites :: "(int \<times> int \<times> int) list"
  gt_callbacks :: "(string \<times> string) list"

definition new_gate :: gate where
  "new_gate = \<lparr> gt_last_update_id = None, gt_group_id = None, gt_mint_decimals = None, gt_sweep_day = None,
     gt_sweep_result = None, gt_heartbeat_day = None, gt_outbox = [], gt_next_id = 1, gt_challenges = [], gt_members = [],
     gt_approvals = [], gt_next_approval = 1, gt_plan = None, gt_dropped = [], gt_invites = [], gt_callbacks = [] \<rparr>"

section \<open>The tables\<close>

definition advance_cursor :: "int \<Rightarrow> gate \<Rightarrow> gate" where
  "advance_cursor update_id g =
     (case gt_last_update_id g of
        Some current \<Rightarrow> if update_id \<le> current then g else g\<lparr>gt_last_update_id := Some update_id\<rparr>
      | None \<Rightarrow> g\<lparr>gt_last_update_id := Some update_id\<rparr>)"

definition bind_group :: "int \<Rightarrow> gate \<Rightarrow> gate" where
  "bind_group chat_id g = g\<lparr>gt_group_id := Some chat_id\<rparr>"

definition record_mint_decimals :: "int \<Rightarrow> gate \<Rightarrow> gate res" where
  "record_mint_decimals decimals g =
     (if gt_mint_decimals g \<noteq> None \<and> gt_mint_decimals g \<noteq> Some decimals
      then Inl (RuntimeError ''on-chain mint decimals changed'')
      else Inr (g\<lparr>gt_mint_decimals := Some decimals\<rparr>))"

text \<open>\<open>INSERT OR IGNORE\<close>: a row whose key is still in the outbox is not added again.\<close>

definition enqueue :: "string \<Rightarrow> payload \<Rightarrow> gate \<Rightarrow> gate" where
  "enqueue dk p g =
     (if list_ex (\<lambda>q. qi_dedup q = dk) (gt_outbox g) then g
      else g\<lparr>gt_outbox := gt_outbox g @ [\<lparr> qi_id = gt_next_id g, qi_dedup = dk, qi_payload = p, qi_attempts = 0,
               qi_next_attempt_at = 0 \<rparr>],
             gt_next_id := gt_next_id g + 1\<rparr>)"

definition due_items :: "pyfloat \<Rightarrow> gate \<Rightarrow> OutboxItem list" where
  "due_items now g = take 20 (filter (\<lambda>q. qi_next_attempt_at q \<le> now) (gt_outbox g))"

definition delivered :: "int \<Rightarrow> gate \<Rightarrow> gate" where
  "delivered i g = g\<lparr>gt_outbox := filter (\<lambda>q. qi_id q \<noteq> i) (gt_outbox g)\<rparr>"

definition retry_delay :: "int \<Rightarrow> int" where
  "retry_delay attempts = min 300 (2 ^ nat (min attempts 8))"

definition delivery_failed :: "int \<Rightarrow> int \<Rightarrow> pyfloat \<Rightarrow> gate \<Rightarrow> gate" where
  "delivery_failed i attempts now g = g\<lparr>gt_outbox := map (\<lambda>q. if qi_id q = i
     then q\<lparr>qi_attempts := attempts, qi_next_attempt_at := fadd now (float_of (retry_delay attempts))\<rparr> else q) (gt_outbox g)\<rparr>"

definition put_challenge :: "int \<Rightarrow> Challenge \<Rightarrow> gate \<Rightarrow> gate" where
  "put_challenge uid c g = g\<lparr>gt_challenges := AList.update uid c (gt_challenges g)\<rparr>"

definition consume_challenge :: "int \<Rightarrow> gate \<Rightarrow> gate" where
  "consume_challenge uid g = g\<lparr>gt_challenges := AList.delete uid (gt_challenges g)\<rparr>"

definition get_challenge :: "int \<Rightarrow> pyfloat \<Rightarrow> gate \<Rightarrow> Challenge option \<times> gate" where
  "get_challenge uid now g =
     (case map_of (gt_challenges g) uid of
        None \<Rightarrow> (None, g)
      | Some c \<Rightarrow> if ch_expires_at c < now then (None, consume_challenge uid g) else (Some c, g))"

definition challenge_wallet_any :: "int \<Rightarrow> gate \<Rightarrow> string option" where
  "challenge_wallet_any uid g = map_option ch_wallet (map_of (gt_challenges g) uid)"

definition member :: "int \<Rightarrow> gate \<Rightarrow> Member option" where
  "member uid g = map_of (gt_members g) uid"

definition member_by_wallet :: "string \<Rightarrow> gate \<Rightarrow> (int \<times> Member) option" where
  "member_by_wallet wallet g = find (\<lambda>m. me_wallet (snd m) = wallet) (gt_members g)"

text \<open>The UNIQUE constraint on the wallet refuses a second user.\<close>

definition record_verification :: "int \<Rightarrow> string \<Rightarrow> int \<Rightarrow> pyfloat \<Rightarrow> gate \<Rightarrow> gate res" where
  "record_verification uid wallet balance_raw now g =
     (if list_ex (\<lambda>m. fst m \<noteq> uid \<and> me_wallet (snd m) = wallet) (gt_members g)
      then Inl (OtherError ''UNIQUE constraint failed: members.wallet'')
      else Inr (g\<lparr>gt_members := AList.update uid
             \<lparr> me_wallet = wallet, me_verified_at = now, me_status = Seated, me_grace_until = None,
               me_last_checked_at = Some now, me_last_balance_raw = Some balance_raw \<rparr> (gt_members g)\<rparr>))"

definition update_member :: "int \<Rightarrow> (Member \<Rightarrow> Member) \<Rightarrow> gate \<Rightarrow> gate" where
  "update_member uid f g = g\<lparr>gt_members := map (\<lambda>m. if fst m = uid then (uid, f (snd m)) else m) (gt_members g)\<rparr>"

definition record_balance :: "int \<Rightarrow> int \<Rightarrow> pyfloat \<Rightarrow> gate \<Rightarrow> gate" where
  "record_balance uid balance_raw now =
     update_member uid (\<lambda>m. m\<lparr>me_last_checked_at := Some now, me_last_balance_raw := Some balance_raw\<rparr>)"

definition set_member_status :: "int \<Rightarrow> standing \<Rightarrow> pyfloat option \<Rightarrow> gate \<Rightarrow> gate" where
  "set_member_status uid status grace_until =
     update_member uid (\<lambda>m. m\<lparr>me_status := status, me_grace_until := grace_until\<rparr>)"

definition member_counts :: "gate \<Rightarrow> int \<times> int \<times> int" where
  "member_counts g = (let n = \<lambda>s. int (length (filter (\<lambda>m. me_status (snd m) = s) (gt_members g))) in (n Seated, n Grace, n Ejected))"

section \<open>Approvals\<close>

text \<open>The side of the services: a request, and the poll for its decision.\<close>

definition enqueue_approval :: "string \<Rightarrow> string \<Rightarrow> string \<Rightarrow> obj \<Rightarrow> pyfloat \<Rightarrow> gate \<Rightarrow> int res \<times> gate" where
  "enqueue_approval src kind summary p now g =
     (if src = [] \<or> kind = [] \<or> summary = [] then (Inl (ValueError ''source, kind, and summary are all required''), g)
      else (Inr (gt_next_approval g),
        g\<lparr>gt_approvals := gt_approvals g @ [\<lparr> ar_id = gt_next_approval g, ar_source = src, ar_kind = kind,
             ar_summary = take 3500 summary, ar_payload = p, ar_created_at = now, ar_presented_at = None, ar_decision = None \<rparr>],
          gt_next_approval := gt_next_approval g + 1\<rparr>))"

definition read_decision :: "int \<Rightarrow> gate \<Rightarrow> (string \<times> obj) option" where
  "read_decision i g =
     (case find (\<lambda>a. ar_id a = i \<and> ar_decision a \<noteq> None) (gt_approvals g) of
        None \<Rightarrow> None
      | Some a \<Rightarrow> map_option (\<lambda>(t, decision, who). (decision, ar_payload a)) (ar_decision a))"

definition unpresented_approvals :: "gate \<Rightarrow> ApprovalRequest list" where
  "unpresented_approvals g = take 10 (filter (\<lambda>a. ar_decision a = None \<and> ar_presented_at a = None) (gt_approvals g))"

definition mark_presented :: "int \<Rightarrow> pyfloat \<Rightarrow> gate \<Rightarrow> gate" where
  "mark_presented i now g = g\<lparr>gt_approvals := map (\<lambda>a. if ar_id a = i \<and> ar_presented_at a = None
     then a\<lparr>ar_presented_at := Some now\<rparr> else a) (gt_approvals g)\<rparr>"

definition decide_approval :: "int \<Rightarrow> string \<Rightarrow> string \<Rightarrow> pyfloat \<Rightarrow> gate \<Rightarrow> bool \<times> gate" where
  "decide_approval i decision decided_by now g =
     (list_ex (\<lambda>a. ar_id a = i \<and> ar_decision a = None) (gt_approvals g),
      g\<lparr>gt_approvals := map (\<lambda>a. if ar_id a = i \<and> ar_decision a = None
         then a\<lparr>ar_decision := Some (now, decision, decided_by)\<rparr> else a) (gt_approvals g)\<rparr>)"

definition pending_approval_count :: "gate \<Rightarrow> int" where
  "pending_approval_count g = int (length (filter (\<lambda>a. ar_decision a = None) (gt_approvals g)))"

section \<open>Balances\<close>

text \<open>\<open>int(s)\<close> of a text that \<open>isdigit()\<close>.\<close>

definition digit_value :: "char \<Rightarrow> int option" where
  "digit_value c = (let n = (of_char c :: int) - 48 in if 0 \<le> n \<and> n \<le> 9 then Some n else None)"

fun digits_from :: "int \<Rightarrow> string \<Rightarrow> int option" where
  "digits_from acc [] = Some acc"
| "digits_from acc (c # cs) = (case digit_value c of None \<Rightarrow> None | Some d \<Rightarrow> digits_from (10 * acc + d) cs)"

definition digits_value :: "string \<Rightarrow> int option" where
  "digits_value s = (if s = [] then None else digits_from 0 s)"

lemma digits_from_nonneg: "digits_from acc s = Some n \<Longrightarrow> 0 \<le> acc \<Longrightarrow> 0 \<le> n"
  by (induction acc s rule: digits_from.induct) (auto simp: digit_value_def Let_def split: option.splits if_splits)

text \<open>
  \<open>Helius._rpc\<close>: the answer to a method about an account, at a first or a second attempt;
  any failure is a HeliusError, \<open>None\<close> here and an \<open>ExternalServiceError\<close> below. A balance is the sum over the token accounts; only an
  empty list is a zero.
\<close>

type_synonym rpc = "string \<Rightarrow> string \<Rightarrow> nat \<Rightarrow> json option"

definition helius_answer :: "json option \<Rightarrow> json res" where
  "helius_answer a = (case a of None \<Rightarrow> Inl (ExternalServiceError ''Helius failed'') | Some v \<Rightarrow> Inr v)"

definition mint_decimals_of :: "rpc \<Rightarrow> string \<Rightarrow> int res" where
  "mint_decimals_of rpc mint = rbind (helius_answer (rpc ''getTokenSupply'' mint 0)) (\<lambda>result.
     case jget ''decimals'' (as_object (jget ''value'' (as_object result))) of
       JInt d \<Rightarrow> if 0 \<le> d \<and> d \<le> 18 then Inr d else Inl (ExternalServiceError ''no usable decimals'')
     | _ \<Rightarrow> Inl (ExternalServiceError ''no usable decimals''))"

definition token_amount :: "json \<Rightarrow> int res" where
  "token_amount entry =
     (case rbind (item ''account'' entry) (\<lambda>a. rbind (item ''data'' a) (\<lambda>d. rbind (item ''parsed'' d) (\<lambda>p.
          rbind (item ''info'' p) (\<lambda>i. rbind (item ''tokenAmount'' i) (item ''amount''))))) of
        Inl e \<Rightarrow> Inl (ExternalServiceError ''token account entry is malformed'')
      | Inr (JStr s) \<Rightarrow> (case digits_value s of Some n \<Rightarrow> Inr n | None \<Rightarrow> Inl (ExternalServiceError ''not a raw integer string''))
      | Inr _ \<Rightarrow> Inl (ExternalServiceError ''not a raw integer string''))"

definition balance_raw :: "rpc \<Rightarrow> string \<Rightarrow> nat \<Rightarrow> int res" where
  "balance_raw rpc wallet attempt = rbind (helius_answer (rpc ''getTokenAccountsByOwner'' wallet attempt)) (\<lambda>result.
     case jget ''value'' (as_object result) of
       JList entries \<Rightarrow> rbind (rmapM token_amount entries) (\<lambda>amounts. Inr (sum_list amounts))
     | _ \<Rightarrow> Inl (ExternalServiceError ''malformed account list''))"

lemma token_amount_nonneg: "token_amount entry = Inr a \<Longrightarrow> 0 \<le> a"
  by (auto simp: token_amount_def digits_value_def dest: digits_from_nonneg split: sum.splits json.splits option.splits if_splits)

lemma balance_raw_nonneg:
  assumes "balance_raw rpc wallet attempt = Inr b"
  shows "0 \<le> b"
proof -
  obtain result where r: "(case jget ''value'' (as_object result) of
       JList entries \<Rightarrow> rbind (rmapM token_amount entries) (\<lambda>amounts. Inr (sum_list amounts))
     | _ \<Rightarrow> Inl (ExternalServiceError ''malformed account list'')) = Inr b"
    using assms unfolding balance_raw_def rbind_eq_Inr by blast
  then obtain entries amounts where "rmapM token_amount entries = Inr amounts" "b = sum_list amounts"
    by (cases "jget ''value'' (as_object result)") auto
  moreover have "0 \<le> a" if "a \<in> set amounts" for a
    using that calculation(1) token_amount_nonneg by (auto simp: rmapM_eq_Inr list_all2_conv_all_nth in_set_conv_nth)
  ultimately show ?thesis by (simp add: sum_list_nonneg)
qed

end
