(* ===== verification/Gateway.thy ===== *)
theory Gateway
  imports Gate_State
begin

text \<open>
  The gateway of the gate (\<open>joshibot/dregg_gate/gateway.py\<close>): what a message of anyone, a
  button of the operator and a message in the group do. An exception of a handler ends it
  and is swallowed by \<open>process_update\<close>; what it changed before stays.
\<close>

section \<open>Configuration and environment\<close>

record gate_config =
  gc_mint :: string
  gc_threshold_tokens :: int
  gc_threshold_overrides :: "(string \<times> int) list"
  gc_operator_chat_id :: int
  gc_message_max_age_seconds :: int
  gc_challenge_ttl_seconds :: int
  gc_invite_ttl_seconds :: int
  gc_grace_hours :: int
  gc_sweep_hour_utc :: int
  gc_sweep_spread_seconds :: int
  gc_sweep_batch_size :: int

text \<open>
  What a step meets: the clock, the random nonce, the answers of Helius, the result of
  \<open>createChatInviteLink\<close> (\<open>None\<close> for a TelegramError), the replies of the lookup services
  to a command, whose text and parse mode it hands on.
\<close>

record gate_env =
  ge_now :: pyfloat
  ge_nonce :: string
  ge_rpc :: rpc
  ge_invite :: "json option"
  ge_lookup :: "string \<Rightarrow> int \<Rightarrow> string list \<Rightarrow> string \<times> string option"

section \<open>Plumbing\<close>

definition dm :: "int \<Rightarrow> notice \<Rightarrow> string \<Rightarrow> gate \<Rightarrow> gate" where
  "dm chat_id n dk = enqueue dk (Send chat_id n None None)"

definition alert_operator :: "gate_config \<Rightarrow> notice \<Rightarrow> string \<Rightarrow> gate \<Rightarrow> gate" where
  "alert_operator c n dk = dm (gc_operator_chat_id c) n dk"

definition effective_tokens :: "gate_config \<Rightarrow> int option \<Rightarrow> int" where
  "effective_tokens c uid =
     (case map_of (gc_threshold_overrides c) (case uid of None \<Rightarrow> ''None'' | Some u \<Rightarrow> int_text u) of
        None \<Rightarrow> gc_threshold_tokens c | Some t \<Rightarrow> t)"

definition threshold_raw :: "gate_config \<Rightarrow> gate_env \<Rightarrow> int option \<Rightarrow> gate \<Rightarrow> int res \<times> gate" where
  "threshold_raw c e uid g =
     (case gt_mint_decimals g of
        Some d \<Rightarrow> (Inr (effective_tokens c uid * 10 ^ nat d), g)
      | None \<Rightarrow>
          (case mint_decimals_of (ge_rpc e) (gc_mint c) of
             Inl err \<Rightarrow> (Inl err, g)
           | Inr d \<Rightarrow>
               (case record_mint_decimals d g of
                  Inl err \<Rightarrow> (Inl err, g)
                | Inr g' \<Rightarrow> (Inr (effective_tokens c uid * 10 ^ nat d), g'))))"

definition known_decimals :: "gate \<Rightarrow> int" where
  "known_decimals g = (case gt_mint_decimals g of None \<Rightarrow> 0 | Some d \<Rightarrow> d)"

definition fresh_human :: "gate_config \<Rightarrow> gate_env \<Rightarrow> obj \<Rightarrow> bool" where
  "fresh_human c e message =
     (case obj_of (jget ''from'' message) of
        None \<Rightarrow> False
      | Some sender \<Rightarrow>
          jget ''is_bot'' sender = JBool False \<and>
          (case (case jget ''date'' message of JInt i \<Rightarrow> Some (of_int i) | JReal r \<Rightarrow> Some r | _ \<Rightarrow> None) of
             None \<Rightarrow> False
           | Some sent_at \<Rightarrow>
               - 30 \<le> fsub (ge_now e) sent_at \<and> fsub (ge_now e) sent_at \<le> of_int (gc_message_max_age_seconds c)))"

text \<open>\<open>text.split()\<close>, \<open>lower()\<close>, and the command of a message.\<close>

fun words_from :: "string \<Rightarrow> string \<Rightarrow> string list" where
  "words_from w [] = (if w = [] then [] else [w])"
| "words_from w (c # cs) = (if is_space c then (if w = [] then words_from [] cs else w # words_from [] cs) else words_from (w @ [c]) cs)"

definition lower_char :: "char \<Rightarrow> char" where
  "lower_char c = (if 65 \<le> (of_char c :: nat) \<and> (of_char c :: nat) \<le> 90 then char_of ((of_char c :: nat) + 32) else c)"

definition command_of :: "string \<Rightarrow> string" where
  "command_of txt = (case words_from [] txt of [] \<Rightarrow> [] | w # ws \<Rightarrow> takeWhile (\<lambda>c. c \<noteq> CHR 0x40) (map lower_char w))"

section \<open>Verification\<close>

definition claimed_by_other :: "string \<Rightarrow> int \<Rightarrow> gate \<Rightarrow> bool" where
  "claimed_by_other wallet uid g = (case member_by_wallet wallet g of None \<Rightarrow> False | Some m \<Rightarrow> fst m \<noteq> uid)"

definition cmd_verify ::
  "signing \<Rightarrow> gate_config \<Rightarrow> gate_env \<Rightarrow> int \<Rightarrow> int \<Rightarrow> string option \<Rightarrow> string \<Rightarrow> gate \<Rightarrow> gate" where
  "cmd_verify sg c e uid chat_id wallet dk g =
     (case wallet of
        None \<Rightarrow> dm chat_id Verify_usage dk g
      | Some w \<Rightarrow>
          if \<not> sg_pubkey sg w then dm chat_id Not_an_address dk g
          else if claimed_by_other w uid g then dm chat_id Wallet_linked_elsewhere dk g
          else
            let msg = build_challenge w (ge_nonce e) (ge_now e);
                g = put_challenge uid \<lparr> ch_wallet = w, ch_nonce = ge_nonce e, ch_message = msg, ch_issued_at = ge_now e,
                      ch_expires_at = fadd (ge_now e) (of_int (gc_challenge_ttl_seconds c)) \<rparr> g
            in dm chat_id (Sign_this msg) (dk @ '':challenge'') (dm chat_id Sign_next_message dk g))"

definition grant_invite :: "gate_config \<Rightarrow> gate_env \<Rightarrow> int \<Rightarrow> int \<Rightarrow> string \<Rightarrow> gate \<Rightarrow> gate" where
  "grant_invite c e uid chat_id dk g =
     (case gt_group_id g of
        None \<Rightarrow> alert_operator c Alert_unbound ''alert:unbound-group'' (dm chat_id Group_not_open dk g)
      | Some gid \<Rightarrow>
          let g = g\<lparr>gt_invites := gt_invites g @ [(uid, gid, \<lfloor>ge_now e\<rfloor> + gc_invite_ttl_seconds c)]\<rparr>
          in case (case ge_invite e of None \<Rightarrow> JNull | Some result \<Rightarrow> jget ''invite_link'' (as_object result)) of
               JStr link \<Rightarrow> dm chat_id (Invite_link link (gc_invite_ttl_seconds c div 60)) dk g
             | _ \<Rightarrow> alert_operator c Alert_invite_failed (dk @ '':err'') (dm chat_id Invite_failed dk g))"

fun is_helius :: "py_exc \<Rightarrow> bool" where
  "is_helius (ExternalServiceError _) = True"
| "is_helius _ = False"

text \<open>The threshold and the balance of the wallet, in the \<open>try\<close> of the handler.\<close>

definition measure_wallet :: "gate_config \<Rightarrow> gate_env \<Rightarrow> int \<Rightarrow> string \<Rightarrow> gate \<Rightarrow> (int \<times> int) res \<times> gate" where
  "measure_wallet c e uid wallet g =
     (case threshold_raw c e (Some uid) g of
        (Inl err, g) \<Rightarrow> (Inl err, g)
      | (Inr needed, g) \<Rightarrow> (rbind (balance_raw (ge_rpc e) wallet 0) (\<lambda>b. Inr (needed, b)), g))"

text \<open>What follows a signature that verifies: the balance decides.\<close>

definition admit :: "gate_config \<Rightarrow> gate_env \<Rightarrow> int \<Rightarrow> int \<Rightarrow> string \<Rightarrow> string \<Rightarrow> gate \<Rightarrow> unit res \<times> gate" where
  "admit c e uid chat_id wallet dk g =
     (case measure_wallet c e uid wallet g of
        (Inl err, g) \<Rightarrow>
          if is_helius err
          then (Inr (), alert_operator c Alert_helius (dk @ '':helius'') (dm chat_id Balance_unavailable dk g))
          else (Inl err, g)
      | (Inr (needed, balance), g) \<Rightarrow>
          let g = consume_challenge uid g; decimals = known_decimals g
          in if balance < needed then (Inr (), dm chat_id (Balance_short balance needed decimals) dk g)
             else case record_verification uid wallet balance (ge_now e) g of
                 Inl err \<Rightarrow> (Inl err, g)
               | Inr g \<Rightarrow> (Inr (), grant_invite c e uid chat_id (dk @ '':invite'') (dm chat_id (Verified balance decimals) dk g)))"

definition handle_signature ::
  "signing \<Rightarrow> gate_config \<Rightarrow> gate_env \<Rightarrow> int \<Rightarrow> int \<Rightarrow> string \<Rightarrow> string \<Rightarrow> gate \<Rightarrow> unit res \<times> gate" where
  "handle_signature sg c e uid chat_id txt dk g =
     (let stored = challenge_wallet_any uid g in
      case get_challenge uid (ge_now e) g of
        (None, g) \<Rightarrow>
          (Inr (), case stored of
             Some w \<Rightarrow> cmd_verify sg c e uid chat_id (Some w) (dk @ '':renew'')
                 (dm chat_id (Challenge_expired (gc_challenge_ttl_seconds c div 60)) dk g)
           | None \<Rightarrow> dm chat_id (if parse_signature sg txt \<noteq> None then No_live_challenge else Work_by_command) dk g)
      | (Some ch, g) \<Rightarrow>
          if parse_signature sg txt = None then (Inr (), dm chat_id Not_a_signature dk g)
          else if \<not> signature_matches sg (ch_message ch) (ch_wallet ch) txt
          then (Inr (), dm chat_id (Does_not_verify (ch_wallet ch)) dk g)
          else if claimed_by_other (ch_wallet ch) uid g
          then (Inr (), dm chat_id Wallet_linked_elsewhere dk (consume_challenge uid g))
          else admit c e uid chat_id (ch_wallet ch) dk g)"

section \<open>The other commands\<close>

definition cmd_invite :: "gate_config \<Rightarrow> gate_env \<Rightarrow> int \<Rightarrow> int \<Rightarrow> string \<Rightarrow> gate \<Rightarrow> gate" where
  "cmd_invite c e uid chat_id dk g =
     (case member uid g of
        None \<Rightarrow> dm chat_id Not_verified dk g
      | Some m \<Rightarrow> if me_status m = Ejected then dm chat_id Was_removed dk g else grant_invite c e uid chat_id dk g)"

definition cmd_status :: "gate_config \<Rightarrow> gate_env \<Rightarrow> int \<Rightarrow> int \<Rightarrow> string \<Rightarrow> gate \<Rightarrow> gate" where
  "cmd_status c e uid chat_id dk g =
     (case get_challenge uid (ge_now e) g of (challenge, g') \<Rightarrow>
        (case member uid g of
           None \<Rightarrow> (case challenge of
               Some ch \<Rightarrow> dm chat_id (Challenge_pending (ch_wallet ch)) dk g' | None \<Rightarrow> dm chat_id Not_verified dk g')
         | Some m \<Rightarrow> dm chat_id (Standing_report m (known_decimals g') (effective_tokens c (Some uid)) (ge_now e)) dk g'))"

definition private_command ::
  "signing \<Rightarrow> gate_config \<Rightarrow> gate_env \<Rightarrow> int \<Rightarrow> int \<Rightarrow> string \<Rightarrow> string \<Rightarrow> gate \<Rightarrow> unit res \<times> gate" where
  "private_command sg c e uid chat_id txt dk g =
     (let parts = words_from [] txt; command = command_of txt; arg = (case parts of a # b # cs \<Rightarrow> Some b | _ \<Rightarrow> None) in
      if command = ''/start'' then (Inr (), dm chat_id (Start_text (gc_threshold_tokens c)) dk g)
      else if command = ''/help'' then (Inr (), dm chat_id Help_text dk g)
      else if command \<in> {''/screen'', ''/caller'', ''/wallet'', ''/coin''}
      then (let (reply, mode) = ge_lookup e command uid (take 1 (drop 1 parts))
            in (Inr (), enqueue dk (Send chat_id (Lookup_reply reply) mode None) g))
      else if command \<in> {''/watch'', ''/unwatch''}
      then (Inr (), dm chat_id (Lookup_reply (fst (ge_lookup e command uid (drop 1 parts)))) dk g)
      else if command = ''/verify'' then (Inr (), cmd_verify sg c e uid chat_id arg dk g)
      else if command = ''/status'' then (Inr (), cmd_status c e uid chat_id dk g)
      else if command = ''/invite'' then (Inr (), cmd_invite c e uid chat_id dk g)
      else if command = ''/pending'' \<and> uid = gc_operator_chat_id c
      then (Inr (), dm chat_id (Pending_count (pending_approval_count g)) dk g)
      else if take 1 command = ''/'' then (Inr (), dm chat_id (Unknown_command command) dk g)
      else handle_signature sg c e uid chat_id txt dk g)"

section \<open>Updates\<close>

definition update_key :: "int \<Rightarrow> string" where "update_key i = ''update:'' @ int_text i"

definition private_message ::
  "signing \<Rightarrow> gate_config \<Rightarrow> gate_env \<Rightarrow> int \<Rightarrow> obj \<Rightarrow> obj \<Rightarrow> gate \<Rightarrow> unit res \<times> gate" where
  "private_message sg c e update_id message chat g =
     (case (jget ''id'' chat, obj_of (jget ''from'' message), jget ''text'' message) of
        (JInt chat_id, Some sender, JStr txt) \<Rightarrow>
          (case jget ''id'' sender of
             JInt uid \<Rightarrow> if \<not> fresh_human c e message then (Inr (), g)
                        else private_command sg c e uid chat_id txt (update_key update_id) g
           | _ \<Rightarrow> (Inr (), g))
      | _ \<Rightarrow> (Inr (), g))"

definition group_message :: "gate_config \<Rightarrow> gate_env \<Rightarrow> int \<Rightarrow> obj \<Rightarrow> obj \<Rightarrow> gate \<Rightarrow> gate" where
  "group_message c e update_id message chat g =
     (case jget ''id'' chat of
        JInt chat_id \<Rightarrow>
          (case (jget ''migrate_to_chat_id'' message, gt_group_id g = Some chat_id) of
             (JInt migrated, True) \<Rightarrow>
               alert_operator c (Alert_migrated migrated) (update_key update_id @ '':migrate'') (bind_group migrated g)
           | _ \<Rightarrow>
               (case (jget ''text'' message, obj_of (jget ''from'' message)) of
                  (JStr txt, Some sender) \<Rightarrow>
                    if command_of txt \<noteq> ''/bind'' then g
                    else if \<not> equals_int (jget ''id'' sender) (gc_operator_chat_id c) \<or> \<not> fresh_human c e message then g
                    else dm (gc_operator_chat_id c) (Bound chat_id) (update_key update_id) (bind_group chat_id g)
                | _ \<Rightarrow> g))
      | _ \<Rightarrow> g)"

definition gate_message :: "signing \<Rightarrow> gate_config \<Rightarrow> gate_env \<Rightarrow> int \<Rightarrow> json \<Rightarrow> gate \<Rightarrow> unit res \<times> gate" where
  "gate_message sg c e update_id message g =
     (case obj_of message of
        None \<Rightarrow> (Inr (), g)
      | Some m \<Rightarrow>
          (case obj_of (jget ''chat'' m) of
             None \<Rightarrow> (Inr (), g)
           | Some chat \<Rightarrow>
               if jget ''type'' chat = JStr ''private'' then private_message sg c e update_id m chat g
               else if jget ''type'' chat \<in> {JStr ''group'', JStr ''supergroup''}
               then (Inr (), group_message c e update_id m chat g)
               else (Inr (), g)))"

text \<open>The buttons: \<open>gate:a:17\<close> approves, \<open>gate:r:17\<close> rejects.\<close>

definition callback_data :: "json \<Rightarrow> (string \<times> int) option" where
  "callback_data v =
     (case v of
        JStr s \<Rightarrow>
          (let digits = drop 7 s;
               decision = (if take 7 s = ''gate:a:'' then Some ''approve'' else if take 7 s = ''gate:r:'' then Some ''reject'' else None)
           in case (decision, digits_value digits) of
                (Some d, Some n) \<Rightarrow> if length digits \<le> 12 then Some (d, n) else None
              | _ \<Rightarrow> None)
      | _ \<Rightarrow> None)"

definition answer_callback :: "string \<Rightarrow> string \<Rightarrow> gate \<Rightarrow> gate" where
  "answer_callback i txt g = g\<lparr>gt_callbacks := gt_callbacks g @ [(i, take 200 txt)]\<rparr>"

definition gate_callback :: "gate_config \<Rightarrow> gate_env \<Rightarrow> int \<Rightarrow> json \<Rightarrow> gate \<Rightarrow> gate" where
  "gate_callback c e update_id raw g =
     (case obj_of raw of
        None \<Rightarrow> g
      | Some m \<Rightarrow>
          (case (jget ''id'' m, obj_of (jget ''from'' m)) of
             (JStr callback_id, Some sender) \<Rightarrow>
               (case callback_data (jget ''data'' m) of
                  None \<Rightarrow> answer_callback callback_id ''Unknown button.'' g
                | Some (decision, approval_id) \<Rightarrow>
                    if \<not> equals_int (jget ''id'' sender) (gc_operator_chat_id c)
                    then answer_callback callback_id ''Not authorized.'' g
                    else
                      (case decide_approval approval_id decision (int_text (gc_operator_chat_id c)) (ge_now e) g of
                         (decided, g) \<Rightarrow>
                           if \<not> decided then answer_callback callback_id ''Already decided (or unknown).'' g
                           else dm (gc_operator_chat_id c) (Approval_decided approval_id decision) (update_key update_id)
                                  (answer_callback callback_id (decision @ ''d'') g)))
           | _ \<Rightarrow> g))"

definition process_update :: "signing \<Rightarrow> gate_config \<Rightarrow> gate_env \<Rightarrow> obj \<Rightarrow> gate \<Rightarrow> gate" where
  "process_update sg c e update g =
     (case jget ''update_id'' update of
        JInt update_id \<Rightarrow>
          if update_id < 0 then g
          else if (case gt_last_update_id g of None \<Rightarrow> False | Some current \<Rightarrow> update_id \<le> current) then g
          else
            (let g = (case map_of update ''message'' of
                   Some message \<Rightarrow> snd (gate_message sg c e update_id message g)
                 | None \<Rightarrow> (case map_of update ''callback_query'' of
                       Some raw \<Rightarrow> gate_callback c e update_id raw g | None \<Rightarrow> g))
             in advance_cursor update_id g)
      | _ \<Rightarrow> g)"

section \<open>The approvals presenter\<close>

definition present_one :: "gate_config \<Rightarrow> gate_env \<Rightarrow> ApprovalRequest \<Rightarrow> gate \<Rightarrow> gate" where
  "present_one c e a g =
     (let g = (case jget ''preview_photo_path'' (ar_payload a) of
             JStr path \<Rightarrow> if path = [] then g
               else enqueue (''approval:preview:'' @ int_text (ar_id a)) (Photo (gc_operator_chat_id c) path (ar_id a)) g
           | _ \<Rightarrow> g);
          g = enqueue (''approval:'' @ int_text (ar_id a))
                (Send (gc_operator_chat_id c) (Approval_summary (ar_id a) (ar_source a) (ar_kind a) (ar_summary a)) None
                   (Some (ar_id a))) g
      in mark_presented (ar_id a) (ge_now e) g)"

definition present_approvals :: "gate_config \<Rightarrow> gate_env \<Rightarrow> gate \<Rightarrow> gate" where
  "present_approvals c e g = fold (present_one c e) (unpresented_approvals g) g"

end
