(* ===== verification/Gate_Sweep.thy ===== *)
theory Gate_Sweep
  imports Gateway
begin

text \<open>
  What the gate does on its own (\<open>joshibot/dregg_gate/sweep.py\<close>, \<open>telegram.py\<close>,
  \<open>service.py\<close>): the daily sweep over the members, one batch at a time, the delivery of the
  outbox, the alerts and the heartbeat; then the steps a history of the gate is made of.
\<close>

section \<open>The sweep\<close>

definition utc_day :: "pyfloat \<Rightarrow> int" where "utc_day t = \<lfloor>t / 86400\<rfloor>"

definition utc_hour :: "pyfloat \<Rightarrow> int" where "utc_hour t = \<lfloor>t / 3600\<rfloor> mod 24"

definition update_plan :: "(SweepPlan \<Rightarrow> SweepPlan) \<Rightarrow> gate \<Rightarrow> gate" where
  "update_plan f g = g\<lparr>gt_plan := map_option f (gt_plan g)\<rparr>"

definition sweep_due :: "gate_config \<Rightarrow> pyfloat \<Rightarrow> gate \<Rightarrow> bool" where
  "sweep_due c now g \<longleftrightarrow> gt_sweep_day g \<noteq> Some (utc_day now) \<and> gc_sweep_hour_utc c \<le> utc_hour now"

definition batch_gap :: "gate_config \<Rightarrow> int \<Rightarrow> pyfloat" where
  "batch_gap c member_count = int_div (gc_sweep_spread_seconds c) (max 1 (- ((- member_count) div gc_sweep_batch_size c)))"

definition balance_with_retry :: "rpc \<Rightarrow> string \<Rightarrow> int res" where
  "balance_with_retry rpc wallet = (case balance_raw rpc wallet 0 of Inr b \<Rightarrow> Inr b | Inl _ \<Rightarrow> balance_raw rpc wallet 1)"

definition sweep_key :: "int \<Rightarrow> int \<Rightarrow> string \<Rightarrow> string" where
  "sweep_key day uid what = ''sweep:'' @ int_text day @ '':'' @ int_text uid @ '':'' @ what"

definition exc_text :: "py_exc \<Rightarrow> string" where
  "exc_text err = (case err of ExternalServiceError s \<Rightarrow> s | _ \<Rightarrow> [])"

definition sweep_skip :: "gate_config \<Rightarrow> int \<Rightarrow> string \<Rightarrow> gate \<Rightarrow> gate" where
  "sweep_skip c day reason g =
     alert_operator c (Alert_skipped day reason) (''sweep:'' @ int_text day @ '':skipped'')
       (g\<lparr>gt_plan := None, gt_sweep_day := Some day, gt_sweep_result := Some (Skipped day reason)\<rparr>)"

definition sweep_finish :: "gate \<Rightarrow> gate" where
  "sweep_finish g = (case gt_plan g of
       None \<Rightarrow> g
     | Some p \<Rightarrow> g\<lparr>gt_plan := None, gt_sweep_day := Some (sp_day p),
         gt_sweep_result := Some (Swept (sp_day p) (sp_checked p) (sp_warned p) (sp_ejected p) (sp_restored p))\<rparr>)"

text \<open>A ban and at once its removal, so that the user may come back.\<close>

definition eject :: "int \<Rightarrow> int \<Rightarrow> int \<Rightarrow> gate \<Rightarrow> gate" where
  "eject day uid gid g =
     dm uid Removed_below (sweep_key day uid ''ejected'')
       (set_member_status uid Ejected None
         (enqueue (''eject:'' @ int_text day @ '':'' @ int_text uid @ '':unban'') (Unban gid uid)
           (enqueue (''eject:'' @ int_text day @ '':'' @ int_text uid @ '':ban'') (Ban gid uid) g)))"

definition apply_balance :: "gate_config \<Rightarrow> gate_env \<Rightarrow> int \<Rightarrow> int \<Rightarrow> Member \<Rightarrow> int \<Rightarrow> int \<Rightarrow> gate \<Rightarrow> gate" where
  "apply_balance c e day uid m balance needed g =
     (if needed \<le> balance
      then (if me_status m = Grace
            then update_plan (\<lambda>p. p\<lparr>sp_restored := sp_restored p + 1\<rparr>)
              (dm uid (Back_above balance (known_decimals g)) (sweep_key day uid ''restored'') (set_member_status uid Seated None g))
            else g)
      else if me_status m = Seated
      then update_plan (\<lambda>p. p\<lparr>sp_warned := sp_warned p + 1\<rparr>)
        (dm uid (Heads_up balance (effective_tokens c (Some uid)) (known_decimals g)) (sweep_key day uid ''warn'')
          (set_member_status uid Grace (Some (fadd (ge_now e) (of_int (gc_grace_hours c * 3600)))) g))
      else if (case me_grace_until m of None \<Rightarrow> False | Some t \<Rightarrow> ge_now e < t) then g
      else (case gt_group_id g of
          None \<Rightarrow> alert_operator c Alert_cannot_eject (''sweep:'' @ int_text day @ '':unbound'') g
        | Some gid \<Rightarrow> update_plan (\<lambda>p. p\<lparr>sp_ejected := sp_ejected p + 1\<rparr>) (eject day uid gid g)))"

text \<open>One member of a batch; \<open>False\<close> when a provider error has skipped the day.\<close>

definition sweep_member :: "gate_config \<Rightarrow> gate_env \<Rightarrow> int \<Rightarrow> int \<Rightarrow> gate \<Rightarrow> bool res \<times> gate" where
  "sweep_member c e day uid g =
     (case member uid g of
        None \<Rightarrow> (Inr True, g)
      | Some m \<Rightarrow>
          if me_status m = Ejected then (Inr True, g)
          else case balance_with_retry (ge_rpc e) (me_wallet m) of
              Inl err \<Rightarrow> (Inr False, sweep_skip c day (exc_text err) g)
            | Inr balance \<Rightarrow>
                let g = update_plan (\<lambda>p. p\<lparr>sp_checked := sp_checked p + 1\<rparr>) (record_balance uid balance (ge_now e) g)
                in case threshold_raw c e (Some uid) g of
                    (Inl err, g) \<Rightarrow> (Inl err, g)
                  | (Inr needed, g) \<Rightarrow> (Inr True, apply_balance c e day uid m balance needed g))"

fun sweep_members :: "gate_config \<Rightarrow> gate_env \<Rightarrow> int \<Rightarrow> int list \<Rightarrow> gate \<Rightarrow> bool res \<times> gate" where
  "sweep_members c e day [] g = (Inr True, g)"
| "sweep_members c e day (uid # uids) g =
     (case sweep_member c e day uid g of
        (Inr True, g) \<Rightarrow> sweep_members c e day uids g
      | r \<Rightarrow> r)"

definition run_batch :: "gate_config \<Rightarrow> gate_env \<Rightarrow> SweepPlan \<Rightarrow> gate \<Rightarrow> unit res \<times> gate" where
  "run_batch c e plan g =
     (case threshold_raw c e None g of
        (Inl err, g) \<Rightarrow> if is_helius err then (Inr (), sweep_skip c (sp_day plan) (exc_text err) g) else (Inl err, g)
      | (Inr _, g) \<Rightarrow>
          let n = nat (gc_sweep_batch_size c)
          in case sweep_members c e (sp_day plan) (take n (sp_pending plan))
                    (update_plan (\<lambda>p. p\<lparr>sp_pending := drop n (sp_pending p)\<rparr>) g) of
              (Inl err, g) \<Rightarrow> (Inl err, g)
            | (Inr False, g) \<Rightarrow> (Inr (), g)
            | (Inr True, g) \<Rightarrow>
                (Inr (), case gt_plan g of
                   None \<Rightarrow> g
                 | Some p \<Rightarrow>
                     if sp_pending p = [] then sweep_finish g
                     else update_plan (\<lambda>p. p\<lparr>sp_next_batch_at :=
                         fadd (ge_now e) (batch_gap c (sp_checked p + int (length (sp_pending p))))\<rparr>) g))"

definition sweep_tick :: "gate_config \<Rightarrow> gate_env \<Rightarrow> gate \<Rightarrow> unit res \<times> gate" where
  "sweep_tick c e g =
     (case gt_plan g of
        Some plan \<Rightarrow> if ge_now e < sp_next_batch_at plan then (Inr (), g) else run_batch c e plan g
      | None \<Rightarrow>
          if \<not> sweep_due c (ge_now e) g then (Inr (), g)
          else
            let uids = sort (map fst (filter (\<lambda>m. me_status (snd m) \<noteq> Ejected) (gt_members g)));
                plan = \<lparr> sp_day = utc_day (ge_now e), sp_pending = uids, sp_next_batch_at = 0, sp_checked = 0,
                  sp_warned = 0, sp_ejected = 0, sp_restored = 0 \<rparr>;
                g = g\<lparr>gt_plan := Some plan\<rparr>
            in if uids = [] then (Inr (), sweep_finish g)
               else if ge_now e < 0 then (Inr (), g) else run_batch c e plan g)"

section \<open>The outbox\<close>

text \<open>
  What comes back of a delivery: nothing usable, a photo that is gone from disk, or a status
  with a body.
\<close>

datatype delivery = No_answer | Photo_lost | Answered int json

fun flush_items :: "pyfloat \<Rightarrow> (OutboxItem \<Rightarrow> delivery) \<Rightarrow> OutboxItem list \<Rightarrow> gate \<Rightarrow> gate" where
  "flush_items now post [] g = g"
| "flush_items now post (q # qs) g =
     (case post q of
        Photo_lost \<Rightarrow>
          flush_items now post qs (delivered (qi_id q) (g\<lparr>gt_dropped := gt_dropped g @ [(qi_payload q, ''photo_unreadable'')]\<rparr>))
      | No_answer \<Rightarrow> delivery_failed (qi_id q) (qi_attempts q + 1) now g
      | Answered status body \<Rightarrow>
          (case obj_of body of
             None \<Rightarrow> delivery_failed (qi_id q) (qi_attempts q + 1) now g
           | Some m \<Rightarrow>
               if jget ''ok'' m = JBool True then flush_items now post qs (delivered (qi_id q) g)
               else if 500 \<le> status then delivery_failed (qi_id q) (qi_attempts q + 1) now g
               else flush_items now post qs (delivered (qi_id q)
                 (g\<lparr>gt_dropped := gt_dropped g @ [(qi_payload q, take 200 (json_text (jget_or ''description'' (JStr []) m)))]\<rparr>))))"

definition flush_outbox :: "pyfloat \<Rightarrow> (OutboxItem \<Rightarrow> delivery) \<Rightarrow> gate \<Rightarrow> gate" where
  "flush_outbox now post g = flush_items now post (due_items now g) g"

section \<open>The service\<close>

definition alert_drop :: "gate_config \<Rightarrow> (nat \<Rightarrow> int) \<Rightarrow> nat \<times> payload \<times> string \<Rightarrow> gate \<Rightarrow> gate" where
  "alert_drop c clock_ns d g =
     (case d of (i, p, description) \<Rightarrow>
        (case p of
           Ban gid uid \<Rightarrow> alert_operator c (Alert_dropped ''banChatMember'' description) (''drop:'' @ int_text (clock_ns i)) g
         | Unban gid uid \<Rightarrow> alert_operator c (Alert_dropped ''unbanChatMember'' description) (''drop:'' @ int_text (clock_ns i)) g
         | _ \<Rightarrow> g))"

definition alert_drops :: "gate_config \<Rightarrow> (nat \<Rightarrow> int) \<Rightarrow> gate \<Rightarrow> gate" where
  "alert_drops c clock_ns g = fold (alert_drop c clock_ns) (List.enumerate 0 (gt_dropped g)) (g\<lparr>gt_dropped := []\<rparr>)"

definition daily_heartbeat :: "gate_config \<Rightarrow> gate_env \<Rightarrow> gate \<Rightarrow> gate" where
  "daily_heartbeat c e g =
     (let day = utc_day (ge_now e) in
      if gt_heartbeat_day g = Some day then g
      else
        let g = g\<lparr>gt_heartbeat_day := Some day\<rparr>
        in dm (gc_operator_chat_id c) (Daily_report day (member_counts g) (gt_group_id g) (pending_approval_count g))
             (''heartbeat:'' @ int_text day) g)"

text \<open>
  The steps of a history. Each has the configuration and the environment it meets, since the
  file may be edited while the gate runs. At a restart the database stays.
\<close>

datatype gate_step =
    Update gate_config gate_env obj
  | Tick gate_config gate_env
  | Flush pyfloat "OutboxItem \<Rightarrow> delivery"
  | Present gate_config gate_env
  | Alert gate_config "nat \<Rightarrow> int"
  | Heartbeat gate_config gate_env
  | Request string string string obj pyfloat
  | Restart

definition gate_do :: "signing \<Rightarrow> gate_step \<Rightarrow> gate \<Rightarrow> gate" where
  "gate_do sg x g =
     (case x of
        Update c e update \<Rightarrow> process_update sg c e update g
      | Tick c e \<Rightarrow> snd (sweep_tick c e g)
      | Flush now post \<Rightarrow> flush_outbox now post g
      | Present c e \<Rightarrow> present_approvals c e g
      | Alert c clock_ns \<Rightarrow> alert_drops c clock_ns g
      | Heartbeat c e \<Rightarrow> daily_heartbeat c e g
      | Request src kind summary p now \<Rightarrow> snd (enqueue_approval src kind summary p now g)
      | Restart \<Rightarrow> g\<lparr>gt_plan := None, gt_dropped := []\<rparr>)"

inductive gate_history :: "signing \<Rightarrow> gate_step list \<Rightarrow> gate \<Rightarrow> bool" for sg where
  start: "gate_history sg [] new_gate"
| step: "gate_history sg xs g \<Longrightarrow> gate_history sg (xs @ [x]) (gate_do sg x g)"

end
