(* ===== verification/Gate_Kept.thy ===== *)
theory Gate_Kept
  imports Gate_Sweep
begin

text \<open>
  What every history of the gate keeps: the fields an operation leaves alone, what a private
  message may do to seats and invitations (\<open>private_ok\<close>), what a tick of the sweep may do to a
  member (\<open>swept\<close>), the cases of a step (\<open>gate_do_cases\<close>), and the invariant \<open>gate_ok\<close>.
\<close>

lemma update_pairs: "set (AList.update k v xs) \<subseteq> insert (k, v) (set xs)"
  by (induction xs) auto

section \<open>What an operation leaves alone\<close>

named_theorems gate_frame \<open>fields an operation leaves alone\<close>

lemma enqueue_frame [simp, gate_frame]:
  "gt_members (enqueue dk p g) = gt_members g" "gt_challenges (enqueue dk p g) = gt_challenges g"
  "gt_invites (enqueue dk p g) = gt_invites g" "gt_approvals (enqueue dk p g) = gt_approvals g"
  "gt_next_approval (enqueue dk p g) = gt_next_approval g" "gt_plan (enqueue dk p g) = gt_plan g"
  "gt_group_id (enqueue dk p g) = gt_group_id g" "gt_mint_decimals (enqueue dk p g) = gt_mint_decimals g"
  "gt_sweep_day (enqueue dk p g) = gt_sweep_day g" "gt_sweep_result (enqueue dk p g) = gt_sweep_result g"
  "gt_last_update_id (enqueue dk p g) = gt_last_update_id g" "gt_dropped (enqueue dk p g) = gt_dropped g"
  by (simp_all add: enqueue_def)

lemma dm_frame [simp]:
  "gt_members (dm u n dk g) = gt_members g" "gt_challenges (dm u n dk g) = gt_challenges g"
  "gt_invites (dm u n dk g) = gt_invites g" "gt_approvals (dm u n dk g) = gt_approvals g"
  "gt_next_approval (dm u n dk g) = gt_next_approval g" "gt_plan (dm u n dk g) = gt_plan g"
  "gt_group_id (dm u n dk g) = gt_group_id g" "gt_mint_decimals (dm u n dk g) = gt_mint_decimals g"
  "gt_sweep_day (dm u n dk g) = gt_sweep_day g" "gt_sweep_result (dm u n dk g) = gt_sweep_result g"
  "gt_dropped (dm u n dk g) = gt_dropped g"
  by (simp_all add: dm_def)

lemma alert_operator_frame [simp]:
  "gt_members (alert_operator c n dk g) = gt_members g" "gt_challenges (alert_operator c n dk g) = gt_challenges g"
  "gt_invites (alert_operator c n dk g) = gt_invites g" "gt_approvals (alert_operator c n dk g) = gt_approvals g"
  "gt_next_approval (alert_operator c n dk g) = gt_next_approval g" "gt_plan (alert_operator c n dk g) = gt_plan g"
  "gt_group_id (alert_operator c n dk g) = gt_group_id g" "gt_mint_decimals (alert_operator c n dk g) = gt_mint_decimals g"
  "gt_sweep_day (alert_operator c n dk g) = gt_sweep_day g" "gt_sweep_result (alert_operator c n dk g) = gt_sweep_result g"
  by (simp_all add: alert_operator_def)

text \<open>What concerns the seats: members, challenges, invitations, approvals and the plan.\<close>

definition concerns :: "gate \<Rightarrow> (int \<times> Member) list \<times> (int \<times> Challenge) list \<times> (int \<times> int \<times> int) list \<times>
    ApprovalRequest list \<times> int \<times> SweepPlan option" where
  "concerns g = (gt_members g, gt_challenges g, gt_invites g, gt_approvals g, gt_next_approval g, gt_plan g)"

lemma concerns_frame [simp]:
  "concerns (enqueue dk p g) = concerns g" "concerns (dm u n dk g) = concerns g" "concerns (alert_operator c n dk g) = concerns g"
  "concerns (advance_cursor i g) = concerns g" "concerns (bind_group i g) = concerns g" "concerns (answer_callback cb txt g) = concerns g"
  by (simp_all add: concerns_def advance_cursor_def bind_group_def answer_callback_def split: option.split)

lemma get_challenge_cases:
  assumes "get_challenge uid now g = (r, g')"
  shows "gt_members g' = gt_members g" "gt_invites g' = gt_invites g" "gt_approvals g' = gt_approvals g"
    "gt_next_approval g' = gt_next_approval g" "gt_plan g' = gt_plan g" "gt_group_id g' = gt_group_id g"
    "gt_mint_decimals g' = gt_mint_decimals g" "set (gt_challenges g') \<subseteq> set (gt_challenges g)"
    "r = Some ch \<Longrightarrow> map_of (gt_challenges g) uid = Some ch \<and> \<not> ch_expires_at ch < now \<and> g' = g"
  using assms by (auto simp: get_challenge_def consume_challenge_def AList.delete_eq split: option.splits if_splits)

lemma threshold_raw_cases:
  assumes "threshold_raw c e uid g = (r, g')"
  shows "concerns g' = concerns g" "gt_group_id g' = gt_group_id g"
    "r = Inr needed \<Longrightarrow> \<exists>d. gt_mint_decimals g' = Some d \<and> needed = effective_tokens c uid * 10 ^ nat d \<and>
       (gt_mint_decimals g = Some d \<or> gt_mint_decimals g = None \<and> mint_decimals_of (ge_rpc e) (gc_mint c) = Inr d)"
  using assms by (auto simp: threshold_raw_def record_mint_decimals_def concerns_def split: option.splits sum.splits if_splits)

section \<open>What one private message may do\<close>

definition challenge_ok :: "int \<times> Challenge \<Rightarrow> bool" where
  "challenge_ok x \<longleftrightarrow> ct_wallet (ch_message (snd x)) = ch_wallet (snd x)"

text \<open>Only the challenges change, and a new one names its wallet.\<close>

definition tame :: "gate \<Rightarrow> gate \<Rightarrow> bool" where
  "tame g g' \<longleftrightarrow> gt_members g' = gt_members g \<and> gt_invites g' = gt_invites g \<and> gt_approvals g' = gt_approvals g \<and>
     gt_next_approval g' = gt_next_approval g \<and> gt_plan g' = gt_plan g \<and> gt_group_id g' = gt_group_id g \<and>
     (\<forall>x \<in> set (gt_challenges g'). x \<in> set (gt_challenges g) \<or> challenge_ok x)"

lemma tame_refl [simp]: "tame g g" by (simp add: tame_def)

lemma tame_trans [trans]: "tame g g' \<Longrightarrow> tame g' g'' \<Longrightarrow> tame g g''" by (auto simp: tame_def)

lemma tame_enqueue [simp]: "tame g (enqueue dk p h) = tame g h" "tame g (dm u n dk h) = tame g h"
    "tame g (alert_operator c n dk h) = tame g h"
  by (simp_all add: tame_def)

lemma tame_challenge: "get_challenge uid now g = (r, g') \<Longrightarrow> tame g g'"
  using get_challenge_cases [of uid now g r g'] by (auto simp: tame_def)

lemma tame_consume: "tame g h \<Longrightarrow> tame g (consume_challenge uid h)"
  by (auto simp: tame_def consume_challenge_def AList.delete_eq)

lemma tame_threshold: "threshold_raw c e u g = (r, g') \<Longrightarrow> tame g g'"
  using threshold_raw_cases [of c e u g r g'] by (simp add: tame_def concerns_def)

lemma tame_verify: "tame g h \<Longrightarrow> tame g (cmd_verify sg c e uid chat w dk h)"
  using update_pairs by (fastforce simp: cmd_verify_def tame_def put_challenge_def challenge_ok_def build_challenge_def Let_def split: option.split)

lemma tame_status: "tame g (cmd_status c e uid chat dk g)"
  by (auto simp: cmd_status_def split: prod.split option.split dest: tame_challenge)

text \<open>The decimals a threshold is computed with, and what it takes to be admitted.\<close>

definition decimals_at :: "gate_config \<Rightarrow> gate_env \<Rightarrow> gate \<Rightarrow> int \<Rightarrow> bool" where
  "decimals_at c e g d \<longleftrightarrow>
     gt_mint_decimals g = Some d \<or> gt_mint_decimals g = None \<and> mint_decimals_of (ge_rpc e) (gc_mint c) = Inr d"

definition proves_holding :: "signing \<Rightarrow> gate_config \<Rightarrow> gate_env \<Rightarrow> int \<Rightarrow> string \<Rightarrow> string \<Rightarrow> int \<Rightarrow> gate \<Rightarrow> bool" where
  "proves_holding sg c e uid wallet txt balance g \<longleftrightarrow>
     (\<exists>ch d. map_of (gt_challenges g) uid = Some ch \<and> ch_wallet ch = wallet \<and> ge_now e \<le> ch_expires_at ch \<and>
        signature_matches sg (ch_message ch) wallet txt \<and> balance_raw (ge_rpc e) wallet 0 = Inr balance \<and>
        decimals_at c e g d \<and> effective_tokens c (Some uid) * 10 ^ nat d \<le> balance)"

abbreviation seat :: "string \<Rightarrow> int \<Rightarrow> pyfloat \<Rightarrow> Member" where
  "seat wallet balance now \<equiv> \<lparr> me_wallet = wallet, me_verified_at = now, me_status = Seated, me_grace_until = None,
     me_last_checked_at = Some now, me_last_balance_raw = Some balance \<rparr>"

text \<open>Members, invitations and all else after a private message of \<open>uid\<close>.\<close>

definition seats_kept :: "signing \<Rightarrow> gate_config \<Rightarrow> gate_env \<Rightarrow> int \<Rightarrow> string \<Rightarrow> gate \<Rightarrow> gate \<Rightarrow> bool" where
  "seats_kept sg c e uid txt g g' \<longleftrightarrow> gt_members g' = gt_members g \<or>
     (\<exists>w b. proves_holding sg c e uid w txt b g \<and> gt_members g' = AList.update uid (seat w b (ge_now e)) (gt_members g) \<and>
        \<not> list_ex (\<lambda>m. fst m \<noteq> uid \<and> me_wallet (snd m) = w) (gt_members g))"

definition invites_kept :: "gate_config \<Rightarrow> gate_env \<Rightarrow> int \<Rightarrow> gate \<Rightarrow> gate \<Rightarrow> bool" where
  "invites_kept c e uid g g' \<longleftrightarrow> gt_invites g' = gt_invites g \<or>
     (\<exists>gid m. gt_invites g' = gt_invites g @ [(uid, gid, \<lfloor>ge_now e\<rfloor> + gc_invite_ttl_seconds c)] \<and> gt_group_id g = Some gid \<and>
        member uid g' = Some m \<and> me_status m \<noteq> Ejected)"

definition others_kept :: "gate \<Rightarrow> gate \<Rightarrow> bool" where
  "others_kept g g' \<longleftrightarrow> gt_approvals g' = gt_approvals g \<and> gt_next_approval g' = gt_next_approval g \<and> gt_plan g' = gt_plan g \<and>
     (\<forall>x \<in> set (gt_challenges g'). x \<in> set (gt_challenges g) \<or> challenge_ok x)"

definition private_ok :: "signing \<Rightarrow> gate_config \<Rightarrow> gate_env \<Rightarrow> int \<Rightarrow> string \<Rightarrow> gate \<Rightarrow> gate \<Rightarrow> bool" where
  "private_ok sg c e uid txt g g' \<longleftrightarrow> seats_kept sg c e uid txt g g' \<and> invites_kept c e uid g g' \<and> others_kept g g'"

lemma private_ok_tame: "tame g g' \<Longrightarrow> private_ok sg c e uid txt g g'"
  by (simp add: private_ok_def seats_kept_def invites_kept_def others_kept_def tame_def)

lemma grant_invite_cases:
  fixes c e uid chat dk g
  defines "g' \<equiv> grant_invite c e uid chat dk g"
  shows "gt_members g' = gt_members g" "others_kept g g'"
    "gt_invites g' = gt_invites g \<or>
       (\<exists>gid. gt_group_id g = Some gid \<and> gt_invites g' = gt_invites g @ [(uid, gid, \<lfloor>ge_now e\<rfloor> + gc_invite_ttl_seconds c)])"
  unfolding g'_def by (auto simp: grant_invite_def others_kept_def Let_def split: option.split json.split)

lemma cmd_invite_ok: "private_ok sg c e uid txt g (cmd_invite c e uid chat dk g)"
proof (cases "member uid g")
  case None
  then show ?thesis by (simp add: cmd_invite_def private_ok_tame)
next
  case (Some m)
  show ?thesis
  proof (cases "me_status m = Ejected")
    case True
    then show ?thesis using Some by (simp add: cmd_invite_def private_ok_tame)
  next
    case False
    then have "cmd_invite c e uid chat dk g = grant_invite c e uid chat dk g" using Some by (simp add: cmd_invite_def)
    moreover have "member uid (grant_invite c e uid chat dk g) = Some m" using Some by (simp add: member_def grant_invite_cases)
    ultimately show ?thesis
      using False grant_invite_cases [where c=c and e=e and uid=uid and chat=chat and dk=dk and g=g] by (auto simp: private_ok_def seats_kept_def invites_kept_def)
  qed
qed

lemma admit_ok:
  assumes ch: "map_of (gt_challenges g) uid = Some ch" "ge_now e \<le> ch_expires_at ch"
      "signature_matches sg (ch_message ch) (ch_wallet ch) txt"
    and run: "admit c e uid chat (ch_wallet ch) dk g = (r, g')"
  shows "private_ok sg c e uid txt g g'"
proof -
  obtain r1 g1 where t: "threshold_raw c e (Some uid) g = (r1, g1)" by fastforce
  note tame1 = tame_threshold [OF t]
  show ?thesis
  proof (cases "\<exists>needed balance. r1 = Inr needed \<and> balance_raw (ge_rpc e) (ch_wallet ch) 0 = Inr balance \<and> needed \<le> balance")
    case False
    then have "tame g g'"
      using run t tame1 tame_consume [OF tame1]
      by (auto simp: admit_def measure_wallet_def Let_def split: sum.splits if_splits)
    then show ?thesis by (rule private_ok_tame)
  next
    case True
    then obtain needed balance where b: "r1 = Inr needed" "balance_raw (ge_rpc e) (ch_wallet ch) 0 = Inr balance" "needed \<le> balance"
      by blast
    obtain d where d: "needed = effective_tokens c (Some uid) * 10 ^ nat d" "decimals_at c e g d"
      using threshold_raw_cases(3) [OF t b(1)] by (auto simp: decimals_at_def)
    let ?g2 = "consume_challenge uid g1"
    have g2: "tame g ?g2" by (rule tame_consume [OF tame1])
    show ?thesis
    proof (cases "list_ex (\<lambda>m. fst m \<noteq> uid \<and> me_wallet (snd m) = ch_wallet ch) (gt_members ?g2)")
      case True
      then have "g' = ?g2"
        using run t b by (auto simp: admit_def measure_wallet_def Let_def record_verification_def)
      then show ?thesis using private_ok_tame [OF g2] by simp
    next
      case False
      let ?g3 = "?g2\<lparr>gt_members := AList.update uid (seat (ch_wallet ch) balance (ge_now e)) (gt_members ?g2)\<rparr>"
      let ?g4 = "dm chat (Verified balance (known_decimals ?g2)) dk ?g3"
      have g': "g' = grant_invite c e uid chat (dk @ '':invite'') ?g4"
        using run t b False by (simp add: admit_def measure_wallet_def Let_def record_verification_def)
      have "proves_holding sg c e uid (ch_wallet ch) txt balance g"
        using ch b d unfolding proves_holding_def by blast
      moreover have m: "gt_members g' = AList.update uid (seat (ch_wallet ch) balance (ge_now e)) (gt_members g)"
        using g2 by (simp add: g' grant_invite_cases tame_def)
      ultimately have "seats_kept sg c e uid txt g g'" using False g2 by (auto simp: seats_kept_def tame_def)
      moreover have "member uid g' = Some (seat (ch_wallet ch) balance (ge_now e))" by (simp add: member_def m)
      then have "invites_kept c e uid g g'"
        using grant_invite_cases(3) [where c=c and e=e and uid=uid and chat=chat and dk="dk @ '':invite''" and g="?g4"] g2 unfolding g' [symmetric]
        by (auto simp: invites_kept_def tame_def)
      moreover have "others_kept g g'"
        using grant_invite_cases(2) [where c=c and e=e and uid=uid and chat=chat and dk="dk @ '':invite''" and g="?g4"] g2 unfolding g' [symmetric]
        by (auto simp: others_kept_def tame_def)
      ultimately show ?thesis by (simp add: private_ok_def)
    qed
  qed
qed

lemma handle_signature_ok:
  assumes "handle_signature sg c e uid chat txt dk g = (r, g')"
  shows "private_ok sg c e uid txt g g'"
proof -
  obtain q h where q: "get_challenge uid (ge_now e) g = (q, h)" by fastforce
  have h: "tame g h" by (rule tame_challenge [OF q])
  show ?thesis
  proof (cases q)
    case None
    then have "tame g g'" using assms q h by (auto simp: handle_signature_def Let_def intro: tame_verify split: option.splits)
    then show ?thesis by (rule private_ok_tame)
  next
    case (Some ch)
    have live: "map_of (gt_challenges g) uid = Some ch" "ge_now e \<le> ch_expires_at ch" "h = g"
      using get_challenge_cases(9) [OF q Some] by auto
    show ?thesis
    proof (cases "parse_signature sg txt \<noteq> None \<and> signature_matches sg (ch_message ch) (ch_wallet ch) txt \<and>
        \<not> claimed_by_other (ch_wallet ch) uid g")
      case True
      then have "admit c e uid chat (ch_wallet ch) dk g = (r, g')"
        using assms q Some live(3) by (auto simp: handle_signature_def Let_def split: if_splits)
      then show ?thesis using admit_ok [of g uid ch e sg "txt"] live True by blast
    next
      case False
      then have "tame g g'"
        using assms q Some live(3) tame_consume [OF tame_refl, of g uid]
        by (auto simp: handle_signature_def Let_def split: if_splits)
      then show ?thesis by (rule private_ok_tame)
    qed
  qed
qed

lemma private_command_ok:
  assumes "private_command sg c e uid chat txt dk g = (r, g')"
  shows "private_ok sg c e uid txt g g'"
proof (cases "command_of txt = ''/invite''")
  case True
  then show ?thesis using assms cmd_invite_ok [of sg c e uid "txt"] by (auto simp: private_command_def Let_def)
next
  case False
  then consider (signature) "handle_signature sg c e uid chat txt dk g = (r, g')" | (quiet) "tame g g'"
    using assms tame_verify [OF tame_refl] tame_status
    by (auto simp: private_command_def Let_def split: if_splits prod.splits)
  then show ?thesis by cases (auto intro: handle_signature_ok private_ok_tame)
qed

section \<open>What one update may do\<close>

text \<open>The update is a recent private message of the human \<open>uid\<close> with this text.\<close>

definition private_text :: "gate_config \<Rightarrow> gate_env \<Rightarrow> obj \<Rightarrow> int \<Rightarrow> string \<Rightarrow> bool" where
  "private_text c e update uid txt \<longleftrightarrow>
     (\<exists>m msg chat sender. map_of update ''message'' = Some m \<and> obj_of m = Some msg \<and> obj_of (jget ''chat'' msg) = Some chat \<and>
        jget ''type'' chat = JStr ''private'' \<and> obj_of (jget ''from'' msg) = Some sender \<and> jget ''id'' sender = JInt uid \<and>
        jget ''text'' msg = JStr txt \<and> fresh_human c e msg)"

text \<open>The update is the operator's press of a button with this decision on this approval.\<close>

definition operator_pressed :: "gate_config \<Rightarrow> obj \<Rightarrow> string \<Rightarrow> int \<Rightarrow> bool" where
  "operator_pressed c update decision i \<longleftrightarrow>
     (\<exists>raw m sender. map_of update ''callback_query'' = Some raw \<and> obj_of raw = Some m \<and>
        obj_of (jget ''from'' m) = Some sender \<and> equals_int (jget ''id'' sender) (gc_operator_chat_id c) \<and>
        callback_data (jget ''data'' m) = Some (decision, i))"

definition decided_by_press :: "gate_config \<Rightarrow> gate_env \<Rightarrow> obj \<Rightarrow> gate \<Rightarrow> gate \<Rightarrow> bool" where
  "decided_by_press c e update g g' \<longleftrightarrow>
     (\<exists>decision i. operator_pressed c update decision i \<and>
        concerns g' = concerns (snd (decide_approval i decision (int_text (gc_operator_chat_id c)) (ge_now e) g)))"

lemma group_message_concerns [simp]: "concerns (group_message c e i m chat g) = concerns g"
  by (simp add: group_message_def split: json.split option.split bool.split)

lemma private_ok_concerns: "concerns h = concerns g' \<Longrightarrow> private_ok sg c e uid txt g h = private_ok sg c e uid txt g g'"
  by (simp add: private_ok_def seats_kept_def invites_kept_def others_kept_def concerns_def member_def)

lemma gate_message_cases:
  assumes "gate_message sg c e i m g = (r, g')" "map_of update ''message'' = Some m"
  shows "concerns g' = concerns g \<or> (\<exists>uid txt. private_text c e update uid txt \<and> private_ok sg c e uid txt g g')"
  using assms unfolding gate_message_def private_message_def private_text_def
  by (auto split: option.splits json.splits if_splits dest!: private_command_ok)

lemma gate_callback_cases:
  assumes "map_of update ''callback_query'' = Some raw"
  shows "concerns (gate_callback c e i raw g) = concerns g \<or> decided_by_press c e update g (gate_callback c e i raw g)"
  using assms unfolding gate_callback_def decided_by_press_def operator_pressed_def
  by (auto split: option.splits json.splits if_splits prod.splits)

lemma process_update_cases:
  "concerns (process_update sg c e update g) = concerns g \<or>
   (\<exists>uid txt. private_text c e update uid txt \<and> private_ok sg c e uid txt g (process_update sg c e update g)) \<or>
   decided_by_press c e update g (process_update sg c e update g)"
proof (cases "jget ''update_id'' update")
  case (JInt i)
  define h where "h = (case map_of update ''message'' of
       Some message \<Rightarrow> snd (gate_message sg c e i message g)
     | None \<Rightarrow> (case map_of update ''callback_query'' of Some raw \<Rightarrow> gate_callback c e i raw g | None \<Rightarrow> g))"
  have "process_update sg c e update g = g \<or> process_update sg c e update g = advance_cursor i h"
    unfolding h_def using JInt by (auto simp: process_update_def Let_def)
  moreover have "concerns h = concerns g \<or> (\<exists>uid txt. private_text c e update uid txt \<and> private_ok sg c e uid txt g h) \<or>
      decided_by_press c e update g h"
  proof (cases "map_of update ''message''")
    case None
    then show ?thesis
      by (cases "map_of update ''callback_query''") (auto simp: h_def dest: gate_callback_cases)
  next
    case (Some m)
    then show ?thesis
      using gate_message_cases [of sg c e i m g _ _ update] by (cases "gate_message sg c e i m g") (auto simp: h_def)
  qed
  moreover have "concerns (advance_cursor i h) = concerns h" by simp
  ultimately show ?thesis using private_ok_concerns unfolding decided_by_press_def by metis
qed (simp_all add: process_update_def)

section \<open>What the sweep may do to a member\<close>

definition short_of :: "gate_config \<Rightarrow> gate_env \<Rightarrow> gate \<Rightarrow> int \<Rightarrow> string \<Rightarrow> bool" where
  "short_of c e g uid wallet \<longleftrightarrow>
     (\<exists>b d. balance_with_retry (ge_rpc e) wallet = Inr b \<and> decimals_at c e g d \<and> b < effective_tokens c (Some uid) * 10 ^ nat d)"

definition grace_end :: "gate_config \<Rightarrow> gate_env \<Rightarrow> pyfloat" where
  "grace_end c e = fadd (ge_now e) (of_int (gc_grace_hours c * 3600))"

definition warned :: "gate_config \<Rightarrow> gate_env \<Rightarrow> Member \<Rightarrow> Member \<Rightarrow> bool" where
  "warned c e m m' \<longleftrightarrow> me_status m = Seated \<and> me_status m' = Grace \<and> me_grace_until m' = Some (grace_end c e)"

definition removed :: "gate_env \<Rightarrow> Member \<Rightarrow> Member \<Rightarrow> bool" where
  "removed e m m' \<longleftrightarrow> me_status m = Grace \<and> me_status m' = Ejected \<and> (\<forall>t. me_grace_until m = Some t \<longrightarrow> t \<le> ge_now e)"

definition swept :: "gate_config \<Rightarrow> gate_env \<Rightarrow> gate \<Rightarrow> int \<Rightarrow> Member \<Rightarrow> Member \<Rightarrow> bool" where
  "swept c e g uid m m' \<longleftrightarrow> me_wallet m' = me_wallet m \<and>
     (me_status m' = me_status m \<and> me_grace_until m' = me_grace_until m \<or> me_status m' = Seated \<or>
      (warned c e m m' \<or> removed e m m') \<and> short_of c e g uid (me_wallet m))"

lemma swept_refl [simp]: "swept c e g uid m m" by (simp add: swept_def)

text \<open>What a tick leaves alone; of the plan, at most the end.\<close>

definition tick_frame :: "gate \<Rightarrow> gate \<Rightarrow> bool" where
  "tick_frame g g' \<longleftrightarrow> gt_challenges g' = gt_challenges g \<and> gt_invites g' = gt_invites g \<and> gt_approvals g' = gt_approvals g \<and>
     gt_next_approval g' = gt_next_approval g \<and> (gt_mint_decimals g \<noteq> None \<longrightarrow> gt_mint_decimals g' = gt_mint_decimals g) \<and>
     (gt_plan g' = None \<or> map_option sp_pending (gt_plan g') = map_option sp_pending (gt_plan g))"

lemma tick_frame_refl [simp]: "tick_frame g g" by (simp add: tick_frame_def)

lemma tick_frame_trans [trans]: "tick_frame g g' \<Longrightarrow> tick_frame g' g'' \<Longrightarrow> tick_frame g g''"
  by (auto simp: tick_frame_def)

lemma tick_frame_enqueue [simp]: "tick_frame g (enqueue dk p h) = tick_frame g h" "tick_frame g (dm u n dk h) = tick_frame g h"
    "tick_frame g (alert_operator c n dk h) = tick_frame g h"
    "tick_frame g (set_member_status uid s t h) = tick_frame g h" "tick_frame g (record_balance uid b now h) = tick_frame g h"
  by (simp_all add: tick_frame_def set_member_status_def record_balance_def update_member_def)

lemma tick_frame_plan [simp]: "(\<And>p. sp_pending (f p) = sp_pending p) \<Longrightarrow> tick_frame g (update_plan f h) = tick_frame g h"
  by (auto simp: tick_frame_def update_plan_def option.map_comp comp_def)

lemma update_plan_frame [simp]: "gt_members (update_plan f g) = gt_members g" "gt_mint_decimals (update_plan f g) = gt_mint_decimals g"
  by (simp_all add: update_plan_def)

definition moved :: "(int \<Rightarrow> Member \<Rightarrow> Member) \<Rightarrow> gate \<Rightarrow> gate \<Rightarrow> bool" where
  "moved F g g' \<longleftrightarrow> gt_members g' = map (\<lambda>x. (fst x, F (fst x) (snd x))) (gt_members g)"

lemma moved_id: "gt_members g' = gt_members g \<Longrightarrow> moved (\<lambda>u m. m) g g'" by (simp add: moved_def)

lemma moved_trans: "moved F g g' \<Longrightarrow> moved F' g' g'' \<Longrightarrow> moved (\<lambda>u m. F' u (F u m)) g g''" by (simp add: moved_def)

lemma moved_member: "moved F g g' \<Longrightarrow> member uid g' = map_option (F uid) (member uid g)"
proof -
  have "map_of (map (\<lambda>x. (fst x, F (fst x) (snd x))) xs) uid = map_option (F uid) (map_of xs uid)" for xs :: "(int \<times> Member) list"
    by (induction xs) auto
  then show "moved F g g' \<Longrightarrow> ?thesis" by (simp add: moved_def member_def)
qed

lemma moved_update_member: "moved (\<lambda>u m. if u = uid then f m else m) g (update_member uid f g)"
  by (auto simp: moved_def update_member_def)

text \<open>The members of \<open>S\<close> are swept, the others stay.\<close>

definition sweeps :: "gate_config \<Rightarrow> gate_env \<Rightarrow> int set \<Rightarrow> gate \<Rightarrow> gate \<Rightarrow> bool" where
  "sweeps c e S g g' \<longleftrightarrow> tick_frame g g' \<and>
     (\<exists>F. moved F g g' \<and> (\<forall>u m. me_wallet (F u m) = me_wallet m) \<and> (\<forall>u m. u \<notin> S \<longrightarrow> F u m = m) \<and>
        (\<forall>u m. member u g = Some m \<longrightarrow> swept c e g u m (F u m)))"

lemma sweeps_idle: "tick_frame g g' \<Longrightarrow> gt_members g' = gt_members g \<Longrightarrow> sweeps c e S g g'"
  unfolding sweeps_def by (auto intro: moved_id)

lemma sweeps_mono: "sweeps c e S g g' \<Longrightarrow> S \<subseteq> S' \<Longrightarrow> sweeps c e S' g g'"
  unfolding sweeps_def by blast

lemma apply_balance_frame: "tick_frame g (apply_balance c e day uid m balance needed g)"
  by (simp add: apply_balance_def eject_def split: option.split)

lemma apply_balance_cases:
  assumes "me_status m \<noteq> Ejected"
  obtains "gt_members (apply_balance c e day uid m balance needed g) = gt_members g"
  | s t where "gt_members (apply_balance c e day uid m balance needed g) = gt_members (set_member_status uid s t g)"
      "\<And>m'. me_wallet m' = me_wallet m \<Longrightarrow> me_status m' = s \<Longrightarrow> me_grace_until m' = t \<Longrightarrow>
         s = Seated \<or> (warned c e m m' \<or> removed e m m') \<and> balance < needed"
proof -
  consider "needed \<le> balance" | "balance < needed" "me_status m = Seated" | "balance < needed" "me_status m = Grace"
    using assms by (cases "needed \<le> balance"; cases "me_status m") auto
  then show thesis
  proof cases
    case 1
    then show ?thesis using that by (cases "me_status m = Grace") (auto simp: apply_balance_def)
  next
    case 2
    then show ?thesis using that(2) [of Grace "Some (grace_end c e)"] by (simp add: apply_balance_def warned_def grace_end_def)
  next
    case 3
    let ?g' = "apply_balance c e day uid m balance needed g"
    have "gt_members ?g' = gt_members g \<or> gt_members ?g' = gt_members (set_member_status uid Ejected None g) \<and>
        (\<forall>t. me_grace_until m = Some t \<longrightarrow> t \<le> ge_now e)"
      using 3 by (auto simp: apply_balance_def eject_def set_member_status_def update_member_def split: option.split)
    then show ?thesis using that(1) that(2) [of Ejected None] 3 by (auto simp: removed_def)
  qed
qed

lemma sweep_skip_sweeps: "sweeps c e S g (sweep_skip c' day reason g)"
  by (rule sweeps_idle) (simp_all add: sweep_skip_def, simp add: tick_frame_def)

lemma sweep_member_sweeps:
  assumes run: "sweep_member c e day uid g = (r, g')" and dec: "gt_mint_decimals g = Some d"
  shows "sweeps c e {uid} g g'"
proof (cases "member uid g")
  case None
  then show ?thesis using run by (simp add: sweep_member_def sweeps_idle)
next
  case (Some m)
  show ?thesis
  proof (cases "me_status m = Ejected")
    case True
    then show ?thesis using run Some by (simp add: sweep_member_def sweeps_idle)
  next
    case False
    show ?thesis
    proof (cases "balance_with_retry (ge_rpc e) (me_wallet m)")
      case (Inl err)
      then show ?thesis using run Some False sweep_skip_sweeps by (auto simp: sweep_member_def)
    next
      case (Inr balance)
      define look where "look = (\<lambda>m :: Member. m\<lparr>me_last_checked_at := Some (ge_now e), me_last_balance_raw := Some balance\<rparr>)"
      define g1 where "g1 = update_plan (\<lambda>p. p\<lparr>sp_checked := sp_checked p + 1\<rparr>) (record_balance uid balance (ge_now e) g)"
      let ?needed = "effective_tokens c (Some uid) * 10 ^ nat d"
      have d1: "gt_mint_decimals g1 = Some d" using dec by (simp add: g1_def record_balance_def update_member_def)
      have g': "g' = apply_balance c e day uid m balance ?needed g1"
        using run Some False Inr d1 by (simp add: sweep_member_def threshold_raw_def g1_def Let_def)
      have frame: "tick_frame g g'"
        using tick_frame_trans [OF _ apply_balance_frame] unfolding g' by (simp add: g1_def)
      have look1: "moved (\<lambda>u m. if u = uid then look m else m) g g1"
        using moved_update_member [of uid look g] by (simp add: g1_def record_balance_def look_def moved_def)
      have low: "short_of c e g uid (me_wallet m)" if "balance < ?needed"
        using that Inr dec by (auto simp: short_of_def decimals_at_def)
      from False show ?thesis
      proof (cases rule: apply_balance_cases [of m c e day uid balance ?needed g1])
        case 1
        then have "moved (\<lambda>u m. if u = uid then look m else m) g g'" using look1 by (simp add: g' moved_def)
        then show ?thesis
          unfolding sweeps_def using frame by (intro conjI exI [of _ "\<lambda>u m. if u = uid then look m else m"]) (auto simp: look_def swept_def)
      next
        case (2 s t)
        let ?F = "\<lambda>u m. if u = uid then (look m)\<lparr>me_status := s, me_grace_until := t\<rparr> else m"
        have "moved ?F g g'"
          using look1 2(1) by (auto simp: g' moved_def set_member_status_def update_member_def)
        moreover have "swept c e g u m0 (?F u m0)" if "member u g = Some m0" for u m0
          using that Some 2(2) [of "?F uid m"] low by (auto simp: swept_def look_def)
        ultimately show ?thesis unfolding sweeps_def using frame by (intro conjI exI [of _ ?F]) (auto simp: look_def)
      qed
    qed
  qed
qed

lemma short_of_later:
  assumes "tick_frame g g'" "gt_mint_decimals g \<noteq> None"
  shows "short_of c e g' uid w = short_of c e g uid w"
  using assms by (auto simp: short_of_def decimals_at_def tick_frame_def)

lemma sweeps_trans:
  assumes a: "sweeps c e S g g'" and b: "sweeps c e S' g' g''" and disj: "S \<inter> S' = {}" and dec: "gt_mint_decimals g \<noteq> None"
  shows "sweeps c e (S \<union> S') g g''"
proof -
  obtain F where F: "moved F g g'" "\<And>u m. me_wallet (F u m) = me_wallet m" "\<And>u m. u \<notin> S \<Longrightarrow> F u m = m"
      "\<And>u m. member u g = Some m \<Longrightarrow> swept c e g u m (F u m)" and frame: "tick_frame g g'"
    using a unfolding sweeps_def by auto
  obtain F' where F': "moved F' g' g''" "\<And>u m. me_wallet (F' u m) = me_wallet m" "\<And>u m. u \<notin> S' \<Longrightarrow> F' u m = m"
      "\<And>u m. member u g' = Some m \<Longrightarrow> swept c e g' u m (F' u m)" and frame': "tick_frame g' g''"
    using b unfolding sweeps_def by auto
  have "swept c e g u m (F' u (F u m))" if m: "member u g = Some m" for u m
  proof (cases "u \<in> S'")
    case True
    then have "F u m = m" using disj F(3) by auto
    moreover have "member u g' = Some m" using moved_member [OF F(1)] m calculation by simp
    ultimately show ?thesis using F'(4) [of u m] short_of_later [OF frame dec] by (simp add: swept_def)
  next
    case False
    then show ?thesis using F'(3) F(4) [OF m] by simp
  qed
  then show ?thesis
    unfolding sweeps_def using moved_trans [OF F(1) F'(1)] tick_frame_trans [OF frame frame'] F(2,3) F'(2,3)
    by (intro conjI exI [of _ "\<lambda>u m. F' u (F u m)"]) auto
qed

lemma sweep_members_sweeps:
  assumes "sweep_members c e day uids g = (r, g')" "gt_mint_decimals g \<noteq> None" "distinct uids"
  shows "sweeps c e (set uids) g g'"
  using assms
proof (induction uids arbitrary: g)
  case Nil
  then show ?case by (simp add: sweeps_idle)
next
  case (Cons uid uids)
  obtain r1 g1 where one: "sweep_member c e day uid g = (r1, g1)" by fastforce
  have s1: "sweeps c e {uid} g g1" using sweep_member_sweeps [OF one] Cons.prems(2) by auto
  have d1: "gt_mint_decimals g1 \<noteq> None" using s1 Cons.prems(2) by (auto simp: sweeps_def tick_frame_def)
  show ?case
  proof (cases "r1 = Inr True")
    case True
    then have "sweeps c e (set uids) g1 g'" using Cons one d1 by simp
    from sweeps_trans [OF s1 this] show ?thesis using Cons.prems by simp
  next
    case False
    then have "g' = g1" using Cons.prems(1) one by (auto split: sum.splits bool.splits)
    then show ?thesis using sweeps_mono [OF s1] by simp
  qed
qed

text \<open>A whole tick: each member is swept at most once.\<close>

definition rest_of :: "gate \<Rightarrow> (int \<times> Challenge) list \<times> (int \<times> int \<times> int) list \<times> ApprovalRequest list \<times> int" where
  "rest_of g = (gt_challenges g, gt_invites g, gt_approvals g, gt_next_approval g)"

definition plan_ok :: "gate \<Rightarrow> bool" where
  "plan_ok g \<longleftrightarrow> (case gt_plan g of None \<Rightarrow> True | Some p \<Rightarrow> distinct (sp_pending p))"

definition ticked :: "gate_config \<Rightarrow> gate_env \<Rightarrow> gate \<Rightarrow> gate \<Rightarrow> bool" where
  "ticked c e g g' \<longleftrightarrow> rest_of g' = rest_of g \<and> plan_ok g' \<and>
     (\<exists>F. moved F g g' \<and> (\<forall>u m. me_wallet (F u m) = me_wallet m) \<and>
        (\<forall>u m. member u g = Some m \<longrightarrow> swept c e g u m (F u m)))"

lemma ticked_idle: "concerns g' = concerns (g\<lparr>gt_plan := gt_plan g'\<rparr>) \<Longrightarrow> plan_ok g' \<Longrightarrow> ticked c e g g'"
  by (auto simp: ticked_def concerns_def rest_of_def intro!: exI [of _ "\<lambda>u m. m"] moved_id)

lemma sweep_skip_ticked: "ticked c e g (sweep_skip c' day reason g)"
  by (rule ticked_idle) (simp_all add: sweep_skip_def plan_ok_def alert_operator_def dm_def concerns_def)

lemma sweep_finish_ticked: "ticked c e g (sweep_finish g)"
  by (rule ticked_idle) (simp_all add: sweep_finish_def plan_ok_def concerns_def split: option.split)

lemma ticked_cong: "concerns g1 = concerns g \<Longrightarrow> gt_mint_decimals g1 = gt_mint_decimals g \<Longrightarrow> ticked c e g1 g' = ticked c e g g'"
  by (simp add: ticked_def concerns_def rest_of_def moved_def member_def swept_def short_of_def decimals_at_def)

lemma run_batch_ticked:
  assumes run: "run_batch c e plan g = (r, g')" and plan: "gt_plan g = Some plan" "distinct (sp_pending plan)"
  shows "ticked c e g g'"
proof -
  obtain r1 g1 where t: "threshold_raw c e None g = (r1, g1)" by fastforce
  have c1: "concerns g1 = concerns g" using threshold_raw_cases [OF t] by blast
  show ?thesis
  proof (cases r1)
    case (Inl err)
    then have g1: "g1 = g" using t by (auto simp: threshold_raw_def split: option.splits sum.splits)
    have "plan_ok g" using plan by (simp add: plan_ok_def)
    then have "ticked c e g g" by (intro ticked_idle) (simp_all add: concerns_def)
    then show ?thesis using run t Inl g1 sweep_skip_ticked [of c e g c] by (auto simp: run_batch_def split: if_splits)
  next
    case (Inr needed)
    let ?n = "nat (gc_sweep_batch_size c)"
    let ?g2 = "update_plan (\<lambda>p. p\<lparr>sp_pending := drop ?n (sp_pending p)\<rparr>) g1"
    obtain d where d: "gt_mint_decimals g1 = Some d" "decimals_at c e g d"
      using threshold_raw_cases(3) [OF t Inr] by (auto simp: decimals_at_def)
    obtain r3 g3 where b: "sweep_members c e (sp_day plan) (take ?n (sp_pending plan)) ?g2 = (r3, g3)" by fastforce
    have s: "sweeps c e (set (take ?n (sp_pending plan))) ?g2 g3"
      using sweep_members_sweeps [OF b] d plan by simp
    then obtain F where F: "moved F ?g2 g3" "\<forall>u m. me_wallet (F u m) = me_wallet m"
        "\<forall>u m. member u ?g2 = Some m \<longrightarrow> swept c e ?g2 u m (F u m)" and frame: "tick_frame ?g2 g3"
      unfolding sweeps_def by auto
    have g': "gt_members g' = gt_members g3 \<and> rest_of g' = rest_of g3 \<and>
        (gt_plan g' = None \<or> map_option sp_pending (gt_plan g') = map_option sp_pending (gt_plan g3))"
      using run t Inr b
      by (auto simp: run_batch_def rest_of_def sweep_finish_def update_plan_def Let_def split: sum.splits bool.splits option.splits if_splits)
    have "map_option sp_pending (gt_plan ?g2) = Some (drop ?n (sp_pending plan))"
      using c1 plan by (simp add: update_plan_def concerns_def)
    then have "plan_ok g'"
      using frame g' plan by (cases "gt_plan g'") (auto simp: tick_frame_def plan_ok_def)
    moreover have "rest_of g' = rest_of g" using g' frame c1 by (simp add: rest_of_def tick_frame_def concerns_def update_plan_def)
    moreover have m2: "member u ?g2 = member u g" for u using c1 by (simp add: member_def concerns_def)
    moreover have "moved F g g'" using F(1) c1 g' by (simp add: moved_def concerns_def)
    moreover have "swept c e g u m m'" if "swept c e ?g2 u m m'" for u m m'
      using that d unfolding swept_def short_of_def decimals_at_def by auto
    ultimately show ?thesis using F(2,3) unfolding ticked_def by auto
  qed
qed

lemma sweep_tick_ticked:
  assumes "plan_ok g" "distinct (map fst (gt_members g))"
  shows "ticked c e g (snd (sweep_tick c e g))"
proof -
  have idle: "ticked c e g g" using assms(1) by (intro ticked_idle) (simp_all add: concerns_def)
  show ?thesis
  proof (cases "gt_plan g")
    case (Some plan)
    then show ?thesis
      using idle assms(1) run_batch_ticked [of c e plan g] by (cases "run_batch c e plan g") (auto simp: sweep_tick_def plan_ok_def)
  next
    case None
    let ?uids = "sort (map fst (filter (\<lambda>m. me_status (snd m) \<noteq> Ejected) (gt_members g)))"
    let ?plan = "\<lparr> sp_day = utc_day (ge_now e), sp_pending = ?uids, sp_next_batch_at = 0, sp_checked = 0,
        sp_warned = 0, sp_ejected = 0, sp_restored = 0 \<rparr>"
    let ?g1 = "g\<lparr>gt_plan := Some ?plan\<rparr>"
    have d: "distinct ?uids" using assms(2) by (simp add: distinct_map_filter)
    have same: "ticked c e ?g1 h \<Longrightarrow> ticked c e g h" for h
      by (simp add: ticked_def rest_of_def moved_def member_def swept_def short_of_def decimals_at_def)
    have batch: "ticked c e ?g1 (snd (run_batch c e ?plan ?g1))"
      using run_batch_ticked [of c e ?plan ?g1] d by (cases "run_batch c e ?plan ?g1") auto
    have planned: "ticked c e ?g1 ?g1" using d by (intro ticked_idle) (simp_all add: concerns_def plan_ok_def)
    have "snd (sweep_tick c e g) = (if \<not> sweep_due c (ge_now e) g then g else if ?uids = [] then sweep_finish ?g1
        else if ge_now e < 0 then ?g1 else snd (run_batch c e ?plan ?g1))"
      unfolding sweep_tick_def Let_def None by (simp only: option.case if_distrib [of snd] snd_conv)
    then show ?thesis
      using idle same [OF batch] same [OF planned] same [OF sweep_finish_ticked] by (simp only: split: if_split) blast
  qed
qed

section \<open>What one step may do\<close>

text \<open>Of an approval: its number, what was asked, its decision.\<close>

definition akeys :: "gate \<Rightarrow> (int \<times> obj \<times> (pyfloat \<times> string \<times> string) option) list" where
  "akeys g = map (\<lambda>a. (ar_id a, ar_payload a, ar_decision a)) (gt_approvals g)"

lemma akeys_frame [simp]: "akeys (enqueue dk p g) = akeys g" "akeys (g\<lparr>gt_dropped := ds\<rparr>) = akeys g"
    "akeys (g\<lparr>gt_plan := pl\<rparr>) = akeys g"
  by (simp_all add: akeys_def)

lemma akeys_concerns: "concerns g' = concerns g \<Longrightarrow> akeys g' = akeys g" by (simp add: concerns_def akeys_def)

lemma akeys_mark_presented [simp]: "akeys (mark_presented i now g) = akeys g"
  by (simp add: akeys_def mark_presented_def comp_def)

definition press_key :: "int \<Rightarrow> pyfloat \<times> string \<times> string \<Rightarrow> int \<times> obj \<times> (pyfloat \<times> string \<times> string) option \<Rightarrow>
    int \<times> obj \<times> (pyfloat \<times> string \<times> string) option" where
  "press_key i d k = (case k of (j, p, q) \<Rightarrow> (j, p, if j = i \<and> q = None then Some d else q))"

lemma akeys_decide: "akeys (snd (decide_approval i decision who now g)) = map (press_key i (now, decision, who)) (akeys g)"
  by (simp add: akeys_def decide_approval_def press_key_def comp_def)

definition quiet :: "gate_step \<Rightarrow> gate \<Rightarrow> gate \<Rightarrow> bool" where
  "quiet x g g' \<longleftrightarrow> gt_members g' = gt_members g \<and> gt_challenges g' = gt_challenges g \<and> gt_invites g' = gt_invites g \<and>
     (gt_plan g' = gt_plan g \<or> gt_plan g' = None) \<and>
     (akeys g' = akeys g \<and> gt_next_approval g' = gt_next_approval g \<or>
      (\<exists>src kind summary p now. x = Request src kind summary p now \<and> akeys g' = akeys g @ [(gt_next_approval g, p, None)] \<and>
         gt_next_approval g' = gt_next_approval g + 1))"

lemma quiet_concerns: "concerns g' = concerns g \<Longrightarrow> quiet x g g'"
  by (simp add: quiet_def akeys_def concerns_def)

lemma delivered_concerns [simp]: "concerns (delivered i g) = concerns g" "concerns (delivery_failed i n now g) = concerns g"
    "concerns (g\<lparr>gt_dropped := ds\<rparr>) = concerns g"
  by (simp_all add: delivered_def delivery_failed_def concerns_def)

lemma flush_items_concerns [simp]: "concerns (flush_items now post qs g) = concerns g"
  by (induction now post qs g rule: flush_items.induct) (simp_all split: delivery.split option.split)

lemma alert_drops_concerns: "concerns (alert_drops c clock g) = concerns g"
proof -
  have "concerns (alert_drop c clock d h) = concerns h" for d h
    by (cases d) (simp add: alert_drop_def split: payload.split)
  then have "concerns (fold (alert_drop c clock) ds h) = concerns h" for ds h
    by (induction ds arbitrary: h) simp_all
  then show ?thesis by (simp add: alert_drops_def)
qed

lemma daily_heartbeat_concerns: "concerns (daily_heartbeat c e g) = concerns g"
  by (simp add: daily_heartbeat_def Let_def concerns_def)

lemma present_one_quiet:
  "gt_members (present_one c e a g) = gt_members g" "gt_challenges (present_one c e a g) = gt_challenges g"
  "gt_invites (present_one c e a g) = gt_invites g" "gt_plan (present_one c e a g) = gt_plan g"
  "gt_next_approval (present_one c e a g) = gt_next_approval g" "akeys (present_one c e a g) = akeys g"
  by (simp_all add: present_one_def Let_def split: json.split) (simp_all add: mark_presented_def)

lemma present_approvals_quiet: "quiet x g (present_approvals c e g)"
proof -
  have "quiet x g h \<Longrightarrow> quiet x g (fold (present_one c e) as h)" for as h
    by (induction as arbitrary: h) (simp_all add: quiet_def present_one_quiet)
  moreover have "quiet x g g" by (simp add: quiet_concerns)
  ultimately show ?thesis by (simp add: present_approvals_def)
qed

lemma gate_do_cases:
  assumes "plan_ok g" "distinct (map fst (gt_members g))"
  obtains (told) c e update uid said where "x = Update c e update" "private_text c e update uid said"
      "private_ok sg c e uid said g (gate_do sg x g)"
  | (pressed) c e update where "x = Update c e update" "decided_by_press c e update g (gate_do sg x g)"
  | (tick) c e where "x = Tick c e" "ticked c e g (gate_do sg x g)"
  | (quiet) "quiet x g (gate_do sg x g)"
proof (cases x)
  case (Update c e update)
  then show ?thesis using told pressed quiet process_update_cases [of sg c e update g] by (auto simp: gate_do_def quiet_concerns)
next
  case (Tick c e)
  then show ?thesis using tick sweep_tick_ticked [OF assms] by (simp add: gate_do_def)
next
  case (Request src kind summary p now)
  have "quiet x g (gate_do sg x g)" by (simp add: Request gate_do_def enqueue_approval_def quiet_def akeys_def)
  then show ?thesis by (rule quiet)
next
  case Restart
  have "quiet x g (gate_do sg x g)" by (simp add: Restart gate_do_def quiet_def akeys_def)
  then show ?thesis by (rule quiet)
qed (use quiet in \<open>simp_all add: gate_do_def flush_outbox_def quiet_concerns [OF flush_items_concerns]
  quiet_concerns [OF alert_drops_concerns] quiet_concerns [OF daily_heartbeat_concerns] present_approvals_quiet\<close>)

section \<open>What every history keeps\<close>

text \<open>
  One row per user and per wallet, a deadline for whoever is in grace, challenges that name
  their wallet, a plan that has nobody twice, approvals numbered apart.
\<close>

definition members_ok :: "gate \<Rightarrow> bool" where
  "members_ok g \<longleftrightarrow> distinct (map fst (gt_members g)) \<and>
     (\<forall>x \<in> set (gt_members g). \<forall>y \<in> set (gt_members g). me_wallet (snd x) = me_wallet (snd y) \<longrightarrow> fst x = fst y) \<and>
     (\<forall>x \<in> set (gt_members g). me_status (snd x) = Grace \<longrightarrow> me_grace_until (snd x) \<noteq> None)"

definition approvals_ok :: "gate \<Rightarrow> bool" where
  "approvals_ok g \<longleftrightarrow> distinct (map fst (akeys g)) \<and> (\<forall>k \<in> set (akeys g). fst k < gt_next_approval g)"

definition gate_ok :: "gate \<Rightarrow> bool" where
  "gate_ok g \<longleftrightarrow> members_ok g \<and> (\<forall>x \<in> set (gt_challenges g). challenge_ok x) \<and> plan_ok g \<and> approvals_ok g"

lemma set_update_distinct: "distinct (map fst xs) \<Longrightarrow> set (AList.update k v xs) \<subseteq> insert (k, v) {x \<in> set xs. fst x \<noteq> k}"
  by (induction xs) (auto simp: image_iff)

lemma members_ok_cong: "gt_members g' = gt_members g \<Longrightarrow> members_ok g' = members_ok g"
  by (simp only: members_ok_def)

lemma members_ok_private:
  assumes ok: "members_ok g" and p: "seats_kept sg c e uid said g g'"
  shows "members_ok g'"
proof (cases "gt_members g' = gt_members g")
  case True
  then show ?thesis using ok members_ok_cong by blast
next
  case False
  then obtain w b where new: "gt_members g' = AList.update uid (seat w b (ge_now e)) (gt_members g)"
      "\<forall>x \<in> set (gt_members g). fst x \<noteq> uid \<longrightarrow> me_wallet (snd x) \<noteq> w"
    using p unfolding seats_kept_def list_ex_iff by blast
  have d: "distinct (map fst (gt_members g))" using ok by (simp add: members_ok_def)
  have uniq: "\<And>x y. x \<in> set (gt_members g) \<Longrightarrow> y \<in> set (gt_members g) \<Longrightarrow> me_wallet (snd x) = me_wallet (snd y) \<Longrightarrow> fst x = fst y"
    and grace: "\<And>x. x \<in> set (gt_members g) \<Longrightarrow> me_status (snd x) = Grace \<Longrightarrow> me_grace_until (snd x) \<noteq> None"
    using ok unfolding members_ok_def by blast+
  have elem: "x = (uid, seat w b (ge_now e)) \<or> x \<in> set (gt_members g) \<and> fst x \<noteq> uid" if "x \<in> set (gt_members g')" for x
    using that set_update_distinct [OF d] unfolding new(1) by blast
  have "distinct (map fst (gt_members g'))" unfolding new(1) using d by (rule distinct_update)
  moreover have "fst x = fst y" if "x \<in> set (gt_members g')" "y \<in> set (gt_members g')" "me_wallet (snd x) = me_wallet (snd y)" for x y
    using elem [OF that(1)] elem [OF that(2)]
  proof (elim disjE conjE)
    assume "x \<in> set (gt_members g)" "y \<in> set (gt_members g)"
    then show ?thesis using uniq that(3) by blast
  qed (use new(2) that(3) in auto)
  moreover have "me_grace_until (snd x) \<noteq> None" if "x \<in> set (gt_members g')" "me_status (snd x) = Grace" for x
    using elem [OF that(1)]
  proof (elim disjE conjE)
    assume "x \<in> set (gt_members g)"
    then show ?thesis using grace that(2) by blast
  qed (use that(2) in simp)
  ultimately show ?thesis unfolding members_ok_def by blast
qed

lemma members_ok_ticked:
  assumes ok: "members_ok g" and t: "ticked c e g g'"
  shows "members_ok g'"
proof -
  obtain F where F: "gt_members g' = map (\<lambda>x. (fst x, F (fst x) (snd x))) (gt_members g)"
      "\<And>u m. me_wallet (F u m) = me_wallet m" "\<And>u m. member u g = Some m \<Longrightarrow> swept c e g u m (F u m)"
    using t unfolding ticked_def moved_def by auto
  have d: "distinct (map fst (gt_members g))" using ok by (simp add: members_ok_def)
  have "me_grace_until (F u m) \<noteq> None" if "(u, m) \<in> set (gt_members g)" "me_status (F u m) = Grace" for u m
  proof -
    have "swept c e g u m (F u m)" using F(3) that(1) d by (simp add: member_def)
    moreover have "me_status m = Grace \<longrightarrow> me_grace_until m \<noteq> None" using that(1) ok by (auto simp: members_ok_def)
    ultimately show ?thesis using that(2) unfolding swept_def warned_def removed_def by auto
  qed
  then have "me_grace_until (snd x) \<noteq> None" if "x \<in> set (gt_members g')" "me_status (snd x) = Grace" for x
    using that unfolding F(1) by fastforce
  moreover have "distinct (map fst (gt_members g'))" using d by (simp add: F(1) comp_def)
  moreover have "fst x = fst y" if "x \<in> set (gt_members g')" "y \<in> set (gt_members g')" "me_wallet (snd x) = me_wallet (snd y)" for x y
  proof -
    note xy = that
    obtain x0 y0 where z: "x0 \<in> set (gt_members g)" "y0 \<in> set (gt_members g)" "x = (fst x0, F (fst x0) (snd x0))"
        "y = (fst y0, F (fst y0) (snd y0))" using xy(1,2) unfolding F(1) by auto
    then have "me_wallet (snd x0) = me_wallet (snd y0)" using xy(3) F(2) by simp
    then have "fst x0 = fst y0" using ok z(1,2) unfolding members_ok_def by blast
    then show ?thesis using z(3,4) by (simp only: fst_conv)
  qed
  ultimately show ?thesis unfolding members_ok_def by blast
qed

lemma approvals_ok_press:
  assumes "approvals_ok g" "akeys g' = map (press_key i d) (akeys g)" "gt_next_approval g' = gt_next_approval g"
  shows "approvals_ok g'"
proof -
  have f: "fst (press_key i d k) = fst k" for k by (simp add: press_key_def split: prod.split)
  then have "map fst (map (press_key i d) ks) = map fst ks" for ks by simp
  then show ?thesis using assms f by (simp add: approvals_ok_def del: map_map)
qed

lemma decided_by_press_cases:
  assumes "decided_by_press c e update g g'"
  obtains decision i where "operator_pressed c update decision i"
    "akeys g' = map (press_key i (ge_now e, decision, int_text (gc_operator_chat_id c))) (akeys g)"
    "gt_members g' = gt_members g" "gt_challenges g' = gt_challenges g" "gt_invites g' = gt_invites g"
    "gt_plan g' = gt_plan g" "gt_next_approval g' = gt_next_approval g"
proof -
  obtain decision i where p: "operator_pressed c update decision i"
      "concerns g' = concerns (snd (decide_approval i decision (int_text (gc_operator_chat_id c)) (ge_now e) g))"
    using assms unfolding decided_by_press_def by blast
  show thesis
    using that [OF p(1)] p(2) akeys_concerns [OF p(2)] unfolding akeys_decide by (simp add: concerns_def decide_approval_def)
qed

lemma gate_ok_step:
  assumes ok: "gate_ok g"
  shows "gate_ok (gate_do sg x g)"
proof -
  let ?g' = "gate_do sg x g"
  have pre: "plan_ok g" "distinct (map fst (gt_members g))" using ok by (simp_all add: gate_ok_def members_ok_def)
  from pre show ?thesis
  proof (cases rule: gate_do_cases [of g x sg])
    case (told c e update uid said)
    have "members_ok ?g'" using members_ok_private ok told(3) unfolding gate_ok_def private_ok_def by blast
    moreover have "akeys ?g' = akeys g" "gt_next_approval ?g' = gt_next_approval g" "plan_ok ?g'"
        "\<forall>x \<in> set (gt_challenges ?g'). challenge_ok x"
      using told(3) ok unfolding private_ok_def others_kept_def gate_ok_def by (auto simp: akeys_def plan_ok_def)
    ultimately show ?thesis using ok by (simp add: gate_ok_def approvals_ok_def)
  next
    case (pressed c e update)
    from pressed(2) show ?thesis
    proof (cases rule: decided_by_press_cases)
      case (1 decision i)
      have "approvals_ok g" using ok by (simp add: gate_ok_def)
      then have "approvals_ok ?g'" using 1(2) 1(7) by (rule approvals_ok_press)
      moreover have "members_ok ?g'" using ok members_ok_cong [OF 1(3)] unfolding gate_ok_def by blast
      ultimately show ?thesis using ok 1(4,6) by (simp add: gate_ok_def plan_ok_def)
    qed
  next
    case (tick c e)
    have "members_ok ?g'" using members_ok_ticked tick(2) ok unfolding gate_ok_def by blast
    then show ?thesis
      using tick(2) ok by (auto simp: gate_ok_def ticked_def rest_of_def approvals_ok_def akeys_def)
  next
    case quiet
    then have q: "akeys ?g' = akeys g \<and> gt_next_approval ?g' = gt_next_approval g \<or>
        (\<exists>p. akeys ?g' = akeys g @ [(gt_next_approval g, p, None)] \<and> gt_next_approval ?g' = gt_next_approval g + 1)"
      unfolding quiet_def by blast
    have "approvals_ok g" using ok by (simp add: gate_ok_def)
    then have "approvals_ok ?g'" using q unfolding approvals_ok_def by (elim disjE conjE exE) fastforce+
    moreover have "members_ok ?g'" using quiet ok members_ok_cong unfolding gate_ok_def quiet_def by blast
    moreover have "plan_ok ?g'" using quiet pre(1) by (auto simp: quiet_def plan_ok_def)
    ultimately show ?thesis using quiet ok by (simp add: gate_ok_def quiet_def)
  qed
qed

lemma gate_ok_history: "gate_history sg xs g \<Longrightarrow> gate_ok g"
proof (induction rule: gate_history.induct)
  case start
  show ?case by (simp add: gate_ok_def members_ok_def plan_ok_def approvals_ok_def akeys_def new_gate_def)
qed (rule gate_ok_step)

end
