(* ===== verification/Gate_Origins.thy ===== *)
theory Gate_Origins
  imports Gate_Kept
begin

text \<open>
  Where what the gate holds comes from: the locale \<open>origin\<close>, by which what holds at the end of
  a history goes back to the step that brought it about, interpreted for seats, warnings,
  removals, invitations, requests and decisions; then the properties of the gate.
\<close>

section \<open>Where what the gate holds comes from\<close>

text \<open>
  What a new gate does not hold, and no step brings about but by a cause, goes back to a step
  of the history with that cause, which met a state that did not hold it.
\<close>

locale origin =
  fixes sg :: signing
    and held :: "gate \<Rightarrow> bool"
    and cause :: "gate_step \<Rightarrow> gate \<Rightarrow> bool"
  assumes fresh: "\<not> held new_gate"
    and caused: "gate_ok g \<Longrightarrow> \<not> held g \<Longrightarrow> held (gate_do sg x g) \<Longrightarrow> cause x g"
begin

lemma has_origin:
  assumes "gate_history sg xs g" "held g"
  shows "\<exists>before x after g0. xs = before @ x # after \<and> gate_history sg before g0 \<and> cause x g0"
  using assms
proof (induction rule: gate_history.induct)
  case start
  then show ?case using fresh by blast
next
  case (step xs g x)
  show ?case
  proof (cases "held g")
    case True
    then obtain before y after g0 where "xs = before @ y # after" "gate_history sg before g0" "cause y g0"
      using step.IH by blast
    then show ?thesis by (intro exI [of _ before] exI [of _ y] exI [of _ "after @ [x]"] exI [of _ g0]) simp
  next
    case False
    then show ?thesis using step.hyps caused [OF gate_ok_history] step.prems by blast
  qed
qed

end

definition seated_by :: "signing \<Rightarrow> int \<Rightarrow> string \<Rightarrow> gate_step \<Rightarrow> gate \<Rightarrow> bool" where
  "seated_by sg uid w x g \<longleftrightarrow>
     (\<exists>c e update said b. x = Update c e update \<and> private_text c e update uid said \<and> proves_holding sg c e uid w said b g)"

definition invited_by :: "signing \<Rightarrow> int \<Rightarrow> int \<Rightarrow> int \<Rightarrow> gate_step \<Rightarrow> gate \<Rightarrow> bool" where
  "invited_by sg uid gid until x g \<longleftrightarrow>
     (\<exists>c e update said m. x = Update c e update \<and> private_text c e update uid said \<and> gt_group_id g = Some gid \<and>
        until = \<lfloor>ge_now e\<rfloor> + gc_invite_ttl_seconds c \<and> member uid (gate_do sg x g) = Some m \<and> me_status m \<noteq> Ejected)"

definition warned_by :: "int \<Rightarrow> pyfloat \<Rightarrow> gate_step \<Rightarrow> gate \<Rightarrow> bool" where
  "warned_by uid t x g \<longleftrightarrow>
     (\<exists>c e m. x = Tick c e \<and> member uid g = Some m \<and> me_status m = Seated \<and> short_of c e g uid (me_wallet m) \<and> t = grace_end c e)"

definition removed_by :: "int \<Rightarrow> gate_step \<Rightarrow> gate \<Rightarrow> bool" where
  "removed_by uid x g \<longleftrightarrow>
     (\<exists>c e m t. x = Tick c e \<and> member uid g = Some m \<and> me_status m = Grace \<and> short_of c e g uid (me_wallet m) \<and>
        me_grace_until m = Some t \<and> t \<le> ge_now e)"

definition in_grace :: "int \<Rightarrow> pyfloat \<Rightarrow> gate \<Rightarrow> bool" where
  "in_grace uid t g \<longleftrightarrow> (\<exists>m. member uid g = Some m \<and> me_status m = Grace \<and> me_grace_until m = Some t)"

definition ejected :: "int \<Rightarrow> gate \<Rightarrow> bool" where
  "ejected uid g \<longleftrightarrow> (\<exists>m. member uid g = Some m \<and> me_status m = Ejected)"

definition has_seat :: "int \<Rightarrow> string \<Rightarrow> gate \<Rightarrow> bool" where
  "has_seat uid w g \<longleftrightarrow> (\<exists>m. member uid g = Some m \<and> me_wallet m = w)"

lemma member_update: "gt_members g' = AList.update u s (gt_members g) \<Longrightarrow>
    member uid g' = (if uid = u then Some s else member uid g)"
  by (simp add: member_def update_conv')

lemma member_same: "gt_members g' = gt_members g \<Longrightarrow> member uid g' = member uid g" by (simp add: member_def)

lemma gate_do_members:
  assumes "gate_ok g"
  obtains "member uid (gate_do sg x g) = member uid g"
  | (proven) w b t where "seated_by sg uid w x g" "member uid (gate_do sg x g) = Some (seat w b t)"
  | (swept) c e m m' where "x = Tick c e" "member uid g = Some m" "member uid (gate_do sg x g) = Some m'" "swept c e g uid m m'"
proof -
  let ?g' = "gate_do sg x g"
  have pre: "plan_ok g" "distinct (map fst (gt_members g))" using assms by (simp_all add: gate_ok_def members_ok_def)
  from pre show thesis
  proof (cases rule: gate_do_cases [of g x sg])
    case (told c e update v said)
    then consider "gt_members ?g' = gt_members g" | w b where "proves_holding sg c e v w said b g"
        "gt_members ?g' = AList.update v (seat w b (ge_now e)) (gt_members g)"
      unfolding private_ok_def seats_kept_def by blast
    then show thesis
    proof cases
      case 1
      then show thesis by (intro that(1)) (rule member_same)
    next
      case (2 w b)
      show thesis
      proof (cases "uid = v")
        case True
        then have "seated_by sg uid w x g" using told(1,2) 2(1) unfolding seated_by_def by blast
        moreover have "member uid ?g' = Some (seat w b (ge_now e))" using member_update [OF 2(2)] True by simp
        ultimately show thesis by (rule that(2))
      next
        case False
        then show thesis using member_update [OF 2(2)] by (intro that(1)) simp
      qed
    qed
  next
    case (pressed c e update)
    from pressed(2) have "gt_members ?g' = gt_members g" by (rule decided_by_press_cases)
    then show thesis by (intro that(1)) (rule member_same)
  next
    case (tick c e)
    then obtain F where F: "moved F g ?g'" "\<And>m. member uid g = Some m \<Longrightarrow> swept c e g uid m (F uid m)"
      unfolding ticked_def by blast
    show thesis
    proof (cases "member uid g")
      case None
      then show thesis using moved_member [OF F(1), of uid] by (intro that(1)) simp
    next
      case (Some m)
      then show thesis using that(3) [OF tick(1) Some _ F(2) [OF Some]] moved_member [OF F(1), of uid] by simp
    qed
  next
    case quiet
    then have "gt_members ?g' = gt_members g" by (simp add: quiet_def)
    then show thesis by (intro that(1)) (rule member_same)
  qed
qed

interpretation seats: origin sg "has_seat uid w" "seated_by sg uid w" for sg uid w
proof
  show "\<not> has_seat uid w new_gate" by (simp add: has_seat_def member_def new_gate_def)
next
  fix g x
  assume g: "gate_ok g" and new: "\<not> has_seat uid w g" "has_seat uid w (gate_do sg x g)"
  from g show "seated_by sg uid w x g"
    by (cases rule: gate_do_members [of g uid sg x]) (use new in \<open>auto simp: has_seat_def swept_def\<close>)
qed

interpretation warnings: origin sg "in_grace uid t" "warned_by uid t" for sg uid t
proof
  show "\<not> in_grace uid t new_gate" by (simp add: in_grace_def member_def new_gate_def)
next
  fix g x
  assume g: "gate_ok g" and new: "\<not> in_grace uid t g" "in_grace uid t (gate_do sg x g)"
  from g show "warned_by uid t x g"
    by (cases rule: gate_do_members [of g uid sg x])
      (use new in \<open>auto simp: in_grace_def warned_by_def swept_def warned_def removed_def\<close>)
qed

interpretation removals: origin sg "ejected uid" "removed_by uid" for sg uid
proof
  show "\<not> ejected uid new_gate" by (simp add: ejected_def member_def new_gate_def)
next
  fix g x
  assume g: "gate_ok g" and new: "\<not> ejected uid g" "ejected uid (gate_do sg x g)"
  have deadline: "me_grace_until m \<noteq> None" if "member uid g = Some m" "me_status m = Grace" for m
    using g that map_of_SomeD [of "gt_members g" uid m] unfolding gate_ok_def members_ok_def member_def by fastforce
  from g show "removed_by uid x g"
    by (cases rule: gate_do_members [of g uid sg x])
      (use new deadline in \<open>auto simp: ejected_def removed_by_def swept_def warned_def removed_def\<close>)
qed

interpretation invitations: origin sg "\<lambda>g. (uid, gid, until) \<in> set (gt_invites g)" "invited_by sg uid gid until"
  for sg uid gid until
proof
  show "(uid, gid, until) \<notin> set (gt_invites new_gate)" by (simp add: new_gate_def)
next
  fix g x
  assume g: "gate_ok g" and new: "(uid, gid, until) \<notin> set (gt_invites g)" "(uid, gid, until) \<in> set (gt_invites (gate_do sg x g))"
  have pre: "plan_ok g" "distinct (map fst (gt_members g))" using g by (simp_all add: gate_ok_def members_ok_def)
  from pre show "invited_by sg uid gid until x g"
  proof (cases rule: gate_do_cases [of g x sg])
    case (told c e update v said)
    then show ?thesis using new unfolding private_ok_def invites_kept_def invited_by_def by fastforce
  next
    case (pressed c e update)
    from pressed(2) show ?thesis by (rule decided_by_press_cases) (use new in simp)
  qed (use new in \<open>simp_all add: ticked_def rest_of_def quiet_def\<close>)
qed

lemma gate_do_akeys:
  assumes "gate_ok g"
  obtains "akeys (gate_do sg x g) = akeys g"
  | (asked) src kind summary p now where "x = Request src kind summary p now"
      "akeys (gate_do sg x g) = akeys g @ [(gt_next_approval g, p, None)]"
  | (pressed) c e update decision i where "x = Update c e update" "operator_pressed c update decision i"
      "akeys (gate_do sg x g) = map (press_key i (ge_now e, decision, int_text (gc_operator_chat_id c))) (akeys g)"
proof -
  have pre: "plan_ok g" "distinct (map fst (gt_members g))" using assms by (simp_all add: gate_ok_def members_ok_def)
  from pre show thesis
  proof (cases rule: gate_do_cases [of g x sg])
    case (told c e update v said)
    then show thesis by (intro that(1)) (simp add: private_ok_def others_kept_def akeys_def)
  next
    case (pressed c e update)
    from pressed(2) show thesis by (rule decided_by_press_cases) (rule that(3) [OF pressed(1)])
  next
    case (tick c e)
    then show thesis by (intro that(1)) (simp add: ticked_def rest_of_def akeys_def)
  next
    case quiet
    then show thesis using that(1,2) unfolding quiet_def by blast
  qed
qed

definition asked_by :: "int \<Rightarrow> obj \<Rightarrow> gate_step \<Rightarrow> gate \<Rightarrow> bool" where
  "asked_by i p x g \<longleftrightarrow> gt_next_approval g = i \<and> (\<exists>src kind summary now. x = Request src kind summary p now)"

definition decided_by :: "int \<Rightarrow> obj \<Rightarrow> string \<Rightarrow> gate_step \<Rightarrow> gate \<Rightarrow> bool" where
  "decided_by i p decision x g \<longleftrightarrow>
     (\<exists>c e update. x = Update c e update \<and> operator_pressed c update decision i) \<and> (i, p, None) \<in> set (akeys g)"

interpretation requests: origin sg "\<lambda>g. \<exists>q. (i, p, q) \<in> set (akeys g)" "asked_by i p" for sg i p
proof
  show "\<not> (\<exists>q. (i, p, q) \<in> set (akeys new_gate))" by (simp add: new_gate_def akeys_def)
next
  fix g x
  assume g: "gate_ok g" and new: "\<not> (\<exists>q. (i, p, q) \<in> set (akeys g))" "\<exists>q. (i, p, q) \<in> set (akeys (gate_do sg x g))"
  from g show "asked_by i p x g"
    by (cases rule: gate_do_akeys [of g sg x])
      (use new in \<open>auto simp: asked_by_def press_key_def split: if_splits\<close>)
qed

interpretation decisions: origin sg "\<lambda>g. \<exists>t who. (i, p, Some (t, decision, who)) \<in> set (akeys g)" "decided_by i p decision"
  for sg i p decision
proof
  show "\<not> (\<exists>t who. (i, p, Some (t, decision, who)) \<in> set (akeys new_gate))" by (simp add: new_gate_def akeys_def)
next
  fix g x
  assume g: "gate_ok g" and new: "\<not> (\<exists>t who. (i, p, Some (t, decision, who)) \<in> set (akeys g))"
    "\<exists>t who. (i, p, Some (t, decision, who)) \<in> set (akeys (gate_do sg x g))"
  from g show "decided_by i p decision x g"
    by (cases rule: gate_do_akeys [of g sg x])
      (use new in \<open>auto simp: decided_by_def press_key_def split: if_splits\<close>)
qed

text \<open>A decision once taken stays.\<close>

lemma decision_stays:
  assumes "gate_ok g" "(i, p, Some d) \<in> set (akeys g)"
  shows "(i, p, Some d) \<in> set (akeys (gate_do sg x g))"
  using assms(1)
proof (cases rule: gate_do_akeys [of g sg x])
  case (pressed c e update decision j)
  have "press_key j (ge_now e, decision, int_text (gc_operator_chat_id c)) (i, p, Some d) = (i, p, Some d)"
    by (simp add: press_key_def)
  then show ?thesis using pressed(3) assms(2) by (metis image_eqI set_map)
qed (use assms(2) in simp_all)

lemma read_decision_akeys:
  assumes "approvals_ok g"
  shows "read_decision i g = Some (decision, p) \<longleftrightarrow> (\<exists>t who. (i, p, Some (t, decision, who)) \<in> set (akeys g))"
proof
  assume "read_decision i g = Some (decision, p)"
  then obtain a t who where "find (\<lambda>a. ar_id a = i \<and> ar_decision a \<noteq> None) (gt_approvals g) = Some a"
      "ar_decision a = Some (t, decision, who)" "ar_payload a = p"
    by (auto simp: read_decision_def split: option.splits)
  then show "\<exists>t who. (i, p, Some (t, decision, who)) \<in> set (akeys g)"
    by (force simp: akeys_def find_Some_iff image_iff in_set_conv_nth)
next
  assume "\<exists>t who. (i, p, Some (t, decision, who)) \<in> set (akeys g)"
  then obtain t who a where a: "a \<in> set (gt_approvals g)" "ar_id a = i" "ar_payload a = p" "ar_decision a = Some (t, decision, who)"
    by (auto simp: akeys_def, metis)
  then obtain a' where a': "find (\<lambda>a. ar_id a = i \<and> ar_decision a \<noteq> None) (gt_approvals g) = Some a'"
    by (cases "find (\<lambda>a. ar_id a = i \<and> ar_decision a \<noteq> None) (gt_approvals g)") (auto simp: find_None_iff)
  then have "a' \<in> set (gt_approvals g)" "ar_id a' = i" by (auto simp: find_Some_iff)
  moreover have "inj_on ar_id (set (gt_approvals g))"
    using assms by (simp add: approvals_ok_def akeys_def comp_def distinct_map)
  ultimately have "a' = a" using a by (auto dest: inj_onD)
  then show "read_decision i g = Some (decision, p)" using a a' by (simp add: read_decision_def)
qed

section \<open>One history of the gate\<close>

text \<open>
  A gate of threshold ten, the operator 1 and the group -100: user 7 verifies the wallet and
  asks for an invitation, is warned on the first day and removed on the fourth; meanwhile a
  service asks for an approval.
\<close>

definition door_rpc :: "string \<Rightarrow> rpc" where
  "door_rpc amount = (\<lambda>call account attempt.
     if call = ''getTokenSupply'' then Some (JObj [(''value'', JObj [(''decimals'', JInt 0)])])
     else Some (JObj [(''value'', JList [JObj [(''account'', JObj [(''data'', JObj [(''parsed'', JObj [(''info'',
       JObj [(''tokenAmount'', JObj [(''amount'', JStr amount)])])])])])]])]))"

definition door_conf :: gate_config where
  "door_conf = \<lparr> gc_mint = ''M'', gc_threshold_tokens = 10, gc_threshold_overrides = [], gc_operator_chat_id = 1,
     gc_message_max_age_seconds = 120, gc_challenge_ttl_seconds = 600, gc_invite_ttl_seconds = 600, gc_grace_hours = 48,
     gc_sweep_hour_utc = 0, gc_sweep_spread_seconds = 3600, gc_sweep_batch_size = 2 \<rparr>"

definition door_env :: "pyfloat \<Rightarrow> string \<Rightarrow> gate_env" where
  "door_env t amount = \<lparr> ge_now = t, ge_nonce = ''n'', ge_rpc = door_rpc amount,
     ge_invite = Some (JObj [(''invite_link'', JStr ''l'')]), ge_lookup = (\<lambda>_ _ _. ([], None)) \<rparr>"

definition door_signing :: signing where
  "door_signing = \<lparr> sg_pubkey = (\<lambda>w. w = ''W''), sg_signature = (\<lambda>s. s = ''sig''), sg_verify = (\<lambda>_ _ _. True) \<rparr>"

definition door_said :: "int \<Rightarrow> int \<Rightarrow> int \<Rightarrow> string \<Rightarrow> string \<Rightarrow> obj" where
  "door_said i uid chat kind said = [(''update_id'', JInt i), (''message'', JObj [(''chat'', JObj [(''id'', JInt chat), (''type'', JStr kind)]),
     (''from'', JObj [(''id'', JInt uid), (''is_bot'', JBool False)]), (''date'', JInt 100), (''text'', JStr said)])]"

definition door_press :: obj where
  "door_press = [(''update_id'', JInt 4), (''callback_query'', JObj [(''id'', JStr ''q''), (''from'', JObj [(''id'', JInt 1)]),
     (''data'', JStr ''gate:a:1'')])]"

definition door_steps :: "gate_step list" where
  "door_steps =
     [Update door_conf (door_env 100 ''12'') (door_said 1 1 (- 100) ''group'' ''/bind''),
      Update door_conf (door_env 100 ''12'') (door_said 2 7 7 ''private'' ''/verify W''),
      Update door_conf (door_env 100 ''12'') (door_said 3 7 7 ''private'' ''sig''),
      Request ''svc'' ''post'' ''text'' [] 100,
      Update door_conf (door_env 100 ''12'') door_press,
      Tick door_conf (door_env 200 ''3''),
      Tick door_conf (door_env 300000 ''3'')]"

lemma gate_history_fold: "gate_history sg xs g \<Longrightarrow> gate_history sg (xs @ ys) (fold (gate_do sg) ys g)"
proof (induction ys arbitrary: xs g)
  case (Cons y ys)
  from Cons.IH [OF gate_history.step [OF Cons.prems]] show ?case by simp
qed simp

definition door_gate :: "nat \<Rightarrow> gate" where
  "door_gate n = fold (gate_do door_signing) (take n door_steps) new_gate"

lemma door_history: "gate_history door_signing (take n door_steps) (door_gate n)"
  using gate_history_fold [OF gate_history.start, of _ "take n door_steps"] by (simp add: door_gate_def)

lemma door_3: "member 7 (door_gate 3) = Some (seat ''W'' 12 100)"
  unfolding door_gate_def by code_simp

lemma door_invites: "(7, - 100, 700) \<in> set (gt_invites (door_gate 3))"
  unfolding door_gate_def by code_simp

lemma door_7: "map_option me_status (member 7 (door_gate 7)) = Some Ejected"
  unfolding door_gate_def by code_simp

lemma door_read: "read_decision 1 (door_gate 5) = Some (''approve'', [])"
  unfolding door_gate_def by code_simp

section \<open>Properties\<close>

text \<open>
  C30 (safety). Whoever has a seat, after any history of messages, buttons, sweeps, deliveries and restarts,
  has proven it: an earlier update was a recent private message of this very user, it signed a
  live challenge of this user that names the wallet of the seat, and the balance read of that
  wallet at that moment reached the user's threshold.
\<close>

theorem every_seat_was_proven:
  assumes "gate_history sg xs g" "member uid g = Some m"
  shows "\<exists>before c e update after g0 said ch b d.
    xs = before @ Update c e update # after \<and> gate_history sg before g0 \<and> private_text c e update uid said \<and>
    map_of (gt_challenges g0) uid = Some ch \<and> ge_now e \<le> ch_expires_at ch \<and> ct_wallet (ch_message ch) = me_wallet m \<and>
    signature_matches sg (ch_message ch) (me_wallet m) said \<and> balance_raw (ge_rpc e) (me_wallet m) 0 = Inr b \<and>
    decimals_at c e g0 d \<and> effective_tokens c (Some uid) * 10 ^ nat d \<le> b"
proof -
  have "has_seat uid (me_wallet m) g" using assms(2) by (simp add: has_seat_def)
  then obtain before x after g0 where z: "xs = before @ x # after" "gate_history sg before g0" "seated_by sg uid (me_wallet m) x g0"
    using seats.has_origin [OF assms(1)] by blast
  then obtain c e update said b where x: "x = Update c e update" "private_text c e update uid said"
      "proves_holding sg c e uid (me_wallet m) said b g0"
    unfolding seated_by_def by blast
  then obtain ch d where p: "map_of (gt_challenges g0) uid = Some ch" "ch_wallet ch = me_wallet m" "ge_now e \<le> ch_expires_at ch"
      "signature_matches sg (ch_message ch) (me_wallet m) said" "balance_raw (ge_rpc e) (me_wallet m) 0 = Inr b"
      "decimals_at c e g0 d" "effective_tokens c (Some uid) * 10 ^ nat d \<le> b"
    unfolding proves_holding_def by blast
  moreover have "ct_wallet (ch_message ch) = me_wallet m"
    using gate_ok_history [OF z(2)] map_of_SomeD [OF p(1)] p(2) by (auto simp: gate_ok_def challenge_ok_def)
  ultimately show ?thesis using z(1,2) x(1,2) by metis
qed

theorem every_seat_was_proven_witness:
  "\<exists>before c e update after g0 said ch. take 3 door_steps = before @ Update c e update # after \<and> private_text c e update 7 said \<and>
     gate_history door_signing before g0 \<and> map_of (gt_challenges g0) 7 = Some ch \<and> ct_wallet (ch_message ch) = ''W''"
  using every_seat_was_proven [OF door_history [of 3] door_3] by (simp only: Member.select_convs) blast

text \<open>
  C13 (invariant). One wallet, one seat: after any history of the gate, every user has at most one row among
  the members and no two users have the same wallet on theirs.
\<close>

theorem one_seat_per_wallet:
  assumes "gate_history sg xs g"
  shows "distinct (map fst (gt_members g)) \<and> distinct (map (\<lambda>x. me_wallet (snd x)) (gt_members g))"
proof -
  have ok: "members_ok g" using gate_ok_history [OF assms] by (simp add: gate_ok_def)
  then have d: "distinct (map fst (gt_members g))" by (simp add: members_ok_def)
  have "inj_on (\<lambda>x. me_wallet (snd x)) (set (gt_members g))"
  proof (rule inj_onI)
    fix x y assume xy: "x \<in> set (gt_members g)" "y \<in> set (gt_members g)" "me_wallet (snd x) = me_wallet (snd y)"
    then have "fst x = fst y" using ok unfolding members_ok_def by blast
    with xy d show "x = y" by (metis eq_key_imp_eq_value prod.collapse)
  qed
  with d show ?thesis by (simp add: distinct_map)
qed

theorem one_seat_per_wallet_witness:
  "gate_history door_signing (take 3 door_steps) (door_gate 3) \<and> member 7 (door_gate 3) = Some (seat ''W'' 12 100) \<and>
   distinct (map fst (gt_members (door_gate 3))) \<and> distinct (map (\<lambda>x. me_wallet (snd x)) (gt_members (door_gate 3)))"
  using one_seat_per_wallet [OF door_history [of 3]] door_history [of 3] door_3 by blast

text \<open>
  C31 (safety). Every invitation link asked of Telegram, after any history, was asked in answer to a private
  message of the user it is for, into the group that was bound, for the configured time, and
  when the message was done with the user was a member who had not been ejected.
\<close>

theorem invitations_are_for_members:
  assumes "gate_history sg xs g" "(uid, gid, until) \<in> set (gt_invites g)"
  shows "\<exists>before c e update after g0 said m. xs = before @ Update c e update # after \<and> gate_history sg before g0 \<and>
    private_text c e update uid said \<and> gt_group_id g0 = Some gid \<and> until = \<lfloor>ge_now e\<rfloor> + gc_invite_ttl_seconds c \<and>
    member uid (gate_do sg (Update c e update) g0) = Some m \<and> me_status m \<noteq> Ejected"
proof -
  obtain before x after g0 where "xs = before @ x # after" "gate_history sg before g0" "invited_by sg uid gid until x g0"
    using invitations.has_origin [OF assms] by blast
  then show ?thesis unfolding invited_by_def by blast
qed

theorem invitations_are_for_members_witness:
  "\<exists>before c e update after said. take 3 door_steps = before @ Update c e update # after \<and> private_text c e update 7 said"
  using invitations_are_for_members [OF door_history [of 3] door_invites] by blast

text \<open>
  C32 (safety). No one is ejected but by two sweeps: at the first the member was seated and the balance
  read of the wallet fell short, which started the grace; at the second, at the end of that
  grace or later, the member was still in it and the balance read fell short again.
\<close>

theorem every_ejection_had_its_warning:
  assumes "gate_history sg xs g" "member uid g = Some m" "me_status m = Ejected"
  shows "\<exists>before c1 e1 between c2 e2 after g1 m1 g2 m2.
    xs = before @ Tick c1 e1 # between @ Tick c2 e2 # after \<and>
    gate_history sg before g1 \<and> member uid g1 = Some m1 \<and> me_status m1 = Seated \<and> short_of c1 e1 g1 uid (me_wallet m1) \<and>
    gate_history sg (before @ Tick c1 e1 # between) g2 \<and> member uid g2 = Some m2 \<and> me_status m2 = Grace \<and>
    me_grace_until m2 = Some (grace_end c1 e1) \<and> grace_end c1 e1 \<le> ge_now e2 \<and> short_of c2 e2 g2 uid (me_wallet m2)"
proof -
  have "ejected uid g" using assms(2,3) by (simp add: ejected_def)
  then obtain early x2 after g2 where o2: "xs = early @ x2 # after" "gate_history sg early g2" "removed_by uid x2 g2"
    using removals.has_origin [OF assms(1)] by blast
  then obtain c2 e2 m2 t where x2: "x2 = Tick c2 e2" "member uid g2 = Some m2" "me_status m2 = Grace"
      "short_of c2 e2 g2 uid (me_wallet m2)" "me_grace_until m2 = Some t" "t \<le> ge_now e2"
    unfolding removed_by_def by blast
  then have "in_grace uid t g2" by (simp add: in_grace_def)
  then obtain before x1 between g1 where o1: "early = before @ x1 # between" "gate_history sg before g1" "warned_by uid t x1 g1"
    using warnings.has_origin [OF o2(2)] by blast
  then obtain c1 e1 m1 where x1: "x1 = Tick c1 e1" "member uid g1 = Some m1" "me_status m1 = Seated"
      "short_of c1 e1 g1 uid (me_wallet m1)" "t = grace_end c1 e1"
    unfolding warned_by_def by blast
  have "xs = before @ Tick c1 e1 # between @ Tick c2 e2 # after" using o2(1) o1(1) x1(1) x2(1) by simp
  moreover have "gate_history sg (before @ Tick c1 e1 # between) g2" using o2(2) o1(1) x1(1) by simp
  ultimately show ?thesis using o1(2) x1(2-5) x2(2-6) by blast
qed

theorem every_ejection_had_its_warning_witness:
  "\<exists>before c1 e1 between c2 e2 after. door_steps = before @ Tick c1 e1 # between @ Tick c2 e2 # after \<and>
     grace_end c1 e1 \<le> ge_now e2"
proof -
  obtain m where m: "member 7 (door_gate 7) = Some m" "me_status m = Ejected" using door_7 by auto
  have "take 7 door_steps = door_steps" by (simp add: door_steps_def)
  with every_ejection_had_its_warning [OF door_history [of 7] m] show ?thesis by metis
qed

lemma decision_origin:
  assumes "gate_history sg xs g" "read_decision i g = Some (decision, p)"
  shows "\<exists>before src kind summary now between c e update after g1 g2.
      xs = before @ Request src kind summary p now # between @ Update c e update # after \<and> gate_history sg before g1 \<and>
      gt_next_approval g1 = i \<and> gate_history sg (before @ Request src kind summary p now # between) g2 \<and>
      read_decision i g2 = None \<and> operator_pressed c update decision i"
proof -
  note ok = gate_ok_history [OF assms(1)]
  then have ap: "approvals_ok g" by (simp add: gate_ok_def)
  then obtain t who where d: "(i, p, Some (t, decision, who)) \<in> set (akeys g)"
    using assms(2) by (auto simp: read_decision_akeys)
  obtain early x2 after g2 where o2: "xs = early @ x2 # after" "gate_history sg early g2" "decided_by i p decision x2 g2"
    using decisions.has_origin [OF assms(1)] d by blast
  then obtain c e update where x2: "x2 = Update c e update" "operator_pressed c update decision i" "(i, p, None) \<in> set (akeys g2)"
    unfolding decided_by_def by blast
  obtain before x1 between g1 where o1: "early = before @ x1 # between" "gate_history sg before g1" "asked_by i p x1 g1"
    using requests.has_origin [OF o2(2)] x2(3) by blast
  then obtain src kind summary now where x1: "gt_next_approval g1 = i" "x1 = Request src kind summary p now"
    unfolding asked_by_def by blast
  have "approvals_ok g2" using gate_ok_history [OF o2(2)] by (simp add: gate_ok_def)
  then have "read_decision i g2 \<noteq> Some (d', p')" for d' p'
    using x2(3) unfolding read_decision_akeys [OF \<open>approvals_ok g2\<close>] by (auto simp: approvals_ok_def dest: eq_key_imp_eq_value)
  then have "read_decision i g2 = None" by (cases "read_decision i g2") auto
  moreover have "xs = before @ Request src kind summary p now # between @ Update c e update # after"
    using o2(1) o1(1) x1(2) x2(1) by simp
  moreover have "gate_history sg (before @ Request src kind summary p now # between) g2" using o2(2) o1(1) x1(2) by simp
  ultimately show ?thesis using o1(2) x1(1) x2(2) by blast
qed

lemma decision_kept:
  assumes "gate_history sg xs g" "read_decision i g = Some (decision, p)"
  shows "read_decision i (gate_do sg x g) = Some (decision, p)"
proof -
  note ok = gate_ok_history [OF assms(1)]
  then have ap: "approvals_ok g" "approvals_ok (gate_do sg x g)" using gate_ok_step by (auto simp: gate_ok_def)
  obtain t who where "(i, p, Some (t, decision, who)) \<in> set (akeys g)"
    using assms(2) unfolding read_decision_akeys [OF ap(1)] by blast
  then show ?thesis using decision_stays [OF ok] unfolding read_decision_akeys [OF ap(2)] by blast
qed

text \<open>
  C33 (safety). What a service reads as the decision on its request, with what it had asked, is what the
  operator pressed: the request came first, under this number and with this payload, the
  operator's press of this decision later, on a request still undecided; and no later step
  changes what is read.
\<close>

theorem decision_is_the_operators:
  assumes "gate_history sg xs g" "read_decision i g = Some (decision, p)"
  shows "(\<exists>before src kind summary now between c e update after g1 g2.
      xs = before @ Request src kind summary p now # between @ Update c e update # after \<and> gate_history sg before g1 \<and>
      gt_next_approval g1 = i \<and> gate_history sg (before @ Request src kind summary p now # between) g2 \<and>
      read_decision i g2 = None \<and> operator_pressed c update decision i) \<and>
    read_decision i (gate_do sg x g) = Some (decision, p)"
  using decision_origin [OF assms] decision_kept [OF assms] by blast

theorem decision_is_the_operators_witness:
  "read_decision 1 (gate_do door_signing Restart (door_gate 5)) = Some (''approve'', []) \<and>
   (\<exists>before src kind summary now between c e update after. take 5 door_steps =
      before @ Request src kind summary [] now # between @ Update c e update # after \<and> operator_pressed c update ''approve'' 1)"
  using decision_is_the_operators [OF door_history [of 5] door_read, of Restart] by blast

end
