(* ===== verification/Gate_Outages.thy ===== *)
theory Gate_Outages
  imports Gate_Origins
begin

text \<open>
  Two behaviours of the gate when a provider fails: a ban whose delivery fails is overtaken by
  its unban, and a sweep that ends in an outage of the balance provider reports that nobody was
  ejected whatever it did before.
\<close>

definition accepted :: delivery where
  "accepted = Answered 200 (JObj [(''ok'', JBool True)])"

lemma retry_delay_1: "float_of (retry_delay 1) = 2"
  by code_simp

lemma flush_accepted: "flush_items now (\<lambda>_. accepted) qs g = fold (\<lambda>q. delivered (qi_id q)) qs g"
  by (induction qs arbitrary: g) (simp_all add: accepted_def jget_def)

lemma eject_outbox:
  assumes "gt_outbox g = []"
  shows "gt_outbox (eject day uid gid g) =
    [\<lparr> qi_id = gt_next_id g, qi_dedup = ''eject:'' @ int_text day @ '':'' @ int_text uid @ '':ban'', qi_payload = Ban gid uid,
       qi_attempts = 0, qi_next_attempt_at = 0 \<rparr>,
     \<lparr> qi_id = gt_next_id g + 1, qi_dedup = ''eject:'' @ int_text day @ '':'' @ int_text uid @ '':unban'', qi_payload = Unban gid uid,
       qi_attempts = 0, qi_next_attempt_at = 0 \<rparr>,
     \<lparr> qi_id = gt_next_id g + 2, qi_dedup = sweep_key day uid ''ejected'', qi_payload = Send uid Removed_below None None,
       qi_attempts = 0, qi_next_attempt_at = 0 \<rparr>]"
  using assms by (simp add: eject_def enqueue_def dm_def set_member_status_def update_member_def sweep_key_def)

text \<open>
  C34 (error). Deliveries do not keep the order of a ban and its unban: when the delivery of the
  ban fails, a flush within its two seconds of backoff delivers the unban and the user's
  message while the ban waits, and a later flush delivers the ban, so the user who was to be
  free to come back stays banned.
\<close>

theorem failed_ban_lands_after_its_unban:
  assumes "gt_outbox g = []" "0 \<le> now" "now \<le> soon" "soon < fadd now 2" "fadd now 2 \<le> late"
  shows "let g1 = flush_outbox now (\<lambda>_. No_answer) (eject day uid gid g);
             g2 = flush_outbox soon (\<lambda>_. accepted) g1;
             g3 = flush_outbox late (\<lambda>_. accepted) g2
         in map qi_payload (gt_outbox g1) = [Ban gid uid, Unban gid uid, Send uid Removed_below None None] \<and>
            map qi_payload (gt_outbox g2) = [Ban gid uid] \<and> gt_outbox g3 = []"
  using assms
  by (simp add: flush_outbox_def due_items_def eject_outbox delivery_failed_def retry_delay_1 flush_accepted delivered_def Let_def)

theorem failed_ban_lands_after_its_unban_witness:
  "map qi_payload (gt_outbox (flush_outbox 101 (\<lambda>_. accepted) (flush_outbox 100 (\<lambda>_. No_answer) (eject 3 7 (- 100) new_gate)))) =
     [Ban (- 100) 7]"
proof -
  have two: "fadd 100 2 = (102 :: pyfloat)" by code_simp
  show ?thesis
    using failed_ban_lands_after_its_unban [of new_gate 100 101 102 3 7 "- 100"] by (simp add: two new_gate_def Let_def)
qed

lemma sweep_skip_facts:
  "gt_sweep_result (sweep_skip c day reason g) = Some (Skipped day reason)"
  "gt_members (sweep_skip c day reason g) = gt_members g"
  "\<not> list_ex (\<lambda>q. qi_dedup q = ''sweep:'' @ int_text day @ '':skipped'') (gt_outbox g) \<Longrightarrow>
     map qi_payload (gt_outbox (sweep_skip c day reason g)) =
     map qi_payload (gt_outbox g) @ [Send (gc_operator_chat_id c) (Alert_skipped day reason) None None]"
  by (simp_all add: sweep_skip_def) (simp add: alert_operator_def dm_def enqueue_def)

lemma member_simps [simp]:
  "member w (update_member u f g) = (if w = u then map_option f (member u g) else member w g)"
  "member w (update_plan h g) = member w g" "member w (enqueue dk q g) = member w g" "member w (dm x n dk g) = member w g"
  using moved_member [OF moved_update_member [of u f g], of w] by (simp_all add: member_def option.map_ident)

text \<open>
  C35 (error). A sweep that a provider error ends is reported as skipped, with nobody warned or
  ejected, though the member before the error was ejected: of a batch of two whose first is
  overdue and short and whose second cannot be read, the first is ejected, with ban, unban and
  message in the outbox just before the alert.
\<close>

theorem skipped_sweep_may_have_ejected:
  assumes plan: "gt_plan g = Some p" "sp_pending p = [u, v]" "sp_next_batch_at p \<le> ge_now e" "2 \<le> gc_sweep_batch_size c"
    and gate: "gt_mint_decimals g = Some d" "gt_group_id g = Some gid" "gt_outbox g = []"
    and first: "member u g = Some m" "me_status m = Grace" "me_grace_until m = Some t" "t \<le> ge_now e"
      "balance_with_retry (ge_rpc e) (me_wallet m) = Inr b" "b < effective_tokens c (Some u) * 10 ^ nat d"
    and second: "member v g = Some m'" "u \<noteq> v" "me_status m' \<noteq> Ejected"
      "balance_with_retry (ge_rpc e) (me_wallet m') = Inl err"
  shows "let g' = snd (sweep_tick c e g) in
    gt_sweep_result g' = Some (Skipped (sp_day p) (exc_text err)) \<and> ejected u g' \<and>
    map qi_payload (gt_outbox g') = [Ban gid u, Unban gid u, Send u Removed_below None None,
      Send (gc_operator_chat_id c) (Alert_skipped (sp_day p) (exc_text err)) None None]"
proof -
  let ?n = "nat (gc_sweep_batch_size c)"
  define g0 where "g0 = update_plan (\<lambda>p. p\<lparr>sp_pending := drop ?n (sp_pending p)\<rparr>) g"
  define g1 where "g1 = update_plan (\<lambda>p. p\<lparr>sp_checked := sp_checked p + 1\<rparr>) (record_balance u b (ge_now e) g0)"
  define g2 where "g2 = update_plan (\<lambda>p. p\<lparr>sp_ejected := sp_ejected p + 1\<rparr>) (eject (sp_day p) u gid g1)"
  have two: "take ?n [u, v] = [u, v]" using plan(4) by (simp add: take_Cons' nat_le_iff)
  have same: "gt_members g0 = gt_members g" "gt_mint_decimals g1 = Some d" "gt_group_id g1 = Some gid" "gt_outbox g1 = []"
    using gate by (simp_all add: g0_def g1_def update_plan_def record_balance_def update_member_def)
  then have "member u g0 = Some m" using first(1) by (simp add: member_def)
  then have one: "sweep_member c e (sp_day p) u g0 = (Inr True, g2)"
    using first(2-) same(2,3) by (simp add: sweep_member_def threshold_raw_def apply_balance_def g1_def [symmetric] g2_def Let_def)
  have members: "member w g2 = (if w = u then map_option (\<lambda>x. x\<lparr>me_last_checked_at := Some (ge_now e),
      me_last_balance_raw := Some b, me_status := Ejected, me_grace_until := None\<rparr>) (member u g) else member w g)" for w
    by (simp add: g2_def g1_def g0_def eject_def record_balance_def set_member_status_def option.map_comp comp_def)
  have "sweep_member c e (sp_day p) v g2 = (Inr False, sweep_skip c (sp_day p) (exc_text err) g2)"
    using second members [of v] by (simp add: sweep_member_def)
  then have "run_batch c e p g = (Inr (), sweep_skip c (sp_day p) (exc_text err) g2)"
    using gate(1) plan(2) two one by (simp add: run_batch_def threshold_raw_def g0_def [symmetric] Let_def)
  then have g': "snd (sweep_tick c e g) = sweep_skip c (sp_day p) (exc_text err) g2"
    using plan(1,3) by (simp add: sweep_tick_def)
  have out: "gt_outbox g2 = gt_outbox (eject (sp_day p) u gid g1)" by (simp add: g2_def update_plan_def)
  have "ejected u (sweep_skip c (sp_day p) (exc_text err) g2)"
    using members [of u] first(1) by (simp add: ejected_def member_def sweep_skip_facts)
  moreover have "map qi_payload (gt_outbox (sweep_skip c (sp_day p) (exc_text err) g2)) = [Ban gid u, Unban gid u,
      Send u Removed_below None None, Send (gc_operator_chat_id c) (Alert_skipped (sp_day p) (exc_text err)) None None]"
    using same(4) by (subst sweep_skip_facts) (simp_all add: out eject_outbox sweep_key_def)
  ultimately show ?thesis by (simp add: g' sweep_skip_facts Let_def)
qed

definition door_late :: gate where
  "door_late = new_gate\<lparr>gt_mint_decimals := Some 0, gt_group_id := Some (- 100),
     gt_members := [(7, \<lparr> me_wallet = ''W'', me_verified_at = 0, me_status = Grace, me_grace_until = Some 100,
         me_last_checked_at = None, me_last_balance_raw = None \<rparr>), (8, seat ''V'' 12 0)],
     gt_plan := Some \<lparr> sp_day = 3, sp_pending = [7, 8], sp_next_batch_at = 0, sp_checked = 0, sp_warned = 0, sp_ejected = 0,
         sp_restored = 0 \<rparr>\<rparr>"

definition door_outage :: gate_env where
  "door_outage = (door_env 300000 ''3'')\<lparr>ge_rpc := (\<lambda>call account attempt. if account = ''V'' then None else door_rpc ''3'' call account attempt)\<rparr>"

theorem skipped_sweep_may_have_ejected_witness:
  "ejected 7 (snd (sweep_tick door_conf door_outage door_late)) \<and>
   gt_sweep_result (snd (sweep_tick door_conf door_outage door_late)) = Some (Skipped 3 ''Helius failed'')"
proof -
  have "balance_with_retry (ge_rpc door_outage) ''W'' = Inr 3"
    "balance_with_retry (ge_rpc door_outage) ''V'' = Inl (ExternalServiceError ''Helius failed'')"
    "3 < effective_tokens door_conf (Some 7) * 10 ^ nat 0"
    by code_simp+
  then show ?thesis
    using skipped_sweep_may_have_ejected [where g = door_late and u = 7 and v = 8 and e = door_outage and c = door_conf and d = 0
        and gid = "- 100" and b = 3 and t = 100]
    by (simp add: door_late_def door_outage_def door_env_def door_conf_def new_gate_def member_def exc_text_def Let_def)
qed

end
