(* ===== verification/Spec2Isabelle.thy ===== *)
theory Spec2Isabelle
  imports Position_Trace Fill LP_Guard LP_Plans LP_Gate Executor_Cost Resolver Engine_Refill Scalper_Session Paper_Desk Wiggle_Book Gate_Outages
begin

text \<open>
  Verification of the money paths of \<open>joshibot\<close>.

  The repository holds two programs. \<open>joshi\<close> is a research workbench (Rust,
  TypeScript and offline Python statistics). \<open>joshibot\<close> trades: its sentinel
  (\<open>joshibot/shitcoims_sentinel\<close>) watches the bags of one Solana wallet and sells
  them through Jupiter, and its liquidity desk (\<open>joshibot/shitcoims_lpexec\<close>) plans
  and checks Meteora DLMM transactions for another wallet. Beside the two run paper
  traders (\<open>joshibot/shitcoims_scalper\<close>, \<open>joshibot/shitcoims_paperdesk\<close>), which decide and
  mark positions without money, to measure whether a policy would pay. Around them stand
  recorders, studies, dashboards and community services. This development models the
  decisions, the checks and the books of the four.

  \<^bold>\<open>The parts and how they interact.\<close> On every poll the engine reads the wallet,
  quotes and rug measurements, evaluates the policy of each bag and, when the policy
  decides an exit, calls the executor; policies come from a validated file, per-bag
  memory is kept in a JSON state file, and at a start the engine reconciles the
  exits that were pending. The executor orders a transaction from Jupiter, checks
  it, signs it, simulates it over the whole wallet, writes its intent to the state
  file, broadcasts, and polls the cluster until the transaction is settled. The desk
  plans a trim and a ladder, has a builder make transactions, and passes each of
  them through a guard that allows nothing but liquidity management of its own pools.

  \<^bold>\<open>Foundations.\<close>
  \<^item> \<open>Prelude\<close>: exceptions as values (\<open>py_exc\<close>), results \<open>'a res\<close>, their sequencing.
  \<^item> \<open>Py_Decimal\<close>: \<open>decimal.Decimal\<close> as rationals rounded to 28 digits, half even.
  \<^item> \<open>Py_Float\<close>: \<open>float\<close> as rationals rounded to 53 bits, half even, with its error.
  \<^item> \<open>Rounding\<close>: both evaluated in integers, by code equations proved equal to the definitions.
  \<^item> \<open>Wire\<close>: bytes, little-endian integers, base64 and decoded transactions.

  \<^bold>\<open>Deciding to sell.\<close>
  \<^item> \<open>Runner\<close> (\<open>runner.py\<close>): lock-in floors and scale-out rungs; the canonical floor is
    the published table and a ratchet, a looser one is not.
  \<^item> \<open>Domain\<close> (\<open>domain.py\<close>): \<open>evaluate_position\<close> and its rules; precedence of the rug
    exit, and exactly when the evaluation raises.
  \<^item> \<open>Position_Trace\<close>: runs of evaluations, each from the state the previous one left;
    when a stop fires, how much the scale-outs can sell, when a disposal may sell.
  \<^item> \<open>Rug\<close> (\<open>rug_detector.py\<close>): an emergency rests on measurements on both sides.
  \<^item> \<open>Lots\<close> (\<open>lots.py\<close>): generations of a bag over its life, as an inductive relation.
  \<^item> \<open>Storage\<close> (\<open>storage.py\<close>): the state file and the event journal; what is written is
    read back and nothing else changes.
  \<^item> \<open>Policies\<close> (\<open>policies.py\<close>, the positions loop of \<open>config.py\<close>): the validator, the
    policy file and its round trip, the merge for bags without a policy.

  \<^bold>\<open>Selling.\<close>
  \<^item> \<open>Fill\<close> (\<open>shitcoims_kernel/fill.py\<close>, \<open>reserves.py\<close>): constant-product fills and the
    minimum output derived from reserves.
  \<^item> \<open>Clients\<close> (\<open>clients.py\<close>): what is accepted of the JSON of the RPC and of Jupiter.
  \<^item> \<open>Transaction\<close> (\<open>transaction.py\<close>): the checks on an exit transaction and on its
    simulation; \<open>Sim_Chunks\<close>: the chunks that cover a wallet of many accounts.
  \<^item> \<open>Effects\<close>: the world of the executor. Every answer of the outside is a function of
    how many questions were asked before, so a theorem quantifies over all behaviours
    of the services; every question and every write is appended to a log, so a crash
    is a prefix of the log. A calculus of pre- and postconditions (\<open>spec\<close>) serves the
    proofs.
  \<^item> \<open>Executor\<close> (\<open>executor.py\<close>): gate, resolution, simulation, order, submission, \<open>sell\<close>.
  \<^item> \<open>Executor_History\<close>, \<open>Executor_Safety\<close>, \<open>Sales\<close>: one specification per operation,
    and the properties: never two exits in flight, the state file names what is in
    flight at every crash point, nothing unchecked is broadcast, the result is true.
  \<^item> \<open>Executor_Cost\<close>: the locale \<open>meter\<close>, interpreted for questions and broadcasts; a sale
    ends within a number of questions bounded by its configuration.
  \<^item> \<open>Resolver\<close>: a cluster that answers and settles gets a verdict.
  \<^item> \<open>Reconcile\<close> (\<open>engine.py\<close>, \<open>reconcile_pending_exits\<close>): what a restart does with
    pending exits, where it keeps the executor's promise and where it breaks it.

  \<^bold>\<open>The engine.\<close>
  \<^item> \<open>Dex\<close> (\<open>clients.py\<close>): pools from DexScreener and the metadata of Pump.fun; the
    primary pool is the deepest.
  \<^item> \<open>Basis\<close> (\<open>engine.py\<close>): what the held lot cost, read back from the wallet's own
    transactions.
  \<^item> \<open>Engine\<close> (\<open>engine.py\<close>): the memory of a bag in the state file, which survives a
    restart, and one poll of one bag (\<open>inspect_position\<close>), from the market reads over the
    policy's decision to the sale and the new baselines.
  \<^item> \<open>Poll\<close>: a specification for each step of a poll and the properties of the whole. It
    broadcasts only what the policy decided on what was on file and on measurements.
  \<^item> \<open>Cycle\<close> (\<open>engine.py\<close>): the cycle over all bags of the wallet, from the relaxed stops
    over the polls, the bags without a policy and their default rules to the rewriting of
    the policy file; the heartbeat; \<open>panic\<close>.
  \<^item> \<open>Frames\<close>: code that keeps an invariant; the locale \<open>kept_by_sales\<close>, whose laws let an
    invariant pass through every operation of the executor, interpreted for the exits of
    the other mints (and in \<open>Engine_Rules\<close> and \<open>Engine_Refill\<close> for the policies).
  \<^item> \<open>Engine_Kept\<close>: the locale \<open>kept_by_engine\<close>, the same for every operation of the engine
    up to the polls of a cycle, and \<open>kept_by_cycle\<close>, which extends it to a whole one.
  \<^item> \<open>Engine_Run\<close>: their interpretation for the executor's promise, restarts, and the
    histories of the engine over all mints with the mints that a restart exposes.
  \<^item> \<open>Engine_Rules\<close>: their interpretation for the policies, what a cycle may change of them by
    itself, and a default rule that outlives its bag when a cycle breaks off.
  \<^item> \<open>Engine_Refill\<close>: the interpretation of \<open>kept_by_engine\<close> for the policies with an
    observed basis, and what these do to an edit of the operator that lands during the cycle.

  \<^bold>\<open>The liquidity desk.\<close>
  \<^item> \<open>LP_Allowlist\<close>, \<open>LP_Guard\<close> (\<open>allowlist.py\<close>, \<open>guard.py\<close>): what a guarded transaction
    can do, and which accounts the guard does not look at.
  \<^item> \<open>LP_Planner\<close>, \<open>LP_Plans\<close> (\<open>binmath.py\<close>, \<open>planner.py\<close>): rent, the trim and the
    ladder; what they remove, post and owe.
  \<^item> \<open>LP_Gate\<close> (\<open>gate.py\<close>, \<open>secrets.py\<close>): when the desk is live.

  \<^bold>\<open>The paper traders.\<close>
  \<^item> \<open>Paper_Curve\<close> (\<open>shadow.py\<close>): fills on a bonding curve, against the kernel's.
  \<^item> \<open>Scalper\<close> (\<open>policy.py\<close>, \<open>book.py\<close>): the shadow policy with its logged propensity, the
    heap of deadlines, the circuit breaker and the limits of the book.
  \<^item> \<open>Scalper_Run\<close> (\<open>shadow.py\<close>, \<open>feed.py\<close>, \<open>run_shadow.py\<close>): the marker and a turn of the
    session; \<open>Scalper_Session\<close>: the invariant of every session, and a coin it loses.
  \<^item> \<open>Desk_Policy\<close> (\<open>friction.py\<close>, \<open>feeds.py\<close>, \<open>policy.py\<close>, \<open>shitcoims_tape/schema.py\<close>): the
    friction, the observations, the five policies of the paper desk and what it logs.
  \<^item> \<open>Paper_Book\<close> (\<open>books.py\<close>, \<open>ledger.py\<close>): the rows of the ledger and the book of a desk,
    from a decision over the pending, open and armed position to its one close row.
  \<^item> \<open>Paper_Book_Kept\<close>: the invariant of a book; the locale \<open>position_loop\<close>, interpreted for
    the marking of an observation, the sweep and the drain, and \<open>desk_book\<close>, the two hooks of
    the class, interpreted for the plain books; the life of a book over saves and starts. \<open>Paper_Desk\<close>: a book stays within its
    bankroll, no feed breaks it, and the fill that is closed at once.
  \<^item> \<open>Wiggle_Book\<close> (\<open>wiggle.py\<close>, \<open>zigzag\<close> of \<open>callout_volatility.py\<close>): the watch of each coin
    and the book that extends the plain one, the second interpretation of \<open>desk_book\<close>; it
    never plans a hold.

  \<^bold>\<open>The gate.\<close> The bot in front of the holders group (\<open>joshibot/dregg_gate\<close>): a wallet signs a
  challenge, its balance is measured, and a member is invited; a daily sweep measures all again.
  \<^item> \<open>Gate_State\<close> (\<open>state.py\<close>, \<open>verify.py\<close>, \<open>approvals.py\<close>, \<open>helius.py\<close>): the tables, the
    challenge, approvals of other services, balances.
  \<^item> \<open>Gateway\<close> (\<open>gateway.py\<close>): what a message, a button and the group do.
  \<^item> \<open>Gate_Sweep\<close> (\<open>sweep.py\<close>, \<open>telegram.py\<close>, \<open>service.py\<close>): the sweep, the delivery of the
    outbox, and the histories of the gate.
  \<^item> \<open>Gate_Kept\<close>: the invariant of every history (one row per user and wallet, a deadline for
    whoever is in grace, approvals numbered apart), by what a message, a press and a tick may
    change. \<open>Gate_Origins\<close>: the locale \<open>origin\<close>, by which what holds in the end goes back to
    the step that caused it: one wallet has one seat, seats were proven, invitations are for members, ejections follow
    a warning and the grace, decisions are the operator's. \<open>Gate_Outages\<close>: what a failed
    delivery and an outage of the balance provider do.

  \<^bold>\<open>Conventions.\<close> JSON is the datatype \<open>json\<close>, a dict an association list in insertion
  order; \<open>JDec\<close> is a number or a numeral text, which the program converts before it
  uses it. An exception carries the text of its raise site; where the source
  interpolates a value that the callers do not read, the text leaves it out.
  Notifications are logged with severity and message. A dash that is not ASCII is
  written \<open>--\<close>. Amounts are unbounded integers as in Python.

  \<^bold>\<open>Bounds and fuel.\<close> The polling loop is structural on the 50 polls of the source, the
  attempts on the configured number, the loops over lists on the lists; there is no
  fuel beyond the source's own limits, and no function is partial. A simulation has
  at most 24 chunks. Witnesses run a complete sale of five units by \<open>code_simp\<close>.

  \<^bold>\<open>Parameters.\<close> Code outside the repository is an argument: the services and the signer
  (\<open>services\<close>), the transaction decoder of \<open>solders\<close> (\<open>wire_env\<close>), the public-key parser
  of the policies, the conversion of decimals to floats in the policy file, whether that
  file can be written and is accepted when read back beyond its positions, the power
  and logarithms of the C library (\<open>float_lib\<close>). The hypotheses on them are that a
  signature is not empty (\<open>signs_nonempty\<close>), that a parsed key prints as it reads
  (\<open>canonical\<close>), and for progress that the cluster answers (\<open>responsive\<close>).

  \<^bold>\<open>Not modelled.\<close> The engine's run loop and wallet streams, the snapshot for the dashboard,
  what runs at the same time (tasks are taken in order, the policy lock is not needed),
  HTTP, YAML text, files beyond the state file's atomic replacement, the wall clock
  beyond one reading per step, the printing playbook of the liquidity desk, the hashes of
  features and the text of times in the paper traders, the feeds, the toll and operator
  books and the reports of the paper desk and its hourly callout counts (their mean is a
  compensated sum of the interpreter), and every other part of the repository
  (recorders, studies, services, the workbench): they are I/O, numeric research or other
  languages. Sleeping between polls has no
  effect in the model. Inf, NaN and overflow of floats are not represented.
\<close>

end
